(* ===== verification/Prelude.thy ===== *)
theory Prelude
  imports Main "HOL-Library.Word"
begin

text \<open>
  Generic facts shared by every component: the collections of facts the component proofs use
  (\<open>js_num\<close> for the lifted JavaScript arithmetic, \<open>rx_lang\<close> for the languages of regular
  expressions, \<open>run_defs\<close> for step definitions), and lemmas on lists, residues and maps that more
  than one theory needs.
\<close>

named_theorems js_num "evaluation of JavaScript numbers, NaN included"
named_theorems rx_lang "languages of regular expressions"
named_theorems run_defs "definitions of single steps"

section \<open>Lists\<close>

lemma length_eq_SucD: "length xs = Suc n \<Longrightarrow> \<exists>y ys. xs = y # ys \<and> length ys = n"
  by (cases xs) auto

lemma length_numeral_Cons:
  "length xs = numeral k \<longleftrightarrow> (\<exists>y ys. xs = y # ys \<and> length ys = pred_numeral k)"
  by (cases xs) auto

lemma list_update_split:
  assumes "i < length xs"
  shows "xs[i := y] = take i xs @ y # drop (Suc i) xs"
  using assms by (rule upd_conv_take_nth_drop)

lemma nth_split_at:
  assumes "i < length xs"
  shows "xs = take i xs @ xs ! i # drop (Suc i) xs"
  using assms by (rule id_take_nth_drop)

lemma sum_list_update_int:
  fixes f :: "nat \<Rightarrow> 'a \<Rightarrow> int"
  assumes "i < length xs"
  shows "(\<Sum>k < length xs. f k (xs[i := y] ! k)) = (\<Sum>k < length xs. f k (xs ! k)) - f i (xs ! i) + f i y"
proof -
  have fin: "finite {..<length xs}" by simp
  have mem: "i \<in> {..<length xs}" using assms by simp
  have "(\<Sum>k < length xs. f k (xs[i := y] ! k))
      = f i (xs[i := y] ! i) + (\<Sum>k \<in> {..<length xs} - {i}. f k (xs[i := y] ! k))"
    by (rule sum.remove [OF fin mem])
  moreover have "(\<Sum>k \<in> {..<length xs} - {i}. f k (xs[i := y] ! k))
      = (\<Sum>k \<in> {..<length xs} - {i}. f k (xs ! k))"
    by (rule sum.cong) auto
  moreover have "(\<Sum>k < length xs. f k (xs ! k))
      = f i (xs ! i) + (\<Sum>k \<in> {..<length xs} - {i}. f k (xs ! k))"
    by (rule sum.remove [OF fin mem])
  ultimately show ?thesis using assms by simp
qed

section \<open>Residues\<close>

lemma mod_eq_0_diff:
  fixes a b m :: int
  assumes "a mod m = 0" and "b mod m = 0"
  shows "(a - b) mod m = 0"
  using assms by (simp add: mod_0_imp_dvd dvd_imp_mod_0)

lemma coprime_residue_shift:
  fixes w d e m :: int
  assumes "coprime w m" and "\<bar>d - e\<bar> < m" and "(w * d) mod m = (w * e) mod m"
  shows "d = e"
proof -
  have "m dvd w * d - w * e" using assms(3) by (simp add: mod_eq_dvd_iff)
  then have "m dvd w * (d - e)" by (simp add: algebra_simps)
  then have "m dvd d - e"
    using assms(1) by (simp add: coprime_commute coprime_dvd_mult_right_iff)
  then have "d - e = 0"
    using assms(2) by (meson dvd_imp_le_int zdvd_not_zless abs_of_nonneg abs_ge_zero zero_less_abs_iff not_less dvd_abs_iff)
  then show ?thesis by simp
qed

section \<open>Maps\<close>

lemma map_add_restrict_None: "k \<notin> dom m \<Longrightarrow> (m' ++ m) k = m' k"
  by (simp add: map_add_def domIff)

section \<open>Folds\<close>

text \<open>What every step keeps, a fold keeps: a property of the state, and a part of it.\<close>

lemma fold_keeps: "(\<And>x s. x \<in> set xs \<Longrightarrow> P s \<Longrightarrow> P (f x s)) \<Longrightarrow> P s \<Longrightarrow> P (fold f xs s)"
  by (induction xs arbitrary: s) auto

lemma fold_same: "(\<And>x s. x \<in> set xs \<Longrightarrow> g (f x s) = g s) \<Longrightarrow> g (fold f xs s) = g s"
  by (induction xs arbitrary: s) auto

lemma funpow_keeps: "P x \<Longrightarrow> (\<And>y. P y \<Longrightarrow> P (f y)) \<Longrightarrow> P ((f ^^ n) x)"
  by (induction n) auto

end
