(* ===== verification/Js_Strings.thy ===== *)
theory Js_Strings
  imports Prelude
begin

text \<open>
  The part of the JavaScript language and its standard library that the modelled scripts use on
  strings and numbers. A string is a list of 8-bit code units (\<open>char\<close>); a number is an \<open>int\<close> or
  NaN (\<open>jsnum\<close>, \<open>None\<close> for NaN). Every number the modelled code computes stays below \<open>2 ^ 53\<close>, where
  the double of the runtime is the integer itself.
\<close>

section \<open>Characters\<close>

definition code :: "char \<Rightarrow> nat" where
  "code c = of_char c"

definition in_range :: "char \<Rightarrow> char \<Rightarrow> char \<Rightarrow> bool" where
  "in_range lo hi c \<longleftrightarrow> code lo \<le> code c \<and> code c \<le> code hi"

definition is_digit :: "char \<Rightarrow> bool" where
  "is_digit c \<longleftrightarrow> 48 \<le> code c \<and> code c \<le> 57"

definition is_upper :: "char \<Rightarrow> bool" where
  "is_upper c \<longleftrightarrow> 65 \<le> code c \<and> code c \<le> 90"

definition is_lower :: "char \<Rightarrow> bool" where
  "is_lower c \<longleftrightarrow> 97 \<le> code c \<and> code c \<le> 122"

definition is_word :: "char \<Rightarrow> bool" where
  "is_word c \<longleftrightarrow> is_digit c \<or> is_upper c \<or> is_lower c \<or> code c = 95"

definition is_alnum :: "char \<Rightarrow> bool" where
  "is_alnum c \<longleftrightarrow> is_digit c \<or> is_upper c"

text \<open>White space and line terminators among the first 256 code units: the class \<open>\s\<close>.\<close>

definition is_space :: "char \<Rightarrow> bool" where
  "is_space c \<longleftrightarrow> (9 \<le> code c \<and> code c \<le> 13) \<or> code c = 32 \<or> code c = 160"

definition digit_val :: "char \<Rightarrow> int" where
  "digit_val c = int (code c) - 48"

lemma digit_val_bounds: "is_digit c \<Longrightarrow> 0 \<le> digit_val c \<and> digit_val c \<le> 9"
  by (auto simp: is_digit_def digit_val_def)

lemma code_inject [simp]: "code c = code d \<longleftrightarrow> c = d"
  by (simp add: code_def)

lemma digit_val_inject [simp]: "digit_val c = digit_val d \<longleftrightarrow> c = d"
  by (simp add: digit_val_def)

lemma digit_cases: "0 \<le> d \<Longrightarrow> d \<le> 9 \<Longrightarrow> (d::int) \<in> {0, 1, 2, 3, 4, 5, 6, 7, 8, 9}"
  unfolding insert_iff empty_iff by presburger

lemma is_digit_not_space: "is_digit c \<Longrightarrow> \<not> is_space c"
  by (auto simp: is_digit_def is_space_def)

lemma is_digit_not_upper: "is_digit c \<Longrightarrow> \<not> is_upper c"
  by (auto simp: is_digit_def is_upper_def)

text \<open>
  \<open>toUpperCase\<close> on one code unit: letters of ASCII and Latin-1, the sharp s to two letters. The two
  code units 181 and 255, whose upper case lies outside the 8-bit range, are kept as they are.
\<close>

definition upper1 :: "char \<Rightarrow> string" where
  "upper1 c =
     (if is_lower c then [char_of (code c - 32)]
      else if code c = 223 then ''SS''
      else if 224 \<le> code c \<and> code c \<le> 254 \<and> code c \<noteq> 247 then [char_of (code c - 32)]
      else [c])"

definition to_upper :: "string \<Rightarrow> string" where
  "to_upper s = concat (map upper1 s)"

text \<open>\<open>toLowerCase\<close> on the letters of ASCII.\<close>

definition to_lower :: "string \<Rightarrow> string" where
  "to_lower s = map (\<lambda>c. if is_upper c then char_of (code c + 32) else c) s"

lemma upper1_id: "is_digit c \<or> is_upper c \<Longrightarrow> upper1 c = [c]"
  by (auto simp: upper1_def is_digit_def is_upper_def is_lower_def)

lemma to_upper_id: "list_all (\<lambda>c. is_digit c \<or> is_upper c) s \<Longrightarrow> to_upper s = s"
  unfolding to_upper_def by (induction s) (simp_all add: upper1_id)

text \<open>\<open>s.split(/c/)\<close> for a class of characters.\<close>

fun split_where :: "(char \<Rightarrow> bool) \<Rightarrow> string \<Rightarrow> string list" where
  "split_where p [] = [[]]"
| "split_where p (c # s) =
     (if p c then [] # split_where p s
      else case split_where p s of [] \<Rightarrow> [[c]] | w # ws \<Rightarrow> (c # w) # ws)"

lemma split_where_append:
  "list_all (\<lambda>c. \<not> p c) w \<Longrightarrow> p c \<Longrightarrow> split_where p (w @ c # s) = w # split_where p s"
  by (induction w) auto

lemma split_where_single: "list_all (\<lambda>c. \<not> p c) w \<Longrightarrow> split_where p w = [w]"
  by (induction w) auto

section \<open>Numbers\<close>

type_synonym jsnum = "int option"

definition nadd :: "jsnum \<Rightarrow> jsnum \<Rightarrow> jsnum" where
  "nadd x y = (case (x, y) of (Some a, Some b) \<Rightarrow> Some (a + b) | _ \<Rightarrow> None)"

definition nsub :: "jsnum \<Rightarrow> jsnum \<Rightarrow> jsnum" where
  "nsub x y = (case (x, y) of (Some a, Some b) \<Rightarrow> Some (a - b) | _ \<Rightarrow> None)"

definition nmul :: "jsnum \<Rightarrow> jsnum \<Rightarrow> jsnum" where
  "nmul x y = (case (x, y) of (Some a, Some b) \<Rightarrow> Some (a * b) | _ \<Rightarrow> None)"

text \<open>The remainder takes the sign of the dividend and is NaN for a zero divisor.\<close>

definition js_rem :: "int \<Rightarrow> int \<Rightarrow> int" where
  "js_rem a b = sgn a * (\<bar>a\<bar> mod \<bar>b\<bar>)"

definition nmod :: "jsnum \<Rightarrow> int \<Rightarrow> jsnum" where
  "nmod x m = (if m = 0 then None else map_option (\<lambda>a. js_rem a m) x)"

text \<open>The relations: every comparison with NaN is false, \<open>!==\<close> with NaN is true.\<close>

definition num_eq :: "jsnum \<Rightarrow> jsnum \<Rightarrow> bool" where
  "num_eq x y = (case (x, y) of (Some a, Some b) \<Rightarrow> a = b | _ \<Rightarrow> False)"

definition num_lt :: "jsnum \<Rightarrow> jsnum \<Rightarrow> bool" where
  "num_lt x y = (case (x, y) of (Some a, Some b) \<Rightarrow> a < b | _ \<Rightarrow> False)"

definition num_le :: "jsnum \<Rightarrow> jsnum \<Rightarrow> bool" where
  "num_le x y = (case (x, y) of (Some a, Some b) \<Rightarrow> a \<le> b | _ \<Rightarrow> False)"

lemma nadd_simps [simp, js_num]:
  "nadd (Some a) (Some b) = Some (a + b)" "nadd None y = None" "nadd x None = None"
  by (auto simp: nadd_def split: option.splits)

lemma nsub_simps [simp, js_num]:
  "nsub (Some a) (Some b) = Some (a - b)" "nsub None y = None" "nsub x None = None"
  by (auto simp: nsub_def split: option.splits)

lemma nmul_simps [simp, js_num]:
  "nmul (Some a) (Some b) = Some (a * b)" "nmul None y = None" "nmul x None = None"
  by (auto simp: nmul_def split: option.splits)

lemma js_rem_nonneg: "0 \<le> a \<Longrightarrow> 0 < b \<Longrightarrow> js_rem a b = a mod b"
  by (cases "a = 0") (simp_all add: js_rem_def)

lemma nmod_simps [simp, js_num]:
  "nmod None m = None" "m \<noteq> 0 \<Longrightarrow> nmod (Some a) m = Some (js_rem a m)"
  by (simp_all add: nmod_def)

lemma num_eq_simps [simp, js_num]:
  "num_eq (Some a) (Some b) \<longleftrightarrow> a = b" "\<not> num_eq None y" "\<not> num_eq x None"
  by (auto simp: num_eq_def split: option.splits)

lemma num_lt_simps [simp, js_num]:
  "num_lt (Some a) (Some b) \<longleftrightarrow> a < b" "\<not> num_lt None y" "\<not> num_lt x None"
  by (auto simp: num_lt_def split: option.splits)

lemma num_le_simps [simp, js_num]:
  "num_le (Some a) (Some b) \<longleftrightarrow> a \<le> b" "\<not> num_le None y" "\<not> num_le x None"
  by (auto simp: num_le_def split: option.splits)

lemma nadd_eq_Some: "nadd x y = Some c \<longleftrightarrow> (\<exists>a b. x = Some a \<and> y = Some b \<and> c = a + b)"
  by (auto simp: nadd_def split: option.splits)

lemma nmul_eq_Some: "nmul x y = Some c \<longleftrightarrow> (\<exists>a b. x = Some a \<and> y = Some b \<and> c = a * b)"
  by (auto simp: nmul_def split: option.splits)

section \<open>Strings\<close>

definition char_at :: "string \<Rightarrow> nat \<Rightarrow> string" where
  "char_at s i = (if i < length s then [s ! i] else [])"

text \<open>\<open>substring\<close> clamps its arguments to the length and swaps them when they are out of order.\<close>

definition js_substring :: "string \<Rightarrow> nat \<Rightarrow> nat \<Rightarrow> string" where
  "js_substring s a b = take (max a b - min a b) (drop (min a b) s)"

definition substr_last :: "string \<Rightarrow> nat \<Rightarrow> string" where
  "substr_last s k = drop (length s - k) s"

text \<open>A global \<open>replace\<close> of the characters of a class (or of runs of them) by the empty string.\<close>

definition strip_class :: "(char \<Rightarrow> bool) \<Rightarrow> string \<Rightarrow> string" where
  "strip_class p s = filter (\<lambda>c. \<not> p c) s"

text \<open>The value of a string of decimal digits.\<close>

definition digits_val :: "string \<Rightarrow> int" where
  "digits_val s = foldl (\<lambda>a c. 10 * a + digit_val c) 0 s"

lemma foldl_digits: "foldl (\<lambda>a c. 10 * a + digit_val c) n s
    = n * 10 ^ length s + foldl (\<lambda>a c. 10 * a + digit_val c) 0 s"
proof (induction s arbitrary: n)
  case Nil
  then show ?case by simp
next
  case (Cons c s)
  show ?case
    using Cons.IH [of "10 * n + digit_val c"] Cons.IH [of "digit_val c"] by (simp add: algebra_simps)
qed

lemma digits_val_Nil [simp]: "digits_val [] = 0"
  by (simp add: digits_val_def)

lemma digits_val_Cons: "digits_val (c # s) = digit_val c * 10 ^ length s + digits_val s"
  using foldl_digits [of "digit_val c" s] by (simp add: digits_val_def)

lemma digits_val_snoc: "digits_val (s @ [c]) = 10 * digits_val s + digit_val c"
  by (simp add: digits_val_def)

lemma digits_val_append: "digits_val (s @ t) = digits_val s * 10 ^ length t + digits_val t"
  by (induction s) (simp_all add: digits_val_Cons algebra_simps power_add)

lemma digits_val_bounds:
  assumes "list_all is_digit s"
  shows "0 \<le> digits_val s \<and> digits_val s < 10 ^ length s"
  using assms
proof (induction s rule: rev_induct)
  case Nil
  then show ?case by simp
next
  case (snoc c s)
  then have "0 \<le> digits_val s \<and> digits_val s < 10 ^ length s" and "is_digit c" by auto
  with digit_val_bounds [of c] show ?case by (auto simp: digits_val_snoc)
qed

text \<open>
  \<open>parseInt(s, 10)\<close>: leading white space, an optional sign, the longest prefix of digits, NaN when
  that prefix is empty.
\<close>

definition parse_digits :: "string \<Rightarrow> jsnum" where
  "parse_digits s = (let d = takeWhile is_digit s in if d = [] then None else Some (digits_val d))"

definition parse_int :: "string \<Rightarrow> jsnum" where
  "parse_int s =
     (case dropWhile is_space s of
        [] \<Rightarrow> None
      | c # r \<Rightarrow>
          if c = CHR ''-'' then map_option uminus (parse_digits r)
          else if c = CHR ''+'' then parse_digits r
          else parse_digits (c # r))"

text \<open>
  \<open>Number(s)\<close> on the strings the modelled code converts: white space around an optional sign and
  decimal digits; the empty string is 0; everything else is NaN. (Fractions, exponents and the other
  literal forms do not reach the integer conversions of these scripts.)
\<close>

definition trim :: "string \<Rightarrow> string" where
  "trim s = rev (dropWhile is_space (rev (dropWhile is_space s)))"

definition unsigned_number :: "string \<Rightarrow> jsnum" where
  "unsigned_number s = (if s \<noteq> [] \<and> list_all is_digit s then Some (digits_val s) else None)"

definition to_number :: "string \<Rightarrow> jsnum" where
  "to_number s =
     (case trim s of
        [] \<Rightarrow> Some 0
      | c # r \<Rightarrow>
          if c = CHR ''-'' then map_option uminus (unsigned_number r)
          else if c = CHR ''+'' then unsigned_number r
          else unsigned_number (c # r))"

lemma minus_plus_not_digit: "\<not> is_digit (CHR ''-'')" "\<not> is_digit (CHR ''+'')"
  by (simp_all add: is_digit_def code_def)

lemma parse_int_digits:
  assumes "s \<noteq> []" and "list_all is_digit s"
  shows "parse_int s = Some (digits_val s)"
proof -
  obtain c r where s: "s = c # r" using assms(1) by (cases s) auto
  with assms(2) have c: "is_digit c" by simp
  have tw: "takeWhile is_digit s = s" using assms(2) by (simp add: takeWhile_eq_all_conv list_all_iff)
  then have pd: "parse_digits (c # r) = Some (digits_val s)"
    unfolding parse_digits_def by (simp only: s [symmetric] tw Let_def) (simp add: s)
  show ?thesis
    unfolding parse_int_def s using c is_digit_not_space [OF c] minus_plus_not_digit pd s by auto
qed

lemma parse_int_single: "parse_int [c] = (if is_digit c then Some (digit_val c) else None)"
  by (auto simp: parse_int_def parse_digits_def digits_val_def minus_plus_not_digit is_digit_not_space)

lemma trim_digits:
  assumes "list_all is_digit s"
  shows "trim s = s"
proof -
  have "dropWhile is_space t = t" if "list_all is_digit t" for t
    using that by (cases t) (auto simp: is_digit_not_space)
  then show ?thesis using assms by (simp add: trim_def list_all_rev)
qed

lemma to_number_digits:
  assumes "s \<noteq> []" and "list_all is_digit s"
  shows "to_number s = Some (digits_val s)"
proof -
  obtain c r where s: "s = c # r" using assms(1) by (cases s) auto
  then show ?thesis
    using assms trim_digits [OF assms(2)] minus_plus_not_digit
    by (auto simp: to_number_def unsigned_number_def)
qed

text \<open>Conversion of one character: a digit is its value, white space is 0, the rest is NaN.\<close>

lemma to_number_single:
  "to_number [c] = (if is_digit c then Some (digit_val c) else if is_space c then Some 0 else None)"
  by (auto simp: to_number_def trim_def unsigned_number_def digits_val_def is_digit_not_space
      minus_plus_not_digit)

subsection \<open>Decimal representation\<close>

definition digit_char :: "nat \<Rightarrow> char" where
  "digit_char d = char_of (48 + d)"

fun nat_str :: "nat \<Rightarrow> string" where
  "nat_str n = (if n < 10 then [digit_char n] else nat_str (n div 10) @ [digit_char (n mod 10)])"

declare nat_str.simps [simp del]

definition int_str :: "int \<Rightarrow> string" where
  "int_str i = (if i < 0 then CHR ''-'' # nat_str (nat (- i)) else nat_str (nat i))"

definition num_str :: "jsnum \<Rightarrow> string" where
  "num_str x = (case x of None \<Rightarrow> ''NaN'' | Some i \<Rightarrow> int_str i)"

lemma code_digit_char: "d < 10 \<Longrightarrow> code (digit_char d) = 48 + d"
  by (simp add: code_def digit_char_def)

lemma is_digit_digit_char [simp]: "d < 10 \<Longrightarrow> is_digit (digit_char d)"
  by (simp add: is_digit_def code_digit_char)

lemma digit_val_digit_char [simp]: "d < 10 \<Longrightarrow> digit_val (digit_char d) = int d"
  by (simp add: digit_val_def code_digit_char)

lemma nat_str_digits: "list_all is_digit (nat_str n) \<and> nat_str n \<noteq> []"
proof (induction n rule: nat_str.induct)
  case (1 n)
  then show ?case by (cases "n < 10") (simp_all add: nat_str.simps [of n])
qed

lemma digits_val_nat_str [simp]: "digits_val (nat_str n) = int n"
proof (induction n rule: nat_str.induct)
  case (1 n)
  show ?case
  proof (cases "n < 10")
    case True
    then show ?thesis by (simp add: nat_str.simps [of n] digits_val_Cons)
  next
    case False
    then have "digits_val (nat_str (n div 10)) = int (n div 10)" using "1" by simp
    with False show ?thesis
      by (simp add: nat_str.simps [of n] digits_val_snoc) presburger
  qed
qed

text \<open>Printing then parsing a number is the identity.\<close>

lemma to_number_num_str: "0 \<le> i \<Longrightarrow> to_number (num_str (Some i)) = Some i"
  using nat_str_digits [of "nat i"] by (simp add: num_str_def int_str_def to_number_digits)

end
