(* ===== verification/Js_Regex.thy ===== *)
theory Js_Regex
  imports Js_Strings
begin

text \<open>
  Regular expressions as JavaScript runs them. \<open>run\<close> is the backtracking matcher: it lists, in the
  order in which backtracking visits them, every position a match that starts at a position may end
  in. A position is the code unit before it (none at the start of the subject) and the rest of the
  subject. \<open>regex_test\<close> is \<open>RegExp.prototype.test\<close>. The second half gives the language of a pattern
  without assertions, proves that the matcher decides it, and collects the languages of the
  repetitions of a class as rewrite rules (\<open>rx_lang\<close>).
\<close>

section \<open>The matcher\<close>

datatype rx =
    Eps
  | Cls "char \<Rightarrow> bool"
  | Seq rx rx
  | Alt rx rx
  | Star rx
  | Bol
  | Eol
  | WordB
  | NotAhead rx

type_synonym position = "char option \<times> string"

definition word_at :: "char option \<Rightarrow> bool" where
  "word_at c = (case c of None \<Rightarrow> False | Some d \<Rightarrow> is_word d)"

definition first_unit :: "string \<Rightarrow> char option" where
  "first_unit s = (case s of [] \<Rightarrow> None | c # _ \<Rightarrow> Some c)"

fun run :: "rx \<Rightarrow> position \<Rightarrow> position list" where
  "run Eps p = [p]"
| "run (Cls f) p = (case snd p of [] \<Rightarrow> [] | c # s \<Rightarrow> if f c then [(Some c, s)] else [])"
| "run (Seq a b) p = concat (map (run b) (run a p))"
| "run (Alt a b) p = run a p @ run b p"
| "run (Star a) p =
     concat (map (\<lambda>q. if length (snd q) < length (snd p) then run (Star a) q else []) (run a p)) @ [p]"
| "run Bol p = (if fst p = None then [p] else [])"
| "run Eol p = (if snd p = [] then [p] else [])"
| "run WordB p = (if word_at (fst p) \<noteq> word_at (first_unit (snd p)) then [p] else [])"
| "run (NotAhead a) p = (if run a p = [] then [p] else [])"

declare run.simps(5) [simp del]

fun starts :: "char option \<Rightarrow> string \<Rightarrow> position list" where
  "starts pv [] = [(pv, [])]"
| "starts pv (c # s) = (pv, c # s) # starts (Some c) s"

definition regex_test :: "rx \<Rightarrow> string \<Rightarrow> bool" where
  "regex_test r s \<longleftrightarrow> list_ex (\<lambda>p. run r p \<noteq> []) (starts None s)"

text \<open>The leftmost match, the first that backtracking finds: what precedes it and what follows it.\<close>

definition regex_exec :: "rx \<Rightarrow> string \<Rightarrow> (string \<times> string \<times> string) option" where
  "regex_exec r s =
     (case find (\<lambda>p. run r p \<noteq> []) (starts None s) of
        None \<Rightarrow> None
      | Some p \<Rightarrow>
          (let q = hd (run r p); m = length (snd p) - length (snd q) in
           Some (take (length s - length (snd p)) s, take m (snd p), snd q)))"

section \<open>Derived constructors\<close>

fun pow :: "nat \<Rightarrow> rx \<Rightarrow> rx" where
  "pow 0 r = Eps"
| "pow (Suc n) r = Seq r (pow n r)"

fun upto_rx :: "nat \<Rightarrow> rx \<Rightarrow> rx" where
  "upto_rx 0 r = Eps"
| "upto_rx (Suc n) r = Alt (Seq r (upto_rx n r)) Eps"

definition rep :: "nat \<Rightarrow> nat \<Rightarrow> rx \<Rightarrow> rx" where
  "rep m n r = Seq (pow m r) (upto_rx (n - m) r)"

definition opt :: "rx \<Rightarrow> rx" where
  "opt r = Alt r Eps"

definition plus_rx :: "rx \<Rightarrow> rx" where
  "plus_rx r = Seq r (Star r)"

fun seqs :: "rx list \<Rightarrow> rx" where
  "seqs [] = Eps"
| "seqs [r] = r"
| "seqs (r # rs) = Seq r (seqs rs)"

fun alts :: "rx list \<Rightarrow> rx" where
  "alts [] = NotAhead Eps"
| "alts [r] = r"
| "alts (r # rs) = Alt r (alts rs)"

definition ch :: "char \<Rightarrow> rx" where
  "ch c = Cls (\<lambda>d. d = c)"

definition any_of :: "string \<Rightarrow> rx" where
  "any_of cs = Cls (\<lambda>c. c \<in> set cs)"

fun lit :: "string \<Rightarrow> rx" where
  "lit [] = Eps"
| "lit [c] = ch c"
| "lit (c # s) = Seq (ch c) (lit s)"

abbreviation Dig :: rx where "Dig \<equiv> Cls is_digit"
abbreviation Upp :: rx where "Upp \<equiv> Cls is_upper"
abbreviation Spc :: rx where "Spc \<equiv> Cls is_space"

definition whole :: "rx \<Rightarrow> rx" where
  "whole r = Seq Bol (Seq r Eol)"

text \<open>The flag \<open>i\<close>: a class matches a letter when it contains either of its cases.\<close>

definition swap_case :: "char \<Rightarrow> char" where
  "swap_case c = (if is_lower c then char_of (code c - 32)
     else if is_upper c then char_of (code c + 32) else c)"

fun icase :: "rx \<Rightarrow> rx" where
  "icase (Cls f) = Cls (\<lambda>c. f c \<or> f (swap_case c))"
| "icase (Seq a b) = Seq (icase a) (icase b)"
| "icase (Alt a b) = Alt (icase a) (icase b)"
| "icase (Star a) = Star (icase a)"
| "icase (NotAhead a) = NotAhead (icase a)"
| "icase r = r"

lemma swap_case_code:
  "code (swap_case c) = (if is_lower c then code c - 32 else if is_upper c then code c + 32 else code c)"
proof -
  have "code (char_of n) = n" if "n < 256" for n using that by (simp add: code_def)
  moreover have "is_lower c \<Longrightarrow> code c - 32 < 256" "is_upper c \<Longrightarrow> code c + 32 < 256"
    unfolding is_lower_def is_upper_def by linarith+
  ultimately show ?thesis by (simp add: swap_case_def)
qed

lemma swap_case_eq: "swap_case d = c \<longleftrightarrow> d = swap_case c"
proof -
  have "code (swap_case (swap_case x)) = code x" for x
    using swap_case_code [of x] swap_case_code [of "swap_case x"]
    unfolding is_lower_def is_upper_def by (auto split: if_splits)
  then have "swap_case (swap_case x) = x" for x by simp
  then show ?thesis by metis
qed

lemma icase_ch: "icase (ch c) = any_of [c, swap_case c]"
  by (simp add: ch_def any_of_def swap_case_eq)

section \<open>Languages\<close>

primrec plain :: "rx \<Rightarrow> bool" where
  "plain Eps \<longleftrightarrow> True"
| "plain (Cls f) \<longleftrightarrow> True"
| "plain (Seq a b) \<longleftrightarrow> plain a \<and> plain b"
| "plain (Alt a b) \<longleftrightarrow> plain a \<and> plain b"
| "plain (Star a) \<longleftrightarrow> plain a"
| "plain Bol \<longleftrightarrow> False"
| "plain Eol \<longleftrightarrow> False"
| "plain WordB \<longleftrightarrow> False"
| "plain (NotAhead a) \<longleftrightarrow> False"

primrec lang :: "rx \<Rightarrow> string set" where
  "lang Eps = {[]}"
| "lang (Cls f) = {s. \<exists>c. s = [c] \<and> f c}"
| "lang (Seq a b) = {s. \<exists>u v. s = u @ v \<and> u \<in> lang a \<and> v \<in> lang b}"
| "lang (Alt a b) = lang a \<union> lang b"
| "lang (Star a) = {s. \<exists>us. s = concat us \<and> (\<forall>u \<in> set us. u \<in> lang a)}"
| "lang Bol = {[]}"
| "lang Eol = {[]}"
| "lang WordB = {[]}"
| "lang (NotAhead a) = {[]}"

definition unit_after :: "char option \<Rightarrow> string \<Rightarrow> char option" where
  "unit_after pv u = (if u = [] then pv else Some (last u))"

lemma unit_after_simps [simp]:
  "unit_after pv [] = pv" "unit_after pv (u @ v) = unit_after (unit_after pv u) v"
  by (auto simp: unit_after_def)

definition decides :: "rx \<Rightarrow> bool" where
  "decides r \<longleftrightarrow> (\<forall>pv s pw t. (pw, t) \<in> set (run r (pv, s)) \<longleftrightarrow>
     (\<exists>u \<in> lang r. s = u @ t \<and> pw = unit_after pv u))"

lemma decidesD: "decides r \<Longrightarrow> (pw, t) \<in> set (run r (pv, s)) \<longleftrightarrow>
    (\<exists>u \<in> lang r. s = u @ t \<and> pw = unit_after pv u)"
  by (simp add: decides_def)

lemma decides_Cls: "decides (Cls f)"
proof -
  have "(pw, t) \<in> set (run (Cls f) (pv, s)) \<longleftrightarrow>
      (\<exists>u \<in> lang (Cls f). s = u @ t \<and> pw = unit_after pv u)" for pv s pw t
  proof (cases s)
    case Nil
    then show ?thesis by simp
  next
    case (Cons c r)
    have "(\<exists>u \<in> lang (Cls f). c # r = u @ t \<and> pw = unit_after pv u) \<longleftrightarrow> f c \<and> t = r \<and> pw = Some c"
      by (force simp: unit_after_def)
    with Cons show ?thesis by auto
  qed
  then show ?thesis by (simp add: decides_def)
qed

lemma decides_Seq:
  assumes a: "decides a" and b: "decides b"
  shows "decides (Seq a b)"
proof (unfold decides_def, intro allI iffI)
  fix pv s pw t
  assume "(pw, t) \<in> set (run (Seq a b) (pv, s))"
  then obtain px x where p: "(px, x) \<in> set (run a (pv, s))" and q: "(pw, t) \<in> set (run b (px, x))"
    by auto
  from p obtain u where u: "u \<in> lang a" "s = u @ x" "px = unit_after pv u"
    using decidesD [OF a] by blast
  from q obtain v where v: "v \<in> lang b" "x = v @ t" "pw = unit_after px v"
    using decidesD [OF b] by blast
  show "\<exists>w \<in> lang (Seq a b). s = w @ t \<and> pw = unit_after pv w"
    using u v by (intro bexI [of _ "u @ v"]) auto
next
  fix pv s pw t
  assume "\<exists>w \<in> lang (Seq a b). s = w @ t \<and> pw = unit_after pv w"
  then obtain u v where w: "u \<in> lang a" "v \<in> lang b" "s = u @ (v @ t)"
      "pw = unit_after (unit_after pv u) v" by auto
  have "(unit_after pv u, v @ t) \<in> set (run a (pv, s))"
    using w(1,3) decidesD [OF a] by blast
  moreover have "(pw, t) \<in> set (run b (unit_after pv u, v @ t))"
    using w(2,4) decidesD [OF b] by blast
  ultimately show "(pw, t) \<in> set (run (Seq a b) (pv, s))" by auto
qed

lemma star_Cons:
  assumes "u \<in> lang a" and "v \<in> lang (Star a)"
  shows "u @ v \<in> lang (Star a)"
proof -
  obtain us where "v = concat us" "\<forall>u \<in> set us. u \<in> lang a" using assms(2) by auto
  then have "u @ v = concat (u # us)" "\<forall>x \<in> set (u # us). x \<in> lang a" using assms(1) by auto
  then show ?thesis unfolding lang.simps by blast
qed

lemma concat_nonempty: "concat us = concat (filter (\<lambda>u. u \<noteq> []) us)"
  by (induction us) auto

lemma star_unfold:
  assumes "w \<in> lang (Star a)" and "w \<noteq> []"
  shows "\<exists>u v. w = u @ v \<and> u \<noteq> [] \<and> u \<in> lang a \<and> v \<in> lang (Star a)"
proof -
  obtain us where us: "w = concat us" "\<forall>u \<in> set us. u \<in> lang a" using assms(1) by auto
  then have w: "w = concat (filter (\<lambda>u. u \<noteq> []) us)" using concat_nonempty [of us] by simp
  with assms(2) obtain u vs where f: "filter (\<lambda>u. u \<noteq> []) us = u # vs"
    by (cases "filter (\<lambda>u. u \<noteq> []) us") auto
  then have "set (u # vs) \<subseteq> set us" "u \<noteq> []"
    by (metis filter_is_subset) (metis (full_types) f filter_eq_ConsD)
  then have "u \<in> lang a" "concat vs \<in> lang (Star a)" using us(2) by auto
  then show ?thesis using w f \<open>u \<noteq> []\<close> by auto
qed

lemma run_Star_lang:
  assumes a: "decides a"
  shows "(pw, t) \<in> set (run (Star a) (pv, s)) \<longleftrightarrow>
    (\<exists>w \<in> lang (Star a). s = w @ t \<and> pw = unit_after pv w)"
proof (induction "length s" arbitrary: pv s rule: less_induct)
  case less
  show ?case
  proof
    assume q: "(pw, t) \<in> set (run (Star a) (pv, s))"
    show "\<exists>w \<in> lang (Star a). s = w @ t \<and> pw = unit_after pv w"
    proof (cases "(pw, t) = (pv, s)")
      case True
      moreover have "[] \<in> lang (Star a)" unfolding lang.simps by (rule CollectI, rule exI [of _ "[]"]) simp
      ultimately show ?thesis by (intro bexI [of _ "[]"]) simp_all
    next
      case False
      with q obtain px x where p: "(px, x) \<in> set (run a (pv, s))" "length x < length s"
          "(pw, t) \<in> set (run (Star a) (px, x))"
        unfolding run.simps(5) [of a "(pv, s)"] by (auto split: if_splits)
      from p(1) obtain u where u: "u \<in> lang a" "s = u @ x" "px = unit_after pv u"
        using decidesD [OF a] by blast
      from less [OF p(2)] p(3) obtain v
        where v: "v \<in> lang (Star a)" "x = v @ t" "pw = unit_after px v" by blast
      have "u @ v \<in> lang (Star a)" by (rule star_Cons [OF u(1) v(1)])
      then show ?thesis using u v by (intro bexI [of _ "u @ v"]) simp_all
    qed
  next
    assume "\<exists>w \<in> lang (Star a). s = w @ t \<and> pw = unit_after pv w"
    then obtain w where w: "w \<in> lang (Star a)" "s = w @ t" "pw = unit_after pv w" by blast
    show "(pw, t) \<in> set (run (Star a) (pv, s))"
    proof (cases "w = []")
      case True
      with w show ?thesis unfolding run.simps(5) [of a "(pv, s)"] by simp
    next
      case False
      obtain u v where uv: "w = u @ v" "u \<noteq> []" "u \<in> lang a" "v \<in> lang (Star a)"
        using star_unfold [OF w(1) False] by blast
      have p: "(unit_after pv u, v @ t) \<in> set (run a (pv, s))"
        using uv w decidesD [OF a] by auto
      have len: "length (v @ t) < length s" using uv w by simp
      have "pw = unit_after (unit_after pv u) v" using w(3) uv(1) by simp
      then have step: "(pw, t) \<in> set (run (Star a) (unit_after pv u, v @ t))"
        using uv(4) less [OF len, of "unit_after pv u"] by blast
      have "(pw, t) \<in> set (concat (map (\<lambda>q. if length (snd q) < length s then run (Star a) q else [])
          (run a (pv, s))))"
        unfolding set_concat set_map using p len step by (intro UN_I [OF imageI [OF p]]) simp
      then show ?thesis unfolding run.simps(5) [of a "(pv, s)"] by simp
    qed
  qed
qed

lemma plain_decides: "plain r \<Longrightarrow> decides r"
proof (induction r)
  case Eps
  show ?case by (auto simp: decides_def)
next
  case (Cls f)
  show ?case by (rule decides_Cls)
next
  case (Alt a b)
  then show ?case by (auto simp: decides_def)
next
  case (Star a)
  then have "decides a" by simp
  then show ?case unfolding decides_def [of "Star a"] by (intro allI run_Star_lang)
qed (auto intro: decides_Seq)

lemma Bex_pair: "(\<exists>q \<in> A. P q) \<longleftrightarrow> (\<exists>x y. (x, y) \<in> A \<and> P (x, y))"
  by auto

lemma run_Seq_nonempty: "run (Seq a b) p \<noteq> [] \<longleftrightarrow> (\<exists>q \<in> set (run a p). run b q \<noteq> [])"
  by auto

lemma starts_None: "(None, t) \<in> set (starts None s) \<longleftrightarrow> t = s"
proof -
  have "(None, t) \<notin> set (starts (Some c) s)" for c s
    by (induction s arbitrary: c) auto
  then show ?thesis by (cases s) auto
qed

lemma starts_suffix: "(\<exists>pv'. (pv', t) \<in> set (starts pv s)) \<longleftrightarrow> (\<exists>u. s = u @ t)"
proof (induction s arbitrary: pv)
  case Nil
  show ?case by auto
next
  case (Cons c s)
  show ?case using Cons.IH [of "Some c"] by (auto simp: Cons_eq_append_conv)
qed

lemma nonempty_run:
  assumes "plain r"
  shows "run r (pv, s) \<noteq> [] \<longleftrightarrow> (\<exists>u v. s = u @ v \<and> u \<in> lang r)"
proof -
  have "run r (pv, s) \<noteq> [] \<longleftrightarrow> (\<exists>pw t. (pw, t) \<in> set (run r (pv, s)))"
    by (cases "run r (pv, s)") auto
  also have "\<dots> \<longleftrightarrow> (\<exists>pw t. \<exists>u \<in> lang r. s = u @ t \<and> pw = unit_after pv u)"
    by (simp only: decidesD [OF plain_decides [OF assms]])
  finally show ?thesis by blast
qed

lemma run_Eol:
  assumes "plain r"
  shows "run (Seq r Eol) (pv, s) \<noteq> [] \<longleftrightarrow> s \<in> lang r"
proof -
  have "run (Seq r Eol) (pv, s) \<noteq> [] \<longleftrightarrow> (\<exists>q \<in> set (run r (pv, s)). run Eol q \<noteq> [])"
    by (simp only: run.simps concat_eq_Nil_conv) auto
  also have "\<dots> \<longleftrightarrow> (\<exists>pw. (pw, []) \<in> set (run r (pv, s)))"
    by (auto split: if_splits intro: bexI [of _ "(_, [])"])
  also have "\<dots> \<longleftrightarrow> s \<in> lang r"
    by (auto simp: decidesD [OF plain_decides [OF assms]])
  finally show ?thesis .
qed

lemma test_Bol: "regex_test (Seq Bol r) s \<longleftrightarrow> run r (None, s) \<noteq> []"
proof -
  have "regex_test (Seq Bol r) s \<longleftrightarrow> (\<exists>pv t. (pv, t) \<in> set (starts None s) \<and> pv = None \<and> run r (pv, t) \<noteq> [])"
    unfolding regex_test_def list_ex_iff by (auto split: if_splits) (metis fst_conv)
  then show ?thesis by (auto simp: starts_None)
qed

lemma test_iff_run: "regex_test r s \<longleftrightarrow> (\<exists>pv t. (pv, t) \<in> set (starts None s) \<and> run r (pv, t) \<noteq> [])"
  unfolding regex_test_def list_ex_iff by auto

text \<open>\<open>/^r$/.test(s)\<close>, \<open>/^r/.test(s)\<close>, \<open>/r$/.test(s)\<close> and \<open>/r/.test(s)\<close>.\<close>

lemma test_whole [rx_lang]: "plain r \<Longrightarrow> regex_test (whole r) s \<longleftrightarrow> s \<in> lang r"
  unfolding whole_def test_Bol by (rule run_Eol)

lemma test_prefix:
  "plain r \<Longrightarrow> regex_test (Seq Bol r) s \<longleftrightarrow> (\<exists>u v. s = u @ v \<and> u \<in> lang r)"
  unfolding test_Bol by (rule nonempty_run)

lemma test_anywhere:
  assumes "plain r"
  shows "regex_test r s \<longleftrightarrow> (\<exists>u v w. s = u @ v @ w \<and> v \<in> lang r)"
proof -
  have "regex_test r s \<longleftrightarrow>
      (\<exists>t. (\<exists>pv. (pv, t) \<in> set (starts None s)) \<and> (\<exists>v w. t = v @ w \<and> v \<in> lang r))"
    unfolding test_iff_run nonempty_run [OF assms] by blast
  then show ?thesis unfolding starts_suffix by blast
qed

lemma test_Alt: "regex_test (Alt a b) s \<longleftrightarrow> regex_test a s \<or> regex_test b s"
  by (auto simp: regex_test_def list_ex_iff)

section \<open>Languages of the derived constructors\<close>

lemma plain_derived [simp]:
  "plain r \<Longrightarrow> plain (pow n r)" "plain r \<Longrightarrow> plain (upto_rx n r)"
  "plain r \<Longrightarrow> plain (rep m n r)" "plain r \<Longrightarrow> plain (opt r)" "plain r \<Longrightarrow> plain (plus_rx r)"
  "plain (ch c)" "plain (any_of cs)"
proof -
  show p: "plain r \<Longrightarrow> plain (pow n r)" for n by (induction n) auto
  show u: "plain r \<Longrightarrow> plain (upto_rx n r)" for n by (induction n) auto
  show "plain r \<Longrightarrow> plain (rep m n r)" by (simp add: rep_def p u)
qed (simp_all add: opt_def plus_rx_def ch_def any_of_def)

lemma plain_lit [simp]: "plain (lit s)"
  by (induction s rule: lit.induct) auto

lemma plain_seqs [simp]: "plain (seqs rs) \<longleftrightarrow> list_all plain rs"
  by (induction rs rule: seqs.induct) auto

lemma plain_icase [simp]: "plain (icase r) \<longleftrightarrow> plain r"
  by (induction r) auto

lemma lang_Seq_iff: "s \<in> lang (Seq a b) \<longleftrightarrow> (\<exists>u v. s = u @ v \<and> u \<in> lang a \<and> v \<in> lang b)"
  by simp

lemma lang_Seq_Cls [rx_lang]:
  "s \<in> lang (Seq (Cls f) r) \<longleftrightarrow> (\<exists>c t. s = c # t \<and> f c \<and> t \<in> lang r)"
proof
  assume "s \<in> lang (Seq (Cls f) r)"
  then show "\<exists>c t. s = c # t \<and> f c \<and> t \<in> lang r" by auto
next
  assume "\<exists>c t. s = c # t \<and> f c \<and> t \<in> lang r"
  then obtain c t where "s = [c] @ t" "[c] \<in> lang (Cls f)" "t \<in> lang r" by auto
  then show "s \<in> lang (Seq (Cls f) r)" unfolding lang_Seq_iff by blast
qed

lemma lang_pow_Cls [rx_lang]: "s \<in> lang (pow n (Cls f)) \<longleftrightarrow> length s = n \<and> list_all f s"
proof (induction n arbitrary: s)
  case 0
  show ?case by auto
next
  case (Suc n)
  have "s \<in> lang (pow (Suc n) (Cls f)) \<longleftrightarrow> (\<exists>c t. s = c # t \<and> f c \<and> t \<in> lang (pow n (Cls f)))"
    unfolding pow.simps by (rule lang_Seq_Cls)
  then show ?case unfolding Suc.IH by (cases s) auto
qed

lemma lang_upto_Cls [rx_lang]: "s \<in> lang (upto_rx n (Cls f)) \<longleftrightarrow> length s \<le> n \<and> list_all f s"
proof (induction n arbitrary: s)
  case 0
  show ?case by auto
next
  case (Suc n)
  have "s \<in> lang (upto_rx (Suc n) (Cls f)) \<longleftrightarrow>
      (\<exists>c t. s = c # t \<and> f c \<and> t \<in> lang (upto_rx n (Cls f))) \<or> s = []"
    unfolding upto_rx.simps lang.simps(4) Un_iff lang_Seq_Cls by simp
  then show ?case unfolding Suc.IH by (cases s) auto
qed

lemma lang_rep_Cls [rx_lang]:
  assumes "m \<le> n"
  shows "s \<in> lang (rep m n (Cls f)) \<longleftrightarrow> m \<le> length s \<and> length s \<le> n \<and> list_all f s"
proof
  assume "s \<in> lang (rep m n (Cls f))"
  then show "m \<le> length s \<and> length s \<le> n \<and> list_all f s"
    using assms by (auto simp: rep_def lang_pow_Cls lang_upto_Cls)
next
  assume s: "m \<le> length s \<and> length s \<le> n \<and> list_all f s"
  have "list_all f (take m s) \<and> list_all f (drop m s)"
    using s by (metis append_take_drop_id list_all_append)
  moreover have "length s - m \<le> n - m" using s diff_le_mono by blast
  ultimately have "s = take m s @ drop m s \<and> take m s \<in> lang (pow m (Cls f)) \<and>
      drop m s \<in> lang (upto_rx (n - m) (Cls f))"
    using s by (simp add: lang_pow_Cls lang_upto_Cls min_def)
  then show "s \<in> lang (rep m n (Cls f))" unfolding rep_def lang.simps by blast
qed

lemma lang_Star_Cls [rx_lang]: "s \<in> lang (Star (Cls f)) \<longleftrightarrow> list_all f s"
proof
  assume "list_all f s"
  then show "s \<in> lang (Star (Cls f))"
    by (auto simp: list_all_iff intro!: exI [of _ "map (\<lambda>c. [c]) s"])
next
  assume "s \<in> lang (Star (Cls f))"
  then show "list_all f s" by (force simp: list_all_iff)
qed

lemma lang_plus_Cls [rx_lang]: "s \<in> lang (plus_rx (Cls f)) \<longleftrightarrow> s \<noteq> [] \<and> list_all f s"
  unfolding plus_rx_def lang_Seq_Cls lang_Star_Cls by (cases s) auto

lemma lang_opt [rx_lang]: "s \<in> lang (opt r) \<longleftrightarrow> s = [] \<or> s \<in> lang r"
  by (auto simp: opt_def)

lemma lang_Cls [rx_lang]: "s \<in> lang (Cls f) \<longleftrightarrow> (\<exists>c. s = [c] \<and> f c)"
  by auto

lemma lang_ch [rx_lang]: "s \<in> lang (ch c) \<longleftrightarrow> s = [c]"
  by (auto simp: ch_def)

lemma lang_any_of [rx_lang]: "s \<in> lang (any_of cs) \<longleftrightarrow> (\<exists>c \<in> set cs. s = [c])"
  by (auto simp: any_of_def)

lemma lang_lit [rx_lang]: "s \<in> lang (lit t) \<longleftrightarrow> s = t"
  by (induction t arbitrary: s rule: lit.induct) (auto simp: ch_def)

lemma lang_Seq_ch [rx_lang]: "s \<in> lang (Seq (ch c) r) \<longleftrightarrow> (\<exists>t. s = c # t \<and> t \<in> lang r)"
  unfolding ch_def lang_Seq_Cls by auto

lemma lang_Seq_pow_Cls [rx_lang]:
  "s \<in> lang (Seq (pow n (Cls f)) r) \<longleftrightarrow>
     n \<le> length s \<and> list_all f (take n s) \<and> drop n s \<in> lang r"
proof
  assume "s \<in> lang (Seq (pow n (Cls f)) r)"
  then show "n \<le> length s \<and> list_all f (take n s) \<and> drop n s \<in> lang r"
    unfolding lang_Seq_iff lang_pow_Cls by auto
next
  assume "n \<le> length s \<and> list_all f (take n s) \<and> drop n s \<in> lang r"
  then show "s \<in> lang (Seq (pow n (Cls f)) r)"
    unfolding lang_Seq_iff lang_pow_Cls
    by (intro exI [of _ "take n s"] exI [of _ "drop n s"]) auto
qed

section \<open>Patterns that end in \<open>$\<close>\<close>

primrec eol_form :: "rx \<Rightarrow> bool" where
  "eol_form Eps \<longleftrightarrow> False"
| "eol_form (Cls f) \<longleftrightarrow> False"
| "eol_form (Seq a b) \<longleftrightarrow> plain a \<and> eol_form b"
| "eol_form (Alt a b) \<longleftrightarrow> eol_form a \<and> eol_form b"
| "eol_form (Star a) \<longleftrightarrow> False"
| "eol_form Bol \<longleftrightarrow> False"
| "eol_form Eol \<longleftrightarrow> True"
| "eol_form WordB \<longleftrightarrow> False"
| "eol_form (NotAhead a) \<longleftrightarrow> False"

lemma run_eol_form: "eol_form r \<Longrightarrow> run r (pv, s) \<noteq> [] \<longleftrightarrow> s \<in> lang r"
proof (induction r arbitrary: pv s)
  case (Seq a b)
  have "run (Seq a b) (pv, s) \<noteq> [] \<longleftrightarrow> (\<exists>pw t. (pw, t) \<in> set (run a (pv, s)) \<and> run b (pw, t) \<noteq> [])"
    by (simp only: run.simps concat_eq_Nil_conv) auto
  also have "\<dots> \<longleftrightarrow> (\<exists>t. \<exists>u \<in> lang a. s = u @ t \<and> t \<in> lang b)"
    using Seq.prems by (simp add: decidesD [OF plain_decides] Seq.IH(2)) blast
  also have "\<dots> \<longleftrightarrow> s \<in> lang (Seq a b)" unfolding lang_Seq_iff by blast
  finally show ?case .
next
  case (Alt a b)
  then show ?case by (simp add: Alt.IH)
qed simp_all

text \<open>\<open>/...$/.test(s)\<close>: a match may start anywhere.\<close>

lemma test_eol_form:
  assumes "eol_form r"
  shows "regex_test r s \<longleftrightarrow> (\<exists>u v. s = u @ v \<and> v \<in> lang r)"
proof -
  have "regex_test r s \<longleftrightarrow> (\<exists>t. (\<exists>pv. (pv, t) \<in> set (starts None s)) \<and> t \<in> lang r)"
    unfolding test_iff_run run_eol_form [OF assms] by blast
  then show ?thesis unfolding starts_suffix by blast
qed

text \<open>\<open>/^...$/.test(s)\<close> for a pattern whose inside has no assertion.\<close>

lemma test_anchored [rx_lang]: "eol_form r \<Longrightarrow> regex_test (Seq Bol r) s \<longleftrightarrow> s \<in> lang r"
  unfolding test_Bol by (rule run_eol_form)

lemma lang_Seq_Eol [rx_lang]: "s \<in> lang (Seq r Eol) \<longleftrightarrow> s \<in> lang r"
  by simp

lemma lang_Eol [rx_lang]: "s \<in> lang Eol \<longleftrightarrow> s = []"
  by simp

lemma lang_Seq_Alt [rx_lang]:
  "s \<in> lang (Seq (Alt a b) r) \<longleftrightarrow> s \<in> lang (Seq a r) \<or> s \<in> lang (Seq b r)"
  unfolding lang_Seq_iff by auto

lemma lang_Alt [rx_lang]: "s \<in> lang (Alt a b) \<longleftrightarrow> s \<in> lang a \<or> s \<in> lang b"
  by simp

lemma lang_Seq_opt [rx_lang]:
  "s \<in> lang (Seq (opt a) r) \<longleftrightarrow> s \<in> lang (Seq a r) \<or> s \<in> lang r"
  unfolding lang_Seq_iff lang_opt by auto

lemma lang_Seq_assoc [rx_lang]: "s \<in> lang (Seq (Seq a b) r) \<longleftrightarrow> s \<in> lang (Seq a (Seq b r))"
  unfolding lang_Seq_iff by (metis append.assoc)

end
