(* ===== verification/Js_Regex_Syntax.thy ===== *)
theory Js_Regex_Syntax
  imports Js_Regex
begin

text \<open>
  The concrete syntax of regular expressions, so that a pattern of the scripts stands in the model as
  the text it has in the source, and the patterns a script builds at run time (\<open>new RegExp(s)\<close>) are
  modelled too. A string literal of the logic cannot contain a backslash: \<open>re\<close> reads its argument
  with the percent sign in place of the backslash (and so \<open>%%\<close> for a literal percent sign).
\<close>

section \<open>Classes\<close>

datatype citem = One char | Rng nat nat | Pre "char \<Rightarrow> bool"

fun item_has :: "char \<Rightarrow> citem \<Rightarrow> bool" where
  "item_has c (One d) \<longleftrightarrow> c = d"
| "item_has c (Rng lo hi) \<longleftrightarrow> lo \<le> code c \<and> code c \<le> hi"
| "item_has c (Pre p) \<longleftrightarrow> p c"

definition cls :: "citem list \<Rightarrow> char \<Rightarrow> bool" where
  "cls items c \<longleftrightarrow> list_ex (item_has c) items"

lemma cls_simps [simp]:
  "cls [Rng 48 57] = is_digit" "cls [Rng 65 90] = is_upper" "cls [Rng 97 122] = is_lower"
  "cls [Pre is_digit, Rng 65 90] = is_alnum" "cls [Rng 65 90, Rng 48 57] = is_alnum"
  by (auto simp: cls_def is_digit_def is_upper_def is_lower_def is_alnum_def)

definition not_in :: "(char \<Rightarrow> bool) \<Rightarrow> char \<Rightarrow> bool" where
  "not_in p c \<longleftrightarrow> \<not> p c"

text \<open>The class of the dot: no line terminator.\<close>

definition any_char :: "char \<Rightarrow> bool" where
  "any_char c \<longleftrightarrow> code c \<noteq> 10 \<and> code c \<noteq> 13"

definition hex_val :: "char \<Rightarrow> nat" where
  "hex_val c = (if is_digit c then code c - 48 else if is_upper c then code c - 55 else code c - 87)"

definition hex_code :: "string \<Rightarrow> nat" where
  "hex_code s = foldl (\<lambda>a c. 16 * a + hex_val c) 0 s"

abbreviation bsl :: char where "bsl \<equiv> CHR 0x5C"

text \<open>What follows a backslash: a class, or a code unit.\<close>

fun escape :: "string \<Rightarrow> (citem \<times> string) option" where
  "escape [] = None"
| "escape (c # s) =
     (if c = CHR ''d'' then Some (Pre is_digit, s)
      else if c = CHR ''D'' then Some (Pre (not_in is_digit), s)
      else if c = CHR ''w'' then Some (Pre is_word, s)
      else if c = CHR ''W'' then Some (Pre (not_in is_word), s)
      else if c = CHR ''s'' then Some (Pre is_space, s)
      else if c = CHR ''S'' then Some (Pre (not_in is_space), s)
      else if c = CHR ''n'' then Some (Rng 10 10, s)
      else if c = CHR ''r'' then Some (Rng 13 13, s)
      else if c = CHR ''t'' then Some (Rng 9 9, s)
      else if c = CHR ''u'' then
        (if length s < 4 then None else let n = hex_code (take 4 s) in Some (Rng n n, drop 4 s))
      else if c = CHR ''x'' then
        (if length s < 2 then None else let n = hex_code (take 2 s) in Some (Rng n n, drop 2 s))
      else Some (One c, s))"

definition class_atom :: "string \<Rightarrow> (citem \<times> string) option" where
  "class_atom s = (case s of [] \<Rightarrow> None | c # r \<Rightarrow>
     if c = bsl then escape r else Some (One c, r))"

text \<open>The code of an item that may bound a range.\<close>

fun item_code :: "citem \<Rightarrow> nat option" where
  "item_code (One c) = Some (code c)"
| "item_code (Rng lo hi) = (if lo = hi then Some lo else None)"
| "item_code (Pre p) = None"

fun strip_prefix :: "string \<Rightarrow> string \<Rightarrow> string option" where
  "strip_prefix [] s = Some s"
| "strip_prefix (c # p) (d # s) = (if c = d then strip_prefix p s else None)"
| "strip_prefix (c # p) [] = None"

text \<open>The items up to the closing bracket; a hyphen makes a range unless it comes last.\<close>

fun class_items :: "string \<Rightarrow> string \<Rightarrow> (citem list \<times> string) option" where
  "class_items [] s = None"
| "class_items (_ # n) s =
     (case s of
        [] \<Rightarrow> None
      | c # r \<Rightarrow>
          if c = CHR '']'' then Some ([], r)
          else case class_atom (c # r) of
              None \<Rightarrow> None
            | Some (i, t) \<Rightarrow>
                (case (item_code i, strip_prefix ''-'' t) of
                   (Some lo, Some (e # u)) \<Rightarrow>
                     if e = CHR '']'' then Some ([i, One CHR ''-''], u)
                     else (case class_atom (e # u) of
                         None \<Rightarrow> None
                       | Some (j, v) \<Rightarrow>
                           (case item_code j of
                              None \<Rightarrow> None
                            | Some hi \<Rightarrow> map_option (\<lambda>(is, w). (Rng lo hi # is, w)) (class_items n v)))
                 | _ \<Rightarrow> map_option (\<lambda>(is, w). (i # is, w)) (class_items n t)))"

section \<open>Terms\<close>

definition nat_prefix :: "string \<Rightarrow> (nat \<times> string) option" where
  "nat_prefix s = (let d = takeWhile is_digit s in
     if d = [] then None else Some (nat (digits_val d), dropWhile is_digit s))"

definition skip_lazy :: "string \<Rightarrow> string" where
  "skip_lazy s = (case s of c # r \<Rightarrow> if c = CHR ''?'' then r else s | [] \<Rightarrow> [])"

text \<open>
  The quantifier after an atom. Reluctant quantifiers are read as greedy ones: the two differ only in
  which of several matches \<open>exec\<close> finds, never in whether there is one.
\<close>

definition quantify :: "rx \<Rightarrow> string \<Rightarrow> (rx \<times> string) option" where
  "quantify r s =
     (case s of
        [] \<Rightarrow> Some (r, [])
      | c # t \<Rightarrow>
          if c = CHR ''*'' then Some (Star r, skip_lazy t)
          else if c = CHR ''+'' then Some (plus_rx r, skip_lazy t)
          else if c = CHR ''?'' then Some (opt r, skip_lazy t)
          else if c = CHR ''{'' then
            (case nat_prefix t of
               None \<Rightarrow> None
             | Some (m, u) \<Rightarrow>
                 (case strip_prefix ''}'' u of
                    Some v \<Rightarrow> Some (pow m r, skip_lazy v)
                  | None \<Rightarrow>
                      (case strip_prefix '',}'' u of
                         Some v \<Rightarrow> Some (Seq (pow m r) (Star r), skip_lazy v)
                       | None \<Rightarrow>
                           (case strip_prefix '','' u of
                              None \<Rightarrow> None
                            | Some v \<Rightarrow>
                                (case nat_prefix v of
                                   None \<Rightarrow> None
                                 | Some (n, w) \<Rightarrow>
                                     map_option (\<lambda>x. (rep m n r, skip_lazy x)) (strip_prefix ''}'' w))))))
          else Some (r, s))"

definition item_rx :: "citem \<Rightarrow> rx" where
  "item_rx i = (case i of
      One c \<Rightarrow> ch c
    | Rng lo hi \<Rightarrow> Cls (cls [Rng lo hi])
    | Pre p \<Rightarrow> Cls p)"

fun p_alt :: "string \<Rightarrow> string \<Rightarrow> (rx \<times> string) option"
and p_seq :: "string \<Rightarrow> string \<Rightarrow> (rx \<times> string) option"
and p_term :: "string \<Rightarrow> string \<Rightarrow> (rx \<times> string) option" where
  "p_alt [] s = None"
| "p_alt (_ # n) s =
     (case p_seq n s of
        None \<Rightarrow> None
      | Some (r, t) \<Rightarrow>
          (case strip_prefix ''|'' t of
             Some u \<Rightarrow> map_option (\<lambda>(q, v). (Alt r q, v)) (p_alt n u)
           | None \<Rightarrow> Some (r, t)))"
| "p_seq [] s = None"
| "p_seq (_ # n) s =
     (case s of
        [] \<Rightarrow> Some (Eps, [])
      | c # _ \<Rightarrow>
          if c = CHR ''|'' \<or> c = CHR '')'' then Some (Eps, s)
          else case p_term n s of
              None \<Rightarrow> None
            | Some (r, t) \<Rightarrow>
                if t = [] \<or> hd t = CHR ''|'' \<or> hd t = CHR '')'' then Some (r, t)
                else map_option (\<lambda>(q, u). (Seq r q, u)) (p_seq n t))"
| "p_term [] s = None"
| "p_term (_ # n) s =
     (case s of
        [] \<Rightarrow> None
      | c # t \<Rightarrow>
          if c = CHR ''^'' then Some (Bol, t)
          else if c = CHR ''$'' then Some (Eol, t)
          else if c = CHR ''('' then
            (case strip_prefix ''?!'' t of
               Some u \<Rightarrow>
                 (case p_alt n u of
                    None \<Rightarrow> None
                  | Some (r, v) \<Rightarrow> map_option (\<lambda>w. (NotAhead r, w)) (strip_prefix '')'' v))
             | None \<Rightarrow>
                 (case p_alt n (case strip_prefix ''?:'' t of Some u \<Rightarrow> u | None \<Rightarrow> t) of
                    None \<Rightarrow> None
                  | Some (r, v) \<Rightarrow> Option.bind (strip_prefix '')'' v) (quantify r)))
          else if c = CHR ''['' then
            (case strip_prefix ''^'' t of
               Some u \<Rightarrow>
                 Option.bind (class_items (c # u) u) (\<lambda>(is, v). quantify (Cls (not_in (cls is))) v)
             | None \<Rightarrow> Option.bind (class_items (c # t) t) (\<lambda>(is, v). quantify (Cls (cls is)) v))
          else if c = CHR ''.'' then quantify (Cls any_char) t
          else if c = bsl then
            (case strip_prefix ''b'' t of
               Some u \<Rightarrow> Some (WordB, u)
             | None \<Rightarrow> Option.bind (escape t) (\<lambda>(i, u). quantify (item_rx i) u))
          else if c = CHR ''*'' \<or> c = CHR ''+'' \<or> c = CHR ''?'' then None
          else quantify (ch c) t)"

text \<open>\<open>new RegExp(s)\<close>; \<open>None\<close> is the \<open>SyntaxError\<close>. The first argument of the parsing functions is
  fuel, one unit per call: three calls per code unit are enough.\<close>

definition RegExp :: "string \<Rightarrow> rx option" where
  "RegExp s = (case p_alt (s @ s @ s @ ''fuel'') s of Some (r, []) \<Rightarrow> Some r | _ \<Rightarrow> None)"

definition unescape :: "string \<Rightarrow> string" where
  "unescape s = map (\<lambda>c. if c = CHR ''%'' then bsl else c) s"

definition never :: rx where
  "never = NotAhead Eps"

definition re :: "string \<Rightarrow> rx" where
  "re s = (case RegExp (unescape s) of Some r \<Rightarrow> r | None \<Rightarrow> never)"

text \<open>The facts that evaluate a pattern to the regular expression it denotes.\<close>

lemmas rx_eval = re_def RegExp_def unescape_def quantify_def class_atom_def item_rx_def nat_prefix_def
  skip_lazy_def is_digit_def code_def digits_val_def digit_val_def hex_code_def

section \<open>Replacing and counting matches\<close>

text \<open>\<open>s.replace(/r/g, by)\<close>, over positions; an empty match copies one code unit and moves on.\<close>

function replace_all :: "rx \<Rightarrow> string \<Rightarrow> char option \<Rightarrow> string \<Rightarrow> string" where
  "replace_all r by_str pv s =
     (case run r (pv, s) of
        q # _ \<Rightarrow>
          if length (snd q) < length s then by_str @ replace_all r by_str (fst q) (snd q)
          else by_str @ (case s of [] \<Rightarrow> [] | c # t \<Rightarrow> c # replace_all r by_str (Some c) t)
      | [] \<Rightarrow> (case s of [] \<Rightarrow> [] | c # t \<Rightarrow> c # replace_all r by_str (Some c) t))"
  by pat_completeness auto
termination
  by (relation "measure (\<lambda>(r, b, pv, s). length s)") auto

declare replace_all.simps [simp del]

text \<open>The number of matches \<open>s.match(/r/g)\<close> lists.\<close>

function count_matches :: "rx \<Rightarrow> char option \<Rightarrow> string \<Rightarrow> nat" where
  "count_matches r pv s =
     (case run r (pv, s) of
        q # _ \<Rightarrow>
          if length (snd q) < length s then 1 + count_matches r (fst q) (snd q)
          else 1 + (case s of [] \<Rightarrow> 0 | c # t \<Rightarrow> count_matches r (Some c) t)
      | [] \<Rightarrow> (case s of [] \<Rightarrow> 0 | c # t \<Rightarrow> count_matches r (Some c) t))"
  by pat_completeness auto
termination
  by (relation "measure (\<lambda>(r, pv, s). length s)") auto

declare count_matches.simps [simp del]

end
