(* ===== verification/Method_Result.thy ===== *)
theory Method_Result
  imports Js_Regex_Syntax
begin

text \<open>
  The values a validation method returns, their truthiness, and the guard
  \<open>this.optional(element) || ...\<close> most methods start with. Also the locales that state when a check
  digit scheme detects a wrong digit; each scheme of the scripts interprets one of them.
\<close>

section \<open>Results\<close>

datatype jsres = RBool bool | RMismatch | RPending | RUndef | RNull | RMatch | RThrow

text \<open>\<open>RMismatch\<close> and \<open>RPending\<close> are non-empty strings and \<open>RMatch\<close> an array: truthy.
  \<open>RThrow\<close> stands for a method that throws; a caller looks for it before it looks at the value.\<close>

fun truthy :: "jsres \<Rightarrow> bool" where
  "truthy (RBool b) = b"
| "truthy RMismatch = True"
| "truthy RPending = True"
| "truthy RMatch = True"
| "truthy RUndef = False"
| "truthy RNull = False"
| "truthy RThrow = False"

text \<open>\<open>s.match(re)\<close> for a pattern without the flag \<open>g\<close>.\<close>

definition match_result :: "rx \<Rightarrow> string \<Rightarrow> jsres" where
  "match_result r s = (if regex_test r s then RMatch else RNull)"

text \<open>
  \<open>this.optional(element) || r\<close>, where \<open>optional\<close> yields \<open>"dependency-mismatch"\<close> for an element
  without a value and \<open>false\<close> otherwise; the flag says which.
\<close>

definition or_optional :: "bool \<Rightarrow> jsres \<Rightarrow> jsres" where
  "or_optional optional r = (if optional then RMismatch else r)"

lemma or_optional_simps [simp]: "or_optional True r = RMismatch" "or_optional False r = r"
  by (simp_all add: or_optional_def)

lemma truthy_match [simp]: "truthy (match_result r s) \<longleftrightarrow> regex_test r s"
  by (simp add: match_result_def)

section \<open>Check digit schemes\<close>

text \<open>
  A scheme adds one contribution per position and looks at the sum modulo \<open>m\<close>. If different digits
  never contribute the same residue at a position, one wrong digit always changes the residue.
\<close>

locale position_code =
  fixes contrib :: "nat \<Rightarrow> int \<Rightarrow> int" and m :: int and bound :: nat
  assumes digit_distinct: "\<lbrakk>i < bound; 0 \<le> d; d \<le> 9; 0 \<le> e; e \<le> 9; d \<noteq> e\<rbrakk> \<Longrightarrow>
    contrib i d mod m \<noteq> contrib i e mod m"
begin

lemma substitution_detected:
  assumes "length ds \<le> bound" and "i < length ds" and "0 \<le> ds ! i" and "ds ! i \<le> 9"
    and "0 \<le> e" and "e \<le> 9" and "ds ! i \<noteq> e"
  shows "(\<Sum>k < length ds. contrib k (ds[i := e] ! k)) mod m
    \<noteq> (\<Sum>k < length ds. contrib k (ds ! k)) mod m"
proof
  let ?S = "\<Sum>k < length ds. contrib k (ds ! k)"
  assume "(\<Sum>k < length ds. contrib k (ds[i := e] ! k)) mod m = ?S mod m"
  then have "(?S - contrib i (ds ! i) + contrib i e) mod m = ?S mod m"
    by (simp add: sum_list_update_int [OF assms(2)])
  then have "m dvd contrib i e - contrib i (ds ! i)" by (simp add: mod_eq_dvd_iff)
  then have "contrib i e mod m = contrib i (ds ! i) mod m" by (simp add: mod_eq_dvd_iff)
  moreover have "contrib i (ds ! i) mod m \<noteq> contrib i e mod m"
    by (rule digit_distinct) (use assms in auto)
  ultimately show False by simp
qed

end

locale weighted_code =
  fixes w :: "nat \<Rightarrow> int" and m :: int and bound :: nat
  assumes weights_coprime: "i < bound \<Longrightarrow> coprime (w i) m"
    and modulus: "9 < m"
begin

lemma weighted_distinct:
  assumes "i < bound" "0 \<le> d" "d \<le> 9" "0 \<le> e" "e \<le> 9" "d \<noteq> e"
  shows "(w i * d) mod m \<noteq> (w i * e) mod m"
proof
  assume "(w i * d) mod m = (w i * e) mod m"
  moreover have "\<bar>d - e\<bar> < m" using assms modulus by linarith
  ultimately have "d = e" using coprime_residue_shift [OF weights_coprime [OF assms(1)]] by blast
  with assms show False by simp
qed

end

sublocale weighted_code \<subseteq> position_code "\<lambda>i d. w i * d" m bound
  by unfold_locales (rule weighted_distinct)

section \<open>Digit strings as lists of digits\<close>

definition digit_list :: "string \<Rightarrow> int list" where
  "digit_list s = map digit_val s"

lemma digit_list_simps [simp]:
  "length (digit_list s) = length s" "i < length s \<Longrightarrow> digit_list s ! i = digit_val (s ! i)"
  "digit_list (s[i := c]) = (digit_list s)[i := digit_val c]"
  by (simp_all add: digit_list_def map_update)

lemma list_all_update: "list_all P s \<Longrightarrow> P c \<Longrightarrow> list_all P (s[i := c])"
  by (auto simp: list_all_iff dest: set_update_subset_insert [THEN subsetD])

lemma list_all_nth: "list_all P s \<Longrightarrow> i < length s \<Longrightarrow> P (s ! i)"
  by (simp add: list_all_length)

end
