(* ===== verification/Bank_Methods.thy ===== *)
theory Bank_Methods
  imports Method_Result
begin

text \<open>
  The account and card number methods of \<open>additional-methods.js\<close>: \<open>abaRoutingNumber\<close>,
  \<open>bankaccountNL\<close>, \<open>giroaccountNL\<close>, \<open>bankorgiroaccountNL\<close>, \<open>creditcard\<close>, \<open>creditcardtypes\<close> and
  \<open>iban\<close>. The first argument of a method that calls \<open>this.optional(element)\<close> is that call's outcome.
\<close>

section \<open>US routing numbers\<close>

text \<open>The loop over the tokens, three at a time, with \<open>checksum\<close> as accumulator.\<close>

fun aba_loop :: "string list \<Rightarrow> jsnum \<Rightarrow> jsnum" where
  "aba_loop (a # b # c # tokens) checksum =
     aba_loop tokens
       (nadd checksum (nadd (nadd (nmul (parse_int a) (Some 3)) (nmul (parse_int b) (Some 7)))
          (parse_int c)))"
| "aba_loop tokens checksum = checksum"

definition abaRoutingNumber :: "string \<Rightarrow> jsres" where
  "abaRoutingNumber value =
     (let tokens = map (\<lambda>c. [c]) value; len = length tokens in
      if len \<noteq> 9 then RBool False
      else let checksum = aba_loop tokens (Some 0) in
        RBool (\<not> num_eq checksum (Some 0) \<and> num_eq (nmod checksum 10) (Some 0)))"

section \<open>Dutch accounts\<close>

definition bankaccountNL_format :: rx where
  "bankaccountNL_format = re ''^[0-9]{9}|([0-9]{2} ){3}[0-9]{3}$''"

text \<open>The '11 check': the factor of a position is the number of characters from it to the end.\<close>

fun nl_loop :: "string \<Rightarrow> jsnum \<Rightarrow> jsnum" where
  "nl_loop [] sum1 = sum1"
| "nl_loop (c # account) sum1 =
     nl_loop account (nadd sum1 (nmul (Some (int (length (c # account)))) (to_number [c])))"

definition bankaccountNL :: "bool \<Rightarrow> string \<Rightarrow> jsres" where
  "bankaccountNL optional value =
     (if optional then RBool True
      else if \<not> regex_test bankaccountNL_format value then RBool False
      else let account = strip_class (\<lambda>c. c = CHR '' '') value; sum1 = nl_loop account (Some 0) in
        RBool (num_eq (nmod sum1 11) (Some 0)))"

definition giroaccountNL :: "bool \<Rightarrow> string \<Rightarrow> jsres" where
  "giroaccountNL optional value = or_optional optional (RBool (regex_test (re ''^[0-9]{1,7}$'') value))"

definition bankorgiroaccountNL :: "bool \<Rightarrow> string \<Rightarrow> jsres" where
  "bankorgiroaccountNL optional value =
     or_optional optional
       (if truthy (bankaccountNL optional value) then bankaccountNL optional value
        else giroaccountNL optional value)"

section \<open>Card numbers\<close>

text \<open>The loop runs from the last digit to the first: over the reversed number.\<close>

fun luhn_loop :: "string \<Rightarrow> jsnum \<Rightarrow> bool \<Rightarrow> jsnum" where
  "luhn_loop [] nCheck bEven = nCheck"
| "luhn_loop (cDigit # rest) nCheck bEven =
     (let nDigit = parse_int [cDigit];
          nDigit = (if bEven then
                      let doubled = nmul nDigit (Some 2) in
                      if num_lt (Some 9) doubled then nsub doubled (Some 9) else doubled
                    else nDigit)
      in luhn_loop rest (nadd nCheck nDigit) (\<not> bEven))"

definition creditcard :: "bool \<Rightarrow> string \<Rightarrow> jsres" where
  "creditcard optional value =
     (if optional then RMismatch
      else if regex_test (re ''[^0-9 %-]+'') value
      then RBool False
      else let value = strip_class (\<lambda>c. \<not> is_digit c) value in
        if length value < 13 \<or> 19 < length value then RBool False
        else RBool (num_eq (nmod (luhn_loop (rev value) (Some 0) False) 10) (Some 0)))"

record card_types =
  mastercard :: bool
  visa :: bool
  amex :: bool
  dinersclub :: bool
  enroute :: bool
  discover :: bool
  jcb :: bool
  unknown_type :: bool
  all_types :: bool

text \<open>\<open>validTypes\<close> is a bit set, kept as a machine word.\<close>

definition valid_types :: "card_types \<Rightarrow> 32 word" where
  "valid_types param =
     (let t = 0;
          t = (if mastercard param then or t 0x0001 else t);
          t = (if visa param then or t 0x0002 else t);
          t = (if amex param then or t 0x0004 else t);
          t = (if dinersclub param then or t 0x0008 else t);
          t = (if enroute param then or t 0x0010 else t);
          t = (if discover param then or t 0x0020 else t);
          t = (if jcb param then or t 0x0040 else t);
          t = (if unknown_type param then or t 0x0080 else t)
      in if all_types param
         then or (or (or (or (or (or (or 0x0001 0x0002) 0x0004) 0x0008) 0x0010) 0x0020) 0x0040) 0x0080
         else t)"

definition has_type :: "32 word \<Rightarrow> 32 word \<Rightarrow> bool" where
  "has_type types flag \<longleftrightarrow> and types flag \<noteq> 0"

definition creditcardtypes :: "string \<Rightarrow> card_types \<Rightarrow> jsres" where
  "creditcardtypes value param =
     (if regex_test (re ''[^0-9%-]+'') value then RBool False
      else
        let value = strip_class (\<lambda>c. \<not> is_digit c) value; types = valid_types param;
            test = (\<lambda>r. regex_test (re r) value)
        in
        if has_type types 0x0001 \<and>
           (test ''^(5[12345])'' \<or> test ''^(2[234567])'')
        then RBool (length value = 16)
        else if has_type types 0x0002 \<and> test ''^(4)'' then RBool (length value = 16)
        else if has_type types 0x0004 \<and> test ''^(3[47])''
        then RBool (length value = 15)
        else if has_type types 0x0008 \<and>
           test ''^(3(0[012345]|[68]))''
        then RBool (length value = 14)
        else if has_type types 0x0010 \<and> test ''^(2(014|149))''
        then RBool (length value = 15)
        else if has_type types 0x0020 \<and> test ''^(6011)'' then RBool (length value = 16)
        else if has_type types 0x0040 \<and> test ''^(3)'' then RBool (length value = 16)
        else if has_type types 0x0040 \<and> test ''^(2131|1800)''
        then RBool (length value = 15)
        else if has_type types 0x0080 then RBool True
        else RBool False)"

section \<open>IBAN\<close>

definition bbancountrypatterns :: "(string \<times> string) list" where
  "bbancountrypatterns =
    [(''AL'', ''%d{8}[%dA-Z]{16}''), (''AD'', ''%d{8}[%dA-Z]{12}''), (''AT'', ''%d{16}''),
     (''AZ'', ''[%dA-Z]{4}%d{20}''), (''BE'', ''%d{12}''), (''BH'', ''[A-Z]{4}[%dA-Z]{14}''),
     (''BA'', ''%d{16}''), (''BR'', ''%d{23}[A-Z][%dA-Z]''),
     (''BG'', ''[A-Z]{4}%d{6}[%dA-Z]{8}''), (''CR'', ''%d{17}''), (''HR'', ''%d{17}''),
     (''CY'', ''%d{8}[%dA-Z]{16}''), (''CZ'', ''%d{20}''), (''DK'', ''%d{14}''),
     (''DO'', ''[A-Z]{4}%d{20}''), (''EE'', ''%d{16}''), (''FO'', ''%d{14}''),
     (''FI'', ''%d{14}''), (''FR'', ''%d{10}[%dA-Z]{11}%d{2}''), (''GE'', ''[%dA-Z]{2}%d{16}''),
     (''DE'', ''%d{18}''), (''GI'', ''[A-Z]{4}[%dA-Z]{15}''), (''GR'', ''%d{7}[%dA-Z]{16}''),
     (''GL'', ''%d{14}''), (''GT'', ''[%dA-Z]{4}[%dA-Z]{20}''), (''HU'', ''%d{24}''),
     (''IS'', ''%d{22}''), (''IE'', ''[%dA-Z]{4}%d{14}''), (''IL'', ''%d{19}''),
     (''IT'', ''[A-Z]%d{10}[%dA-Z]{12}''), (''KZ'', ''%d{3}[%dA-Z]{13}''),
     (''KW'', ''[A-Z]{4}[%dA-Z]{22}''), (''LV'', ''[A-Z]{4}[%dA-Z]{13}''),
     (''LB'', ''%d{4}[%dA-Z]{20}''), (''LI'', ''%d{5}[%dA-Z]{12}''), (''LT'', ''%d{16}''),
     (''LU'', ''%d{3}[%dA-Z]{13}''), (''MK'', ''%d{3}[%dA-Z]{10}%d{2}''),
     (''MT'', ''[A-Z]{4}%d{5}[%dA-Z]{18}''), (''MR'', ''%d{23}''),
     (''MU'', ''[A-Z]{4}%d{19}[A-Z]{3}''), (''MC'', ''%d{10}[%dA-Z]{11}%d{2}''),
     (''MD'', ''[%dA-Z]{2}%d{18}''), (''ME'', ''%d{18}''), (''NL'', ''[A-Z]{4}%d{10}''),
     (''NO'', ''%d{11}''), (''PK'', ''[%dA-Z]{4}%d{16}''), (''PS'', ''[%dA-Z]{4}%d{21}''),
     (''PL'', ''%d{24}''), (''PT'', ''%d{21}''), (''RO'', ''[A-Z]{4}[%dA-Z]{16}''),
     (''SM'', ''[A-Z]%d{10}[%dA-Z]{12}''), (''SA'', ''%d{2}[%dA-Z]{18}''), (''RS'', ''%d{18}''),
     (''SK'', ''%d{20}''), (''SI'', ''%d{15}''), (''ES'', ''%d{20}''), (''SE'', ''%d{20}''),
     (''CH'', ''%d{5}[%dA-Z]{12}''), (''TN'', ''%d{20}''), (''TR'', ''%d{5}[%dA-Z]{17}''),
     (''AE'', ''%d{3}%d{16}''), (''GB'', ''[A-Z]{4}%d{14}''), (''VG'', ''[%dA-Z]{4}%d{16}'')]"

definition js_index_of :: "string \<Rightarrow> char \<Rightarrow> int" where
  "js_index_of s c = (if c \<in> set s then int (length (takeWhile (\<lambda>d. d \<noteq> c) s)) else - 1)"

definition iban_alphabet :: string where
  "iban_alphabet = ''0123456789ABCDEFGHIJKLMNOPQRSTUVWXYZ''"

text \<open>The conversion to digits; \<open>leadingZeroes\<close> is true until the first character other than 0.\<close>

fun iban_digits :: "string \<Rightarrow> bool \<Rightarrow> string" where
  "iban_digits [] leadingZeroes = []"
| "iban_digits (c # ibancheck) leadingZeroes =
     (let leadingZeroes = (if c \<noteq> CHR ''0'' then False else leadingZeroes) in
      (if leadingZeroes then [] else int_str (js_index_of iban_alphabet c)) @ iban_digits ibancheck leadingZeroes)"

text \<open>\<open>cRest\<close> starts as the empty string (\<open>None\<close>) and is a number after the first digit.\<close>

fun iban_mod :: "string \<Rightarrow> jsnum option \<Rightarrow> jsnum option" where
  "iban_mod [] cRest = cRest"
| "iban_mod (cChar # rest) cRest =
     (let cOperator = (case cRest of None \<Rightarrow> [] | Some x \<Rightarrow> num_str x) @ [cChar] in
      iban_mod rest (Some (nmod (to_number cOperator) 97)))"

definition iban :: "bool \<Rightarrow> string \<Rightarrow> jsres" where
  "iban optional value =
     (if optional then RBool True
      else
        let iban = to_upper (strip_class (\<lambda>c. c = CHR '' '') value) in
        if length iban < 5 then RBool False
        else
          let countrycode = js_substring iban 0 2;
              checksum =
                (let ibancheck = js_substring iban 4 (length iban) @ js_substring iban 0 4;
                     cRest = iban_mod (iban_digits ibancheck True) None
                 in RBool (cRest = Some (Some 1)))
          in case map_of bbancountrypatterns countrycode of
               Some bbanpattern \<Rightarrow>
                 if regex_test (re (''^[A-Z]{2}%d{2}'' @ bbanpattern @ ''$'')) iban then checksum
                 else RBool False
             | None \<Rightarrow> checksum)"

end
