(* ===== verification/Bank_Proofs.thy ===== *)
theory Bank_Proofs
  imports Bank_Methods
begin

text \<open>
  Correctness of the account and card number methods: each loop against the closed weighted sum it
  computes, and what the check digits detect.
\<close>

section \<open>US routing numbers\<close>

definition aba_weight :: "nat \<Rightarrow> int" where
  "aba_weight k = (if k mod 3 = 0 then 3 else if k mod 3 = 1 then 7 else 1)"

interpretation aba: weighted_code aba_weight 10 9
proof
  show "coprime (aba_weight i) 10" for i
    by (simp add: aba_weight_def coprime_iff_gcd_eq_1 gcd_non_0_int)
qed simp

lemma aba_loop_eq:
  assumes "length s = 9"
  shows "aba_loop (map (\<lambda>c. [c]) s) (Some 0) =
    (if list_all is_digit s then Some (\<Sum>k < length (digit_list s). aba_weight k * digit_list s ! k)
     else None)"
proof -
  obtain a b c d e f g h i where s: "s = [a, b, c, d, e, f, g, h, i]"
    using assms by (auto simp: length_numeral_Cons length_Suc_conv)
  show ?thesis
    by (auto simp: s digit_list_def parse_int_single lessThan_nat_numeral lessThan_Suc aba_weight_def)
qed

lemma aba_eq:
  "abaRoutingNumber s = RBool (length s = 9 \<and> list_all is_digit s \<and>
     (let n = \<Sum>k < length (digit_list s). aba_weight k * digit_list s ! k in n \<noteq> 0 \<and> n mod 10 = 0))"
proof (cases "length s = 9 \<and> list_all is_digit s")
  case True
  then have "0 \<le> (\<Sum>k < length (digit_list s). aba_weight k * digit_list s ! k)"
    by (intro sum_nonneg mult_nonneg_nonneg)
      (auto simp: aba_weight_def list_all_nth digit_val_bounds)
  with True aba_loop_eq [of s] show ?thesis
    by (simp add: abaRoutingNumber_def Let_def js_rem_nonneg)
next
  case False
  with aba_loop_eq [of s] show ?thesis by (auto simp: abaRoutingNumber_def Let_def)
qed

lemma aba_wrong_digit:
  assumes "abaRoutingNumber s = RBool True" and "i < length s" and "is_digit c" and "c \<noteq> s ! i"
  shows "abaRoutingNumber (s[i := c]) = RBool False"
proof -
  let ?S = "\<lambda>ds. (\<Sum>k < length ds. aba_weight k * ds ! k)"
  have s: "length s = 9" "list_all is_digit s" "?S (digit_list s) mod 10 = 0"
    using assms(1) by (auto simp: aba_eq Let_def)
  have "?S ((digit_list s)[i := digit_val c]) mod 10 \<noteq> ?S (digit_list s) mod 10"
    using aba.substitution_detected [of "digit_list s" i "digit_val c"] s assms
      digit_val_bounds [OF assms(3)] digit_val_bounds [OF list_all_nth [OF s(2) assms(2)]]
    by auto
  then show ?thesis using s by (simp add: aba_eq Let_def)
qed

section \<open>Dutch accounts\<close>

definition nl_weight :: "nat \<Rightarrow> int" where
  "nl_weight k = 9 - int k"

interpretation nl: weighted_code nl_weight 11 9
proof
  fix i :: nat
  assume "i < 9"
  then have "i \<in> {0, 1, 2, 3, 4, 5, 6, 7, 8}" by auto
  then show "coprime (nl_weight i) 11"
    by (auto simp: nl_weight_def coprime_iff_gcd_eq_1 gcd_non_0_int)
qed simp

lemma nl_loop_digits:
  "list_all is_digit s \<Longrightarrow> nl_loop s (Some n) =
     Some (n + (\<Sum>k < length s. (int (length s) - int k) * digit_val (s ! k)))"
proof (induction s arbitrary: n)
  case Nil
  show ?case by simp
next
  case (Cons c s)
  then show ?case
    by (simp add: to_number_single sum.lessThan_Suc_shift algebra_simps del: sum.lessThan_Suc)
qed

lemma strip_digits: "list_all is_digit s \<Longrightarrow> strip_class (\<lambda>c. c = CHR '' '') s = s"
  unfolding strip_class_def list_all_iff by (rule filter_True) (auto simp: is_digit_def code_def)

lemma nl_format_digits:
  assumes "list_all is_digit s"
  shows "regex_test bankaccountNL_format s \<longleftrightarrow> 9 \<le> length s"
proof -
  let ?spaced = "Seq (pow 3 (Seq (pow 2 Dig) (ch CHR '' ''))) (pow 3 Dig)"
  have fmt: "bankaccountNL_format = Alt (Seq Bol (pow 9 Dig))
      (Seq (pow 3 (Seq (pow 2 Dig) (ch CHR '' ''))) (Seq (pow 3 Dig) Eol))"
    by (simp add: bankaccountNL_format_def rx_eval)
  have "\<not> regex_test (Seq (pow 3 (Seq (pow 2 Dig) (ch CHR '' ''))) (Seq (pow 3 Dig) Eol)) s"
  proof
    assume "regex_test (Seq (pow 3 (Seq (pow 2 Dig) (ch CHR '' ''))) (Seq (pow 3 Dig) Eol)) s"
    then obtain u v where "s = u @ v" "v \<in> lang ?spaced" by (auto simp: test_eol_form rx_lang)
    then have "CHR '' '' \<in> set s" by (auto simp: numeral_3_eq_3 ch_def)
    with assms show False by (auto simp: list_all_iff is_digit_def code_def)
  qed
  moreover have "regex_test (Seq Bol (pow 9 Dig)) s \<longleftrightarrow> 9 \<le> length s"
  proof -
    have "regex_test (Seq Bol (pow 9 Dig)) s \<longleftrightarrow> (\<exists>u v. s = u @ v \<and> u \<in> lang (pow 9 Dig))"
      by (rule test_prefix) simp
    also have "\<dots> \<longleftrightarrow> 9 \<le> length s"
      unfolding lang_pow_Cls using assms
      by (metis append_take_drop_id length_append length_take le_add1 list_all_append min_absorb2)
    finally show ?thesis .
  qed
  ultimately show ?thesis unfolding fmt test_Alt by simp
qed

text \<open>What the method decides on digit strings, of any length.\<close>

lemma bankaccountNL_digits:
  assumes "list_all is_digit s"
  shows "bankaccountNL False s = RBool (9 \<le> length s \<and>
    (\<Sum>k < length s. (int (length s) - int k) * digit_val (s ! k)) mod 11 = 0)"
proof -
  have "0 \<le> (\<Sum>k < length s. (int (length s) - int k) * digit_val (s ! k))"
    using assms by (intro sum_nonneg mult_nonneg_nonneg) (auto simp: digit_val_bounds list_all_nth)
  then show ?thesis
    using assms by (simp add: bankaccountNL_def nl_format_digits strip_digits nl_loop_digits js_rem_nonneg)
qed

lemma bankaccountNL_wrong_digit:
  assumes "length s = 9" and "list_all is_digit s" and "bankaccountNL False s = RBool True"
    and "i < 9" and "is_digit c" and "c \<noteq> s ! i"
  shows "bankaccountNL False (s[i := c]) = RBool False"
proof -
  let ?S = "\<lambda>ds. (\<Sum>k < length ds. nl_weight k * ds ! k)"
  have eq: "bankaccountNL False t = RBool (?S (digit_list t) mod 11 = 0)"
    if "length t = 9" "list_all is_digit t" for t
    using that by (simp add: bankaccountNL_digits nl_weight_def)
  have "?S ((digit_list s)[i := digit_val c]) mod 11 \<noteq> ?S (digit_list s) mod 11"
    using nl.substitution_detected [of "digit_list s" i "digit_val c"] assms
      digit_val_bounds [OF assms(5)] digit_val_bounds [OF list_all_nth [OF assms(2)], of i]
    by auto
  then show ?thesis
    using eq [OF assms(1,2)] eq [of "s[i := c]"] assms by (simp add: list_all_update)
qed

section \<open>Card numbers\<close>

definition luhn_contrib :: "nat \<Rightarrow> int \<Rightarrow> int" where
  "luhn_contrib k d = (if odd k then (if 9 < 2 * d then 2 * d - 9 else 2 * d) else d)"

definition luhn_sum :: "int list \<Rightarrow> int" where
  "luhn_sum ds = (\<Sum>k < length ds. luhn_contrib k (ds ! k))"

interpretation luhn: position_code luhn_contrib 10 bound for bound
  by unfold_locales (auto simp: luhn_contrib_def split: if_splits, presburger+)

lemma luhn_contrib_shift: "luhn_contrib (Suc (Suc k)) = luhn_contrib k"
  by (rule ext) (simp add: luhn_contrib_def)

text \<open>The loop computes the contributions counted from the parity it is in.\<close>

lemma luhn_loop_eq:
  "list_all is_digit s \<Longrightarrow> luhn_loop s (Some n) b =
     Some (n + (\<Sum>k < length s. luhn_contrib (k + of_bool b) (digit_val (s ! k))))"
proof (induction s arbitrary: n b)
  case Nil
  show ?case by simp
next
  case (Cons c s)
  have shift: "(\<Sum>k < length s. luhn_contrib (k + of_bool (\<not> b)) (digit_val (s ! k)))
      = (\<Sum>k < length s. luhn_contrib (Suc k + of_bool b) (digit_val (s ! k)))"
    by (cases b) (simp_all add: luhn_contrib_shift)
  from Cons.prems have "is_digit c" "list_all is_digit s" by simp_all
  with Cons.IH [of _ "\<not> b"] shift show ?case
    by (auto simp: Let_def parse_int_single luhn_contrib_def [of "of_bool b"] sum.lessThan_Suc_shift
        simp del: sum.lessThan_Suc)
qed

definition card_digits :: "string \<Rightarrow> string" where
  "card_digits v = strip_class (\<lambda>c. \<not> is_digit c) v"

definition card_chars :: "string \<Rightarrow> bool" where
  "card_chars v \<longleftrightarrow> list_all (\<lambda>c. is_digit c \<or> c = CHR '' '' \<or> c = CHR ''-'') v"

lemma card_chars_test:
  "regex_test (re ''[^0-9 %-]+'') v \<longleftrightarrow> \<not> card_chars v"
proof -
  let ?f = "not_in (cls [Rng 48 57, One CHR '' '', One CHR ''-''])"
  have f: "?f c \<longleftrightarrow> \<not> (is_digit c \<or> c = CHR '' '' \<or> c = CHR ''-'')" for c
    by (auto simp: not_in_def cls_def is_digit_def)
  have fmt: "re ''[^0-9 %-]+'' = plus_rx (Cls ?f)" by (simp add: rx_eval)
  have "regex_test (plus_rx (Cls ?f)) v \<longleftrightarrow> (\<exists>u w x. v = u @ w @ x \<and> w \<noteq> [] \<and> list_all ?f w)"
    by (subst test_anywhere) (simp_all add: rx_lang)
  also have "\<dots> \<longleftrightarrow> (\<exists>c \<in> set v. ?f c)"
  proof
    assume "\<exists>c \<in> set v. ?f c"
    then obtain c u x where "v = u @ [c] @ x" "list_all ?f [c]" by (auto dest: split_list)
    then show "\<exists>u w x. v = u @ w @ x \<and> w \<noteq> [] \<and> list_all ?f w" by blast
  qed (auto simp: neq_Nil_conv)
  finally show ?thesis unfolding fmt by (auto simp: card_chars_def list_all_iff f)
qed

lemma creditcard_eq:
  "creditcard False v = RBool (card_chars v \<and> 13 \<le> length (card_digits v) \<and>
     length (card_digits v) \<le> 19 \<and> luhn_sum (digit_list (rev (card_digits v))) mod 10 = 0)"
proof -
  have d: "list_all is_digit (rev (card_digits v))"
    by (auto simp: card_digits_def strip_class_def list_all_iff)
  have "luhn_loop (rev (card_digits v)) (Some 0) False = Some (luhn_sum (digit_list (rev (card_digits v))))"
    using luhn_loop_eq [OF d, of 0 False] by (simp add: luhn_sum_def)
  moreover have "0 \<le> luhn_sum (digit_list (rev (card_digits v)))"
    unfolding luhn_sum_def using d
    by (intro sum_nonneg) (auto simp: luhn_contrib_def digit_val_bounds list_all_nth)
  ultimately show ?thesis
    by (auto simp: creditcard_def card_chars_test Let_def card_digits_def [symmetric] js_rem_nonneg)
qed

text \<open>Replacing a digit of the value replaces a digit of the stripped number.\<close>

lemma filter_update:
  assumes "i < length v" and "P (v ! i)" and "P c"
  shows "\<exists>j < length (filter P v). filter P (v[i := c]) = (filter P v)[j := c] \<and> filter P v ! j = v ! i"
proof -
  let ?j = "length (filter P (take i v))"
  have v: "v = take i v @ v ! i # drop (Suc i) v" by (rule nth_split_at [OF assms(1)])
  have f: "filter P v = filter P (take i v) @ v ! i # filter P (drop (Suc i) v)"
    using assms(2) by (subst v) simp
  moreover have "filter P (v[i := c]) = filter P (take i v) @ c # filter P (drop (Suc i) v)"
    using assms by (simp add: list_update_split)
  ultimately show ?thesis by (intro exI [of _ ?j]) simp
qed

lemma luhn_rev_update:
  assumes "j < length s" and "list_all is_digit s" and "is_digit c" and "c \<noteq> s ! j"
  shows "luhn_sum (digit_list (rev (s[j := c]))) mod 10 \<noteq> luhn_sum (digit_list (rev s)) mod 10"
proof -
  let ?i = "length s - Suc j"
  have r: "rev (s[j := c]) = (rev s)[?i := c]" using assms(1) by (simp add: rev_update)
  have n: "rev s ! ?i = s ! j" and l: "?i < length (rev s)" using assms(1) by (simp_all add: rev_nth)
  show ?thesis
    unfolding r luhn_sum_def
    using luhn.substitution_detected [of "digit_list (rev s)" "length s" ?i "digit_val c"]
      digit_val_bounds [OF assms(3)] digit_val_bounds [OF list_all_nth [OF assms(2,1)]]
      assms(4) n l
    by auto
qed

lemma creditcard_wrong_digit:
  assumes "creditcard False v = RBool True" and "i < length v" and "is_digit (v ! i)"
    and "is_digit c" and "c \<noteq> v ! i"
  shows "creditcard False (v[i := c]) = RBool False"
proof -
  have v: "luhn_sum (digit_list (rev (card_digits v))) mod 10 = 0"
    using assms(1) by (simp add: creditcard_eq)
  obtain j where j: "j < length (card_digits v)" "card_digits (v[i := c]) = (card_digits v)[j := c]"
      "card_digits v ! j = v ! i"
    using filter_update [of i v is_digit c] assms by (auto simp: card_digits_def strip_class_def)
  have "list_all is_digit (card_digits v)" by (auto simp: card_digits_def strip_class_def list_all_iff)
  from luhn_rev_update [OF j(1) this assms(4)] j(2,3) v assms(5) show ?thesis
    by (simp add: creditcard_eq)
qed

text \<open>Two neighbouring digits exchanged.\<close>

lemma luhn_pair:
  assumes "0 \<le> a" "a \<le> 9" "0 \<le> b" "b \<le> 9"
    and "(luhn_contrib k a + luhn_contrib (Suc k) b) mod 10 = (luhn_contrib k b + luhn_contrib (Suc k) a) mod 10"
  shows "a = b \<or> {a, b} = {0, 9}"
proof -
  define h :: "int \<Rightarrow> int" where "h d = (if d \<le> 4 then d else d - 9)" for d
  have c: "luhn_contrib j d = (if odd j then d + h d else d)" for j d
    by (simp add: luhn_contrib_def h_def)
  have "(1 * h a) mod 10 = (1 * h b) mod 10"
    using assms(5) by (cases "odd k") (simp_all add: c mod_eq_dvd_iff algebra_simps dvd_diff_commute)
  moreover have h: "- 4 \<le> h d \<and> h d \<le> 4" if "0 \<le> d" "d \<le> 9" for d using that by (simp add: h_def)
  have "\<bar>h a - h b\<bar> < 10" using h [OF assms(1,2)] h [OF assms(3,4)] by linarith
  ultimately have "h a = h b" using coprime_residue_shift [of 1 10 "h a" "h b"] by simp
  then have "a = b \<or> a = b - 9 \<or> a - 9 = b"
    unfolding h_def by (cases "a \<le> 4"; cases "b \<le> 4") simp_all
  then have "a = b \<or> a = 0 \<and> b = 9 \<or> a = 9 \<and> b = 0"
    using assms(1-4) by (elim disjE) simp_all
  then show ?thesis by auto
qed

lemma luhn_sum_append:
  "luhn_sum (xs @ ys) = luhn_sum xs + (\<Sum>k < length ys. luhn_contrib (length xs + k) (ys ! k))"
proof -
  have "luhn_sum (xs @ ys) = (\<Sum>k < length xs. luhn_contrib k ((xs @ ys) ! k))
      + (\<Sum>k \<in> {length xs..<length xs + length ys}. luhn_contrib k ((xs @ ys) ! k))"
    unfolding luhn_sum_def length_append lessThan_atLeast0 by (rule sum.atLeastLessThan_concat [symmetric]) simp_all
  also have "(\<Sum>k < length xs. luhn_contrib k ((xs @ ys) ! k)) = luhn_sum xs"
    unfolding luhn_sum_def by (rule sum.cong) (simp_all add: nth_append)
  also have "(\<Sum>k \<in> {length xs..<length xs + length ys}. luhn_contrib k ((xs @ ys) ! k))
      = (\<Sum>k < length ys. luhn_contrib (length xs + k) (ys ! k))"
    using sum.shift_bounds_nat_ivl [of "\<lambda>k. luhn_contrib k ((xs @ ys) ! k)" 0 "length xs" "length ys"]
    by (simp add: lessThan_atLeast0 add.commute nth_append)
  finally show ?thesis .
qed

lemma luhn_swap:
  assumes "0 \<le> a" "a \<le> 9" "0 \<le> b" "b \<le> 9"
    and "luhn_sum (xs @ a # b # ys) mod 10 = luhn_sum (xs @ b # a # ys) mod 10"
  shows "a = b \<or> {a, b} = {0, 9}"
proof -
  define t where "t = (\<Sum>k < length ys. luhn_contrib (Suc (Suc (length xs + k))) (ys ! k))"
  have split: "luhn_sum (xs @ p # q # ys)
      = (luhn_sum xs + t) + (luhn_contrib (length xs) p + luhn_contrib (Suc (length xs)) q)" for p q
    unfolding luhn_sum_append t_def
    by (simp add: sum.lessThan_Suc_shift del: sum.lessThan_Suc)
  have "(luhn_contrib (length xs) a + luhn_contrib (Suc (length xs)) b) mod 10
      = (luhn_contrib (length xs) b + luhn_contrib (Suc (length xs)) a) mod 10"
    using assms(5) unfolding split by (simp add: mod_eq_dvd_iff algebra_simps)
  then show ?thesis by (rule luhn_pair [OF assms(1-4)])
qed

lemma digits_list_all: "list_all is_digit s \<Longrightarrow> card_digits s = s \<and> card_chars s"
  by (auto simp: card_digits_def strip_class_def card_chars_def list_all_iff intro!: filter_True)

lemma creditcard_transposition:
  assumes "list_all is_digit (u @ a # b # w)"
    and "creditcard False (u @ a # b # w) = RBool True" and "creditcard False (u @ b # a # w) = RBool True"
  shows "a = b \<or> {a, b} = {CHR ''0'', CHR ''9''}"
proof -
  have ab: "is_digit a" "is_digit b" using assms(1) by simp_all
  have sums: "luhn_sum (map digit_val (rev w) @ digit_val b # digit_val a # map digit_val (rev u)) mod 10 = 0"
    "luhn_sum (map digit_val (rev w) @ digit_val a # digit_val b # map digit_val (rev u)) mod 10 = 0"
    using assms digits_list_all [of "u @ a # b # w"] digits_list_all [of "u @ b # a # w"]
    by (simp_all add: creditcard_eq digit_list_def)
  then have "digit_val b = digit_val a \<or> {digit_val b, digit_val a} = {0, 9}"
    using digit_val_bounds [OF ab(1)] digit_val_bounds [OF ab(2)] 
    by (intro luhn_swap [of _ _ "map digit_val (rev w)" "map digit_val (rev u)"]) simp_all
  moreover have "digit_val CHR ''0'' = 0" "digit_val CHR ''9'' = 9" by (simp_all add: digit_val_def code_def)
  ultimately show ?thesis
    by (auto simp: doubleton_eq_iff) (metis digit_val_inject)+
qed

section \<open>IBAN\<close>

definition iban_unit :: "char \<Rightarrow> int" where
  "iban_unit c = (if is_digit c then digit_val c else int (code c) - 55)"

definition iban_expand :: "string \<Rightarrow> string" where
  "iban_expand s = concat (map (\<lambda>c. int_str (iban_unit c)) s)"

text \<open>The number whose remainder modulo 97 the standard asks for.\<close>

definition iban_value :: "string \<Rightarrow> int" where
  "iban_value s = digits_val (iban_expand s)"

lemma iban_alphabet_codes: "map code iban_alphabet = [48..<58] @ [65..<91]"
  by (simp add: iban_alphabet_def code_def upt_rec)

lemma iban_alphabet_distinct: "distinct iban_alphabet"
  by (simp add: iban_alphabet_def)

lemma js_index_of_nth:
  assumes "distinct s" and "k < length s"
  shows "js_index_of s (s ! k) = int k"
proof -
  have "takeWhile (\<lambda>d. d \<noteq> s ! k) s = take k s"
    using assms by (intro takeWhile_eq_take_P_nth) (auto simp: nth_eq_iff_index_eq)
  then show ?thesis using assms by (simp add: js_index_of_def)
qed

lemma iban_index:
  assumes "is_alnum c"
  shows "js_index_of iban_alphabet c = iban_unit c"
proof -
  have "code c \<in> set (map code iban_alphabet)"
    unfolding iban_alphabet_codes set_append set_upt using assms by (auto simp: is_alnum_def is_digit_def is_upper_def)
  then obtain k where k: "k < length iban_alphabet" "code (iban_alphabet ! k) = code c"
    by (auto simp: in_set_conv_nth)
  have len: "length iban_alphabet = 36" by (simp add: iban_alphabet_def)
  have "code c = ([48..<58] @ [65..<91]) ! k"
    using k arg_cong [OF iban_alphabet_codes, of "\<lambda>xs. xs ! k"] by simp
  then have "int (code c) = (if k < 10 then 48 + int k else 55 + int k)"
    using k(1) len by (simp add: nth_append nth_upt del: upt_rec_numeral upt_conv_Cons)
  moreover have "js_index_of iban_alphabet c = int k"
    using js_index_of_nth [OF iban_alphabet_distinct k(1)] k(2) by simp
  ultimately show ?thesis
    using assms k(1) len
    by (auto simp: is_alnum_def is_digit_def is_upper_def iban_unit_def digit_val_def split: if_splits)
qed

lemma iban_unit_bounds:
  "is_digit c \<Longrightarrow> 0 \<le> iban_unit c \<and> iban_unit c \<le> 9"
  "is_upper c \<Longrightarrow> 10 \<le> iban_unit c \<and> iban_unit c \<le> 35"
  by (auto simp: iban_unit_def digit_val_bounds is_upper_def is_digit_def)

lemma int_str_nonneg: "0 \<le> i \<Longrightarrow> list_all is_digit (int_str i) \<and> int_str i \<noteq> [] \<and> digits_val (int_str i) = i"
  using nat_str_digits [of "nat i"] by (simp add: int_str_def)

lemma length_int_str:
  "0 \<le> i \<Longrightarrow> i \<le> 9 \<Longrightarrow> length (int_str i) = 1" "10 \<le> i \<Longrightarrow> i \<le> 99 \<Longrightarrow> length (int_str i) = 2"
proof -
  show "0 \<le> i \<Longrightarrow> i \<le> 9 \<Longrightarrow> length (int_str i) = 1" by (simp add: int_str_def nat_str.simps)
  assume "10 \<le> i" "i \<le> 99"
  then have "\<not> nat i < 10" "nat i div 10 < 10" by linarith+
  then show "length (int_str i) = 2"
    using \<open>10 \<le> i\<close> by (simp add: int_str_def nat_str.simps [of "nat i"] nat_str.simps [of "nat i div 10"])
qed

lemma iban_unit_nonneg: "is_alnum c \<Longrightarrow> 0 \<le> iban_unit c"
  using iban_unit_bounds [of c] by (auto simp: is_alnum_def)

lemma iban_expand_simps [simp]:
  "iban_expand [] = []" "iban_expand (c # s) = int_str (iban_unit c) @ iban_expand s"
  "iban_expand (s @ t) = iban_expand s @ iban_expand t"
  by (simp_all add: iban_expand_def)

lemma iban_expand_digits: "list_all is_alnum s \<Longrightarrow> list_all is_digit (iban_expand s)"
  by (induction s) (simp_all add: int_str_nonneg iban_unit_nonneg)

lemma iban_digits_value:
  "list_all is_alnum s \<Longrightarrow>
     list_all is_digit (iban_digits s b) \<and> digits_val (iban_digits s b) = iban_value s \<and>
     iban_digits s False = iban_expand s"
proof (induction s arbitrary: b)
  case Nil
  show ?case by (simp add: iban_value_def)
next
  case (Cons c s)
  then have c: "is_alnum c" and s: "list_all is_alnum s" by simp_all
  note IH = Cons.IH [OF s]
  show ?case
  proof (cases "b \<and> c = CHR ''0''")
    case True
    then have "iban_unit c = 0" by (simp add: iban_unit_def digit_val_def is_digit_def code_def)
    with True show ?thesis using IH [of True] c
      by (simp add: Let_def iban_value_def digits_val_append int_str_nonneg iban_index)
  next
    case False
    then show ?thesis using IH [of False] c
      by (auto simp: Let_def iban_value_def digits_val_append int_str_nonneg iban_index iban_unit_nonneg)
  qed
qed

lemma to_number_snoc:
  assumes "0 \<le> r" and "is_digit c"
  shows "to_number (num_str (Some r) @ [c]) = Some (10 * r + digit_val c)"
  using assms int_str_nonneg [of r] by (simp add: num_str_def to_number_digits digits_val_snoc)

lemma iban_mod_Some:
  "list_all is_digit ds \<Longrightarrow> 0 \<le> r \<Longrightarrow>
     iban_mod ds (Some (Some (r mod 97))) = Some (Some ((r * 10 ^ length ds + digits_val ds) mod 97))"
proof (induction ds arbitrary: r)
  case Nil
  then show ?case by simp
next
  case (Cons c ds)
  then have c: "is_digit c" and ds: "list_all is_digit ds" by simp_all
  have pos: "0 \<le> 10 * r + digit_val c" using Cons.prems(2) digit_val_bounds [OF c] by simp
  have "js_rem (10 * (r mod 97) + digit_val c) 97 = (10 * r + digit_val c) mod 97"
    using digit_val_bounds [OF c] by (simp add: js_rem_nonneg) (metis mod_add_left_eq mod_mult_right_eq)
  then have "iban_mod (c # ds) (Some (Some (r mod 97))) = iban_mod ds (Some (Some ((10 * r + digit_val c) mod 97)))"
    using c by (simp add: Let_def to_number_snoc)
  then show ?case
    using Cons.IH [OF ds pos] by (simp add: digits_val_Cons algebra_simps)
qed

lemma iban_mod_eq:
  assumes "list_all is_digit ds"
  shows "iban_mod ds None = Some (Some 1) \<longleftrightarrow> digits_val ds mod 97 = 1"
proof (cases ds)
  case Nil
  then show ?thesis by simp
next
  case (Cons c cs)
  with assms have c: "is_digit c" and cs: "list_all is_digit cs" by simp_all
  have "iban_mod ds None = iban_mod cs (Some (Some (digit_val c mod 97)))"
    using c Cons digit_val_bounds [OF c] by (simp add: to_number_single js_rem_nonneg)
  then show ?thesis
    using iban_mod_Some [OF cs, of "digit_val c"] digit_val_bounds [OF c] Cons by (simp add: digits_val_Cons)
qed

definition iban_format :: "string \<Rightarrow> bool" where
  "iban_format s \<longleftrightarrow> 5 \<le> length s \<and>
     (case map_of bbancountrypatterns (take 2 s) of
        Some p \<Rightarrow> regex_test (re (''^[A-Z]{2}%d{2}'' @ p @ ''$'')) s
      | None \<Rightarrow> True)"

lemma iban_normal: "list_all is_alnum s \<Longrightarrow> to_upper (strip_class (\<lambda>c. c = CHR '' '') s) = s"
proof -
  assume s: "list_all is_alnum s"
  then have "strip_class (\<lambda>c. c = CHR '' '') s = s"
    unfolding strip_class_def list_all_iff
    by (intro filter_True) (auto simp: is_alnum_def is_digit_def is_upper_def code_def)
  with s show ?thesis by (simp add: to_upper_id is_alnum_def list_all_iff)
qed

lemma iban_eq:
  assumes "list_all is_alnum s"
  shows "iban False s = RBool (iban_format s \<and> iban_value (drop 4 s @ take 4 s) mod 97 = 1)"
proof -
  have "list_all is_alnum (drop 4 s @ take 4 s)"
    using assms by (metis append_take_drop_id list_all_append)
  from iban_digits_value [OF this, of True]
  have "iban_mod (iban_digits (drop 4 s @ take 4 s) True) None = Some (Some 1) \<longleftrightarrow>
      iban_value (drop 4 s @ take 4 s) mod 97 = 1"
    by (simp add: iban_mod_eq)
  then show ?thesis
    unfolding iban_def iban_normal [OF assms] iban_format_def js_substring_def
    by (auto simp: Let_def min_def split: option.splits)
qed

text \<open>Replacing a character by another of the same kind shifts the number by a multiple of a power of 10.\<close>

lemma iban_value_update:
  assumes "i < length s" and "is_digit (s ! i) \<and> is_digit c \<or> is_upper (s ! i) \<and> is_upper c" and "c \<noteq> s ! i"
    and "list_all is_alnum s"
  shows "iban_value (s[i := c]) mod 97 \<noteq> iban_value s mod 97"
proof
  let ?r = "iban_expand (drop (Suc i) s)" and ?l = "iban_expand (take i s)"
  define k where "k = length (int_str (iban_unit c))"
  have len: "length (int_str (iban_unit (s ! i))) = k"
    using assms(2) iban_unit_bounds [of c] iban_unit_bounds [of "s ! i"]
    by (auto simp: k_def length_int_str)
  have pos: "0 \<le> iban_unit (s ! i)" "0 \<le> iban_unit c"
    using assms(2) iban_unit_bounds [of c] iban_unit_bounds [of "s ! i"] by auto
  have value_at: "iban_value (take i s @ x # drop (Suc i) s)
      = (digits_val ?l * 10 ^ k + iban_unit x) * 10 ^ length ?r + digits_val ?r"
    if "length (int_str (iban_unit x)) = k" "0 \<le> iban_unit x" for x
    using that by (simp add: iban_value_def digits_val_append int_str_nonneg algebra_simps power_add)
  assume "iban_value (s[i := c]) mod 97 = iban_value s mod 97"
  then have "iban_value (take i s @ c # drop (Suc i) s) mod 97 = iban_value (take i s @ s ! i # drop (Suc i) s) mod 97"
    using assms(1) by (simp add: list_update_split nth_split_at [symmetric])
  then have "(10 ^ length ?r * iban_unit c) mod 97 = (10 ^ length ?r * iban_unit (s ! i)) mod 97"
    using value_at [of c] value_at [of "s ! i"] len pos k_def
    by (simp add: mod_eq_dvd_iff algebra_simps)
  moreover have "coprime ((10::int) ^ length ?r) 97" 
  proof -
    have "coprime (10::int) 97" by (simp add: coprime_iff_gcd_eq_1 gcd_non_0_int)
    then show ?thesis by simp
  qed
  moreover have "\<bar>iban_unit c - iban_unit (s ! i)\<bar> < 97"
    using assms(2) iban_unit_bounds [of c] iban_unit_bounds [of "s ! i"] by auto
  ultimately have "iban_unit c = iban_unit (s ! i)" by (metis coprime_residue_shift)
  then have "int (code c) = int (code (s ! i))"
    using assms(2) is_digit_not_upper by (auto simp: iban_unit_def digit_val_def split: if_splits)
  with assms(3) show False by simp
qed

lemma rotate_update:
  assumes "n \<le> length s" and "i < length s"
  shows "\<exists>j < length s. drop n (s[i := c]) @ take n (s[i := c]) = (drop n s @ take n s)[j := c] \<and>
    (drop n s @ take n s) ! j = s ! i"
proof (cases "i < n")
  case True
  have "(drop n s @ take n s)[length s - n + i := c] = drop n s @ (take n s)[i := c]"
    by (simp add: list_update_append)
  moreover have "(drop n s @ take n s) ! (length s - n + i) = s ! i"
    using True assms nth_append_length_plus [of "drop n s" "take n s" i] by simp
  ultimately show ?thesis
    using True assms by (intro exI [of _ "length s - n + i"]) (simp add: take_update_swap)
next
  case False
  have "(drop n s @ take n s)[i - n := c] = (drop n s)[i - n := c] @ take n s"
    using False assms by (simp add: list_update_append1)
  moreover have "(drop n s @ take n s) ! (i - n) = s ! i"
    using False assms nth_append_left [of "i - n" "drop n s" "take n s"] by simp
  moreover have "drop n (s[i := c]) = (drop n s)[i - n := c]" "take n (s[i := c]) = take n s"
    using False by (simp_all add: drop_update_swap take_update_cancel)
  ultimately show ?thesis
    using False assms by (intro exI [of _ "i - n"]) simp
qed

lemma iban_wrong_character:
  assumes "list_all is_alnum s" and "iban False s = RBool True" and "i < length s"
    and "is_digit (s ! i) \<and> is_digit c \<or> is_upper (s ! i) \<and> is_upper c" and "c \<noteq> s ! i"
  shows "iban False (s[i := c]) = RBool False"
proof -
  let ?t = "drop 4 s @ take 4 s"
  have s: "5 \<le> length s" "iban_value ?t mod 97 = 1"
    using assms(2) by (simp_all add: iban_eq [OF assms(1)] iban_format_def)
  obtain j where j: "j < length s" "drop 4 (s[i := c]) @ take 4 (s[i := c]) = ?t[j := c]" "?t ! j = s ! i"
    using rotate_update [of 4 s i c] s(1) assms(3) by auto
  have "list_all is_alnum ?t" using assms(1) by (metis append_take_drop_id list_all_append)
  with j s(1) assms(4,5) have "iban_value (?t[j := c]) mod 97 \<noteq> iban_value ?t mod 97"
    by (intro iban_value_update) auto
  moreover have "list_all is_alnum (s[i := c])"
    using assms(1,4) by (auto intro: list_all_update simp: is_alnum_def)
  ultimately show ?thesis using s(2) by (simp only: iban_eq j(2)) simp
qed

end
