(* ===== verification/Tax_Methods.thy ===== *)
theory Tax_Methods
  imports Bank_Proofs
begin

text \<open>
  The identification number methods of \<open>additional-methods.js\<close>: Spanish \<open>cifES\<close>, \<open>nieES\<close> and
  \<open>nifES\<close>, Polish \<open>nipPL\<close>, Brazilian \<open>cnhBR\<close>, \<open>cnpjBR\<close>, \<open>cpfBR\<close> and \<open>nisBR\<close>, and the US
  vehicle identification number \<open>vinUS\<close>.
\<close>

section \<open>Spain\<close>

definition cif_format :: rx where
  "cif_format = icase (re ''^([ABCDEFGHJKLMNPQRSUVW])(%d{7})([0-9A-J])$'')"

text \<open>The loop over \<open>number\<close>: the index, \<open>odd_sum\<close> and \<open>even_sum\<close>.\<close>

fun cif_loop :: "string \<Rightarrow> nat \<Rightarrow> jsnum \<Rightarrow> jsnum \<Rightarrow> jsnum \<times> jsnum" where
  "cif_loop [] i odd_sum even_sum = (odd_sum, even_sum)"
| "cif_loop (c # number) i odd_sum even_sum =
     (let n = parse_int [c] in
      if i mod 2 = 0 then
        let n = nmul n (Some 2) in
        cif_loop number (i + 1) (nadd odd_sum (if num_lt n (Some 10) then n else nsub n (Some 9))) even_sum
      else cif_loop number (i + 1) odd_sum (nadd even_sum n))"

definition cifES :: "bool \<Rightarrow> string \<Rightarrow> jsres" where
  "cifES optional value =
     (if optional then RBool True
      else
        let letter = js_substring value 0 1;
            number = js_substring value 1 8;
            control = js_substring value 8 9
        in
        if length value \<noteq> 9 \<or> \<not> regex_test cif_format value then RBool False
        else
          let (odd_sum, even_sum) = cif_loop number 0 (Some 0) (Some 0);
              all_sum = nadd even_sum odd_sum;
              control_digit = num_str (nsub (Some 10) (to_number (substr_last (num_str all_sum) 1)));
              control_digit = (if num_lt (Some 9) (parse_int control_digit) then ''0'' else control_digit);
              control_letter = (case to_number control_digit of
                  None \<Rightarrow> char_at ''JABCDEFGHI'' 0 | Some k \<Rightarrow> char_at ''JABCDEFGHI'' (nat k))
          in if regex_test (re ''[ABEH]'') letter then RBool (control = control_digit)
             else if regex_test (re ''[KPQS]'') letter then RBool (control = control_letter)
             else RBool (control = control_digit \<or> control = control_letter))"

text \<open>\<open>s.charAt(x)\<close> for a number: NaN is index 0, an index out of range gives the empty string.\<close>

definition char_at_num :: "string \<Rightarrow> jsnum \<Rightarrow> string" where
  "char_at_num s x = (case x of None \<Rightarrow> char_at s 0 | Some i \<Rightarrow> if i < 0 then [] else char_at s (nat i))"

definition nie_letters :: string where
  "nie_letters = ''TRWAGMYFPDXBNJZSQVHLCKET''"

definition nie_format :: rx where
  "nie_format = icase (re ''^[MXYZ]{1}[0-9]{7,8}[TRWAGMYFPDXBNJZSQVHLCKET]{1}$'')"

text \<open>The three replacements of the leading letter.\<close>

definition nie_prefix :: "string \<Rightarrow> string" where
  "nie_prefix value =
     (case value of
        [] \<Rightarrow> []
      | c # r \<Rightarrow> (if c = CHR ''X'' then CHR ''0'' else if c = CHR ''Y'' then CHR ''1''
                  else if c = CHR ''Z'' then CHR ''2'' else c) # r)"

definition nieES :: "bool \<Rightarrow> string \<Rightarrow> jsres" where
  "nieES optional value =
     (if optional then RBool True
      else
        let letter = to_upper (substr_last value 1);
            value = to_upper value
        in
        if 10 < length value \<or> length value < 9 \<or> \<not> regex_test nie_format value then RBool False
        else
          let value = nie_prefix value;
              number = (if length value = 9 then take 8 value else take 9 value)
          in RBool (char_at_num nie_letters (nmod (parse_int number) 23) = letter))"

definition nif_letters :: string where
  "nif_letters = ''TRWAGMYFPDXBNJZSQVHLCKE''"

definition nif_format :: rx where
  "nif_format = re ''((^[A-Z]{1}[0-9]{7}[A-Z0-9]{1}$|^[T]{1}[A-Z0-9]{8}$)|^[0-9]{8}[A-Z]{1}$)''"

definition nifES :: "bool \<Rightarrow> string \<Rightarrow> jsres" where
  "nifES optional value =
     (if optional then RBool True
      else
        let value = to_upper value in
        if \<not> regex_test nif_format value then RBool False
        else if regex_test (re ''^[0-9]{8}[A-Z]{1}$'') value then
          RBool (char_at_num nif_letters (nmod (to_number (js_substring value 8 0)) 23) = char_at value 8)
        else if regex_test (re ''^[KLM]{1}'') value then
          RBool (char_at value 8 = char_at_num nif_letters (nmod (to_number (js_substring value 8 1)) 23))
        else RBool False)"

section \<open>Poland\<close>

definition nip_steps :: "int list" where
  "nip_steps = [6, 5, 7, 2, 3, 4, 5, 6, 7]"

fun nip_loop :: "int list \<Rightarrow> string \<Rightarrow> jsnum \<Rightarrow> jsnum" where
  "nip_loop (w # arrSteps) (c # value) intSum =
     nip_loop arrSteps value (nadd intSum (nmul (Some w) (to_number [c])))"
| "nip_loop arrSteps value intSum = intSum"

definition nipPL :: "string \<Rightarrow> jsres" where
  "nipPL value =
     (let value = strip_class (\<lambda>c. \<not> is_digit c) value in
      if length value \<noteq> 10 then RBool False
      else
        let int2 = nmod (nip_loop nip_steps value (Some 0)) 11;
            intControlNr = (if num_eq int2 (Some 10) then Some 0 else int2)
        in RBool (num_eq intControlNr (parse_int (char_at value 9))))"

section \<open>Brazil\<close>

text \<open>The class of special characters three of the methods remove.\<close>

definition br_special :: string where
  "br_special = ''~!@#$%^&*()_+=`{}[]-|:;<>,./? '' @ [CHR 0x5C, CHR 0x27]"

abbreviation br_strip :: "string \<Rightarrow> string" where
  "br_strip value \<equiv> strip_class (\<lambda>c. c \<in> set br_special) value"

fun cnh_down :: "string \<Rightarrow> int \<Rightarrow> nat \<Rightarrow> jsnum \<Rightarrow> jsnum" where
  "cnh_down (c # value) j (Suc n) acc = cnh_down value (j - 1) n (nadd acc (nmul (to_number [c]) (Some j)))"
| "cnh_down value j n acc = acc"

fun cnh_up :: "string \<Rightarrow> int \<Rightarrow> nat \<Rightarrow> jsnum \<Rightarrow> jsnum" where
  "cnh_up (c # value) j (Suc n) acc = cnh_up value (j + 1) n (nadd acc (nmul (to_number [c]) (Some j)))"
| "cnh_up value j n acc = acc"

definition cnhBR :: "string \<Rightarrow> jsres" where
  "cnhBR value =
     (let value = br_strip value in
      if length value \<noteq> 11 then RBool False
      else if concat (replicate 11 (char_at value 0)) = value then RBool False
      else
        let firstCN = nmod (cnh_down value 9 9 (Some 0)) 11;
            (firstCN, dsc) = (if num_le (Some 10) firstCN then (Some 0, 2) else (firstCN, 0));
            secondCN = nmod (cnh_up value 1 9 (Some 0)) 11;
            secondCN = (if num_le (Some 10) secondCN then Some 0 else nsub secondCN (Some dsc))
        in RBool (num_str firstCN @ num_str secondCN = substr_last value 2))"

text \<open>The loop of \<open>cnpjBR\<close>: \<open>pos\<close> counts down and restarts at 9.\<close>

fun cnpj_loop :: "string \<Rightarrow> int \<Rightarrow> jsnum \<Rightarrow> jsnum" where
  "cnpj_loop [] pos soma = soma"
| "cnpj_loop (c # numeros) pos soma =
     (let soma = nadd soma (nmul (to_number [c]) (Some pos)); pos = pos - 1;
          pos = (if pos < 2 then 9 else pos)
      in cnpj_loop numeros pos soma)"

definition cnpj_resultado :: "jsnum \<Rightarrow> jsnum" where
  "cnpj_resultado soma = (if num_lt (nmod soma 11) (Some 2) then Some 0 else nsub (Some 11) (nmod soma 11))"

definition cnpjBR :: "bool \<Rightarrow> string \<Rightarrow> jsres" where
  "cnpjBR optional value =
     (if optional then RBool True
      else
        let value = strip_class (\<lambda>c. \<not> is_digit c) value in
        if length value \<noteq> 14 then RBool False
        else if value \<in> set (map (replicate 14) ''0123456789'') then RBool False
        else
          let tamanho = length value - 2;
              numeros = js_substring value 0 tamanho;
              digitos = drop tamanho value;
              soma = cnpj_loop numeros (int tamanho - 7) (Some 0);
              resultado = cnpj_resultado soma
          in if \<not> num_eq resultado (parse_int (char_at digitos 0)) then RBool False
             else
               let tamanho = tamanho + 1;
                   numeros = js_substring value 0 tamanho;
                   soma = cnpj_loop numeros (int tamanho - 7) (Some 0);
                   resultado = cnpj_resultado soma
               in if \<not> num_eq resultado (parse_int (char_at digitos 1)) then RBool False
                  else RBool True)"

text \<open>The loops of \<open>cpfBR\<close>: the factor of the first character is \<open>n\<close>, of the last one 2.\<close>

fun cpf_loop :: "string \<Rightarrow> int \<Rightarrow> nat \<Rightarrow> jsnum \<Rightarrow> jsnum" where
  "cpf_loop (c # value) factor (Suc n) acc =
     cpf_loop value (factor - 1) n (nadd acc (nmul (parse_int [c]) (Some factor)))"
| "cpf_loop value factor n acc = acc"

definition cpf_check :: "jsnum \<Rightarrow> jsnum \<Rightarrow> bool" where
  "cpf_check acc cn =
     (let result = nmod (nmul acc (Some 10)) 11;
          result = (if num_eq result (Some 10) \<or> num_eq result (Some 11) then Some 0 else result)
      in num_eq result cn)"

definition cpfBR :: "bool \<Rightarrow> string \<Rightarrow> jsres" where
  "cpfBR optional value =
     (if optional then RBool True
      else
        let value = br_strip value in
        if length value \<noteq> 11 then RBool False
        else
          let firstCN = parse_int (js_substring value 9 10);
              secondCN = parse_int (js_substring value 10 11)
          in if value = [] \<or> value \<in> set (map (replicate 11) ''0123456789'') then RBool False
             else if cpf_check (cpf_loop value 10 9 (Some 0)) firstCN
             then RBool (cpf_check (cpf_loop value 11 10 (Some 0)) secondCN)
             else RBool False)"

text \<open>
  The loop of \<open>nisBR\<close> over \<open>count\<close>. \<open>parseInt(number / 10, 10)\<close> truncates the quotient of the
  non-negative \<open>number\<close> and is NaN for NaN.
\<close>

fun nis_loop :: "nat list \<Rightarrow> jsnum \<Rightarrow> jsnum \<Rightarrow> jsnum" where
  "nis_loop [] number acc = acc"
| "nis_loop (count # counts) number acc =
     (let multiplier = count;
          multiplier = (if count = 10 then 2 else multiplier);
          multiplier = (if count = 11 then 3 else multiplier);
          acc = nadd acc (nmul (nmod number 10) (Some (int multiplier)));
          number = map_option (\<lambda>n. n div 10) number
      in nis_loop counts number acc)"

definition nisBR :: "string \<Rightarrow> jsres" where
  "nisBR value =
     (let value = br_strip value in
      if length value \<noteq> 11 then RBool False
      else
        let cn = parse_int (js_substring value 10 11);
            number = parse_int (js_substring value 0 10);
            dv = nmod (nis_loop [2..<12] number (Some 0)) 11;
            dv = (if num_lt (Some 1) dv then nsub (Some 11) dv else Some 0)
        in if num_eq cn dv then RBool True else RBool False)"

section \<open>Vehicle identification numbers\<close>

definition vin_LL :: string where
  "vin_LL = ''ABCDEFGHJKLMNPRSTUVWXYZ''"

definition vin_VL :: "int list" where
  "vin_VL = [1, 2, 3, 4, 5, 6, 7, 8, 1, 2, 3, 4, 5, 7, 9, 2, 3, 4, 5, 6, 7, 8, 9]"

definition vin_FL :: "int list" where
  "vin_FL = [8, 7, 6, 5, 4, 3, 2, 10, 0, 9, 8, 7, 6, 5, 4, 3, 2]"

text \<open>The variables of the loop hold strings or numbers; \<open>cdv\<close> is undefined before index 8.\<close>

datatype jsval = VNum jsnum | VStr string | VUndef

text \<open>\<open>isNaN(x)\<close>, for an undefined value, a number, or a string of at most one character.\<close>

fun is_nan :: "jsval \<Rightarrow> bool" where
  "is_nan (VNum x) \<longleftrightarrow> x = None"
| "is_nan (VStr s) \<longleftrightarrow> to_number s = None"
| "is_nan VUndef \<longleftrightarrow> True"

text \<open>\<open>rs += d\<close> concatenates as soon as one side is a string.\<close>

definition js_plus :: "jsval \<Rightarrow> jsval \<Rightarrow> jsval" where
  "js_plus rs d =
     (let str = (\<lambda>x. case x of VNum n \<Rightarrow> num_str n | VStr s \<Rightarrow> s | VUndef \<Rightarrow> ''undefined'') in
      case (rs, d) of (VNum a, VNum b) \<Rightarrow> VNum (nadd a b) | _ \<Rightarrow> VStr (str rs @ str d))"

text \<open>The inner loop finds the upper-case letter in \<open>LL\<close>; a letter outside it leaves \<open>d\<close> a string.\<close>

definition vin_letter :: "char \<Rightarrow> int \<Rightarrow> jsval \<Rightarrow> jsval \<times> jsval" where
  "vin_letter c f cdv =
     (case to_upper [c] of
        [u] \<Rightarrow>
          if u \<in> set vin_LL then
            let n = length (takeWhile (\<lambda>l. l \<noteq> u) vin_LL) in
            (VNum (Some (vin_VL ! n * f)), if is_nan cdv \<and> n = 8 then VStr [vin_LL ! n] else cdv)
          else (VStr [c], cdv)
      | _ \<Rightarrow> (VStr [c], cdv))"

fun vin_loop :: "string \<Rightarrow> nat \<Rightarrow> jsval \<Rightarrow> jsval \<Rightarrow> jsval \<times> jsval" where
  "vin_loop [] i rs cdv = (rs, cdv)"
| "vin_loop (c # v) i rs cdv =
     (let f = vin_FL ! i;
          cdv = (if i = 8 then VStr [c] else cdv);
          (d, cdv) = (if \<not> is_nan (VStr [c]) then (VNum (nmul (to_number [c]) (Some f)), cdv)
                      else vin_letter c f cdv)
      in vin_loop v (i + 1) (js_plus rs d) cdv)"

text \<open>
  \<open>str_mod11 s\<close> is the remainder \<open>s % 11\<close> of a string operand when it is an integer: the conversion of
  a mixed string to a double is left open. The remainder 10 is replaced by the string \<open>"X"\<close>, and the
  result is compared with \<open>cdv\<close> by \<open>===\<close>.
\<close>

definition vinUS :: "(string \<Rightarrow> jsnum) \<Rightarrow> string \<Rightarrow> jsres" where
  "vinUS str_mod11 v =
     (if length v \<noteq> 17 then RBool False
      else
        let (rs, cdv) = vin_loop v 0 (VNum (Some 0)) VUndef;
            cd = VNum (case rs of VNum x \<Rightarrow> nmod x 11 | VStr s \<Rightarrow> str_mod11 s | VUndef \<Rightarrow> None);
            cd = (if cd = VNum (Some 10) then VStr ''X'' else cd)
        in if cd \<noteq> VNum None \<and> cd = cdv then RBool True else RBool False)"

end
