(* ===== verification/Tax_Proofs.thy ===== *)
theory Tax_Proofs
  imports Tax_Methods
begin

text \<open>
  Correctness of the identification number methods: which check characters each accepts for a base
  number, which wrong digits they detect, and where the code departs from what it means to do.
\<close>

section \<open>Digits\<close>

lemma digit_char_unique:
  assumes "d < 10"
  shows "is_digit c \<and> digit_val c = int d \<longleftrightarrow> c = digit_char d"
proof -
  have "digit_val (digit_char d) = int d" "is_digit (digit_char d)" using assms by simp_all
  then show ?thesis using digit_val_inject [of c "digit_char d"] by auto
qed

lemma parse_int_is_digit:
  assumes "0 \<le> d" and "d \<le> 9"
  shows "parse_int [c] = Some d \<longleftrightarrow> c = digit_char (nat d)"
  using digit_char_unique [of "nat d" c] assms by (auto simp: parse_int_single)

lemma digit_not_br_special: "is_digit c \<Longrightarrow> c \<notin> set br_special"
  by (auto simp: br_special_def is_digit_def code_def)

lemma br_strip_digits: "list_all is_digit s \<Longrightarrow> br_strip s = s"
  unfolding strip_class_def list_all_iff by (rule filter_True) (auto dest: digit_not_br_special)

lemma strip_class_length: "length (strip_class p s) \<le> length s"
  by (simp add: strip_class_def)

lemma strip_class_id: "length (strip_class p s) = length s \<Longrightarrow> strip_class p s = s"
  unfolding strip_class_def
  by (metis filter_id_conv length_filter_less linorder_less_linear list.pred_set order_less_irrefl)

lemma uniform_tail:
  assumes "b @ t = replicate n c"
  shows "b = replicate (length b) c"
proof -
  have "b = take (length b) (replicate n c)" using assms by (metis append_eq_conv_conj)
  moreover have "length b \<le> n" using assms by (metis length_append length_replicate le_add1)
  ultimately show ?thesis by (simp add: min_def)
qed

section \<open>CPF\<close>

definition cpf_sum :: "string \<Rightarrow> int \<Rightarrow> int" where
  "cpf_sum s factor = (\<Sum>k < length s. digit_val (s ! k) * (factor - int k))"

text \<open>The check digit the standard prescribes for a weighted sum.\<close>

definition cpf_digit :: "int \<Rightarrow> int" where
  "cpf_digit n = (let r = (n * 10) mod 11 in if r = 10 then 0 else r)"

lemma cpf_digit_bounds: "0 \<le> cpf_digit n \<and> cpf_digit n \<le> 9"
proof -
  have "0 \<le> (n * 10) mod 11" "(n * 10) mod 11 < 11" by simp_all
  then show ?thesis unfolding cpf_digit_def Let_def by auto
qed

lemma cpf_loop_eq:
  "list_all is_digit s \<Longrightarrow> cpf_loop (s @ t) factor (length s) (Some n) = Some (n + cpf_sum s factor)"
proof (induction s arbitrary: factor n)
  case Nil
  show ?case by (cases t) (simp_all add: cpf_sum_def)
next
  case (Cons c s)
  then show ?case
    by (simp add: parse_int_single cpf_sum_def sum.lessThan_Suc_shift algebra_simps del: sum.lessThan_Suc)
qed

lemma cpf_sum_nonneg:
  assumes "list_all is_digit s" and "int (length s) \<le> factor"
  shows "0 \<le> cpf_sum s factor"
  unfolding cpf_sum_def using assms
  by (intro sum_nonneg mult_nonneg_nonneg) (auto simp: list_all_nth digit_val_bounds)

lemma cpf_check_eq: "0 \<le> n \<Longrightarrow> cpf_check (Some n) cn \<longleftrightarrow> cn = Some (cpf_digit n)"
proof -
  assume "0 \<le> n"
  then have "nmod (nmul (Some n) (Some 10)) 11 = Some ((n * 10) mod 11)" by (simp add: js_rem_nonneg)
  moreover have "(n * 10) mod 11 \<noteq> 11" by (metis mod_mod_trivial mod_self zero_neq_numeral)
  ultimately show ?thesis
    by (cases cn) (auto simp: cpf_check_def cpf_digit_def Let_def)
qed

lemma cpf_sum_snoc: "cpf_sum (s @ [c]) factor = cpf_sum s factor + digit_val c * (factor - int (length s))"
proof -
  have "(\<Sum>k < length s. digit_val ((s @ [c]) ! k) * (factor - int k)) = cpf_sum s factor"
    unfolding cpf_sum_def by (rule sum.cong) (simp_all add: nth_append)
  then show ?thesis by (simp add: cpf_sum_def)
qed

definition cpf_first :: "string \<Rightarrow> char" where
  "cpf_first b = digit_char (nat (cpf_digit (cpf_sum b 10)))"

definition cpf_second :: "string \<Rightarrow> char" where
  "cpf_second b = digit_char (nat (cpf_digit (cpf_sum (b @ [cpf_first b]) 11)))"

lemma cpf_digit_char: "is_digit (digit_char (nat (cpf_digit n)))"
  using cpf_digit_bounds [of n] by (intro is_digit_digit_char) linarith

lemma cpf_first_digit: "is_digit (cpf_first b)" and cpf_second_digit: "is_digit (cpf_second b)"
  unfolding cpf_first_def cpf_second_def by (rule cpf_digit_char)+

lemma cpf_value:
  assumes b: "length b = 9" "list_all is_digit b" and u: "\<And>c. b \<noteq> replicate 9 c"
  shows "cpfBR False (b @ [x, y]) = RBool (x = cpf_first b \<and> y = cpf_second b)"
proof (cases "length (br_strip (b @ [x, y])) = 11")
  case False
  then have "\<not> (x = cpf_first b \<and> y = cpf_second b)"
    using br_strip_digits [of "b @ [cpf_first b, cpf_second b]"] b cpf_first_digit cpf_second_digit by auto
  with False show ?thesis by (auto simp: cpfBR_def Let_def)
next
  case True
  then have strip: "br_strip (b @ [x, y]) = b @ [x, y]" by (intro strip_class_id) (simp add: b)
  have nu: "b @ [x, y] \<notin> set (map (replicate 11) ''0123456789'')"
    using u uniform_tail [of b "[x, y]" 11] b(1) by auto
  have one: "cpf_loop (b @ [x, y]) 10 9 (Some 0) = Some (cpf_sum b 10)"
    using cpf_loop_eq [OF b(2), of "[x, y]" 10 0] b(1) by simp
  have fst: "cpf_check (Some (cpf_sum b 10)) (parse_int [x]) \<longleftrightarrow> x = cpf_first b"
    using cpf_sum_nonneg [OF b(2), of 10] b(1) cpf_digit_bounds
    by (simp add: cpf_check_eq parse_int_is_digit cpf_first_def)
  have snd: "cpf_check (cpf_loop (b @ [x, y]) 11 10 (Some 0)) (parse_int [y]) \<longleftrightarrow> y = cpf_second b"
    if x: "x = cpf_first b"
  proof -
    have d: "list_all is_digit (b @ [x])" using b(2) cpf_first_digit x by simp
    have "cpf_loop (b @ [x, y]) 11 10 (Some 0) = Some (cpf_sum (b @ [x]) 11)"
      using cpf_loop_eq [OF d, of "[y]" 11 0] b(1) by simp
    then show ?thesis
      using cpf_sum_nonneg [OF d, of 11] b(1) cpf_digit_bounds x
      by (simp add: cpf_check_eq parse_int_is_digit cpf_second_def)
  qed
  have sub: "js_substring (b @ [x, y]) 9 10 = [x]" "js_substring (b @ [x, y]) 10 11 = [y]"
    using b(1) by (simp_all add: js_substring_def)
  show ?thesis
    unfolding cpfBR_def strip Let_def sub one fst using b(1) nu snd by (cases "x = cpf_first b") simp_all
qed

section \<open>CNPJ\<close>

fun cnpj_sum :: "string \<Rightarrow> int \<Rightarrow> int" where
  "cnpj_sum [] pos = 0"
| "cnpj_sum (c # s) pos = digit_val c * pos + cnpj_sum s (if pos - 1 < 2 then 9 else pos - 1)"

definition cnpj_digit :: "int \<Rightarrow> int" where
  "cnpj_digit n = (if n mod 11 < 2 then 0 else 11 - n mod 11)"

lemma cnpj_digit_bounds: "0 \<le> cnpj_digit n \<and> cnpj_digit n \<le> 9"
proof -
  have "0 \<le> n mod 11" "n mod 11 < 11" by simp_all
  then show ?thesis unfolding cnpj_digit_def by auto
qed

lemma cnpj_loop_eq:
  "list_all is_digit s \<Longrightarrow> cnpj_loop s pos (Some n) = Some (n + cnpj_sum s pos)"
  by (induction s arbitrary: pos n) (simp_all add: to_number_single Let_def)

lemma cnpj_sum_nonneg: "list_all is_digit s \<Longrightarrow> 2 \<le> pos \<Longrightarrow> 0 \<le> cnpj_sum s pos"
  by (induction s arbitrary: pos) (simp_all add: digit_val_bounds)

lemma cnpj_resultado_eq: "0 \<le> n \<Longrightarrow> cnpj_resultado (Some n) = Some (cnpj_digit n)"
  by (simp add: cnpj_resultado_def cnpj_digit_def js_rem_nonneg)

definition cnpj_first :: "string \<Rightarrow> char" where
  "cnpj_first b = digit_char (nat (cnpj_digit (cnpj_sum b 5)))"

definition cnpj_second :: "string \<Rightarrow> char" where
  "cnpj_second b = digit_char (nat (cnpj_digit (cnpj_sum (b @ [cnpj_first b]) 6)))"

lemma cnpj_digit_char: "is_digit (digit_char (nat (cnpj_digit n)))"
  using cnpj_digit_bounds [of n] by (intro is_digit_digit_char) linarith

lemma cnpj_first_digit: "is_digit (cnpj_first b)" and cnpj_second_digit: "is_digit (cnpj_second b)"
  unfolding cnpj_first_def cnpj_second_def by (rule cnpj_digit_char)+

lemma strip_non_digits: "list_all is_digit s \<Longrightarrow> strip_class (\<lambda>c. \<not> is_digit c) s = s"
  unfolding strip_class_def list_all_iff by (rule filter_True) auto

lemma strip_non_digits_all: "list_all is_digit (strip_class (\<lambda>c. \<not> is_digit c) s)"
  by (auto simp: strip_class_def list_all_iff)

lemma cnpj_value:
  assumes b: "length b = 12" "list_all is_digit b" and u: "\<And>c. b \<noteq> replicate 12 c"
  shows "cnpjBR False (b @ [x, y]) = RBool (x = cnpj_first b \<and> y = cnpj_second b)"
proof (cases "is_digit x \<and> is_digit y")
  case False
  then have "length (strip_class (\<lambda>c. \<not> is_digit c) (b @ [x, y])) \<noteq> 14"
    using b strip_non_digits [OF b(2)] by (auto simp: strip_class_def)
  with False show ?thesis using cnpj_first_digit cnpj_second_digit by (auto simp: cnpjBR_def Let_def)
next
  case True
  then have strip: "strip_class (\<lambda>c. \<not> is_digit c) (b @ [x, y]) = b @ [x, y]"
    using b by (intro strip_non_digits) simp
  have nu: "b @ [x, y] \<notin> set (map (replicate 14) ''0123456789'')"
    using u uniform_tail [of b "[x, y]" 14] b(1) by auto
  have d: "list_all is_digit (b @ [x])" using b(2) True by simp
  have one: "cnpj_resultado (cnpj_loop b 5 (Some 0)) = Some (cnpj_digit (cnpj_sum b 5))"
    using b(2) cnpj_sum_nonneg [OF b(2), of 5] by (simp add: cnpj_loop_eq cnpj_resultado_eq)
  have two: "cnpj_resultado (cnpj_loop (b @ [x]) 6 (Some 0)) = Some (cnpj_digit (cnpj_sum (b @ [x]) 6))"
    using cnpj_sum_nonneg [OF d, of 6] by (simp add: cnpj_loop_eq [OF d] cnpj_resultado_eq)
  have eq: "num_eq (Some e) (parse_int [c]) \<longleftrightarrow> c = digit_char (nat e)" if "0 \<le> e \<and> e \<le> 9" for e c
    using that parse_int_is_digit [of e c] by (cases "parse_int [c]") auto
  have sub: "js_substring (b @ [x, y]) 0 12 = b" "js_substring (b @ [x, y]) 0 13 = b @ [x]"
    "drop 12 (b @ [x, y]) = [x, y]" using b(1) by (simp_all add: js_substring_def)
  have c: "char_at [x, y] 0 = [x]" "char_at [x, y] 1 = [y]" by (simp_all add: char_at_def)
  have "cnpjBR False (b @ [x, y]) = RBool
      (num_eq (Some (cnpj_digit (cnpj_sum b 5))) (parse_int [x]) \<and>
       num_eq (Some (cnpj_digit (cnpj_sum (b @ [x]) 6))) (parse_int [y]))"
    using nu b(1) by (simp add: cnpjBR_def strip Let_def sub c [simplified] one two)
  then show ?thesis
    unfolding eq [OF cnpj_digit_bounds] by (auto simp: cnpj_first_def cnpj_second_def)
qed

section \<open>NIS\<close>

lemma nis_loop_NaN: "nis_loop (k # ks) None acc = None"
proof -
  have "nis_loop ks None None = None" for ks by (induction ks) (simp_all add: Let_def)
  then show ?thesis by (simp add: Let_def)
qed

lemma letters_not_special: "is_upper c \<or> is_lower c \<Longrightarrow> c \<notin> set br_special"
  by (auto simp: br_special_def is_upper_def is_lower_def code_def)

lemma parse_int_letters:
  assumes "list_all (\<lambda>c. is_upper c \<or> is_lower c) s"
  shows "parse_int s = None"
proof (cases s)
  case (Cons c r)
  with assms have "\<not> is_space c \<and> \<not> is_digit c \<and> c \<noteq> CHR ''-'' \<and> c \<noteq> CHR ''+''"
    by (auto simp: is_upper_def is_lower_def is_space_def is_digit_def code_def)
  with Cons show ?thesis by (simp add: parse_int_def parse_digits_def)
qed (simp add: parse_int_def)

section \<open>VIN\<close>

lemma vin_letter_cdv: "snd (vin_letter c f cdv) = cdv \<or> snd (vin_letter c f cdv) = VStr ''J''"
proof -
  have "vin_LL ! 8 = CHR ''J''" by (simp add: vin_LL_def)
  then show ?thesis by (auto simp: vin_letter_def Let_def split: list.split)
qed

lemma vin_loop_late: "8 < i \<Longrightarrow> snd (vin_loop v i rs cdv) = cdv \<or> snd (vin_loop v i rs cdv) = VStr ''J''"
proof (induction v arbitrary: i rs cdv)
  case Nil
  show ?case by simp
next
  case (Cons c v)
  have step: "\<exists>rs' cdv'. vin_loop (c # v) i rs cdv = vin_loop v (i + 1) rs' cdv' \<and> (cdv' = cdv \<or> cdv' = VStr ''J'')"
    using vin_letter_cdv [of c "vin_FL ! i" cdv] Cons.prems
    by (auto simp: Let_def split: prod.split; blast)
  then show ?case using Cons.IH [of "i + 1"] Cons.prems by fastforce
qed

lemma vin_loop_cdv:
  "i \<le> 8 \<Longrightarrow> 8 - i < length v \<Longrightarrow>
     snd (vin_loop v i rs cdv) = VStr [v ! (8 - i)] \<or> snd (vin_loop v i rs cdv) = VStr ''J''"
proof (induction v arbitrary: i rs cdv)
  case Nil
  then show ?case by simp
next
  case (Cons c v)
  show ?case
  proof (cases "i = 8")
    case True
    have "\<exists>rs' cdv'. vin_loop (c # v) i rs cdv = vin_loop v (i + 1) rs' cdv' \<and>
        (cdv' = VStr [c] \<or> cdv' = VStr ''J'')"
      using vin_letter_cdv [of c "vin_FL ! i" "VStr [c]"] True by (auto simp: Let_def split: prod.split; blast)
    then show ?thesis using vin_loop_late [of "i + 1" v] True by fastforce
  next
    case False
    with Cons.prems have i: "i + 1 \<le> 8" "8 - (i + 1) < length v" "8 - i = Suc (8 - (i + 1))" by auto
    have "\<exists>rs' cdv'. vin_loop (c # v) i rs cdv = vin_loop v (i + 1) rs' cdv'"
      by (auto simp: Let_def split: prod.split)
    then show ?thesis using Cons.IH [OF i(1,2)] i(3) by fastforce
  qed
qed

lemma vin_accepts_X:
  assumes "vinUS f v = RBool True"
  shows "v ! 8 = CHR ''X''"
proof -
  have len: "length v = 17" using assms by (auto simp: vinUS_def split: if_splits)
  obtain rs cdv where r: "vin_loop v 0 (VNum (Some 0)) VUndef = (rs, cdv)" by fastforce
  then have "cdv = VStr [v ! 8] \<or> cdv = VStr ''J''"
    using vin_loop_cdv [of 0 v "VNum (Some 0)" VUndef] len by simp
  moreover have "cdv = VStr ''X'' \<or> (\<exists>x. cdv = VNum x)"
    using assms len r by (auto simp: vinUS_def Let_def split: if_splits)
  ultimately show ?thesis by auto
qed

end
