(* ===== verification/Js_Date.thy ===== *)
theory Js_Date
  imports Method_Result
begin

text \<open>
  The calendar of JavaScript dates, as the language defines it: \<open>Date.UTC\<close> makes a day number from a
  year, a month and a day of the month that may be out of range, and the \<open>getUTC...\<close> methods read a
  year, a month and a day of the month back from it. Months count from 0.
\<close>

section \<open>Days and years\<close>

definition leap :: "int \<Rightarrow> bool" where
  "leap y \<longleftrightarrow> y mod 4 = 0 \<and> (y mod 100 \<noteq> 0 \<or> y mod 400 = 0)"

definition day_from_year :: "int \<Rightarrow> int" where
  "day_from_year y =
     365 * (y - 1970) + (y - 1969) div 4 - (y - 1901) div 100 + (y - 1601) div 400"

definition days_in_year :: "int \<Rightarrow> int" where
  "days_in_year y = (if leap y then 366 else 365)"

lemma div_step:
  fixes x n :: int
  assumes "0 < n"
  shows "(x + 1) div n = x div n + (if (x + 1) mod n = 0 then 1 else 0)"
proof -
  have a: "x = n * (x div n) + x mod n" "0 \<le> x mod n" "x mod n < n"
    using assms by simp_all
  show ?thesis
  proof (cases "x mod n = n - 1")
    case True
    have "x + 1 = n * (x div n) + n" using a(1) True by linarith
    then have e: "x + 1 = n * (x div n + 1)" by (simp add: distrib_left)
    then have "(x + 1) mod n = 0" by simp
    moreover have "(x + 1) div n = x div n + 1" using e assms by (metis nonzero_mult_div_cancel_left less_irrefl)
    ultimately show ?thesis by simp
  next
    case False
    then have r: "0 \<le> x mod n + 1" "x mod n + 1 < n" using a by auto
    have e: "x + 1 = n * (x div n) + (x mod n + 1)" using a(1) by simp
    have "(x + 1) div n = x div n" using e r by (rule int_div_pos_eq)
    moreover have "(x + 1) mod n = x mod n + 1" using e r by (rule int_mod_pos_eq)
    ultimately show ?thesis using a(2) by simp
  qed
qed

lemma day_from_year_step: "day_from_year (y + 1) = day_from_year y + days_in_year y"
proof -
  have step: "(y + 1 - r) div n = (y - r) div n + (if y mod n = 0 then 1 else 0)"
    if "0 < n" "r = 1 + q * n" for n r q :: int
  proof -
    have "y - r + 1 = y + (- q) * n" using that by simp
    then have "(y - r + 1) mod n = y mod n" by (simp only: mod_mult_self1)
    then show ?thesis using div_step [OF that(1), of "y - r"] by (simp add: algebra_simps)
  qed
  have s4: "(y + 1 - 1969) div 4 = (y - 1969) div 4 + (if y mod 4 = 0 then 1 else 0)"
    by (rule step [where q = 492]) simp_all
  have s100: "(y + 1 - 1901) div 100 = (y - 1901) div 100 + (if y mod 100 = 0 then 1 else 0)"
    by (rule step [where q = 19]) simp_all
  have s400: "(y + 1 - 1601) div 400 = (y - 1601) div 400 + (if y mod 400 = 0 then 1 else 0)"
    by (rule step [where q = 4]) simp_all
  have d: "(100::int) dvd 400" "(4::int) dvd 100" by simp_all
  have imp: "y mod 400 = 0 \<Longrightarrow> y mod 100 = 0" "y mod 100 = 0 \<Longrightarrow> y mod 4 = 0"
    using dvd_trans [OF d(1), of y] dvd_trans [OF d(2), of y] by (simp_all only: mod_eq_0_iff_dvd)
  show ?thesis
    unfolding day_from_year_def days_in_year_def leap_def s4 s100 s400
    using imp by (cases "y mod 4 = 0"; cases "y mod 100 = 0"; cases "y mod 400 = 0") simp_all
qed

lemma days_in_year_pos: "365 \<le> days_in_year y"
  by (simp add: days_in_year_def)

lemma day_from_year_mono: "y \<le> z \<Longrightarrow> day_from_year y \<le> day_from_year z"
proof (induction z rule: int_ge_induct)
  case base
  show ?case by simp
next
  case (step z)
  then show ?case using day_from_year_step [of z] days_in_year_pos [of z] by linarith
qed

text \<open>The year of a day: searched down from a start that is too late, then up from one that is not.\<close>

function year_down :: "int \<Rightarrow> int \<Rightarrow> int" where
  "year_down day y = (if day < day_from_year y then year_down day (y - 1) else y)"
  by pat_completeness auto
termination
proof (relation "measure (\<lambda>(day, y). nat (day_from_year y - day))")
  fix day y
  assume "day < day_from_year y"
  moreover have "day_from_year y = day_from_year (y - 1) + days_in_year (y - 1)"
    using day_from_year_step [of "y - 1"] by simp
  ultimately show "((day, y - 1), (day, y)) \<in> measure (\<lambda>(day, y). nat (day_from_year y - day))"
    using days_in_year_pos [of "y - 1"] by simp
qed simp

function year_up :: "int \<Rightarrow> int \<Rightarrow> int" where
  "year_up day y = (if day_from_year (y + 1) \<le> day then year_up day (y + 1) else y)"
  by pat_completeness auto
termination
proof (relation "measure (\<lambda>(day, y). nat (day - day_from_year y))")
  fix day y
  assume "day_from_year (y + 1) \<le> day"
  then show "((day, y + 1), (day, y)) \<in> measure (\<lambda>(day, y). nat (day - day_from_year y))"
    using day_from_year_step [of y] days_in_year_pos [of y] by simp
qed simp

declare year_down.simps [simp del] year_up.simps [simp del]

definition year_of_day :: "int \<Rightarrow> int" where
  "year_of_day day = year_up day (year_down day 1970)"

lemma year_down_le: "day_from_year (year_down day y) \<le> day"
  by (induction day y rule: year_down.induct) (subst year_down.simps, simp)

lemma year_up_bounds:
  "day_from_year y \<le> day \<Longrightarrow>
     day_from_year (year_up day y) \<le> day \<and> day < day_from_year (year_up day y + 1)"
  by (induction day y rule: year_up.induct) (subst (1 2) year_up.simps, simp)

lemma year_of_day_bounds:
  "day_from_year (year_of_day day) \<le> day \<and> day < day_from_year (year_of_day day + 1)"
  unfolding year_of_day_def by (rule year_up_bounds [OF year_down_le])

lemma year_of_day_unique:
  assumes "day_from_year y \<le> day" and "day < day_from_year (y + 1)"
  shows "year_of_day day = y"
proof -
  let ?z = "year_of_day day"
  have "\<not> y + 1 \<le> ?z"
    using day_from_year_mono [of "y + 1" ?z] assms year_of_day_bounds [of day] by linarith
  moreover have "\<not> ?z + 1 \<le> y"
    using day_from_year_mono [of "?z + 1" y] assms year_of_day_bounds [of day] by linarith
  ultimately show ?thesis by simp
qed

section \<open>Months\<close>

definition month_start :: "bool \<Rightarrow> int \<Rightarrow> int" where
  "month_start lp m =
     (if m \<le> 0 then 0
      else [0, 31, 59, 90, 120, 151, 181, 212, 243, 273, 304, 334, 365] ! nat m + (if lp \<and> 2 \<le> m then 1 else 0))"

definition month_of :: "bool \<Rightarrow> int \<Rightarrow> int" where
  "month_of lp k = int (length (takeWhile (\<lambda>m. month_start lp (m + 1) \<le> k) [0, 1, 2, 3, 4, 5, 6, 7, 8, 9, 10]))"

definition days_in_month :: "bool \<Rightarrow> int \<Rightarrow> int" where
  "days_in_month lp m = month_start lp (m + 1) - month_start lp m"

text \<open>\<open>Date.UTC(year, month, date, ...)\<close> as a day number; years below 100 mean the twentieth century.\<close>

definition utc_year :: "int \<Rightarrow> int" where
  "utc_year y = (if 0 \<le> y \<and> y \<le> 99 then 1900 + y else y)"

definition date_utc :: "int \<Rightarrow> int \<Rightarrow> int \<Rightarrow> int" where
  "date_utc year month date =
     (let ym = utc_year year + month div 12; mn = month mod 12 in
      day_from_year ym + month_start (leap ym) mn + date - 1)"

definition get_year :: "int \<Rightarrow> int" where
  "get_year day = year_of_day day"

definition get_month :: "int \<Rightarrow> int" where
  "get_month day = (let y = year_of_day day in month_of (leap y) (day - day_from_year y))"

definition get_date :: "int \<Rightarrow> int" where
  "get_date day = (let y = year_of_day day; k = day - day_from_year y in
     k - month_start (leap y) (month_of (leap y) k) + 1)"

lemma month_values: "0 \<le> m \<Longrightarrow> m \<le> 11 \<Longrightarrow> (m::int) \<in> {0, 1, 2, 3, 4, 5, 6, 7, 8, 9, 10, 11}"
  unfolding insert_iff empty_iff by presburger

lemma month_of_start:
  assumes "0 \<le> m" "m \<le> 11" "month_start lp m \<le> k" "k < month_start lp (m + 1)"
  shows "month_of lp k = m"
  using month_values [OF assms(1,2)] assms(3,4)
  by (cases lp) (auto simp: month_of_def month_start_def)

lemma month_of_bounds:
  assumes "0 \<le> k" and "k < (if lp then 366 else 365)"
  shows "0 \<le> month_of lp k \<and> month_of lp k \<le> 11 \<and>
    month_start lp (month_of lp k) \<le> k \<and> k < month_start lp (month_of lp k + 1)"
  using assms by (cases lp) (auto simp: month_of_def month_start_def)

lemma month_start_range:
  assumes "0 \<le> m" "m \<le> 11"
  shows "0 \<le> month_start lp m \<and> month_start lp (m + 1) \<le> (if lp then 366 else 365)"
  using month_values [OF assms] by (cases lp) (auto simp: month_start_def)

text \<open>A date in range is read back as it was given.\<close>

lemma date_roundtrip:
  assumes "0 \<le> m" "m \<le> 11" "1 \<le> d" "d \<le> days_in_month (leap y) m" and "\<not> (0 \<le> y \<and> y \<le> 99)"
  shows "get_year (date_utc y m d) = y \<and> get_month (date_utc y m d) = m \<and> get_date (date_utc y m d) = d"
proof -
  let ?day = "date_utc y m d"
  have day: "?day = day_from_year y + month_start (leap y) m + d - 1"
    using assms by (auto simp: date_utc_def utc_year_def div_pos_pos_trivial mod_pos_pos_trivial)
  have "day_from_year y \<le> ?day" "?day < day_from_year (y + 1)"
    using assms month_start_range [OF assms(1,2), of "leap y"] day_from_year_step [of y]
    unfolding day days_in_month_def days_in_year_def by (auto split: if_splits)
  then have y: "year_of_day ?day = y" by (rule year_of_day_unique)
  have "month_of (leap y) (?day - day_from_year y) = m"
    using assms(3,4) unfolding day days_in_month_def by (intro month_of_start [OF assms(1,2)]) auto
  with y show ?thesis by (simp add: get_year_def get_month_def get_date_def Let_def day)
qed

text \<open>Whatever is read from a day is in range.\<close>

lemma date_fields_range:
  "0 \<le> get_month day \<and> get_month day \<le> 11 \<and> 1 \<le> get_date day \<and>
     get_date day \<le> days_in_month (leap (get_year day)) (get_month day)"
proof -
  let ?y = "year_of_day day"
  have "0 \<le> day - day_from_year ?y" "day - day_from_year ?y < (if leap ?y then 366 else 365)"
    using year_of_day_bounds [of day] day_from_year_step [of ?y] by (auto simp: days_in_year_def split: if_splits)
  from month_of_bounds [OF this] show ?thesis
    by (auto simp: get_month_def get_date_def get_year_def Let_def days_in_month_def)
qed

end
