(* ===== verification/Pattern_Methods.thy ===== *)
theory Pattern_Methods
  imports Js_Date
begin

text \<open>
  The methods of \<open>additional-methods.js\<close> that test the shape of a value: word counts, the methods
  that are one regular expression, telephone numbers, dates, states, currencies, and the methods on
  the files of a file input. The first argument of a method that calls \<open>this.optional(element)\<close> is
  that call's outcome. A pattern is the text it has in the source (\<open>re\<close>, with \<open>%\<close> for the
  backslash); \<open>icase\<close> is the flag \<open>i\<close>.
\<close>

section \<open>Words\<close>

text \<open>The typographic quotes of the last class lie outside the 8-bit code units and are left out.\<close>

definition stripHtml :: "string \<Rightarrow> string" where
  \<open>stripHtml value =
     (let value = replace_all (re ''<.[^<>]*?>'') '' '' None value;
          value = replace_all (icase (re ''&nbsp;|&#160;'')) '' '' None value
      in replace_all (re ''[.(),;:!?%%#$%\'"_+=%/%-]*'') [] None value)\<close>

text \<open>\<open>match\<close> returns \<open>null\<close> when there is no word, and reading its length throws.\<close>

definition word_count :: "string \<Rightarrow> nat option" where
  "word_count value =
     (let n = count_matches (re ''%b%w+%b'') None (stripHtml value) in if n = 0 then None else Some n)"

definition maxWords :: "bool \<Rightarrow> string \<Rightarrow> nat \<Rightarrow> jsres" where
  "maxWords optional value params = or_optional optional
     (case word_count value of None \<Rightarrow> RThrow | Some n \<Rightarrow> RBool (n \<le> params))"

definition minWords :: "bool \<Rightarrow> string \<Rightarrow> nat \<Rightarrow> jsres" where
  "minWords optional value params = or_optional optional
     (case word_count value of None \<Rightarrow> RThrow | Some n \<Rightarrow> RBool (params \<le> n))"

definition rangeWords :: "bool \<Rightarrow> string \<Rightarrow> nat \<times> nat \<Rightarrow> jsres" where
  "rangeWords optional value params = or_optional optional
     (case word_count value of None \<Rightarrow> RThrow | Some n \<Rightarrow> RBool (fst params \<le> n \<and> n \<le> snd params))"

section \<open>One pattern\<close>

definition alphanumeric :: "bool \<Rightarrow> string \<Rightarrow> jsres" where
  \<open>alphanumeric optional value = or_optional optional (RBool (regex_test
     (icase (re ''^%w+$'')) value))\<close>

definition dateFA :: "bool \<Rightarrow> string \<Rightarrow> jsres" where
  \<open>dateFA optional value = or_optional optional (RBool (regex_test
     (re ''^[1-4]%d{3}%/((0?[1-6]%/((3[0-1])|([1-2][0-9])|(0?[1-9])))|((1[0-2]|(0?[7-9]))%/(30|([1-2][0-9])|(0?[1-9]))))$'') value))\<close>

definition dateNL :: "bool \<Rightarrow> string \<Rightarrow> jsres" where
  \<open>dateNL optional value = or_optional optional (RBool (regex_test
     (re ''^(0?[1-9]|[12]%d|3[01])[%.%/%-](0?[1-9]|1[012])[%.%/%-]([12]%d)?(%d%d)$'') value))\<close>

definition integer :: "bool \<Rightarrow> string \<Rightarrow> jsres" where
  \<open>integer optional value = or_optional optional (RBool (regex_test
     (re ''^-?%d+$'') value))\<close>

definition ipv4 :: "bool \<Rightarrow> string \<Rightarrow> jsres" where
  \<open>ipv4 optional value = or_optional optional (RBool (regex_test
     (icase (re ''^(25[0-5]|2[0-4]%d|[01]?%d%d?)%.(25[0-5]|2[0-4]%d|[01]?%d%d?)%.(25[0-5]|2[0-4]%d|[01]?%d%d?)%.(25[0-5]|2[0-4]%d|[01]?%d%d?)$'')) value))\<close>

definition ipv6 :: "bool \<Rightarrow> string \<Rightarrow> jsres" where
  \<open>ipv6 optional value = or_optional optional (RBool (regex_test
     (icase (re ''^((([0-9A-Fa-f]{1,4}:){7}[0-9A-Fa-f]{1,4})|(([0-9A-Fa-f]{1,4}:){6}:[0-9A-Fa-f]{1,4})|(([0-9A-Fa-f]{1,4}:){5}:([0-9A-Fa-f]{1,4}:)?[0-9A-Fa-f]{1,4})|(([0-9A-Fa-f]{1,4}:){4}:([0-9A-Fa-f]{1,4}:){0,2}[0-9A-Fa-f]{1,4})|(([0-9A-Fa-f]{1,4}:){3}:([0-9A-Fa-f]{1,4}:){0,3}[0-9A-Fa-f]{1,4})|(([0-9A-Fa-f]{1,4}:){2}:([0-9A-Fa-f]{1,4}:){0,4}[0-9A-Fa-f]{1,4})|(([0-9A-Fa-f]{1,4}:){6}((%b((25[0-5])|(1%d{2})|(2[0-4]%d)|(%d{1,2}))%b)%.){3}(%b((25[0-5])|(1%d{2})|(2[0-4]%d)|(%d{1,2}))%b))|(([0-9A-Fa-f]{1,4}:){0,5}:((%b((25[0-5])|(1%d{2})|(2[0-4]%d)|(%d{1,2}))%b)%.){3}(%b((25[0-5])|(1%d{2})|(2[0-4]%d)|(%d{1,2}))%b))|(::([0-9A-Fa-f]{1,4}:){0,5}((%b((25[0-5])|(1%d{2})|(2[0-4]%d)|(%d{1,2}))%b)%.){3}(%b((25[0-5])|(1%d{2})|(2[0-4]%d)|(%d{1,2}))%b))|([0-9A-Fa-f]{1,4}::([0-9A-Fa-f]{1,4}:){0,5}[0-9A-Fa-f]{1,4})|(::([0-9A-Fa-f]{1,4}:){0,6}[0-9A-Fa-f]{1,4})|(([0-9A-Fa-f]{1,4}:){1,7}:))$'')) value))\<close>

definition lettersonly :: "bool \<Rightarrow> string \<Rightarrow> jsres" where
  \<open>lettersonly optional value = or_optional optional (RBool (regex_test
     (icase (re ''^[a-z]+$'')) value))\<close>

definition letterswithbasicpunc :: "bool \<Rightarrow> string \<Rightarrow> jsres" where
  \<open>letterswithbasicpunc optional value = or_optional optional (RBool (regex_test
     (icase (re ''^[a-z%-.,()\'"%s]+$'')) value))\<close>

definition mobileNL :: "bool \<Rightarrow> string \<Rightarrow> jsres" where
  \<open>mobileNL optional value = or_optional optional (RBool (regex_test
     (re ''^((%+|00(%s|%s?%-%s?)?)31(%s|%s?%-%s?)?(%(0%)[%-%s]?)?|0)6((%s|%s?%-%s?)?[0-9]){8}$'') value))\<close>

definition netmask :: "bool \<Rightarrow> string \<Rightarrow> jsres" where
  \<open>netmask optional value = or_optional optional (RBool (regex_test
     (icase (re ''^(254|252|248|240|224|192|128)%.0%.0%.0|255%.(254|252|248|240|224|192|128|0)%.0%.0|255%.255%.(254|252|248|240|224|192|128|0)%.0|255%.255%.255%.(254|252|248|240|224|192|128|0)'')) value))\<close>

definition nowhitespace :: "bool \<Rightarrow> string \<Rightarrow> jsres" where
  \<open>nowhitespace optional value = or_optional optional (RBool (regex_test
     (icase (re ''^%S+$'')) value))\<close>

definition phoneNL :: "bool \<Rightarrow> string \<Rightarrow> jsres" where
  \<open>phoneNL optional value = or_optional optional (RBool (regex_test
     (re ''^((%+|00(%s|%s?%-%s?)?)31(%s|%s?%-%s?)?(%(0%)[%-%s]?)?|0)[1-9]((%s|%s?%-%s?)?[0-9]){8}$'') value))\<close>

definition postalcodeBR :: "bool \<Rightarrow> string \<Rightarrow> jsres" where
  \<open>postalcodeBR optional value = or_optional optional (RBool (regex_test
     (re ''^%d{2}.%d{3}-%d{3}?$|^%d{5}-?%d{3}?$'') value))\<close>

definition postalCodeCA :: "bool \<Rightarrow> string \<Rightarrow> jsres" where
  \<open>postalCodeCA optional value = or_optional optional (RBool (regex_test
     (icase (re ''^[ABCEGHJKLMNPRSTVXY]%d[ABCEGHJKLMNPRSTVWXYZ] *%d[ABCEGHJKLMNPRSTVWXYZ]%d$'')) value))\<close>

definition postalcodeIT :: "bool \<Rightarrow> string \<Rightarrow> jsres" where
  \<open>postalcodeIT optional value = or_optional optional (RBool (regex_test
     (re ''^%d{5}$'') value))\<close>

definition postalcodeNL :: "bool \<Rightarrow> string \<Rightarrow> jsres" where
  \<open>postalcodeNL optional value = or_optional optional (RBool (regex_test
     (re ''^[1-9][0-9]{3}%s?[a-zA-Z]{2}$'') value))\<close>

definition postcodeUK :: "bool \<Rightarrow> string \<Rightarrow> jsres" where
  \<open>postcodeUK optional value = or_optional optional (RBool (regex_test
     (icase (re ''^((([A-PR-UWYZ][0-9])|([A-PR-UWYZ][0-9][0-9])|([A-PR-UWYZ][A-HK-Y][0-9])|([A-PR-UWYZ][A-HK-Y][0-9][0-9])|([A-PR-UWYZ][0-9][A-HJKSTUW])|([A-PR-UWYZ][A-HK-Y][0-9][ABEHMNPRVWXY]))%s?([0-9][ABD-HJLNP-UW-Z]{2})|(GIR)%s?(0AA))$'')) value))\<close>

definition time :: "bool \<Rightarrow> string \<Rightarrow> jsres" where
  \<open>time optional value = or_optional optional (RBool (regex_test
     (re ''^([01]%d|2[0-3]|[0-9])(:[0-5]%d){1,2}$'') value))\<close>

definition time12h :: "bool \<Rightarrow> string \<Rightarrow> jsres" where
  \<open>time12h optional value = or_optional optional (RBool (regex_test
     (icase (re ''^((0?[1-9]|1[012])(:[0-5]%d){1,2}(% ?[AP]M))$'')) value))\<close>

definition url2 :: "bool \<Rightarrow> string \<Rightarrow> jsres" where
  \<open>url2 optional value = or_optional optional (RBool (regex_test
     (icase (re ''^(?:(?:(?:https?|ftp):)?%/%/)(?:(?:[^%]%[?%/<~#`!@$^&*()+=}|:";\',>{ ]|%%[0-9A-Fa-f]{2})+(?::(?:[^%]%[?%/<~#`!@$^&*()+=}|:";\',>{ ]|%%[0-9A-Fa-f]{2})*)?@)?(?:(?!(?:10|127)(?:%.%d{1,3}){3})(?!(?:169%.254|192%.168)(?:%.%d{1,3}){2})(?!172%.(?:1[6-9]|2%d|3[0-1])(?:%.%d{1,3}){2})(?:[1-9]%d?|1%d%d|2[01]%d|22[0-3])(?:%.(?:1?%d{1,2}|2[0-4]%d|25[0-5])){2}(?:%.(?:[1-9]%d?|1%d%d|2[0-4]%d|25[0-4]))|(?:(?:[a-z0-9%u00a1-%uffff][a-z0-9%u00a1-%uffff_-]{0,62})?[a-z0-9%u00a1-%uffff]%.)+(?:[a-z%u00a1-%uffff]{2,}%.?)|(?:(?:[a-z0-9%u00a1-%uffff][a-z0-9%u00a1-%uffff_-]{0,62})?[a-z0-9%u00a1-%uffff])|(?:(?:[a-z0-9%u00a1-%uffff][a-z0-9%u00a1-%uffff_-]{0,62}%.)))(?::%d{2,5})?(?:[/?#]%S*)?$'')) value))\<close>

definition zipcodeUS :: "bool \<Rightarrow> string \<Rightarrow> jsres" where
  \<open>zipcodeUS optional value = or_optional optional (RBool (regex_test
     (re ''^%d{5}(-%d{4})?$'') value))\<close>

definition ziprange :: "bool \<Rightarrow> string \<Rightarrow> jsres" where
  \<open>ziprange optional value = or_optional optional (RBool (regex_test
     (re ''^90[2-5]%d%{2%}-%d{4}$'') value))\<close>

definition bic :: "bool \<Rightarrow> string \<Rightarrow> jsres" where
  "bic optional value = or_optional optional (RBool (regex_test
     (re ''^([A-Z]{6}[A-Z2-9][A-NP-Z1-9])(X{3}|[A-WY-Z0-9][A-Z0-9]{2})?$'') (to_upper value)))"

text \<open>A parameter that is a string is compiled and anchored; one that is a pattern is used as it is.\<close>

datatype pattern_param = PatternText string | PatternRx rx

definition pattern_method :: "bool \<Rightarrow> string \<Rightarrow> pattern_param \<Rightarrow> jsres" where
  "pattern_method optional value param =
     (if optional then RBool True
      else case param of
          PatternText t \<Rightarrow>
            (case RegExp (''^(?:'' @ t @ '')$'') of None \<Rightarrow> RThrow | Some r \<Rightarrow> RBool (regex_test r value))
        | PatternRx r \<Rightarrow> RBool (regex_test r value))"

section \<open>Telephone numbers\<close>

definition phone_strip :: "string \<Rightarrow> string" where
  "phone_strip s = replace_all (re ''%(|%)|%s+|-'') [] None s"

definition and_then :: "bool \<Rightarrow> jsres \<Rightarrow> jsres" where
  "and_then b r = (if b then r else RBool False)"

definition mobileRU :: "bool \<Rightarrow> string \<Rightarrow> jsres" where
  "mobileRU optional phone_number =
     (let ruPhone_number = phone_strip phone_number in
      or_optional optional (and_then (9 < length ruPhone_number)
        (RBool (regex_test (re ''^((%+7|7|8)+([0-9]){10})$'') ruPhone_number))))"

definition mobileUK :: "bool \<Rightarrow> string \<Rightarrow> jsres" where
  "mobileUK optional phone_number =
     (let phone_number = phone_strip phone_number in
      or_optional optional (and_then (9 < length phone_number)
        (match_result (re ''^(?:(?:(?:00%s?|%+)44%s?|0)7(?:[1345789]%d{2}|624)%s?%d{3}%s?%d{3})$'') phone_number)))"

definition phonePL :: "bool \<Rightarrow> string \<Rightarrow> jsres" where
  "phonePL optional phone_number =
     (let phone_number = replace_all (re ''%s+'') [] None phone_number in
      or_optional optional (RBool (regex_test
        (re ''^(?:(?:(?:%+|00)?48)|(?:%(%+?48%)))?(?:1[2-8]|2[2-69]|3[2-49]|4[1-68]|5[0-9]|6[0-35-9]|[7-8][1-9]|9[145])%d{7}$'')
        phone_number)))"

definition phonesUK :: "bool \<Rightarrow> string \<Rightarrow> jsres" where
  "phonesUK optional phone_number =
     (let phone_number = phone_strip phone_number in
      or_optional optional (and_then (9 < length phone_number)
        (match_result (re ''^(?:(?:(?:00%s?|%+)44%s?|0)(?:1%d{8,9}|[23]%d{9}|7(?:[1345789]%d{8}|624%d{6})))$'')
          phone_number)))"

definition phoneUK :: "bool \<Rightarrow> string \<Rightarrow> jsres" where
  "phoneUK optional phone_number =
     (let phone_number = phone_strip phone_number in
      or_optional optional (and_then (9 < length phone_number)
        (match_result (re ''^(?:(?:(?:00%s?|%+)44%s?)|(?:%(?0))(?:%d{2}%)?%s?%d{4}%s?%d{4}|%d{3}%)?%s?%d{3}%s?%d{3,4}|%d{4}%)?%s?(?:%d{5}|%d{3}%s?%d{3})|%d{5}%)?%s?%d{4,5})$'')
          phone_number)))"

definition phoneUS :: "bool \<Rightarrow> string \<Rightarrow> jsres" where
  "phoneUS optional phone_number =
     (let phone_number = replace_all (re ''%s+'') [] None phone_number in
      or_optional optional (and_then (9 < length phone_number)
        (match_result (re ''^(%+?1-?)?(%([2-9]([02-9]%d|1[02-9])%)|[2-9]([02-9]%d|1[02-9]))-?[2-9]%d{2}-?%d{4}$'')
          phone_number)))"

section \<open>Dates\<close>

text \<open>\<open>value.split("/")\<close>.\<close>

fun split_on :: "char \<Rightarrow> string \<Rightarrow> string list" where
  "split_on sep [] = [[]]"
| "split_on sep (c # s) =
     (if c = sep then [] # split_on sep s
      else case split_on sep s of [] \<Rightarrow> [[c]] | w # ws \<Rightarrow> (c # w) # ws)"

text \<open>The pattern leaves exactly three parts, each of decimal digits; NaN never gets to the calendar.\<close>

definition dateITA :: "bool \<Rightarrow> string \<Rightarrow> jsres" where
  "dateITA optional value =
     (let check =
        (if regex_test (re ''^%d{1,2}%/%d{1,2}%/%d{4}$'') value then
           (case map parse_int (split_on CHR ''/'' value) of
              [Some gg, Some mm, Some aaaa] \<Rightarrow>
                (let xdata = date_utc aaaa (mm - 1) gg in
                 get_year xdata = aaaa \<and> get_month xdata = mm - 1 \<and> get_date xdata = gg)
            | _ \<Rightarrow> False)
         else False)
      in or_optional optional (RBool check))"

section \<open>States and currencies\<close>

text \<open>The options: an absent object or an absent field means false.\<close>

record state_options =
  caseSensitive :: "bool option"
  includeTerritories :: "bool option"
  includeMilitary :: "bool option"

definition state_option :: "state_options option \<Rightarrow> (state_options \<Rightarrow> bool option) \<Rightarrow> bool" where
  "state_option options field =
     (case options of None \<Rightarrow> False | Some r \<Rightarrow> (case field r of None \<Rightarrow> False | Some b \<Rightarrow> b))"

definition stateUS :: "bool \<Rightarrow> string \<Rightarrow> state_options option \<Rightarrow> jsres" where
  "stateUS optional value options =
     (let sensitive = state_option options caseSensitive;
          territories = state_option options includeTerritories;
          military = state_option options includeMilitary;
          regex =
            (if \<not> territories \<and> \<not> military then
               re ''^(A[KLRZ]|C[AOT]|D[CE]|FL|GA|HI|I[ADLN]|K[SY]|LA|M[ADEINOST]|N[CDEHJMVY]|O[HKR]|PA|RI|S[CD]|T[NX]|UT|V[AT]|W[AIVY])$''
             else if territories \<and> military then
               re ''^(A[AEKLPRSZ]|C[AOT]|D[CE]|FL|G[AU]|HI|I[ADLN]|K[SY]|LA|M[ADEINOPST]|N[CDEHJMVY]|O[HKR]|P[AR]|RI|S[CD]|T[NX]|UT|V[AIT]|W[AIVY])$''
             else if territories then
               re ''^(A[KLRSZ]|C[AOT]|D[CE]|FL|G[AU]|HI|I[ADLN]|K[SY]|LA|M[ADEINOPST]|N[CDEHJMVY]|O[HKR]|P[AR]|RI|S[CD]|T[NX]|UT|V[AIT]|W[AIVY])$''
             else
               re ''^(A[AEKLPRZ]|C[AOT]|D[CE]|FL|GA|HI|I[ADLN]|K[SY]|LA|M[ADEINOST]|N[CDEHJMVY]|O[HKR]|PA|RI|S[CD]|T[NX]|UT|V[AT]|W[AIVY])$'');
          regex = (if sensitive then regex else icase regex)
      in or_optional optional (RBool (regex_test regex value)))"

datatype currency_param = CurrencyText string | CurrencyPair string bool

definition currency :: "bool \<Rightarrow> string \<Rightarrow> currency_param \<Rightarrow> jsres" where
  "currency optional value param =
     (let (symbol, soft) = (case param of CurrencyText s \<Rightarrow> (s, True) | CurrencyPair s b \<Rightarrow> (s, b));
          symbol = strip_class (\<lambda>c. c = CHR '','') symbol;
          symbol = (if soft then symbol @ '']'' else symbol @ '']?'')
      in case RegExp (''^['' @ symbol @ unescape
            ''([1-9]{1}[0-9]{0,2}(%,[0-9]{3})*(%.[0-9]{0,2})?|[1-9]{1}[0-9]{0,}(%.[0-9]{0,2})?|0(%.[0-9]{0,2})?|(%.[0-9]{1,2})?)$'') of
           None \<Rightarrow> RThrow
         | Some regex \<Rightarrow> or_optional optional (RBool (regex_test regex value)))"

definition extension :: "bool \<Rightarrow> string \<Rightarrow> string option \<Rightarrow> jsres" where
  "extension optional value param =
     (let param = (case param of
            Some p \<Rightarrow> map (\<lambda>c. if c = CHR '','' then CHR ''|'' else c) p | None \<Rightarrow> ''png|jpe?g|gif'')
      in or_optional optional
        (case RegExp (unescape ''%.('' @ param @ '')$'') of
           None \<Rightarrow> RThrow | Some r \<Rightarrow> match_result (icase r) value))"

text \<open>\<open>$(value).text()\<close> is the text of parsed markup: a parameter.\<close>

definition strippedminlength :: "(string \<Rightarrow> string) \<Rightarrow> string \<Rightarrow> nat \<Rightarrow> jsres" where
  "strippedminlength text_of value param = RBool (param \<le> length (text_of value))"

section \<open>Files\<close>

record file_obj =
  file_type :: string
  file_size :: int

text \<open>A file input: its \<open>type\<close> attribute and its list of files where the browser has one.\<close>

record file_input =
  type_attr :: "string option"
  files :: "file_obj list option"

fun wildcard :: "string \<Rightarrow> string" where
  "wildcard (a # b # s) = (if a = CHR ''/'' \<and> b = CHR ''*'' then ''/.*'' @ wildcard s else a # wildcard (b # s))"
| "wildcard s = s"

definition escape_mime :: "string \<Rightarrow> string" where
  "escape_mime s =
     (let escaped = concat (map (\<lambda>c. if c \<in> set (bsl # ''-[]/{}()+?.^$|'') then [bsl, c] else [c]) s)
      in wildcard (map (\<lambda>c. if c = CHR '','' then CHR ''|'' else c) escaped))"

fun all_accepted :: "rx \<Rightarrow> file_obj list \<Rightarrow> bool" where
  "all_accepted regex [] = True"
| "all_accepted regex (f # fs) = (if \<not> regex_test regex (file_type f) then False else all_accepted regex fs)"

definition accept :: "bool \<Rightarrow> file_input \<Rightarrow> string option \<Rightarrow> jsres" where
  "accept optional element param =
     (let typeParam = (case param of Some p \<Rightarrow> strip_class is_space p | None \<Rightarrow> ''image/*'') in
      if optional then RMismatch
      else if type_attr element = Some ''file'' then
        (case files element of
           Some (f # fs) \<Rightarrow>
             (case RegExp (''.?('' @ escape_mime typeParam @ '')$'') of
                None \<Rightarrow> RThrow
              | Some r \<Rightarrow> RBool (all_accepted (icase r) (f # fs)))
         | _ \<Rightarrow> RBool True)
      else RBool True)"

definition maxfiles :: "bool \<Rightarrow> file_input \<Rightarrow> int \<Rightarrow> jsres" where
  "maxfiles optional element param =
     (if optional then RBool True
      else if type_attr element = Some ''file'' then
        (case files element of
           Some fs \<Rightarrow> if param < int (length fs) then RBool False else RBool True
         | None \<Rightarrow> RBool True)
      else RBool True)"

fun size_loop :: "file_obj list \<Rightarrow> int \<Rightarrow> bool" where
  "size_loop [] param = True"
| "size_loop (f # fs) param = (if param < file_size f then False else size_loop fs param)"

definition maxsize :: "bool \<Rightarrow> file_input \<Rightarrow> int \<Rightarrow> jsres" where
  "maxsize optional element param =
     (if optional then RBool True
      else if type_attr element = Some ''file'' then
        (case files element of
           Some (f # fs) \<Rightarrow> RBool (size_loop (f # fs) param)
         | _ \<Rightarrow> RBool True)
      else RBool True)"

fun total_loop :: "file_obj list \<Rightarrow> int \<Rightarrow> int \<Rightarrow> bool" where
  "total_loop [] totalSize param = True"
| "total_loop (f # fs) totalSize param =
     (let totalSize = totalSize + file_size f in
      if param < totalSize then False else total_loop fs totalSize param)"

definition maxsizetotal :: "bool \<Rightarrow> file_input \<Rightarrow> int \<Rightarrow> jsres" where
  "maxsizetotal optional element param =
     (if optional then RBool True
      else if type_attr element = Some ''file'' then
        (case files element of
           Some (f # fs) \<Rightarrow> RBool (total_loop (f # fs) 0 param)
         | _ \<Rightarrow> RBool True)
      else RBool True)"

end
