(* ===== verification/Pattern_Proofs.thy ===== *)
theory Pattern_Proofs
  imports Pattern_Methods
begin

text \<open>
  What the pattern methods accept: each pattern against a description of its language in terms of
  numbers and lists, and the places where the language is not the intended one.
\<close>

section \<open>Case-insensitive digits\<close>

lemma code_swap_low: "code c < 65 \<Longrightarrow> swap_case c = c"
  by (simp add: swap_case_def is_lower_def is_upper_def)

lemma code_swap_high: "65 \<le> code c \<Longrightarrow> 65 \<le> code (swap_case c)"
proof -
  assume c: "65 \<le> code c"
  have up: "code (char_of (code c - 32)) = code c - 32" if "is_lower c"
  proof -
    have "code c - 32 < 256" using that unfolding is_lower_def by linarith
    then show ?thesis by (simp add: code_def)
  qed
  have down: "code (char_of (code c + 32)) = code c + 32" if "is_upper c"
  proof -
    have "code c + 32 < 256" using that unfolding is_upper_def by linarith
    then show ?thesis by (simp add: code_def)
  qed
  consider "is_lower c" | "is_upper c" "\<not> is_lower c" | "\<not> is_upper c" "\<not> is_lower c" by blast
  then show ?thesis
  proof cases
    case 1
    then have "97 \<le> code c" by (simp add: is_lower_def)
    with 1 show ?thesis using up by (simp add: swap_case_def)
  next
    case 2
    then show ?thesis using down c by (simp add: swap_case_def)
  qed (use c in \<open>simp add: swap_case_def\<close>)
qed

text \<open>A class below the letters is unaffected by the flag \<open>i\<close>.\<close>

lemma swap_low_class:
  assumes "\<And>c. f c \<Longrightarrow> code c < 65"
  shows "(\<lambda>c. f c \<or> f (swap_case c)) = f"
proof
  fix c
  show "(f c \<or> f (swap_case c)) = f c"
    using assms [of "swap_case c"] code_swap_low [of c] code_swap_high [of c]
    by (cases "code c < 65") auto
qed

lemma icase_low_class [simp]:
  "icase (Cls is_digit) = Cls is_digit"
  "hi < 65 \<Longrightarrow> icase (Cls (cls [Rng lo hi])) = Cls (cls [Rng lo hi])"
  "code a < 65 \<Longrightarrow> code b < 65 \<Longrightarrow> icase (Cls (cls [One a, One b])) = Cls (cls [One a, One b])"
  "code a < 65 \<Longrightarrow> icase (ch a) = ch a"
proof -
  have low: "icase (Cls f) = Cls f" if "\<And>c. f c \<Longrightarrow> code c < 65" for f
    using swap_low_class [OF that] by simp
  show "icase (Cls is_digit) = Cls is_digit" by (rule low) (simp add: is_digit_def)
  show "hi < 65 \<Longrightarrow> icase (Cls (cls [Rng lo hi])) = Cls (cls [Rng lo hi])"
    by (rule low) (simp add: cls_def)
  show "code a < 65 \<Longrightarrow> code b < 65 \<Longrightarrow> icase (Cls (cls [One a, One b])) = Cls (cls [One a, One b])"
    by (rule low) (auto simp: cls_def)
  show "code a < 65 \<Longrightarrow> icase (ch a) = ch a" unfolding ch_def by (rule low) auto
qed

lemma icase_opt [simp]: "icase (opt r) = opt (icase r)"
  by (simp add: opt_def)

text \<open>A separator character after a part of the text.\<close>

lemma split_at_char:
  "(\<exists>u v. s = u @ v \<and> P u \<and> (\<exists>t. v = c # t \<and> Q t)) \<longleftrightarrow> (\<exists>u t. s = u @ c # t \<and> P u \<and> Q t)"
  by blast

section \<open>IPv4\<close>

definition octet_rx :: rx where
  "octet_rx = Alt (Seq (ch CHR ''2'') (Seq (ch CHR ''5'') (Cls (cls [Rng 48 53]))))
     (Alt (Seq (ch CHR ''2'') (Seq (Cls (cls [Rng 48 52])) Dig))
       (Seq (opt (Cls (cls [One CHR ''0'', One CHR ''1'']))) (Seq Dig (opt Dig))))"

definition octet :: "string \<Rightarrow> bool" where
  "octet s \<longleftrightarrow> s \<noteq> [] \<and> length s \<le> 3 \<and> list_all is_digit s \<and> digits_val s \<le> 255"

lemma digit_eq: "c = CHR ''0'' \<longleftrightarrow> is_digit c \<and> digit_val c = 0" "c = CHR ''1'' \<longleftrightarrow> is_digit c \<and> digit_val c = 1"
    "c = CHR ''2'' \<longleftrightarrow> is_digit c \<and> digit_val c = 2" "c = CHR ''5'' \<longleftrightarrow> is_digit c \<and> digit_val c = 5"
proof -
  have "c = d \<longleftrightarrow> is_digit c \<and> digit_val c = digit_val d" if "is_digit d" for d
    using that by auto
  from this [of "CHR ''0''"] this [of "CHR ''1''"] this [of "CHR ''2''"] this [of "CHR ''5''"]
  show "c = CHR ''0'' \<longleftrightarrow> is_digit c \<and> digit_val c = 0" "c = CHR ''1'' \<longleftrightarrow> is_digit c \<and> digit_val c = 1"
    "c = CHR ''2'' \<longleftrightarrow> is_digit c \<and> digit_val c = 2" "c = CHR ''5'' \<longleftrightarrow> is_digit c \<and> digit_val c = 5"
    by (simp_all add: is_digit_def digit_val_def code_def)
qed

lemma digit_below: "cls [Rng 48 53] c \<longleftrightarrow> is_digit c \<and> digit_val c \<le> 5" "cls [Rng 48 52] c \<longleftrightarrow> is_digit c \<and> digit_val c \<le> 4"
  by (auto simp: cls_def is_digit_def digit_val_def)

lemma octet_lang: "s \<in> lang octet_rx \<longleftrightarrow> octet s"
proof -
  have one: "octet [a] \<longleftrightarrow> is_digit a" for a
    using digit_val_bounds [of a] by (auto simp: octet_def digits_val_Cons)
  have two: "octet [a, b] \<longleftrightarrow> is_digit a \<and> is_digit b" for a b
    using digit_val_bounds [of a] digit_val_bounds [of b] by (auto simp: octet_def digits_val_Cons)
  have three: "octet [a, b, c] \<longleftrightarrow> is_digit a \<and> is_digit b \<and> is_digit c \<and>
      (digit_val a \<le> 1 \<or> digit_val a = 2 \<and> (digit_val b \<le> 4 \<or> digit_val b = 5 \<and> digit_val c \<le> 5))" for a b c
    using digit_val_bounds [of a] digit_val_bounds [of b] digit_val_bounds [of c]
    by (auto simp: octet_def digits_val_Cons)
  consider "s = []" | a where "s = [a]" | a b where "s = [a, b]" | a b c where "s = [a, b, c]"
    | a b c d t where "s = a # b # c # d # t"
    by (metis neq_Nil_conv)
  then show ?thesis
  proof cases
    case (4 a b c)
    have low: "digit_val a \<le> 1 \<longleftrightarrow> digit_val a = 0 \<or> digit_val a = 1" if "is_digit a"
      using digit_val_bounds [OF that] by auto
    have "s \<in> lang octet_rx \<longleftrightarrow> a = CHR ''2'' \<and> b = CHR ''5'' \<and> cls [Rng 48 53] c \<or>
        a = CHR ''2'' \<and> cls [Rng 48 52] b \<and> is_digit c \<or> (a = CHR ''0'' \<or> a = CHR ''1'') \<and> is_digit b \<and> is_digit c"
      unfolding octet_rx_def 4 by (simp add: rx_lang cls_def del: lang.simps)
    then show ?thesis unfolding 4 three digit_below digit_eq using low by blast
  next
    case 1
    then show ?thesis by (simp add: octet_rx_def octet_def rx_lang del: lang.simps)
  next
    case (2 a)
    then show ?thesis unfolding 2 one by (auto simp: octet_rx_def rx_lang simp del: lang.simps)
  next
    case (3 a b)
    then show ?thesis unfolding 3 two by (auto simp: octet_rx_def rx_lang cls_def digit_eq simp del: lang.simps)
  next
    case (5 a b c d t)
    then show ?thesis by (auto simp: octet_rx_def octet_def rx_lang simp del: lang.simps)
  qed
qed

lemma plain_octet: "plain octet_rx"
  by (simp add: octet_rx_def)

lemma ipv4_rx:
  "icase (re ''^(25[0-5]|2[0-4]%d|[01]?%d%d?)%.(25[0-5]|2[0-4]%d|[01]?%d%d?)%.(25[0-5]|2[0-4]%d|[01]?%d%d?)%.(25[0-5]|2[0-4]%d|[01]?%d%d?)$'')
   = Seq Bol (Seq octet_rx (Seq (ch CHR ''.'') (Seq octet_rx (Seq (ch CHR ''.'')
       (Seq octet_rx (Seq (ch CHR ''.'') (Seq octet_rx Eol)))))))"
  by (simp add: rx_eval octet_rx_def del: icase.simps(1))

lemma lang_Seq_octet: "s \<in> lang (Seq octet_rx r) \<longleftrightarrow> (\<exists>u v. s = u @ v \<and> octet u \<and> v \<in> lang r)"
  unfolding lang_Seq_iff octet_lang ..

lemma ipv4_eq:
  "ipv4 False value = RBool (\<exists>a b c d. octet a \<and> octet b \<and> octet c \<and> octet d \<and>
     value = a @ CHR ''.'' # b @ CHR ''.'' # c @ CHR ''.'' # d)"
proof -
  have "regex_test (Seq Bol (Seq octet_rx (Seq (ch CHR ''.'') (Seq octet_rx (Seq (ch CHR ''.'')
       (Seq octet_rx (Seq (ch CHR ''.'') (Seq octet_rx Eol)))))))) value \<longleftrightarrow>
     (\<exists>a b c d. octet a \<and> octet b \<and> octet c \<and> octet d \<and>
     value = a @ CHR ''.'' # b @ CHR ''.'' # c @ CHR ''.'' # d)"
    by (subst test_anchored)
      (simp add: plain_octet, simp only: lang_Seq_octet lang_Seq_ch lang_Seq_Eol lang_Eol octet_lang
        split_at_char, blast)
  then show ?thesis unfolding ipv4_def ipv4_rx by simp
qed

section \<open>ZIP codes and masks\<close>

lemma ziprange_braces:
  assumes "ziprange False value = RBool True"
  shows "CHR ''{'' \<in> set value"
proof -
  have "re ''^90[2-5]%d%{2%}-%d{4}$'' = Seq Bol (Seq (ch CHR ''9'') (Seq (ch CHR ''0'')
      (Seq (Cls (cls [Rng 50 53])) (Seq Dig (Seq (ch CHR ''{'') (Seq (ch CHR ''2'') (Seq (ch CHR ''}'')
      (Seq (ch CHR ''-'') (Seq (pow 4 Dig) Eol)))))))))"
    by (simp add: rx_eval)
  with assms show ?thesis
    by (auto simp: ziprange_def rx_lang simp del: lang.simps)
qed

lemma zipcodeUS_eq:
  "zipcodeUS False value = RBool (list_all is_digit (take 5 value) \<and>
     (length value = 5 \<or> length value = 10 \<and> value ! 5 = CHR ''-'' \<and> list_all is_digit (drop 6 value)))"
proof -
  have "re ''^%d{5}(-%d{4})?$'' = Seq Bol (Seq (pow 5 Dig) (Seq (opt (Seq (ch CHR ''-'') (pow 4 Dig))) Eol))"
    by (simp add: rx_eval)
  moreover have "drop 5 value = c # t \<longleftrightarrow> 5 < length value \<and> value ! 5 = c \<and> drop 6 value = t" for c t
    by (cases "5 < length value") (auto simp: Cons_nth_drop_Suc [symmetric])
  ultimately show ?thesis
    by (auto simp: zipcodeUS_def rx_lang simp del: lang.simps)
qed

section \<open>Files\<close>

lemma size_loop_eq: "size_loop fs param \<longleftrightarrow> (\<forall>f \<in> set fs. file_size f \<le> param)"
  by (induction fs) auto

lemma all_accepted_eq: "all_accepted r fs \<longleftrightarrow> (\<forall>f \<in> set fs. regex_test r (file_type f))"
  by (induction fs) auto

text \<open>Stopping early is sound because sizes are not negative.\<close>

lemma total_loop_eq:
  "\<forall>f \<in> set fs. 0 \<le> file_size f \<Longrightarrow>
     total_loop fs t param \<longleftrightarrow> fs = [] \<or> t + (\<Sum>f \<leftarrow> fs. file_size f) \<le> param"
proof (induction fs arbitrary: t)
  case Nil
  show ?case by simp
next
  case (Cons f fs)
  have "0 \<le> (\<Sum>f \<leftarrow> fs. file_size f)" using Cons.prems by (intro sum_list_nonneg) auto
  with Cons show ?case by (auto simp: Let_def add.assoc)
qed

section \<open>Dates\<close>

lemma split_on_simple: "CHR ''/'' \<notin> set s \<Longrightarrow> split_on CHR ''/'' s = [s]"
  by (induction s) auto

lemma split_on_Cons: "CHR ''/'' \<notin> set s \<Longrightarrow> split_on CHR ''/'' (s @ CHR ''/'' # t) = s # split_on CHR ''/'' t"
  by (induction s) auto

lemma digits_no_slash: "list_all is_digit s \<Longrightarrow> CHR ''/'' \<notin> set s"
  by (auto simp: list_all_iff is_digit_def code_def)

lemma dateITA_shape:
  "regex_test (re ''^%d{1,2}%/%d{1,2}%/%d{4}$'') value \<longleftrightarrow>
     (\<exists>g m a. value = g @ CHR ''/'' # m @ CHR ''/'' # a \<and> list_all is_digit (g @ m @ a) \<and>
        1 \<le> length g \<and> length g \<le> 2 \<and> 1 \<le> length m \<and> length m \<le> 2 \<and> length a = 4)"
proof -
  have rx: "re ''^%d{1,2}%/%d{1,2}%/%d{4}$'' = Seq Bol (Seq (rep 1 2 Dig) (Seq (ch CHR ''/'')
      (Seq (rep 1 2 Dig) (Seq (ch CHR ''/'') (Seq (pow 4 Dig) Eol)))))"
    by (simp add: rx_eval)
  have two: "s \<in> lang (Seq (rep 1 2 Dig) r) \<longleftrightarrow>
      (\<exists>u v. s = u @ v \<and> 1 \<le> length u \<and> length u \<le> 2 \<and> list_all is_digit u \<and> v \<in> lang r)" for s r
    unfolding lang_Seq_iff by (simp add: lang_rep_Cls)
  show ?thesis
    unfolding rx by (subst test_anchored) (simp, simp only: two lang_Seq_ch lang_Seq_Eol lang_pow_Cls,
        simp only: split_at_char [of _ "\<lambda>u. 1 \<le> length u \<and> length u \<le> 2 \<and> list_all is_digit u", unfolded conj_assoc], auto)
qed

lemma split_date:
  assumes "list_all is_digit (g @ m @ a)" "g \<noteq> []" "m \<noteq> []" "a \<noteq> []"
  shows "map parse_int (split_on CHR ''/'' (g @ CHR ''/'' # m @ CHR ''/'' # a))
    = [Some (digits_val g), Some (digits_val m), Some (digits_val a)]"
  using assms by (simp add: split_on_Cons split_on_simple digits_no_slash parse_int_digits)

definition real_date :: "int \<Rightarrow> int \<Rightarrow> int \<Rightarrow> bool" where
  "real_date d m y \<longleftrightarrow> 1 \<le> m \<and> m \<le> 12 \<and> 1 \<le> d \<and> d \<le> days_in_month (leap y) (m - 1)"

lemma date_check:
  assumes "0 \<le> gg" "gg \<le> 99" "0 \<le> mm" "mm \<le> 99" "0 \<le> aaaa"
  shows "(get_year (date_utc aaaa (mm - 1) gg) = aaaa \<and> get_month (date_utc aaaa (mm - 1) gg) = mm - 1 \<and>
      get_date (date_utc aaaa (mm - 1) gg) = gg) \<longleftrightarrow> real_date gg mm aaaa \<and> 100 \<le> aaaa"
proof
  let ?day = "date_utc aaaa (mm - 1) gg"
  assume eq: "get_year ?day = aaaa \<and> get_month ?day = mm - 1 \<and> get_date ?day = gg"
  then have ok: "real_date gg mm aaaa"
    using date_fields_range [of ?day] by (auto simp: real_date_def)
  moreover have "100 \<le> aaaa"
  proof (rule ccontr)
    assume small: "\<not> 100 \<le> aaaa"
    have m: "0 \<le> mm - 1" "mm - 1 \<le> 11" "1 \<le> gg" using ok by (auto simp: real_date_def)
    then have "?day = day_from_year (1900 + aaaa) + month_start (leap (1900 + aaaa)) (mm - 1) + gg - 1"
      using small assms by (simp add: date_utc_def utc_year_def div_pos_pos_trivial mod_pos_pos_trivial Let_def)
    then have "day_from_year (aaaa + 1) \<le> ?day"
      using month_start_range [OF m(1,2), of "leap (1900 + aaaa)"] m(3)
        day_from_year_mono [of "aaaa + 1" "1900 + aaaa"] by linarith
    moreover have "?day < day_from_year (aaaa + 1)"
      using year_of_day_bounds [of ?day] eq by (simp add: get_year_def)
    ultimately show False by simp
  qed
  ultimately show "real_date gg mm aaaa \<and> 100 \<le> aaaa" ..
next
  assume "real_date gg mm aaaa \<and> 100 \<le> aaaa"
  then show "get_year (date_utc aaaa (mm - 1) gg) = aaaa \<and> get_month (date_utc aaaa (mm - 1) gg) = mm - 1 \<and>
      get_date (date_utc aaaa (mm - 1) gg) = gg"
    using date_roundtrip [of "mm - 1" gg aaaa] by (auto simp: real_date_def)
qed

lemma digits_val_nonneg: "list_all is_digit s \<Longrightarrow> 0 \<le> digits_val s"
  by (induction s) (simp add: digits_val_def, simp add: digits_val_Cons digit_val_bounds)

lemma digit_texts:
  "list_all is_digit s \<Longrightarrow> length s \<le> 2 \<Longrightarrow> 0 \<le> digits_val s \<and> digits_val s \<le> 99"
proof -
  assume s: "list_all is_digit s" "length s \<le> 2"
  consider "s = []" | a where "s = [a]" | a b where "s = [a, b]"
    using s(2) by (metis One_nat_def Suc_1 le_SucE le_zero_eq length_0_conv length_Suc_conv)
  then show ?thesis
    using s(1) digit_val_bounds by cases (auto simp: digits_val_Cons digits_val_def, (smt (verit) digit_val_bounds)+)
qed

text \<open>\<open>value\<close> is day, month and year text, of one or two, one or two, and four digits.\<close>

definition date_text :: "string \<Rightarrow> string \<Rightarrow> string \<Rightarrow> string \<Rightarrow> bool" where
  "date_text value g m a \<longleftrightarrow> value = g @ CHR ''/'' # m @ CHR ''/'' # a \<and> list_all is_digit (g @ m @ a) \<and>
     length g \<in> {1, 2} \<and> length m \<in> {1, 2} \<and> length a = 4"

lemma date_text_rx:
  "regex_test (re ''^%d{1,2}%/%d{1,2}%/%d{4}$'') value \<longleftrightarrow> (\<exists>g m a. date_text value g m a)"
  unfolding dateITA_shape date_text_def by (intro arg_cong [of _ _ Ex] ext) auto

lemma date_text_parts:
  assumes "date_text value g m a"
  shows "map parse_int (split_on CHR ''/'' value) = [Some (digits_val g), Some (digits_val m), Some (digits_val a)]"
proof -
  have "g \<noteq> []" "m \<noteq> []" "a \<noteq> []" using assms by (auto simp: date_text_def)
  then show ?thesis using assms split_date [of g m a] by (simp add: date_text_def)
qed

lemma dateITA_text:
  assumes "date_text value g m a"
  shows "dateITA False value = RBool (real_date (digits_val g) (digits_val m) (digits_val a) \<and> 100 \<le> digits_val a)"
proof -
  have "0 \<le> digits_val g \<and> digits_val g \<le> 99" "0 \<le> digits_val m \<and> digits_val m \<le> 99" "0 \<le> digits_val a"
    using assms digit_texts [of g] digit_texts [of m] digits_val_nonneg [of a] by (auto simp: date_text_def)
  moreover have "regex_test (re ''^%d{1,2}%/%d{1,2}%/%d{4}$'') value" unfolding date_text_rx using assms by blast
  ultimately show ?thesis
    using date_check [of "digits_val g" "digits_val m" "digits_val a"]
    by (simp add: dateITA_def date_text_parts [OF assms])
qed

lemma dateITA_eq:
  "dateITA False value = RBool (\<exists>g m a. date_text value g m a \<and>
     real_date (digits_val g) (digits_val m) (digits_val a) \<and> 100 \<le> digits_val a)"
proof (cases "\<exists>g m a. date_text value g m a")
  case True
  let ?R = "\<lambda>g m a. real_date (digits_val g) (digits_val m) (digits_val a) \<and> 100 \<le> digits_val a"
  from True obtain g m a where sh: "date_text value g m a" by blast
  have "?R g' m' a' \<longleftrightarrow> ?R g m a" if "date_text value g' m' a'" for g' m' a'
    using date_text_parts [OF sh] date_text_parts [OF that] by simp
  then have "?R g m a \<longleftrightarrow> (\<exists>g m a. date_text value g m a \<and> ?R g m a)" using sh by blast
  then show ?thesis unfolding dateITA_text [OF sh] by blast
next
  case False
  then show ?thesis by (simp add: dateITA_def date_text_rx)
qed

lemma zip_no_brace:
  assumes "zipcodeUS False value = RBool True"
  shows "CHR ''{'' \<notin> set value"
proof -
  have digits: "CHR ''{'' \<notin> set s" if "list_all is_digit s" for s
    using that by (auto simp: list_all_iff is_digit_def code_def)
  have first: "list_all is_digit (take 5 value)"
    and rest: "length value = 5 \<or> length value = 10 \<and> value ! 5 = CHR ''-'' \<and> list_all is_digit (drop 6 value)"
    using assms by (auto simp: zipcodeUS_eq)
  show ?thesis
  proof (cases "length value = 5")
    case True
    then show ?thesis using digits [OF first] by simp
  next
    case False
    then have "value = take 5 value @ CHR ''-'' # drop 6 value"
      using rest id_take_nth_drop [of 5 "value"] by simp
    then have "set value = set (take 5 value) \<union> {CHR ''-''} \<union> set (drop 6 value)"
      by (metis Un_insert_right list.simps(15) set_append sup_bot.right_neutral Un_insert_left)
    then show ?thesis using digits [OF first] digits [of "drop 6 value"] rest False by auto
  qed
qed

lemma ziprange_no_zip:
  assumes "zipcodeUS False value = RBool True"
  shows "ziprange False value = RBool False"
  using zip_no_brace [OF assms] ziprange_braces [of "value"] by (auto simp: ziprange_def)

end
