(* ===== verification/Method_Properties.thy ===== *)
theory Method_Properties
  imports Tax_Proofs Pattern_Proofs
begin

text \<open>
  The properties of the validation methods of \<open>additional-methods.js\<close>: what a check digit scheme
  detects, which numbers a method accepts, and the inputs on which a method does not do what its
  comment says. The lemmas are those of \<open>Bank_Proofs\<close>, \<open>Tax_Proofs\<close> and \<open>Pattern_Proofs\<close>.
\<close>

section \<open>Accounts and cards\<close>

text \<open>A card number that \<open>creditcard\<close> accepts, blanks and dashes included, is rejected after any
  one of its digits is replaced by another digit.\<close>

theorem creditcard_rejects_wrong_digit:
  assumes "creditcard False v = RBool True" and "i < length v" and "is_digit (v ! i)"
    and "is_digit c" and "c \<noteq> v ! i"
  shows "creditcard False (v[i := c]) = RBool False"
  using assms by (rule creditcard_wrong_digit)

theorem creditcard_rejects_wrong_digit_witness:
  "creditcard False ''4111-1111-1111-1112'' = RBool False"
proof -
  have "creditcard False ''4111-1111-1111-1111'' = RBool True" by code_simp
  from creditcard_rejects_wrong_digit [OF this, of 18 "CHR ''2''"] show ?thesis
    by (simp add: is_digit_def code_def)
qed

text \<open>If \<open>creditcard\<close> accepts a digit string both before and after two neighbouring digits are
  exchanged, the two are equal or they are 0 and 9, the one pair the Luhn sum cannot tell apart.\<close>

theorem creditcard_rejects_transposition:
  assumes "list_all is_digit (u @ a # b # w)"
    and "creditcard False (u @ a # b # w) = RBool True"
    and "creditcard False (u @ b # a # w) = RBool True"
  shows "a = b \<or> {a, b} = {CHR ''0'', CHR ''9''}"
  using assms by (rule creditcard_transposition)

theorem creditcard_rejects_transposition_witness:
  "CHR ''0'' = CHR ''9'' \<or> {CHR ''0'', CHR ''9''} = {CHR ''0'', CHR ''9'' :: char}"
proof (rule creditcard_rejects_transposition)
  show "list_all is_digit (''41111111110'' @ CHR ''0'' # CHR ''9'' # ''117'')" by code_simp
  show "creditcard False (''41111111110'' @ CHR ''0'' # CHR ''9'' # ''117'') = RBool True" by code_simp
  show "creditcard False (''41111111110'' @ CHR ''9'' # CHR ''0'' # ''117'') = RBool True" by code_simp
qed

text \<open>C1: \<open>iban\<close>, which divides the text piece by piece and carries a remainder of two digits, accepts
  an upper-case alphanumeric text exactly when its country's pattern matches and the number obtained by
  moving the first four characters to the end and writing letters as 10 to 35 is 1 modulo 97.\<close>

theorem iban_accepts_iff_mod_97:
  assumes "list_all is_alnum s"
  shows "iban False s = RBool (iban_format s \<and> iban_value (drop 4 s @ take 4 s) mod 97 = 1)"
  using assms by (rule iban_eq)

theorem iban_accepts_iff_mod_97_witness:
  "iban_format ''DE89370400440532013000'' \<and> iban_value (''370400440532013000'' @ ''DE89'') mod 97 = 1"
proof -
  have "list_all is_alnum ''DE89370400440532013000''" by code_simp
  from iban_accepts_iff_mod_97 [OF this] show ?thesis
  proof -
    have "iban False ''DE89370400440532013000'' = RBool True" by code_simp
    with iban_accepts_iff_mod_97 [OF \<open>list_all is_alnum ''DE89370400440532013000''\<close>] show ?thesis
      by simp
  qed
qed

text \<open>An IBAN that \<open>iban\<close> accepts is rejected after one digit is replaced by another digit or one
  letter by another letter, at any position, country code and check digits included.\<close>

theorem iban_rejects_wrong_character:
  assumes "list_all is_alnum s" and "iban False s = RBool True" and "i < length s"
    and "is_digit (s ! i) \<and> is_digit c \<or> is_upper (s ! i) \<and> is_upper c" and "c \<noteq> s ! i"
  shows "iban False (s[i := c]) = RBool False"
  using assms by (rule iban_wrong_character)

theorem iban_rejects_wrong_character_witness: "iban False ''GB82WESX12345698765432'' = RBool False"
proof -
  have "list_all is_alnum ''GB82WEST12345698765432''" "iban False ''GB82WEST12345698765432'' = RBool True"
    by code_simp+
  from iban_rejects_wrong_character [OF this, of 7 "CHR ''X''"] show ?thesis
    by (simp add: is_upper_def code_def)
qed

text \<open>A routing number that \<open>abaRoutingNumber\<close> accepts is rejected after one digit is replaced by
  another: the weights 3, 7 and 1 are invertible modulo 10.\<close>

theorem aba_rejects_wrong_digit:
  assumes "abaRoutingNumber s = RBool True" and "i < length s" and "is_digit c" and "c \<noteq> s ! i"
  shows "abaRoutingNumber (s[i := c]) = RBool False"
  using assms by (rule aba_wrong_digit)

theorem aba_rejects_wrong_digit_witness: "abaRoutingNumber ''021000029'' = RBool False"
proof -
  have "abaRoutingNumber ''021000021'' = RBool True" by code_simp
  from aba_rejects_wrong_digit [OF this, of 8 "CHR ''9''"] show ?thesis
    by (simp add: is_digit_def code_def)
qed

section \<open>Identification numbers\<close>

text \<open>After nine digits that are not all the same, \<open>cpfBR\<close> accepts exactly one pair of
  characters: the check digits of the weighted sums times ten modulo 11, with 10 read as 0.\<close>

theorem cpf_accepts_one_pair:
  assumes "length b = 9" "list_all is_digit b" "\<And>c. b \<noteq> replicate 9 c"
  shows "cpfBR False (b @ [x, y]) = RBool (x = cpf_first b \<and> y = cpf_second b)"
  using assms by (rule cpf_value)

theorem cpf_accepts_one_pair_witness: "cpfBR False ''11144477736'' = RBool False"
proof -
  have "list_all is_digit ''111444777''" "CHR ''6'' \<noteq> cpf_second ''111444777''" by code_simp+
  moreover have "''111444777'' \<noteq> replicate 9 c" for c
    by (auto dest!: arg_cong [where f = "\<lambda>s. (s ! 0, s ! 3)"])
  ultimately show ?thesis
    using cpf_accepts_one_pair [of "''111444777''" "CHR ''3''" "CHR ''6''"] by simp
qed

text \<open>After twelve digits that are not all the same, \<open>cnpjBR\<close> accepts exactly one pair of
  characters: the check digits of the sums with weights 5 to 2 and 9 to 2, then 6 to 2 and 9 to 2.\<close>

theorem cnpj_accepts_one_pair:
  assumes "length b = 12" "list_all is_digit b" "\<And>c. b \<noteq> replicate 12 c"
  shows "cnpjBR False (b @ [x, y]) = RBool (x = cnpj_first b \<and> y = cnpj_second b)"
  using assms by (rule cnpj_value)

theorem cnpj_accepts_one_pair_witness: "cnpjBR False ''11222333000182'' = RBool False"
proof -
  have "list_all is_digit ''112223330001''" "CHR ''2'' \<noteq> cnpj_second ''112223330001''" by code_simp+
  moreover have "''112223330001'' \<noteq> replicate 12 c" for c
    by (auto dest!: arg_cong [where f = "\<lambda>s. (s ! 0, s ! 3)"])
  ultimately show ?thesis
    using cnpj_accepts_one_pair [of "''112223330001''" "CHR ''8''" "CHR ''2''"] by simp
qed

text \<open>\<open>vinUS\<close> compares a number with a character by \<open>===\<close>, so the only vehicle identification
  numbers it accepts have the check character X; one with a digit as check character never passes.\<close>

theorem vin_accepts_only_X:
  assumes "vinUS f v = RBool True"
  shows "v ! 8 = CHR ''X''"
  using assms by (rule vin_accepts_X)

theorem vin_accepts_only_X_witness: "''1M8GDM9AXKP042788'' ! 8 = CHR ''X''"
proof -
  have "vinUS (\<lambda>_. None) ''1M8GDM9AXKP042788'' = RBool True" by code_simp
  from vin_accepts_only_X [OF this] show ?thesis .
qed

section \<open>Dates, addresses and files\<close>

text \<open>C2: \<open>dateITA\<close> accepts exactly the texts day/month/year, of one or two, one or two, and four
  digits, that name a day of the Gregorian calendar in the year 100 or later.\<close>

theorem dateITA_accepts_calendar_dates:
  "dateITA False value = RBool (\<exists>g m a. date_text value g m a \<and>
     real_date (digits_val g) (digits_val m) (digits_val a) \<and> 100 \<le> digits_val a)"
  by (rule dateITA_eq)

text \<open>\<open>ipv4\<close> accepts exactly four numbers of one to three digits, none above 255, joined by
  dots.\<close>

theorem ipv4_accepts_four_octets:
  "ipv4 False value = RBool (\<exists>a b c d. octet a \<and> octet b \<and> octet c \<and> octet d \<and>
     value = a @ CHR ''.'' # b @ CHR ''.'' # c @ CHR ''.'' # d)"
  by (rule ipv4_eq)

text \<open>\<open>ziprange\<close> escapes the braces of its repetition count, so it accepts only texts with a
  literal brace and no ZIP code at all.\<close>

theorem ziprange_accepts_no_zip_code:
  assumes "zipcodeUS False value = RBool True"
  shows "ziprange False value = RBool False"
  using assms by (rule ziprange_no_zip)

theorem ziprange_accepts_no_zip_code_witness: "ziprange False ''90210-1234'' = RBool False"
proof -
  have "zipcodeUS False ''90210-1234'' = RBool True" by code_simp
  from ziprange_accepts_no_zip_code [OF this] show ?thesis .
qed

text \<open>\<open>maxsizetotal\<close> stops at the first file that takes the total above the limit, and that is
  the same as comparing the whole total with the limit.\<close>

theorem maxsizetotal_compares_total:
  assumes "type_attr e = Some ''file''" and "files e = Some fs" and "\<forall>f \<in> set fs. 0 \<le> file_size f"
  shows "maxsizetotal False e param = RBool (fs = [] \<or> (\<Sum>f \<leftarrow> fs. file_size f) \<le> param)"
  using assms by (cases fs) (simp_all add: maxsizetotal_def total_loop_eq del: total_loop.simps)

theorem maxsizetotal_compares_total_witness:
  "maxsizetotal False \<lparr>type_attr = Some ''file'', files = Some [\<lparr>file_type = ''image/png'', file_size = 7\<rparr>,
     \<lparr>file_type = ''image/png'', file_size = 9\<rparr>]\<rparr> 15 = RBool False"
  by (subst maxsizetotal_compares_total [where fs = "[\<lparr>file_type = ''image/png'', file_size = 7\<rparr>,
     \<lparr>file_type = ''image/png'', file_size = 9\<rparr>]"]) simp_all

end
