(* ===== verification/Js_Values.thy ===== *)
theory Js_Values
  imports Method_Result
begin

text \<open>
  The dynamic values the validation plugin passes around: decimal numbers, strings, arrays, objects
  whose properties keep the order in which they were created, and callbacks. Objects are association
  lists; the locale \<open>keyed_store\<close> states the laws of a store with keys, and holds what the plugin's
  copying of one object into another (\<open>$.extend\<close>) gives for every such store.
\<close>

section \<open>Decimal numbers\<close>

text \<open>
  \<open>Dec m e\<close> is \<open>m / 10 ^ e\<close>. A decimal literal of at most 15 significant digits is told apart from every
  other one by its double, so comparisons of such numbers are those of the decimals.
\<close>

datatype decimal = Dec (mantissa: int) (places: nat)

fun norm_dec :: "int \<Rightarrow> nat \<Rightarrow> decimal" where
  "norm_dec m 0 = Dec m 0"
| "norm_dec m (Suc e) = (if m mod 10 = 0 then norm_dec (m div 10) e else Dec m (Suc e))"

fun dec_le :: "decimal \<Rightarrow> decimal \<Rightarrow> bool" where
  "dec_le (Dec m e) (Dec n f) \<longleftrightarrow> m * 10 ^ f \<le> n * 10 ^ e"

fun dec_eq :: "decimal \<Rightarrow> decimal \<Rightarrow> bool" where
  "dec_eq (Dec m e) (Dec n f) \<longleftrightarrow> m * 10 ^ f = n * 10 ^ e"

text \<open>A number is a decimal or NaN.\<close>

type_synonym num = "decimal option"

definition of_nat_num :: "nat \<Rightarrow> num" where
  "of_nat_num n = Some (Dec (int n) 0)"

definition nle :: "num \<Rightarrow> num \<Rightarrow> bool" where
  "nle x y = (case (x, y) of (Some a, Some b) \<Rightarrow> dec_le a b | _ \<Rightarrow> False)"

definition dec_zero :: "decimal \<Rightarrow> bool" where
  "dec_zero d \<longleftrightarrow> mantissa d = 0"

text \<open>
  \<open>Number(s)\<close> for a decimal literal between white space: an optional sign, digits with an optional
  point, an optional exponent. Radix prefixes and \<open>Infinity\<close> are outside the model (NaN).
\<close>

definition digits_span :: "string \<Rightarrow> string \<times> string" where
  "digits_span s = (takeWhile is_digit s, dropWhile is_digit s)"

definition exponent :: "string \<Rightarrow> int option" where
  "exponent s =
     (case s of
        [] \<Rightarrow> Some 0
      | c # r \<Rightarrow>
          if c = CHR ''e'' \<or> c = CHR ''E'' then
            let (neg, t) = (case r of
                   d # u \<Rightarrow> if d = CHR ''-'' then (True, u) else if d = CHR ''+'' then (False, u) else (False, r)
                 | [] \<Rightarrow> (False, r))
            in if t \<noteq> [] \<and> list_all is_digit t then Some (if neg then - digits_val t else digits_val t) else None
          else None)"

definition unsigned_decimal :: "string \<Rightarrow> num" where
  "unsigned_decimal s =
     (let (whole, r) = digits_span s;
          (frac, r) = (case r of c # t \<Rightarrow> if c = CHR ''.'' then digits_span t else ([], r) | [] \<Rightarrow> ([], []))
      in if whole = [] \<and> frac = [] then None
         else case exponent r of
             None \<Rightarrow> None
           | Some x \<Rightarrow>
               (let m = digits_val (whole @ frac); e = int (length frac) - x in
                if e < 0 then Some (Dec (m * 10 ^ nat (- e)) 0) else Some (norm_dec m (nat e))))"

definition neg_num :: "num \<Rightarrow> num" where
  "neg_num x = map_option (\<lambda>d. Dec (- mantissa d) (places d)) x"

definition js_Number :: "string \<Rightarrow> num" where
  "js_Number s =
     (case trim s of
        [] \<Rightarrow> Some (Dec 0 0)
      | c # r \<Rightarrow> if c = CHR ''-'' then neg_num (unsigned_decimal r)
                else if c = CHR ''+'' then unsigned_decimal r
                else unsigned_decimal (c # r))"

text \<open>\<open>"" + x\<close> for a decimal, written without exponent.\<close>

definition pad_left :: "nat \<Rightarrow> string \<Rightarrow> string" where
  "pad_left n s = replicate (n - length s) CHR ''0'' @ s"

fun dec_str :: "decimal \<Rightarrow> string" where
  "dec_str (Dec m e) =
     (if e = 0 then int_str m
      else (if m < 0 then ''-'' else []) @ nat_str (nat \<bar>m\<bar> div 10 ^ e) @ ''.'' @
        pad_left e (nat_str (nat \<bar>m\<bar> mod 10 ^ e)))"

definition num_text :: "num \<Rightarrow> string" where
  "num_text x = (case x of None \<Rightarrow> ''NaN'' | Some d \<Rightarrow> dec_str d)"

section \<open>Objects\<close>

text \<open>
  Properties in the order of creation; writing an existing one keeps its place. The operations are also used
  for the data jQuery keeps per element, with identities as keys.
\<close>

type_synonym 'v obj = "(string \<times> 'v) list"

fun oset :: "('k \<times> 'v) list \<Rightarrow> 'k \<Rightarrow> 'v \<Rightarrow> ('k \<times> 'v) list" where
  "oset [] k v = [(k, v)]"
| "oset ((j, u) # ob) k v = (if j = k then (k, v) # ob else (j, u) # oset ob k v)"

definition oget :: "('k \<times> 'v) list \<Rightarrow> 'k \<Rightarrow> 'v option" where
  "oget ob k = map_of ob k"

definition odel :: "('k \<times> 'v) list \<Rightarrow> 'k \<Rightarrow> ('k \<times> 'v) list" where
  "odel ob k = filter (\<lambda>p. fst p \<noteq> k) ob"

definition okeys :: "('k \<times> 'v) list \<Rightarrow> 'k list" where
  "okeys ob = map fst ob"

section \<open>Stores with keys\<close>

locale keyed_store =
  fixes get :: "'s \<Rightarrow> 'k \<Rightarrow> 'v option"
    and put :: "'s \<Rightarrow> 'k \<Rightarrow> 'v \<Rightarrow> 's"
    and drop_key :: "'s \<Rightarrow> 'k \<Rightarrow> 's"
  assumes get_put: "get (put s k v) j = (if j = k then Some v else get s j)"
    and get_drop: "get (drop_key s k) j = (if j = k then None else get s j)"
begin

text \<open>Copying a list of properties, the ones that fail the test left out.\<close>

lemma get_put_all:
  "get (fold (\<lambda>(k, v) s. if p v then put s k v else s) kvs s) j =
     (case map_of (rev (filter (\<lambda>(k, v). p v) kvs)) j of Some v \<Rightarrow> Some v | None \<Rightarrow> get s j)"
proof (induction kvs arbitrary: s)
  case Nil
  show ?case by simp
next
  case (Cons kv kvs)
  obtain k v where kv: "kv = (k, v)" by fastforce
  show ?case
    unfolding kv by (simp add: Cons.IH get_put map_add_def split: option.split)
qed

lemma get_drop_all: "get (fold (\<lambda>k s. drop_key s k) ks s) j = (if j \<in> set ks then None else get s j)"
  by (induction ks arbitrary: s) (auto simp: get_drop)

end

lemma oget_Nil [simp]: "oget [] k = None"
  by (simp add: oget_def)

lemma oget_Cons [simp]: "oget ((j, v) # ob) k = (if k = j then Some v else oget ob k)"
  by (simp add: oget_def)

lemma oget_oset [simp]: "oget (oset ob k v) j = (if j = k then Some v else oget ob j)"
  by (induction ob k v rule: oset.induct) auto

lemma oget_odel [simp]: "oget (odel ob k) j = (if j = k then None else oget ob j)"
  by (induction ob) (auto simp: odel_def)

interpretation obj: keyed_store oget oset odel
  by unfold_locales simp_all

text \<open>Keys stay distinct.\<close>

definition obj_ok :: "('k \<times> 'v) list \<Rightarrow> bool" where
  "obj_ok ob \<longleftrightarrow> distinct (okeys ob)"

lemma set_okeys_oset [simp]: "set (okeys (oset ob k v)) = insert k (set (okeys ob))"
  by (induction ob k v rule: oset.induct) (auto simp: okeys_def)

lemma obj_ok_Nil [simp]: "obj_ok []"
  by (simp add: obj_ok_def okeys_def)

lemma obj_ok_oset [simp]: "obj_ok ob \<Longrightarrow> obj_ok (oset ob k v)"
proof (induction ob k v rule: oset.induct)
  case (2 j u ob k v)
  then show ?case using set_okeys_oset [of ob k v] by (auto simp: obj_ok_def okeys_def)
qed (simp add: obj_ok_def okeys_def)

lemma obj_ok_odel [simp]: "obj_ok ob \<Longrightarrow> obj_ok (odel ob k)"
  by (induction ob) (auto simp: obj_ok_def okeys_def odel_def)

lemma oget_eq_Some: "obj_ok ob \<Longrightarrow> oget ob k = Some v \<longleftrightarrow> (k, v) \<in> set ob"
  by (simp add: oget_def obj_ok_def okeys_def)

lemma oget_None_iff: "oget ob k = None \<longleftrightarrow> k \<notin> set (okeys ob)"
  by (simp add: oget_def okeys_def map_of_eq_None_iff)

section \<open>Form fields and values\<close>

text \<open>What \<open>val()\<close> reads: a text, nothing (a select without choice), or the choices of a multiple select.\<close>

datatype fval = VText string | VNone | VMany "string list"

text \<open>A field of the form, with the properties the plugin reads; \<open>eid\<close> is its identity in the document.\<close>

record field =
  eid :: nat
  nodeName :: string
  ftype :: string
  fname :: string
  html_id :: string
  fvalue :: fval
  checked :: bool
  badInput :: "bool option"
  contenteditable :: "string option"
  ftext :: string
  selected :: nat
  ignored :: bool
  button_like :: bool
  own_form :: bool
  inside_form :: bool
  ftitle :: string

text \<open>
  Values: \<open>JFun\<close> is a callback, with its source text, on the fields of the form and the element it is
  asked about; \<open>JElem\<close> an element of the document, with the text it converts to and its identity.
\<close>

datatype jsv =
    JUndef
  | JNull
  | JBool bool
  | JNum num
  | JStr string
  | JArr "jsv list"
  | JObj "(string \<times> jsv) list"
  | JElem string nat
  | JFun string "field list \<Rightarrow> field \<Rightarrow> jsv"

fun truthy_v :: "jsv \<Rightarrow> bool" where
  "truthy_v JUndef = False"
| "truthy_v JNull = False"
| "truthy_v (JBool b) = b"
| "truthy_v (JNum x) = (case x of None \<Rightarrow> False | Some d \<Rightarrow> \<not> dec_zero d)"
| "truthy_v (JStr s) = (s \<noteq> [])"
| "truthy_v (JArr vs) = True"
| "truthy_v (JObj ob) = True"
| "truthy_v (JElem t i) = True"
| "truthy_v (JFun src f) = True"

definition nullish :: "jsv \<Rightarrow> bool" where
  "nullish v \<longleftrightarrow> (case v of JUndef \<Rightarrow> True | JNull \<Rightarrow> True | _ \<Rightarrow> False)"

definition is_undef :: "jsv \<Rightarrow> bool" where
  "is_undef v \<longleftrightarrow> (case v of JUndef \<Rightarrow> True | _ \<Rightarrow> False)"

text \<open>\<open>v.k\<close>: \<open>None\<close> when it throws; \<open>undefined\<close> when there is no such property.\<close>

definition js_prop :: "jsv \<Rightarrow> string \<Rightarrow> jsv option" where
  "js_prop v k =
     (if nullish v then None
      else case v of JObj ob \<Rightarrow> Some (case oget ob k of Some u \<Rightarrow> u | None \<Rightarrow> JUndef) | _ \<Rightarrow> Some JUndef)"

text \<open>\<open>$.extend(a, b)\<close> copies the properties of \<open>b\<close> that are not undefined.\<close>

definition js_extend :: "jsv obj \<Rightarrow> jsv obj \<Rightarrow> jsv obj" where
  "js_extend a b = fold (\<lambda>(k, v) ob. if \<not> is_undef v then oset ob k v else ob) b a"

lemma oget_js_extend:
  assumes "obj_ok b"
  shows "oget (js_extend a b) k =
     (case oget b k of Some v \<Rightarrow> if is_undef v then oget a k else Some v | None \<Rightarrow> oget a k)"
proof -
  let ?f = "filter (\<lambda>(k, v). \<not> is_undef v) b"
  have d: "distinct (map fst ?f)"
    using assms by (simp add: obj_ok_def okeys_def distinct_map_filter)
  have "map_of (rev ?f) k = map_of ?f k"
    using d map_of_inject_set [of "rev ?f" ?f] by (simp add: rev_map [symmetric])
  moreover have "map_of ?f k = (case oget b k of Some v \<Rightarrow> if is_undef v then None else Some v | None \<Rightarrow> None)"
    using assms by (induction b) (auto simp: obj_ok_def okeys_def map_of_eq_None_iff oget_def split: option.split)
  ultimately show ?thesis
    unfolding js_extend_def by (subst obj.get_put_all) (auto split: option.split)
qed

lemma obj_ok_js_extend [simp]: "obj_ok a \<Longrightarrow> obj_ok (js_extend a b)"
  unfolding js_extend_def by (induction b arbitrary: a) auto

text \<open>Conversion to text, as string concatenation and \<open>replace\<close> do it.\<close>

fun join_with :: "string \<Rightarrow> string list \<Rightarrow> string" where
  "join_with sep [] = []"
| "join_with sep [s] = s"
| "join_with sep (s # t # ss) = s @ sep @ join_with sep (t # ss)"

fun to_text :: "jsv \<Rightarrow> string" where
  "to_text JUndef = ''undefined''"
| "to_text JNull = ''null''"
| "to_text (JBool b) = (if b then ''true'' else ''false'')"
| "to_text (JNum x) = num_text x"
| "to_text (JStr s) = s"
| "to_text (JArr vs) = join_with '','' (map (\<lambda>v. if nullish v then [] else to_text v) vs)"
| "to_text (JObj ob) = ''[object Object]''"
| "to_text (JElem t i) = t"
| "to_text (JFun src f) = src"

end
