(* ===== verification/Validate_Text.thy ===== *)
theory Validate_Text
  imports Js_Values
begin

text \<open>
  The text functions of \<open>jquery.validate.js\<close>: \<open>trim\<close>, \<open>$.validator.format\<close>, the rewriting of message
  placeholders, and \<open>escapeCssMeta\<close>. A message template is described as a list of pieces, and a CSS
  string by what a selector engine reads from it.
\<close>

section \<open>Blank values\<close>

text \<open>The polyfill strips white space, and the byte order mark, which is not an 8-bit code unit.\<close>

definition js_trim :: "string \<Rightarrow> string" where
  "js_trim str = rev (dropWhile is_space (rev (dropWhile is_space str)))"

definition val_text :: "fval \<Rightarrow> string" where
  "val_text v = (case v of VText s \<Rightarrow> s | VNone \<Rightarrow> ''null'' | VMany ss \<Rightarrow> join_with '','' ss)"

definition blank :: "field \<Rightarrow> bool" where
  "blank a \<longleftrightarrow> js_trim (val_text (fvalue a)) = []"

definition filled :: "field \<Rightarrow> bool" where
  "filled a \<longleftrightarrow> fvalue a \<noteq> VNone \<and> js_trim (val_text (fvalue a)) \<noteq> []"

definition unchecked_field :: "field \<Rightarrow> bool" where
  "unchecked_field a \<longleftrightarrow> \<not> checked a"

section \<open>Templates\<close>

definition hole :: "nat \<Rightarrow> string" where
  "hole i = ''{'' @ nat_str i @ ''}''"

text \<open>Replacing every occurrence of a literal text, from left to right.\<close>

function replace_text :: "string \<Rightarrow> string \<Rightarrow> string \<Rightarrow> string" where
  "replace_text pat new [] = []"
| "replace_text pat new (c # s) =
     (if pat \<noteq> [] \<and> take (length pat) (c # s) = pat
      then new @ replace_text pat new (drop (length pat) (c # s))
      else c # replace_text pat new s)"
  by pat_completeness auto
termination by (relation "measure (\<lambda>(pat, new, s). length s)") auto

fun format_loop :: "nat \<Rightarrow> jsv list \<Rightarrow> string \<Rightarrow> string" where
  "format_loop i [] source = source"
| "format_loop i (n # params) source = format_loop (i + 1) params (replace_text (hole i) (to_text n) source)"

text \<open>
  \<open>$.validator.format\<close> called with a source and the further arguments; \<open>None\<close> when it throws, which
  happens for the parameter \<open>null\<close>.
\<close>

definition format_params :: "string \<Rightarrow> jsv \<Rightarrow> string option" where
  "format_params source params =
     (case params of
        JUndef \<Rightarrow> Some source
      | JNull \<Rightarrow> None
      | JArr ps \<Rightarrow> Some (format_loop 0 ps source)
      | _ \<Rightarrow> Some (format_loop 0 [params] source))"

fun format :: "string \<Rightarrow> jsv list \<Rightarrow> string option" where
  "format source [] = Some source"
| "format source [params] = format_params source params"
| "format source (params # others) =
     (case params of
        JUndef \<Rightarrow> Some source
      | JNull \<Rightarrow> None
      | JArr ps \<Rightarrow> format_params source params
      | _ \<Rightarrow> format_params source (JArr (params # others)))"

text \<open>The rewriting \<open>message.replace(/\$?\{(\d+)\}/g, "{$1}")\<close>, and the test with the same pattern.\<close>

definition starts_hole :: "string \<Rightarrow> bool" where
  "starts_hole s =
     (case s of c # r \<Rightarrow> c = CHR ''{'' \<and> takeWhile is_digit r \<noteq> [] \<and>
        (case dropWhile is_digit r of d # _ \<Rightarrow> d = CHR ''}'' | [] \<Rightarrow> False)
      | [] \<Rightarrow> False)"

fun has_hole :: "string \<Rightarrow> bool" where
  "has_hole [] = False"
| "has_hole (c # s) = (starts_hole (c # s) \<or> has_hole s)"

fun drop_dollars :: "string \<Rightarrow> string" where
  "drop_dollars [] = []"
| "drop_dollars (c # s) = (if c = CHR ''$'' \<and> starts_hole s then drop_dollars s else c # drop_dollars s)"

section \<open>What a template means\<close>

datatype piece = Lit string | Hole nat

fun piece_text :: "piece \<Rightarrow> string" where
  "piece_text (Lit s) = s"
| "piece_text (Hole i) = hole i"

definition template :: "piece list \<Rightarrow> string" where
  "template ps = concat (map piece_text ps)"

definition no_braces :: "string \<Rightarrow> bool" where
  "no_braces s \<longleftrightarrow> CHR ''{'' \<notin> set s"

fun plain_piece :: "piece \<Rightarrow> bool" where
  "plain_piece (Lit s) = (no_braces s)"
| "plain_piece (Hole i) = True"

fun fill_piece :: "nat \<Rightarrow> string \<Rightarrow> piece \<Rightarrow> piece" where
  "fill_piece k t (Lit s) = Lit s"
| "fill_piece k t (Hole i) = (if i = k then Lit t else Hole i)"

text \<open>The text of a piece when the parameters are those of the holes from \<open>k\<close> on.\<close>

fun filled_from :: "nat \<Rightarrow> jsv list \<Rightarrow> piece \<Rightarrow> string" where
  "filled_from k params (Lit s) = s"
| "filled_from k params (Hole i) = (if i - k < length params then to_text (params ! (i - k)) else hole i)"

abbreviation filled_piece :: "jsv list \<Rightarrow> piece \<Rightarrow> string" where
  "filled_piece \<equiv> filled_from 0"

lemma replace_literal: "no_braces s \<Longrightarrow> replace_text (hole k) t (s @ r) = s @ replace_text (hole k) t r"
  by (induction s) (auto simp: hole_def no_braces_def)

lemma nat_str_inject: "nat_str i = nat_str j \<longleftrightarrow> i = j"
  by (metis digits_val_nat_str of_nat_eq_iff)

lemma nat_str_prefix:
  assumes "take (length (nat_str k @ ''}'')) (nat_str i @ CHR ''}'' # r) = nat_str k @ ''}''"
  shows "i = k"
proof -
  have digits: "takeWhile is_digit (nat_str n @ CHR ''}'' # t) = nat_str n" for n t
    using nat_str_digits [of n] by (subst takeWhile_append2) (auto simp: list_all_iff is_digit_def code_def)
  let ?s = "nat_str i @ CHR ''}'' # r" and ?n = "length (nat_str k @ ''}'')"
  have "?s = (nat_str k @ ''}'') @ drop ?n ?s" using assms by (metis append_take_drop_id)
  then have "?s = nat_str k @ CHR ''}'' # drop ?n ?s" by simp
  then have "takeWhile is_digit ?s = nat_str k" using digits by metis
  then show ?thesis using digits nat_str_inject by metis
qed

lemma no_braces_nat_str: "no_braces (nat_str i @ ''}'')"
  using nat_str_digits [of i] by (auto simp: no_braces_def list_all_iff is_digit_def code_def)

lemma replace_hole:
  "replace_text (hole k) t (hole i @ r) = (if i = k then t else hole i) @ replace_text (hole k) t r"
proof (cases "i = k")
  case True
  then show ?thesis by (simp add: hole_def)
next
  case False
  then have "take (length (nat_str k @ ''}'')) (nat_str i @ CHR ''}'' # r) \<noteq> nat_str k @ ''}''"
    using nat_str_prefix by blast
  then have "replace_text (hole k) t (hole i @ r) = CHR ''{'' # replace_text (hole k) t ((nat_str i @ ''}'') @ r)"
    by (simp add: hole_def)
  also have "\<dots> = hole i @ replace_text (hole k) t r"
    unfolding replace_literal [OF no_braces_nat_str] by (simp add: hole_def)
  finally show ?thesis using False by simp
qed

lemma replace_template:
  "list_all plain_piece ps \<Longrightarrow>
     replace_text (hole k) t (template ps @ r) = template (map (fill_piece k t) ps) @ replace_text (hole k) t r"
proof (induction ps)
  case (Cons p ps)
  then show ?case
    by (cases p) (auto simp: template_def replace_literal replace_hole)
qed (simp add: template_def)

lemma filled_from_Nil: "filled_from i [] p = piece_text p"
  by (cases p) auto

lemma filled_from_step:
  assumes "\<And>j. p = Hole j \<Longrightarrow> i \<le> j"
  shows "filled_from (Suc i) vs (fill_piece i (to_text v) p) = filled_from i (v # vs) p"
proof (cases p)
  case (Hole j)
  with assms have "j = i \<or> j - i = Suc (j - Suc i)" by auto
  with Hole show ?thesis by auto
qed simp

lemma format_loop_template:
  assumes "list_all plain_piece ps" and "list_all (\<lambda>v. no_braces (to_text v)) vs"
    and "\<And>j. Hole j \<in> set ps \<Longrightarrow> i \<le> j"
  shows "format_loop i vs (template ps) = concat (map (filled_from i vs) ps)"
  using assms
proof (induction vs arbitrary: i ps)
  case Nil
  show ?case by (simp add: template_def filled_from_Nil)
next
  case (Cons v vs)
  let ?ps = "map (fill_piece i (to_text v)) ps"
  have "list_all plain_piece ?ps"
    using Cons.prems(1,2) by (induction ps) (auto elim!: plain_piece.elims)
  moreover have "Suc i \<le> j" if h: "Hole j \<in> set ?ps" for j
  proof -
    obtain p where p: "p \<in> set ps" "Hole j = fill_piece i (to_text v) p" using h by auto
    from p(2) have "p = Hole j \<and> j \<noteq> i" by (cases p) (auto split: if_splits)
    with Cons.prems(3) p(1) show ?thesis by (metis Suc_leI le_neq_implies_less)
  qed
  ultimately have "format_loop (Suc i) vs (template ?ps) = concat (map (filled_from (Suc i) vs) ?ps)"
    using Cons.prems(2) by (intro Cons.IH) auto
  moreover have "replace_text (hole i) (to_text v) (template ps) = template ?ps"
    using replace_template [OF Cons.prems(1), of i "to_text v" "[]"] by simp
  moreover have "map (filled_from (Suc i) vs) ?ps = map (filled_from i (v # vs)) ps"
    unfolding map_map comp_def by (intro map_cong refl filled_from_step) (use Cons.prems(3) in blast)
  ultimately show ?case by (simp only: format_loop.simps Suc_eq_plus1 [symmetric])
qed

lemma format_template:
  assumes "list_all plain_piece ps" and "list_all (\<lambda>v. no_braces (to_text v)) vs"
  shows "format (template ps) [JArr vs] = Some (concat (map (filled_piece vs) ps))"
  using format_loop_template [OF assms, of 0] by (simp add: format_params_def)

section \<open>Selectors\<close>

definition css_meta :: string where
  "css_meta = [CHR 0x5C] @ ''!\"#$%&'' @ [CHR 0x27] @ ''()*+,./:;<=>?@[]^`{|}~''"

definition escapeCssMeta :: "string \<Rightarrow> string" where
  "escapeCssMeta s = concat (map (\<lambda>c. if c \<in> set css_meta then [CHR 0x5C, c] else [c]) s)"

text \<open>
  What a selector engine reads between single quotes: a backslash before a character that is neither
  a hexadecimal digit nor a line terminator stands for the character; a bare quote or line terminator ends
  the string, which then is not the whole text.
\<close>

definition css_newline :: "char \<Rightarrow> bool" where
  "css_newline c \<longleftrightarrow> code c \<in> {10, 12, 13}"

definition css_hex :: "char \<Rightarrow> bool" where
  "css_hex c \<longleftrightarrow> is_digit c \<or> (65 \<le> code c \<and> code c \<le> 70) \<or> (97 \<le> code c \<and> code c \<le> 102)"

fun css_string :: "string \<Rightarrow> string option" where
  "css_string [] = Some []"
| "css_string [c] = (if c = CHR 0x5C \<or> c = CHR 0x27 \<or> css_newline c then None else Some [c])"
| "css_string (c # d # s) =
     (if c = CHR 0x5C then (if css_hex d \<or> css_newline d then None else map_option (Cons d) (css_string s))
      else if c = CHR 0x27 \<or> css_newline c then None
      else map_option (Cons c) (css_string (d # s)))"

lemma css_string_plain:
  "c \<noteq> CHR 0x5C \<Longrightarrow> c \<noteq> CHR 0x27 \<Longrightarrow> \<not> css_newline c \<Longrightarrow> css_string (c # s) = map_option (Cons c) (css_string s)"
  by (cases s) auto

lemma css_meta_plain: "c \<in> set css_meta \<Longrightarrow> \<not> css_hex c \<and> \<not> css_newline c"
  by (auto simp: css_meta_def css_hex_def css_newline_def is_digit_def code_def)

lemma css_string_escape: "list_all (\<lambda>c. \<not> css_newline c) s \<Longrightarrow> css_string (escapeCssMeta s) = Some s"
proof (induction s)
  case (Cons c s)
  then show ?case
  proof (cases "c \<in> set css_meta")
    case True
    with Cons css_meta_plain [of c] show ?thesis by (simp add: escapeCssMeta_def)
  next
    case False
    then have "c \<noteq> CHR 0x5C" "c \<noteq> CHR 0x27" by (auto simp: css_meta_def)
    with False Cons show ?thesis by (simp add: escapeCssMeta_def css_string_plain)
  qed
qed (simp add: escapeCssMeta_def)

end
