(* ===== verification/Validate_Rules.thy ===== *)
theory Validate_Rules
  imports Validate_Text
begin

text \<open>
  Where the rules of a field come from: its classes, its attributes, its data attributes and the
  settings (\<open>normalizeRule\<close> to \<open>normalizeRules\<close> and \<open>$.fn.rules\<close> of \<open>jquery.validate.js\<close>). The rules of
  a field are an object from method names to parameters. Selectors are answered by the parameter
  \<open>sel\<close>, the identities of the elements a selector finds; reading a property of \<open>null\<close> throws, and
  then the result is \<open>None\<close>.
\<close>

type_synonym rules = "jsv obj"

section \<open>Elements\<close>

text \<open>
  An element is a field with its attributes, its data (as \<open>$.fn.data\<close> converts it) and its classes.
\<close>

record element = field +
  attrs :: "string obj"
  data :: "jsv obj"
  classes :: "string option"

definition base :: "element \<Rightarrow> field" where
  "base = field.truncate"

lemma base_simps [simp]:
  "fname (base e) = fname e" "eid (base e) = eid e" "ftype (base e) = ftype e"
  "nodeName (base e) = nodeName e" "fvalue (base e) = fvalue e" "html_id (base e) = html_id e"
  "ignored (base e) = ignored e" "checked (base e) = checked e"
  by (simp_all add: base_def field.truncate_def)

definition type_attr :: "element \<Rightarrow> string option" where
  "type_attr e = oget (attrs e) ''type''"

text \<open>\<open>s.split(/[\s,]+/)\<close>: a run of separators is one separator.\<close>

fun collapse :: "(char \<Rightarrow> bool) \<Rightarrow> string \<Rightarrow> string" where
  "collapse p (c # d # s) = (if p c \<and> p d then collapse p (d # s) else c # collapse p (d # s))"
| "collapse p s = s"

definition js_number_of :: "jsv \<Rightarrow> num" where
  "js_number_of v =
     (case v of
        JUndef \<Rightarrow> None
      | JNull \<Rightarrow> Some (Dec 0 0)
      | JBool b \<Rightarrow> Some (Dec (if b then 1 else 0) 0)
      | JNum x \<Rightarrow> x
      | JStr s \<Rightarrow> js_Number s
      | JArr vs \<Rightarrow> js_Number (to_text v)
      | _ \<Rightarrow> None)"

section \<open>One source at a time\<close>

definition normalizeRule :: "jsv \<Rightarrow> jsv" where
  "normalizeRule v =
     (case v of
        JStr s \<Rightarrow> JObj (fold (\<lambda>k ob. oset ob k (JBool True)) (split_where is_space s) [])
      | _ \<Rightarrow> v)"

definition addClassRules :: "rules obj \<Rightarrow> string \<Rightarrow> rules \<Rightarrow> rules obj" where
  "addClassRules settings className rs = oset settings className rs"

text \<open>The class rules the plugin starts with.\<close>

definition classRuleSettings :: "rules obj" where
  "classRuleSettings = map (\<lambda>m. (m, [(m, JBool True)]))
     [''required'', ''email'', ''url'', ''date'', ''dateISO'', ''number'', ''digits'', ''creditcard'']"

definition classRules :: "rules obj \<Rightarrow> element \<Rightarrow> rules" where
  "classRules settings e =
     (case classes e of
        None \<Rightarrow> []
      | Some cs \<Rightarrow>
          fold (\<lambda>c rs. case oget settings c of None \<Rightarrow> rs | Some r \<Rightarrow> js_extend rs r)
            (if cs = [] then [] else split_where (\<lambda>c. c = CHR '' '') cs) [])"

definition normalizeAttributeRule :: "rules \<Rightarrow> string option \<Rightarrow> string \<Rightarrow> jsv \<Rightarrow> rules" where
  "normalizeAttributeRule rs type method value =
     (let value =
        (if regex_test (re ''min|max|step'') method \<and>
            (case type of None \<Rightarrow> True | Some t \<Rightarrow> regex_test (re ''number|range|text'') t)
         then (case js_number_of value of None \<Rightarrow> JUndef | Some d \<Rightarrow> JNum (Some d))
         else value);
        zero = (case value of JNum (Some d) \<Rightarrow> dec_zero d | _ \<Rightarrow> False)
      in if truthy_v value \<or> zero then oset rs method value
         else if type = Some method \<and> type \<noteq> Some ''range''
         then oset rs (if type = Some ''date'' then ''dateISO'' else method) (JBool True)
         else rs)"

definition attribute_value :: "element \<Rightarrow> string \<Rightarrow> jsv" where
  "attribute_value e method =
     (if method = ''required'' then JBool (oget (attrs e) method \<noteq> None)
      else case oget (attrs e) method of None \<Rightarrow> JUndef | Some s \<Rightarrow> JStr s)"

definition attributeRules :: "string list \<Rightarrow> element \<Rightarrow> rules" where
  "attributeRules methods e =
     (let rs = fold (\<lambda>m rs. normalizeAttributeRule rs (type_attr e) m (attribute_value e m)) methods [];
          bogus = (case oget rs ''maxlength'' of
              None \<Rightarrow> False
            | Some v \<Rightarrow> truthy_v v \<and> regex_test (re ''-1|2147483647|524288'') (to_text v))
      in if bogus then odel rs ''maxlength'' else rs)"

text \<open>The key of a data rule: \<open>rule\<close>, the first letter in upper case, the others in lower case.\<close>

definition data_key :: "string \<Rightarrow> string \<Rightarrow> string" where
  "data_key prefix method = prefix @ to_upper (take 1 method) @ to_lower (drop 1 method)"

definition data_value :: "element \<Rightarrow> string \<Rightarrow> jsv" where
  "data_value e k = (case oget (data e) k of None \<Rightarrow> JUndef | Some v \<Rightarrow> v)"

definition dataRules :: "string list \<Rightarrow> element \<Rightarrow> rules" where
  "dataRules methods e =
     fold (\<lambda>m rs.
       let value = data_value e (data_key ''rule'' m);
           value = (case value of JStr [] \<Rightarrow> JBool True | _ \<Rightarrow> value)
       in normalizeAttributeRule rs (type_attr e) m value) methods []"

definition staticRules :: "rules obj \<Rightarrow> element \<Rightarrow> rules" where
  "staticRules setting_rules e = (case oget setting_rules (fname e) of None \<Rightarrow> [] | Some rs \<Rightarrow> rs)"

section \<open>Cleaning\<close>

text \<open>
  The dependency check of one rule: \<open>None\<close> when it throws, otherwise the rule's new parameter, or
  nothing when the rule is dropped, and whether the field's highlighting is reset.
\<close>

definition check_dependency ::
  "(string \<Rightarrow> nat list) \<Rightarrow> field list \<Rightarrow> field \<Rightarrow> jsv \<Rightarrow> (jsv option \<times> bool) option" where
  "check_dependency sel form e v =
     (case v of
        JBool False \<Rightarrow> Some (None, False)
      | _ \<Rightarrow>
        (case (js_prop v ''param'', js_prop v ''depends'') of
           (Some param, Some depends) \<Rightarrow>
             if truthy_v param \<or> truthy_v depends then
               (let keepRule = (case depends of
                      JStr s \<Rightarrow> sel s \<noteq> []
                    | JFun src f \<Rightarrow> truthy_v (f form e)
                    | _ \<Rightarrow> True)
                in if keepRule then Some (Some (if is_undef param then JBool True else param), False)
                   else Some (None, True))
             else Some (Some v, False)
         | _ \<Rightarrow> None))"

fun dependency_loop ::
  "(string \<Rightarrow> nat list) \<Rightarrow> field list \<Rightarrow> field \<Rightarrow> rules \<Rightarrow> (rules \<times> bool) option" where
  "dependency_loop sel form e [] = Some ([], False)"
| "dependency_loop sel form e ((k, v) # rs) =
     (case check_dependency sel form e v of
        None \<Rightarrow> None
      | Some (w, reset) \<Rightarrow>
          (case dependency_loop sel form e rs of
             None \<Rightarrow> None
           | Some (rs, resets) \<Rightarrow>
               Some (case w of None \<Rightarrow> rs | Some u \<Rightarrow> (k, u) # rs, reset \<or> resets)))"

definition evaluate_param :: "field list \<Rightarrow> field \<Rightarrow> string \<times> jsv \<Rightarrow> string \<times> jsv" where
  "evaluate_param form e kv =
     (case kv of (k, v) \<Rightarrow>
        (k, case v of JFun src f \<Rightarrow> if k \<noteq> ''normalizer'' then f form e else v | _ \<Rightarrow> v))"

definition number_param :: "rules \<Rightarrow> string \<Rightarrow> rules" where
  "number_param rs k =
     (case oget rs k of
        Some v \<Rightarrow> if truthy_v v then oset rs k (JNum (js_number_of v)) else rs
      | None \<Rightarrow> rs)"

definition nth_value :: "jsv list \<Rightarrow> nat \<Rightarrow> jsv" where
  "nth_value vs i = (if i < length vs then vs ! i else JUndef)"

definition range_param :: "rules \<Rightarrow> string \<Rightarrow> rules" where
  "range_param rs k =
     (case oget rs k of
        Some (JArr vs) \<Rightarrow>
          oset rs k (JArr [JNum (js_number_of (nth_value vs 0)), JNum (js_number_of (nth_value vs 1))])
      | Some (JStr s) \<Rightarrow>
          if s = [] then rs
          else
            let parts = map JStr (split_where (\<lambda>c. is_space c \<or> c = CHR '','')
                  (collapse (\<lambda>c. is_space c \<or> c = CHR '','') (strip_class (\<lambda>c. c \<in> set ''[]'') s)))
            in oset rs k (JArr [JNum (js_number_of (nth_value parts 0)), JNum (js_number_of (nth_value parts 1))])
      | _ \<Rightarrow> rs)"

definition present :: "rules \<Rightarrow> string \<Rightarrow> bool" where
  "present rs k = (case oget rs k of None \<Rightarrow> False | Some v \<Rightarrow> \<not> nullish v)"

definition auto_range :: "rules \<Rightarrow> string \<Rightarrow> string \<Rightarrow> string \<Rightarrow> rules" where
  "auto_range rs lo hi both =
     (case (oget rs lo, oget rs hi) of
        (Some l, Some h) \<Rightarrow>
          if present rs lo \<and> present rs hi
          then odel (odel (oset rs both (JArr [l, h])) lo) hi else rs
      | _ \<Rightarrow> rs)"

definition normalizeRules ::
  "bool \<Rightarrow> (string \<Rightarrow> nat list) \<Rightarrow> field list \<Rightarrow> field \<Rightarrow> rules \<Rightarrow> (rules \<times> bool) option" where
  "normalizeRules autoCreateRanges sel form e rs =
     (case dependency_loop sel form e rs of
        None \<Rightarrow> None
      | Some (rs, reset) \<Rightarrow>
          (let rs = map (evaluate_param form e) rs;
               rs = fold (\<lambda>k rs. number_param rs k) [''minlength'', ''maxlength''] rs;
               rs = fold (\<lambda>k rs. range_param rs k) [''rangelength'', ''range''] rs;
               rs = (if autoCreateRanges
                     then auto_range (auto_range rs ''min'' ''max'' ''range'')
                       ''minlength'' ''maxlength'' ''rangelength''
                     else rs)
           in Some (rs, reset)))"

section \<open>The rules of an element\<close>

definition required_first :: "rules \<Rightarrow> rules" where
  "required_first rs =
     (case oget rs ''required'' of
        Some param \<Rightarrow> if truthy_v param then js_extend [(''required'', param)] (odel rs ''required'') else rs
      | None \<Rightarrow> rs)"

definition remote_last :: "rules \<Rightarrow> rules" where
  "remote_last rs =
     (case oget rs ''remote'' of
        Some param \<Rightarrow> if truthy_v param then js_extend (odel rs ''remote'') [(''remote'', param)] else rs
      | None \<Rightarrow> rs)"

text \<open>The configuration of the plugin that the rules depend on.\<close>

record rule_config =
  method_names :: "string list"
  class_rules :: "rules obj"
  auto_ranges :: bool
  selects :: "string \<Rightarrow> nat list"

definition merged_rules :: "rule_config \<Rightarrow> rules obj \<Rightarrow> element \<Rightarrow> rules" where
  "merged_rules cfg setting_rules e =
     js_extend (js_extend (js_extend (js_extend [] (classRules (class_rules cfg) e)) (attributeRules (method_names cfg) e))
       (dataRules (method_names cfg) e)) (staticRules setting_rules e)"

definition element_rules ::
  "rule_config \<Rightarrow> rules obj \<Rightarrow> element list \<Rightarrow> element \<Rightarrow> (rules \<times> bool) option" where
  "element_rules cfg setting_rules form e =
     (case normalizeRules (auto_ranges cfg) (selects cfg) (map base form) (base e)
         (merged_rules cfg setting_rules e) of
        None \<Rightarrow> None
      | Some (rs, reset) \<Rightarrow> Some (remote_last (required_first rs), reset))"

section \<open>Changing the static rules\<close>

text \<open>
  \<open>rules("add", argument)\<close> and \<open>rules("remove", methods)\<close> on the settings; the object of the existing
  rules is the one the settings hold, so removing from it removes from the settings.
\<close>

definition rules_add :: "rules obj \<Rightarrow> element \<Rightarrow> jsv \<Rightarrow> rules obj" where
  "rules_add setting_rules e argument =
     (case normalizeRule argument of
        JObj ob \<Rightarrow> oset setting_rules (fname e) (odel (js_extend (staticRules setting_rules e) ob) ''messages'')
      | _ \<Rightarrow> oset setting_rules (fname e) (odel (staticRules setting_rules e) ''messages''))"

definition rules_remove :: "rules obj \<Rightarrow> element \<Rightarrow> string option \<Rightarrow> rules obj \<times> rules" where
  "rules_remove setting_rules e argument =
     (let existing = staticRules setting_rules e in
      case argument of
        None \<Rightarrow> (odel setting_rules (fname e), existing)
      | Some s \<Rightarrow>
          if s = [] then (odel setting_rules (fname e), existing)
          else
            let methods = split_where is_space s;
                (filtered, left) = fold (\<lambda>m (f, ob).
                    (oset f m (case oget ob m of None \<Rightarrow> JUndef | Some v \<Rightarrow> v), odel ob m)) methods ([], existing)
            in (if oget setting_rules (fname e) = None then setting_rules
                else oset setting_rules (fname e) left, filtered))"

end
