(* ===== verification/Validate_State.thy ===== *)
theory Validate_State
  imports Validate_Rules
begin

text \<open>
  The state of a validator: the settings, the maps and lists the plugin keeps on \<open>this\<close>, the part of
  the document it changes (labels, classes, \<open>aria\<close> attributes, visibility), the previous values and the
  outstanding requests of \<open>remote\<close>, and the log of what a page can observe (submits, handler calls).
\<close>

section \<open>Messages\<close>

text \<open>A message is a text or a function of the rule's parameters and the element.\<close>

datatype message = MText string | MFun "jsv \<Rightarrow> element \<Rightarrow> string"

text \<open>The messages of one field: one for all methods, or one per method.\<close>

datatype field_messages = MsgAll string | MsgFor "message obj"

section \<open>Settings\<close>

text \<open>
  \<open>submitHandler\<close> is what the page's handler returns (\<open>None\<close> for undefined); \<open>success\<close> the class given to
  labels of valid fields.
\<close>

record settings =
  messages :: "field_messages obj"
  group_spec :: "(string \<times> jsv) list"
  setting_rules :: "rules obj"
  errorClass :: string
  pendingClass :: string
  validClass :: string
  errorElement :: string
  focusCleanup :: bool
  focusInvalid_on :: bool
  onsubmit :: bool
  onfocusout_on :: bool
  ignoreTitle :: bool
  debug :: bool
  wrapper :: bool
  success :: "string option"
  submitHandler :: "bool option option"
  custom_showErrors :: bool
  normalizer :: "(field list \<Rightarrow> field \<Rightarrow> jsv \<Rightarrow> jsv) option"

section \<open>Document\<close>

text \<open>A label, the wrapper of a label, or one of the error containers.\<close>

datatype node = NLabel nat | NWrap nat | NBox nat

record label =
  label_id :: nat
  tag :: string
  label_html_id :: string
  label_for :: "string option"
  inside_label_for :: "string option"
  label_classes :: "string list"
  label_html :: string

section \<open>Validator\<close>

record form_error =
  err_message :: string
  err_element :: nat
  err_method :: "string option"

text \<open>An entry of \<open>invalid\<close>: a flag, or a message copied from \<open>errorMap\<close>.\<close>

datatype invalid_entry = IFlag bool | IMsg string

record previous_value =
  old :: "string option"
  prev_valid :: bool
  prev_message :: string
  originalMessage :: "message option"

text \<open>
  A request of \<open>remote\<close> that has been sent: the element, the method name, the value it asks about, and the
  original message its callbacks hold on to.
\<close>

record request =
  req_id :: nat
  req_element :: nat
  req_method :: string
  req_value :: jsv
  req_original :: "message option"

datatype effect =
    Sent nat string
  | Aborted nat
  | InvalidForm
  | Submit
  | Handled
  | NativeSubmit
  | ShowErrors "(string \<times> string) list"
  | FocusOn nat
  | HiddenInput string
  | RemovedInput string

record vstate =
  settings :: settings
  doc :: "element list"
  submitted :: "string obj"
  invalid :: "invalid_entry obj"
  pendingRequest :: int
  pending :: "string list"
  groups :: "string obj"
  errorList :: "form_error list"
  errorMap :: "string obj"
  successList :: "nat list"
  currentElements :: "nat list"
  toShow :: "node list"
  toHide :: "node list"
  containers :: "node list"
  formSubmitted :: bool
  cancelSubmit :: bool
  submitButton :: "string option"
  lastActive :: "nat option"
  labels :: "label list"
  hidden :: "node list"
  element_classes :: "(nat \<times> string) list"
  describedby :: "(nat \<times> string) list"
  aria_invalid :: "(nat \<times> bool) list"
  previous :: "(nat \<times> previous_value) list"
  requests :: "(string \<times> request) list"
  next_id :: nat
  blur_handlers :: "(string \<times> nat \<times> nat) list"
  effects :: "effect list"

text \<open>
  What stays the same while a page is open: the registered methods and messages, what \<open>new Date\<close> parses,
  the \<open>for\<close> of the label around the place where an element's error goes, whether \<open>additional-methods.js\<close>
  is loaded, and \<open>$.param\<close> of a remote value.
\<close>

record env =
  config :: rule_config
  default_messages :: "message obj"
  extra_methods :: "string \<Rightarrow> (vstate \<Rightarrow> jsv \<Rightarrow> element \<Rightarrow> jsv \<Rightarrow> jsres) option"
  date_ok :: "string \<Rightarrow> bool"
  enclosing_label :: "nat \<Rightarrow> string option"
  additional :: bool
  query_param :: "jsv \<Rightarrow> jsv \<Rightarrow> string"

section \<open>Sets of nodes\<close>

text \<open>jQuery collections: \<open>add\<close> keeps one copy, \<open>not\<close> removes.\<close>

definition add_nodes :: "'a list \<Rightarrow> 'a list \<Rightarrow> 'a list" where
  "add_nodes xs ys = xs @ filter (\<lambda>y. y \<notin> set xs) ys"

definition not_nodes :: "'a list \<Rightarrow> 'a list \<Rightarrow> 'a list" where
  "not_nodes xs ys = filter (\<lambda>x. x \<notin> set ys) xs"

lemma set_add_nodes [simp]: "set (add_nodes xs ys) = set xs \<union> set ys"
  by (auto simp: add_nodes_def)

lemma set_not_nodes [simp]: "set (not_nodes xs ys) = set xs - set ys"
  by (auto simp: not_nodes_def)

section \<open>Elements of the form\<close>

abbreviation form_elements :: "vstate \<Rightarrow> element list" where
  "form_elements s \<equiv> filter inside_form (doc s)"

definition find_element :: "vstate \<Rightarrow> nat \<Rightarrow> element option" where
  "find_element s i = find (\<lambda>e. eid e = i) (doc s)"

definition findByName :: "vstate \<Rightarrow> string \<Rightarrow> element list" where
  "findByName s name = filter (\<lambda>e. fname e = name) (form_elements s)"

definition checkable :: "element \<Rightarrow> bool" where
  "checkable e \<longleftrightarrow> regex_test (icase (re ''radio|checkbox'')) (ftype e)"

text \<open>The patterns of this theory and the rules as terms, for evaluation.\<close>

lemma swap_case_letters:
  "map swap_case ''radiocheckbox'' = ''RADIOCHECKBOX''"
  by code_simp

lemma checkable_rx [code_unfold]:
  "icase (re ''radio|checkbox'') =
     Alt (seqs [any_of ''rR'', any_of ''aA'', any_of ''dD'', any_of ''iI'', any_of ''oO''])
         (seqs [any_of ''cC'', any_of ''hH'', any_of ''eE'', any_of ''cC'', any_of ''kK'', any_of ''bB'',
            any_of ''oO'', any_of ''xX''])"
  using swap_case_letters by (simp add: rx_eval icase_ch del: icase.simps(1))

lemma rule_rx [code_unfold]:
  "re ''min|max|step'' = Alt (lit ''min'') (Alt (lit ''max'') (lit ''step''))"
  "re ''number|range|text'' = Alt (lit ''number'') (Alt (lit ''range'') (lit ''text''))"
  "re ''-1|2147483647|524288'' = Alt (lit ''-1'') (Alt (lit ''2147483647'') (lit ''524288''))"
  by (simp_all add: rx_eval)

definition validationTargetFor :: "vstate \<Rightarrow> element \<Rightarrow> element option" where
  "validationTargetFor s e =
     (let es = (if checkable e then findByName s (fname e) else [e]) in
      case filter (\<lambda>e. \<not> ignored e) es of [] \<Rightarrow> None | f # _ \<Rightarrow> Some f)"

text \<open>An empty group name or identifier counts as absent.\<close>

definition idOrName :: "vstate \<Rightarrow> element \<Rightarrow> string" where
  "idOrName s e =
     (case oget (groups s) (fname e) of
        Some g \<Rightarrow> if g \<noteq> [] then g
                  else if checkable e then fname e else if html_id e \<noteq> [] then html_id e else fname e
      | None \<Rightarrow> if checkable e then fname e else if html_id e \<noteq> [] then html_id e else fname e)"

definition objectLength :: "invalid_entry obj \<Rightarrow> nat" where
  "objectLength ob = length (filter (\<lambda>(k, v). v \<noteq> IFlag False) ob)"

definition numberOfInvalids :: "vstate \<Rightarrow> nat" where
  "numberOfInvalids s = objectLength (invalid s)"

text \<open>The number of rules: those whose value is neither undefined, null nor false.\<close>

definition rules_length :: "rules \<Rightarrow> nat" where
  "rules_length rs = length (filter (\<lambda>(k, v). \<not> nullish v \<and> (case v of JBool b \<Rightarrow> b | _ \<Rightarrow> True)) rs)"

definition size_of :: "vstate \<Rightarrow> nat" where
  "size_of s = length (errorList s)"

definition valid :: "vstate \<Rightarrow> bool" where
  "valid s \<longleftrightarrow> size_of s = 0"

section \<open>Resetting\<close>

definition resetInternals :: "vstate \<Rightarrow> vstate" where
  "resetInternals s = s\<lparr>successList := [], errorList := [], errorMap := [], toShow := [], toHide := []\<rparr>"

definition reset :: "vstate \<Rightarrow> vstate" where
  "reset s = (resetInternals s)\<lparr>currentElements := []\<rparr>"

text \<open>\<open>init\<close>: empty maps, the groups by field name, the static rules as objects.\<close>

definition group_names :: "jsv \<Rightarrow> string list" where
  "group_names v = (case v of JStr t \<Rightarrow> split_where is_space t | JArr vs \<Rightarrow> map to_text vs | _ \<Rightarrow> [])"

definition init_groups :: "(string \<times> jsv) list \<Rightarrow> string obj" where
  "init_groups spec = fold (\<lambda>(key, v) g. fold (\<lambda>name g. oset g name key) (group_names v) g) spec []"

definition init :: "vstate \<Rightarrow> vstate" where
  "init s =
     (let s = reset (s\<lparr>submitted := [], pendingRequest := 0, pending := [], invalid := []\<rparr>)
      in s\<lparr>groups := init_groups (group_spec (settings s))\<rparr>)"

section \<open>Classes\<close>

definition has_class :: "vstate \<Rightarrow> nat \<Rightarrow> string \<Rightarrow> bool" where
  "has_class s i c \<longleftrightarrow> (i, c) \<in> set (element_classes s)"

definition addClass :: "nat list \<Rightarrow> string \<Rightarrow> vstate \<Rightarrow> vstate" where
  "addClass is c s = s\<lparr>element_classes := add_nodes (element_classes s) (map (\<lambda>i. (i, c)) is)\<rparr>"

definition removeClass :: "nat list \<Rightarrow> string \<Rightarrow> vstate \<Rightarrow> vstate" where
  "removeClass is c s = s\<lparr>element_classes := filter (\<lambda>(i, d). \<not> (i \<in> set is \<and> d = c)) (element_classes s)\<rparr>"

definition same_named :: "vstate \<Rightarrow> element \<Rightarrow> nat list" where
  "same_named s e = (if ftype e = ''radio'' then map eid (findByName s (fname e)) else [eid e])"

definition highlight :: "element \<Rightarrow> vstate \<Rightarrow> vstate" where
  "highlight e s =
     removeClass (same_named s e) (validClass (settings s)) (addClass (same_named s e) (errorClass (settings s)) s)"

definition unhighlight :: "string \<Rightarrow> element \<Rightarrow> vstate \<Rightarrow> vstate" where
  "unhighlight valid_class e s =
     (let s' = removeClass (same_named s e) (errorClass (settings s)) s
      in if valid_class = [] then s' else addClass (same_named s e) valid_class s')"

definition resetElements :: "element list \<Rightarrow> vstate \<Rightarrow> vstate" where
  "resetElements es s =
     fold (\<lambda>e s. removeClass (map eid (findByName s (fname e))) (validClass (settings s)) (unhighlight [] e s)) es s"

section \<open>Labels\<close>

definition errors :: "vstate \<Rightarrow> label list" where
  "errors s =
     filter (\<lambda>l. tag l = errorElement (settings s) \<and>
       set (split_where (\<lambda>c. c = CHR '' '') (errorClass (settings s))) \<subseteq> set (label_classes l)) (labels s)"

text \<open>\<open>describer\<close> is split at white space into the identifiers of the elements that describe a field.\<close>

definition describers :: "vstate \<Rightarrow> element \<Rightarrow> string list" where
  "describers s e =
     (case oget (describedby s) (eid e) of
        None \<Rightarrow> []
      | Some d \<Rightarrow> if d = [] then [] else split_where is_space (collapse is_space d))"

definition errorsFor :: "vstate \<Rightarrow> element \<Rightarrow> label list" where
  "errorsFor s e =
     filter (\<lambda>l. tag l = ''label'' \<and> label_for l = Some (idOrName s e) \<or>
       inside_label_for l = Some (idOrName s e) \<or> label_html_id l \<in> set (describers s e)) (errors s)"

definition label_nodes :: "label list \<Rightarrow> node list" where
  "label_nodes ls = map (\<lambda>l. NLabel (label_id l)) ls"

definition prepareForm :: "vstate \<Rightarrow> vstate" where
  "prepareForm s = (let s = reset s in s\<lparr>toHide := add_nodes (label_nodes (errors s)) (containers s)\<rparr>)"

definition prepareElement :: "element \<Rightarrow> vstate \<Rightarrow> vstate" where
  "prepareElement e s = (let s = reset s in s\<lparr>toHide := label_nodes (errorsFor s e)\<rparr>)"

definition addWrapper :: "vstate \<Rightarrow> node list \<Rightarrow> node list" where
  "addWrapper s ns =
     (if wrapper (settings s)
      then add_nodes ns (concat (map (\<lambda>n. case n of NLabel i \<Rightarrow> [NWrap i] | _ \<Rightarrow> []) ns)) else ns)"

definition set_label_html :: "nat list \<Rightarrow> string \<Rightarrow> vstate \<Rightarrow> vstate" where
  "set_label_html is t s =
     s\<lparr>labels := map (\<lambda>l. if label_id l \<in> set is then l\<lparr>label_html := t\<rparr> else l) (labels s)\<rparr>"

definition label_ids :: "node list \<Rightarrow> nat list" where
  "label_ids ns = concat (map (\<lambda>n. case n of NLabel i \<Rightarrow> [i] | _ \<Rightarrow> []) ns)"

definition hideThese :: "node list \<Rightarrow> vstate \<Rightarrow> vstate" where
  "hideThese ns s =
     (let s = set_label_html (label_ids (not_nodes ns (containers s))) [] s
      in s\<lparr>hidden := add_nodes (hidden s) (addWrapper s ns)\<rparr>)"

definition hideErrors :: "vstate \<Rightarrow> vstate" where
  "hideErrors s = hideThese (toHide s) s"

definition show_nodes :: "node list \<Rightarrow> vstate \<Rightarrow> vstate" where
  "show_nodes ns s = s\<lparr>hidden := not_nodes (hidden s) ns\<rparr>"

section \<open>Requests\<close>

text \<open>
  A field whose name is pending is not counted twice. \<open>startRequest\<close> and the bookkeeping part of
  \<open>stopRequest\<close>.
\<close>

definition startRequest :: "element \<Rightarrow> vstate \<Rightarrow> vstate" where
  "startRequest e s =
     (if fname e \<in> set (pending s) then s
      else (addClass [eid e] (pendingClass (settings s)) (s\<lparr>pendingRequest := pendingRequest s + 1\<rparr>))
        \<lparr>pending := fname e # pending s\<rparr>)"

definition endRequest :: "element \<Rightarrow> vstate \<Rightarrow> vstate" where
  "endRequest e s =
     (let n = pendingRequest s - 1;
          s = s\<lparr>pendingRequest := (if n < 0 then 0 else n)\<rparr>;
          s = s\<lparr>pending := filter (\<lambda>k. k \<noteq> fname e) (pending s)\<rparr>
      in removeClass [eid e] (pendingClass (settings s)) s)"

definition log_effect :: "effect \<Rightarrow> vstate \<Rightarrow> vstate" where
  "log_effect x s = s\<lparr>effects := effects s @ [x]\<rparr>"

end
