(* ===== verification/Validate_Methods.thy ===== *)
theory Validate_Methods
  imports Validate_State Js_Date
begin

text \<open>
  Reading the value of an element, and the methods of \<open>$.validator.methods\<close> that only look at the form:
  \<open>required\<close>, the pattern methods, the length and range methods and \<open>step\<close>. \<open>None\<close> as a length, and
  \<open>RThrow\<close> as a result, mean that the code throws. A falsy result is \<open>RBool False\<close>.
\<close>

section \<open>Values\<close>

definition val_of :: "fval \<Rightarrow> jsv" where
  "val_of v = (case v of VText t \<Rightarrow> JStr t | VNone \<Rightarrow> JNull | VMany ts \<Rightarrow> JArr (map JStr ts))"

definition editable :: "element \<Rightarrow> bool" where
  "editable e \<longleftrightarrow> (case contenteditable e of None \<Rightarrow> False | Some t \<Rightarrow> t \<noteq> ''false'')"

definition after_last :: "char \<Rightarrow> string \<Rightarrow> string" where
  "after_last c t = rev (takeWhile (\<lambda>d. d \<noteq> c) (rev t))"

text \<open>The name of the file without its path: \<open>C:\fakepath\<close>, a Unix path, a Windows path, or the name.\<close>

definition file_name :: "string \<Rightarrow> string" where
  "file_name val =
     (if take 12 val = ''C:'' @ [bsl] @ ''fakepath'' @ [bsl] then drop 12 val
      else if CHR ''/'' \<in> set val then after_last CHR ''/'' val
      else if bsl \<in> set val then after_last bsl val
      else val)"

definition elementValue :: "vstate \<Rightarrow> element \<Rightarrow> jsv" where
  "elementValue s e =
     (if ftype e = ''radio'' \<or> ftype e = ''checkbox'' then
        (case filter checked (findByName s (fname e)) of [] \<Rightarrow> JUndef | f # _ \<Rightarrow> val_of (fvalue f))
      else if ftype e = ''number'' \<and> badInput e \<noteq> None then
        (if badInput e = Some True then JStr ''NaN'' else val_of (fvalue e))
      else
        let val = (if editable e then JStr (ftext e) else val_of (fvalue e)) in
        case val of
          JStr t \<Rightarrow> if ftype e = ''file'' then JStr (file_name t)
                    else JStr (filter (\<lambda>c. c \<noteq> CHR 0x0D) t)
        | _ \<Rightarrow> val)"

definition length_of :: "jsv \<Rightarrow> num option" where
  "length_of v =
     (if nullish v then None
      else case v of
          JStr t \<Rightarrow> Some (of_nat_num (length t))
        | JArr vs \<Rightarrow> Some (of_nat_num (length vs))
        | _ \<Rightarrow> Some None)"

definition getLength :: "vstate \<Rightarrow> jsv \<Rightarrow> element \<Rightarrow> num option" where
  "getLength s value e =
     (if to_lower (nodeName e) = ''select'' then Some (of_nat_num (selected e))
      else if to_lower (nodeName e) = ''input'' \<and> checkable e
      then Some (of_nat_num (length (filter checked (findByName s (fname e)))))
      else length_of value)"

text \<open>
  \<open>a <= b\<close> and \<open>a < b\<close>: two strings by their code units, anything else as numbers; arrays, objects and
  elements are strings by then.
\<close>

fun str_le :: "string \<Rightarrow> string \<Rightarrow> bool" where
  "str_le [] t = True"
| "str_le (c # s) [] = False"
| "str_le (c # s) (d # t) = (code c < code d \<or> c = d \<and> str_le s t)"

definition js_primitive :: "jsv \<Rightarrow> jsv" where
  "js_primitive v =
     (case v of
        JArr vs \<Rightarrow> JStr (to_text v) | JObj ob \<Rightarrow> JStr (to_text v) | JElem t i \<Rightarrow> JStr t
      | JFun src f \<Rightarrow> JStr src | _ \<Rightarrow> v)"

definition js_compare :: "(string \<Rightarrow> string \<Rightarrow> bool) \<Rightarrow> (num \<Rightarrow> num \<Rightarrow> bool) \<Rightarrow> jsv \<Rightarrow> jsv \<Rightarrow> bool" where
  "js_compare strings nums a b =
     (case (js_primitive a, js_primitive b) of
        (JStr s, JStr t) \<Rightarrow> strings s t
      | (x, y) \<Rightarrow> nums (js_number_of x) (js_number_of y))"

definition js_le :: "jsv \<Rightarrow> jsv \<Rightarrow> bool" where
  "js_le = js_compare str_le nle"

definition js_lt :: "jsv \<Rightarrow> jsv \<Rightarrow> bool" where
  "js_lt = js_compare (\<lambda>s t. str_le s t \<and> s \<noteq> t) (\<lambda>x y. nle x y \<and> \<not> nle y x)"

section \<open>Dependencies\<close>

definition depend :: "(string \<Rightarrow> nat list) \<Rightarrow> vstate \<Rightarrow> jsv \<Rightarrow> element \<Rightarrow> bool" where
  "depend sel s param e =
     (case param of
        JBool b \<Rightarrow> b
      | JStr t \<Rightarrow> sel t \<noteq> []
      | JFun src f \<Rightarrow> truthy_v (f (map base (form_elements s)) (base e))
      | _ \<Rightarrow> True)"

definition positive :: "num \<Rightarrow> bool" where
  "positive x = (case x of None \<Rightarrow> False | Some d \<Rightarrow> 0 < mantissa d)"

definition required :: "(string \<Rightarrow> nat list) \<Rightarrow> vstate \<Rightarrow> jsv \<Rightarrow> element \<Rightarrow> jsv \<Rightarrow> jsres" where
  "required sel s value e param =
     (if \<not> depend sel s param e then RMismatch
      else if to_lower (nodeName e) = ''select'' then
        RBool (case fvalue e of VNone \<Rightarrow> False | VText t \<Rightarrow> t \<noteq> [] | VMany ts \<Rightarrow> ts \<noteq> [])
      else if checkable e then
        (case getLength s value e of None \<Rightarrow> RThrow | Some n \<Rightarrow> RBool (positive n))
      else RBool (\<not> nullish value \<and> (case length_of value of Some n \<Rightarrow> positive n | None \<Rightarrow> False)))"

text \<open>\<open>optional\<close>: the element has no value; its other methods are then not asked.\<close>

definition optional :: "(string \<Rightarrow> nat list) \<Rightarrow> vstate \<Rightarrow> element \<Rightarrow> bool" where
  "optional sel s e \<longleftrightarrow> \<not> truthy (required sel s (elementValue s e) e JUndef)"

section \<open>Patterns\<close>

definition test_value :: "rx \<Rightarrow> jsv \<Rightarrow> jsres" where
  "test_value r value = RBool (regex_test r (to_text value))"

definition email :: "bool \<Rightarrow> jsv \<Rightarrow> jsres" where
  \<open>email absent value = or_optional absent (test_value
     (re ''^[a-zA-Z0-9.!#$%%&\'*+%/=?^_`{|}~-]+@[a-zA-Z0-9](?:[a-zA-Z0-9-]{0,61}[a-zA-Z0-9])?(?:%.[a-zA-Z0-9](?:[a-zA-Z0-9-]{0,61}[a-zA-Z0-9])?)*$'') value)\<close>

definition url :: "bool \<Rightarrow> jsv \<Rightarrow> jsres" where
  \<open>url absent value = or_optional absent (test_value
     (icase (re ''^(?:(?:(?:https?|ftp):)?%/%/)(?:(?:[^%]%[?%/<~#`!@$^&*()+=}|:";\',>{ ]|%%[0-9A-Fa-f]{2})+(?::(?:[^%]%[?%/<~#`!@$^&*()+=}|:";\',>{ ]|%%[0-9A-Fa-f]{2})*)?@)?(?:(?!(?:10|127)(?:%.%d{1,3}){3})(?!(?:169%.254|192%.168)(?:%.%d{1,3}){2})(?!172%.(?:1[6-9]|2%d|3[0-1])(?:%.%d{1,3}){2})(?:[1-9]%d?|1%d%d|2[01]%d|22[0-3])(?:%.(?:1?%d{1,2}|2[0-4]%d|25[0-5])){2}(?:%.(?:[1-9]%d?|1%d%d|2[0-4]%d|25[0-4]))|(?:(?:[a-z0-9%u00a1-%uffff][a-z0-9%u00a1-%uffff_-]{0,62})?[a-z0-9%u00a1-%uffff]%.)+(?:[a-z%u00a1-%uffff]{2,}%.?))(?::%d{2,5})?(?:[/?#]%S*)?$'')) value)\<close>

definition date :: "(string \<Rightarrow> bool) \<Rightarrow> bool \<Rightarrow> jsv \<Rightarrow> jsres" where
  "date date_parses absent value = or_optional absent (RBool (date_parses (to_text value)))"

definition dateISO :: "bool \<Rightarrow> jsv \<Rightarrow> jsres" where
  "dateISO absent value = or_optional absent (test_value
     (re ''^%d{4}[%/%-](0?[1-9]|1[012])[%/%-](0?[1-9]|[12][0-9]|3[01])$'') value)"

definition number :: "bool \<Rightarrow> jsv \<Rightarrow> jsres" where
  "number absent value = or_optional absent (test_value
     (re ''^(?:-?%d+|-?%d{1,3}(?:,%d{3})+)?(?:%.%d+)?$'') value)"

definition digits :: "bool \<Rightarrow> jsv \<Rightarrow> jsres" where
  "digits absent value = or_optional absent (test_value (re ''^%d+$'') value)"

section \<open>Lengths and ranges\<close>

text \<open>The length is read before the element is asked whether it is optional.\<close>

definition value_length :: "vstate \<Rightarrow> jsv \<Rightarrow> element \<Rightarrow> num option" where
  "value_length s value e = (case value of JArr vs \<Rightarrow> length_of value | _ \<Rightarrow> getLength s value e)"

definition index_of :: "jsv \<Rightarrow> nat \<Rightarrow> jsv option" where
  "index_of param i =
     (if nullish param then None else case param of JArr vs \<Rightarrow> Some (nth_value vs i) | _ \<Rightarrow> Some JUndef)"

definition minlength :: "bool \<Rightarrow> vstate \<Rightarrow> jsv \<Rightarrow> element \<Rightarrow> jsv \<Rightarrow> jsres" where
  "minlength absent s value e param =
     (case value_length s value e of
        None \<Rightarrow> RThrow
      | Some n \<Rightarrow> or_optional absent (RBool (js_le param (JNum n))))"

definition maxlength :: "bool \<Rightarrow> vstate \<Rightarrow> jsv \<Rightarrow> element \<Rightarrow> jsv \<Rightarrow> jsres" where
  "maxlength absent s value e param =
     (case value_length s value e of
        None \<Rightarrow> RThrow
      | Some n \<Rightarrow> or_optional absent (RBool (js_le (JNum n) param)))"

definition rangelength :: "bool \<Rightarrow> vstate \<Rightarrow> jsv \<Rightarrow> element \<Rightarrow> jsv \<Rightarrow> jsres" where
  "rangelength absent s value e param =
     (case value_length s value e of
        None \<Rightarrow> RThrow
      | Some n \<Rightarrow>
          if absent then RMismatch
          else case (index_of param 0, index_of param 1) of
              (Some lo, Some hi) \<Rightarrow> RBool (js_le lo (JNum n) \<and> js_le (JNum n) hi)
            | _ \<Rightarrow> RThrow)"

definition min_method :: "bool \<Rightarrow> jsv \<Rightarrow> jsv \<Rightarrow> jsres" where
  "min_method absent value param = or_optional absent (RBool (js_le param value))"

definition max_method :: "bool \<Rightarrow> jsv \<Rightarrow> jsv \<Rightarrow> jsres" where
  "max_method absent value param = or_optional absent (RBool (js_le value param))"

definition range_method :: "bool \<Rightarrow> jsv \<Rightarrow> jsv \<Rightarrow> jsres" where
  "range_method absent value param =
     (if absent then RMismatch
      else case (index_of param 0, index_of param 1) of
          (Some lo, Some hi) \<Rightarrow> RBool (js_le lo value \<and> js_le value hi)
        | _ \<Rightarrow> RThrow)"

section \<open>Steps\<close>

text \<open>The digits after a point at the end of the text.\<close>

definition decimalPlaces :: "string \<Rightarrow> nat" where
  "decimalPlaces t =
     (let d = takeWhile is_digit (rev t) in
      case dropWhile is_digit (rev t) of c # _ \<Rightarrow> if c = CHR ''.'' then length d else 0 | [] \<Rightarrow> 0)"

text \<open>\<open>Math.round(num * Math.pow(10, decimals))\<close>: halves are rounded up.\<close>

definition toInt :: "nat \<Rightarrow> num \<Rightarrow> jsnum" where
  "toInt decimals x =
     (case x of
        None \<Rightarrow> None
      | Some (Dec m e) \<Rightarrow> Some ((2 * m * 10 ^ decimals + 10 ^ e) div (2 * 10 ^ e)))"

definition num_rem :: "jsnum \<Rightarrow> jsnum \<Rightarrow> jsnum" where
  "num_rem x y = (case y of None \<Rightarrow> None | Some m \<Rightarrow> nmod x m)"

definition step :: "bool \<Rightarrow> jsv \<Rightarrow> element \<Rightarrow> jsv \<Rightarrow> jsres" where
  "step absent value e param =
     (let notSupported =
        (case type_attr e of
           None \<Rightarrow> Some False
         | Some t \<Rightarrow>
             if t = [] then Some False
             else map_option (\<lambda>r. \<not> regex_test r ''text,number,range'') (RegExp (unescape ''%b'' @ t @ unescape ''%b'')))
      in case notSupported of
           None \<Rightarrow> RThrow
         | Some True \<Rightarrow> RThrow
         | Some False \<Rightarrow>
             (let decimals = decimalPlaces (to_text param);
                  valid = \<not> (decimals < decimalPlaces (to_text value) \<or>
                    \<not> num_eq (num_rem (toInt decimals (js_number_of value)) (toInt decimals (js_number_of param))) (Some 0))
              in or_optional absent (RBool valid)))"

section \<open>What the methods decide\<close>

lemma elementValue_no_return:
  "elementValue s e = JStr t \<Longrightarrow> ftype e \<notin> {''radio'', ''checkbox'', ''file'', ''number''} \<Longrightarrow> CHR 0x0D \<notin> set t"
  by (auto simp: elementValue_def val_of_def Let_def split: fval.splits if_splits)

lemma digits_test: "regex_test (re ''^%d+$'') t \<longleftrightarrow> t \<noteq> [] \<and> list_all is_digit t"
  by (simp add: rx_eval rx_lang del: lang.simps)

lemma digits_eq: "digits False (JStr t) = RBool (t \<noteq> [] \<and> list_all is_digit t)"
  by (simp add: digits_def test_value_def digits_test)

text \<open>The rounding of a decimal that has at most the given number of places is exact.\<close>

lemma toInt_exact:
  assumes "e \<le> k"
  shows "toInt k (Some (Dec m e)) = Some (m * 10 ^ (k - e))"
proof -
  let ?q = "m * 10 ^ (k - e)" and ?d = "(2::int) * 10 ^ e"
  have "(10::int) ^ k = 10 ^ (k - e) * 10 ^ e" using assms by (simp add: power_add [symmetric])
  then have "2 * m * 10 ^ k + 10 ^ e = (10::int) ^ e + ?q * ?d" by simp
  moreover have "((10::int) ^ e + ?q * ?d) div ?d = ?q"
    using div_mult_self1 [of ?d "10 ^ e" ?q] by (simp add: div_pos_pos_trivial)
  ultimately have "(2 * m * 10 ^ k + 10 ^ e) div ?d = ?q" by (simp only:)
  then show ?thesis unfolding toInt_def by (simp only: option.case decimal.case)
qed

lemma toInt_norm: "k \<le> e \<Longrightarrow> toInt e (Some (norm_dec m k)) = Some (m * 10 ^ (e - k))"
proof (induction m k rule: norm_dec.induct)
  case (1 m)
  then show ?case by (simp add: toInt_exact)
next
  case (2 m k)
  show ?case
  proof (cases "m mod 10 = 0")
    case True
    then have "m = m div 10 * 10" by presburger
    moreover have "e - k = Suc (e - Suc k)" using 2 by simp
    ultimately have "m div 10 * 10 ^ (e - k) = m * 10 ^ (e - Suc k)" by (metis mult.assoc power_Suc)
    with True 2 show ?thesis by simp
  next
    case False
    with 2 show ?thesis by (simp add: toInt_exact)
  qed
qed

text \<open>A decimal literal: its places, and its number.\<close>

lemma decimal_literal_places:
  assumes "list_all is_digit f" "f \<noteq> []"
  shows "decimalPlaces (w @ CHR ''.'' # f) = length f"
proof -
  have "\<not> is_digit CHR ''.''" by (simp add: is_digit_def code_def)
  then have "takeWhile is_digit (rev f @ CHR ''.'' # rev w) = rev f"
    "dropWhile is_digit (rev f @ CHR ''.'' # rev w) = CHR ''.'' # rev w"
    using assms by (auto simp: list_all_iff takeWhile_append dropWhile_append)
  then show ?thesis by (simp add: decimalPlaces_def)
qed

lemma digits_then_point:
  assumes "list_all is_digit w"
  shows "takeWhile is_digit (w @ CHR ''.'' # r) = w" "dropWhile is_digit (w @ CHR ''.'' # r) = CHR ''.'' # r"
proof -
  have "\<not> is_digit CHR ''.''" by (simp add: is_digit_def code_def)
  then show "takeWhile is_digit (w @ CHR ''.'' # r) = w" "dropWhile is_digit (w @ CHR ''.'' # r) = CHR ''.'' # r"
    using assms by (auto simp: list_all_iff takeWhile_append dropWhile_append)
qed

lemma trim_literal:
  assumes "list_all is_digit w" "list_all is_digit f" "w \<noteq> []" "f \<noteq> []"
  shows "trim (w @ CHR ''.'' # f) = w @ CHR ''.'' # f"
proof -
  have first: "dropWhile is_space (c # r) = c # r" if "is_digit c" for c r
    using is_digit_not_space [OF that] by simp
  obtain c w' where w: "w = c # w'" using assms(3) by (cases w) auto
  obtain d f' where f: "rev f = d # f'" using assms(4) by (cases "rev f") auto
  have "is_digit c" "is_digit d"
    using assms(1) w list_all_rev [of is_digit f] assms(2) f by simp_all
  then show ?thesis using w f first
    by (simp add: trim_def)
qed

lemma decimal_literal_number:
  assumes "list_all is_digit w" "list_all is_digit f" "w \<noteq> []" "f \<noteq> []"
  shows "js_Number (w @ CHR ''.'' # f) = Some (norm_dec (digits_val (w @ f)) (length f))"
proof -
  have span: "digits_span (w @ CHR ''.'' # f) = (w, CHR ''.'' # f)" "digits_span f = (f, [])"
    using digits_then_point [OF assms(1)] assms(2) by (auto simp: digits_span_def list_all_iff takeWhile_eq_all_conv)
  obtain c w' where w: "w = c # w'" using assms(3) by (cases w) auto
  then have c: "c \<noteq> CHR ''-''" "c \<noteq> CHR ''+''"
    using assms(1) minus_plus_not_digit by auto
  have "unsigned_decimal (w @ CHR ''.'' # f) = Some (norm_dec (digits_val (w @ f)) (length f))"
    using span assms by (simp add: unsigned_decimal_def exponent_def)
  then show ?thesis
    unfolding js_Number_def trim_literal [OF assms] using c w by simp
qed

lemma length_nat_str: "n < 10 ^ e \<Longrightarrow> 0 < e \<Longrightarrow> length (nat_str n) \<le> e"
proof (induction e arbitrary: n)
  case (Suc e)
  show ?case
  proof (cases "n < 10")
    case True
    then show ?thesis by (simp add: nat_str.simps [of n])
  next
    case False
    then have "0 < e" using Suc.prems by (cases e) auto
    moreover have "n div 10 < 10 ^ e" using Suc.prems by (simp add: less_mult_imp_div_less mult.commute)
    ultimately have "length (nat_str (n div 10)) \<le> e" by (rule Suc.IH [rotated])
    with False show ?thesis by (simp add: nat_str.simps [of n])
  qed
qed simp

lemma decimal_places_text:
  assumes "0 < m"
  shows "decimalPlaces (dec_str (Dec m e)) = e"
proof (cases "e = 0")
  case True
  have "list_all is_digit (rev (nat_str (nat m)))" using nat_str_digits by simp
  then have "dropWhile is_digit (rev (nat_str (nat m))) = []" by (simp add: list_all_iff)
  then have "decimalPlaces (nat_str (nat m)) = 0" unfolding decimalPlaces_def by (simp only: Let_def list.case)
  then show ?thesis using True assms by (simp add: int_str_def)
next
  case False
  let ?f = "pad_left e (nat_str (nat m mod 10 ^ e))"
  have len: "length ?f = e"
    using length_nat_str [of "nat m mod 10 ^ e" e] False by (simp add: pad_left_def)
  have "list_all is_digit ?f"
    using nat_str_digits by (auto simp: pad_left_def list_all_iff is_digit_def code_def)
  moreover have "?f \<noteq> []" using len False by auto
  ultimately have "decimalPlaces (nat_str (nat m div 10 ^ e) @ CHR ''.'' # ?f) = e"
    using decimal_literal_places len by simp
  then show ?thesis using False assms by simp
qed

lemma step_eq:
  assumes "list_all is_digit w" "list_all is_digit f" "w \<noteq> []" "f \<noteq> []" "0 < m"
    and "type_attr el = None \<or> type_attr el = Some ''number''"
  shows "step False (JStr (w @ CHR ''.'' # f)) el (JNum (Some (Dec m e))) =
    RBool (length f \<le> e \<and> (digits_val (w @ f) * 10 ^ (e - length f)) mod m = 0)"
proof -
  have rx: "RegExp (unescape ''%b'' @ ''number'' @ unescape ''%b'') = Some (re ''%bnumber%b'')"
    by (simp add: rx_eval)
  have "regex_test (re ''%bnumber%b'') ''text,number,range''" by code_simp
  then have sup: "(case type_attr el of None \<Rightarrow> Some False
      | Some t \<Rightarrow> if t = [] then Some False
          else map_option (\<lambda>r. \<not> regex_test r ''text,number,range'') (RegExp (unescape ''%b'' @ t @ unescape ''%b'')))
      = Some False"
    using assms(6) by (auto simp del: append.simps simp add: rx)
  have rem: "num_eq (num_rem (Some a) (Some m)) (Some 0) \<longleftrightarrow> a mod m = 0" if "0 \<le> a" for a
    using that assms(5) by (simp add: num_rem_def js_rem_nonneg)
  have pos: "0 \<le> digits_val (w @ f) * 10 ^ k" for k
    using digits_val_bounds [of "w @ f"] assms(1,2) by simp
  have "toInt e (Some (Dec m e)) = Some m" using toInt_exact [of e e m] by simp
  moreover have "toInt e (Some (norm_dec (digits_val (w @ f)) (length f))) = Some (digits_val (w @ f) * 10 ^ (e - length f))"
    if "length f \<le> e" using that by (rule toInt_norm)
  ultimately show ?thesis
    unfolding step_def sup
    using rem [OF pos]
    by (cases "length f \<le> e") (simp_all add: decimal_places_text [OF assms(5)] decimal_literal_places assms
        js_number_of_def decimal_literal_number num_text_def Let_def not_le del: dec_str.simps)
qed

end
