(* ===== verification/Validate_Core.thy ===== *)
theory Validate_Core
  imports Validate_Methods
begin

text \<open>
  The core of the validator: finding the message of a failed rule, checking an element and the form,
  showing the errors, and the \<open>remote\<close> method up to the request it sends. An exception is the result
  \<open>CThrow\<close> or \<open>None\<close>; the state is the one reached when it was thrown.
\<close>

section \<open>Messages\<close>

definition customMessage :: "vstate \<Rightarrow> string \<Rightarrow> string \<Rightarrow> message option" where
  "customMessage s name method =
     (case oget (messages (settings s)) name of
        None \<Rightarrow> None
      | Some (MsgAll t) \<Rightarrow> Some (MText t)
      | Some (MsgFor ob) \<Rightarrow> oget ob method)"

definition customDataMessage :: "element \<Rightarrow> string \<Rightarrow> message option" where
  "customDataMessage e method =
     (let v = data_value e (data_key ''msg'' method);
          v = (if truthy_v v then v else data_value e ''msg'')
      in if is_undef v then None else Some (MText (to_text v)))"

fun findDefined :: "'a option list \<Rightarrow> 'a option" where
  "findDefined [] = None"
| "findDefined (None # xs) = findDefined xs"
| "findDefined (Some x # xs) = Some x"

definition defaultMessage :: "env \<Rightarrow> vstate \<Rightarrow> element \<Rightarrow> string \<Rightarrow> jsv \<Rightarrow> string option" where
  "defaultMessage v s e method params =
     (case findDefined
        [customMessage s (fname e) method,
         customDataMessage e method,
         if \<not> ignoreTitle (settings s) \<and> ftitle e \<noteq> [] then Some (MText (ftitle e)) else None,
         oget (default_messages v) method,
         Some (MText (''<strong>Warning: No message defined for '' @ fname e @ ''</strong>''))] of
        None \<Rightarrow> None
      | Some (MFun f) \<Rightarrow> Some (f params e)
      | Some (MText t) \<Rightarrow> if has_hole t then format_params (drop_dollars t) params else Some t)"

definition formatAndAdd :: "env \<Rightarrow> vstate \<Rightarrow> element \<Rightarrow> string \<Rightarrow> jsv \<Rightarrow> vstate option" where
  "formatAndAdd v s e method params =
     (case defaultMessage v s e method params of
        None \<Rightarrow> None
      | Some m \<Rightarrow>
          Some (s\<lparr>errorList := errorList s @ [\<lparr>err_message = m, err_element = eid e, err_method = Some method\<rparr>],
                  errorMap := oset (errorMap s) (fname e) m,
                  submitted := oset (submitted s) (fname e) m\<rparr>))"

section \<open>The remote method\<close>

definition set_previous :: "nat \<Rightarrow> previous_value \<Rightarrow> vstate \<Rightarrow> vstate" where
  "set_previous i p s = s\<lparr>previous := oset (previous s) i p\<rparr>"

definition previousValue :: "env \<Rightarrow> vstate \<Rightarrow> element \<Rightarrow> string \<Rightarrow> (previous_value \<times> vstate) option" where
  "previousValue v s e method =
     (case oget (previous s) (eid e) of
        Some p \<Rightarrow> Some (p, s)
      | None \<Rightarrow>
          (case defaultMessage v s e method JUndef of
             None \<Rightarrow> None
           | Some m \<Rightarrow>
               (let p = \<lparr>old = None, prev_valid = True, prev_message = m, originalMessage = None\<rparr>
                in Some (p, set_previous (eid e) p s))))"

text \<open>\<open>settings.messages[name][method] = m\<close>; a property of a text cannot be written.\<close>

definition set_message :: "string \<Rightarrow> string \<Rightarrow> message option \<Rightarrow> vstate \<Rightarrow> vstate" where
  "set_message name method m s =
     (case oget (messages (settings s)) name of
        Some (MsgFor ob) \<Rightarrow>
          s\<lparr>settings := (settings s)\<lparr>messages := oset (messages (settings s)) name
              (MsgFor (case m of Some x \<Rightarrow> oset ob method x | None \<Rightarrow> odel ob method))\<rparr>\<rparr>
      | _ \<Rightarrow> s)"

definition ensure_messages :: "string \<Rightarrow> vstate \<Rightarrow> vstate" where
  "ensure_messages name s =
     (let fresh = s\<lparr>settings := (settings s)\<lparr>messages := oset (messages (settings s)) name (MsgFor [])\<rparr>\<rparr> in
      case oget (messages (settings s)) name of
        None \<Rightarrow> fresh
      | Some (MsgAll t) \<Rightarrow> if t = [] then fresh else s
      | Some (MsgFor ob) \<Rightarrow> s)"

definition own_message :: "vstate \<Rightarrow> string \<Rightarrow> string \<Rightarrow> message option" where
  "own_message s name method =
     (case oget (messages (settings s)) name of Some (MsgFor ob) \<Rightarrow> oget ob method | _ \<Rightarrow> None)"

text \<open>An absent or empty text is falsy.\<close>

definition message_or :: "message option \<Rightarrow> message option \<Rightarrow> message option" where
  "message_or a b =
     (case a of None \<Rightarrow> b | Some (MText t) \<Rightarrow> if t = [] then b else a | Some (MFun f) \<Rightarrow> a)"

text \<open>The request with \<open>mode: "abort"\<close>: the outstanding request on the same port is aborted first.\<close>

definition send_request :: "element \<Rightarrow> string \<Rightarrow> jsv \<Rightarrow> message option \<Rightarrow> vstate \<Rightarrow> vstate" where
  "send_request e method value original s =
     (let port = ''validate'' @ fname e;
          aborted = map (\<lambda>p. Aborted (req_id (snd p))) (filter (\<lambda>p. fst p = port) (requests s))
      in s\<lparr>requests := filter (\<lambda>p. fst p \<noteq> port) (requests s) @
             [(port, \<lparr>req_id = next_id s, req_element = eid e, req_method = method, req_value = value,
               req_original = original\<rparr>)],
           next_id := next_id s + 1,
           effects := effects s @ aborted @ [Sent (next_id s) port]\<rparr>)"

definition remote :: "env \<Rightarrow> vstate \<Rightarrow> jsv \<Rightarrow> element \<Rightarrow> jsv \<Rightarrow> jsres \<times> vstate" where
  "remote v s value e param =
     (if optional (selects (config v)) s e then (RMismatch, s)
      else
        let method = ''remote'' in
        case previousValue v s e method of
          None \<Rightarrow> (RThrow, s)
        | Some (p, s) \<Rightarrow>
            (let s = ensure_messages (fname e) s;
                 p = p\<lparr>originalMessage := message_or (originalMessage p) (own_message s (fname e) method)\<rparr>;
                 s = set_message (fname e) method (Some (MText (prev_message p))) s;
                 optionDataString = query_param v value param
             in if old p = Some optionDataString then (RBool (prev_valid p), set_previous (eid e) p s)
                else
                  let s = set_previous (eid e) (p\<lparr>old := Some optionDataString\<rparr>) s;
                      s = startRequest e s
                  in (RPending, send_request e method value (originalMessage p) s)))"

section \<open>Calling a method\<close>

text \<open>\<open>equalTo\<close> binds the target's blur event once, then compares the two values by \<open>===\<close>.\<close>

definition first_target :: "env \<Rightarrow> vstate \<Rightarrow> jsv \<Rightarrow> element option" where
  "first_target v s param =
     (case param of
        JStr sel \<Rightarrow>
          (case selects (config v) sel of [] \<Rightarrow> None | i # _ \<Rightarrow> find_element s i)
      | JElem t i \<Rightarrow> find_element s i
      | _ \<Rightarrow> None)"

definition bind_blur :: "string \<Rightarrow> element \<Rightarrow> element option \<Rightarrow> vstate \<Rightarrow> vstate" where
  "bind_blur kind e target s =
     (case target of
        None \<Rightarrow> s
      | Some t \<Rightarrow>
          let marker = ''validate-'' @ kind @ ''-blur'' in
          if onfocusout_on (settings s) \<and> \<not> has_class s (eid t) marker
          then (addClass [eid t] marker s)\<lparr>blur_handlers := blur_handlers s @ [(kind, eid t, eid e)]\<rparr>
          else s)"

definition same_text :: "jsv \<Rightarrow> jsv \<Rightarrow> bool" where
  "same_text a b = (case (a, b) of (JStr t, JStr u) \<Rightarrow> t = u | (JUndef, JUndef) \<Rightarrow> True | (JNull, JNull) \<Rightarrow> True | _ \<Rightarrow> False)"

definition equalTo :: "env \<Rightarrow> vstate \<Rightarrow> jsv \<Rightarrow> element \<Rightarrow> jsv \<Rightarrow> jsres \<times> vstate" where
  "equalTo v s value e param =
     (let target = first_target v s param;
          s = bind_blur ''equalTo'' e target s
      in (RBool (same_text value (case target of None \<Rightarrow> JUndef | Some t \<Rightarrow> val_of (fvalue t))), s))"

text \<open>
  The comparisons of \<open>additional-methods.js\<close> (\<open>greaterThan\<close> and its kin) bind the blur of their target like
  \<open>equalTo\<close>; the relation is the one of JavaScript on the two values.
\<close>

definition compare_with :: "(jsv \<Rightarrow> jsv \<Rightarrow> bool) \<Rightarrow> string \<Rightarrow> env \<Rightarrow> vstate \<Rightarrow> jsv \<Rightarrow> element \<Rightarrow> jsv \<Rightarrow> jsres \<times> vstate" where
  "compare_with rel kind v s value e param =
     (let target = first_target v s param;
          s = bind_blur kind e target s
      in (RBool (rel value (case target of None \<Rightarrow> JUndef | Some t \<Rightarrow> val_of (fvalue t))), s))"

definition greaterThan :: "env \<Rightarrow> vstate \<Rightarrow> jsv \<Rightarrow> element \<Rightarrow> jsv \<Rightarrow> jsres \<times> vstate" where
  "greaterThan = compare_with (\<lambda>a b. js_lt b a) ''greaterThan''"

definition greaterThanEqual :: "env \<Rightarrow> vstate \<Rightarrow> jsv \<Rightarrow> element \<Rightarrow> jsv \<Rightarrow> jsres \<times> vstate" where
  "greaterThanEqual = compare_with (\<lambda>a b. js_le b a) ''greaterThanEqual''"

definition lessThan :: "env \<Rightarrow> vstate \<Rightarrow> jsv \<Rightarrow> element \<Rightarrow> jsv \<Rightarrow> jsres \<times> vstate" where
  "lessThan = compare_with js_lt ''lessThan''"

definition lessThanEqual :: "env \<Rightarrow> vstate \<Rightarrow> jsv \<Rightarrow> element \<Rightarrow> jsv \<Rightarrow> jsres \<times> vstate" where
  "lessThanEqual = compare_with js_le ''lessThanEqual''"

definition notEqualTo :: "env \<Rightarrow> vstate \<Rightarrow> jsv \<Rightarrow> element \<Rightarrow> jsv \<Rightarrow> jsres \<times> vstate" where
  "notEqualTo v s value e param =
     (if optional (selects (config v)) s e then (RMismatch, s)
      else case equalTo v s value e param of (r, s) \<Rightarrow> (RBool (\<not> truthy r), s))"

definition comparison ::
  "string \<Rightarrow> (env \<Rightarrow> vstate \<Rightarrow> jsv \<Rightarrow> element \<Rightarrow> jsv \<Rightarrow> jsres \<times> vstate) option" where
  "comparison = map_of
     [(''greaterThan'', greaterThan), (''greaterThanEqual'', greaterThanEqual), (''lessThan'', lessThan),
      (''lessThanEqual'', lessThanEqual), (''notEqualTo'', notEqualTo)]"

lemma comparison_cases: "comparison m = Some f \<Longrightarrow> (\<exists>rel kind. f = compare_with rel kind) \<or> f = notEqualTo"
  unfolding comparison_def greaterThan_def greaterThanEqual_def lessThan_def lessThanEqual_def
  by (auto split: if_splits)

definition pure_method :: "env \<Rightarrow> vstate \<Rightarrow> string \<Rightarrow> jsv \<Rightarrow> element \<Rightarrow> jsv \<Rightarrow> jsres" where
  "pure_method v s method value e param =
     (let sel = selects (config v); absent = optional sel s e in
      if method = ''required'' then required sel s value e param
      else if method = ''email'' then email absent value
      else if method = ''url'' then url absent value
      else if method = ''date'' then date (date_ok v) absent value
      else if method = ''dateISO'' then dateISO absent value
      else if method = ''number'' then number absent value
      else if method = ''digits'' then digits absent value
      else if method = ''minlength'' then minlength absent s value e param
      else if method = ''maxlength'' then maxlength absent s value e param
      else if method = ''rangelength'' then rangelength absent s value e param
      else if method = ''min'' then min_method absent value param
      else if method = ''max'' then max_method absent value param
      else if method = ''range'' then range_method absent value param
      else if method = ''step'' then step absent value e param
      else case extra_methods v method of None \<Rightarrow> RThrow | Some f \<Rightarrow> f s value e param)"

text \<open>
  A rule whose name is not that of a method makes the call throw; the comparisons are methods when
  \<open>additional-methods.js\<close> is loaded.
\<close>

definition call_method :: "env \<Rightarrow> vstate \<Rightarrow> string \<Rightarrow> jsv \<Rightarrow> element \<Rightarrow> jsv \<Rightarrow> jsres \<times> vstate" where
  "call_method v s method value e param =
     (if method = ''remote'' then remote v s value e param
      else if method = ''equalTo'' then equalTo v s value e param
      else case (if additional v then comparison method else None) of
          Some f \<Rightarrow> f v s value e param
        | None \<Rightarrow> (pure_method v s method value e param, s))"

section \<open>Checking an element\<close>

datatype check_result = CTrue | CFalse | CUndef | CThrow

text \<open>
  The loop over the rules; \<open>LDone\<close> carries \<open>dependencyMismatch\<close>. A pending request leaves the loop and takes
  the element's labels out of those to hide.
\<close>

datatype loop_result = LDone bool | LPending | LFail | LThrow

fun check_loop :: "env \<Rightarrow> vstate \<Rightarrow> element \<Rightarrow> jsv \<Rightarrow> nat \<Rightarrow> rules \<Rightarrow> bool \<Rightarrow> loop_result \<times> vstate" where
  "check_loop v s e val rulesCount [] dependencyMismatch = (LDone dependencyMismatch, s)"
| "check_loop v s e val rulesCount ((method, param) # rs) dependencyMismatch =
     (let (result, s) = call_method v s method val e param in
      if result = RThrow then (LThrow, s)
      else if result = RMismatch \<and> rulesCount = 1 then check_loop v s e val rulesCount rs True
      else if result = RPending
      then (LPending, s\<lparr>toHide := not_nodes (toHide s) (label_nodes (errorsFor s e))\<rparr>)
      else if \<not> truthy result then
        (case formatAndAdd v s e method param of None \<Rightarrow> (LThrow, s) | Some s \<Rightarrow> (LFail, s))
      else check_loop v s e val rulesCount rs False)"

definition apply_normalizer :: "vstate \<Rightarrow> element \<Rightarrow> rules \<Rightarrow> jsv \<Rightarrow> jsv \<times> rules" where
  "apply_normalizer s e rs val =
     (let form = map base (form_elements s) in
      case oget rs ''normalizer'' of
        Some (JFun src f) \<Rightarrow> (f form (base e), odel rs ''normalizer'')
      | _ \<Rightarrow>
          (case normalizer (settings s) of
             Some f \<Rightarrow> (f form (base e) val, odel rs ''normalizer'')
           | None \<Rightarrow> (val, rs)))"

definition get_rules :: "env \<Rightarrow> vstate \<Rightarrow> element \<Rightarrow> (rules \<times> vstate) option" where
  "get_rules v s e =
     (case element_rules (config v) (setting_rules (settings s)) (form_elements s) e of
        None \<Rightarrow> None
      | Some (rs, reset_it) \<Rightarrow> Some (rs, if reset_it then resetElements [e] s else s))"

definition check :: "env \<Rightarrow> element \<Rightarrow> vstate \<Rightarrow> check_result \<times> vstate" where
  "check v e s =
     (case validationTargetFor s e of
        None \<Rightarrow> (CThrow, s)
      | Some e \<Rightarrow>
          (case get_rules v s e of
             None \<Rightarrow> (CThrow, s)
           | Some (rs, s) \<Rightarrow>
               (let rulesCount = length rs;
                    (val, rs) = apply_normalizer s e rs (elementValue s e);
                    (result, s) = check_loop v s e val rulesCount rs False
                in case result of
                     LThrow \<Rightarrow> (CThrow, s)
                   | LPending \<Rightarrow> (CUndef, s)
                   | LFail \<Rightarrow> (CFalse, s)
                   | LDone dependencyMismatch \<Rightarrow>
                       if dependencyMismatch then (CUndef, s)
                       else (CTrue, if rules_length rs \<noteq> 0 then s\<lparr>successList := successList s @ [eid e]\<rparr> else s))))"

section \<open>Showing errors\<close>

definition label_text :: "string option \<Rightarrow> string" where
  "label_text message = (case message of None \<Rightarrow> [] | Some m \<Rightarrow> m)"

definition refresh_labels :: "nat list \<Rightarrow> string option \<Rightarrow> vstate \<Rightarrow> vstate" where
  "refresh_labels is message s =
     s\<lparr>labels := map (\<lambda>l. if label_id l \<in> set is
        then l\<lparr>label_classes := add_nodes (filter (\<lambda>c. c \<noteq> validClass (settings s)) (label_classes l)) [errorClass (settings s)],
               label_html := (case message of None \<Rightarrow> label_html l | Some m \<Rightarrow> m)\<rparr>
        else l) (labels s)\<rparr>"

definition describe :: "env \<Rightarrow> vstate \<Rightarrow> element \<Rightarrow> string \<Rightarrow> vstate" where
  "describe v s e errorID =
     (let current = (case oget (describedby s) (eid e) of None \<Rightarrow> [] | Some d \<Rightarrow> d);
          known = (case RegExp (unescape ''%b'' @ escapeCssMeta errorID @ unescape ''%b'') of
                     None \<Rightarrow> False | Some r \<Rightarrow> regex_test r current);
          new = (if current = [] then errorID else if \<not> known then current @ '' '' @ errorID else current);
          s = s\<lparr>describedby := oset (describedby s) (eid e) new\<rparr>
      in case oget (groups s) (fname e) of
           None \<Rightarrow> s
         | Some g \<Rightarrow>
             if g = [] then s
             else fold (\<lambda>(name, testgroup) s.
                 if testgroup = g
                 then s\<lparr>describedby := fold (\<lambda>i ob. oset ob i errorID) (map eid (findByName s name)) (describedby s)\<rparr>
                 else s) (groups s) s)"

definition create_label :: "env \<Rightarrow> vstate \<Rightarrow> element \<Rightarrow> string option \<Rightarrow> nat \<times> vstate" where
  "create_label v s e message =
     (let elementID = idOrName s e; errorID = elementID @ ''-error''; i = next_id s;
          is_label = errorElement (settings s) = ''label'';
          l = \<lparr>label_id = i, tag = errorElement (settings s), label_html_id = errorID,
               label_for = (if is_label then Some elementID else None),
               inside_label_for = enclosing_label v (eid e),
               label_classes = [errorClass (settings s)], label_html = label_text message\<rparr>;
          s = s\<lparr>labels := labels s @ [l], next_id := i + 1\<rparr>;
          s = (if \<not> is_label \<and> enclosing_label v (eid e) \<noteq> Some elementID then describe v s e errorID else s)
      in (i, s))"

definition mark_success :: "nat list \<Rightarrow> string option \<Rightarrow> vstate \<Rightarrow> vstate" where
  "mark_success is message s =
     (case success (settings s) of
        None \<Rightarrow> s
      | Some c \<Rightarrow>
          if label_text message = [] then
            s\<lparr>labels := map (\<lambda>l. if label_id l \<in> set is
                then l\<lparr>label_html := [], label_classes := add_nodes (label_classes l) [c]\<rparr> else l) (labels s)\<rparr>
          else s)"

definition showLabel :: "env \<Rightarrow> element \<Rightarrow> string option \<Rightarrow> vstate \<Rightarrow> vstate" where
  "showLabel v e message s =
     (let (is, s) =
        (case map label_id (errorsFor s e) of
           [] \<Rightarrow> (let (i, s) = create_label v s e message in ([i], s))
         | is \<Rightarrow> (is, refresh_labels is message s));
          s = mark_success is message s
      in s\<lparr>toShow := add_nodes (toShow s) (map NLabel is)\<rparr>)"

definition on_element :: "(element \<Rightarrow> vstate \<Rightarrow> vstate) \<Rightarrow> nat \<Rightarrow> vstate \<Rightarrow> vstate" where
  "on_element f i s = (case find_element s i of None \<Rightarrow> s | Some e \<Rightarrow> f e s)"

definition validElements :: "vstate \<Rightarrow> nat list" where
  "validElements s = not_nodes (currentElements s) (map err_element (errorList s))"

definition defaultShowErrors :: "env \<Rightarrow> vstate \<Rightarrow> vstate" where
  "defaultShowErrors v s =
     (let s = fold (\<lambda>x s. on_element (\<lambda>e s. showLabel v e (Some (err_message x)) (highlight e s)) (err_element x) s)
            (errorList s) s;
          s = (if errorList s \<noteq> [] then s\<lparr>toShow := add_nodes (toShow s) (containers s)\<rparr> else s);
          s = (if success (settings s) \<noteq> None
               then fold (\<lambda>i s. on_element (\<lambda>e s. showLabel v e None s) i s) (successList s) s else s);
          s = fold (\<lambda>i s. on_element (unhighlight (validClass (settings s))) i s) (validElements s) s;
          s = s\<lparr>toHide := not_nodes (toHide s) (toShow s)\<rparr>;
          s = hideErrors s
      in show_nodes (addWrapper s (toShow s)) s)"

text \<open>
  \<open>showErrors\<close> with an object rebuilds the error list from the error map, in the map's order. Identities of
  elements are positive: 0 stands for a name that no field of the form has any more.
\<close>

definition add_errors :: "(string \<times> string) list \<Rightarrow> vstate \<Rightarrow> vstate" where
  "add_errors errs s =
     (let s = s\<lparr>errorMap := fold (\<lambda>(k, m) ob. oset ob k m) errs (errorMap s)\<rparr>;
          s = s\<lparr>errorList := map (\<lambda>(name, m).
              \<lparr>err_message = m, err_element = (case findByName s name of [] \<Rightarrow> 0 | e # _ \<Rightarrow> eid e), err_method = None\<rparr>)
            (errorMap s)\<rparr>
      in s\<lparr>successList := filter (\<lambda>i. case find_element s i of None \<Rightarrow> True | Some e \<Rightarrow> fname e \<notin> fst ` set errs)
            (successList s)\<rparr>)"

definition showErrors :: "env \<Rightarrow> (string \<times> string) list option \<Rightarrow> vstate \<Rightarrow> vstate" where
  "showErrors v errs s =
     (let s = (case errs of None \<Rightarrow> s | Some errs \<Rightarrow> add_errors errs s)
      in if custom_showErrors (settings s) then log_effect (ShowErrors (errorMap s)) s
         else defaultShowErrors v s)"

section \<open>The form\<close>

definition is_input :: "element \<Rightarrow> bool" where
  "is_input e \<longleftrightarrow> to_lower (nodeName e) \<in> {''input'', ''select'', ''textarea''} \<or> contenteditable e \<noteq> None"

text \<open>The elements to validate: the first of each name that has rules, ignored and button-like ones left out.\<close>

fun select_elements :: "env \<Rightarrow> element list \<Rightarrow> string list \<Rightarrow> vstate \<Rightarrow> element list option \<times> vstate" where
  "select_elements v [] rulesCache s = (Some [], s)"
| "select_elements v (e # es) rulesCache s =
     (if \<not> own_form e \<or> fname e \<in> set rulesCache then select_elements v es rulesCache s
      else case get_rules v s e of
          None \<Rightarrow> (None, s)
        | Some (rs, s) \<Rightarrow>
            if rules_length rs = 0 then select_elements v es rulesCache s
            else
              (case select_elements v es (fname e # rulesCache) s of
                 (None, s) \<Rightarrow> (None, s)
               | (Some es, s) \<Rightarrow> (Some (e # es), s)))"

definition elements :: "env \<Rightarrow> vstate \<Rightarrow> element list option \<times> vstate" where
  "elements v s =
     select_elements v (filter (\<lambda>e. is_input e \<and> \<not> button_like e \<and> \<not> ignored e) (form_elements s)) [] s"

fun check_all :: "env \<Rightarrow> element list \<Rightarrow> vstate \<Rightarrow> bool \<times> vstate" where
  "check_all v [] s = (True, s)"
| "check_all v (e # es) s =
     (case check v e s of (CThrow, s) \<Rightarrow> (False, s) | (_, s) \<Rightarrow> check_all v es s)"

text \<open>\<open>checkForm\<close> and \<open>form\<close>: \<open>None\<close> when a method threw, otherwise whether the form is valid.\<close>

definition checkForm :: "env \<Rightarrow> vstate \<Rightarrow> bool option \<times> vstate" where
  "checkForm v s =
     (let s = prepareForm s in
      case elements v s of
        (None, s) \<Rightarrow> (None, s)
      | (Some es, s) \<Rightarrow>
          (let (fine, s) = check_all v es (s\<lparr>currentElements := map eid es\<rparr>)
           in (if fine then Some (valid s) else None, s)))"

definition form :: "env \<Rightarrow> vstate \<Rightarrow> bool option \<times> vstate" where
  "form v s =
     (case checkForm v s of
        (None, s) \<Rightarrow> (None, s)
      | (Some b, s) \<Rightarrow>
          (let s = s\<lparr>submitted := fold (\<lambda>(k, m) ob. oset ob k m) (errorMap s) (submitted s)\<rparr>;
               s = s\<lparr>invalid := map (\<lambda>(k, m). (k, IMsg m)) (errorMap s)\<rparr>;
               s = (if valid s then s else log_effect InvalidForm s);
               s = showErrors v None s
           in (Some (valid s), s)))"

section \<open>One element\<close>

text \<open>The other fields of the element's group that are known to be invalid are checked with it.\<close>

fun check_group ::
  "env \<Rightarrow> string \<Rightarrow> string \<Rightarrow> string obj \<Rightarrow> bool \<Rightarrow> vstate \<Rightarrow> bool option \<times> vstate" where
  "check_group v grp own [] result s = (Some result, s)"
| "check_group v grp own ((name, testgroup) # gs) result s =
     (if testgroup = grp \<and> name \<noteq> own then
        (case findByName s name of
           [] \<Rightarrow> (None, s)
         | f # _ \<Rightarrow>
             (case validationTargetFor s f of
                None \<Rightarrow> check_group v grp own gs result s
              | Some f \<Rightarrow>
                  if oget (invalid s) (fname f) \<noteq> None then
                    (case check v f (s\<lparr>currentElements := add_nodes (currentElements s) [eid f]\<rparr>) of
                       (CThrow, s) \<Rightarrow> (None, s)
                     | (r, s) \<Rightarrow> check_group v grp own gs (r = CTrue \<and> result) s)
                  else check_group v grp own gs result s))
      else check_group v grp own gs result s)"

definition check_own :: "env \<Rightarrow> element \<Rightarrow> element \<Rightarrow> bool \<Rightarrow> vstate \<Rightarrow> bool option \<times> vstate" where
  "check_own v e checkElement result s =
     (case check v checkElement s of
        (CThrow, s) \<Rightarrow> (None, s)
      | (r, s) \<Rightarrow>
          (let rs = r \<noteq> CFalse;
               s = s\<lparr>invalid := oset (invalid s) (fname checkElement) (IFlag (\<not> rs))\<rparr>;
               s = (if numberOfInvalids s = 0 then s\<lparr>toHide := add_nodes (toHide s) (containers s)\<rparr> else s);
               s = showErrors v None s;
               s = s\<lparr>aria_invalid := oset (aria_invalid s) (eid e) (\<not> rs)\<rparr>
           in (Some (result \<and> rs), s)))"

definition element :: "env \<Rightarrow> element \<Rightarrow> vstate \<Rightarrow> bool option \<times> vstate" where
  "element v e s =
     (case validationTargetFor s e of
        None \<Rightarrow> (Some True, s\<lparr>invalid := odel (invalid s) (fname e)\<rparr>)
      | Some checkElement \<Rightarrow>
          (let s = prepareElement checkElement s;
               s = s\<lparr>currentElements := [eid checkElement]\<rparr>;
               (result, s) =
                 (case oget (groups s) (fname checkElement) of
                    None \<Rightarrow> (Some True, s)
                  | Some g \<Rightarrow> if g = [] then (Some True, s) else check_group v g (fname checkElement) (groups s) True s)
           in case result of
                None \<Rightarrow> (None, s)
              | Some r \<Rightarrow> check_own v e checkElement r s))"

section \<open>Resetting the form\<close>

definition resetForm :: "env \<Rightarrow> vstate \<Rightarrow> bool \<times> vstate" where
  "resetForm v s =
     (let s = hideErrors (prepareForm (s\<lparr>invalid := [], submitted := []\<rparr>)) in
      case elements v s of
        (None, s) \<Rightarrow> (False, s)
      | (Some es, s) \<Rightarrow>
          (let is = map eid es;
               s = s\<lparr>previous := fold (\<lambda>i ob. odel ob i) is (previous s),
                     aria_invalid := fold (\<lambda>i ob. odel ob i) is (aria_invalid s)\<rparr>
           in (True, resetElements es s)))"

text \<open>Where the focus goes after a failed submit: the last active field if it is the one with an error, else the first error.\<close>

definition findLastActive :: "vstate \<Rightarrow> nat option" where
  "findLastActive s =
     (case lastActive s of
        None \<Rightarrow> None
      | Some i \<Rightarrow>
          (let name = (\<lambda>j. map_option fname (find_element s j)) in
           if length (filter (\<lambda>x. name (err_element x) = name i) (errorList s)) = 1 then Some i else None))"

definition focusInvalid :: "vstate \<Rightarrow> vstate" where
  "focusInvalid s =
     (if focusInvalid_on (settings s) then
        (case findLastActive s of
           Some i \<Rightarrow> log_effect (FocusOn i) s
         | None \<Rightarrow> (case errorList s of [] \<Rightarrow> s | x # _ \<Rightarrow> log_effect (FocusOn (err_element x)) s))
      else s)"

end
