(* ===== verification/Validate_Events.thy ===== *)
theory Validate_Events
  imports Validate_Core
begin

text \<open>
  What happens to a validator over time: the events of the page (submits, clicks, keys, focus, edits),
  the answers to remote requests, and the runs they make up. \<open>dispatch\<close> is one event; \<open>reachable\<close> the
  states a page can get to.
\<close>

section \<open>Submitting\<close>

text \<open>\<open>handle\<close>: whether the browser goes on with the submit. A page's handler decides by what it returns.\<close>

definition handle :: "vstate \<Rightarrow> bool \<times> vstate" where
  "handle s =
     (let hidden = (case submitButton s of
            Some b \<Rightarrow> if submitHandler (settings s) \<noteq> None \<or> formSubmitted s then Some b else None
          | None \<Rightarrow> None);
          s = (case hidden of Some b \<Rightarrow> log_effect (HiddenInput b) s | None \<Rightarrow> s)
      in case submitHandler (settings s) of
           Some result \<Rightarrow>
             if \<not> debug (settings s) then
               (let s = log_effect Handled s;
                    s = (case hidden of Some b \<Rightarrow> log_effect (RemovedInput b) s | None \<Rightarrow> s)
                in (case result of Some r \<Rightarrow> r | None \<Rightarrow> False, s))
             else (True, s)
         | None \<Rightarrow> (True, s))"

definition native_submit :: "bool \<times> vstate \<Rightarrow> vstate" where
  "native_submit r = (case r of (go_on, s) \<Rightarrow> if go_on \<and> \<not> debug (settings s) then log_effect NativeSubmit s else s)"

text \<open>
  The submit handler and what the browser does after it. When validation throws, nothing has called
  \<open>preventDefault\<close> (outside debug mode), so the browser goes on.
\<close>

definition submit_event :: "env \<Rightarrow> vstate \<Rightarrow> vstate" where
  "submit_event v s =
     (if cancelSubmit s then native_submit (handle (s\<lparr>cancelSubmit := False\<rparr>))
      else
        case form v s of
          (None, s) \<Rightarrow> native_submit (True, s)
        | (Some True, s) \<Rightarrow>
            if pendingRequest s \<noteq> 0 then s\<lparr>formSubmitted := True\<rparr> else native_submit (handle s)
        | (Some False, s) \<Rightarrow> focusInvalid s)"

section \<open>Answers\<close>

text \<open>
  \<open>stopRequest\<close>: the last pending answer of a submitted form submits it, if the form is still valid.
  \<open>None\<close> stands for an exception in \<open>form\<close>.
\<close>

definition stopRequest :: "env \<Rightarrow> element \<Rightarrow> bool \<Rightarrow> vstate \<Rightarrow> vstate" where
  "stopRequest v e ok s =
     (let s = endRequest e s in
      if ok \<and> pendingRequest s = 0 \<and> formSubmitted s then
        (case form v s of
           (Some True, s) \<Rightarrow>
             if pendingRequest s = 0 then
               (let s = submit_event v (log_effect Submit s);
                    s = (case submitButton s of Some b \<Rightarrow> log_effect (RemovedInput b) s | None \<Rightarrow> s)
                in s\<lparr>formSubmitted := False\<rparr>)
             else s
         | (_, s) \<Rightarrow> s)
      else if \<not> ok \<and> pendingRequest s = 0 \<and> formSubmitted s
      then (log_effect InvalidForm s)\<lparr>formSubmitted := False\<rparr>
      else s)"

definition positive_answer :: "jsv \<Rightarrow> bool" where
  "positive_answer r = (case r of JBool b \<Rightarrow> b | JStr t \<Rightarrow> t = ''true'' | _ \<Rightarrow> False)"

text \<open>The \<open>success\<close> callback; the previous value it closes over is the element's, unless a reset dropped it.\<close>

definition remote_success :: "env \<Rightarrow> request \<Rightarrow> element \<Rightarrow> jsv \<Rightarrow> vstate \<Rightarrow> vstate" where
  "remote_success v q e response s =
     (let i = eid e; name = fname e; method = req_method q; ok = positive_answer response;
          original = (case oget (previous s) i of Some p \<Rightarrow> originalMessage p | None \<Rightarrow> req_original q);
          s = set_message name method original s
      in if ok then
           (let s = resetInternals s;
                s = s\<lparr>toHide := label_nodes (errorsFor s e)\<rparr>;
                s = s\<lparr>successList := successList s @ [i]\<rparr>;
                s = s\<lparr>invalid := oset (invalid s) name (IFlag False)\<rparr>;
                s = showErrors v None s;
                s = (case oget (previous s) i of Some p \<Rightarrow> set_previous i (p\<lparr>prev_valid := True\<rparr>) s | None \<Rightarrow> s)
            in stopRequest v e True s)
         else
           (case (if truthy_v response then Some (to_text response)
                  else defaultMessage v s e method (req_value q)) of
              None \<Rightarrow> s
            | Some m \<Rightarrow>
                (let s = s\<lparr>invalid := oset (invalid s) name (IFlag True)\<rparr>;
                     s = showErrors v (Some [(name, m)]) s;
                     s = (case oget (previous s) i of
                        Some p \<Rightarrow> set_previous i (p\<lparr>prev_valid := False, prev_message := m\<rparr>) s | None \<Rightarrow> s)
                 in stopRequest v e False s)))"

definition drop_request :: "nat \<Rightarrow> vstate \<Rightarrow> vstate" where
  "drop_request i s = s\<lparr>requests := filter (\<lambda>p. req_id (snd p) \<noteq> i) (requests s)\<rparr>"

definition answer :: "env \<Rightarrow> nat \<Rightarrow> jsv \<Rightarrow> vstate \<Rightarrow> vstate" where
  "answer v i response s =
     (case find (\<lambda>p. req_id (snd p) = i) (requests s) of
        None \<Rightarrow> s
      | Some (port, q) \<Rightarrow>
          (case find_element s (req_element q) of
             None \<Rightarrow> drop_request i s
           | Some e \<Rightarrow> remote_success v q e response (drop_request i s)))"

section \<open>Events\<close>

definition hideFor :: "element \<Rightarrow> vstate \<Rightarrow> vstate" where
  "hideFor e s = hideThese (label_nodes (errorsFor s e)) s"

definition onfocusin :: "element \<Rightarrow> vstate \<Rightarrow> vstate" where
  "onfocusin e s =
     (let s = s\<lparr>lastActive := Some (eid e)\<rparr> in
      if focusCleanup (settings s) then hideFor e (unhighlight (validClass (settings s)) e s) else s)"

definition revalidate :: "env \<Rightarrow> element \<Rightarrow> vstate \<Rightarrow> vstate" where
  "revalidate v e s = snd (element v e s)"

definition onfocusout :: "env \<Rightarrow> element \<Rightarrow> vstate \<Rightarrow> vstate" where
  "onfocusout v e s =
     (if \<not> checkable e \<and> (oget (submitted s) (fname e) \<noteq> None \<or> \<not> optional (selects (config v)) s e)
      then revalidate v e s else s)"

text \<open>Keys that do not change a value: Shift, Ctrl, Alt, the arrows and the like; and Tab into an empty field.\<close>

definition excludedKeys :: "nat list" where
  "excludedKeys = [16, 17, 18, 20, 35, 36, 37, 38, 39, 40, 45, 144, 225]"

definition empty_value :: "jsv \<Rightarrow> bool" where
  "empty_value v = (case v of JStr t \<Rightarrow> t = [] | _ \<Rightarrow> False)"

definition onkeyup :: "env \<Rightarrow> nat \<Rightarrow> element \<Rightarrow> vstate \<Rightarrow> vstate" where
  "onkeyup v key e s =
     (if key = 9 \<and> empty_value (elementValue s e) \<or> key \<in> set excludedKeys then s
      else if oget (submitted s) (fname e) \<noteq> None \<or> oget (invalid s) (fname e) \<noteq> None
      then revalidate v e s else s)"

text \<open>The parent of an option is the select the click belongs to.\<close>

definition onclick :: "env \<Rightarrow> element \<Rightarrow> element option \<Rightarrow> vstate \<Rightarrow> vstate" where
  "onclick v e parent s =
     (if oget (submitted s) (fname e) \<noteq> None then revalidate v e s
      else case parent of
          Some p \<Rightarrow> if oget (submitted s) (fname p) \<noteq> None then revalidate v p s else s
        | None \<Rightarrow> s)"

text \<open>\<open>delegate\<close> leaves out the elements of another form and the ignored ones.\<close>

definition delegate :: "(element \<Rightarrow> vstate \<Rightarrow> vstate) \<Rightarrow> nat \<Rightarrow> vstate \<Rightarrow> vstate" where
  "delegate f i s =
     on_element (\<lambda>e s. if own_form e \<and> inside_form e \<and> \<not> ignored e then f e s else s) i s"

definition submit_click :: "string \<Rightarrow> bool \<Rightarrow> bool \<Rightarrow> vstate \<Rightarrow> vstate" where
  "submit_click name cancel_class formnovalidate s =
     (let s = s\<lparr>submitButton := Some name\<rparr> in
      if cancel_class \<or> formnovalidate then s\<lparr>cancelSubmit := True\<rparr> else s)"

text \<open>The blur of a target revalidates the element that is compared with it.\<close>

definition blur_event :: "env \<Rightarrow> nat \<Rightarrow> vstate \<Rightarrow> vstate" where
  "blur_event v i s =
     fold (\<lambda>(kind, target, e) s. if target = i then on_element (revalidate v) e s else s) (blur_handlers s) s"

text \<open>An edit changes values, never identities, names or types.\<close>

record change =
  new_value :: fval
  new_checked :: bool
  new_text :: string
  new_selected :: nat

definition edit_element :: "change \<Rightarrow> element \<Rightarrow> element" where
  "edit_element c e =
     e\<lparr>fvalue := new_value c, checked := new_checked c, ftext := new_text c, selected := new_selected c\<rparr>"

definition edit :: "nat \<Rightarrow> change \<Rightarrow> vstate \<Rightarrow> vstate" where
  "edit i c s = s\<lparr>doc := map (\<lambda>e. if eid e = i then edit_element c e else e) (doc s)\<rparr>"

datatype event =
    EvSubmit
  | EvSubmitClick string bool bool
  | EvEdit nat change
  | EvFocusIn nat
  | EvFocusOut nat
  | EvKeyUp nat nat
  | EvClick nat "nat option"
  | EvBlur nat
  | EvAnswer nat jsv
  | EvFailure nat
  | EvReset
  | EvValidate
  | EvValidateElement nat

text \<open>A request that fails calls no callback of the plugin: it is only no longer outstanding.\<close>

fun dispatch :: "env \<Rightarrow> event \<Rightarrow> vstate \<Rightarrow> vstate" where
  "dispatch v EvSubmit s = submit_event v s"
| "dispatch v (EvSubmitClick name c f) s = submit_click name c f s"
| "dispatch v (EvEdit i c) s = edit i c s"
| "dispatch v (EvFocusIn i) s = delegate onfocusin i s"
| "dispatch v (EvFocusOut i) s = delegate (onfocusout v) i s"
| "dispatch v (EvKeyUp i key) s = delegate (onkeyup v key) i s"
| "dispatch v (EvClick i p) s =
     delegate (\<lambda>e s. onclick v e (case p of None \<Rightarrow> None | Some j \<Rightarrow> find_element s j) s) i s"
| "dispatch v (EvBlur i) s = blur_event v i s"
| "dispatch v (EvAnswer i r) s = answer v i r s"
| "dispatch v (EvFailure i) s = drop_request i s"
| "dispatch v EvReset s = snd (resetForm v s)"
| "dispatch v EvValidate s = snd (form v s)"
| "dispatch v (EvValidateElement i) s = on_element (revalidate v) i s"

text \<open>
  A page starts with an initialised validator: no request, nothing pending, no submit under way, and
  identities that tell elements apart.
\<close>

definition initial :: "vstate \<Rightarrow> bool" where
  "initial s \<longleftrightarrow> (\<exists>t. s = init t \<and> requests t = [] \<and> \<not> formSubmitted t \<and> effects t = [] \<and>
     distinct (map eid (doc t)))"

inductive reachable :: "env \<Rightarrow> vstate \<Rightarrow> bool" for v where
  start: "initial s \<Longrightarrow> reachable v s"
| step: "reachable v s \<Longrightarrow> reachable v (dispatch v ev s)"

end
