(* ===== verification/Validate_Invariants.thy ===== *)
theory Validate_Invariants
  imports Validate_Events
begin

text \<open>
  Invariants of the validator. \<open>net\<close> is the part of the state that only the request bookkeeping and the
  submit handler change; the display functions keep it. The locale \<open>stable\<close> states when a predicate on the
  state survives validation, and proves once that it then survives every operation; the invariants are
  interpretations of it.
\<close>

section \<open>What the display functions keep\<close>

named_theorems net_keeps "functions that keep the request bookkeeping and the submits"

definition submits :: "vstate \<Rightarrow> effect list" where
  "submits s = filter (\<lambda>x. x = Handled \<or> x = NativeSubmit) (effects s)"

definition net ::
  "vstate \<Rightarrow> int \<times> string list \<times> (string \<times> request) list \<times> element list \<times> bool \<times> bool \<times> effect list" where
  "net s = (pendingRequest s, pending s, requests s, doc s, formSubmitted s, cancelSubmit s, submits s)"

lemma net_fold: "(\<And>x s. x \<in> set xs \<Longrightarrow> net (f x s) = net s) \<Longrightarrow> net (fold f xs s) = net s"
  by (induction xs arbitrary: s) simp_all

lemma net_fold_all: "(\<And>x s. net (f x s) = net s) \<Longrightarrow> net (fold f xs s) = net s"
  by (rule net_fold)

lemma net_fold_eq: "(\<And>x s. net (f x s) = net s) \<Longrightarrow> net s = n \<Longrightarrow> net (fold f xs s) = n"
  by (simp add: net_fold)

lemma net_doc: "net s = net t \<Longrightarrow> doc s = doc t"
  by (simp add: net_def)

lemma net_simple [net_keeps]:
  "net (resetInternals s) = net s" "net (reset s) = net s"
  "net (addClass is c s) = net s" "net (removeClass is c s) = net s"
  "net (set_label_html is t s) = net s" "net (show_nodes ns s) = net s"
  "net (set_previous i p s) = net s" "net (refresh_labels is m s) = net s"
  "net (mark_success is m s) = net s"
  by (simp_all add: net_def submits_def resetInternals_def reset_def addClass_def removeClass_def
      set_label_html_def show_nodes_def set_previous_def refresh_labels_def mark_success_def
      split: option.split)

lemma net_updates [net_keeps]:
  "net (s\<lparr>toHide := ns\<rparr>) = net s" "net (s\<lparr>toShow := ns\<rparr>) = net s" "net (s\<lparr>currentElements := is\<rparr>) = net s"
  "net (s\<lparr>hidden := ns\<rparr>) = net s" "net (s\<lparr>successList := is\<rparr>) = net s" "net (s\<lparr>errorList := es\<rparr>) = net s"
  "net (s\<lparr>errorMap := ms\<rparr>) = net s" "net (s\<lparr>submitted := ms\<rparr>) = net s" "net (s\<lparr>invalid := iv\<rparr>) = net s"
  "net (s\<lparr>aria_invalid := f\<rparr>) = net s" "net (s\<lparr>describedby := g\<rparr>) = net s" "net (s\<lparr>labels := ls\<rparr>) = net s"
  "net (s\<lparr>next_id := n\<rparr>) = net s" "net (s\<lparr>settings := st\<rparr>) = net s" "net (s\<lparr>lastActive := l\<rparr>) = net s"
  "net (s\<lparr>submitButton := sb\<rparr>) = net s" "net (s\<lparr>previous := pv\<rparr>) = net s" "net (s\<lparr>blur_handlers := bh\<rparr>) = net s"
  by (simp_all add: net_def submits_def)

lemma net_log [net_keeps]: "x \<noteq> Handled \<Longrightarrow> x \<noteq> NativeSubmit \<Longrightarrow> net (log_effect x s) = net s"
  by (simp add: net_def submits_def log_effect_def)

lemma net_classes [net_keeps]:
  "net (highlight e s) = net s" "net (unhighlight c e s) = net s" "net (resetElements es s) = net s"
  by (auto simp: highlight_def unhighlight_def resetElements_def Let_def net_keeps intro!: net_fold_all)

lemma net_hide [net_keeps]:
  "net (hideThese ns s) = net s" "net (hideErrors s) = net s" "net (hideFor e s) = net s"
  by (simp_all add: hideThese_def hideErrors_def hideFor_def Let_def net_keeps)

lemma net_prepare [net_keeps]: "net (prepareForm s) = net s" "net (prepareElement e s) = net s"
  by (simp_all add: prepareForm_def prepareElement_def Let_def net_keeps)

lemma net_describe [net_keeps]: "net (describe v s e i) = net s"
  by (auto simp: describe_def Let_def net_keeps split: option.split prod.split intro!: net_fold_eq)

lemma net_create_label: "create_label v s e m = (i, t) \<Longrightarrow> net t = net s"
  by (auto simp: create_label_def Let_def net_keeps)

lemma net_showLabel [net_keeps]: "net (showLabel v e m s) = net s"
  by (auto simp: showLabel_def Let_def net_keeps dest: net_create_label split: list.split prod.split)

lemma net_on_element [net_keeps]: "(\<And>e s. net (f e s) = net s) \<Longrightarrow> net (on_element f i s) = net s"
  by (auto simp: on_element_def split: option.split)

lemma net_defaultShowErrors [net_keeps]: "net (defaultShowErrors v s) = net s"
proof -
  have "net (fold (\<lambda>x s. on_element (\<lambda>e s. showLabel v e (Some (err_message x)) (highlight e s)) (err_element x) s) xs s)
      = net s" for xs :: "form_error list" and s
    by (intro net_fold_all net_on_element) (simp add: net_keeps)
  moreover have "net (fold (\<lambda>i s. on_element (\<lambda>e s. showLabel v e None s) i s) xs s) = net s" for xs s
    by (intro net_fold_all net_on_element) (simp add: net_keeps)
  moreover have "net (fold (\<lambda>i s. on_element (unhighlight (validClass (settings s))) i s) xs s) = net s" for xs s
    by (intro net_fold_all net_on_element) (simp add: net_keeps)
  ultimately show ?thesis by (simp add: defaultShowErrors_def Let_def net_keeps)
qed

lemma net_add_errors [net_keeps]: "net (add_errors errs s) = net s"
  by (simp add: add_errors_def Let_def net_keeps)

lemma net_showErrors [net_keeps]: "net (showErrors v errs s) = net s"
  by (auto simp: showErrors_def Let_def net_keeps split: option.split)

lemma net_messages [net_keeps]: "net (set_message n k m s) = net s" "net (ensure_messages n s) = net s"
  by (auto simp: set_message_def ensure_messages_def Let_def net_keeps split: option.split field_messages.split)

lemma net_formatAndAdd: "formatAndAdd v s e method params = Some t \<Longrightarrow> net t = net s"
  by (auto simp: formatAndAdd_def net_def submits_def split: option.splits)

lemma net_get_rules: "get_rules v s e = Some (rs, t) \<Longrightarrow> net t = net s"
  by (auto simp: get_rules_def net_keeps split: option.splits if_splits)

lemma net_bind_blur [net_keeps]: "net (bind_blur k e t s) = net s"
  by (auto simp: bind_blur_def Let_def net_keeps split: option.split)

lemma net_equalTo [net_keeps]: "net (snd (equalTo v s val e param)) = net s"
  by (simp add: equalTo_def Let_def net_keeps)

lemma net_compare_with [net_keeps]: "net (snd (compare_with rel k v s val e param)) = net s"
  by (simp add: compare_with_def Let_def net_keeps)

lemma net_comparison: "comparison m = Some f \<Longrightarrow> net (snd (f v s val e param)) = net s"
  using net_equalTo [of v s val e param] comparison_cases [of m f] net_compare_with
  by (cases "equalTo v s val e param") (auto simp: notEqualTo_def)

lemma net_focusInvalid [net_keeps]: "net (focusInvalid s) = net s"
  by (auto simp: focusInvalid_def net_keeps split: option.split list.split)

lemma net_select_elements [net_keeps]: "net (snd (select_elements v es c s)) = net s"
proof (induction v es c s rule: select_elements.induct)
  case (2 v e es c s)
  then show ?case
    using net_get_rules [of v s e]
    by (auto split: option.split prod.split simp: Let_def)
qed simp

lemma net_elements [net_keeps]: "net (snd (elements v s)) = net s"
  by (simp add: elements_def net_keeps)

section \<open>Predicates that survive validation\<close>

locale stable =
  fixes P :: "vstate \<Rightarrow> bool"
  assumes net_only: "P s \<Longrightarrow> net t = net s \<Longrightarrow> P t"
    and sending: "P s \<Longrightarrow> e \<in> set (doc s) \<Longrightarrow> P (send_request e m val orig (startRequest e s))"
begin

definition good :: "vstate \<Rightarrow> vstate \<Rightarrow> bool" where
  "good s t \<longleftrightarrow> (P s \<longrightarrow> P t) \<and> doc t = doc s"

lemma good_net: "net t = net s \<Longrightarrow> good s t"
  unfolding good_def by (metis net_doc net_only)

lemma good_trans: "good s t \<Longrightarrow> good t u \<Longrightarrow> good s u"
  by (simp add: good_def)

lemma good_send: "e \<in> set (doc s) \<Longrightarrow> good s (send_request e m val orig (startRequest e s))"
  using sending by (auto simp: good_def send_request_def startRequest_def addClass_def Let_def)

lemma remote_good:
  assumes "e \<in> set (doc s)"
  shows "good s (snd (remote v s val e param))"
proof (cases "optional (selects (config v)) s e \<or> previousValue v s e ''remote'' = None")
  case True
  then show ?thesis by (auto simp: remote_def Let_def intro: good_net)
next
  case False
  then obtain p s0 where ps: "previousValue v s e ''remote'' = Some (p, s0)" by auto
  then have n0: "net s0 = net s"
    by (auto simp: previousValue_def Let_def net_keeps split: option.splits)
  define s1 where "s1 = ensure_messages (fname e) s0"
  define q where "q = p\<lparr>originalMessage := message_or (originalMessage p) (own_message s1 (fname e) ''remote'')\<rparr>"
  define s2 where "s2 = set_message (fname e) ''remote'' (Some (MText (prev_message q))) s1"
  have n2: "net s2 = net s" using n0 by (simp add: s2_def s1_def net_keeps)
  have eq: "snd (remote v s val e param) =
      (if old q = Some (query_param v val param) then set_previous (eid e) q s2
       else send_request e ''remote'' val (originalMessage q)
         (startRequest e (set_previous (eid e) (q\<lparr>old := Some (query_param v val param)\<rparr>) s2)))"
    using False ps by (simp add: remote_def Let_def s1_def s2_def q_def)
  have prev: "good s (set_previous (eid e) r s2)" for r
    by (rule good_net) (simp add: net_keeps n2)
  have mem: "e \<in> set (doc (set_previous (eid e) r s2))" for r
    using assms net_doc [OF n2] by (simp add: set_previous_def)
  have "good s (send_request e m val orig (startRequest e (set_previous (eid e) r s2)))" for m orig r
    by (rule good_trans [OF prev good_send [OF mem]])
  with eq prev show ?thesis by simp
qed

lemma call_method_good: "e \<in> set (doc s) \<Longrightarrow> good s (snd (call_method v s m val e param))"
  by (auto simp: call_method_def remote_good intro!: good_net net_keeps net_comparison split: option.split)

lemma check_loop_good: "e \<in> set (doc s) \<Longrightarrow> good s (snd (check_loop v s e val n rs b))"
proof (induction rs arbitrary: s b)
  case (Cons r rs)
  obtain m param where r: "r = (m, param)" by fastforce
  obtain res t where t: "call_method v s m val e param = (res, t)" by fastforce
  have g: "good s t" using call_method_good [OF Cons.prems, of v m val param] t by simp
  then have IH: "good s (snd (check_loop v t e val n rs b'))" for b'
    using Cons good_trans [OF g] by (metis good_def)
  have "good s (t\<lparr>toHide := ns\<rparr>)" for ns
    by (rule good_trans [OF g good_net]) (simp add: net_keeps)
  moreover have "formatAndAdd v t e m param = Some u \<Longrightarrow> good s u" for u
    using good_trans [OF g good_net] net_formatAndAdd by blast
  ultimately show ?case
    using g IH by (auto simp: r t split: option.split)
qed (simp add: good_net)

lemma filter_head: "filter p xs = f # fs \<Longrightarrow> f \<in> set xs"
  by (metis filter_is_subset list.set_intros(1) subsetD)

lemma named_in_doc: "findByName s name = f # fs \<Longrightarrow> f \<in> set (doc s)"
  unfolding findByName_def by (metis filter_filter filter_head)

lemma target_in_doc:
  assumes "e \<in> set (doc s)" and "validationTargetFor s e = Some f"
  shows "f \<in> set (doc s)"
proof -
  let ?es = "if checkable e then findByName s (fname e) else [e]"
  obtain fs where "filter (\<lambda>e. \<not> ignored e) ?es = f # fs"
    using assms(2) by (auto simp: validationTargetFor_def Let_def split: list.splits)
  then have "f \<in> set ?es" by (rule filter_head)
  moreover have "set ?es \<subseteq> set (doc s)" using assms(1) by (auto simp: findByName_def)
  ultimately show ?thesis by blast
qed

lemma check_good:
  assumes "e \<in> set (doc s)"
  shows "good s (snd (check v e s))"
proof (cases "validationTargetFor s e")
  case None
  then show ?thesis by (simp add: check_def good_net)
next
  case (Some f)
  then have f: "f \<in> set (doc s)" using assms target_in_doc by blast
  show ?thesis
  proof (cases "get_rules v s f")
    case None
    with Some show ?thesis by (simp add: check_def good_net)
  next
    case (Some rt)
    obtain rs t where rt: "rt = (rs, t)" by fastforce
    have g: "good s t" using Some rt net_get_rules good_net by blast
    then have ft: "f \<in> set (doc t)" using f by (simp add: good_def)
    obtain val rs' where n: "apply_normalizer t f rs (elementValue t f) = (val, rs')" by fastforce
    obtain res u where u: "check_loop v t f val (length rs) rs' False = (res, u)" by fastforce
    have gu: "good s u" using good_trans [OF g check_loop_good [OF ft]] u by (metis snd_conv)
    have "good s (u\<lparr>successList := is\<rparr>)" for "is"
      by (rule good_trans [OF gu good_net]) (simp add: net_keeps)
    with gu show ?thesis
      using \<open>validationTargetFor s e = Some f\<close> Some
      by (auto simp: check_def rt n u split: loop_result.split)
  qed
qed

lemma check_all_good: "set es \<subseteq> set (doc s) \<Longrightarrow> good s (snd (check_all v es s))"
proof (induction es arbitrary: s)
  case (Cons e es)
  obtain r t where t: "check v e s = (r, t)" by fastforce
  have g: "good s t" using check_good [of e s v] Cons.prems t by simp
  then have "good s (snd (check_all v es t))"
    using Cons good_trans [OF g] by (metis good_def insert_subset list.simps(15))
  with g t show ?case by (cases r) auto
qed (simp add: good_net)

lemma select_in: "select_elements v es c s = (Some fs, t) \<Longrightarrow> set fs \<subseteq> set es"
proof (induction es arbitrary: c s fs t)
  case (Cons e es)
  show ?case
  proof (cases "\<not> own_form e \<or> fname e \<in> set c")
    case True
    with Cons show ?thesis by fastforce
  next
    case False
    then obtain rs u where g: "get_rules v s e = Some (rs, u)" using Cons.prems by (cases "get_rules v s e") auto
    show ?thesis
    proof (cases "rules_length rs = 0")
      case True
      with g False Cons.prems have "select_elements v es c u = (Some fs, t)" by simp
      then show ?thesis using Cons.IH by fastforce
    next
      case rules: False
      obtain r w where r: "select_elements v es (fname e # c) u = (r, w)" by fastforce
      with g False rules Cons.prems obtain gs where "r = Some gs" "fs = e # gs" by (cases r) auto
      then show ?thesis using Cons.IH [of "fname e # c" u gs w] r by auto
    qed
  qed
qed simp

lemma checkForm_good: "good s (snd (checkForm v s))"
proof -
  let ?s = "prepareForm s"
  obtain r t where t: "elements v ?s = (r, t)" by fastforce
  have n: "net t = net s" using net_elements [of v ?s] t by (simp add: net_keeps)
  show ?thesis
  proof (cases r)
    case None
    with t n show ?thesis by (simp add: checkForm_def good_net)
  next
    case (Some es)
    have "set es \<subseteq> set (doc ?s)"
      using select_in [OF t [unfolded elements_def Some]] by auto
    then have "set es \<subseteq> set (doc (t\<lparr>currentElements := map eid es\<rparr>))"
      using n net_doc [of t s] net_doc [of ?s s] by (simp add: net_keeps)
    moreover have "good s (t\<lparr>currentElements := map eid es\<rparr>)"
      using n by (intro good_net) (simp add: net_keeps)
    ultimately have "good s (snd (check_all v es (t\<lparr>currentElements := map eid es\<rparr>)))"
      using good_trans check_all_good by blast
    then show ?thesis using t Some by (simp add: checkForm_def split: prod.split) (metis snd_conv)
  qed
qed

lemma form_good: "good s (snd (form v s))"
proof -
  obtain r t where t: "checkForm v s = (r, t)" by fastforce
  then have g: "good s t" using checkForm_good [of s v] by simp
  have "net (snd (form v s)) = net t"
    using t by (cases r) (simp_all add: form_def Let_def net_keeps)
  then show ?thesis using good_trans [OF g good_net] by blast
qed

lemma check_group_good: "good s (snd (check_group v grp own gs b s))"
proof (induction gs arbitrary: s b)
  case (Cons g gs)
  obtain name tg where g: "g = (name, tg)" by fastforce
  show ?case
  proof (cases "tg = grp \<and> name \<noteq> own \<and> findByName s name \<noteq> []")
    case True
    then obtain f fs where f: "findByName s name = f # fs" by (cases "findByName s name") auto
    then have "f \<in> set (doc s)" by (rule named_in_doc)
    show ?thesis
    proof (cases "validationTargetFor s f")
      case None
      with Cons.IH g f True show ?thesis by simp
    next
      case (Some h)
      then have h: "h \<in> set (doc s)" using \<open>f \<in> set (doc s)\<close> target_in_doc by blast
      let ?s = "s\<lparr>currentElements := add_nodes (currentElements s) [eid h]\<rparr>"
      obtain r t where t: "check v h ?s = (r, t)" by fastforce
      have "good s ?s" by (rule good_net) (simp add: net_keeps)
      moreover have "good ?s t" using check_good [of h ?s v] h t by simp
      ultimately have gt: "good s t" by (rule good_trans)
      then have "good s (snd (check_group v grp own gs b' t))" for b'
        using Cons.IH good_trans by blast
      with gt Some g f True t Cons.IH show ?thesis by (cases r) auto
    qed
  next
    case False
    with Cons.IH g show ?thesis by (auto simp: good_net split: list.split)
  qed
qed (simp add: good_net)

lemma check_own_good:
  assumes "f \<in> set (doc s)"
  shows "good s (snd (check_own v e f b s))"
proof -
  obtain r t where t: "check v f s = (r, t)" by fastforce
  have g: "good s t" using check_good [OF assms, of v] t by simp
  have "net (snd (check_own v e f b s)) = net t"
    using t by (cases r) (simp_all add: check_own_def Let_def net_keeps)
  then show ?thesis using good_trans [OF g good_net] by blast
qed

lemma element_good:
  assumes "e \<in> set (doc s)"
  shows "good s (snd (element v e s))"
proof (cases "validationTargetFor s e")
  case None
  then show ?thesis by (simp add: element_def good_net net_keeps)
next
  case (Some f)
  define s1 where "s1 = (prepareElement f s)\<lparr>currentElements := [eid f]\<rparr>"
  have g1: "good s s1" by (rule good_net) (simp add: s1_def net_keeps)
  obtain r t where t: "(case oget (groups s1) (fname f) of None \<Rightarrow> (Some True, s1)
      | Some g \<Rightarrow> if g = [] then (Some True, s1) else check_group v g (fname f) (groups s1) True s1) = (r, t)"
    by fastforce
  have "good s1 t"
    using t check_group_good [of s1 v _ "fname f" "groups s1" True]
    by (auto simp: good_net split: option.splits if_splits) (metis snd_conv)
  then have gt: "good s t" using g1 good_trans by blast
  moreover have "f \<in> set (doc t)" using gt assms Some target_in_doc by (simp add: good_def)
  then have "good s (snd (check_own v e f b t))" for b using gt good_trans check_own_good by blast
  moreover have "element v e s = (case r of None \<Rightarrow> (None, t) | Some b \<Rightarrow> check_own v e f b t)"
    unfolding element_def Some option.case Let_def s1_def [symmetric] t prod.case ..
  ultimately show ?thesis by (cases r) auto
qed

end

section \<open>Predicates that survive every event\<close>

locale stable_run = stable +
  assumes flags: "P s \<Longrightarrow> P (s\<lparr>formSubmitted := b\<rparr>)" "P s \<Longrightarrow> P (s\<lparr>cancelSubmit := b\<rparr>)"
    and logged: "P s \<Longrightarrow> P (log_effect x s)"
    and edited: "P s \<Longrightarrow> P (edit i c s)"
    and lost: "P s \<Longrightarrow> P (drop_request i s)"
    and answered: "P s \<Longrightarrow> (port, q) \<in> set (requests s) \<Longrightarrow> find_element s (req_element q) = Some e \<Longrightarrow>
      net t = net (drop_request (req_id q) s) \<Longrightarrow> P (endRequest e t)"
    and begins: "initial s \<Longrightarrow> P s"
begin

lemma form_P: "P s \<Longrightarrow> form v s = (r, t) \<Longrightarrow> P t"
  using form_good [of s v] by (simp add: good_def)

lemma handle_P: "P s \<Longrightarrow> handle s = (b, t) \<Longrightarrow> P t"
  by (auto simp: handle_def Let_def logged split: option.splits if_splits)

lemma native_P: "P s \<Longrightarrow> P (native_submit (b, s))"
  by (simp add: native_submit_def logged)

lemma submit_P: "P s \<Longrightarrow> P (submit_event v s)"
proof (cases "cancelSubmit s")
  case True
  assume "P s"
  obtain b t where "handle (s\<lparr>cancelSubmit := False\<rparr>) = (b, t)" by fastforce
  with \<open>P s\<close> True show ?thesis using handle_P flags native_P by (simp add: submit_event_def) metis
next
  case False
  assume "P s"
  obtain r t where f: "form v s = (r, t)" by fastforce
  then have t: "P t" using form_P \<open>P s\<close> by blast
  obtain b u where h: "handle t = (b, u)" by fastforce
  have "P (focusInvalid t)" using net_only [OF t] by (simp add: net_keeps)
  then show ?thesis
    using False f t h handle_P [OF t h] native_P flags by (auto simp: submit_event_def split: option.split bool.split)
qed

lemma stop_P: "P (endRequest e s) \<Longrightarrow> P (stopRequest v e ok s)"
proof -
  assume p: "P (endRequest e s)"
  obtain r t where f: "form v (endRequest e s) = (r, t)" by fastforce
  then have t: "P t" using form_P p by blast
  have "P (submit_event v (log_effect Submit t))" using submit_P logged t by blast
  then show ?thesis
    using p t by (auto simp: stopRequest_def Let_def f flags logged split: option.split bool.split)
qed

lemma remote_success_P:
  assumes "P s" "(port, q) \<in> set (requests s)" "find_element s (req_element q) = Some e"
  shows "P (remote_success v q e r (drop_request (req_id q) s))"
proof -
  have ended: "P (stopRequest v e ok t)" if "net t = net (drop_request (req_id q) s)" for t ok
    by (rule stop_P, rule answered [OF assms that])
  have "P (drop_request (req_id q) s)" using lost assms(1) .
  define s1 where "s1 = set_message (fname e) (req_method q)
    (case oget (previous (drop_request (req_id q) s)) (eid e) of Some p \<Rightarrow> originalMessage p | None \<Rightarrow> req_original q)
    (drop_request (req_id q) s)"
  have n1: "net s1 = net (drop_request (req_id q) s)" by (simp add: s1_def net_keeps)
  have p1: "P s1" using net_only [OF \<open>P (drop_request (req_id q) s)\<close> n1] .
  show ?thesis
  proof (cases "positive_answer r")
    case True
    then show ?thesis
      unfolding remote_success_def Let_def s1_def [symmetric] if_P [OF True]
      by (intro ended) (simp add: net_keeps n1 split: option.split)
  next
    case False
    show ?thesis
      unfolding remote_success_def Let_def s1_def [symmetric] if_not_P [OF False]
      by (auto simp: p1 net_keeps n1 intro!: ended split: option.split)
  qed
qed

lemma answer_P: "P s \<Longrightarrow> P (answer v i r s)"
proof (cases "find (\<lambda>p. req_id (snd p) = i) (requests s)")
  case (Some pq)
  assume "P s"
  obtain port q where pq: "pq = (port, q)" by fastforce
  have "pq \<in> set (requests s) \<and> req_id (snd pq) = i"
    using Some by (metis (mono_tags, lifting) find_Some_iff nth_mem)
  then have "(port, q) \<in> set (requests s)" "req_id q = i" using pq by simp_all
  then show ?thesis
    using \<open>P s\<close> Some pq lost remote_success_P [OF \<open>P s\<close>, of port q _ v r]
    by (auto simp: answer_def split: option.split)
qed (simp add: answer_def)

lemma element_P: "P s \<Longrightarrow> e \<in> set (doc s) \<Longrightarrow> P (revalidate v e s) \<and> doc (revalidate v e s) = doc s"
  using element_good [of e s v] by (simp add: good_def revalidate_def)

lemma find_in_doc: "find_element s i = Some e \<Longrightarrow> e \<in> set (doc s)"
  by (auto simp: find_element_def find_Some_iff)

lemma on_element_P: "P s \<Longrightarrow> (\<And>e. e \<in> set (doc s) \<Longrightarrow> P (f e s)) \<Longrightarrow> P (on_element f i s)"
  using find_in_doc by (auto simp: on_element_def split: option.split)

lemma on_revalidate_P: "P s \<Longrightarrow> P (on_element (revalidate v) i s)"
  using on_element_P element_P by blast

lemma delegate_P: "P s \<Longrightarrow> (\<And>e. e \<in> set (doc s) \<Longrightarrow> P (f e s)) \<Longrightarrow> P (delegate f i s)"
  unfolding delegate_def by (rule on_element_P) auto

lemma onfocusin_P: "P s \<Longrightarrow> P (onfocusin e s)"
  by (erule net_only) (simp add: onfocusin_def Let_def net_keeps)

lemma onclick_P: "P s \<Longrightarrow> e \<in> set (doc s) \<Longrightarrow> P (onclick v e (case p of None \<Rightarrow> None | Some j \<Rightarrow> find_element s j) s)"
  using element_P find_in_doc by (auto simp: onclick_def split: option.split)

lemma blur_P: "P s \<Longrightarrow> P (blur_event v i s)"
proof -
  have "P s \<Longrightarrow> P (fold (\<lambda>(kind, target, e) s. if target = i then on_element (revalidate v) e s else s) hs s)" for hs s
    by (induction hs arbitrary: s) (auto simp: on_revalidate_P)
  then show "P s \<Longrightarrow> P (blur_event v i s)" unfolding blur_event_def .
qed

lemma reset_P: "P s \<Longrightarrow> P (snd (resetForm v s))"
proof -
  assume p: "P s"
  let ?s = "hideErrors (prepareForm (s\<lparr>invalid := [], submitted := []\<rparr>))"
  obtain r t where e: "elements v ?s = (r, t)" by fastforce
  have "net t = net s" using net_elements [of v ?s] e by (simp add: net_keeps)
  then have "net (snd (resetForm v s)) = net s"
    using e by (cases r) (simp_all add: resetForm_def Let_def net_keeps)
  with p net_only show ?thesis by blast
qed

lemma dispatch_P:
  assumes "P s"
  shows "P (dispatch v ev s)"
proof (cases ev)
  case (EvSubmitClick n c f)
  have "P (s\<lparr>submitButton := Some n\<rparr>)" using assms by (rule net_only) (simp add: net_keeps)
  with EvSubmitClick flags show ?thesis by (simp add: submit_click_def Let_def)
next
  case (EvFocusOut i)
  then show ?thesis using assms element_P by (auto simp: onfocusout_def intro!: delegate_P)
next
  case (EvKeyUp i k)
  then show ?thesis using assms element_P by (auto simp: onkeyup_def intro!: delegate_P)
next
  case EvValidate
  then show ?thesis using form_good [of s v] assms by (simp add: good_def)
qed (use assms submit_P edited onfocusin_P onclick_P blur_P answer_P lost reset_P on_revalidate_P in
    \<open>auto intro!: delegate_P\<close>)

theorem reachable_P: "reachable v s \<Longrightarrow> P s"
  by (induction rule: reachable.induct) (simp_all add: begins dispatch_P)

end

section \<open>The bookkeeping of requests\<close>

definition request_ok :: "vstate \<Rightarrow> string \<times> request \<Rightarrow> bool" where
  "request_ok s pq \<longleftrightarrow> (\<exists>e \<in> set (doc s). eid e = req_element (snd pq) \<and>
     fst pq = ''validate'' @ fname e \<and> fname e \<in> set (pending s))"

definition requests_ok :: "vstate \<Rightarrow> bool" where
  "requests_ok s \<longleftrightarrow> pendingRequest s = int (length (pending s)) \<and> distinct (pending s) \<and>
     distinct (map fst (requests s)) \<and> (\<forall>pq \<in> set (requests s). request_ok s pq) \<and> distinct (map eid (doc s))"

lemma requests_ok_net: "requests_ok s \<Longrightarrow> net t = net s \<Longrightarrow> requests_ok t"
  by (simp add: requests_ok_def request_ok_def net_def)

lemma requests_ok_send:
  assumes "requests_ok s" "e \<in> set (doc s)"
  shows "requests_ok (send_request e m val orig (startRequest e s))"
proof -
  let ?t = "startRequest e s"
  have t: "doc ?t = doc s" "requests ?t = requests s" "set (pending ?t) = insert (fname e) (set (pending s))"
    "distinct (pending ?t)" "pendingRequest ?t = int (length (pending ?t))"
    using assms(1) by (auto simp: startRequest_def addClass_def requests_ok_def)
  let ?u = "send_request e m val orig ?t"
  have u: "doc ?u = doc s" "pending ?u = pending ?t" "pendingRequest ?u = pendingRequest ?t"
    "map fst (requests ?u) = map fst (filter (\<lambda>p. fst p \<noteq> ''validate'' @ fname e) (requests s)) @ [''validate'' @ fname e]"
    using t(1,2) by (simp_all add: send_request_def Let_def)
  have req: "request_ok ?u pq" if "pq \<in> set (requests ?u)" for pq
  proof (cases "pq \<in> set (requests s)")
    case True
    then have "request_ok s pq" using assms(1) by (simp add: requests_ok_def)
    then show ?thesis unfolding request_ok_def u t(3) by blast
  next
    case False
    then have "fst pq = ''validate'' @ fname e" "req_element (snd pq) = eid e"
      using that t(2) by (auto simp: send_request_def Let_def)
    then show ?thesis unfolding request_ok_def u t(3) using assms(2) by force
  qed
  have "distinct (map fst (filter (\<lambda>p. fst p \<noteq> ''validate'' @ fname e) (requests s)))"
    using assms(1) by (simp add: requests_ok_def distinct_map_filter)
  then have "distinct (map fst (requests ?u))" unfolding u by auto
  then show ?thesis
    using assms(1) t(4,5) req unfolding requests_ok_def u by simp
qed

lemma distinct_filter_fst: "distinct (map fst xs) \<Longrightarrow> distinct (map fst (filter p xs))"
  by (rule distinct_map_filter)

lemma requests_ok_end:
  assumes ok: "requests_ok s" and q: "(port, q) \<in> set (requests s)" "find_element s (req_element q) = Some e"
    and t: "net t = net (drop_request (req_id q) s)"
  shows "requests_ok (endRequest e t)"
proof -
  have td: "doc t = doc s" "pending t = pending s" "pendingRequest t = pendingRequest s"
    "requests t = filter (\<lambda>p. req_id (snd p) \<noteq> req_id q) (requests s)"
    using t by (simp_all add: net_def drop_request_def)
  have e: "e \<in> set (doc s)" "eid e = req_element q" using q(2) by (auto simp: find_element_def find_Some_iff)
  obtain f where f: "f \<in> set (doc s)" "eid f = req_element q" "port = ''validate'' @ fname f" "fname f \<in> set (pending s)"
    using ok q(1) by (auto simp: requests_ok_def request_ok_def)
  have "f = e" using ok e f(1,2) by (auto simp: requests_ok_def distinct_map inj_on_def)
  with f have port: "port = ''validate'' @ fname e" "fname e \<in> set (pending s)" by auto
  have others: "request_ok (endRequest e t) pq" if "pq \<in> set (requests t)" for pq
  proof -
    have pq: "pq \<in> set (requests s)" "pq \<noteq> (port, q)" using that td by auto
    then have "fst pq \<noteq> port"
      using ok q(1) by (metis distinct_map fst_conv inj_on_def requests_ok_def)
    moreover obtain g where "g \<in> set (doc s)" "eid g = req_element (snd pq)" "fst pq = ''validate'' @ fname g" "fname g \<in> set (pending s)"
      using ok pq(1) by (auto simp: requests_ok_def request_ok_def)
    ultimately show ?thesis
      using port td by (auto simp: request_ok_def endRequest_def removeClass_def Let_def)
  qed
  have "distinct (pending s)" "pendingRequest s = int (length (pending s))" using ok by (auto simp: requests_ok_def)
  moreover have "filter (\<lambda>k. k \<noteq> fname e) (pending s) = remove1 (fname e) (pending s)"
    using calculation(1) by (simp add: distinct_remove1_removeAll removeAll_filter_not_eq neq_commute)
  then have "length (filter (\<lambda>k. k \<noteq> fname e) (pending s)) = length (pending s) - 1"
    using port(2) by (simp add: length_remove1)
  moreover have "int (length (pending s) - 1) = int (length (pending s)) - 1"
    using port(2) by (cases "pending s") auto
  moreover have "distinct (map fst (requests t))" using ok td by (simp add: requests_ok_def distinct_filter_fst)
  ultimately show ?thesis
    using ok others td by (auto simp: requests_ok_def endRequest_def removeClass_def Let_def)
qed

lemma edit_keeps: "eid (edit_element c e) = eid e" "fname (edit_element c e) = fname e"
  by (simp_all add: edit_element_def)

lemma requests_ok_edit: "requests_ok s \<Longrightarrow> requests_ok (edit i c s)"
proof -
  assume ok: "requests_ok s"
  let ?f = "\<lambda>e. if eid e = i then edit_element c e else e"
  have same: "eid (?f e) = eid e" "fname (?f e) = fname e" for e by (simp_all add: edit_keeps)
  have "request_ok (edit i c s) pq" if pq: "request_ok s pq" for pq
  proof -
    obtain e where e: "e \<in> set (doc s)" "eid e = req_element (snd pq)" "fst pq = ''validate'' @ fname e"
      "fname e \<in> set (pending s)" using pq by (auto simp: request_ok_def)
    have "?f e \<in> set (doc (edit i c s))" unfolding edit_def using e(1) by simp
    moreover have "pending (edit i c s) = pending s" by (simp add: edit_def)
    ultimately show ?thesis unfolding request_ok_def using e(2-4) same [of e] by (intro bexI [of _ "?f e"]) simp_all
  qed
  moreover have "map eid (doc (edit i c s)) = map eid (doc s)"
    unfolding edit_def using same by simp
  moreover have "pendingRequest (edit i c s) = pendingRequest s" "pending (edit i c s) = pending s"
    "requests (edit i c s) = requests s" by (simp_all add: edit_def)
  ultimately show ?thesis using ok unfolding requests_ok_def by metis
qed

interpretation requests: stable_run requests_ok
proof
  fix s t :: vstate and e m val orig b x i c port q
  show "requests_ok s \<Longrightarrow> net t = net s \<Longrightarrow> requests_ok t" by (rule requests_ok_net)
  show "requests_ok s \<Longrightarrow> e \<in> set (doc s) \<Longrightarrow> requests_ok (send_request e m val orig (startRequest e s))"
    by (rule requests_ok_send)
  show "requests_ok s \<Longrightarrow> requests_ok (s\<lparr>formSubmitted := b\<rparr>)" "requests_ok s \<Longrightarrow> requests_ok (s\<lparr>cancelSubmit := b\<rparr>)"
    "requests_ok s \<Longrightarrow> requests_ok (log_effect x s)"
    by (simp_all add: requests_ok_def request_ok_def log_effect_def)
  show "requests_ok s \<Longrightarrow> requests_ok (edit i c s)"
    by (rule requests_ok_edit)
  show "requests_ok s \<Longrightarrow> requests_ok (drop_request i s)"
    by (auto simp: requests_ok_def request_ok_def drop_request_def distinct_filter_fst)
  show "requests_ok s \<Longrightarrow> (port, q) \<in> set (requests s) \<Longrightarrow> find_element s (req_element q) = Some e \<Longrightarrow>
      net t = net (drop_request (req_id q) s) \<Longrightarrow> requests_ok (endRequest e t)"
    by (rule requests_ok_end)
  show "initial s \<Longrightarrow> requests_ok s"
    by (auto simp: initial_def init_def reset_def resetInternals_def requests_ok_def Let_def)
qed

text \<open>Validation itself neither submits nor ends a request nor changes the flags of a submit.\<close>

interpretation submits: stable "\<lambda>s. submits s = k \<and> formSubmitted s = b \<and> cancelSubmit s = c \<and> n \<le> pendingRequest s" for k b c n
  by unfold_locales (auto simp: net_def submits_def send_request_def startRequest_def addClass_def Let_def)

end
