(* ===== verification/Validate_Proofs.thy ===== *)
theory Validate_Proofs
  imports Validate_Invariants
begin

text \<open>
  What the rules, the checks and the remote method of the validator do: which source of a rule wins, in
  which order rules are asked, when a form is valid, and what a cached remote answer is.
\<close>

section \<open>Sources of rules\<close>

definition first_value :: "jsv option list \<Rightarrow> jsv option" where
  "first_value vs = (case filter (\<lambda>v. v \<noteq> None \<and> \<not> is_undef (the v)) vs of [] \<Rightarrow> None | v # _ \<Rightarrow> v)"

lemma first_value_simps [simp]:
  "first_value [] = None" "first_value (None # vs) = first_value vs"
  "first_value (Some v # vs) = (if is_undef v then first_value vs else Some v)"
  by (auto simp: first_value_def)

lemma obj_ok_fold: "(\<And>x ob. obj_ok ob \<Longrightarrow> obj_ok (f x ob)) \<Longrightarrow> obj_ok ob \<Longrightarrow> obj_ok (fold f xs ob)"
  by (induction xs arbitrary: ob) auto

lemma obj_ok_classRules: "obj_ok (classRules st e)"
  by (auto simp: classRules_def split: option.split intro!: obj_ok_fold)

lemma obj_ok_normalizeAttributeRule: "obj_ok rs \<Longrightarrow> obj_ok (normalizeAttributeRule rs t m v)"
  by (simp add: normalizeAttributeRule_def Let_def)

lemma obj_ok_attributeRules: "obj_ok (attributeRules ms e)"
  by (auto simp: attributeRules_def Let_def intro!: obj_ok_odel obj_ok_fold obj_ok_normalizeAttributeRule)

lemma obj_ok_dataRules: "obj_ok (dataRules ms e)"
  by (auto simp: dataRules_def Let_def intro!: obj_ok_fold obj_ok_normalizeAttributeRule)

lemma merged_rules_get:
  assumes "obj_ok (staticRules sr e)"
  shows "oget (merged_rules cfg sr e) k = first_value
    [oget (staticRules sr e) k, oget (dataRules (method_names cfg) e) k,
     oget (attributeRules (method_names cfg) e) k, oget (classRules (class_rules cfg) e) k]"
  unfolding merged_rules_def
  by (simp add: oget_js_extend assms obj_ok_classRules obj_ok_attributeRules obj_ok_dataRules split: option.split)

section \<open>Order of rules\<close>

lemma oset_new: "k \<notin> set (okeys ob) \<Longrightarrow> oset ob k v = ob @ [(k, v)]"
  by (induction ob k v rule: oset.induct) (auto simp: okeys_def)

lemma oset_hd: "ob \<noteq> [] \<Longrightarrow> fst (hd (oset ob k v)) = fst (hd ob) \<and> oset ob k v \<noteq> []"
  by (cases "(ob, k, v)" rule: oset.cases) auto

lemma js_extend_hd: "ob \<noteq> [] \<Longrightarrow> fst (hd (js_extend ob b)) = fst (hd ob) \<and> js_extend ob b \<noteq> []"
  unfolding js_extend_def
  by (induction b arbitrary: ob) (auto simp: oset_hd split: prod.split)

lemma required_first_hd:
  "oget rs ''required'' = Some p \<Longrightarrow> truthy_v p \<Longrightarrow> fst (hd (required_first rs)) = ''required'' \<and> required_first rs \<noteq> []"
  unfolding required_first_def using js_extend_hd [of "[(''required'', p)]" "odel rs ''required''"] by simp

lemma odel_other_hd: "ob \<noteq> [] \<Longrightarrow> fst (hd ob) \<noteq> k \<Longrightarrow> fst (hd (odel ob k)) = fst (hd ob) \<and> odel ob k \<noteq> []"
  by (cases ob) (auto simp: odel_def)

lemma remote_last_hd:
  assumes "ob \<noteq> []" "fst (hd ob) = ''required''"
  shows "fst (hd (remote_last ob)) = ''required''"
  using odel_other_hd [OF assms(1), of "''remote''"] js_extend_hd [of "odel ob ''remote''"] assms
  by (auto simp: remote_last_def split: option.split)

lemma remote_last_last:
  assumes "oget ob ''remote'' = Some p" "truthy_v p"
  shows "fst (last (remote_last ob)) = ''remote'' \<and> remote_last ob \<noteq> []"
proof -
  have "''remote'' \<notin> set (okeys (odel ob ''remote''))" by (auto simp: okeys_def odel_def)
  moreover have "\<not> is_undef p" using assms(2) by (cases p) (auto simp: is_undef_def)
  ultimately have "remote_last ob = odel ob ''remote'' @ [(''remote'', p)]"
    using assms by (simp add: remote_last_def js_extend_def oset_new)
  then show ?thesis by simp
qed

lemma obj_ok_map: "(\<And>kv. fst (f kv) = fst kv) \<Longrightarrow> obj_ok ob \<Longrightarrow> obj_ok (map f ob)"
  by (simp add: obj_ok_def okeys_def comp_def)

lemma required_first_get:
  "obj_ok rs \<Longrightarrow> oget (required_first rs) k = oget rs k \<or> oget rs k = Some JUndef"
proof (cases "oget rs ''required''")
  case (Some p)
  assume ok: "obj_ok rs"
  show ?thesis
  proof (cases "truthy_v p")
    case True
    have "is_undef v \<longleftrightarrow> v = JUndef" for v by (cases v) (auto simp: is_undef_def)
    with True Some ok show ?thesis
      by (auto simp: required_first_def oget_js_extend split: option.split)
  qed (use Some in \<open>simp add: required_first_def\<close>)
qed (simp add: required_first_def)

section \<open>Checks\<close>

text \<open>The results of the checks of a form, in order.\<close>

fun check_trace :: "env \<Rightarrow> element list \<Rightarrow> vstate \<Rightarrow> check_result list" where
  "check_trace v [] s = []"
| "check_trace v (e # es) s = (case check v e s of (r, t) \<Rightarrow> r # check_trace v es t)"

text \<open>Errors are added by failing rules only; \<open>remote\<close> and the pure methods leave the error list alone.\<close>

definition errs :: "vstate \<Rightarrow> form_error list" where
  "errs s = errorList s"

lemma errs_updates [simp]:
  "errs (addClass is c s) = errs s" "errs (removeClass is c s) = errs s" "errs (set_previous i p s) = errs s"
  "errs (set_message n k m s) = errs s" "errs (ensure_messages n s) = errs s"
  "errs (startRequest e s) = errs s" "errs (send_request e mt val orig s) = errs s"
  "errs (bind_blur kd e t s) = errs s" "errs (s\<lparr>toHide := ns\<rparr>) = errs s" "errs (s\<lparr>successList := is\<rparr>) = errs s"
  "errs (s\<lparr>currentElements := is\<rparr>) = errs s"
  by (auto simp: errs_def addClass_def removeClass_def set_previous_def set_message_def ensure_messages_def
      startRequest_def send_request_def bind_blur_def Let_def split: option.split field_messages.split)

lemma errs_fold: "(\<And>x s. errs (f x s) = errs s) \<Longrightarrow> errs (fold f xs s) = errs s"
  by (induction xs arbitrary: s) simp_all

lemma errs_fold_eq: "(\<And>x s. errs (f x s) = errs s) \<Longrightarrow> errs s = n \<Longrightarrow> errs (fold f xs s) = n"
  by (simp add: errs_fold)

lemma errs_resetElements [simp]: "errs (resetElements es s) = errs s"
  unfolding resetElements_def by (intro errs_fold) (auto simp: unhighlight_def Let_def)

lemma errs_get_rules: "get_rules v s e = Some (rs, t) \<Longrightarrow> errs t = errs s"
  by (auto simp: get_rules_def split: option.splits if_splits)

lemma errs_remote: "remote v s val e param = (r, t) \<Longrightarrow> errs t = errs s"
  by (auto simp: remote_def previousValue_def Let_def split: option.splits if_splits)

lemma errs_comparison: "comparison m = Some f \<Longrightarrow> f v s val e param = (r, t) \<Longrightarrow> errs t = errs s"
  using comparison_cases [of m f]
  by (auto simp: compare_with_def notEqualTo_def equalTo_def Let_def split: if_splits prod.splits)

lemma errs_call: "call_method v s m val e param = (r, t) \<Longrightarrow> errs t = errs s"
  by (auto simp: call_method_def equalTo_def Let_def dest: errs_remote errs_comparison split: if_splits option.splits)

lemma check_loop_errs:
  "check_loop v s e val n rs b = (r, t) \<Longrightarrow> r \<noteq> LThrow \<Longrightarrow>
     (if r = LFail then (\<exists>x. errs t = errs s @ [x] \<and> err_element x = eid e) else errs t = errs s)"
proof (induction rs arbitrary: s b)
  case (Cons p rs)
  obtain m param where p: "p = (m, param)" by fastforce
  obtain res u where c: "call_method v s m val e param = (res, u)" by fastforce
  have u: "errs u = errs s" using errs_call [OF c] .
  consider "res = RThrow" | "res \<noteq> RThrow" "res = RMismatch" "n = 1" | "res = RPending"
    | "res \<noteq> RThrow" "\<not> truthy res" | "res \<noteq> RThrow" "\<not> (res = RMismatch \<and> n = 1)" "res \<noteq> RPending" "truthy res"
    by auto
  then show ?case
  proof cases
    case 1
    with Cons.prems p c show ?thesis by auto
  next
    case 2
    with Cons.prems p c have "check_loop v u e val n rs True = (r, t)" by simp
    from Cons.IH [OF this Cons.prems(2)] u show ?thesis by auto
  next
    case 3
    with Cons.prems p c u show ?thesis by auto
  next
    case 4
    then have "res \<noteq> RMismatch" "res \<noteq> RPending" by auto
    with 4 Cons.prems p c obtain w where w: "formatAndAdd v u e m param = Some w" "r = LFail" "t = w"
      by (auto split: option.splits)
    then show ?thesis using u by (auto simp: formatAndAdd_def errs_def split: option.splits)
  next
    case 5
    with Cons.prems p c have "check_loop v u e val n rs False = (r, t)" by auto
    from Cons.IH [OF this Cons.prems(2)] u show ?thesis by auto
  qed
qed auto

lemma check_errs:
  assumes "check v e s = (r, t)" "r \<noteq> CThrow"
  shows "if r = CFalse then (\<exists>x. errs t = errs s @ [x]) else errs t = errs s"
proof -
  from assms obtain f where f: "validationTargetFor s e = Some f" by (cases "validationTargetFor s e") (auto simp: check_def)
  with assms obtain rs u where g: "get_rules v s f = Some (rs, u)" by (cases "get_rules v s f") (auto simp: check_def)
  obtain val rs' where n: "apply_normalizer u f rs (elementValue u f) = (val, rs')" by fastforce
  obtain l w where l: "check_loop v u f val (length rs) rs' False = (l, w)" by fastforce
  have "l \<noteq> LThrow" using assms f g n l by (auto simp: check_def)
  from check_loop_errs [OF l this] errs_get_rules [OF g] show ?thesis
    using assms f g n l by (auto simp: check_def split: loop_result.splits if_splits)
qed

lemma check_all_errs:
  "check_all v es s = (True, t) \<Longrightarrow>
     length (errs t) = length (errs s) + count_list (check_trace v es s) CFalse \<and> CThrow \<notin> set (check_trace v es s)"
proof (induction es arbitrary: s)
  case (Cons e es)
  obtain r u where c: "check v e s = (r, u)" by fastforce
  with Cons.prems have r: "r \<noteq> CThrow" "check_all v es u = (True, t)" by (cases r; simp)+
  from Cons.IH [OF r(2)] check_errs [OF c r(1)] c r(1) show ?case by (auto split: if_splits)
qed simp

lemma errs_showErrors_None: "errs (showErrors v None s) = errs s"
proof -
  have lab: "errs (snd (create_label v s e m)) = errs s" for s e m
    by (auto simp: create_label_def describe_def Let_def errs_def split: option.split prod.split
        intro!: errs_fold_eq [unfolded errs_def])
  have lbl: "errs (showLabel v e m s) = errs s" for e m s
    using lab [of s e m]
    by (auto simp: showLabel_def Let_def mark_success_def refresh_labels_def errs_def
        split: list.split prod.split option.split)
  have hl: "errs (highlight e s) = errs s" "errs (unhighlight c e s) = errs s" for e c s
    by (simp_all add: highlight_def unhighlight_def Let_def)
  have on: "(\<And>e s. errs (f e s) = errs s) \<Longrightarrow> errs (on_element f i s) = errs s" for f i s
    by (simp add: on_element_def split: option.split)
  have f1: "errs (fold (\<lambda>x s. on_element (\<lambda>e s. showLabel v e (Some (err_message x)) (highlight e s)) (err_element x) s) xs s)
      = errs s" for xs :: "form_error list" and s
    by (intro errs_fold on) (simp add: lbl hl)
  have f2: "errs (fold (\<lambda>i s. on_element (\<lambda>e s. showLabel v e None s) i s) xs s) = errs s" for xs s
    by (intro errs_fold on) (simp add: lbl)
  have f3: "errs (fold (\<lambda>i s. on_element (unhighlight (validClass (settings s))) i s) xs s) = errs s" for xs s
    by (intro errs_fold on) (simp add: hl)
  have rest: "errs (s\<lparr>toShow := ns\<rparr>) = errs s" "errs (hideErrors s) = errs s" "errs (show_nodes ns s) = errs s"
    "errs (log_effect x s) = errs s" for s ns x
    by (simp_all add: errs_def hideErrors_def hideThese_def set_label_html_def show_nodes_def log_effect_def Let_def)
  show ?thesis
    by (simp add: showErrors_def defaultShowErrors_def Let_def f1 f2 f3 rest)
qed

lemma errs_prepare: "errs (prepareForm s) = []"
  by (simp add: errs_def prepareForm_def reset_def resetInternals_def Let_def)

lemma errs_select: "errs (snd (select_elements v es c s)) = errs s"
proof (induction v es c s rule: select_elements.induct)
  case (2 v e es c s)
  then show ?case
    using errs_get_rules [of v s e] by (auto split: option.split prod.split)
qed simp

lemma form_results:
  assumes "elements v (prepareForm s) = (Some es, u)" "form v s = (Some b, t)"
  shows "size_of t = count_list (check_trace v es (u\<lparr>currentElements := map eid es\<rparr>)) CFalse \<and> b = valid t"
proof -
  let ?u = "u\<lparr>currentElements := map eid es\<rparr>"
  have u: "errs ?u = []"
    using errs_select assms(1) errs_prepare [of s] unfolding elements_def by (metis errs_updates(11) snd_conv)
  obtain fine w where w: "check_all v es ?u = (fine, w)" by fastforce
  with assms have fine: "fine = True" by (cases fine) (auto simp: form_def checkForm_def)
  have len: "length (errs w) = count_list (check_trace v es ?u) CFalse"
    using check_all_errs [of v es ?u w] w fine u by simp
  have "t = showErrors v None (let s = w\<lparr>submitted := fold (\<lambda>(k, m) ob. oset ob k m) (errorMap w) (submitted w)\<rparr>;
      s = s\<lparr>invalid := map (\<lambda>(k, m). (k, IMsg m)) (errorMap s)\<rparr> in if valid s then s else log_effect InvalidForm s)"
    using assms w fine by (simp add: form_def checkForm_def Let_def)
  then have "errs t = errs w"
    by (simp add: errs_showErrors_None Let_def) (simp add: errs_def log_effect_def)
  then show ?thesis using len assms w fine
    by (auto simp: size_of_def errs_def form_def checkForm_def Let_def)
qed

section \<open>The remote method\<close>

lemma own_message_cong: "doc t = doc s \<Longrightarrow> elementValue t e = elementValue s e"
  by (simp add: elementValue_def findByName_def)

lemma optional_cong: "doc t = doc s \<Longrightarrow> optional sel t e = optional sel s e"
  by (simp add: optional_def required_def depend_def getLength_def elementValue_def findByName_def)

lemma doc_remote: "doc (snd (remote v s val e param)) = doc s"
  by (auto simp: remote_def previousValue_def send_request_def startRequest_def addClass_def set_previous_def
      set_message_def ensure_messages_def Let_def split: option.split field_messages.split)

lemma remote_repeat:
  assumes "\<not> optional (selects (config v)) s e" and "oget (previous s) (eid e) = None"
    and "remote v s val e param = (RPending, t)"
  shows "fst (remote v t val e param) = RBool True \<and> requests (snd (remote v t val e param)) = requests t"
proof -
  obtain p s0 where p: "previousValue v s e ''remote'' = Some (p, s0)" and pv: "prev_valid p" "old p = None"
    using assms by (auto simp: remote_def previousValue_def Let_def split: option.splits if_splits)
  define q where "q = p\<lparr>originalMessage := message_or (originalMessage p)
      (own_message (ensure_messages (fname e) s0) (fname e) ''remote''), old := Some (query_param v val param)\<rparr>"
  have q: "prev_valid q" "old q = Some (query_param v val param)"
    "t = send_request e ''remote'' val (originalMessage q) (startRequest e (set_previous (eid e) q
      (set_message (fname e) ''remote'' (Some (MText (prev_message p))) (ensure_messages (fname e) s0))))"
    using assms(1,3) p pv by (auto simp: q_def remote_def Let_def split: if_splits)
  have tq: "oget (previous t) (eid e) = Some q"
    using q(3) by (simp add: send_request_def startRequest_def set_previous_def addClass_def Let_def)
  have "doc t = doc s" using doc_remote assms(3) by (metis snd_conv)
  then have "\<not> optional (selects (config v)) t e" using assms(1) optional_cong by blast
  then show ?thesis
    using tq q(1,2) by (auto simp: remote_def previousValue_def Let_def set_previous_def set_message_def ensure_messages_def
        split: option.split field_messages.split)
qed

lemma optional_methods:
  assumes "optional (selects (config v)) s e"
    and "method \<in> {''email'', ''url'', ''date'', ''dateISO'', ''number'', ''digits'', ''minlength'', ''maxlength'',
      ''rangelength'', ''min'', ''max'', ''range'', ''step'', ''remote''}"
  shows "fst (call_method v s method value e param) \<in> {RMismatch, RThrow} \<and>
    snd (call_method v s method value e param) = s"
proof -
  have val: "email True a = RMismatch" "url True a = RMismatch" "date d True a = RMismatch" "dateISO True a = RMismatch"
    "number True a = RMismatch" "digits True a = RMismatch" "min_method True a p = RMismatch"
    "max_method True a p = RMismatch" "range_method True a p = RMismatch" for a p d
    by (simp_all add: email_def url_def date_def dateISO_def number_def digits_def min_method_def max_method_def
        range_method_def)
  have len: "minlength True s a e p \<in> {RMismatch, RThrow}" "maxlength True s a e p \<in> {RMismatch, RThrow}"
    "rangelength True s a e p \<in> {RMismatch, RThrow}" "step True a e p \<in> {RMismatch, RThrow}" for a p
    by (auto simp: minlength_def maxlength_def rangelength_def step_def Let_def split: option.split bool.split)
  have rem: "remote v s value e param = (RMismatch, s)" using assms(1) by (simp add: remote_def)
  from assms(2) show ?thesis
    using assms(1) val len rem
    by (elim insertE emptyE; simp only: call_method_def pure_method_def Let_def if_True simp_thms)
      (simp_all add: call_method_def pure_method_def comparison_def)
qed

end
