(* ===== verification/Validate_Demo.thy ===== *)
theory Validate_Demo
  imports Validate_Proofs
begin

text \<open>
  A small page on which the properties of the validator are evaluated: two text fields, \<open>user\<close> with a
  \<open>remote\<close> rule and \<open>age\<close> with the rules \<open>required\<close> and \<open>digits\<close>, and the default settings of the plugin.
\<close>

definition text_field :: "nat \<Rightarrow> string \<Rightarrow> string \<Rightarrow> element" where
  "text_field i name value =
     \<lparr>eid = i, nodeName = ''INPUT'', ftype = ''text'', fname = name, html_id = name, fvalue = VText value,
      checked = False, badInput = None, contenteditable = None, ftext = [], selected = 0, ignored = False,
      button_like = False, own_form = True, inside_form = True, ftitle = [],
      attrs = [(''type'', ''text'')], data = [], classes = None\<rparr>"

definition demo_settings :: settings where
  "demo_settings =
     \<lparr>messages = [], group_spec = [],
      setting_rules = [(''user'', [(''remote'', JStr ''/check'')]),
                       (''age'', [(''digits'', JBool True), (''required'', JBool True)])],
      errorClass = ''error'', pendingClass = ''pending'', validClass = ''valid'', errorElement = ''label'',
      focusCleanup = False, focusInvalid_on = True, onsubmit = True, onfocusout_on = True, ignoreTitle = False,
      debug = False, wrapper = False, success = None, submitHandler = None, custom_showErrors = False,
      normalizer = None\<rparr>"

definition demo_config :: rule_config where
  "demo_config =
     \<lparr>method_names = [''required'', ''digits'', ''remote''], class_rules = classRuleSettings,
      auto_ranges = False, selects = (\<lambda>_. [])\<rparr>"

definition demo_env :: env where
  "demo_env =
     \<lparr>config = demo_config,
      default_messages = [(''required'', MText ''This field is required.''),
        (''remote'', MText ''Please fix this field.''), (''digits'', MText ''Please enter only digits.'')],
      extra_methods = (\<lambda>_. None), date_ok = (\<lambda>_. True), enclosing_label = (\<lambda>_. None), additional = False,
      query_param = (\<lambda>value param. ''data='' @ to_text value)\<rparr>"

definition demo_page :: vstate where
  "demo_page =
     init \<lparr>settings = demo_settings, doc = [text_field 1 ''user'' ''ann'', text_field 2 ''age'' ''7''],
      submitted = [], invalid = [], pendingRequest = 0, pending = [], groups = [], errorList = [], errorMap = [],
      successList = [], currentElements = [], toShow = [], toHide = [], containers = [], formSubmitted = False,
      cancelSubmit = False, submitButton = None, lastActive = None, labels = [], hidden = [],
      element_classes = [], describedby = [], aria_invalid = [], previous = [],
      requests = [], next_id = 1, blur_handlers = [], effects = []\<rparr>"

definition typed :: "string \<Rightarrow> change" where
  "typed t = \<lparr>new_value = VText t, new_checked = False, new_text = [], new_selected = 0\<rparr>"

definition run_events :: "event list \<Rightarrow> vstate" where
  "run_events evs = fold (dispatch demo_env) evs demo_page"

lemma demo_initial: "initial demo_page"
  unfolding demo_page_def initial_def by (intro exI conjI, rule refl) (simp_all add: text_field_def)

lemma demo_reachable: "reachable demo_env (run_events evs)"
proof -
  have "reachable demo_env s \<Longrightarrow> reachable demo_env (fold (dispatch demo_env) evs s)" for s
    by (induction evs arbitrary: s) (simp_all add: reachable.step)
  then show ?thesis unfolding run_events_def using reachable.start [OF demo_initial] by blast
qed

end
