(* ===== verification/Validate_Properties.thy ===== *)
theory Validate_Properties
  imports Validate_Demo
begin

text \<open>
  The properties of the validator of \<open>jquery.validate.js\<close>: the bookkeeping of remote requests over every
  run, what a submit does, what decides whether a form is valid, where rules come from, and the text
  functions. Each witness evaluates the page of \<open>Validate_Demo\<close> or a concrete input.
\<close>

section \<open>Runs\<close>

text \<open>C3: In every state a page can reach, \<open>pendingRequest\<close> is the number of the pending names, which are
  distinct, and every outstanding request is the only one on its port and belongs to a field whose name is
  pending: aborting a request on its port never lets the counter drift.\<close>

theorem pending_requests_counted:
  assumes "reachable v s"
  shows "pendingRequest s = int (length (pending s)) \<and> distinct (pending s) \<and> distinct (map fst (requests s)) \<and>
    (\<forall>(port, q) \<in> set (requests s). \<exists>e \<in> set (doc s). eid e = req_element q \<and>
       port = ''validate'' @ fname e \<and> fname e \<in> set (pending s))"
  using requests.reachable_P [OF assms] by (force simp: requests_ok_def request_ok_def)

theorem pending_requests_counted_witness:
  "pendingRequest (run_events [EvSubmit]) = 1 \<and> distinct (pending (run_events [EvSubmit]))"
proof -
  have "pendingRequest (run_events [EvSubmit]) = 1" by code_simp
  then show ?thesis using pending_requests_counted [OF demo_reachable, of "[EvSubmit]"] by simp
qed





text \<open>When the last remote answer of a submitted form is positive but the form has become invalid in
  the meantime, the form stays marked as submitted. The next positive answer then submits it although the
  user has not asked for it again.\<close>

theorem submitted_mark_survives_invalid_form:
  assumes "pendingRequest (endRequest e s) = 0" and "formSubmitted s"
    and "form v (endRequest e s) = (Some False, t)"
  shows "formSubmitted (stopRequest v e True s)"
proof -
  have m: "formSubmitted (endRequest e s)" using assms(2) by (simp add: endRequest_def removeClass_def Let_def)
  have "formSubmitted t"
    using submits.form_good [of "submits (endRequest e s)" True "cancelSubmit (endRequest e s)"
        "pendingRequest (endRequest e s)" "endRequest e s" v] m assms(3)
    unfolding submits.good_def by simp
  then show ?thesis using assms m by (simp add: stopRequest_def Let_def)
qed

theorem submitted_mark_survives_invalid_form_witness:
  "formSubmitted (stopRequest demo_env (text_field 1 ''user'' ''ann'') True
     (run_events [EvSubmit, EvEdit 2 (typed '''')])) \<and>
   submits (run_events [EvSubmit, EvEdit 2 (typed ''''), EvAnswer 1 (JBool True), EvEdit 2 (typed ''8''),
     EvEdit 1 (typed ''bob''), EvFocusOut 1, EvAnswer 3 (JBool True)]) = [NativeSubmit]"
proof
  let ?s = "run_events [EvSubmit, EvEdit 2 (typed '''')]" and ?e = "text_field 1 ''user'' ''ann''"
  have p: "pendingRequest (endRequest ?e ?s) = 0" "formSubmitted ?s"
    "fst (form demo_env (endRequest ?e ?s)) = Some False" by code_simp+
  have f: "form demo_env (endRequest ?e ?s) = (Some False, snd (form demo_env (endRequest ?e ?s)))"
    using p(3) by (simp add: prod_eq_iff)
  show "formSubmitted (stopRequest demo_env ?e True ?s)"
    by (rule submitted_mark_survives_invalid_form [OF p(1,2) f])
qed code_simp

section \<open>Forms and elements\<close>

text \<open>C6: A form is valid exactly when none of the checks of its elements, made one after the other, fails,
  and the error list then holds one error for each check that failed.\<close>

theorem form_valid_iff_no_check_fails:
  assumes "elements v (prepareForm s) = (Some es, u)" and "form v s = (Some b, t)"
  shows "(b \<longleftrightarrow> CFalse \<notin> set (check_trace v es (u\<lparr>currentElements := map eid es\<rparr>))) \<and>
    size_of t = count_list (check_trace v es (u\<lparr>currentElements := map eid es\<rparr>)) CFalse"
  using form_results [OF assms] by (auto simp: valid_def count_list_0_iff)

theorem form_valid_iff_no_check_fails_witness:
  "size_of (snd (form demo_env (run_events [EvEdit 2 (typed ''x'')]))) = 1"
proof -
  let ?s = "run_events [EvEdit 2 (typed ''x'')]"
  let ?u = "snd (elements demo_env (prepareForm ?s))" and ?es = "the (fst (elements demo_env (prepareForm ?s)))"
  have e: "\<not> Option.is_none (fst (elements demo_env (prepareForm ?s)))" and f: "fst (form demo_env ?s) = Some False"
    and c: "count_list (check_trace demo_env ?es (?u\<lparr>currentElements := map eid ?es\<rparr>)) CFalse = 1" by code_simp+
  have "elements demo_env (prepareForm ?s) = (Some ?es, ?u)"
    using e by (simp add: prod_eq_iff Option.is_none_def)
  moreover have "form demo_env ?s = (Some False, snd (form demo_env ?s))" using f by (simp add: prod_eq_iff)
  ultimately show ?thesis using form_valid_iff_no_check_fails c by metis
qed

text \<open>C7: A rule of a field is the one of the settings if they have one, else the one of its data
  attributes, else the one of its attributes, else the one of its classes; undefined values count as absent.\<close>

theorem rules_precedence:
  assumes "obj_ok (staticRules sr e)"
  shows "oget (merged_rules cfg sr e) k = first_value
    [oget (staticRules sr e) k, oget (dataRules (method_names cfg) e) k,
     oget (attributeRules (method_names cfg) e) k, oget (classRules (class_rules cfg) e) k]"
  using assms by (rule merged_rules_get)

theorem rules_precedence_witness:
  "oget (merged_rules demo_config [] (text_field 1 ''user'' ''ann'' \<lparr>attrs := [(''required'', [])],
     data := [(''ruleRequired'', JStr ''#other'')]\<rparr>)) ''required'' = Some (JStr ''#other'')"
proof -
  let ?e = "text_field 1 ''user'' ''ann'' \<lparr>attrs := [(''required'', [])], data := [(''ruleRequired'', JStr ''#other'')]\<rparr>"
  have "obj_ok (staticRules [] ?e)" by (simp add: staticRules_def)
  moreover have "case oget (dataRules (method_names demo_config) ?e) ''required'' of
      Some (JStr t) \<Rightarrow> t = ''#other'' | _ \<Rightarrow> False" by code_simp
  then have "oget (dataRules (method_names demo_config) ?e) ''required'' = Some (JStr ''#other'')"
    by (auto split: option.splits jsv.splits)
  ultimately show ?thesis
    using rules_precedence [of "[]" ?e demo_config "''required''"] by (simp add: staticRules_def is_undef_def)
qed

text \<open>In the rules of an element a truthy \<open>required\<close> comes first and a truthy \<open>remote\<close> last, whatever
  source they come from, so a request is sent only after every other rule has passed.\<close>

theorem required_first_remote_last:
  assumes "obj_ok rs"
  shows "(oget rs ''required'' = Some p \<and> truthy_v p \<longrightarrow> fst (hd (remote_last (required_first rs))) = ''required'') \<and>
    (oget rs ''remote'' = Some q \<and> truthy_v q \<longrightarrow> fst (last (remote_last (required_first rs))) = ''remote'')"
proof (intro conjI impI; elim conjE)
  assume "oget rs ''required'' = Some p" "truthy_v p"
  from required_first_hd [OF this] show "fst (hd (remote_last (required_first rs))) = ''required''"
    using remote_last_hd by blast
next
  assume q: "oget rs ''remote'' = Some q" "truthy_v q"
  then have "q \<noteq> JUndef" by auto
  then have "oget (required_first rs) ''remote'' = Some q"
    using required_first_get [OF assms, of "''remote''"] q by auto
  from remote_last_last [OF this q(2)] show "fst (last (remote_last (required_first rs))) = ''remote''" by blast
qed

theorem required_first_remote_last_witness:
  "fst (hd (remote_last (required_first [(''remote'', JStr ''/check''), (''digits'', JBool True), (''required'', JBool True)])))
     = ''required''"
  using required_first_remote_last [of "[(''remote'', JStr ''/check''), (''digits'', JBool True), (''required'', JBool True)]"
      "JBool True" "JStr ''/check''"]
  by (simp add: obj_ok_def okeys_def)

section \<open>The remote method\<close>

text \<open>While the first request about a value is outstanding, asking again about the same value sends
  nothing and reports the field as valid, before any answer has come.\<close>

theorem remote_valid_while_pending:
  assumes "\<not> optional (selects (config v)) s e" and "oget (previous s) (eid e) = None"
    and "remote v s val e param = (RPending, t)"
  shows "fst (remote v t val e param) = RBool True \<and> requests (snd (remote v t val e param)) = requests t"
  using assms by (rule remote_repeat)

theorem remote_valid_while_pending_witness:
  "fst (remote demo_env (snd (remote demo_env (run_events []) (JStr ''ann'') (text_field 1 ''user'' ''ann'') (JStr ''/check'')))
     (JStr ''ann'') (text_field 1 ''user'' ''ann'') (JStr ''/check'')) = RBool True"
proof -
  let ?e = "text_field 1 ''user'' ''ann''" and ?s = "run_events []"
  let ?r = "remote demo_env ?s (JStr ''ann'') ?e (JStr ''/check'')"
  have p: "\<not> optional (selects (config demo_env)) ?s ?e" "Option.is_none (oget (previous ?s) (eid ?e))"
    "fst ?r = RPending" by code_simp+
  then have n: "oget (previous ?s) (eid ?e) = None" by (cases "oget (previous ?s) (eid ?e)") auto
  have "?r = (RPending, snd ?r)" using p(3) by (simp add: prod_eq_iff)
  from remote_valid_while_pending [OF p(1) n this] show ?thesis by blast
qed

text \<open>A field without a value fails none of the methods that look at its value: each of them, and
  \<open>remote\<close>, reports a dependency mismatch (or throws) and leaves the state as it is.\<close>

theorem empty_field_passes_value_methods:
  assumes "optional (selects (config v)) s e"
    and "method \<in> {''email'', ''url'', ''date'', ''dateISO'', ''number'', ''digits'', ''minlength'', ''maxlength'',
      ''rangelength'', ''min'', ''max'', ''range'', ''step'', ''remote''}"
  shows "fst (call_method v s method value e param) \<in> {RMismatch, RThrow} \<and>
    snd (call_method v s method value e param) = s"
  using assms by (rule optional_methods)

theorem empty_field_passes_value_methods_witness:
  "fst (call_method demo_env demo_page ''email'' (JStr []) (text_field 1 ''user'' []) (JBool True)) \<in> {RMismatch, RThrow}"
proof -
  have "optional (selects (config demo_env)) demo_page (text_field 1 ''user'' [])" by code_simp
  from empty_field_passes_value_methods [OF this, of "''email''" "JStr []" "JBool True"] show ?thesis by simp
qed

section \<open>Texts and numbers\<close>

text \<open>C8: \<open>$.validator.format\<close> replaces the placeholders one after the other, and the result is that of
  filling all holes of the template at once, holes without a parameter left as they are, as long as no
  literal part and no parameter contains an opening brace.\<close>

theorem format_fills_template:
  assumes "list_all plain_piece ps" and "list_all (\<lambda>v. no_braces (to_text v)) vs"
  shows "format (template ps) [JArr vs] = Some (concat (map (filled_piece vs) ps))"
  using assms by (rule format_template)

theorem format_fills_template_witness:
  "format ''between {0} and {1}'' [JArr [JStr ''a'', JNum (Some (Dec 25 1))]] = Some ''between a and 2.5''"
proof -
  let ?ps = "[Lit ''between '', Hole 0, Lit '' and '', Hole 1]" and ?vs = "[JStr ''a'', JNum (Some (Dec 25 1))]"
  have "list_all plain_piece ?ps" "list_all (\<lambda>v. no_braces (to_text v)) ?vs" by code_simp+
  moreover have "template ?ps = ''between {0} and {1}''"
    "concat (map (filled_piece ?vs) ?ps) = ''between a and 2.5''" by code_simp+
  ultimately show ?thesis using format_fills_template [of ?ps ?vs] by simp
qed

text \<open>A selector engine that reads a name escaped by \<open>escapeCssMeta\<close> between single quotes gets the
  name back, for every name without a line terminator: \<open>findByName\<close> looks for that very name.\<close>

theorem escapeCssMeta_roundtrip:
  assumes "list_all (\<lambda>c. \<not> css_newline c) s"
  shows "css_string (escapeCssMeta s) = Some s"
  using assms by (rule css_string_escape)

theorem escapeCssMeta_roundtrip_witness:
  "css_string (escapeCssMeta ''items[0].price'') = Some ''items[0].price''"
proof -
  have "list_all (\<lambda>c. \<not> css_newline c) ''items[0].price''" by code_simp
  from escapeCssMeta_roundtrip [OF this] show ?thesis .
qed



end
