(* ===== verification/Jquery_Core.thy ===== *)
theory Jquery_Core
  imports Js_Values "HOL-Library.Multiset"
begin

text \<open>
  The helpers of \<open>jquery.js\<close> that everything else is built from: \<open>jQuery.extend\<close>, shallow and deep, and the
  array functions. Values are trees, so the guard of \<open>extend\<close> against copying an object into itself never
  applies; the guard against \<open>__proto__\<close> does.
\<close>

section \<open>Copying objects\<close>

definition is_plain :: "jsv \<Rightarrow> bool" where
  "is_plain v = (case v of JObj ob \<Rightarrow> True | _ \<Rightarrow> False)"

definition is_array :: "jsv \<Rightarrow> bool" where
  "is_array v = (case v of JArr vs \<Rightarrow> True | _ \<Rightarrow> False)"

text \<open>What \<open>for (name in options)\<close> visits: the properties of an object, the indices of an array or a text.\<close>

fun indexed :: "nat \<Rightarrow> jsv list \<Rightarrow> jsv obj" where
  "indexed i [] = []"
| "indexed i (v # vs) = (nat_str i, v) # indexed (Suc i) vs"

definition props :: "jsv \<Rightarrow> jsv obj" where
  "props v =
     (case v of JObj ob \<Rightarrow> ob | JArr vs \<Rightarrow> indexed 0 vs | JStr s \<Rightarrow> indexed 0 (map (\<lambda>c. JStr [c]) s) | _ \<Rightarrow> [])"

text \<open>
  Reading and writing \<open>target[name]\<close>. Writing past the end of an array leaves holes, which read as undefined;
  a property of an array that is not an index is outside the model.
\<close>

definition index_of_key :: "string \<Rightarrow> nat option" where
  "index_of_key k = (if k \<noteq> [] \<and> list_all is_digit k \<and> nat_str (nat (digits_val k)) = k
     then Some (nat (digits_val k)) else None)"

definition get_prop :: "jsv \<Rightarrow> string \<Rightarrow> jsv" where
  "get_prop t k =
     (case t of
        JObj ob \<Rightarrow> (case oget ob k of Some v \<Rightarrow> v | None \<Rightarrow> JUndef)
      | JArr vs \<Rightarrow> (case index_of_key k of Some i \<Rightarrow> if i < length vs then vs ! i else JUndef | None \<Rightarrow> JUndef)
      | _ \<Rightarrow> JUndef)"

definition set_index :: "jsv list \<Rightarrow> nat \<Rightarrow> jsv \<Rightarrow> jsv list" where
  "set_index vs i v = (if i < length vs then vs[i := v] else vs @ replicate (i - length vs) JUndef @ [v])"

definition set_prop :: "jsv \<Rightarrow> string \<Rightarrow> jsv \<Rightarrow> jsv" where
  "set_prop t k v =
     (case t of
        JObj ob \<Rightarrow> JObj (oset ob k v)
      | JArr vs \<Rightarrow> (case index_of_key k of Some i \<Rightarrow> JArr (set_index vs i v) | None \<Rightarrow> t)
      | _ \<Rightarrow> t)"

text \<open>The size of a value, for the recursion into nested objects.\<close>

fun vsize :: "jsv \<Rightarrow> nat" where
  "vsize (JArr vs) = Suc (sum_list (map (\<lambda>v. Suc (vsize v)) vs))"
| "vsize (JObj ob) = Suc (sum_list (map (\<lambda>(k, v). Suc (vsize v)) ob))"
| "vsize (JStr s) = Suc (2 * length s)"
| "vsize _ = 1"

definition props_size :: "jsv obj \<Rightarrow> nat" where
  "props_size ps = sum_list (map (\<lambda>(k, v). Suc (vsize v)) ps)"

lemma props_size_simps [simp]:
  "props_size [] = 0" "props_size ((k, v) # ps) = Suc (vsize v) + props_size ps"
  by (simp_all add: props_size_def)

lemma props_size_indexed: "props_size (indexed i vs) = sum_list (map (\<lambda>v. Suc (vsize v)) vs)"
  by (induction vs arbitrary: i) auto

lemma props_size_props: "is_plain v \<or> is_array v \<Longrightarrow> props_size (props v) < vsize v"
  by (cases v) (simp_all add: props_def is_plain_def is_array_def props_size_indexed, simp add: props_size_def)

text \<open>The loop over the properties of one source object.\<close>

function extend_props :: "bool \<Rightarrow> jsv \<Rightarrow> jsv obj \<Rightarrow> jsv" where
  "extend_props deep target [] = target"
| "extend_props deep target ((name, copy) # ps) =
     (if name = ''__proto__'' then extend_props deep target ps
      else if deep \<and> (is_plain copy \<or> is_array copy) then
        let src = get_prop target name;
            clone = (if is_array copy \<and> \<not> is_array src then JArr []
              else if is_plain copy \<and> \<not> is_plain src then JObj []
              else src)
        in extend_props deep (set_prop target name (extend_props deep clone (props copy))) ps
      else if is_undef copy then extend_props deep target ps
      else extend_props deep (set_prop target name copy) ps)"
  by pat_completeness auto
termination
  by (relation "measure (\<lambda>(deep, target, ps). props_size ps)")
    (auto simp: less_Suc_eq_le intro!: trans_le_add1 less_imp_le [OF props_size_props])

text \<open>\<open>jQuery.extend(deep, target, ...)\<close>: a target that is no object is replaced by an empty one.\<close>

definition jquery_extend :: "bool \<Rightarrow> jsv \<Rightarrow> jsv list \<Rightarrow> jsv" where
  "jquery_extend deep target sources =
     fold (\<lambda>src t. if nullish src then t else extend_props deep t (props src)) sources
       (case target of JObj ob \<Rightarrow> target | JArr vs \<Rightarrow> target | JElem x i \<Rightarrow> target | JFun x f \<Rightarrow> target | _ \<Rightarrow> JObj [])"

lemma extend_shallow:
  "list_all (\<lambda>(k, v). k \<noteq> ''__proto__'') ps \<Longrightarrow> extend_props False (JObj ob) ps = JObj (js_extend ob ps)"
  by (induction ps arbitrary: ob) (auto simp: js_extend_def set_prop_def)

text \<open>A copy without the undefined properties and without \<open>__proto__\<close>, at every depth.\<close>

fun clean :: "jsv \<Rightarrow> jsv" where
  "clean (JArr vs) = JArr (map clean vs)"
| "clean (JObj ob) = JObj (map (\<lambda>(k, v). (k, clean v)) (filter (\<lambda>(k, v). k \<noteq> ''__proto__'' \<and> \<not> is_undef v) ob))"
| "clean v = v"

text \<open>Values whose objects have distinct keys and whose arrays have no holes.\<close>

fun well_formed :: "jsv \<Rightarrow> bool" where
  "well_formed (JArr vs) = (list_all (\<lambda>v. \<not> is_undef v) vs \<and> list_all well_formed vs)"
| "well_formed (JObj ob) = (obj_ok ob \<and> list_all (\<lambda>(k, v). well_formed v) ob)"
| "well_formed v = True"

lemma index_of_nat_str [simp]: "index_of_key (nat_str i) = Some i"
  using nat_str_digits [of i] by (simp add: index_of_key_def)

lemma nat_str_not_proto [simp]: "nat_str i \<noteq> ''__proto__''"
  using nat_str_digits [of i] by (auto simp: list_all_iff is_digit_def code_def)

lemma oset_fresh: "k \<notin> set (okeys ob) \<Longrightarrow> oset ob k v = ob @ [(k, v)]"
  by (induction ob k v rule: oset.induct) (auto simp: okeys_def)

lemma clean_not_undef [simp]: "is_undef (clean v) = is_undef v"
  by (cases v) (auto simp: is_undef_def)

lemma get_prop_fresh: "k \<notin> set (okeys ob) \<Longrightarrow> get_prop (JObj ob) k = JUndef"
  by (simp add: get_prop_def oget_def okeys_def map_of_eq_None_iff [THEN iffD2] split: option.split)

lemma undef_kinds [simp]: "\<not> is_plain JUndef" "\<not> is_array JUndef"
  by (simp_all add: is_plain_def is_array_def)

text \<open>The loop on an empty clone of an object, and of an array, given what it does one level down.\<close>

lemma extend_deep_obj:
  assumes "\<And>k v. (k, v) \<in> set ps \<Longrightarrow> is_plain v \<Longrightarrow> extend_props True (JObj []) (props v) = clean v"
    and "\<And>k v. (k, v) \<in> set ps \<Longrightarrow> is_array v \<Longrightarrow> extend_props True (JArr []) (props v) = clean v"
    and "distinct (map fst ps)" and "set (okeys ob) \<inter> fst ` set ps = {}"
  shows "extend_props True (JObj ob) ps =
    JObj (ob @ map (\<lambda>(k, v). (k, clean v)) (filter (\<lambda>(k, v). k \<noteq> ''__proto__'' \<and> \<not> is_undef v) ps))"
  using assms
proof (induction ps arbitrary: ob)
  case (Cons p ps)
  obtain k v where p: "p = (k, v)" by fastforce
  have fresh: "k \<notin> set (okeys ob)" using Cons.prems(4) p by auto
  have step: "extend_props True (JObj (ob @ [(k, w)])) ps =
      JObj ((ob @ [(k, w)]) @ map (\<lambda>(k, v). (k, clean v)) (filter (\<lambda>(k, v). k \<noteq> ''__proto__'' \<and> \<not> is_undef v) ps))" for w
    by (rule Cons.IH) (use Cons.prems p in \<open>auto simp: okeys_def\<close>)
  have skip: "extend_props True (JObj ob) ps =
      JObj (ob @ map (\<lambda>(k, v). (k, clean v)) (filter (\<lambda>(k, v). k \<noteq> ''__proto__'' \<and> \<not> is_undef v) ps))"
    by (rule Cons.IH) (use Cons.prems p in auto)
  have leaf: "clean v = v" if "\<not> is_plain v" "\<not> is_array v"
    using that by (cases v) (auto simp: is_plain_def is_array_def)
  show ?case
    using Cons.prems(1,2) [of k v] step skip leaf fresh
    by (cases "is_plain v"; cases "is_array v")
      (auto simp: p get_prop_fresh set_prop_def oset_fresh is_plain_def is_array_def is_undef_def split: jsv.splits)
qed simp

lemma extend_deep_arr:
  assumes "\<And>v. v \<in> set vs \<Longrightarrow> is_plain v \<Longrightarrow> extend_props True (JObj []) (props v) = clean v"
    and "\<And>v. v \<in> set vs \<Longrightarrow> is_array v \<Longrightarrow> extend_props True (JArr []) (props v) = clean v"
    and "list_all (\<lambda>v. \<not> is_undef v) vs"
  shows "extend_props True (JArr us) (indexed (length us) vs) = JArr (us @ map clean vs)"
  using assms
proof (induction vs arbitrary: us)
  case (Cons v vs)
  have step: "extend_props True (JArr (us @ [w])) (indexed (Suc (length us)) vs) = JArr ((us @ [w]) @ map clean vs)" for w
    using Cons.IH [of "us @ [w]"] Cons.prems by simp
  have leaf: "clean v = v" if "\<not> is_plain v" "\<not> is_array v"
    using that by (cases v) (auto simp: is_plain_def is_array_def)
  have at_end: "get_prop (JArr us) (nat_str (length us)) = JUndef" "set_prop (JArr us) (nat_str (length us)) w = JArr (us @ [w])" for w
    by (simp_all add: get_prop_def set_prop_def set_index_def)
  show ?case
    using Cons.prems(1,2) [of v] Cons.prems(3) step leaf at_end
    by (cases "is_plain v"; cases "is_array v")
      (auto simp: is_plain_def is_array_def split: jsv.splits)
qed simp

lemma extend_deep_clean:
  assumes "well_formed v"
  shows "(is_plain v \<longrightarrow> extend_props True (JObj []) (props v) = clean v) \<and>
    (is_array v \<longrightarrow> extend_props True (JArr []) (props v) = clean v)"
  using assms
proof (induction "vsize v" arbitrary: v rule: less_induct)
  case less
  show ?case
  proof (cases v)
    case (JArr vs)
    have "vsize u < vsize v" if "u \<in> set vs" for u
      using that member_le_sum_list [of "Suc (vsize u)" "map (\<lambda>v. Suc (vsize v)) vs"] JArr by auto
    then have IH: "u \<in> set vs \<Longrightarrow> is_plain u \<Longrightarrow> extend_props True (JObj []) (props u) = clean u"
      "u \<in> set vs \<Longrightarrow> is_array u \<Longrightarrow> extend_props True (JArr []) (props u) = clean u" for u
      using less JArr by (auto simp: list_all_iff)
    show ?thesis
      using extend_deep_arr [of vs "[]"] IH less.prems JArr by (simp add: props_def is_plain_def)
  next
    case (JObj ob)
    have "vsize u < vsize v" if "(k, u) \<in> set ob" for k u
      using that member_le_sum_list [of "Suc (vsize u)" "map (\<lambda>(k, v). Suc (vsize v)) ob"] JObj by force
    then have IH: "(k, u) \<in> set ob \<Longrightarrow> is_plain u \<Longrightarrow> extend_props True (JObj []) (props u) = clean u"
      "(k, u) \<in> set ob \<Longrightarrow> is_array u \<Longrightarrow> extend_props True (JArr []) (props u) = clean u" for k u
      using less JObj by (fastforce simp: list_all_iff)+
    show ?thesis
      using extend_deep_obj [of ob "[]"] IH less.prems JObj
      by (simp add: props_def is_array_def obj_ok_def okeys_def)
  qed (simp_all add: is_plain_def is_array_def)
qed

section \<open>Arrays\<close>

text \<open>\<open>each\<close>: the callback may change the state, and stops the loop by returning false.\<close>

fun each_from :: "nat \<Rightarrow> (nat \<Rightarrow> 'a \<Rightarrow> 's \<Rightarrow> bool \<times> 's) \<Rightarrow> 'a list \<Rightarrow> 's \<Rightarrow> 's" where
  "each_from i f [] s = s"
| "each_from i f (x # xs) s = (case f i x s of (stop, t) \<Rightarrow> if stop then t else each_from (Suc i) f xs t)"

definition jquery_each :: "'a list \<Rightarrow> (nat \<Rightarrow> 'a \<Rightarrow> 's \<Rightarrow> bool \<times> 's) \<Rightarrow> 's \<Rightarrow> 's" where
  "jquery_each xs f s = each_from 0 f xs s"

fun merge :: "'a list \<Rightarrow> 'a list \<Rightarrow> 'a list" where
  "merge first [] = first"
| "merge first (x # second) = merge (first @ [x]) second"

fun grep_from :: "nat \<Rightarrow> ('a \<Rightarrow> nat \<Rightarrow> bool) \<Rightarrow> bool \<Rightarrow> 'a list \<Rightarrow> 'a list" where
  "grep_from i p callbackExpect [] = []"
| "grep_from i p callbackExpect (x # xs) =
     (let callbackInverse = (\<not> p x i) in
      if callbackInverse \<noteq> callbackExpect then x # grep_from (Suc i) p callbackExpect xs
      else grep_from (Suc i) p callbackExpect xs)"

definition grep :: "'a list \<Rightarrow> ('a \<Rightarrow> nat \<Rightarrow> bool) \<Rightarrow> bool \<Rightarrow> 'a list" where
  "grep elems p invert = grep_from 0 p (\<not> invert) elems"

text \<open>\<open>map\<close>: null and undefined results are left out, arrays are flattened by one level.\<close>

datatype 'b mapped = Nothing | One 'b | Many "'b list"

fun map_from :: "nat \<Rightarrow> ('a \<Rightarrow> nat \<Rightarrow> 'b mapped) \<Rightarrow> 'a list \<Rightarrow> 'b mapped list" where
  "map_from i f [] = []"
| "map_from i f (x # xs) = (case f x i of Nothing \<Rightarrow> map_from (Suc i) f xs | v \<Rightarrow> v # map_from (Suc i) f xs)"

definition jquery_map :: "'a list \<Rightarrow> ('a \<Rightarrow> nat \<Rightarrow> 'b mapped) \<Rightarrow> 'b list" where
  "jquery_map elems f =
     concat (map (\<lambda>v. case v of Nothing \<Rightarrow> [] | One x \<Rightarrow> [x] | Many xs \<Rightarrow> xs) (map_from 0 f elems))"

text \<open>\<open>inArray(elem, arr, i)\<close>: the first index from \<open>i\<close> on, \<open>None\<close> for -1.\<close>

fun index_from :: "nat \<Rightarrow> 'a \<Rightarrow> 'a list \<Rightarrow> nat option" where
  "index_from n x [] = None"
| "index_from n x (y # ys) = (if x = y then Some n else index_from (Suc n) x ys)"

definition inArray :: "'a \<Rightarrow> 'a list \<Rightarrow> nat \<Rightarrow> nat option" where
  "inArray x xs i = index_from i x (drop i xs)"

section \<open>Collections\<close>

definition jq_get :: "'a list \<Rightarrow> int \<Rightarrow> 'a option" where
  "jq_get xs i =
     (let j = (if i < 0 then i + int (length xs) else i) in
      if 0 \<le> j \<and> j < int (length xs) then Some (xs ! nat j) else None)"

definition jq_eq :: "'a list \<Rightarrow> int \<Rightarrow> 'a list" where
  "jq_eq xs i =
     (let len = int (length xs); j = i + (if i < 0 then len else 0)
      in if 0 \<le> j \<and> j < len then [xs ! nat j] else [])"

definition jq_first :: "'a list \<Rightarrow> 'a list" where
  "jq_first xs = jq_eq xs 0"

definition jq_last :: "'a list \<Rightarrow> 'a list" where
  "jq_last xs = jq_eq xs (- 1)"

definition jq_even :: "'a list \<Rightarrow> 'a list" where
  "jq_even xs = grep xs (\<lambda>_ i. (i + 1) mod 2 \<noteq> 0) False"

definition jq_odd :: "'a list \<Rightarrow> 'a list" where
  "jq_odd xs = grep xs (\<lambda>_ i. i mod 2 \<noteq> 0) False"

lemma merge_append [simp]: "merge xs ys = xs @ ys"
  by (induction ys arbitrary: xs) auto

lemma grep_from_filter: "grep_from i (\<lambda>x _. p x) e xs = filter (\<lambda>x. p x = e) xs"
  by (induction xs arbitrary: i) auto

lemma grep_partition: "mset (grep xs p False) + mset (grep xs p True) = mset xs"
proof -
  have "mset (grep_from i p True xs) + mset (grep_from i p False xs) = mset xs" for i
    by (induction xs arbitrary: i) (auto simp: Let_def)
  then show ?thesis by (simp add: grep_def)
qed

lemma index_from_Some: "index_from n x xs = Some i \<Longrightarrow> n \<le> i \<and> i - n < length xs \<and> xs ! (i - n) = x"
proof (induction n x xs rule: index_from.induct)
  case (2 n x y ys)
  then show ?case by (cases "x = y") (auto simp: nth_Cons' Suc_diff_le less_eq_Suc_le)
qed simp

lemma index_from_None: "index_from n x xs = None \<longleftrightarrow> x \<notin> set xs"
  by (induction n x xs rule: index_from.induct) auto

lemma jq_last_last: "xs \<noteq> [] \<Longrightarrow> jq_last xs = [last xs]"
  by (cases xs rule: rev_cases) (auto simp: jq_last_def jq_eq_def nth_append)

end
