(* ===== verification/Validate_Plugin.thy ===== *)
theory Validate_Plugin
  imports Validate_Events Jquery_Core
begin

text \<open>
  The entry points of \<open>jquery.validate.js\<close>: \<open>$.fn.validate\<close> and the constructor it calls, \<open>$.fn.valid\<close>,
  \<open>destroy\<close>, \<open>addMethod\<close> and \<open>setDefaults\<close>. A page has forms; the state of a form is the validator's, whose
  document part stays when the validator is destroyed. Answers that come after that are outside the model.
\<close>

section \<open>Options\<close>

text \<open>An options object is the list of the properties it has.\<close>

datatype setting =
    SMessages "field_messages obj"
  | SGroups "(string \<times> jsv) list"
  | SRules "jsv obj"
  | SErrorClass string
  | SPendingClass string
  | SValidClass string
  | SErrorElement string
  | SFocusCleanup bool
  | SFocusInvalid bool
  | SOnsubmit bool
  | SOnfocusout bool
  | SIgnoreTitle bool
  | SDebug bool
  | SWrapper bool
  | SSuccess string
  | SSubmitHandler "bool option"
  | SShowErrors
  | SNormalizer "field list \<Rightarrow> field \<Rightarrow> jsv \<Rightarrow> jsv"

text \<open>The settings before the rules are normalised: each rule is a text or an object.\<close>

record options = settings +
  rule_specs :: "jsv obj"

definition default_options :: options where
  "default_options =
     \<lparr>messages = [], group_spec = [], setting_rules = [], errorClass = ''error'', pendingClass = ''pending'',
      validClass = ''valid'', errorElement = ''label'', focusCleanup = False, focusInvalid_on = True,
      onsubmit = True, onfocusout_on = True, ignoreTitle = False, debug = False, wrapper = False,
      success = None, submitHandler = None, custom_showErrors = False, normalizer = None, rule_specs = []\<rparr>"

text \<open>Copying one property with \<open>$.extend(true, ...)\<close>: objects are merged, texts and functions replaced.\<close>

definition merge_field_messages :: "field_messages obj \<Rightarrow> string \<times> field_messages \<Rightarrow> field_messages obj" where
  "merge_field_messages ms kv =
     (case kv of (k, new) \<Rightarrow>
        (case (new, oget ms k) of
           (MsgFor ob, Some (MsgFor own)) \<Rightarrow> oset ms k (MsgFor (fold (\<lambda>(m, t) ob. oset ob m t) ob own))
         | _ \<Rightarrow> oset ms k new))"

definition merge_rules :: "jsv obj \<Rightarrow> jsv obj \<Rightarrow> jsv obj" where
  "merge_rules rs new = (case extend_props True (JObj rs) new of JObj ob \<Rightarrow> ob | _ \<Rightarrow> rs)"

fun apply_setting :: "setting \<Rightarrow> options \<Rightarrow> options" where
  "apply_setting (SMessages ms) o1 = o1\<lparr>messages := fold (\<lambda>kv m. merge_field_messages m kv) ms (messages o1)\<rparr>"
| "apply_setting (SGroups gs) o1 = o1\<lparr>group_spec := fold (\<lambda>(k, v) ob. oset ob k v) gs (group_spec o1)\<rparr>"
| "apply_setting (SRules rs) o1 = o1\<lparr>rule_specs := merge_rules (rule_specs o1) rs\<rparr>"
| "apply_setting (SErrorClass c) o1 = o1\<lparr>errorClass := c\<rparr>"
| "apply_setting (SPendingClass c) o1 = o1\<lparr>pendingClass := c\<rparr>"
| "apply_setting (SValidClass c) o1 = o1\<lparr>validClass := c\<rparr>"
| "apply_setting (SErrorElement c) o1 = o1\<lparr>errorElement := c\<rparr>"
| "apply_setting (SFocusCleanup b) o1 = o1\<lparr>focusCleanup := b\<rparr>"
| "apply_setting (SFocusInvalid b) o1 = o1\<lparr>focusInvalid_on := b\<rparr>"
| "apply_setting (SOnsubmit b) o1 = o1\<lparr>onsubmit := b\<rparr>"
| "apply_setting (SOnfocusout b) o1 = o1\<lparr>onfocusout_on := b\<rparr>"
| "apply_setting (SIgnoreTitle b) o1 = o1\<lparr>ignoreTitle := b\<rparr>"
| "apply_setting (SDebug b) o1 = o1\<lparr>debug := b\<rparr>"
| "apply_setting (SWrapper b) o1 = o1\<lparr>wrapper := b\<rparr>"
| "apply_setting (SSuccess c) o1 = o1\<lparr>success := Some c\<rparr>"
| "apply_setting (SSubmitHandler r) o1 = o1\<lparr>submitHandler := Some r\<rparr>"
| "apply_setting SShowErrors o1 = o1\<lparr>custom_showErrors := True\<rparr>"
| "apply_setting (SNormalizer f) o1 = o1\<lparr>normalizer := Some f\<rparr>"

text \<open>\<open>init\<close> turns every rule of the settings into an object.\<close>

definition normalized :: "options \<Rightarrow> settings" where
  "normalized o1 = settings.truncate (o1\<lparr>setting_rules := map (\<lambda>(k, v). (k, props (normalizeRule v))) (rule_specs o1)\<rparr>)"

section \<open>The page\<close>

record form_state =
  vs :: vstate
  active :: bool
  novalidate :: bool
  containers_of :: "node list"

record page =
  forms :: "(nat \<times> form_state) list"
  defaults :: options
  registry :: rule_config
  registered_messages :: "message obj"

definition page_env :: "env \<Rightarrow> page \<Rightarrow> env" where
  "page_env v p = v\<lparr>config := registry p, default_messages := registered_messages p\<rparr>"

text \<open>\<open>$.validator\<close>: a validator with its own copy of the settings, on the document as it is.\<close>

definition new_validator :: "setting list \<Rightarrow> page \<Rightarrow> form_state \<Rightarrow> vstate" where
  "new_validator opts p f =
     init ((vs f)\<lparr>settings := normalized (fold apply_setting opts (defaults p)),
       containers := containers_of f, formSubmitted := False, cancelSubmit := False, submitButton := None,
       lastActive := None, requests := []\<rparr>)"

text \<open>\<open>$.fn.validate\<close> on a collection of forms: the first one gets a validator, unless it has one.\<close>

definition validate :: "setting list \<Rightarrow> nat list \<Rightarrow> page \<Rightarrow> nat option \<times> page" where
  "validate opts fs p =
     (case fs of
        [] \<Rightarrow> (None, p)
      | i # _ \<Rightarrow>
          (case oget (forms p) i of
             None \<Rightarrow> (None, p)
           | Some f \<Rightarrow>
               if active f then (Some i, p)
               else (Some i, p\<lparr>forms := oset (forms p) i
                 (f\<lparr>vs := new_validator opts p f, active := True, novalidate := True\<rparr>)\<rparr>)))"

text \<open>\<open>$.fn.valid\<close> on the elements of a form; \<open>None\<close> when a check throws.\<close>

fun valid_elements :: "env \<Rightarrow> element list \<Rightarrow> bool \<Rightarrow> form_error list \<Rightarrow> vstate \<Rightarrow> (bool \<times> form_error list) option \<times> vstate" where
  "valid_elements v [] ok errs s = (Some (ok, errs), s)"
| "valid_elements v (e # es) ok errs s =
     (case element v e s of
        (None, s) \<Rightarrow> (None, s)
      | (Some b, s) \<Rightarrow>
          (let ok = (b \<and> ok)
           in valid_elements v es ok (if \<not> ok then errs @ errorList s else errs) s))"

definition fn_valid :: "env \<Rightarrow> element list \<Rightarrow> vstate \<Rightarrow> bool option \<times> vstate" where
  "fn_valid v es s =
     (case valid_elements v es True [] s of
        (None, s) \<Rightarrow> (None, s)
      | (Some (ok, errs), s) \<Rightarrow> (Some ok, s\<lparr>errorList := errs\<rparr>))"

definition update_form :: "nat \<Rightarrow> (vstate \<Rightarrow> 'r \<times> vstate) \<Rightarrow> page \<Rightarrow> 'r option \<times> page" where
  "update_form i f p =
     (case oget (forms p) i of
        None \<Rightarrow> (None, p)
      | Some st \<Rightarrow> (case f (vs st) of (r, s) \<Rightarrow> (Some r, p\<lparr>forms := oset (forms p) i (st\<lparr>vs := s\<rparr>)\<rparr>)))"

text \<open>\<open>valid\<close> on a form, and on elements of a form.\<close>

definition page_valid_form :: "env \<Rightarrow> nat \<Rightarrow> page \<Rightarrow> bool option option \<times> page" where
  "page_valid_form v i p = (let p = snd (validate [] [i] p) in update_form i (form (page_env v p)) p)"

definition page_valid_elements :: "env \<Rightarrow> nat \<Rightarrow> element list \<Rightarrow> page \<Rightarrow> bool option option \<times> page" where
  "page_valid_elements v i es p =
     (let p = snd (validate [] [i] p) in update_form i (fn_valid (page_env v p) es) p)"

definition blur_markers :: "string list" where
  "blur_markers = map (\<lambda>k. ''validate-'' @ k @ ''-blur'')
     [''equalTo'', ''lessThan'', ''lessThanEqual'', ''greaterThanEqual'', ''greaterThan'']"

text \<open>
  \<open>destroy\<close> as it is written: every \<open>find\<close> after the first starts from the elements the one before it found,
  and no such element has descendants with a marker, so only the first marker is removed.
\<close>

definition destroy :: "env \<Rightarrow> nat \<Rightarrow> page \<Rightarrow> page" where
  "destroy v i p =
     (case oget (forms p) i of
        None \<Rightarrow> p
      | Some f \<Rightarrow>
          (let s = snd (resetForm (page_env v p) (vs f));
               marked = map fst (filter (\<lambda>(j, c). c = hd blur_markers) (element_classes s));
               s = removeClass marked (hd blur_markers) s;
               s = s\<lparr>blur_handlers := filter (\<lambda>(kind, t, e). \<not> (kind = ''equalTo'' \<and> t \<in> set marked)) (blur_handlers s)\<rparr>
           in p\<lparr>forms := oset (forms p) i (f\<lparr>vs := s, active := False\<rparr>)\<rparr>))"

section \<open>Registration\<close>

text \<open>\<open>addMethod\<close>; methods that look at no parameter also become class rules.\<close>

definition addMethod :: "string \<Rightarrow> nat \<Rightarrow> message option \<Rightarrow> page \<Rightarrow> page" where
  "addMethod name arity message p =
     (let c = registry p;
          c = c\<lparr>method_names := (if name \<in> set (method_names c) then method_names c else method_names c @ [name])\<rparr>;
          c = (if arity < 3 then c\<lparr>class_rules := addClassRules (class_rules c) name (props (normalizeRule (JStr name)))\<rparr> else c)
      in p\<lparr>registry := c,
           registered_messages := (case message of
               Some m \<Rightarrow> oset (registered_messages p) name m
             | None \<Rightarrow> registered_messages p)\<rparr>)"

text \<open>\<open>setDefaults\<close> copies shallowly: an object replaces the one in the defaults.\<close>

definition setDefaults :: "setting list \<Rightarrow> page \<Rightarrow> page" where
  "setDefaults opts p = p\<lparr>defaults := fold (\<lambda>x o1. apply_setting x (case x of
       SMessages ms \<Rightarrow> o1\<lparr>messages := []\<rparr> | SGroups gs \<Rightarrow> o1\<lparr>group_spec := []\<rparr> | SRules rs \<Rightarrow> o1\<lparr>rule_specs := []\<rparr>
     | _ \<Rightarrow> o1)) opts (defaults p)\<rparr>"

end
