(* ===== verification/Unobtrusive.thy ===== *)
theory Unobtrusive
  imports Validate_Plugin
begin

text \<open>
  \<open>jquery.validate.unobtrusive.js\<close>: the adapters that turn \<open>data-val\<close> attributes into rules and messages,
  the parsing of elements and of a page, the callbacks that keep the message containers and the summary
  of a form in step with its validation, and the methods the library registers.
\<close>

section \<open>Names\<close>

text \<open>\<open>value.replace(/^\s+|\s+$/g, "").split(/\s*,\s*/g)\<close>: white space around a comma goes with the comma.\<close>

definition splitAndTrim :: "string \<Rightarrow> string list" where
  "splitAndTrim value = map js_trim (split_where (\<lambda>c. c = CHR '','') (js_trim value))"

definition attr_meta :: string where
  "attr_meta = ''!\"#$%&'' @ [CHR 0x27] @ ''()*+,./:;<=>?@['' @ [CHR 0x5C] @ '']^`{|}~''"

definition escapeAttributeValue :: "string \<Rightarrow> string" where
  "escapeAttributeValue value = concat (map (\<lambda>c. if c \<in> set attr_meta then [CHR 0x5C, c] else [c]) value)"

text \<open>\<open>fieldName.substr(0, fieldName.lastIndexOf(".") + 1)\<close>.\<close>

definition getModelPrefix :: "string \<Rightarrow> string" where
  "getModelPrefix fieldName = rev (dropWhile (\<lambda>c. c \<noteq> CHR ''.'') (rev fieldName))"

text \<open>
  The replacement text of \<open>value.replace("*.", prefix)\<close>, where a dollar sign starts a pattern: itself, the
  match, what precedes the match (nothing, it is at the start) and what follows it.
\<close>

fun expand_dollars :: "string \<Rightarrow> string \<Rightarrow> string" where
  "expand_dollars after (c # d # s) =
     (if c = CHR ''$'' \<and> d = CHR ''$'' then CHR ''$'' # expand_dollars after s
      else if c = CHR ''$'' \<and> d = CHR ''&'' then ''*.'' @ expand_dollars after s
      else if c = CHR ''$'' \<and> d = CHR 0x60 then expand_dollars after s
      else if c = CHR ''$'' \<and> d = CHR 0x27 then after @ expand_dollars after s
      else c # expand_dollars after (d # s))"
| "expand_dollars after s = s"

definition appendModelPrefix :: "string \<Rightarrow> string \<Rightarrow> string" where
  "appendModelPrefix value prefix =
     (if take 2 value = ''*.'' then expand_dollars (drop 2 value) prefix @ drop 2 value else value)"

section \<open>Adapters\<close>

text \<open>What an adapter is called with; the rules and messages of the element are passed and returned.\<close>

record adapt_options =
  o_element :: element
  o_form :: "element list"
  o_message :: string
  o_params :: "(string \<times> string option) list"

type_synonym target = "jsv obj \<times> message obj"

record adapter =
  a_name :: string
  a_params :: "string list"
  adapt :: "adapt_options \<Rightarrow> target \<Rightarrow> target"

definition setValidationValues :: "adapt_options \<Rightarrow> string \<Rightarrow> jsv \<Rightarrow> target \<Rightarrow> target" where
  "setValidationValues opts ruleName value t =
     (oset (fst t) ruleName value,
      if o_message opts \<noteq> [] then oset (snd t) ruleName (MText (o_message opts)) else snd t)"

definition param_value :: "adapt_options \<Rightarrow> string \<Rightarrow> jsv" where
  "param_value opts k = (case oget (o_params opts) k of Some (Some s) \<Rightarrow> JStr s | _ \<Rightarrow> JUndef)"

text \<open>An absent argument that is used as a key reads as the text \<open>undefined\<close>.\<close>

definition key_text :: "string option \<Rightarrow> string" where
  "key_text k = (case k of Some s \<Rightarrow> s | None \<Rightarrow> ''undefined'')"

definition or_default :: "string option \<Rightarrow> string \<Rightarrow> string" where
  "or_default k d = (case k of Some s \<Rightarrow> if s = [] then d else s | None \<Rightarrow> d)"

definition add_adapter :: "string \<Rightarrow> string list \<Rightarrow> (adapt_options \<Rightarrow> target \<Rightarrow> target) \<Rightarrow> adapter list \<Rightarrow> adapter list" where
  "add_adapter adapterName params fn as = as @ [\<lparr>a_name = adapterName, a_params = params, adapt = fn\<rparr>]"

definition addBool :: "string \<Rightarrow> string option \<Rightarrow> adapter list \<Rightarrow> adapter list" where
  "addBool adapterName ruleName =
     add_adapter adapterName [] (\<lambda>opts. setValidationValues opts (or_default ruleName adapterName) (JBool True))"

definition min_max :: "string option \<Rightarrow> string option \<Rightarrow> string option \<Rightarrow> adapt_options \<Rightarrow> target \<Rightarrow> target" where
  "min_max minRuleName maxRuleName minMaxRuleName opts t =
     (let mn = param_value opts ''min''; mx = param_value opts ''max'' in
      if truthy_v mn \<and> truthy_v mx then setValidationValues opts (key_text minMaxRuleName) (JArr [mn, mx]) t
      else if truthy_v mn then setValidationValues opts (key_text minRuleName) mn t
      else if truthy_v mx then setValidationValues opts (key_text maxRuleName) mx t
      else t)"

definition addMinMax ::
  "string \<Rightarrow> string option \<Rightarrow> string option \<Rightarrow> string option \<Rightarrow> string option \<Rightarrow> string option \<Rightarrow> adapter list \<Rightarrow> adapter list" where
  "addMinMax adapterName minRuleName maxRuleName minMaxRuleName minAttribute maxAttribute =
     add_adapter adapterName [or_default minAttribute ''min'', or_default maxAttribute ''max'']
       (min_max minRuleName maxRuleName minMaxRuleName)"

definition addSingleVal :: "string \<Rightarrow> string option \<Rightarrow> string option \<Rightarrow> adapter list \<Rightarrow> adapter list" where
  "addSingleVal adapterName attribute ruleName =
     add_adapter adapterName [or_default attribute ''val'']
       (\<lambda>opts. setValidationValues opts (or_default ruleName adapterName) (param_value opts (key_text attribute)))"

text \<open>\<open>$(form).find(":input").filter("[name='...']")\<close>, the name escaped.\<close>

definition inputs_named :: "string \<Rightarrow> element list \<Rightarrow> element list" where
  "inputs_named name fm =
     filter (\<lambda>e. to_lower (nodeName e) \<in> {''input'', ''select'', ''textarea'', ''button''} \<and>
       css_string (escapeAttributeValue name) = Some (fname e)) fm"

text \<open>The attribute \<open>other\<close> is there when the server renders the rule; without it the code throws.\<close>

definition adapt_equalto :: "adapt_options \<Rightarrow> target \<Rightarrow> target" where
  "adapt_equalto opts t =
     (let prefix = getModelPrefix (fname (o_element opts));
          other = (case param_value opts ''other'' of JStr s \<Rightarrow> s | _ \<Rightarrow> []);
          fullOtherName = appendModelPrefix other prefix
      in setValidationValues opts ''equalTo''
           (case inputs_named fullOtherName (o_form opts) of [] \<Rightarrow> JUndef | e # _ \<Rightarrow> JElem ''[object HTMLInputElement]'' (eid e)) t)"

definition adapt_required :: "adapt_options \<Rightarrow> target \<Rightarrow> target" where
  "adapt_required opts t =
     (if to_upper (nodeName (o_element opts)) \<noteq> ''INPUT'' \<or> to_upper (ftype (o_element opts)) \<noteq> ''CHECKBOX''
      then setValidationValues opts ''required'' (JBool True) t else t)"

text \<open>
  The value a remote request sends for a field: the checked box or button, or the hidden field beside a box.
  \<open>:hidden\<close> is the default of the setting \<open>ignore\<close>, which the library does not change.
\<close>

definition field_text :: "fval \<Rightarrow> jsv" where
  "field_text v = (case v of VText t \<Rightarrow> JStr t | VNone \<Rightarrow> JNull | VMany ts \<Rightarrow> JArr (map JStr ts))"

definition first_text :: "field list \<Rightarrow> jsv" where
  "first_text fs = (case fs of [] \<Rightarrow> JUndef | f # _ \<Rightarrow> field_text (fvalue f))"

definition remote_field :: "string \<Rightarrow> field list \<Rightarrow> jsv" where
  "remote_field paramName fm =
     (let fs = filter (\<lambda>f. to_lower (nodeName f) \<in> {''input'', ''select'', ''textarea'', ''button''} \<and>
            css_string (escapeAttributeValue paramName) = Some (fname f)) fm;
          boxes = list_ex (\<lambda>f. ftype f = ''checkbox'') fs;
          radios = list_ex (\<lambda>f. ftype f = ''radio'') fs;
          ticked = first_text (filter checked fs);
          unseen = first_text (filter ignored fs)
      in if boxes then (if truthy_v ticked then ticked else if truthy_v unseen then unseen else JStr [])
         else if radios then (if truthy_v ticked then ticked else JStr [])
         else first_text fs)"

definition adapt_remote :: "adapt_options \<Rightarrow> target \<Rightarrow> target" where
  "adapt_remote opts t =
     (let prefix = getModelPrefix (fname (o_element opts));
          or_v = (\<lambda>a b. if truthy_v a then a else b);
          additional = (case or_v (param_value opts ''additionalfields'') (JStr (fname (o_element opts))) of
              JStr s \<Rightarrow> s | _ \<Rightarrow> []);
          fields = fold (\<lambda>fieldName ob.
              let paramName = appendModelPrefix fieldName prefix
              in oset ob paramName (JFun ''function () {...}'' (\<lambda>fm _. remote_field paramName fm)))
            (splitAndTrim additional) []
      in setValidationValues opts ''remote''
           (JObj [(''url'', param_value opts ''url''), (''type'', or_v (param_value opts ''type'') (JStr ''GET'')),
             (''data'', JObj fields)]) t)"

definition when_given :: "adapt_options \<Rightarrow> string \<Rightarrow> string \<Rightarrow> target \<Rightarrow> target" where
  "when_given opts param rule t =
     (if truthy_v (param_value opts param) then setValidationValues opts rule (param_value opts param) t else t)"

definition adapt_password :: "adapt_options \<Rightarrow> target \<Rightarrow> target" where
  "adapt_password opts t =
     when_given opts ''regex'' ''regex'' (when_given opts ''nonalphamin'' ''nonalphamin''
       (when_given opts ''min'' ''minlength'' t))"

definition adapt_fileextensions :: "adapt_options \<Rightarrow> target \<Rightarrow> target" where
  "adapt_fileextensions opts = setValidationValues opts ''extension'' (param_value opts ''extensions'')"

text \<open>The adapters the library registers, which depend on whether the method \<open>extension\<close> exists.\<close>

definition builtin_adapters :: "bool \<Rightarrow> adapter list" where
  "builtin_adapters has_extension =
     (let mm = (\<lambda>n a b c. addMinMax n a b c None None);
          as = (if has_extension
            then addSingleVal ''extension'' (Some ''extension'') None (addSingleVal ''accept'' (Some ''mimtype'') None [])
            else addSingleVal ''extension'' (Some ''extension'') (Some ''accept'') []);
          as = addSingleVal ''regex'' (Some ''pattern'') None as;
          as = fold (\<lambda>n. addBool n None) [''creditcard'', ''date'', ''digits'', ''email'', ''number'', ''url''] as;
          as = mm ''length'' (Some ''minlength'') (Some ''maxlength'') (Some ''rangelength'') as;
          as = mm ''range'' (Some ''min'') (Some ''max'') (Some ''range'') as;
          as = mm ''minlength'' (Some ''minlength'') None None as;
          as = mm ''maxlength'' (Some ''minlength'') (Some ''maxlength'') None as;
          as = add_adapter ''equalto'' [''other''] adapt_equalto as;
          as = add_adapter ''required'' [] adapt_required as;
          as = add_adapter ''remote'' [''url'', ''type'', ''additionalfields''] adapt_remote as;
          as = add_adapter ''password'' [''min'', ''nonalphamin'', ''regex''] adapt_password as
      in add_adapter ''fileextensions'' [''extensions''] adapt_fileextensions as)"

section \<open>Parsing\<close>

text \<open>The options the library collects for a form.\<close>

record info =
  i_rules :: "jsv obj"
  i_messages :: "field_messages obj"

definition adapter_step :: "element \<Rightarrow> element list \<Rightarrow> adapter \<Rightarrow> target \<Rightarrow> target" where
  "adapter_step e fm a t =
     (let prefix = ''data-val-'' @ a_name a in
      case oget (attrs e) prefix of
        None \<Rightarrow> t
      | Some message \<Rightarrow>
          adapt a \<lparr>o_element = e, o_form = fm, o_message = message,
            o_params = map (\<lambda>k. (k, oget (attrs e) (prefix @ ''-'' @ k))) (a_params a)\<rparr> t)"

definition element_target :: "adapter list \<Rightarrow> element \<Rightarrow> element list \<Rightarrow> target" where
  "element_target as e fm =
     (case fold (adapter_step e fm) as ([], []) of (rs, ms) \<Rightarrow> (js_extend rs [(''__dummy__'', JBool True)], ms))"

definition parse_into :: "adapter list \<Rightarrow> element \<Rightarrow> element list \<Rightarrow> info \<Rightarrow> info" where
  "parse_into as e fm i =
     (case element_target as e fm of (rs, ms) \<Rightarrow>
        i\<lparr>i_rules := oset (i_rules i) (fname e) (JObj rs), i_messages := oset (i_messages i) (fname e) (MsgFor ms)\<rparr>)"

text \<open>The message container of a field, the summary of a form, and the labels the callbacks are given.\<close>

record container =
  valmsg_for :: string
  valmsg_replace :: "string option"
  c_classes :: "string list"
  c_content :: "nat list"

record ulabel =
  u_id :: nat
  u_classes :: "string list"
  u_hidden :: bool
  u_container :: "string option"

record uview =
  message_containers :: "container list"
  summary_classes :: "string list"
  summary_items :: "string list option"
  ulabels :: "ulabel list"

record ustate =
  upage :: page
  adapters :: "adapter list"
  infos :: "(nat \<times> info) list"
  views :: "(nat \<times> uview) list"
  resetting :: "nat list"
  reset_bound :: "nat list"

definition validationInfo :: "nat \<Rightarrow> ustate \<Rightarrow> info \<times> ustate" where
  "validationInfo f u =
     (case oget (infos u) f of
        Some i \<Rightarrow> (i, u)
      | None \<Rightarrow> (let i = \<lparr>i_rules = [], i_messages = []\<rparr> in (i, u\<lparr>infos := oset (infos u) f i\<rparr>)))"

text \<open>The options object handed to \<open>$.fn.validate\<close>.\<close>

definition info_options :: "info \<Rightarrow> setting list" where
  "info_options i =
     [SErrorClass ''input-validation-error'', SErrorElement ''span'', SMessages (i_messages i), SRules (i_rules i)]"

definition attachValidation :: "nat \<Rightarrow> ustate \<Rightarrow> ustate" where
  "attachValidation f u =
     (let (i, u) = validationInfo f u
      in u\<lparr>reset_bound := add_nodes (reset_bound u) [f], upage := snd (validate (info_options i) [f] (upage u))\<rparr>)"

definition form_fields :: "nat \<Rightarrow> ustate \<Rightarrow> element list" where
  "form_fields f u = (case oget (forms (upage u)) f of None \<Rightarrow> [] | Some st \<Rightarrow> form_elements (vs st))"

text \<open>An element is given with the form around it, if there is one.\<close>

definition parseElement :: "nat option \<Rightarrow> element \<Rightarrow> bool \<Rightarrow> ustate \<Rightarrow> ustate" where
  "parseElement owner e skipAttach u =
     (case owner of
        None \<Rightarrow> u
      | Some f \<Rightarrow>
          (let (i, u) = validationInfo f u;
               u = u\<lparr>infos := oset (infos u) f (parse_into (adapters u) e (form_fields f u) i)\<rparr>
           in if skipAttach then u else attachValidation f u))"

definition decorated :: "element \<Rightarrow> bool" where
  "decorated e \<longleftrightarrow> oget (attrs e) ''data-val'' = Some ''true''"

text \<open>
  \<open>parse(selector)\<close>: the elements below the selector, each with its form, and the forms above or below it. Of
  the forms only those with a decorated element are attached.
\<close>

definition parse :: "(nat option \<times> element) list \<Rightarrow> nat list \<Rightarrow> ustate \<Rightarrow> ustate" where
  "parse found fs u =
     (let u' = fold (\<lambda>(f, e) u. if decorated e then parseElement f e True u else u) found u
      in fold (\<lambda>f u. if list_ex decorated (form_fields f u) then attachValidation f u else u) fs u')"

section \<open>Callbacks\<close>

text \<open>
  \<open>JSON.parse\<close> on the literals an attribute may hold; \<open>None\<close> when it throws. Nested values and escapes
  in texts are outside the model.
\<close>

definition parse_json :: "string \<Rightarrow> jsv option" where
  "parse_json s =
     (let t = js_trim s in
      if t = ''true'' then Some (JBool True)
      else if t = ''false'' then Some (JBool False)
      else if t = ''null'' then Some JNull
      else if length t \<ge> 2 \<and> hd t = CHR 0x22 \<and> last t = CHR 0x22 \<and> list_all (\<lambda>c. c \<noteq> CHR 0x22 \<and> c \<noteq> CHR 0x5C) (butlast (tl t))
      then Some (JStr (butlast (tl t)))
      else case js_Number t of Some d \<Rightarrow> if t = [] then None else Some (JNum (Some d)) | None \<Rightarrow> None)"

definition swap_class :: "string \<Rightarrow> string \<Rightarrow> string list \<Rightarrow> string list" where
  "swap_class out into cs = add_nodes (filter (\<lambda>c. c \<noteq> out) cs) [into]"

definition matches_name :: "string \<Rightarrow> container \<Rightarrow> bool" where
  "matches_name name c \<longleftrightarrow> css_string (escapeAttributeValue name) = Some (valmsg_for c)"

definition update_containers :: "(container \<Rightarrow> bool) \<Rightarrow> (container \<Rightarrow> container) \<Rightarrow> uview \<Rightarrow> uview" where
  "update_containers p f w = w\<lparr>message_containers := map (\<lambda>c. if p c then f c else c) (message_containers w)\<rparr>"

definition update_label :: "nat \<Rightarrow> (ulabel \<Rightarrow> ulabel) \<Rightarrow> uview \<Rightarrow> uview" where
  "update_label i f w = w\<lparr>ulabels := map (\<lambda>l. if u_id l = i then f l else l) (ulabels w)\<rparr>"

text \<open>Whether the attribute of the first container asks for the message to replace its content.\<close>

definition replace_json :: "string \<Rightarrow> uview \<Rightarrow> jsv option option" where
  "replace_json name w =
     (case filter (matches_name name) (message_containers w) of
        [] \<Rightarrow> Some None
      | c # _ \<Rightarrow>
          (case valmsg_replace c of
             None \<Rightarrow> Some None
           | Some t \<Rightarrow> if t = [] then Some None else map_option Some (parse_json t)))"

definition is_false :: "jsv \<Rightarrow> bool" where
  "is_false v \<longleftrightarrow> (case v of JBool b \<Rightarrow> \<not> b | _ \<Rightarrow> False)"

definition onError :: "nat \<Rightarrow> element \<Rightarrow> uview \<Rightarrow> uview option" where
  "onError label e w =
     (case replace_json (fname e) w of
        None \<Rightarrow> None
      | Some json \<Rightarrow>
          (let name = fname e;
               replace_it = (case json of None \<Rightarrow> False | Some v \<Rightarrow> \<not> is_false v);
               w = update_containers (matches_name name)
                 (\<lambda>c. c\<lparr>c_classes := swap_class ''field-validation-valid'' ''field-validation-error'' (c_classes c)\<rparr>) w;
               w = update_label label (\<lambda>l. l\<lparr>u_container := Some name\<rparr>) w
           in if replace_it
              then Some (update_label label (\<lambda>l. l\<lparr>u_classes := filter (\<lambda>c. c \<noteq> ''input-validation-error'') (u_classes l)\<rparr>)
                (update_containers (matches_name name) (\<lambda>c. c\<lparr>c_content := [label]\<rparr>) w))
              else Some (update_label label (\<lambda>l. l\<lparr>u_hidden := True\<rparr>) w)))"

definition onErrors :: "form_error list \<Rightarrow> uview \<Rightarrow> uview" where
  "onErrors errs w =
     (case summary_items w of
        None \<Rightarrow> w
      | Some items \<Rightarrow>
          if errs = [] then w
          else w\<lparr>summary_items := Some (map err_message errs),
                 summary_classes := filter (\<lambda>c. c \<noteq> ''validation-summary-valid'')
                   (add_nodes (summary_classes w) [''validation-summary-errors''])\<rparr>)"

definition onSuccess :: "nat \<Rightarrow> uview \<Rightarrow> uview option" where
  "onSuccess label w =
     (case find (\<lambda>l. u_id l = label) (ulabels w) of
        None \<Rightarrow> Some w
      | Some l \<Rightarrow>
          (case u_container l of
             None \<Rightarrow> Some w
           | Some name \<Rightarrow>
               (case replace_json name w of
                  None \<Rightarrow> None
                | Some json \<Rightarrow>
                    (let w = update_containers (matches_name name)
                       (\<lambda>c. c\<lparr>c_classes := swap_class ''field-validation-error'' ''field-validation-valid'' (c_classes c)\<rparr>) w;
                         w = update_label label (\<lambda>l. l\<lparr>u_container := None\<rparr>) w
                     in if (case json of None \<Rightarrow> False | Some v \<Rightarrow> truthy_v v)
                        then Some (update_containers (matches_name name) (\<lambda>c. c\<lparr>c_content := []\<rparr>) w)
                        else Some w))))"

definition reset_view :: "uview \<Rightarrow> uview" where
  "reset_view w =
     (let wrong = (\<lambda>c. ''field-validation-error'' \<in> set (c_classes c));
          inside = concat (map c_content (filter wrong (message_containers w)));
          w = (if ''validation-summary-errors'' \<in> set (summary_classes w)
            then w\<lparr>summary_classes := swap_class ''validation-summary-errors'' ''validation-summary-valid'' (summary_classes w)\<rparr>
            else w);
          w = update_containers wrong
            (\<lambda>c. c\<lparr>c_classes := swap_class ''field-validation-error'' ''field-validation-valid'' (c_classes c)\<rparr>) w
      in w\<lparr>ulabels := map (\<lambda>l. if u_id l \<in> set inside then l\<lparr>u_container := None\<rparr> else l) (ulabels w)\<rparr>)"

text \<open>
  \<open>onReset\<close>: the flag keeps a reset event that the reset of the validator triggers from starting over. When
  there is no validator, or its reset throws, the view stays as it is and the flag is cleared all the same.
\<close>

definition reset_validator :: "env \<Rightarrow> nat \<Rightarrow> ustate \<Rightarrow> bool \<times> ustate" where
  "reset_validator v f u =
     (case oget (forms (upage u)) f of
        None \<Rightarrow> (False, u)
      | Some st \<Rightarrow>
          if \<not> active st then (False, u)
          else case resetForm (page_env v (upage u)) (vs st) of
            (ok, s) \<Rightarrow> (ok, u\<lparr>upage := (upage u)\<lparr>forms := oset (forms (upage u)) f (st\<lparr>vs := s\<rparr>)\<rparr>\<rparr>))"

definition onReset :: "env \<Rightarrow> nat \<Rightarrow> ustate \<Rightarrow> ustate" where
  "onReset v f u =
     (if f \<in> set (resetting u) then u
      else
        let u = u\<lparr>resetting := f # resetting u\<rparr>;
            (ok, u) = reset_validator v f u;
            u = u\<lparr>resetting := removeAll f (resetting u)\<rparr>
        in if ok then
             u\<lparr>views := (case oget (views u) f of Some w \<Rightarrow> oset (views u) f (reset_view w) | None \<Rightarrow> views u)\<rparr>
           else u)"

text \<open>The function that unobtrusive Ajax calls.\<close>

definition info_validate :: "env \<Rightarrow> nat \<Rightarrow> ustate \<Rightarrow> bool option option \<times> ustate" where
  "info_validate v f u = (case page_valid_form v f (upage u) of (r, p) \<Rightarrow> (r, u\<lparr>upage := p\<rparr>))"

section \<open>Methods\<close>

definition dummy_method :: "jsv \<Rightarrow> jsres" where
  "dummy_method value = RBool True"

text \<open>
  \<open>regex\<close>: the first match has to start at the start and be as long as the value. A reluctant quantifier is
  read as a greedy one, so patterns with one are outside the model.
\<close>

definition regex_method :: "bool \<Rightarrow> string \<Rightarrow> jsv \<Rightarrow> jsres" where
  "regex_method absent params value =
     (if absent then RBool True
      else case RegExp params of
          None \<Rightarrow> RThrow
        | Some r \<Rightarrow>
            (case regex_exec r (to_text value) of
               None \<Rightarrow> RNull
             | Some (before, matched, after) \<Rightarrow>
                 RBool (before = [] \<and> length_of value = Some (of_nat_num (length matched)))))"

definition nonalphamin_method :: "jsv \<Rightarrow> jsv \<Rightarrow> jsres" where
  "nonalphamin_method value nonalphamin =
     (if truthy_v nonalphamin then
        (case value of
           JStr t \<Rightarrow>
             (let n = length (filter (\<lambda>c. \<not> is_word c) t) in
              if n = 0 then RNull else RBool (nle (js_number_of nonalphamin) (of_nat_num n)))
         | _ \<Rightarrow> RThrow)
      else RUndef)"

end
