(* ===== verification/Unobtrusive_Proofs.thy ===== *)
theory Unobtrusive_Proofs
  imports Unobtrusive
begin

text \<open>
  Lemmas about the unobtrusive library: names and lists of names, what parsing leaves behind, and the message
  containers.
\<close>

section \<open>Names\<close>

lemma meta_same: "set attr_meta = set css_meta"
  by (simp add: attr_meta_def css_meta_def insert_commute)

lemma escape_same: "escapeAttributeValue s = escapeCssMeta s"
  by (simp add: escapeAttributeValue_def escapeCssMeta_def meta_same)

lemma matches_name_iff:
  "list_all (\<lambda>c. \<not> css_newline c) name \<Longrightarrow> matches_name name c \<longleftrightarrow> valmsg_for c = name"
  by (auto simp: matches_name_def escape_same css_string_escape)

text \<open>Names as a server lists them: not empty, without commas, no white space at either end.\<close>

definition tidy :: "string \<Rightarrow> bool" where
  "tidy w \<longleftrightarrow> w \<noteq> [] \<and> CHR '','' \<notin> set w \<and> \<not> is_space (hd w) \<and> \<not> is_space (last w)"

lemma dropWhile_spaces: "list_all is_space a \<Longrightarrow> dropWhile is_space (a @ w) = dropWhile is_space w"
  by (induction a) auto

lemma tidy_trim:
  assumes "tidy w" "list_all is_space a" "list_all is_space b"
  shows "js_trim (a @ w @ b) = w"
proof -
  have "dropWhile is_space (w @ b) = w @ b" using assms(1) by (cases w) (auto simp: tidy_def)
  moreover have "dropWhile is_space (rev b @ rev w) = rev w"
    using assms by (cases w rule: rev_cases) (auto simp: tidy_def dropWhile_spaces list_all_rev)
  ultimately show ?thesis using assms(2) by (simp add: js_trim_def dropWhile_spaces)
qed

text \<open>A list of names, each between white space, separated by commas.\<close>

fun listed :: "(string \<times> string \<times> string) list \<Rightarrow> string" where
  "listed [] = []"
| "listed [(a, w, b)] = a @ w @ b"
| "listed ((a, w, b) # ws) = a @ w @ b @ CHR '','' # listed ws"

definition fine_item :: "string \<times> string \<times> string \<Rightarrow> bool" where
  "fine_item x \<longleftrightarrow> (case x of (a, w, b) \<Rightarrow> tidy w \<and> list_all is_space a \<and> list_all is_space b)"

lemma comma_no_space: "list_all is_space a \<Longrightarrow> list_all (\<lambda>c. c \<noteq> CHR '','') a"
  by (auto simp: list_all_iff is_space_def code_def)

lemma fine_no_comma: "fine_item (a, w, b) \<Longrightarrow> list_all (\<lambda>c. c \<noteq> CHR '','') (a @ w @ b)"
proof -
  assume "fine_item (a, w, b)"
  then have "list_all (\<lambda>c. c \<noteq> CHR '','') a" "list_all (\<lambda>c. c \<noteq> CHR '','') b" "CHR '','' \<notin> set w"
    using comma_no_space by (simp_all add: fine_item_def tidy_def)
  then show ?thesis by (auto simp: list_all_iff)
qed

lemma split_listed:
  "list_all fine_item ws \<Longrightarrow> ws \<noteq> [] \<Longrightarrow>
     map js_trim (split_where (\<lambda>c. c = CHR '','') (listed ws)) = map (fst \<circ> snd) ws"
proof (induction ws rule: listed.induct)
  case (2 a w b)
  then show ?case
    using split_where_single [of "\<lambda>c. c = CHR '',''" "a @ w @ b"] fine_no_comma [of a w b]
    by (auto simp: fine_item_def tidy_trim)
next
  case (3 a w b x ws)
  then have "split_where (\<lambda>c. c = CHR '','') ((a @ w @ b) @ CHR '','' # listed (x # ws)) =
      (a @ w @ b) # split_where (\<lambda>c. c = CHR '','') (listed (x # ws))"
    by (intro split_where_append) (use fine_no_comma [of a w b] in auto)
  with 3 show ?case by (auto simp: fine_item_def tidy_trim)
qed simp

text \<open>Trimming the whole list first changes nothing but the outer white space.\<close>

lemma listed_last: "\<exists>p. \<forall>c. listed (ws @ [(a, w, c)]) = p @ w @ c"
proof (induction ws)
  case (Cons x ws)
  obtain a' w' b' where x: "x = (a', w', b')" by (cases x)
  from Cons obtain p where p: "\<And>c. listed (ws @ [(a, w, c)]) = p @ w @ c" by auto
  have "listed (x # ws @ [(a, w, c)]) = a' @ w' @ b' @ CHR '','' # listed (ws @ [(a, w, c)])" for c
    unfolding x by (cases ws) auto
  then show ?case using p by (intro exI [of _ "a' @ w' @ b' @ CHR '','' # p"]) simp
qed auto

lemma listed_first: "\<exists>p. \<forall>c. listed ((c, w, b) # ws) = c @ w @ p"
  by (cases ws) auto

lemma js_trim_ends:
  assumes "list_all is_space a" "list_all is_space b" "m \<noteq> []" "\<not> is_space (hd m)" "\<not> is_space (last m)"
  shows "js_trim (a @ m @ b) = m"
proof -
  have "dropWhile is_space (m @ b) = m @ b" using assms(3,4) by (cases m) auto
  moreover have "dropWhile is_space (rev b @ rev m) = rev m"
    using assms(2,3,5) by (cases m rule: rev_cases) (auto simp: dropWhile_spaces list_all_rev)
  ultimately show ?thesis using assms(1) by (simp add: js_trim_def dropWhile_spaces)
qed

lemma trim_listed:
  assumes "list_all fine_item ws" "ws \<noteq> []"
  shows "\<exists>us. js_trim (listed ws) = listed us \<and> list_all fine_item us \<and> us \<noteq> [] \<and>
    map (fst \<circ> snd) us = map (fst \<circ> snd) ws"
proof -
  obtain a w b vs where ws: "ws = (a, w, b) # vs" using assms(2) by (cases ws) auto
  obtain p where p: "\<And>c. listed ((c, w, b) # vs) = c @ w @ p" using listed_first by blast
  obtain us a' w' b' where us: "([], w, b) # vs = us @ [(a', w', b')]"
    by (metis list.discI prod_cases3 rev_exhaust)
  obtain q where q: "\<And>c. listed (us @ [(a', w', c)]) = q @ w' @ c" using listed_last by blast
  let ?m = "listed (us @ [(a', w', [])])"
  have "list_all fine_item (us @ [(a', w', b')])"
    unfolding us [symmetric] using assms(1) ws by (simp add: fine_item_def)
  then have fine: "fine_item (a, w, b)" "fine_item (a', w', b')" "list_all fine_item us"
    using assms(1) ws by simp_all
  have L: "listed ws = a @ ?m @ b'" using p [of a] p [of "[]"] q [of "[]"] q [of b'] us ws by simp
  have w: "w \<noteq> []" "\<not> is_space (hd w)" "w' \<noteq> []" "\<not> is_space (last w')"
    using fine by (auto simp: fine_item_def tidy_def)
  have "hd ?m = hd w"
  proof (cases us)
    case Nil
    with us q [of "[]"] w show ?thesis by auto
  next
    case (Cons x xs)
    then have "us @ [(a', w', [])] = ([], w, b) # xs @ [(a', w', [])]" using us by simp
    moreover obtain r where "listed (([], w, b) # xs @ [(a', w', [])]) = [] @ w @ r" using listed_first by blast
    ultimately show ?thesis using w by simp
  qed
  moreover have "last ?m = last w'" "?m \<noteq> []" using q [of "[]"] w by auto
  ultimately have "js_trim (listed ws) = ?m"
    unfolding L using w fine by (intro js_trim_ends) (auto simp: fine_item_def)
  moreover have "map (fst \<circ> snd) (us @ [(a', w', [])]) = map (fst \<circ> snd) (us @ [(a', w', b')])" by simp
  then have "map (fst \<circ> snd) (us @ [(a', w', [])]) = map (fst \<circ> snd) ws" unfolding us [symmetric] ws by simp
  moreover have "list_all fine_item (us @ [(a', w', [])])" using fine by (auto simp: fine_item_def)
  ultimately show ?thesis by blast
qed

lemma splitAndTrim_listed:
  assumes "list_all fine_item ws" "ws \<noteq> []"
  shows "splitAndTrim (listed ws) = map (fst \<circ> snd) ws"
  using trim_listed [OF assms] split_listed unfolding splitAndTrim_def by metis

text \<open>Model names: the prefix of a name is what comes before its last segment.\<close>

lemma getModelPrefix_segment:
  assumes "CHR ''.'' \<notin> set w"
  shows "getModelPrefix (p @ CHR ''.'' # w) = p @ ''.''" "getModelPrefix w = []"
proof -
  have d: "dropWhile (\<lambda>c. c \<noteq> CHR ''.'') (rev w @ r) = dropWhile (\<lambda>c. c \<noteq> CHR ''.'') r" for r
    using assms by (intro dropWhile_append2) auto
  show "getModelPrefix (p @ CHR ''.'' # w) = p @ ''.''" using d by (simp add: getModelPrefix_def)
  show "getModelPrefix w = []" using d [of "[]"] by (simp add: getModelPrefix_def)
qed

lemma expand_plain: "CHR ''$'' \<notin> set p \<Longrightarrow> expand_dollars after p = p"
  by (induction after p rule: expand_dollars.induct) auto

lemma appendModelPrefix_star: "CHR ''$'' \<notin> set p \<Longrightarrow> appendModelPrefix (''*.'' @ w) p = p @ w"
  by (simp add: appendModelPrefix_def expand_plain)

section \<open>Parsing\<close>

lemma validate_active:
  "oget (forms p) f = Some st \<Longrightarrow> active st \<Longrightarrow> validate opts [f] p = (Some f, p)"
  by (simp add: validate_def)

lemma oset_same: "oget ob k = Some v \<Longrightarrow> oset ob k v = ob"
  by (induction ob k v rule: oset.induct) (auto split: if_splits)

lemma validationInfo_page [simp]: "upage (snd (validationInfo f u)) = upage u"
  by (auto simp: validationInfo_def Let_def split: option.split)

lemma attach_active:
  assumes "oget (forms (upage u)) f = Some st" "active st"
  shows "upage (attachValidation f u) = upage u"
  using assms validate_active
  by (auto simp: attachValidation_def Let_def split: prod.split) (metis snd_conv validate_active validationInfo_page)

lemma parseElement_page:
  assumes "\<And>f. owner = Some f \<Longrightarrow> skip \<or> (\<exists>st. oget (forms (upage u)) f = Some st \<and> active st)"
  shows "upage (parseElement owner e skip u) = upage u"
proof (cases owner)
  case None
  then show ?thesis by (simp add: parseElement_def)
next
  case (Some f)
  obtain i u' where u': "validationInfo f u = (i, u')" by fastforce
  have p: "upage u' = upage u" using validationInfo_page [of f u] u' by simp
  let ?u = "u'\<lparr>infos := oset (infos u') f (parse_into (adapters u') e (form_fields f u') i)\<rparr>"
  have "upage (attachValidation f ?u) = upage u" if "\<not> skip"
    using assms [OF Some] that attach_active [of ?u f] p by auto
  with Some u' p show ?thesis by (simp add: parseElement_def Let_def)
qed

lemma parse_fold_page:
  "upage (fold (\<lambda>(f, e) u. if decorated e then parseElement f e True u else u) found u) = upage u"
  by (induction found arbitrary: u) (auto simp: parseElement_page)

lemma attach_fold_page:
  assumes "\<forall>f \<in> set fs. \<exists>st. oget (forms (upage u)) f = Some st \<and> active st"
  shows "upage (fold (\<lambda>f u. if list_ex decorated (form_fields f u) then attachValidation f u else u) fs u) = upage u"
  using assms
proof (induction fs arbitrary: u)
  case (Cons f fs)
  let ?v = "if list_ex decorated (form_fields f u) then attachValidation f u else u"
  have v: "upage ?v = upage u" using Cons.prems attach_active by auto
  have "upage (fold (\<lambda>f u. if list_ex decorated (form_fields f u) then attachValidation f u else u) fs ?v) = upage ?v"
    by (rule Cons.IH) (use Cons.prems v in simp)
  with v show ?case by simp
qed simp

lemma parse_page:
  assumes "\<forall>f \<in> set fs. \<exists>st. oget (forms (upage u)) f = Some st \<and> active st"
  shows "upage (parse found fs u) = upage u"
proof -
  let ?u = "fold (\<lambda>(f, e) u. if decorated e then parseElement f e True u else u) found u"
  have p: "upage ?u = upage u" by (rule parse_fold_page)
  then have "\<forall>f \<in> set fs. \<exists>st. oget (forms (upage ?u)) f = Some st \<and> active st" using assms by simp
  from attach_fold_page [OF this] p show ?thesis by (simp only: parse_def Let_def)
qed

lemma oget_map_keys: "oget (map (\<lambda>k. (k, f k)) ks) k = (if k \<in> set ks then Some (f k) else None)"
  by (induction ks) auto

lemma param_value_missing:
  "k \<notin> set ks \<Longrightarrow> param_value \<lparr>o_element = e, o_form = fm, o_message = m, o_params = map (\<lambda>k. (k, f k)) ks\<rparr> k = JUndef"
  by (simp add: param_value_def oget_map_keys)

section \<open>Message containers\<close>

lemma filter_map_same: "(\<And>c. p (f c) = p c) \<Longrightarrow> filter p (map (\<lambda>c. if q c then f c else c) cs) = map (\<lambda>c. if q c then f c else c) (filter p cs)"
  by (induction cs) auto

lemma replace_json_update:
  assumes "\<And>c. valmsg_for (g c) = valmsg_for c \<and> valmsg_replace (g c) = valmsg_replace c"
  shows "replace_json name (update_containers q g w) = replace_json name w"
proof -
  have "matches_name name (g c) = matches_name name c" for c using assms by (simp add: matches_name_def)
  then have f: "filter (matches_name name) (message_containers (update_containers q g w)) =
      map (\<lambda>c. if q c then g c else c) (filter (matches_name name) (message_containers w))"
    unfolding update_containers_def by (simp add: filter_map_same)
  show ?thesis
    unfolding replace_json_def f using assms by (cases "filter (matches_name name) (message_containers w)") auto
qed

lemma replace_json_label [simp]: "replace_json name (update_label i f w) = replace_json name w"
  by (simp add: replace_json_def update_label_def)

text \<open>The containers after the callbacks: those of the field change, the others stay.\<close>

definition mark :: "string \<Rightarrow> string \<Rightarrow> nat list option \<Rightarrow> container \<Rightarrow> container" where
  "mark out into content c =
     c\<lparr>c_classes := swap_class out into (c_classes c), c_content := (case content of None \<Rightarrow> c_content c | Some is \<Rightarrow> is)\<rparr>"

lemma mark_simps [simp]:
  "valmsg_for (mark out into content c) = valmsg_for c"
  "c_classes (mark out into content c) = swap_class out into (c_classes c)"
  by (simp_all add: mark_def)

lemma swap_class_mem [simp]: "out \<noteq> into \<Longrightarrow> into \<in> set (swap_class out into cs) \<and> out \<notin> set (swap_class out into cs)"
  by (simp add: swap_class_def)

lemma update_label_containers [simp]: "message_containers (update_label i f w) = message_containers w"
  by (simp add: update_label_def)

lemma matches_updates [simp]:
  "matches_name name (c\<lparr>c_classes := cs\<rparr>) = matches_name name c" "matches_name name (mark out into content c) = matches_name name c"
  by (simp_all add: matches_name_def)

lemma onError_containers:
  assumes "onError label e w = Some w'"
  shows "\<exists>content. message_containers w' =
      map (\<lambda>c. if matches_name (fname e) c then mark ''field-validation-valid'' ''field-validation-error'' content c else c)
        (message_containers w)"
proof -
  obtain json where json: "replace_json (fname e) w = Some json" using assms by (auto simp: onError_def split: option.splits)
  let ?r = "case json of None \<Rightarrow> False | Some v \<Rightarrow> \<not> is_false v"
  show ?thesis
    using assms json
    by (intro exI [of _ "if ?r then Some [label] else None"])
      (auto simp: onError_def Let_def update_containers_def mark_def comp_def split: if_splits)
qed

lemma onSuccess_containers:
  assumes "onSuccess label w = Some w'" and "find (\<lambda>l. u_id l = label) (ulabels w) = Some l" and "u_container l = Some name"
  shows "\<exists>content. message_containers w' =
      map (\<lambda>c. if matches_name name c then mark ''field-validation-error'' ''field-validation-valid'' content c else c)
        (message_containers w)"
proof -
  obtain json where json: "replace_json name w = Some json" using assms by (auto simp: onSuccess_def split: option.splits)
  let ?r = "case json of None \<Rightarrow> False | Some v \<Rightarrow> truthy_v v"
  show ?thesis
    using assms json
    by (intro exI [of _ "if ?r then Some [] else None"])
      (auto simp: onSuccess_def Let_def update_containers_def mark_def comp_def split: if_splits)
qed

lemma find_update:
  assumes "find (\<lambda>l. u_id l = i) ls = Some l" "\<And>l. u_id (f l) = u_id l"
  shows "find (\<lambda>l. u_id l = i) (map (\<lambda>l. if u_id l = i then f l else l) ls) = Some (f l)"
  using assms by (induction ls) (auto split: if_splits)

lemma onError_label:
  assumes "onError label e w = Some w'" and "find (\<lambda>l. u_id l = label) (ulabels w) = Some l"
  shows "\<exists>l'. find (\<lambda>l. u_id l = label) (ulabels w') = Some l' \<and> u_container l' = Some (fname e)"
proof -
  let ?g = "\<lambda>l. l\<lparr>u_container := Some (fname e)\<rparr>"
  have f: "find (\<lambda>l. u_id l = label) (map (\<lambda>l. if u_id l = label then ?g l else l) (ulabels w)) = Some (?g l)"
    by (rule find_update [OF assms(2)]) simp
  obtain json where "replace_json (fname e) w = Some json" using assms by (auto simp: onError_def split: option.splits)
  then have "ulabels w' = map (\<lambda>l. if u_id l = label then l\<lparr>u_hidden := True\<rparr> else l)
        (map (\<lambda>l. if u_id l = label then ?g l else l) (ulabels w)) \<or>
      ulabels w' = map (\<lambda>l. if u_id l = label then l\<lparr>u_classes := filter (\<lambda>c. c \<noteq> ''input-validation-error'') (u_classes l)\<rparr> else l)
        (map (\<lambda>l. if u_id l = label then ?g l else l) (ulabels w))"
    using assms(1) by (auto simp: onError_def Let_def update_containers_def update_label_def split: if_splits)
  then show ?thesis
    using find_update [OF f, of "\<lambda>l. l\<lparr>u_hidden := True\<rparr>"]
      find_update [OF f, of "\<lambda>l. l\<lparr>u_classes := filter (\<lambda>c. c \<noteq> ''input-validation-error'') (u_classes l)\<rparr>"]
    by auto
qed

lemma containers_follow:
  assumes "list_all (\<lambda>c. \<not> css_newline c) (fname e)" and "find (\<lambda>l. u_id l = label) (ulabels w) = Some l"
    and "onError label e w = Some w1" and "onSuccess label w1 = Some w2"
  shows "(\<forall>c \<in> set (message_containers w1). valmsg_for c = fname e \<longrightarrow>
      ''field-validation-error'' \<in> set (c_classes c) \<and> ''field-validation-valid'' \<notin> set (c_classes c)) \<and>
    (\<forall>c \<in> set (message_containers w2). valmsg_for c = fname e \<longrightarrow>
      ''field-validation-valid'' \<in> set (c_classes c) \<and> ''field-validation-error'' \<notin> set (c_classes c)) \<and>
    filter (\<lambda>c. valmsg_for c \<noteq> fname e) (message_containers w2) = filter (\<lambda>c. valmsg_for c \<noteq> fname e) (message_containers w)"
proof -
  have m: "matches_name (fname e) = (\<lambda>c. valmsg_for c = fname e)" using matches_name_iff [OF assms(1)] by blast
  obtain k1 where w1: "message_containers w1 = map (\<lambda>c. if valmsg_for c = fname e
      then mark ''field-validation-valid'' ''field-validation-error'' k1 c else c) (message_containers w)"
    using onError_containers [OF assms(3)] unfolding m by blast
  obtain l' where l': "find (\<lambda>l. u_id l = label) (ulabels w1) = Some l'" "u_container l' = Some (fname e)"
    using onError_label [OF assms(3,2)] by blast
  obtain k2 where w2: "message_containers w2 = map (\<lambda>c. if valmsg_for c = fname e
      then mark ''field-validation-error'' ''field-validation-valid'' k2 c else c) (message_containers w1)"
    using onSuccess_containers [OF assms(4) l'] unfolding m by blast
  have others: "filter (\<lambda>c. valmsg_for c \<noteq> n) (map (\<lambda>c. if valmsg_for c = n then g c else c) cs) =
      filter (\<lambda>c. valmsg_for c \<noteq> n) cs" if "\<And>c. valmsg_for (g c) = valmsg_for c" for g cs n
    using that by (induction cs) auto
  have "filter (\<lambda>c. valmsg_for c \<noteq> fname e) (message_containers w2) =
      filter (\<lambda>c. valmsg_for c \<noteq> fname e) (message_containers w1)"
    unfolding w2 by (rule others) simp
  also have "\<dots> = filter (\<lambda>c. valmsg_for c \<noteq> fname e) (message_containers w)"
    unfolding w1 by (rule others) simp
  finally have same: "filter (\<lambda>c. valmsg_for c \<noteq> fname e) (message_containers w2) =
      filter (\<lambda>c. valmsg_for c \<noteq> fname e) (message_containers w)" .
  have "\<forall>c \<in> set (message_containers w1). valmsg_for c = fname e \<longrightarrow>
      ''field-validation-error'' \<in> set (c_classes c) \<and> ''field-validation-valid'' \<notin> set (c_classes c)"
    unfolding w1 by auto
  moreover have "\<forall>c \<in> set (message_containers w2). valmsg_for c = fname e \<longrightarrow>
      ''field-validation-valid'' \<in> set (c_classes c) \<and> ''field-validation-error'' \<notin> set (c_classes c)"
    unfolding w2 by auto
  ultimately show ?thesis using same by blast
qed

end
