(* ===== verification/Unobtrusive_Properties.thy ===== *)
theory Unobtrusive_Properties
  imports Unobtrusive_Proofs Validate_Demo
begin

text \<open>
  The properties of \<open>jquery.validate.unobtrusive.js\<close> and of the copying of objects it and the validator rely
  on (\<open>jQuery.extend\<close>).
\<close>

text \<open>C10: Copying an object deeply into an empty one gives the object back, without its undefined
  properties and without any \<open>__proto__\<close>, at every depth.\<close>

theorem deep_copy_is_clean:
  assumes "is_plain v" and "well_formed v"
  shows "jquery_extend True (JObj []) [v] = clean v"
  using extend_deep_clean [OF assms(2)] assms(1) by (cases v) (simp_all add: jquery_extend_def nullish_def is_plain_def)

theorem deep_copy_is_clean_witness:
  "jquery_extend True (JObj []) [JObj [(''url'', JStr ''/check''), (''__proto__'', JObj [(''admin'', JBool True)]),
      (''data'', JObj [(''ids'', JArr [JBool True, JObj [(''x'', JUndef)]]), (''gone'', JUndef)])]] =
    JObj [(''url'', JStr ''/check''), (''data'', JObj [(''ids'', JArr [JBool True, JObj []])])]"
  by (subst deep_copy_is_clean) (simp_all add: is_plain_def obj_ok_def okeys_def is_undef_def)

text \<open>A list of field names, each name surrounded by any white space and separated by commas, is read
  back as the names.\<close>

theorem field_list_roundtrip:
  assumes "list_all fine_item ws" and "ws \<noteq> []"
  shows "splitAndTrim (listed ws) = map (fst \<circ> snd) ws"
  using assms by (rule splitAndTrim_listed)

theorem field_list_roundtrip_witness: "splitAndTrim '' *.Name ,Id '' = [''*.Name'', ''Id'']"
proof -
  let ?ws = "[('' '', ''*.Name'', '' ''), ([], ''Id'', '' '')]"
  have "list_all fine_item ?ws" by code_simp
  from field_list_roundtrip [OF this] show ?thesis by simp
qed

text \<open>The adapter \<open>equalto\<close> of the field \<open>p.n\<close> with the other field \<open>*.w\<close> compares with the first input
  of the form that is named \<open>p.w\<close>: the star stands for the field's own prefix.\<close>

theorem equalto_compares_sibling:
  assumes "fname (o_element opts) = p @ CHR ''.'' # n" and "CHR ''.'' \<notin> set n" and "CHR ''$'' \<notin> set p"
    and "param_value opts ''other'' = JStr (''*.'' @ w)" and "list_all (\<lambda>c. \<not> css_newline c) (p @ ''.'' @ w)"
    and "filter (\<lambda>e. to_lower (nodeName e) \<in> {''input'', ''select'', ''textarea'', ''button''} \<and> fname e = p @ ''.'' @ w)
      (o_form opts) = e # es"
  shows "oget (fst (adapt_equalto opts t)) ''equalTo'' = Some (JElem ''[object HTMLInputElement]'' (eid e))"
proof -
  have "css_string (escapeAttributeValue (p @ ''.'' @ w)) = Some (p @ ''.'' @ w)"
    using css_string_escape [OF assms(5)] by (simp only: escape_same)
  then have "inputs_named (p @ ''.'' @ w) (o_form opts) = filter (\<lambda>e. to_lower (nodeName e) \<in>
      {''input'', ''select'', ''textarea'', ''button''} \<and> fname e = p @ ''.'' @ w) (o_form opts)"
    unfolding inputs_named_def by (intro filter_cong) auto
  then have "inputs_named (p @ ''.'' @ w) (o_form opts) = e # es" using assms(6) by simp
  moreover have "appendModelPrefix (''*.'' @ w) (p @ ''.'') = p @ ''.'' @ w"
    using appendModelPrefix_star [of "p @ ''.''" w] assms(3) by simp
  moreover have "getModelPrefix (fname (o_element opts)) = p @ ''.''"
    using getModelPrefix_segment(1) [OF assms(2)] assms(1) by simp
  ultimately show ?thesis
    unfolding adapt_equalto_def Let_def setValidationValues_def using assms(4) by simp
qed

definition plain_field :: "nat \<Rightarrow> string \<Rightarrow> string obj \<Rightarrow> element" where
  "plain_field i name as =
     \<lparr>eid = i, nodeName = ''INPUT'', ftype = ''text'', fname = name, html_id = name, fvalue = VText [],
      checked = False, badInput = None, contenteditable = None, ftext = [], selected = 0, ignored = False,
      button_like = False, own_form = True, inside_form = True, ftitle = [],
      attrs = as, data = [], classes = None\<rparr>"

theorem equalto_compares_sibling_witness:
  "oget (fst (adapt_equalto \<lparr>o_element = plain_field 2 ''User.Confirm'' [], o_form = [plain_field 1 ''User.Password'' []],
     o_message = ''differs'', o_params = [(''other'', Some ''*.Password'')]\<rparr> ([], []))) ''equalTo'' =
   Some (JElem ''[object HTMLInputElement]'' (eid (plain_field 1 ''User.Password'' [])))"
proof (rule equalto_compares_sibling [of _ "''User''" "''Confirm''" "''Password''" _ "[]"])
  show "list_all (\<lambda>c. \<not> css_newline c) (''User'' @ ''.'' @ ''Password'')" by code_simp
  have "to_lower ''INPUT'' = ''input''" by code_simp
  then show "filter (\<lambda>e. to_lower (nodeName e) \<in> {''input'', ''select'', ''textarea'', ''button''} \<and> fname e = ''User'' @ ''.'' @ ''Password'')
    (o_form \<lparr>o_element = plain_field 2 ''User.Confirm'' [], o_form = [plain_field 1 ''User.Password'' []],
       o_message = ''differs'', o_params = [(''other'', Some ''*.Password'')]\<rparr>) = [plain_field 1 ''User.Password'' []]"
    by (simp add: plain_field_def)
qed (simp_all add: plain_field_def param_value_def)

text \<open>C11: Parsing a page again never changes a form that already has a validator: rules of fields that were
  added since then are collected, but the validator keeps the rules it started with.\<close>

theorem parse_keeps_validators:
  assumes "\<forall>f \<in> set fs. \<exists>st. oget (forms (upage u)) f = Some st \<and> active st"
  shows "upage (parse found fs u) = upage u"
  using assms by (rule parse_page)

definition demo_ustate :: ustate where
  "demo_ustate =
     \<lparr>upage = \<lparr>forms = [(0, \<lparr>vs = demo_page, active = True, novalidate = True, containers_of = []\<rparr>)],
        defaults = default_options, registry = demo_config, registered_messages = []\<rparr>,
      adapters = builtin_adapters False, infos = [], views = [], resetting = [], reset_bound = []\<rparr>"

definition late_field :: element where
  "late_field = plain_field 3 ''late'' [(''data-val'', ''true''), (''data-val-required'', ''Missing.'')]"

theorem parse_keeps_validators_witness:
  "upage (parse [(Some 0, late_field)] [0] demo_ustate) = upage demo_ustate \<and>
   map fst (case oget (infos (parse [(Some 0, late_field)] [0] demo_ustate)) 0 of Some i \<Rightarrow> i_rules i | None \<Rightarrow> []) = [''late'']"
proof
  show "upage (parse [(Some 0, late_field)] [0] demo_ustate) = upage demo_ustate"
    by (rule parse_keeps_validators) (simp add: demo_ustate_def)
qed code_simp

text \<open>\<open>addSingleVal\<close> without an attribute name never passes a value on, whatever the markup says, and
  \<open>addMinMax\<close> with attribute names of its own never sets a rule.\<close>

theorem default_attribute_is_lost:
  assumes "oget (attrs e) (''data-val-'' @ n) = Some msg" and "lo \<noteq> ''min'' \<and> lo \<noteq> ''max'' \<and> lo \<noteq> []"
    and "hi \<noteq> ''min'' \<and> hi \<noteq> ''max'' \<and> hi \<noteq> []"
  shows "oget (fst (adapter_step e fm (last (addSingleVal n None r as)) t)) (or_default r n) = Some JUndef \<and>
    adapter_step e fm (last (addMinMax n a b c (Some lo) (Some hi) as)) t = t"
proof
  have step: "adapter_step e fm (last (add_adapter n ks f as)) t = f \<lparr>o_element = e, o_form = fm, o_message = msg,
      o_params = map (\<lambda>k. (k, oget (attrs e) (''data-val-'' @ n @ ''-'' @ k))) ks\<rparr> t" for ks f
    using assms(1) by (simp add: adapter_step_def add_adapter_def)
  show "oget (fst (adapter_step e fm (last (addSingleVal n None r as)) t)) (or_default r n) = Some JUndef"
    unfolding addSingleVal_def step setValidationValues_def
    by (subst param_value_missing) (simp_all add: or_default_def key_text_def)
  have "or_default (Some lo) ''min'' = lo" "or_default (Some hi) ''max'' = hi" using assms(2,3) by (simp_all add: or_default_def)
  moreover have "''min'' \<notin> set [lo, hi]" "''max'' \<notin> set [lo, hi]" using assms(2,3) by auto
  ultimately show "adapter_step e fm (last (addMinMax n a b c (Some lo) (Some hi) as)) t = t"
    unfolding addMinMax_def step by (simp only: min_max_def param_value_missing Let_def truthy_v.simps if_False simp_thms)
qed

theorem default_attribute_is_lost_witness:
  "oget (fst (adapter_step (plain_field 1 ''age'' [(''data-val-older'', ''too young''), (''data-val-older-val'', ''18'')]) []
     (last (addSingleVal ''older'' None None [])) ([], []))) ''older'' = Some JUndef"
  using default_attribute_is_lost [of "plain_field 1 ''age'' [(''data-val-older'', ''too young''), (''data-val-older-val'', ''18'')]"
      "''older''" "''too young''" "''from''" "''to''" "[]" None "[]" "([], [])"]
  by (simp add: plain_field_def or_default_def)

text \<open>C12: A field's message containers are marked as wrong when its error is placed and as valid when it is
  lifted, and the containers of other fields are never touched.\<close>

theorem containers_follow_field:
  assumes "list_all (\<lambda>c. \<not> css_newline c) (fname e)" and "find (\<lambda>l. u_id l = label) (ulabels w) = Some l"
    and "onError label e w = Some w1" and "onSuccess label w1 = Some w2"
  shows "(\<forall>c \<in> set (message_containers w1). valmsg_for c = fname e \<longrightarrow>
      ''field-validation-error'' \<in> set (c_classes c) \<and> ''field-validation-valid'' \<notin> set (c_classes c)) \<and>
    (\<forall>c \<in> set (message_containers w2). valmsg_for c = fname e \<longrightarrow>
      ''field-validation-valid'' \<in> set (c_classes c) \<and> ''field-validation-error'' \<notin> set (c_classes c)) \<and>
    filter (\<lambda>c. valmsg_for c \<noteq> fname e) (message_containers w2) = filter (\<lambda>c. valmsg_for c \<noteq> fname e) (message_containers w)"
  using assms by (rule containers_follow)

definition demo_view :: uview where
  "demo_view =
     \<lparr>message_containers = [\<lparr>valmsg_for = ''age'', valmsg_replace = Some ''true'', c_classes = [''field-validation-valid''], c_content = []\<rparr>,
        \<lparr>valmsg_for = ''user'', valmsg_replace = None, c_classes = [''field-validation-valid''], c_content = []\<rparr>],
      summary_classes = [], summary_items = None,
      ulabels = [\<lparr>u_id = 7, u_classes = [''input-validation-error''], u_hidden = False, u_container = None\<rparr>]\<rparr>"

theorem containers_follow_field_witness:
  "map c_classes (message_containers (the (onSuccess 7 (the (onError 7 (plain_field 1 ''age'' []) demo_view))))) =
     [[''field-validation-valid''], [''field-validation-valid'']] \<and>
   filter (\<lambda>c. valmsg_for c \<noteq> ''age'') (message_containers (the (onSuccess 7 (the (onError 7 (plain_field 1 ''age'' []) demo_view))))) =
   filter (\<lambda>c. valmsg_for c \<noteq> ''age'') (message_containers demo_view)"
proof
  let ?e = "plain_field 1 ''age'' []" and ?w1 = "the (onError 7 (plain_field 1 ''age'' []) demo_view)"
  have l: "\<not> Option.is_none (find (\<lambda>l. u_id l = 7) (ulabels demo_view))" "\<not> Option.is_none (onError 7 ?e demo_view)"
    "\<not> Option.is_none (onSuccess 7 ?w1)" "list_all (\<lambda>c. \<not> css_newline c) (fname ?e)" by code_simp+
  then obtain l0 where f: "find (\<lambda>l. u_id l = 7) (ulabels demo_view) = Some l0" "onError 7 ?e demo_view = Some ?w1"
    "onSuccess 7 ?w1 = Some (the (onSuccess 7 ?w1))" by (auto simp: Option.is_none_def)
  have "fname ?e = ''age''" by (simp add: plain_field_def)
  then show "filter (\<lambda>c. valmsg_for c \<noteq> ''age'') (message_containers (the (onSuccess 7 ?w1))) =
      filter (\<lambda>c. valmsg_for c \<noteq> ''age'') (message_containers demo_view)"
    using containers_follow_field [OF l(4) f] by simp
qed code_simp

end
