(* ===== verification/Jq_Callbacks.thy ===== *)
theory Jq_Callbacks
  imports Jquery_Core Validate_Rules
begin

text \<open>
  \<open>jQuery.Callbacks\<close>: a list of functions that is fired with values, with the flags \<open>once\<close>, \<open>memory\<close>,
  \<open>unique\<close> and \<open>stopOnFalse\<close>. The loop of \<open>fire\<close> is given step by step, because a function that is being
  called may add to, remove from, fire or disable the very list that calls it; \<open>fire_pure\<close> runs the
  loop for functions that only compute.
\<close>

section \<open>State\<close>

text \<open>
  \<open>lst\<close> is \<open>None\<close> when the code has \<open>list = ""\<close>, \<open>memory\<close> is \<open>None\<close> when it is falsy. A value stands for the
  context and the arguments of a call.
\<close>

record ('f, 'v) callbacks =
  flag_once :: bool
  flag_memory :: bool
  flag_unique :: bool
  flag_stop :: bool
  firing :: bool
  fired :: bool
  locked :: bool
  memory :: "'v option"
  lst :: "'f list option"
  queue :: "'v list"
  firingIndex :: int

definition white :: "char \<Rightarrow> bool" where
  "white c \<longleftrightarrow> code c \<in> {32, 9, 13, 10, 12}"

definition createOptions :: "string \<Rightarrow> string list" where
  "createOptions options = filter (\<lambda>w. w \<noteq> []) (split_where white options)"

definition Callbacks :: "string \<Rightarrow> ('f, 'v) callbacks" where
  "Callbacks options =
     (let flags = createOptions options in
      \<lparr>flag_once = ''once'' \<in> set flags, flag_memory = ''memory'' \<in> set flags, flag_unique = ''unique'' \<in> set flags,
       flag_stop = ''stopOnFalse'' \<in> set flags, firing = False, fired = False, locked = False, memory = None,
       lst = Some [], queue = [], firingIndex = -1\<rparr>)"

definition entries :: "('f, 'v) callbacks \<Rightarrow> 'f list" where
  "entries c = (case lst c of Some l \<Rightarrow> l | None \<Rightarrow> [])"

section \<open>The loop of fire\<close>

definition begin_fire :: "('f, 'v) callbacks \<Rightarrow> ('f, 'v) callbacks" where
  "begin_fire c = c\<lparr>locked := locked c \<or> flag_once c, fired := True, firing := True\<rparr>"

text \<open>The outer loop takes the next value of the queue, or ends the firing.\<close>

definition finish_fire :: "('f, 'v) callbacks \<Rightarrow> ('f, 'v) callbacks" where
  "finish_fire c =
     (let c = c\<lparr>memory := (if flag_memory c then memory c else None), firing := False\<rparr>
      in if locked c then c\<lparr>lst := (if memory c \<noteq> None then Some [] else None)\<rparr> else c)"

definition next_value :: "('f, 'v) callbacks \<Rightarrow> ('f, 'v) callbacks option" where
  "next_value c = (case queue c of [] \<Rightarrow> None | v # vs \<Rightarrow> Some (c\<lparr>memory := Some v, queue := vs\<rparr>))"

text \<open>The inner loop goes to the next function and calls it with the remembered value.\<close>

definition advance :: "('f, 'v) callbacks \<Rightarrow> ('f, 'v) callbacks" where
  "advance c = c\<lparr>firingIndex := firingIndex c + 1\<rparr>"

definition current :: "('f, 'v) callbacks \<Rightarrow> ('f \<times> 'v) option" where
  "current c =
     (if firingIndex c < int (length (entries c)) then
        map_option (\<lambda>v. (entries c ! nat (firingIndex c), v)) (memory c)
      else None)"

definition end_value :: "('f, 'v) callbacks \<Rightarrow> ('f, 'v) callbacks" where
  "end_value c = c\<lparr>firingIndex := -1\<rparr>"

definition after_call :: "bool \<Rightarrow> ('f, 'v) callbacks \<Rightarrow> ('f, 'v) callbacks" where
  "after_call returned_false c =
     (if returned_false \<and> flag_stop c then c\<lparr>firingIndex := int (length (entries c)), memory := None\<rparr> else c)"

section \<open>Operations\<close>

text \<open>The arguments of \<open>add\<close>: functions, arrays of arguments, and anything else, which is left out.\<close>

datatype 'f arg = Fn 'f | Args "'f arg list" | Other

fun add_args :: "bool \<Rightarrow> 'f list \<Rightarrow> 'f arg list \<Rightarrow> 'f list" where
  "add_args uniq l [] = l"
| "add_args uniq l (Fn f # as) = add_args uniq (if uniq \<and> f \<in> set l then l else l @ [f]) as"
| "add_args uniq l (Args bs # as) = add_args uniq (add_args uniq l bs) as"
| "add_args uniq l (Other # as) = add_args uniq l as"

text \<open>Each of the following yields the new list and whether \<open>fire\<close> has to be run.\<close>

definition cb_add :: "'f arg list \<Rightarrow> ('f, 'v) callbacks \<Rightarrow> ('f, 'v) callbacks \<times> bool" where
  "cb_add args c =
     (case lst c of
        None \<Rightarrow> (c, False)
      | Some l \<Rightarrow>
          (let refire = (case memory c of Some v \<Rightarrow> if firing c then None else Some v | None \<Rightarrow> None);
               c = (case refire of Some v \<Rightarrow> c\<lparr>firingIndex := int (length l) - 1, queue := queue c @ [v]\<rparr> | None \<Rightarrow> c)
           in (c\<lparr>lst := Some (add_args (flag_unique c) l args)\<rparr>, refire \<noteq> None)))"

definition cb_fireWith :: "'v \<Rightarrow> ('f, 'v) callbacks \<Rightarrow> ('f, 'v) callbacks \<times> bool" where
  "cb_fireWith v c = (if locked c then (c, False) else (c\<lparr>queue := queue c @ [v]\<rparr>, \<not> firing c))"

text \<open>Removing every occurrence of a function; the firing index moves with the functions before it.\<close>

fun remove_each :: "'f \<Rightarrow> nat \<Rightarrow> 'f list \<Rightarrow> int \<Rightarrow> 'f list \<times> int" where
  "remove_each f i [] fi = ([], fi)"
| "remove_each f i (g # gs) fi =
     (if g = f then remove_each f i gs (if int i \<le> fi then fi - 1 else fi)
      else case remove_each f (Suc i) gs fi of (l, k) \<Rightarrow> (g # l, k))"

definition cb_remove1 :: "'f \<Rightarrow> ('f, 'v) callbacks \<Rightarrow> ('f, 'v) callbacks" where
  "cb_remove1 f c =
     (case lst c of
        None \<Rightarrow> c
      | Some l \<Rightarrow> (case remove_each f 0 l (firingIndex c) of (l, k) \<Rightarrow> c\<lparr>lst := Some l, firingIndex := k\<rparr>))"

definition cb_remove :: "'f list \<Rightarrow> ('f, 'v) callbacks \<Rightarrow> ('f, 'v) callbacks" where
  "cb_remove fs c = fold cb_remove1 fs c"

definition cb_has :: "'f option \<Rightarrow> ('f, 'v) callbacks \<Rightarrow> bool" where
  "cb_has f c = (case f of Some g \<Rightarrow> g \<in> set (entries c) | None \<Rightarrow> entries c \<noteq> [])"

definition cb_empty :: "('f, 'v) callbacks \<Rightarrow> ('f, 'v) callbacks" where
  "cb_empty c = (case lst c of Some l \<Rightarrow> c\<lparr>lst := Some []\<rparr> | None \<Rightarrow> c)"

definition cb_disable :: "('f, 'v) callbacks \<Rightarrow> ('f, 'v) callbacks" where
  "cb_disable c = c\<lparr>locked := True, queue := [], lst := None, memory := None\<rparr>"

definition cb_disabled :: "('f, 'v) callbacks \<Rightarrow> bool" where
  "cb_disabled c \<longleftrightarrow> lst c = None"

definition cb_lock :: "('f, 'v) callbacks \<Rightarrow> ('f, 'v) callbacks" where
  "cb_lock c =
     (let c = c\<lparr>locked := True, queue := []\<rparr>
      in if memory c = None \<and> \<not> firing c then c\<lparr>lst := None\<rparr> else c)"

definition cb_locked :: "('f, 'v) callbacks \<Rightarrow> bool" where
  "cb_locked c \<longleftrightarrow> locked c"

definition cb_fired :: "('f, 'v) callbacks \<Rightarrow> bool" where
  "cb_fired c \<longleftrightarrow> fired c"

section \<open>Functions that only compute\<close>

text \<open>
  The loop for functions that leave the list alone: \<open>res\<close> says whether a function returns false for a
  value. The fuel counts turns of either loop.
\<close>

fun fire_pure :: "('f \<Rightarrow> 'v \<Rightarrow> bool) \<Rightarrow> nat \<Rightarrow> bool \<Rightarrow> ('f, 'v) callbacks \<Rightarrow> (('f \<times> 'v) list \<times> ('f, 'v) callbacks) option" where
  "fire_pure res 0 inner c = None"
| "fire_pure res (Suc n) inner c =
     (if inner then
        (let c = advance c in
         case current c of
           Some (f, v) \<Rightarrow>
             map_option (\<lambda>(calls, d). ((f, v) # calls, d)) (fire_pure res n True (after_call (res f v) c))
         | None \<Rightarrow> fire_pure res n False (end_value c))
      else
        case next_value c of
          Some c \<Rightarrow> fire_pure res n True c
        | None \<Rightarrow> Some ([], finish_fire c))"

definition fire_now :: "('f \<Rightarrow> 'v \<Rightarrow> bool) \<Rightarrow> nat \<Rightarrow> ('f, 'v) callbacks \<times> bool \<Rightarrow> (('f \<times> 'v) list \<times> ('f, 'v) callbacks) option" where
  "fire_now res n cb = (case cb of (c, go) \<Rightarrow> if go then fire_pure res n False (begin_fire c) else Some ([], c))"

text \<open>What one value calls: the functions up to the first that returns false, if the list stops on it.\<close>

fun called :: "bool \<Rightarrow> ('f \<Rightarrow> 'v \<Rightarrow> bool) \<Rightarrow> 'v \<Rightarrow> 'f list \<Rightarrow> 'f list" where
  "called stop res v [] = []"
| "called stop res v (f # fs) = (if stop \<and> res f v then [f] else f # called stop res v fs)"

definition stopped :: "bool \<Rightarrow> ('f \<Rightarrow> 'v \<Rightarrow> bool) \<Rightarrow> 'v \<Rightarrow> 'f list \<Rightarrow> bool" where
  "stopped stop res v fs \<longleftrightarrow> stop \<and> list_ex (\<lambda>f. res f v) fs"

lemma after_call_id: "\<not> (r \<and> flag_stop c) \<Longrightarrow> after_call r c = c"
  by (auto simp: after_call_def)

lemma map_calls:
  "map_option (\<lambda>(calls, d). (x # calls, d)) (map_option (\<lambda>(calls, d). (xs @ calls, d)) z) =
     map_option (\<lambda>(calls, d). ((x # xs) @ calls, d)) z"
  by (cases z) auto

text \<open>The inner loop from an index on: \<open>m\<close> turns and one to leave it.\<close>

lemma fire_inner:
  assumes "lst c = Some l" and "memory c = Some v" and "firingIndex c = int i - 1" and "i \<le> length l"
  shows "\<exists>m. m \<le> length l - i \<and> (\<forall>n. fire_pure res (Suc (n + m)) True c =
    map_option (\<lambda>(calls, d). (map (\<lambda>f. (f, v)) (called (flag_stop c) res v (drop i l)) @ calls, d))
      (fire_pure res n False (c\<lparr>firingIndex := -1, memory := (if stopped (flag_stop c) res v (drop i l) then None else Some v)\<rparr>)))"
  using assms
proof (induction "length l - i" arbitrary: i c)
  case 0
  then have i: "i = length l" by simp
  have "current (advance c) = None"
    using 0 i by (simp add: current_def advance_def entries_def)
  moreover have "end_value (advance c) = c\<lparr>firingIndex := -1, memory := Some v\<rparr>"
    using 0 by (simp add: end_value_def advance_def)
  ultimately show ?case
    using i by (intro exI [of _ 0]) (auto simp: stopped_def option.map_ident Let_def split_beta)
next
  case (Suc k)
  then have i: "i < length l" by simp
  then have d: "drop i l = l ! i # drop (Suc i) l" by (simp add: Cons_nth_drop_Suc)
  let ?c = "advance c"
  have cur: "current ?c = Some (l ! i, v)"
    using Suc.prems i by (simp add: current_def advance_def entries_def)
  show ?case
  proof (cases "flag_stop c \<and> res (l ! i) v")
    case True
    let ?s = "after_call True ?c"
    have s: "?s = c\<lparr>firingIndex := int (length l), memory := None\<rparr>"
      using True Suc.prems by (simp add: after_call_def advance_def entries_def)
    have "current (advance ?s) = None" unfolding s by (simp add: current_def advance_def entries_def)
    moreover have "end_value (advance ?s) = c\<lparr>firingIndex := -1, memory := None\<rparr>" unfolding s by (simp add: end_value_def advance_def)
    ultimately have t: "fire_pure res (Suc n) True ?s = fire_pure res n False (c\<lparr>firingIndex := -1, memory := None\<rparr>)" for n
      by simp
    have r: "res (l ! i) v = True" using True by simp
    have "fire_pure res (Suc (n + 1)) True c =
        map_option (\<lambda>(calls, d). ((l ! i, v) # calls, d)) (fire_pure res n False (c\<lparr>firingIndex := -1, memory := None\<rparr>))" for n
      unfolding t [symmetric] Suc_eq_plus1 [symmetric]
      by (simp only: fire_pure.simps(2) [of res "Suc n"] if_True Let_def cur option.case prod.case r)
    then show ?thesis
      using True d i by (intro exI [of _ 1]) (auto simp: stopped_def)
  next
    case False
    then have s: "after_call (res (l ! i) v) ?c = ?c" by (intro after_call_id) (auto simp: advance_def)
    have "\<exists>m. m \<le> length l - Suc i \<and> (\<forall>n. fire_pure res (Suc (n + m)) True ?c =
      map_option (\<lambda>(calls, d). (map (\<lambda>f. (f, v)) (called (flag_stop ?c) res v (drop (Suc i) l)) @ calls, d))
        (fire_pure res n False (?c\<lparr>firingIndex := -1, memory := (if stopped (flag_stop ?c) res v (drop (Suc i) l) then None else Some v)\<rparr>)))"
      by (rule Suc.hyps(1)) (use Suc i in \<open>simp_all add: advance_def\<close>)
    then obtain m where m: "m \<le> length l - Suc i" "\<And>n. fire_pure res (Suc (n + m)) True ?c =
      map_option (\<lambda>(calls, d). (map (\<lambda>f. (f, v)) (called (flag_stop c) res v (drop (Suc i) l)) @ calls, d))
        (fire_pure res n False (c\<lparr>firingIndex := -1, memory := (if stopped (flag_stop c) res v (drop (Suc i) l) then None else Some v)\<rparr>))"
      by (auto simp: advance_def)
    have step: "fire_pure res (Suc (n + Suc m)) True c =
        map_option (\<lambda>(calls, d). ((l ! i, v) # calls, d)) (fire_pure res (Suc (n + m)) True ?c)" for n
      unfolding add_Suc_right
      by (simp only: fire_pure.simps(2) [of res "Suc (n + m)"] if_True Let_def cur option.case prod.case s)
    have stop: "stopped (flag_stop c) res v (drop i l) = stopped (flag_stop c) res v (drop (Suc i) l)"
      "map (\<lambda>f. (f, v)) (called (flag_stop c) res v (drop i l)) =
        (l ! i, v) # map (\<lambda>f. (f, v)) (called (flag_stop c) res v (drop (Suc i) l))"
      using False unfolding d by (auto simp: stopped_def)
    show ?thesis
      by (rule exI [of _ "Suc m"]) (use m(1) i in \<open>simp only: step m(2) map_calls stop, simp\<close>)
  qed
qed

text \<open>A list at rest: nothing is queued or being called.\<close>

definition idle :: "('f, 'v) callbacks \<Rightarrow> bool" where
  "idle c \<longleftrightarrow> \<not> firing c \<and> queue c = [] \<and> firingIndex c = -1"

text \<open>One value, from the function at index \<open>i\<close> on.\<close>

lemma fire_value:
  assumes "lst c = Some l" "queue c = [v]" "firingIndex c = int i - 1" "i \<le> length l" "length l - i + 3 \<le> n"
  shows "fire_pure res n False c =
    Some (map (\<lambda>f. (f, v)) (called (flag_stop c) res v (drop i l)),
      finish_fire (c\<lparr>queue := [], firingIndex := -1,
        memory := (if stopped (flag_stop c) res v (drop i l) then None else Some v)\<rparr>))"
proof -
  let ?c = "c\<lparr>memory := Some v, queue := []\<rparr>"
  obtain m where m: "m \<le> length l - i" "\<And>n. fire_pure res (Suc (n + m)) True ?c =
    map_option (\<lambda>(calls, d). (map (\<lambda>f. (f, v)) (called (flag_stop ?c) res v (drop i l)) @ calls, d))
      (fire_pure res n False (?c\<lparr>firingIndex := -1, memory := (if stopped (flag_stop ?c) res v (drop i l) then None else Some v)\<rparr>))"
    using fire_inner [of ?c l v i res] assms(1,3,4) by auto
  have "\<exists>k. n = Suc (Suc (Suc k + m))" using assms(5) m(1) by (intro exI [of _ "n - (m + 3)"]) linarith
  then obtain k where k: "n = Suc (Suc (Suc k + m))" by blast
  have "next_value c = Some ?c" using assms(2) by (simp add: next_value_def)
  then have "fire_pure res n False c = fire_pure res (Suc (Suc k + m)) True ?c"
    unfolding k by (simp only: fire_pure.simps(2) [of res "Suc (Suc k + m)"] if_False option.case)
  also have "\<dots> = Some (map (\<lambda>f. (f, v)) (called (flag_stop c) res v (drop i l)),
      finish_fire (c\<lparr>queue := [], firingIndex := -1,
        memory := (if stopped (flag_stop c) res v (drop i l) then None else Some v)\<rparr>))"
    unfolding m(2) by (auto simp: next_value_def)
  finally show ?thesis .
qed

text \<open>\<open>fireWith\<close> on a list at rest, and \<open>add\<close> on one that remembers a value.\<close>

lemma fire_idle:
  assumes "idle c" "lst c = Some l" "\<not> locked c" "length l + 3 \<le> n"
  shows "fire_now res n (cb_fireWith v c) =
    Some (map (\<lambda>f. (f, v)) (called (flag_stop c) res v l),
      finish_fire ((begin_fire c)\<lparr>memory := (if stopped (flag_stop c) res v l then None else Some v)\<rparr>))"
proof -
  let ?c = "begin_fire (c\<lparr>queue := [v]\<rparr>)"
  have "fire_now res n (cb_fireWith v c) = fire_pure res n False ?c"
    using assms by (simp add: fire_now_def cb_fireWith_def idle_def)
  also have "\<dots> = Some (map (\<lambda>f. (f, v)) (called (flag_stop ?c) res v (drop 0 l)),
      finish_fire (?c\<lparr>queue := [], firingIndex := -1,
        memory := (if stopped (flag_stop ?c) res v (drop 0 l) then None else Some v)\<rparr>))"
    by (rule fire_value) (use assms in \<open>simp_all add: begin_fire_def idle_def\<close>)
  also have "?c\<lparr>queue := [], firingIndex := -1, memory := x\<rparr> = (begin_fire c)\<lparr>memory := x\<rparr>" for x
    using assms(1) by (simp add: begin_fire_def idle_def)
  finally show ?thesis by (simp add: begin_fire_def)
qed

lemma add_idle:
  assumes "idle c" "lst c = Some l" "memory c = Some v" "\<not> flag_unique c" "4 \<le> n"
  shows "fire_now res n (cb_add [Fn f] c) =
    Some ([(f, v)], finish_fire ((begin_fire c)\<lparr>lst := Some (l @ [f]),
      memory := (if flag_stop c \<and> res f v then None else Some v)\<rparr>))"
proof -
  let ?c = "begin_fire (c\<lparr>firingIndex := int (length l) - 1, queue := [v], lst := Some (l @ [f])\<rparr>)"
  have "fire_now res n (cb_add [Fn f] c) = fire_pure res n False ?c"
    using assms by (simp add: fire_now_def cb_add_def idle_def)
  also have "\<dots> = Some (map (\<lambda>f. (f, v)) (called (flag_stop ?c) res v (drop (length l) (l @ [f]))),
      finish_fire (?c\<lparr>queue := [], firingIndex := -1,
        memory := (if stopped (flag_stop ?c) res v (drop (length l) (l @ [f])) then None else Some v)\<rparr>))"
    by (rule fire_value) (use assms in \<open>simp_all add: begin_fire_def idle_def\<close>)
  also have "?c\<lparr>queue := [], firingIndex := -1, memory := x\<rparr> = (begin_fire c)\<lparr>lst := Some (l @ [f]), memory := x\<rparr>" for x
    using assms(1) by (simp add: begin_fire_def idle_def)
  finally show ?thesis by (simp add: begin_fire_def stopped_def)
qed

lemma idle_finish: "idle c \<Longrightarrow> idle (finish_fire ((begin_fire c)\<lparr>memory := x\<rparr>))"
  by (simp add: idle_def finish_fire_def begin_fire_def Let_def)

lemma begin_finish_simps [simp]:
  "flag_once (begin_fire c) = flag_once c" "flag_memory (begin_fire c) = flag_memory c"
  "flag_unique (begin_fire c) = flag_unique c" "flag_stop (begin_fire c) = flag_stop c"
  "flag_unique (finish_fire c) = flag_unique c" "flag_stop (finish_fire c) = flag_stop c"
  "lst (begin_fire c) = lst c" "locked (begin_fire c) = (locked c \<or> flag_once c)" "memory (begin_fire c) = memory c"
  "memory (finish_fire c) = (if flag_memory c then memory c else None)" "locked (finish_fire c) = locked c"
  "lst (finish_fire c) = (if locked c then if flag_memory c \<and> memory c \<noteq> None then Some [] else None else lst c)"
  by (auto simp: begin_fire_def finish_fire_def Let_def)

end
