(* ===== verification/Jq_Deferred.thy ===== *)
theory Jq_Deferred
  imports Jq_Callbacks
begin

text \<open>
  \<open>jQuery.Deferred\<close> as a machine: the callback lists of all deferreds, their states, the timers of \<open>then\<close>, and
  a stack of what is running. A client is any code that uses the public operations: its functions are
  called with arguments, may use every operation while they run, and return or throw. Contexts
  (\<open>this\<close>) are left out; a thenable is the promise of another deferred.
\<close>

section \<open>Values and functions\<close>

datatype dstate = Pending | Resolved | Rejected

text \<open>A value: undefined, the promise of a deferred, the error for self-resolution, or anything else.\<close>

datatype jvalue = Undefined | Promise nat | SelfResolution | Plain nat

type_synonym args = "jvalue list"

text \<open>
  The function \<open>resolve(depth, deferred, handler, special)\<close> returns, and the handlers it is given: a
  client's function, \<open>Identity\<close>, \<open>Thrower\<close>, or such a function again.
\<close>

datatype closure = Closure (def: nat) (depth: nat) (handler: handler) (special: bool)
and handler = HUser nat | Identity | Thrower | HResolve closure

text \<open>
  The functions a list may hold: a client's, and those the constructor adds. The lists of deferred \<open>d\<close> are
  \<open>6 * d + k\<close>: the callbacks (\<open>k = 0, 2, 4\<close>) and the \<open>then\<close> handlers (\<open>k = 1, 3, 5\<close>) of progress, done and fail.
\<close>

datatype callback =
    User nat
  | SetState nat dstate
  | DisableL nat
  | LockL nat
  | FireL nat
  | Resolve closure

type_synonym cblist = "(callback, args) callbacks"

definition lid :: "nat \<Rightarrow> nat \<Rightarrow> nat" where
  "lid d k = 6 * d + k"

section \<open>State\<close>

text \<open>
  What is running: the two loops of \<open>fire\<close>, a client's function called from a list, a client's handler, the
  rest of a \<open>resolve\<close> function after its call, a handler that is itself such a function, and additions.
\<close>

datatype frame =
    FOuter nat
  | FInner nat
  | FCall nat
  | FHandler closure args
  | FProc closure args
  | FAfter closure args
  | FAdds "(nat \<times> callback) list"

record world =
  lists :: "nat \<Rightarrow> cblist"
  dstate_of :: "nat \<Rightarrow> dstate"
  deferreds :: nat
  max_depth :: "nat \<Rightarrow> nat"
  timers :: "(closure \<times> args) list"
  stack :: "frame list"
  calls :: "(nat \<times> nat \<times> args) list"
  handled :: "(nat \<times> nat \<times> args) list"

definition upd_list :: "nat \<Rightarrow> cblist \<Rightarrow> world \<Rightarrow> world" where
  "upd_list i c w = w\<lparr>lists := (lists w)(i := c)\<rparr>"

definition push :: "frame \<Rightarrow> world \<Rightarrow> world" where
  "push f w = w\<lparr>stack := f # stack w\<rparr>"

text \<open>Starting \<open>fire\<close> on a list when an operation asks for it.\<close>

definition after_op :: "nat \<Rightarrow> cblist \<times> bool \<Rightarrow> world \<Rightarrow> world" where
  "after_op i r w =
     (case r of (c, go) \<Rightarrow> if go then push (FOuter i) (upd_list i (begin_fire c) w) else upd_list i c w)"

definition fire_list :: "nat \<Rightarrow> args \<Rightarrow> world \<Rightarrow> world" where
  "fire_list i vs w = after_op i (cb_fireWith vs (lists w i)) w"

definition add_to :: "nat \<Rightarrow> callback \<Rightarrow> world \<Rightarrow> world" where
  "add_to i f w = after_op i (cb_add [Fn f] (lists w i)) w"

section \<open>The constructor\<close>

text \<open>
  The tuples: progress, done and fail. The lists of done and fail first set the state, disable the lists of the other,
  and lock the progress lists; every list fires its handler list last.
\<close>

definition settle_actions :: "nat \<Rightarrow> dstate \<Rightarrow> nat \<Rightarrow> callback list" where
  "settle_actions d st other =
     [SetState d st, DisableL (lid d other), DisableL (lid d (Suc other)), LockL (lid d 0), LockL (lid d 1)]"

definition tuple_list :: "nat \<Rightarrow> nat \<Rightarrow> cblist" where
  "tuple_list d k =
     (let c = Callbacks (if k = 0 \<or> k = 1 then ''memory'' else ''once memory'');
          c = (if k = 2 then fst (cb_add (map Fn (settle_actions d Resolved 4)) c)
            else if k = 4 then fst (cb_add (map Fn (settle_actions d Rejected 2)) c) else c)
      in if even k then fst (cb_add [Fn (FireL (lid d (Suc k)))] c) else c)"

definition new_deferred :: "world \<Rightarrow> world" where
  "new_deferred w =
     (let d = deferreds w in
      w\<lparr>deferreds := Suc d, dstate_of := (dstate_of w)(d := Pending), max_depth := (max_depth w)(d := 0),
        lists := (\<lambda>i. if i div 6 = d then tuple_list d (i mod 6) else lists w i)\<rparr>)"

definition initial_world :: world where
  "initial_world =
     \<lparr>lists = (\<lambda>i. Callbacks ''memory''), dstate_of = (\<lambda>d. Pending), deferreds = 0, max_depth = (\<lambda>d. 0), timers = [],
      stack = [], calls = [], handled = []\<rparr>"

section \<open>The then method\<close>

text \<open>The new deferred of \<open>then\<close> is resolved by functions added to the three handler lists.\<close>

definition or_handler :: "nat option \<Rightarrow> handler \<Rightarrow> handler" where
  "or_handler n h = (case n of Some f \<Rightarrow> HUser f | None \<Rightarrow> h)"

definition attach :: "nat \<Rightarrow> handler \<Rightarrow> handler \<Rightarrow> handler \<Rightarrow> world \<Rightarrow> world" where
  "attach d ok bad progress w =
     (let e = deferreds w in
      push (FAdds [(lid d 1, Resolve (Closure e 0 progress True)), (lid d 3, Resolve (Closure e 0 ok False)),
        (lid d 5, Resolve (Closure e 0 bad False))]) (new_deferred w))"

definition then_call :: "nat \<Rightarrow> nat option \<Rightarrow> nat option \<Rightarrow> nat option \<Rightarrow> world \<Rightarrow> world" where
  "then_call d onFulfilled onRejected onProgress =
     attach d (or_handler onFulfilled Identity) (or_handler onRejected Thrower) (or_handler onProgress Identity)"

text \<open>Where an exception is caught: the nearest running function that is a normal processor.\<close>

fun catcher :: "frame \<Rightarrow> (closure \<times> args) option" where
  "catcher (FHandler c vs) = (if special c then None else Some (c, vs))"
| "catcher (FProc c vs) = (if special c then None else Some (c, vs))"
| "catcher (FAfter c vs) = (if special c then None else Some (c, vs))"
| "catcher _ = None"

fun unwind :: "frame list \<Rightarrow> (closure \<times> args) option \<times> frame list" where
  "unwind [] = (None, [])"
| "unwind (f # fs) = (case catcher f of Some x \<Rightarrow> (Some x, fs) | None \<Rightarrow> unwind fs)"

text \<open>The catch block: unless a later resolution has taken over, the new deferred is rejected.\<close>

definition caught :: "closure \<Rightarrow> args \<Rightarrow> jvalue \<Rightarrow> world \<Rightarrow> world" where
  "caught c vs e w =
     (if max_depth w (def c) \<le> depth c + 1
      then fire_list (lid (def c) 4) (if handler c = Thrower then vs else [e]) w else w)"

definition throw :: "jvalue \<Rightarrow> world \<Rightarrow> world" where
  "throw e w =
     (case unwind (stack w) of
        (Some (c, vs), fs) \<Rightarrow> caught c vs e (w\<lparr>stack := fs\<rparr>)
      | (None, fs) \<Rightarrow> w\<lparr>stack := fs\<rparr>)"

text \<open>
  What \<open>mightThrow\<close> does with the value its handler returned. It runs with the frame \<open>FProc\<close> on the stack, so that
  what throws from here on is caught.
\<close>

definition returned :: "closure \<Rightarrow> args \<Rightarrow> jvalue \<Rightarrow> world \<Rightarrow> world" where
  "returned c vs v w =
     (let w = push (FProc c vs) w; d = def c in
      case v of
        Promise e \<Rightarrow>
          if e = d then throw SelfResolution w
          else
            let n = (if special c then max_depth w d else Suc (max_depth w d));
                w = w\<lparr>max_depth := (max_depth w)(d := n)\<rparr>
            in attach e (HResolve (Closure d n Identity (special c))) (HResolve (Closure d n Thrower (special c)))
                 (if special c then Identity else HResolve (Closure d n Identity True)) w
      | _ \<Rightarrow> fire_list (lid d (if special c then 0 else 2)) (if handler c = Identity then vs else [v]) w)"

definition first_value :: "args \<Rightarrow> jvalue" where
  "first_value vs = (case vs of [] \<Rightarrow> Undefined | v # _ \<Rightarrow> v)"

text \<open>Calling a function \<open>resolve\<close> returned: at depth 0 it is put on a timer, below that it runs at once.\<close>

fun start_process :: "closure \<Rightarrow> args \<Rightarrow> world \<Rightarrow> world" where
  "start_process (Closure d k h sp) vs w =
     (let c = Closure d k h sp in
      if k < max_depth w d then w
      else case h of
          Identity \<Rightarrow> returned c vs (first_value vs) w
        | Thrower \<Rightarrow> throw (first_value vs) (push (FProc c vs) w)
        | HUser n \<Rightarrow> push (FHandler c vs) (w\<lparr>handled := handled w @ [(d, n, vs)]\<rparr>)
        | HResolve c' \<Rightarrow>
            let w = push (FAfter c vs) w in
            if depth c' \<noteq> 0 then start_process c' vs w else w\<lparr>timers := timers w @ [(c', vs)]\<rparr>)"

definition call_closure :: "closure \<Rightarrow> args \<Rightarrow> world \<Rightarrow> world" where
  "call_closure c vs w = (if depth c \<noteq> 0 then start_process c vs w else w\<lparr>timers := timers w @ [(c, vs)]\<rparr>)"

section \<open>Steps\<close>

text \<open>Calling a function of list \<open>i\<close> with the remembered value.\<close>

definition invoke :: "nat \<Rightarrow> callback \<Rightarrow> args \<Rightarrow> world \<Rightarrow> world" where
  "invoke i f vs w =
     (case f of
        User n \<Rightarrow> push (FCall i) (w\<lparr>calls := calls w @ [(i, n, vs)]\<rparr>)
      | SetState d st \<Rightarrow> w\<lparr>dstate_of := (dstate_of w)(d := st)\<rparr>
      | DisableL j \<Rightarrow> upd_list j (cb_disable (lists w j)) w
      | LockL j \<Rightarrow> upd_list j (cb_lock (lists w j)) w
      | FireL j \<Rightarrow> fire_list j vs w
      | Resolve c \<Rightarrow> call_closure c vs w)"

text \<open>One turn of the loops, or of the other frames that go on by themselves.\<close>

definition turn :: "world \<Rightarrow> world option" where
  "turn w =
     (case stack w of
        FOuter i # fs \<Rightarrow>
          (case next_value (lists w i) of
             Some c \<Rightarrow> Some (upd_list i c (w\<lparr>stack := FInner i # fs\<rparr>))
           | None \<Rightarrow> Some (upd_list i (finish_fire (lists w i)) (w\<lparr>stack := fs\<rparr>)))
      | FInner i # fs \<Rightarrow>
          (let c = advance (lists w i) in
           case current c of
             Some (f, vs) \<Rightarrow> Some (invoke i f vs (upd_list i c w))
           | None \<Rightarrow> Some (upd_list i (end_value c) (w\<lparr>stack := FOuter i # fs\<rparr>)))
      | FProc c vs # fs \<Rightarrow> Some (w\<lparr>stack := fs\<rparr>)
      | FAfter c vs # fs \<Rightarrow> Some (returned c vs Undefined (w\<lparr>stack := fs\<rparr>))
      | FAdds [] # fs \<Rightarrow> Some (w\<lparr>stack := fs\<rparr>)
      | FAdds ((i, f) # xs) # fs \<Rightarrow> Some (add_to i f (w\<lparr>stack := FAdds xs # fs\<rparr>))
      | _ \<Rightarrow> None)"

text \<open>
  What a client does: it makes deferreds, notifies (0), resolves (2) and rejects (4) them, adds callbacks of the three kinds,
  uses \<open>always\<close> and \<open>then\<close>; its running function returns, with false or not, or throws.
\<close>

datatype command =
    NewDeferred
  | Settle nat nat args
  | AddCallback nat nat nat
  | Always nat nat
  | Then nat "nat option" "nat option" "nat option"

datatype action = Turn | Do command | Return bool | ReturnValue jvalue | Throw jvalue | Timer

definition client_running :: "world \<Rightarrow> bool" where
  "client_running w \<longleftrightarrow> (case stack w of [] \<Rightarrow> True | FCall i # _ \<Rightarrow> True | FHandler c vs # _ \<Rightarrow> True | _ \<Rightarrow> False)"

fun perform :: "command \<Rightarrow> world \<Rightarrow> world option" where
  "perform NewDeferred w = Some (new_deferred w)"
| "perform (Settle d k vs) w = (if d < deferreds w \<and> k \<in> {0, 2, 4} then Some (fire_list (lid d k) vs w) else None)"
| "perform (AddCallback d k n) w = (if d < deferreds w \<and> k \<in> {0, 2, 4} then Some (add_to (lid d k) (User n) w) else None)"
| "perform (Always d n) w =
     (if d < deferreds w then Some (push (FAdds [(lid d 2, User n), (lid d 4, User n)]) w) else None)"
| "perform (Then d f r p) w = (if d < deferreds w then Some (then_call d f r p w) else None)"

definition value_ok :: "world \<Rightarrow> jvalue \<Rightarrow> bool" where
  "value_ok w v \<longleftrightarrow> (case v of Promise e \<Rightarrow> e < deferreds w | _ \<Rightarrow> True)"

definition args_ok :: "world \<Rightarrow> command \<Rightarrow> bool" where
  "args_ok w c \<longleftrightarrow> (case c of Settle d k vs \<Rightarrow> list_all (value_ok w) vs | _ \<Rightarrow> True)"

fun act :: "action \<Rightarrow> world \<Rightarrow> world option" where
  "act Turn w = turn w"
| "act (Do c) w = (if client_running w \<and> args_ok w c then perform c w else None)"
| "act (Return b) w =
     (case stack w of
        FCall i # fs \<Rightarrow> Some (upd_list i (after_call b (lists w i)) (w\<lparr>stack := fs\<rparr>))
      | _ \<Rightarrow> None)"
| "act (ReturnValue v) w =
     (case stack w of
        FHandler c vs # fs \<Rightarrow> if value_ok w v then Some (returned c vs v (w\<lparr>stack := fs\<rparr>)) else None
      | _ \<Rightarrow> None)"
| "act (Throw e) w =
     (if client_running w \<and> stack w \<noteq> [] \<and> value_ok w e then Some (throw e w) else None)"
| "act Timer w =
     (case (stack w, timers w) of
        ([], (c, vs) # ts) \<Rightarrow> Some (start_process c vs (w\<lparr>timers := ts\<rparr>))
      | _ \<Rightarrow> None)"

inductive reachable_world :: "world \<Rightarrow> bool" where
  begin_world: "reachable_world initial_world"
| act_world: "reachable_world w \<Longrightarrow> act a w = Some w' \<Longrightarrow> reachable_world w'"

text \<open>A run of actions; \<open>settle_down\<close> takes turns until a client is running, at most \<open>n\<close> of them.\<close>

fun run_acts :: "action list \<Rightarrow> world \<Rightarrow> world option" where
  "run_acts [] w = Some w"
| "run_acts (a # as) w = (case act a w of Some w' \<Rightarrow> run_acts as w' | None \<Rightarrow> None)"

fun settle_down :: "nat \<Rightarrow> world \<Rightarrow> world" where
  "settle_down 0 w = w"
| "settle_down (Suc n) w = (if client_running w then w else case turn w of Some w' \<Rightarrow> settle_down n w' | None \<Rightarrow> w)"

lemma run_reachable: "reachable_world w \<Longrightarrow> run_acts as w = Some w' \<Longrightarrow> reachable_world w'"
  by (induction as arbitrary: w) (auto split: option.splits intro: act_world)

end
