(* ===== verification/Jq_Deferred_Invariant.thy ===== *)
theory Jq_Deferred_Invariant
  imports Jq_Deferred
begin

text \<open>
  The invariant of the machine of deferreds. Every deferred is pending, with both of its settling lists
  untouched, or settled, with the list of the other outcome disabled; between the two it is busy, and then the
  settling list is what is running. Everything a client does keeps this.
\<close>

section \<open>Well-formed worlds\<close>

text \<open>The client's handlers are only in functions of depth 0, which run from a timer.\<close>

primrec closure_ok :: "nat \<Rightarrow> closure \<Rightarrow> bool" and handler_ok :: "nat \<Rightarrow> handler \<Rightarrow> bool" where
  "closure_ok n (Closure d k h sp) \<longleftrightarrow> d < n \<and> handler_ok n h \<and> (case h of HUser f \<Rightarrow> k = 0 | _ \<Rightarrow> True)"
| "handler_ok n (HUser f) \<longleftrightarrow> True"
| "handler_ok n Identity \<longleftrightarrow> True"
| "handler_ok n Thrower \<longleftrightarrow> True"
| "handler_ok n (HResolve c) \<longleftrightarrow> closure_ok n c"

definition vals_ok :: "nat \<Rightarrow> args \<Rightarrow> bool" where
  "vals_ok n vs \<longleftrightarrow> (\<forall>e. Promise e \<in> set vs \<longrightarrow> e < n)"

text \<open>The functions a list may hold.\<close>

definition allowed :: "nat \<Rightarrow> nat \<Rightarrow> callback \<Rightarrow> bool" where
  "allowed n i f \<longleftrightarrow>
     (case f of
        User u \<Rightarrow> even i
      | SetState d st \<Rightarrow> i = lid d 2 \<and> st = Resolved \<or> i = lid d 4 \<and> st = Rejected
      | DisableL j \<Rightarrow> (\<exists>d. i = lid d 2 \<and> j \<in> {lid d 4, lid d 5} \<or> i = lid d 4 \<and> j \<in> {lid d 2, lid d 3})
      | LockL j \<Rightarrow> j mod 6 < 2
      | FireL j \<Rightarrow> odd j \<and> j < 6 * n
      | Resolve c \<Rightarrow> odd i \<and> closure_ok n c)"

definition list_ok :: "nat \<Rightarrow> nat \<Rightarrow> cblist \<Rightarrow> bool" where
  "list_ok n i c \<longleftrightarrow> \<not> flag_stop c \<and> (\<forall>f \<in> set (entries c). allowed n i f) \<and> -1 \<le> firingIndex c \<and>
     (\<forall>vs \<in> set (queue c). vals_ok n vs) \<and> (\<forall>vs. memory c = Some vs \<longrightarrow> vals_ok n vs)"

definition addable :: "nat \<Rightarrow> nat \<times> callback \<Rightarrow> bool" where
  "addable n x \<longleftrightarrow> (case x of (i, f) \<Rightarrow> i < 6 * n \<and>
     (case f of User u \<Rightarrow> even i | Resolve c \<Rightarrow> odd i \<and> closure_ok n c | _ \<Rightarrow> False))"

fun frame_ok :: "nat \<Rightarrow> frame \<Rightarrow> bool" where
  "frame_ok n (FOuter i) \<longleftrightarrow> i < 6 * n"
| "frame_ok n (FInner i) \<longleftrightarrow> i < 6 * n"
| "frame_ok n (FCall i) \<longleftrightarrow> i < 6 * n"
| "frame_ok n (FHandler c vs) \<longleftrightarrow> closure_ok n c \<and> vals_ok n vs"
| "frame_ok n (FProc c vs) \<longleftrightarrow> closure_ok n c \<and> vals_ok n vs"
| "frame_ok n (FAfter c vs) \<longleftrightarrow> closure_ok n c \<and> vals_ok n vs"
| "frame_ok n (FAdds xs) \<longleftrightarrow> list_all (addable n) xs"

definition wf_world :: "world \<Rightarrow> bool" where
  "wf_world w \<longleftrightarrow> (\<forall>i < 6 * deferreds w. list_ok (deferreds w) i (lists w i)) \<and>
     list_all (frame_ok (deferreds w)) (stack w) \<and>
     list_all (\<lambda>(c, vs). closure_ok (deferreds w) c \<and> vals_ok (deferreds w) vs) (timers w)"

section \<open>Phases\<close>

definition outcome :: "nat \<Rightarrow> dstate" where
  "outcome k = (if k = 2 then Resolved else Rejected)"

definition prefix_of :: "nat \<Rightarrow> nat \<Rightarrow> callback list" where
  "prefix_of d k = settle_actions d (outcome k) (6 - k) @ [FireL (lid d (Suc k))]"

definition holds_prefix :: "nat \<Rightarrow> nat \<Rightarrow> cblist \<Rightarrow> bool" where
  "holds_prefix d k c \<longleftrightarrow> (\<exists>us. lst c = Some (prefix_of d k @ us)) \<and> firingIndex c = -1 \<and> flag_once c \<and> \<not> flag_unique c"

definition fresh :: "nat \<Rightarrow> nat \<Rightarrow> cblist \<Rightarrow> bool" where
  "fresh d k c \<longleftrightarrow> holds_prefix d k c \<and> \<not> locked c \<and> \<not> firing c \<and> memory c = None \<and> queue c = []"

definition dead :: "cblist \<Rightarrow> bool" where
  "dead c \<longleftrightarrow> lst c = None \<and> locked c \<and> queue c = [] \<and> memory c = None"

fun on_list :: "nat \<Rightarrow> frame \<Rightarrow> bool" where
  "on_list i (FOuter j) \<longleftrightarrow> i = j"
| "on_list i (FInner j) \<longleftrightarrow> i = j"
| "on_list i _ \<longleftrightarrow> False"

definition off_stack :: "nat \<Rightarrow> frame list \<Rightarrow> bool" where
  "off_stack d fs \<longleftrightarrow> list_all (\<lambda>f. \<not> on_list (lid d 2) f \<and> \<not> on_list (lid d 4) f) fs"

definition pending_d :: "world \<Rightarrow> nat \<Rightarrow> bool" where
  "pending_d w d \<longleftrightarrow> dstate_of w d = Pending \<and> fresh d 2 (lists w (lid d 2)) \<and> fresh d 4 (lists w (lid d 4)) \<and>
     off_stack d (stack w)"

definition settled_d :: "nat \<Rightarrow> world \<Rightarrow> nat \<Rightarrow> bool" where
  "settled_d k w d \<longleftrightarrow> dstate_of w d = outcome k \<and> dead (lists w (lid d (6 - k))) \<and> locked (lists w (lid d k))"

definition calm_d :: "world \<Rightarrow> nat \<Rightarrow> bool" where
  "calm_d w d \<longleftrightarrow> pending_d w d \<or> settled_d 2 w d \<or> settled_d 4 w d"

text \<open>The three moments between pending and settled.\<close>

definition starting :: "nat \<Rightarrow> world \<Rightarrow> nat \<Rightarrow> bool" where
  "starting k w d \<longleftrightarrow> dstate_of w d = Pending \<and> fresh d (6 - k) (lists w (lid d (6 - k))) \<and>
     locked (lists w (lid d k)) \<and> holds_prefix d k (lists w (lid d k)) \<and>
     (\<exists>fs v. off_stack d fs \<and>
       (stack w = FOuter (lid d k) # fs \<and> queue (lists w (lid d k)) = [v] \<or>
        stack w = FInner (lid d k) # fs \<and> queue (lists w (lid d k)) = [] \<and> memory (lists w (lid d k)) = Some v))"

definition marked :: "nat \<Rightarrow> world \<Rightarrow> nat \<Rightarrow> bool" where
  "marked k w d \<longleftrightarrow> dstate_of w d = outcome k \<and> fresh d (6 - k) (lists w (lid d (6 - k))) \<and>
     locked (lists w (lid d k)) \<and> holds_prefix d k (end_value (lists w (lid d k))) \<and> firingIndex (lists w (lid d k)) = 0 \<and>
     (\<exists>fs v. off_stack d fs \<and> stack w = FInner (lid d k) # fs \<and> memory (lists w (lid d k)) = Some v)"

definition calm :: "world \<Rightarrow> bool" where
  "calm w \<longleftrightarrow> wf_world w \<and> (\<forall>d < deferreds w. calm_d w d)"

definition busy :: "world \<Rightarrow> bool" where
  "busy w \<longleftrightarrow> wf_world w \<and> (\<exists>d < deferreds w. \<exists>k \<in> {2, 4}. (starting k w d \<or> marked k w d) \<and>
     (\<forall>e < deferreds w. e \<noteq> d \<longrightarrow> calm_d w e))"

section \<open>Well-formedness is kept\<close>

lemma lid_inj: "j < 6 \<Longrightarrow> k < 6 \<Longrightarrow> lid d j = lid e k \<longleftrightarrow> d = e \<and> j = k"
  unfolding lid_def by presburger

lemma lid_less [simp]: "k < 6 \<Longrightarrow> d < n \<Longrightarrow> lid d k < 6 * n"
  by (simp add: lid_def)

lemma lid_mod [simp]: "k < 6 \<Longrightarrow> lid d k mod 6 = k"
  by (simp add: lid_def)

lemma lid_parity [simp]: "even (lid d k) = even k"
  by (simp add: lid_def)

lemma closure_mono: "closure_ok n c \<Longrightarrow> n \<le> m \<Longrightarrow> closure_ok m c"
  and handler_mono: "handler_ok n h \<Longrightarrow> n \<le> m \<Longrightarrow> handler_ok m h"
  by (induction c and h) auto

lemma vals_mono: "vals_ok n vs \<Longrightarrow> n \<le> m \<Longrightarrow> vals_ok m vs"
  by (auto simp: vals_ok_def)

lemma vals_Nil [simp]: "vals_ok n []"
  by (simp add: vals_ok_def)

lemma allowed_mono: "allowed n i f \<Longrightarrow> n \<le> m \<Longrightarrow> allowed m i f"
  by (auto simp: allowed_def closure_mono split: callback.splits)

lemma list_ok_mono: "list_ok n i c \<Longrightarrow> n \<le> m \<Longrightarrow> list_ok m i c"
  by (auto simp: list_ok_def allowed_mono vals_mono)

lemma addable_mono: "addable n x \<Longrightarrow> n \<le> m \<Longrightarrow> addable m x"
  by (auto simp: addable_def closure_mono split: callback.splits)

lemma frame_mono: "frame_ok n f \<Longrightarrow> n \<le> m \<Longrightarrow> frame_ok m f"
  by (cases f) (auto simp: closure_mono vals_mono list_all_iff addable_mono)

lemma addable_allowed: "addable n (i, f) \<Longrightarrow> allowed n i f"
  by (auto simp: addable_def allowed_def split: callback.splits)

lemma entries_updates [simp]:
  "entries (c\<lparr>memory := m\<rparr>) = entries c" "entries (c\<lparr>queue := q\<rparr>) = entries c"
  by (simp_all add: entries_def)

lemma list_ok_next: "list_ok n i c \<Longrightarrow> next_value c = Some c' \<Longrightarrow> list_ok n i c'"
  by (auto simp: list_ok_def next_value_def split: list.splits)

lemma list_ok_fireWith: "list_ok n i c \<Longrightarrow> vals_ok n vs \<Longrightarrow> list_ok n i (fst (cb_fireWith vs c))"
  by (auto simp: list_ok_def cb_fireWith_def)

lemma list_ok_ops:
  "list_ok n i c \<Longrightarrow> list_ok n i (begin_fire c)"
  "list_ok n i c \<Longrightarrow> list_ok n i (advance c)"
  "list_ok n i c \<Longrightarrow> list_ok n i (end_value c)"
  "list_ok n i c \<Longrightarrow> list_ok n i (after_call b c)"
  "list_ok n i c \<Longrightarrow> list_ok n i (finish_fire c)"
  "list_ok n i c \<Longrightarrow> list_ok n i (cb_disable c)"
  "list_ok n i c \<Longrightarrow> list_ok n i (cb_lock c)"
  by (auto simp: list_ok_def begin_fire_def advance_def end_value_def after_call_def finish_fire_def cb_disable_def
      cb_lock_def entries_def Let_def split: list.splits option.splits if_splits)

lemma set_add_single: "set (add_args u l [Fn f]) \<subseteq> insert f (set l)"
  by auto

lemma list_ok_add:
  assumes "list_ok n i c" "allowed n i f"
  shows "list_ok n i (fst (cb_add [Fn f] c))"
  using assms by (auto simp: list_ok_def cb_add_def entries_def Let_def split: option.splits if_splits)

lemma current_ok:
  assumes "list_ok n i c" "current (advance c) = Some (f, vs)"
  shows "allowed n i f \<and> vals_ok n vs"
proof -
  let ?c = "advance c"
  have "0 \<le> firingIndex ?c" "firingIndex ?c < int (length (entries ?c))" "memory ?c = Some vs"
    "f = entries ?c ! nat (firingIndex ?c)"
    using assms by (auto simp: list_ok_def current_def advance_def split: if_splits)
  moreover have "list_ok n i ?c" using assms(1) by (rule list_ok_ops)
  ultimately show ?thesis by (auto simp: list_ok_def)
qed

lemma wf_push [simp]: "wf_world (push f w) \<longleftrightarrow> frame_ok (deferreds w) f \<and> wf_world w"
  by (auto simp: wf_world_def push_def)

lemma wf_upd_list: "wf_world w \<Longrightarrow> list_ok (deferreds w) i c \<Longrightarrow> wf_world (upd_list i c w)"
  by (auto simp: wf_world_def upd_list_def)

lemma wf_stack: "wf_world w \<Longrightarrow> list_all (frame_ok (deferreds w)) fs \<Longrightarrow> wf_world (w\<lparr>stack := fs\<rparr>)"
  by (auto simp: wf_world_def)

lemma wf_tail: "wf_world w \<Longrightarrow> stack w = f # fs \<Longrightarrow> wf_world (w\<lparr>stack := fs\<rparr>)"
  by (auto simp: wf_world_def)

lemma wf_list: "wf_world w \<Longrightarrow> i < 6 * deferreds w \<Longrightarrow> list_ok (deferreds w) i (lists w i)"
  by (simp add: wf_world_def)

lemma world_simps [simp]:
  "deferreds (push f w) = deferreds w" "deferreds (upd_list i c w) = deferreds w" "deferreds (after_op i r w) = deferreds w"
  "deferreds (fire_list i vs w) = deferreds w" "deferreds (add_to i g w) = deferreds w"
  "timers (upd_list i c w) = timers w" "stack (upd_list i c w) = stack w" "lists (upd_list i c w) = (lists w)(i := c)"
  "dstate_of (upd_list i c w) = dstate_of w" "dstate_of (push f w) = dstate_of w" "lists (push f w) = lists w"
  "stack (push f w) = f # stack w" "max_depth (push f w) = max_depth w"
  by (simp_all add: push_def upd_list_def after_op_def fire_list_def add_to_def split: prod.split)

lemma wf_after_op:
  "wf_world w \<Longrightarrow> i < 6 * deferreds w \<Longrightarrow> list_ok (deferreds w) i (fst r) \<Longrightarrow> wf_world (after_op i r w)"
  by (cases r) (auto simp: after_op_def wf_upd_list list_ok_ops(1))

lemma wf_fire_list: "wf_world w \<Longrightarrow> i < 6 * deferreds w \<Longrightarrow> vals_ok (deferreds w) vs \<Longrightarrow> wf_world (fire_list i vs w)"
  unfolding fire_list_def by (intro wf_after_op) (auto simp: list_ok_fireWith wf_list)

lemma wf_add_to: "wf_world w \<Longrightarrow> i < 6 * deferreds w \<Longrightarrow> allowed (deferreds w) i f \<Longrightarrow> wf_world (add_to i f w)"
  unfolding add_to_def by (intro wf_after_op) (auto simp: list_ok_add wf_list)

section \<open>Calm worlds\<close>

lemma calm_d_cong:
  assumes "calm_d w d" "dstate_of w' d = dstate_of w d" "lists w' (lid d 2) = lists w (lid d 2)"
    "lists w' (lid d 4) = lists w (lid d 4)" "off_stack d (stack w) \<longrightarrow> off_stack d (stack w')"
  shows "calm_d w' d"
  using assms by (auto simp: calm_d_def pending_d_def settled_d_def)

lemma off_stack_Cons [simp]:
  "off_stack d (f # fs) \<longleftrightarrow> \<not> on_list (lid d 2) f \<and> \<not> on_list (lid d 4) f \<and> off_stack d fs"
  by (simp add: off_stack_def)

lemma off_stack_suffix: "off_stack d (gs @ fs) \<Longrightarrow> off_stack d fs"
  by (simp add: off_stack_def)

lemma dead_ops:
  assumes "dead c"
  shows "cb_fireWith vs c = (c, False)" "cb_add as c = (c, False)" "dead (cb_disable c)" "dead (cb_lock c)"
    "dead (finish_fire c)" "next_value c = None" "dead (advance c)" "dead (end_value c)" "dead (after_call b c)"
    "current (advance c) = None" "dead (begin_fire c)"
  using assms
  by (auto simp: dead_def cb_fireWith_def cb_add_def cb_disable_def cb_lock_def finish_fire_def next_value_def
      advance_def end_value_def after_call_def current_def entries_def begin_fire_def Let_def)

lemma locked_ops:
  assumes "locked c"
  shows "cb_fireWith vs c = (c, False)" "locked (fst (cb_add as c))" "locked (cb_disable c)" "locked (cb_lock c)"
    "locked (finish_fire c)" "next_value c = Some c' \<Longrightarrow> locked c'" "locked (advance c)" "locked (end_value c)"
    "locked (after_call b c)" "locked (begin_fire c)"
  using assms
  by (auto simp: cb_fireWith_def cb_add_def cb_disable_def cb_lock_def finish_fire_def next_value_def
      advance_def end_value_def after_call_def begin_fire_def Let_def split: option.splits list.splits)

text \<open>An operation on a list that no pending deferred settles with.\<close>

definition free_list :: "world \<Rightarrow> nat \<Rightarrow> bool" where
  "free_list w i \<longleftrightarrow> (\<forall>e < deferreds w. dstate_of w e = Pending \<longrightarrow> i \<noteq> lid e 2 \<and> i \<noteq> lid e 4)"

lemma outcome_settled [simp]: "outcome k \<noteq> Pending"
  by (simp add: outcome_def)

lemma calm_pending: "calm w \<Longrightarrow> e < deferreds w \<Longrightarrow> pending_d w e \<longleftrightarrow> dstate_of w e = Pending"
  by (auto simp: calm_def calm_d_def pending_d_def settled_d_def)

lemma calm_settled: "calm w \<Longrightarrow> e < deferreds w \<Longrightarrow> dstate_of w e \<noteq> Pending \<Longrightarrow> settled_d 2 w e \<or> settled_d 4 w e"
  by (auto simp: calm_def calm_d_def pending_d_def)

lemma calm_upd_list:
  assumes "calm w" "free_list w i" "list_ok (deferreds w) i c"
    and "locked (lists w i) \<Longrightarrow> locked c" and "dead (lists w i) \<Longrightarrow> dead c"
  shows "calm (upd_list i c w)"
proof -
  have "calm_d (upd_list i c w) e" if e: "e < deferreds w" for e
  proof (cases "pending_d w e")
    case True
    then have "i \<noteq> lid e 2" "i \<noteq> lid e 4" using assms(2) e by (auto simp: free_list_def pending_d_def)
    with True show ?thesis by (auto simp: calm_d_def pending_d_def)
  next
    case False
    then have "settled_d 2 w e \<or> settled_d 4 w e" using assms(1) e by (auto simp: calm_def calm_d_def)
    then show ?thesis using assms(4,5) by (auto simp: calm_d_def settled_d_def)
  qed
  then show ?thesis using assms by (auto simp: calm_def wf_upd_list)
qed

lemma calm_stack:
  assumes "calm w" "list_all (frame_ok (deferreds w)) fs" "\<And>e. e < deferreds w \<Longrightarrow> off_stack e (stack w) \<Longrightarrow> off_stack e fs"
  shows "calm (w\<lparr>stack := fs\<rparr>)"
  using assms calm_d_cong [of w _ "w\<lparr>stack := fs\<rparr>"] by (auto simp: calm_def wf_stack)

lemma calm_pop: "calm w \<Longrightarrow> stack w = f # fs \<Longrightarrow> calm (w\<lparr>stack := fs\<rparr>)"
  by (rule calm_stack) (auto simp: calm_def wf_world_def)

lemma calm_push:
  assumes "calm w" "frame_ok (deferreds w) f" "\<And>e. e < deferreds w \<Longrightarrow> pending_d w e \<Longrightarrow> \<not> on_list (lid e 2) f \<and> \<not> on_list (lid e 4) f"
  shows "calm (push f w)"
proof -
  have "calm_d (push f w) e" if "e < deferreds w" for e
    using assms(1,3) that by (auto simp: calm_def calm_d_def pending_d_def settled_d_def)
  then show ?thesis using assms by (auto simp: calm_def)
qed

lemma calm_push_other: "calm w \<Longrightarrow> frame_ok (deferreds w) f \<Longrightarrow> (\<And>i. \<not> on_list i f) \<Longrightarrow> calm (push f w)"
  by (rule calm_push) auto

lemma calm_wf: "calm w \<Longrightarrow> wf_world w"
  by (simp add: calm_def)

text \<open>Running \<open>fire\<close> on such a list.\<close>

lemma free_upd: "free_list w i \<Longrightarrow> free_list (upd_list i c w) i"
  by (simp add: free_list_def)

lemma calm_after_op:
  assumes "calm w" "free_list w i" "i < 6 * deferreds w" "list_ok (deferreds w) i (fst r)"
    and "locked (lists w i) \<Longrightarrow> locked (fst r)" and "dead (lists w i) \<Longrightarrow> r = (lists w i, False)"
  shows "calm (after_op i r w)"
proof (cases "snd r")
  case True
  let ?w = "upd_list i (begin_fire (fst r)) w"
  have "calm ?w"
    by (rule calm_upd_list) (use assms in \<open>auto simp: list_ok_ops(1) locked_ops(10) dead_ops(11)\<close>)
  moreover have "free_list ?w i" using assms(2) by (rule free_upd)
  ultimately have "calm (push (FOuter i) ?w)"
    by (intro calm_push) (use assms(3) in \<open>auto simp: free_list_def pending_d_def\<close>)
  with True show ?thesis by (cases r) (simp add: after_op_def)
next
  case False
  then have "calm (upd_list i (fst r) w)"
    by (intro calm_upd_list) (use assms in auto)
  with False show ?thesis by (cases r) (simp add: after_op_def)
qed

lemma free_other: "i mod 6 \<noteq> 2 \<Longrightarrow> i mod 6 \<noteq> 4 \<Longrightarrow> free_list w i"
  using lid_mod [of 2] lid_mod [of 4] by (auto simp: free_list_def simp del: lid_mod)

lemma calm_fire_other:
  assumes "calm w" "i mod 6 \<noteq> 2" "i mod 6 \<noteq> 4" "i < 6 * deferreds w" "vals_ok (deferreds w) vs"
  shows "calm (fire_list i vs w)"
  unfolding fire_list_def
  by (rule calm_after_op)
    (use assms in \<open>auto simp: free_other list_ok_fireWith wf_list calm_wf locked_ops(1) dead_ops(1)\<close>)

lemma busy_cong:
  assumes "calm w" "d < deferreds w" "k \<in> {2, 4}" "pending_d w d" "vals_ok (deferreds w) vs"
  shows "busy (fire_list (lid d k) vs w)"
proof -
  let ?i = "lid d k"
  let ?c = "begin_fire ((lists w ?i)\<lparr>queue := [vs]\<rparr>)"
  have f: "fresh d 2 (lists w (lid d 2))" "fresh d 4 (lists w (lid d 4))" "off_stack d (stack w)" "dstate_of w d = Pending"
    using assms(4) by (auto simp: pending_d_def)
  then have k: "fresh d k (lists w ?i)" "fresh d (6 - k) (lists w (lid d (6 - k)))" using assms(3) by auto
  then have w': "fire_list ?i vs w = push (FOuter ?i) (upd_list ?i ?c w)"
    by (simp add: fire_list_def after_op_def cb_fireWith_def fresh_def)
  have lk: "lid d (6 - k) \<noteq> ?i" using assms(3) by (auto simp: lid_def)
  have "wf_world (fire_list ?i vs w)"
    by (rule wf_fire_list) (use assms in \<open>auto simp: calm_wf\<close>)
  moreover have "starting k (fire_list ?i vs w) d"
    unfolding starting_def w' using f k lk by (auto simp: fresh_def holds_prefix_def begin_fire_def)
  moreover have "calm_d (fire_list ?i vs w) e" if e: "e < deferreds w" "e \<noteq> d" for e
  proof (rule calm_d_cong)
    show "calm_d w e" using assms(1) e by (simp add: calm_def)
    have "lid e 2 \<noteq> ?i" "lid e 4 \<noteq> ?i" using e(2) assms(3) by (auto simp: lid_def)
    then show "lists (fire_list ?i vs w) (lid e 2) = lists w (lid e 2)" "lists (fire_list ?i vs w) (lid e 4) = lists w (lid e 4)"
      "off_stack e (stack w) \<longrightarrow> off_stack e (stack (fire_list ?i vs w))"
      unfolding w' by auto
  qed (simp add: w')
  ultimately show ?thesis unfolding busy_def using assms(2,3) by (metis world_simps(4))
qed

lemma fire_list_locked: "locked (lists w i) \<Longrightarrow> fire_list i vs w = w"
  by (simp add: fire_list_def after_op_def locked_ops(1) upd_list_def)

lemma fire_list_inv:
  assumes "calm w" "d < deferreds w" "k \<in> {0, 2, 4}" "vals_ok (deferreds w) vs"
  shows "calm (fire_list (lid d k) vs w) \<or> busy (fire_list (lid d k) vs w)"
proof (cases "k = 0")
  case True
  then show ?thesis using calm_fire_other [OF assms(1), of "lid d k" vs] assms by (simp add: lid_def)
next
  case False
  then have k: "k \<in> {2, 4}" using assms(3) by auto
  show ?thesis
  proof (cases "pending_d w d")
    case True
    with busy_cong assms k show ?thesis by blast
  next
    case False
    then have "settled_d 2 w d \<or> settled_d 4 w d" using assms by (auto simp: calm_def calm_d_def)
    then have "locked (lists w (lid d k))" using k by (auto simp: settled_d_def dead_def)
    then show ?thesis using assms(1) by (simp add: fire_list_locked)
  qed
qed

lemma add_to_calm:
  assumes "calm w" "addable (deferreds w) (i, f)"
  shows "calm (add_to i f w)"
proof (cases "free_list w i")
  case True
  then show ?thesis
    unfolding add_to_def
    by (intro calm_after_op)
      (use assms in \<open>auto simp: list_ok_add addable_allowed wf_list calm_wf locked_ops(2) dead_ops(2) addable_def\<close>)
next
  case False
  then obtain d k where dk: "d < deferreds w" "pending_d w d" "i = lid d k" "k \<in> {2, 4}"
    using calm_pending [OF assms(1)] by (auto simp: free_list_def)
  then obtain us where c: "lst (lists w i) = Some (prefix_of d k @ us)" "memory (lists w i) = None" "\<not> flag_unique (lists w i)"
    by (auto simp: pending_d_def fresh_def holds_prefix_def)
  let ?c = "(lists w i)\<lparr>lst := Some (prefix_of d k @ us @ [f])\<rparr>"
  have w': "add_to i f w = upd_list i ?c w"
    using c by (simp add: add_to_def after_op_def cb_add_def)
  have "fresh d k ?c" using dk c by (auto simp: pending_d_def fresh_def holds_prefix_def)
  then have "pending_d (upd_list i ?c w) d"
    using dk by (auto simp: pending_d_def lid_inj)
  moreover have "calm_d (upd_list i ?c w) e" if "e < deferreds w" "e \<noteq> d" for e
  proof (rule calm_d_cong)
    show "calm_d w e" using assms(1) that by (simp add: calm_def)
    have "lid e 2 \<noteq> i" "lid e 4 \<noteq> i" using that(2) dk by (auto simp: lid_def)
    then show "lists (upd_list i ?c w) (lid e 2) = lists w (lid e 2)" "lists (upd_list i ?c w) (lid e 4) = lists w (lid e 4)"
      by auto
  qed simp_all
  moreover have "wf_world (add_to i f w)"
    by (rule wf_add_to) (use assms dk in \<open>auto simp: calm_wf addable_allowed\<close>)
  ultimately show ?thesis unfolding w' calm_def by (auto simp: calm_d_def)
qed

end
