(* ===== verification/Jq_Deferred_Proofs.thy ===== *)
theory Jq_Deferred_Proofs
  imports Jq_Deferred_Invariant
begin

text \<open>
  Every action keeps the invariant of the deferreds, and what follows from it for all runs: outcomes are final,
  and the functions for the other outcome are never called.
\<close>

section \<open>Making deferreds\<close>

lemma create_options: "createOptions ''memory'' = [''memory'']" "createOptions ''once memory'' = [''once'', ''memory'']"
  by code_simp+

lemma tuple_list_eq:
  "tuple_list d k =
     \<lparr>flag_once = k \<noteq> 0 \<and> k \<noteq> 1, flag_memory = True, flag_unique = False, flag_stop = False, firing = False, fired = False,
      locked = False, memory = None,
      lst = Some ((if k = 2 then settle_actions d Resolved 4 else if k = 4 then settle_actions d Rejected 2 else []) @
        (if even k then [FireL (lid d (Suc k))] else [])),
      queue = [], firingIndex = -1\<rparr>"
  by (auto simp: tuple_list_def Callbacks_def create_options cb_add_def settle_actions_def Let_def)

lemma tuple_fresh: "k \<in> {2, 4} \<Longrightarrow> fresh d k (tuple_list d k)"
  by (auto simp: tuple_list_eq fresh_def holds_prefix_def prefix_of_def outcome_def)

lemma tuple_list_ok:
  assumes "d < n" "k < 6"
  shows "list_ok n (lid d k) (tuple_list d k)"
  using assms
  by (auto simp: list_ok_def tuple_list_eq entries_def allowed_def settle_actions_def lid_def)

lemma new_deferred_simps [simp]:
  "deferreds (new_deferred w) = Suc (deferreds w)" "stack (new_deferred w) = stack w" "timers (new_deferred w) = timers w"
  by (simp_all add: new_deferred_def Let_def)

lemma new_deferred_lists:
  "k < 6 \<Longrightarrow> e \<noteq> deferreds w \<Longrightarrow> lists (new_deferred w) (lid e k) = lists w (lid e k)"
  "k < 6 \<Longrightarrow> lists (new_deferred w) (lid (deferreds w) k) = tuple_list (deferreds w) k"
  by (auto simp: new_deferred_def lid_def Let_def)

lemma frame_off:
  assumes "frame_ok n f" "n \<le> d"
  shows "\<not> on_list (lid d 2) f \<and> \<not> on_list (lid d 4) f"
  using assms by (cases f) (auto simp: lid_def)

lemma new_deferred_calm:
  assumes "calm w"
  shows "calm (new_deferred w)"
proof -
  let ?n = "deferreds w" and ?w = "new_deferred w"
  have lists: "list_ok (Suc ?n) i (lists ?w i)" if i: "i < 6 * Suc ?n" for i
  proof (cases "i div 6 = ?n")
    case True
    then have "i = lid ?n (i mod 6)" unfolding lid_def by presburger
    moreover have "i mod 6 < 6" by simp
    ultimately show ?thesis using tuple_list_ok [of ?n "Suc ?n" "i mod 6"] new_deferred_lists(2) [of "i mod 6" w] by simp
  next
    case False
    with i have "i < 6 * ?n" by auto
    moreover have "lists ?w i = lists w i" using False by (simp add: new_deferred_def Let_def)
    ultimately show ?thesis using wf_list [OF calm_wf [OF assms]] list_ok_mono by fastforce
  qed
  have wf: "wf_world ?w"
    using lists calm_wf [OF assms]
    by (auto simp: wf_world_def list_all_iff frame_mono closure_mono vals_mono)
  have "pending_d ?w ?n"
  proof -
    have "off_stack ?n (stack w)"
      using calm_wf [OF assms] frame_off [of ?n _ ?n] by (auto simp: wf_world_def off_stack_def list_all_iff)
    then show ?thesis
      using tuple_fresh [of _ ?n] new_deferred_lists(2) [of _ w]
      by (simp add: pending_d_def) (simp add: new_deferred_def Let_def)
  qed
  moreover have "calm_d ?w e" if "e < ?n" for e
    by (rule calm_d_cong [of w]) (use assms that new_deferred_lists(1) in \<open>auto simp: calm_def new_deferred_def Let_def\<close>)
  ultimately have "\<forall>e < deferreds ?w. calm_d ?w e" by (auto simp: less_Suc_eq calm_d_def)
  with wf show ?thesis by (simp add: calm_def)
qed

lemma first_closure: "d \<le> n \<Longrightarrow> handler_ok n h \<Longrightarrow> closure_ok (Suc n) (Closure d 0 h sp)"
  using handler_mono [of n h "Suc n"] by (auto split: handler.splits)

lemma attach_calm:
  assumes "calm w" "d < deferreds w" "handler_ok (deferreds w) ok" "handler_ok (deferreds w) bad" "handler_ok (deferreds w) prog"
  shows "calm (attach d ok bad prog w)"
  unfolding attach_def Let_def
  by (rule calm_push_other)
    (use assms in \<open>auto simp: new_deferred_calm addable_def lid_def first_closure simp del: closure_ok.simps\<close>)

lemma max_depth_calm: "calm w \<Longrightarrow> calm (w\<lparr>max_depth := m\<rparr>)"
  by (auto simp: calm_def wf_world_def calm_d_def pending_d_def settled_d_def)

lemma log_calm:
  "calm w \<Longrightarrow> calm (w\<lparr>calls := cs\<rparr>)" "calm w \<Longrightarrow> calm (w\<lparr>handled := hs\<rparr>)"
  "calm w \<Longrightarrow> list_all (\<lambda>(c, vs). closure_ok (deferreds w) c \<and> vals_ok (deferreds w) vs) ts \<Longrightarrow> calm (w\<lparr>timers := ts\<rparr>)"
  by (auto simp: calm_def wf_world_def calm_d_def pending_d_def settled_d_def)

section \<open>Returning and throwing\<close>

definition inv_world :: "world \<Rightarrow> bool" where
  "inv_world w \<longleftrightarrow> calm w \<or> busy w"

definition val_ok :: "nat \<Rightarrow> jvalue \<Rightarrow> bool" where
  "val_ok n v \<longleftrightarrow> vals_ok n [v]"

lemma fire_inv:
  "calm w \<Longrightarrow> d < deferreds w \<Longrightarrow> k \<in> {0, 2, 4} \<Longrightarrow> vals_ok (deferreds w) vs \<Longrightarrow> inv_world (fire_list (lid d k) vs w)"
  unfolding inv_world_def by (rule fire_list_inv)

lemma caught_inv:
  assumes "calm w" "closure_ok (deferreds w) c" "vals_ok (deferreds w) vs" "val_ok (deferreds w) e"
  shows "inv_world (caught c vs e w)"
  using assms by (cases c) (auto simp: caught_def val_ok_def inv_world_def [of w] intro!: fire_inv)

lemma unwind_suffix: "unwind fs = (r, gs) \<Longrightarrow> \<exists>hs. fs = hs @ gs"
proof (induction fs)
  case (Cons f fs)
  show ?case
  proof (cases "catcher f")
    case None
    with Cons obtain hs where "fs = hs @ gs" by auto
    then have "f # fs = (f # hs) @ gs" by simp
    then show ?thesis by blast
  next
    case (Some x)
    with Cons.prems have "f # fs = [f] @ gs" by simp
    then show ?thesis by blast
  qed
qed simp

lemma catcher_ok: "catcher f = Some (c, vs) \<Longrightarrow> frame_ok n f \<Longrightarrow> closure_ok n c \<and> vals_ok n vs"
  by (cases f) (auto split: if_splits)

lemma unwind_ok: "unwind fs = (Some (c, vs), gs) \<Longrightarrow> list_all (frame_ok n) fs \<Longrightarrow> closure_ok n c \<and> vals_ok n vs"
  by (induction fs) (auto split: option.splits dest: catcher_ok)

lemma throw_inv:
  assumes "calm w" "val_ok (deferreds w) e"
  shows "inv_world (throw e w)"
proof -
  obtain r gs where u: "unwind (stack w) = (r, gs)" by fastforce
  then obtain hs where hs: "stack w = hs @ gs" using unwind_suffix by blast
  have fr: "list_all (frame_ok (deferreds w)) (stack w)" using calm_wf [OF assms(1)] by (simp add: wf_world_def)
  have c: "calm (w\<lparr>stack := gs\<rparr>)"
    using fr hs by (intro calm_stack [OF assms(1)]) (auto simp: off_stack_def)
  show ?thesis
  proof (cases r)
    case None
    with u c show ?thesis by (simp add: throw_def inv_world_def)
  next
    case (Some x)
    obtain cl vs where x: "x = (cl, vs)" by fastforce
    have "closure_ok (deferreds w) cl \<and> vals_ok (deferreds w) vs" using unwind_ok u Some x fr by blast
    then show ?thesis using caught_inv [OF c, of cl vs e] assms(2) u Some x by (simp add: throw_def)
  qed
qed

lemma returned_inv:
  assumes "calm w" "closure_ok (deferreds w) c" "vals_ok (deferreds w) vs" "val_ok (deferreds w) v"
  shows "inv_world (returned c vs v w)"
proof -
  let ?w = "push (FProc c vs) w"
  obtain d k h sp where cl: "c = Closure d k h sp" by (cases c)
  have w: "calm ?w" using assms by (intro calm_push_other) auto
  have fire: "inv_world (fire_list (lid d (if sp then 0 else 2)) (if h = Identity then vs else [v]) ?w)"
    using assms cl by (intro fire_inv [OF w]) (auto simp: val_ok_def)
  have "inv_world (returned c vs (Promise e) w)" if "v = Promise e" for e
  proof (cases "e = d")
    case True
    have "inv_world (throw SelfResolution ?w)" by (rule throw_inv [OF w]) (simp add: val_ok_def vals_ok_def)
    with True cl show ?thesis by (simp add: returned_def)
  next
    case False
    have e: "e < deferreds w" using assms(4) that by (auto simp: val_ok_def vals_ok_def)
    let ?n = "if sp then max_depth w d else Suc (max_depth w d)"
    let ?v = "?w\<lparr>max_depth := (max_depth w)(d := ?n)\<rparr>"
    have "calm ?v" using w by (rule max_depth_calm)
    then have "calm (attach e (HResolve (Closure d ?n Identity sp)) (HResolve (Closure d ?n Thrower sp))
        (if sp then Identity else HResolve (Closure d ?n Identity True)) ?v)"
      using e assms(2) cl by (intro attach_calm) auto
    then show ?thesis
      using False cl unfolding returned_def inv_world_def Let_def
      by (simp only: jvalue.case closure.sel if_False simp_thms world_simps)
  qed
  then show ?thesis using fire cl by (cases v) (auto simp: returned_def)
qed

lemma start_process_inv:
  assumes "calm w" "closure_ok (deferreds w) c" "vals_ok (deferreds w) vs"
  shows "inv_world (start_process c vs w)"
  using assms
proof (induction c vs w rule: start_process.induct)
  case (1 d k h sp vs w)
  let ?c = "Closure d k h sp"
  have first: "val_ok (deferreds w) (first_value vs)"
    using "1.prems"(3) by (auto simp: first_value_def val_ok_def vals_ok_def split: list.splits)
  show ?case
  proof (cases "k < max_depth w d")
    case True
    then show ?thesis using "1.prems" by (simp add: inv_world_def)
  next
    case k: False
    show ?thesis
    proof (cases h)
      case (HUser n)
      have "calm (push (FHandler ?c vs) (w\<lparr>handled := handled w @ [(d, n, vs)]\<rparr>))"
        using "1.prems" by (intro calm_push_other log_calm) auto
      with HUser k show ?thesis by (simp add: inv_world_def)
    next
      case Identity
      then show ?thesis using returned_inv [OF "1.prems" first] k by simp
    next
      case Thrower
      have "calm (push (FProc ?c vs) w)" using "1.prems" by (intro calm_push_other) auto
      from throw_inv [OF this, of "first_value vs"] Thrower k first show ?thesis by simp
    next
      case (HResolve c')
      let ?w = "push (FAfter ?c vs) w"
      have w: "calm ?w" using "1.prems" by (intro calm_push_other) auto
      have c': "closure_ok (deferreds w) c'" using "1.prems"(2) HResolve by simp
      have "inv_world (start_process c' vs ?w)" if "depth c' \<noteq> 0"
        using "1.IH" [OF refl k HResolve refl that] w c' "1.prems"(3) by simp
      moreover have "calm (?w\<lparr>timers := timers ?w @ [(c', vs)]\<rparr>)"
        using w c' "1.prems"(3) calm_wf [OF "1.prems"(1)] by (intro log_calm) (auto simp: wf_world_def push_def)
      ultimately show ?thesis using HResolve k by (auto simp: inv_world_def Let_def)
    qed
  qed
qed

lemma call_closure_inv:
  assumes "calm w" "closure_ok (deferreds w) c" "vals_ok (deferreds w) vs"
  shows "inv_world (call_closure c vs w)"
proof -
  have "calm (w\<lparr>timers := timers w @ [(c, vs)]\<rparr>)"
    using assms calm_wf [OF assms(1)] by (intro log_calm) (auto simp: wf_world_def)
  then show ?thesis using start_process_inv [OF assms] by (auto simp: call_closure_def inv_world_def)
qed

section \<open>Turns\<close>

text \<open>In a calm world no list that is being called settles a pending deferred.\<close>

lemma running_free:
  assumes "calm w" "stack w = f # fs" "on_list i f"
  shows "free_list w i"
proof -
  have "i \<noteq> lid e 2 \<and> i \<noteq> lid e 4" if "e < deferreds w" "dstate_of w e = Pending" for e
  proof -
    have "off_stack e (f # fs)" using calm_pending [OF assms(1)] that assms(2) by (auto simp: pending_d_def)
    then show ?thesis using assms(3) by auto
  qed
  then show ?thesis by (simp add: free_list_def)
qed

lemma calm_step_list:
  assumes "calm w" "free_list w i" "i < 6 * deferreds w" "list_all (frame_ok (deferreds w)) fs"
    and "\<And>e. e < deferreds w \<Longrightarrow> off_stack e (stack w) \<Longrightarrow> off_stack e fs"
    and "list_ok (deferreds w) i c" "locked (lists w i) \<Longrightarrow> locked c" "dead (lists w i) \<Longrightarrow> dead c"
  shows "calm (upd_list i c (w\<lparr>stack := fs\<rparr>))"
proof -
  have "calm (w\<lparr>stack := fs\<rparr>)" by (rule calm_stack) (use assms in auto)
  then show ?thesis by (rule calm_upd_list) (use assms in \<open>auto simp: free_list_def\<close>)
qed

text \<open>What a function of a list that is being called can do in a calm world.\<close>

lemma running_settled:
  assumes w: "calm w" and i: "i < 6 * deferreds w" "free_list w i" "\<not> dead (lists w i)" and ik: "i = lid d k" "k \<in> {2, 4}"
  shows "settled_d k w d"
proof -
  have d: "d < deferreds w" using i(1) ik by (auto simp: lid_def)
  then have "dstate_of w d \<noteq> Pending" using i(2) ik by (auto simp: free_list_def)
  then have "settled_d 2 w d \<or> settled_d 4 w d" using calm_settled w d by blast
  then show ?thesis using i(3) ik by (auto simp: settled_d_def)
qed

lemma invoke_inv:
  assumes w: "calm w" and i: "i < 6 * deferreds w" "free_list w i" "\<not> dead (lists w i)"
    and f: "allowed (deferreds w) i f" "vals_ok (deferreds w) vs"
  shows "inv_world (invoke i f vs w)"
proof -
  have settled: "settled_d k w d" if "i = lid d k" "k \<in> {2, 4}" for d k
    using running_settled [OF w _ _ i(3)] i(1,2) that by blast
  show ?thesis
  proof (cases f)
    case (User n)
    have "calm (push (FCall i) (w\<lparr>calls := calls w @ [(i, n, vs)]\<rparr>))"
      using w i by (intro calm_push_other log_calm) auto
    with User show ?thesis by (simp add: invoke_def inv_world_def)
  next
    case (SetState d st)
    then obtain k where k: "i = lid d k" "k \<in> {2, 4}" "st = outcome k" using f(1) by (auto simp: allowed_def outcome_def)
    then have "dstate_of w d = st" using settled by (simp add: settled_d_def)
    then show ?thesis using w SetState by (simp add: invoke_def inv_world_def fun_upd_idem)
  next
    case (DisableL j)
    have j: "free_list w j \<and> j < 6 * deferreds w"
    proof -
      obtain d where "i = lid d 2 \<and> j \<in> {lid d 4, lid d 5} \<or> i = lid d 4 \<and> j \<in> {lid d 2, lid d 3}"
        using DisableL f(1) by (simp only: allowed_def callback.case) blast
      then obtain k where dk: "i = lid d k" "k \<in> {2, 4}" "j \<in> {lid d (6 - k), lid d (7 - k)}"
        by (elim disjE) (use that [of 2] that [of 4] in simp_all)
      have d: "d < deferreds w" using i(1) dk(1,2) by (auto simp: lid_def)
      have "settled_d k w d" using settled dk by blast
      then have "dstate_of w d \<noteq> Pending" by (auto simp: settled_d_def)
      then have "free_list w (lid d 2)" "free_list w (lid d 4)" by (auto simp: free_list_def lid_inj)
      moreover have "free_list w (lid d 3)" "free_list w (lid d 5)" by (auto intro: free_other)
      ultimately show ?thesis using dk d by auto
    qed
    have "calm (upd_list j (cb_disable (lists w j)) w)"
      by (rule calm_upd_list [OF w]) (use j calm_wf [OF w] in \<open>auto simp: wf_list list_ok_ops locked_ops dead_ops\<close>)
    with DisableL show ?thesis by (simp add: invoke_def inv_world_def)
  next
    case (LockL j)
    have j: "free_list w j" using LockL f(1) by (intro free_other) (auto simp: allowed_def)
    have "calm (upd_list j (cb_lock (lists w j)) w)"
    proof (cases "j < 6 * deferreds w")
      case True
      then show ?thesis
        by (intro calm_upd_list [OF w]) (use j calm_wf [OF w] in \<open>auto simp: wf_list list_ok_ops locked_ops dead_ops\<close>)
    next
      case False
      have "calm_d (upd_list j (cb_lock (lists w j)) w) e" if "e < deferreds w" for e
      proof (rule calm_d_cong [of w])
        have "j \<noteq> lid e 2" "j \<noteq> lid e 4" using False that by (auto simp: lid_def)
        then show "lists (upd_list j (cb_lock (lists w j)) w) (lid e 2) = lists w (lid e 2)"
          "lists (upd_list j (cb_lock (lists w j)) w) (lid e 4) = lists w (lid e 4)" by auto
      qed (use w that in \<open>auto simp: calm_def\<close>)
      then show ?thesis using False calm_wf [OF w] by (auto simp: calm_def wf_world_def upd_list_def)
    qed
    with LockL show ?thesis by (simp add: invoke_def inv_world_def)
  next
    case (FireL j)
    then have j: "odd j" "j < 6 * deferreds w" using f(1) by (auto simp: allowed_def)
    then have "j mod 6 \<noteq> 2" "j mod 6 \<noteq> 4" by presburger+
    then have "calm (fire_list j vs w)" using calm_fire_other [OF w _ _ j(2) f(2)] by blast
    with FireL show ?thesis by (simp add: invoke_def inv_world_def)
  next
    case (Resolve c)
    then show ?thesis using call_closure_inv [OF w _ f(2)] f(1) by (simp add: invoke_def allowed_def)
  qed
qed

lemma turn_calm:
  assumes w: "calm w" and t: "turn w = Some w'"
  shows "inv_world w'"
proof -
  have fr: "list_all (frame_ok (deferreds w)) (stack w)" using calm_wf [OF w] by (simp add: wf_world_def)
  obtain f fs where st: "stack w = f # fs" using t by (cases "stack w") (auto simp: turn_def)
  have pop: "calm (w\<lparr>stack := fs\<rparr>)" using calm_pop [OF w st] .
  show ?thesis
  proof (cases f)
    case (FOuter i)
    have i: "i < 6 * deferreds w" "free_list w i" using fr st FOuter running_free [OF w st] by auto
    have l: "list_ok (deferreds w) i (lists w i)" using wf_list [OF calm_wf [OF w] i(1)] .
    show ?thesis
    proof (cases "next_value (lists w i)")
      case None
      have "calm (upd_list i (finish_fire (lists w i)) (w\<lparr>stack := fs\<rparr>))"
        by (rule calm_step_list [OF w i(2,1)]) (use fr st l in \<open>auto simp: list_ok_ops locked_ops dead_ops\<close>)
      with None t st FOuter show ?thesis by (simp add: turn_def inv_world_def)
    next
      case (Some c)
      have "calm (upd_list i c (w\<lparr>stack := FInner i # fs\<rparr>))"
        by (rule calm_step_list [OF w i(2,1)])
          (use fr st l Some FOuter in \<open>auto simp: list_ok_next dest: locked_ops(6) dead_ops(6)\<close>)
      with Some t st FOuter show ?thesis by (simp add: turn_def inv_world_def)
    qed
  next
    case (FInner i)
    have i: "i < 6 * deferreds w" "free_list w i" using fr st FInner running_free [OF w st] by auto
    have l: "list_ok (deferreds w) i (lists w i)" using wf_list [OF calm_wf [OF w] i(1)] .
    let ?c = "advance (lists w i)"
    show ?thesis
    proof (cases "current ?c")
      case None
      have "calm (upd_list i (end_value ?c) (w\<lparr>stack := FOuter i # fs\<rparr>))"
        by (rule calm_step_list [OF w i(2,1)]) (use fr st l FInner in \<open>auto simp: list_ok_ops locked_ops dead_ops\<close>)
      with None t st FInner show ?thesis by (simp add: turn_def inv_world_def Let_def)
    next
      case (Some x)
      obtain g vs where x: "x = (g, vs)" by fastforce
      have cur: "allowed (deferreds w) i g \<and> vals_ok (deferreds w) vs" using current_ok [OF l] Some x by blast
      have "calm (upd_list i ?c w)"
        by (rule calm_upd_list [OF w i(2)]) (use l in \<open>auto simp: list_ok_ops locked_ops dead_ops\<close>)
      moreover have "\<not> dead ?c" using Some by (auto simp: dead_def current_def split: if_splits)
      ultimately have "inv_world (invoke i g vs (upd_list i ?c w))"
        using i cur by (intro invoke_inv) (auto simp: free_upd)
      with Some x t st FInner show ?thesis by (simp add: turn_def Let_def)
    qed
  next
    case (FAfter c vs)
    have "inv_world (returned c vs Undefined (w\<lparr>stack := fs\<rparr>))"
      using fr st FAfter by (intro returned_inv [OF pop]) (auto simp: val_ok_def vals_ok_def)
    with t st FAfter show ?thesis by (simp add: turn_def)
  next
    case (FAdds xs)
    show ?thesis
    proof (cases xs)
      case Nil
      with t st FAdds pop show ?thesis by (simp add: turn_def inv_world_def)
    next
      case (Cons x ys)
      obtain i g where x: "x = (i, g)" by fastforce
      have ok: "addable (deferreds w) (i, g)" "list_all (addable (deferreds w)) ys" using fr st FAdds Cons x by auto
      have "calm (w\<lparr>stack := FAdds ys # fs\<rparr>)"
        using fr st ok(2) by (intro calm_stack [OF w]) auto
      then have "calm (add_to i g (w\<lparr>stack := FAdds ys # fs\<rparr>))" using ok(1) by (intro add_to_calm) auto
      with t st FAdds Cons x show ?thesis by (simp add: turn_def inv_world_def)
    qed
  qed (use t st pop in \<open>auto simp: turn_def inv_world_def\<close>)
qed

text \<open>In a busy world the list that settles a deferred is on top of the stack, so only turns happen.\<close>

lemma busy_top:
  assumes "starting k w d \<or> marked k w d"
  shows "\<exists>fs. stack w = FOuter (lid d k) # fs \<or> stack w = FInner (lid d k) # fs"
  using assms by (auto simp: starting_def marked_def)

lemma others_calm:
  assumes "\<forall>e < deferreds w. e \<noteq> d \<longrightarrow> calm_d w e" "k \<in> {2, 4}" "e < deferreds w" "e \<noteq> d"
    and "\<And>j. j \<in> {2, 4} \<Longrightarrow> lists w' (lid e j) = lists w (lid e j)" "dstate_of w' e = dstate_of w e"
    and "off_stack e (stack w) \<longrightarrow> off_stack e (stack w')"
  shows "calm_d w' e"
  by (rule calm_d_cong [of w]) (use assms in auto)

lemma lid_other: "e \<noteq> d \<Longrightarrow> j \<in> {2, 4} \<Longrightarrow> k < 6 \<Longrightarrow> lid e j \<noteq> lid d k"
  by (auto simp: lid_def)

lemma outer_turn:
  assumes w: "wf_world w" "d < deferreds w" "k \<in> {2, 4}" "\<forall>e < deferreds w. e \<noteq> d \<longrightarrow> calm_d w e"
    and s: "starting k w d" and st: "stack w = FOuter (lid d k) # fs" and t: "turn w = Some w'"
  shows "busy w'"
proof -
  let ?i = "lid d k"
  let ?c = "lists w ?i"
  obtain v where v: "queue ?c = [v]" "off_stack d fs" using s st by (auto simp: starting_def)
  have w': "w' = upd_list ?i (?c\<lparr>memory := Some v, queue := []\<rparr>) (w\<lparr>stack := FInner ?i # fs\<rparr>)"
    using t st v by (simp add: turn_def next_value_def)
  have k: "lid d (6 - k) \<noteq> ?i" "k < 6" using w(3) by (auto simp: lid_def)
  have l: "list_ok (deferreds w) ?i (?c\<lparr>memory := Some v, queue := []\<rparr>)"
    by (rule list_ok_next [of _ _ ?c]) (use w k v in \<open>auto simp: wf_list next_value_def\<close>)
  have "wf_world w'"
    unfolding w' using w l st by (intro wf_upd_list wf_stack) (auto simp: wf_world_def)
  moreover have "starting k w' d"
  proof -
    have "dstate_of w d = Pending" "fresh d (6 - k) (lists w (lid d (6 - k)))" "locked ?c" "holds_prefix d k ?c"
      using s by (simp_all add: starting_def)
    moreover from this(4) have "holds_prefix d k (?c\<lparr>memory := Some v, queue := []\<rparr>)" by (simp add: holds_prefix_def)
    ultimately show ?thesis using v(2) k by (simp add: starting_def w')
  qed
  moreover have "calm_d w' e" if "e < deferreds w" "e \<noteq> d" for e
    by (rule others_calm [OF w(4) w(3) that]) (use that k st in \<open>auto simp: w' lid_other [OF that(2)]\<close>)
  moreover have "deferreds w' = deferreds w" by (simp add: w')
  ultimately show ?thesis using w(2,3) unfolding busy_def by auto
qed

lemma prefix_nth: "prefix_of d k ! 0 = SetState d (outcome k)" "prefix_of d k ! Suc 0 = DisableL (lid d (6 - k))"
  "length (prefix_of d k) = 6"
  by (simp_all add: prefix_of_def settle_actions_def)

lemma prefix_nonempty [simp]: "prefix_of d k \<noteq> []"
  by (simp add: prefix_of_def)

lemma starting_current:
  assumes "starting k w d" "stack w = FInner (lid d k) # fs"
  shows "\<exists>v. current (advance (lists w (lid d k))) = Some (SetState d (outcome k), v)"
  using assms
  by (auto simp: starting_def holds_prefix_def current_def advance_def entries_def prefix_nth nth_append)

lemma marked_current:
  assumes "marked k w d"
  shows "\<exists>v. current (advance (lists w (lid d k))) = Some (DisableL (lid d (6 - k)), v)"
  using assms
  by (auto simp: marked_def holds_prefix_def end_value_def current_def advance_def entries_def prefix_nth nth_append)

lemma first_turn:
  assumes w: "wf_world w" "d < deferreds w" "k \<in> {2, 4}" "\<forall>e < deferreds w. e \<noteq> d \<longrightarrow> calm_d w e"
    and s: "starting k w d" and st: "stack w = FInner (lid d k) # fs" and t: "turn w = Some w'"
  shows "busy w'"
proof -
  let ?i = "lid d k"
  let ?c = "lists w ?i"
  obtain v us where v: "queue ?c = []" "memory ?c = Some v" "off_stack d fs" "firingIndex ?c = -1"
    "lst ?c = Some (prefix_of d k @ us)"
    using s st by (auto simp: starting_def holds_prefix_def)
  then have cur: "current (advance ?c) = Some (SetState d (outcome k), v)"
    by (simp add: current_def advance_def entries_def prefix_nth nth_append)
  have w': "w' = (upd_list ?i (advance ?c) w)\<lparr>dstate_of := (dstate_of w)(d := outcome k)\<rparr>"
    using t st cur by (simp add: turn_def Let_def invoke_def)
  have k: "lid d (6 - k) \<noteq> ?i" "k < 6" using w(3) by (auto simp: lid_def)
  have "wf_world (upd_list ?i (advance ?c) w)"
    using w k by (intro wf_upd_list list_ok_ops) (auto simp: wf_list)
  then have "wf_world w'" unfolding w' by (simp add: wf_world_def)
  moreover have "marked k w' d"
    using s v st k unfolding starting_def marked_def w' by (auto simp: holds_prefix_def advance_def end_value_def)
  moreover have "calm_d w' e" if "e < deferreds w" "e \<noteq> d" for e
    by (rule others_calm [OF w(4) w(3) that]) (use that k st in \<open>auto simp: w' lid_other [OF that(2)]\<close>)
  moreover have "deferreds w' = deferreds w" by (simp add: w')
  ultimately show ?thesis using w(2,3) unfolding busy_def by auto
qed

lemma second_turn:
  assumes w: "wf_world w" "d < deferreds w" "k \<in> {2, 4}" "\<forall>e < deferreds w. e \<noteq> d \<longrightarrow> calm_d w e"
    and s: "marked k w d" and t: "turn w = Some w'"
  shows "calm w'"
proof -
  let ?i = "lid d k" and ?j = "lid d (6 - k)"
  let ?c = "lists w ?i"
  obtain fs v us where v: "memory ?c = Some v" "firingIndex ?c = 0" "stack w = FInner ?i # fs" "locked ?c"
    "lst ?c = Some (prefix_of d k @ us)" "dstate_of w d = outcome k"
    using s by (auto simp: marked_def holds_prefix_def end_value_def)
  have cur: "current (advance ?c) = Some (DisableL ?j, v)"
    using v by (simp add: current_def advance_def entries_def prefix_nth nth_append)
  have k: "?j \<noteq> ?i" "?i < 6 * deferreds w" "?j < 6 * deferreds w" using w(2,3) by (auto simp: lid_def)
  have w': "w' = upd_list ?j (cb_disable (lists w ?j)) (upd_list ?i (advance ?c) w)"
    using t v(3) cur k by (simp add: turn_def Let_def invoke_def)
  have "wf_world w'"
    unfolding w' using w k by (intro wf_upd_list list_ok_ops) (auto simp: wf_list)
  moreover have "settled_d k w' d"
    unfolding settled_d_def w' using k v(4,6) by (auto simp: dead_def cb_disable_def advance_def)
  moreover have "calm_d w' e" if "e < deferreds w" "e \<noteq> d" for e
    by (rule others_calm [OF w(4) w(3) that])
      (use that w(3) lid_other [OF that(2)] in \<open>auto simp: w'\<close>)
  moreover have "deferreds w' = deferreds w" by (simp add: w')
  ultimately show ?thesis using w(3) unfolding calm_def calm_d_def by auto
qed

lemma turn_busy:
  assumes "busy w" "turn w = Some w'"
  shows "inv_world w'"
proof -
  obtain d k where w: "wf_world w" "d < deferreds w" "k \<in> {2, 4}" "\<forall>e < deferreds w. e \<noteq> d \<longrightarrow> calm_d w e"
    and s: "starting k w d \<or> marked k w d"
    using assms(1) by (auto simp: busy_def)
  show ?thesis
  proof (cases "marked k w d")
    case True
    then show ?thesis using second_turn [OF w _ assms(2)] by (simp add: inv_world_def)
  next
    case False
    with s have "starting k w d" by simp
    then show ?thesis
      using outer_turn [OF w _ _ assms(2)] first_turn [OF w _ _ assms(2)] busy_top [of k w d] by (auto simp: inv_world_def)
  qed
qed

section \<open>Actions\<close>

lemma busy_not_client: "busy w \<Longrightarrow> \<not> client_running w"
  unfolding busy_def using busy_top by (fastforce simp: client_running_def)

lemma value_ok_eq: "value_ok w v = val_ok (deferreds w) v"
  by (auto simp: value_ok_def val_ok_def vals_ok_def split: jvalue.splits)

lemma args_vals: "list_all (value_ok w) vs = vals_ok (deferreds w) vs"
  by (force simp: value_ok_def vals_ok_def list_all_iff split: jvalue.splits)

lemma perform_inv:
  assumes w: "calm w" and a: "args_ok w c" and p: "perform c w = Some w'"
  shows "inv_world w'"
proof (cases c)
  case NewDeferred
  then show ?thesis using p new_deferred_calm [OF w] by (auto simp: inv_world_def)
next
  case (Settle d k vs)
  then show ?thesis using p a fire_inv [OF w] by (auto simp: args_ok_def args_vals split: if_splits)
next
  case (AddCallback d k n)
  then have "calm w'" using p by (auto simp: addable_def intro!: add_to_calm [OF w] split: if_splits)
  then show ?thesis by (simp add: inv_world_def)
next
  case (Always d n)
  then have "calm w'" using p by (auto simp: addable_def intro!: calm_push_other [OF w] split: if_splits)
  then show ?thesis by (simp add: inv_world_def)
next
  case (Then d f r p')
  then have "calm w'"
    using p by (auto simp: then_call_def or_handler_def intro!: attach_calm [OF w] split: if_splits option.splits)
  then show ?thesis by (simp add: inv_world_def)
qed

lemma act_inv:
  assumes "inv_world w" "act a w = Some w'"
  shows "inv_world w'"
proof (cases "busy w")
  case True
  then have "a = Turn"
    using assms(2) busy_not_client [OF True]
    by (cases a) (auto simp: client_running_def split: list.splits frame.splits prod.splits)
  then show ?thesis using turn_busy [OF True] assms(2) by simp
next
  case False
  with assms(1) have w: "calm w" by (simp add: inv_world_def)
  then have fr: "list_all (frame_ok (deferreds w)) (stack w)" by (simp add: calm_def wf_world_def)
  show ?thesis
  proof (cases a)
    case Turn
    then show ?thesis using turn_calm [OF w] assms(2) by simp
  next
    case (Do c)
    then show ?thesis using perform_inv [OF w] assms(2) by (simp split: if_splits)
  next
    case (Return b)
    then obtain i fs where st: "stack w = FCall i # fs" and w': "w' = upd_list i (after_call b (lists w i)) (w\<lparr>stack := fs\<rparr>)"
      using assms(2) by (auto split: list.splits frame.splits)
    have "\<not> flag_stop (lists w i)" using fr st wf_list [OF calm_wf [OF w], of i] by (auto simp: list_ok_def)
    then have "w' = w\<lparr>stack := fs\<rparr>" unfolding w' by (simp add: after_call_id upd_list_def)
    then show ?thesis using calm_pop [OF w st] by (simp add: inv_world_def)
  next
    case (ReturnValue v)
    then obtain c vs fs where st: "stack w = FHandler c vs # fs" and v: "value_ok w v" and w': "w' = returned c vs v (w\<lparr>stack := fs\<rparr>)"
      using assms(2) by (auto split: list.splits frame.splits if_splits)
    show ?thesis
      unfolding w' by (rule returned_inv [OF calm_pop [OF w st]]) (use fr st v in \<open>auto simp: value_ok_eq\<close>)
  next
    case (Throw e)
    then show ?thesis using throw_inv [OF w] assms(2) by (auto simp: value_ok_eq split: if_splits)
  next
    case Timer
    then obtain c vs ts where t: "timers w = (c, vs) # ts" and w': "w' = start_process c vs (w\<lparr>timers := ts\<rparr>)"
      using assms(2) by (auto split: list.splits)
    have ok: "list_all (\<lambda>(c, vs). closure_ok (deferreds w) c \<and> vals_ok (deferreds w) vs) (timers w)"
      using calm_wf [OF w] by (simp add: wf_world_def)
    show ?thesis
      unfolding w' by (rule start_process_inv) (use ok t w in \<open>auto intro!: log_calm\<close>)
  qed
qed

lemma initial_inv: "inv_world initial_world"
  by (simp add: inv_world_def calm_def wf_world_def initial_world_def)

lemma reachable_inv: "reachable_world w \<Longrightarrow> inv_world w"
  by (induction rule: reachable_world.induct) (auto intro: initial_inv act_inv)

end
