(* ===== verification/Jq_Deferred_Runs.thy ===== *)
theory Jq_Deferred_Runs
  imports Jq_Deferred_Proofs
begin

text \<open>
  What whole runs of the deferreds keep. \<open>step_relation\<close> is the contract of a relation between worlds that every
  elementary operation satisfies; inside it the relation is proved of everything a client or a timer
  does. It is used three times: outcomes are final, a list that an exception has left behind stays
  silent, and the client's handlers run from timers only.
\<close>

section \<open>Relations that the elementary operations satisfy\<close>

locale step_relation =
  fixes R :: "world \<Rightarrow> world \<Rightarrow> bool"
  assumes same: "R w w"
    and chain: "R u v \<Longrightarrow> R v w \<Longrightarrow> R u w"
    and pushed: "(\<And>i. \<not> on_list i f) \<Longrightarrow> R w (push f w)"
    and popped: "stack w = hs @ fs \<Longrightarrow> R w (w\<lparr>stack := fs\<rparr>)"
    and fired: "R w (fire_list i vs w)"
    and added: "R w (add_to i g w)"
    and created: "R w (new_deferred w)"
    and deeper: "R w (w\<lparr>max_depth := m\<rparr>)"
    and timed: "R w (w\<lparr>timers := ts\<rparr>)"
begin

lemma then_pushed: "(\<And>i. \<not> on_list i f) \<Longrightarrow> R v w \<Longrightarrow> R v (push f w)"
  using chain pushed by blast

lemma attached: "R w (attach d ok bad prog w)"
  unfolding attach_def Let_def by (intro then_pushed created) simp

lemma caught_step: "R w (caught c vs e w)"
  by (simp add: caught_def same fired)

lemma thrown: "R w (throw e w)"
proof -
  obtain r gs where u: "unwind (stack w) = (r, gs)" by fastforce
  then obtain hs where "stack w = hs @ gs" using unwind_suffix by blast
  then have "R w (w\<lparr>stack := gs\<rparr>)" by (rule popped)
  then show ?thesis using u chain [OF _ caught_step] by (cases r) (auto simp: throw_def)
qed

lemma returned_step: "R w (returned c vs v w)"
proof -
  let ?w = "push (FProc c vs) w"
  have p: "R w ?w" by (intro pushed) simp
  have f: "R w (fire_list i us ?w)" for i us using chain [OF p fired] .
  have t: "R w (throw e ?w)" for e using chain [OF p thrown] .
  have a: "R w (attach d h1 h2 h3 (?w\<lparr>max_depth := m\<rparr>))" for d h1 h2 h3 m
    using chain [OF chain [OF p deeper] attached] .
  show ?thesis using f t a [simplified] by (cases v) (auto simp: returned_def Let_def)
qed

lemma start_deep: "closure_ok n c \<Longrightarrow> depth c \<noteq> 0 \<Longrightarrow> R w (start_process c vs w)"
proof (induction c vs w rule: start_process.induct)
  case (1 d k h sp vs w)
  have p: "R w (push f w)" if "\<And>i. \<not> on_list i f" for f using that by (rule pushed)
  show ?case
  proof (cases h)
    case (HResolve c')
    let ?w = "push (FAfter (Closure d k h sp) vs) w"
    have "R w (start_process c' vs ?w)" if "\<not> k < max_depth w d" "depth c' \<noteq> 0"
      using chain [OF p "1.IH" [OF refl that(1) HResolve refl that(2)]] "1.prems"(1) HResolve that(2) by simp
    moreover have "R w (?w\<lparr>timers := ts\<rparr>)" for ts using chain [OF p timed] by simp
    ultimately show ?thesis using HResolve same by (auto simp: Let_def)
  next
    case Thrower
    then show ?thesis using chain [OF p thrown] same by (simp add: Let_def)
  qed (use "1.prems" in \<open>auto simp: same returned_step Let_def\<close>)
qed

lemma called_closure: "closure_ok n c \<Longrightarrow> R w (call_closure c vs w)"
  using start_deep timed by (auto simp: call_closure_def)

lemma performed: "perform c w = Some w' \<Longrightarrow> R w w'"
  by (cases c) (auto simp: fired added created then_call_def attached pushed split: if_splits)

text \<open>Everything but timers, the loops of a list and the return from one of its functions.\<close>

lemma untimed_step:
  assumes a: "act a w = Some w'" and top: "\<And>f fs i. stack w = f # fs \<Longrightarrow> \<not> on_list i f" and ret: "\<And>b. a \<noteq> Return b"
    and timer: "a \<noteq> Timer"
  shows "R w w'"
proof (cases a)
  case Turn
  then have t: "turn w = Some w'" using a by simp
  then obtain f fs where st: "stack w = f # fs" by (cases "stack w") (auto simp: turn_def)
  have p: "R w (w\<lparr>stack := fs\<rparr>)" by (rule popped [of _ "[f]"]) (simp add: st)
  have q: "R w (w\<lparr>stack := FAdds xs # fs\<rparr>)" for xs
    using chain [OF p pushed [of "FAdds xs"]] by (simp add: push_def)
  show ?thesis
    using t st top [OF st] p chain [OF p returned_step] chain [OF q added]
    by (cases f) (auto simp: turn_def split: list.splits prod.splits)
next
  case (Do c)
  then show ?thesis using a performed by (auto split: if_splits)
next
  case (ReturnValue v)
  then obtain c vs fs where st: "stack w = FHandler c vs # fs" and w': "w' = returned c vs v (w\<lparr>stack := fs\<rparr>)"
    using a by (auto split: list.splits frame.splits if_splits)
  have "R w (w\<lparr>stack := fs\<rparr>)" by (rule popped [of _ "[FHandler c vs]"]) (simp add: st)
  then show ?thesis unfolding w' using chain returned_step by blast
next
  case (Throw e)
  then show ?thesis using a thrown by (auto split: if_splits)
qed (use ret timer in simp_all)

end

text \<open>With the log of handlers, a timer's function is covered as well.\<close>

locale logging_relation = step_relation +
  assumes logged: "R w (w\<lparr>handled := hs\<rparr>)"
begin

lemma started: "R w (start_process c vs w)"
proof (induction c vs w rule: start_process.induct)
  case (1 d k h sp vs w)
  have p: "R w (push f w)" if "\<And>i. \<not> on_list i f" for f using that by (rule pushed)
  show ?case
  proof (cases h)
    case (HUser n)
    have "R w (push (FHandler (Closure d k h sp) vs) (w\<lparr>handled := hs\<rparr>))" for hs
      by (intro then_pushed logged) simp
    then show ?thesis using HUser same by (simp add: Let_def)
  next
    case (HResolve c')
    let ?w = "push (FAfter (Closure d k h sp) vs) w"
    have "R w (start_process c' vs ?w)" if "\<not> k < max_depth w d" "depth c' \<noteq> 0"
      using chain [OF p "1.IH" [OF refl that(1) HResolve refl that(2)]] by simp
    moreover have "R w (?w\<lparr>timers := ts\<rparr>)" for ts using chain [OF p timed] by simp
    ultimately show ?thesis using HResolve same by (auto simp: Let_def)
  next
    case Thrower
    then show ?thesis using chain [OF p thrown] same by (simp add: Let_def)
  qed (simp_all add: same returned_step Let_def)
qed

lemma called_any: "R w (call_closure c vs w)"
  using started timed by (auto simp: call_closure_def)

lemma other_step:
  assumes a: "act a w = Some w'" and top: "\<And>f fs i. stack w = f # fs \<Longrightarrow> \<not> on_list i f" and ret: "\<And>b. a \<noteq> Return b"
  shows "R w w'"
proof (cases a)
  case Timer
  then show ?thesis using a chain [OF timed started] by (auto split: list.splits)
qed (use untimed_step [OF a top ret] in auto)

end

text \<open>The three ways an action can go.\<close>

lemma act_cases:
  assumes a: "act a w = Some w'"
  obtains (ret) b where "a = Return b" | (loop) i f fs where "a = Turn" "stack w = f # fs" "on_list i f"
    | (other) "\<And>b. a \<noteq> Return b" "\<And>f fs i. stack w = f # fs \<Longrightarrow> \<not> on_list i f"
proof (cases "(\<exists>b. a = Return b) \<or> (\<exists>i f fs. a = Turn \<and> stack w = f # fs \<and> on_list i f)")
  case False
  moreover have "a = Turn" if "stack w = f # fs" "on_list i f" "\<not> (\<exists>b. a = Return b)" for f fs i
    using a that by (cases a; cases f) (auto simp: client_running_def)
  ultimately show thesis by (intro other) blast+
qed (use that in blast)

section \<open>Outcomes\<close>

definition grows :: "world \<Rightarrow> world \<Rightarrow> bool" where
  "grows w w' \<longleftrightarrow> deferreds w \<le> deferreds w' \<and> (\<forall>d < deferreds w. dstate_of w' d = dstate_of w d) \<and> calls w' = calls w"

lemma after_op_keeps [simp]:
  "dstate_of (after_op i r w) = dstate_of w" "calls (after_op i r w) = calls w" "handled (after_op i r w) = handled w"
  by (auto simp: after_op_def push_def upd_list_def split: prod.split)

interpretation grows: logging_relation grows
  by unfold_locales (auto simp: grows_def push_def fire_list_def add_to_def new_deferred_def Let_def)

text \<open>
  \<open>later w w'\<close>: deferreds that had an outcome keep it, and the new calls are of functions whose list is not the list of
  an outcome or is the list of the deferred's outcome.
\<close>

definition call_ok :: "world \<Rightarrow> nat \<times> nat \<times> args \<Rightarrow> bool" where
  "call_ok w x \<longleftrightarrow> fst x < 6 * deferreds w \<and> (\<forall>d. \<forall>k \<in> {2, 4}. fst x = lid d k \<longrightarrow> dstate_of w d = outcome k)"

definition later :: "world \<Rightarrow> world \<Rightarrow> bool" where
  "later w w' \<longleftrightarrow> deferreds w \<le> deferreds w' \<and>
     (\<forall>d < deferreds w. dstate_of w d \<noteq> Pending \<longrightarrow> dstate_of w' d = dstate_of w d) \<and>
     (\<exists>us. calls w' = calls w @ us \<and> list_all (call_ok w') us)"

lemma grows_later: "grows w w' \<Longrightarrow> later w w'"
  by (auto simp: grows_def later_def)

lemma call_ok_later:
  assumes "call_ok w x" "deferreds w \<le> deferreds w'"
    "\<forall>d < deferreds w. dstate_of w d \<noteq> Pending \<longrightarrow> dstate_of w' d = dstate_of w d"
  shows "call_ok w' x"
proof -
  have "d < deferreds w" if "k \<in> {2, 4}" "fst x = lid d k" for d k
    using assms(1) that by (auto simp: call_ok_def lid_def)
  then show ?thesis using assms by (force simp: call_ok_def)
qed

lemma later_trans: "later u v \<Longrightarrow> later v w \<Longrightarrow> later u w"
proof -
  assume a: "later u v" "later v w"
  then obtain us vs where us: "calls v = calls u @ us" "list_all (call_ok v) us" "calls w = calls v @ vs" "list_all (call_ok w) vs"
    by (auto simp: later_def)
  have "list_all (call_ok w) us" using us(2) a(2) call_ok_later by (auto simp: list_all_iff later_def)
  then have "\<exists>us. calls w = calls u @ us \<and> list_all (call_ok w) us" using us by (intro exI [of _ "us @ vs"]) simp
  then show "later u w" using a by (auto simp: later_def)
qed

lemma list_step_later: "later w (upd_list i c (w\<lparr>stack := fs\<rparr>))"
  by (auto simp: later_def upd_list_def)

lemma upd_later: "later w (upd_list i c w)"
  by (auto simp: later_def upd_list_def)

lemma invoke_later:
  assumes w: "calm w" and i: "i < 6 * deferreds w" "free_list w i" "\<not> dead (lists w i)"
    and f: "allowed (deferreds w) i f" "vals_ok (deferreds w) vs"
  shows "later w (invoke i f vs w)"
proof (cases f)
  case (User n)
  have "dstate_of w d = outcome k" if "i = lid d k" "k \<in> {2, 4}" for d k
    using running_settled [OF w i that] by (simp add: settled_d_def)
  then show ?thesis using User i(1) by (auto simp: invoke_def later_def push_def call_ok_def)
next
  case (SetState d st)
  then obtain k where k: "i = lid d k" "k \<in> {2, 4}" "st = outcome k" using f(1) by (auto simp: allowed_def outcome_def)
  then show ?thesis using SetState running_settled [OF w i k(1,2)] by (auto simp: invoke_def later_def settled_d_def)
next
  case (Resolve c)
  then show ?thesis using f(1) grows_later grows.called_any by (auto simp: invoke_def)
qed (auto simp: invoke_def upd_later grows_later grows.fired)

lemma turn_later:
  assumes w: "inv_world w" and t: "turn w = Some w'" and st: "stack w = f # fs" and f: "f = FOuter i \<or> f = FInner i"
  shows "later w w'"
proof (cases "f = FInner i \<and> current (advance (lists w i)) \<noteq> None")
  case False
  then show ?thesis
    using t st f by (auto simp: turn_def list_step_later Let_def split: option.splits)
next
  case True
  then obtain g vs where g: "current (advance (lists w i)) = Some (g, vs)" by auto
  then have w': "w' = invoke i g vs (upd_list i (advance (lists w i)) w)"
    using t st True by (simp add: turn_def Let_def)
  show ?thesis
  proof (cases "calm w")
    case calm: True
    have i: "i < 6 * deferreds w" "free_list w i"
      using calm_wf [OF calm] st True running_free [OF calm st] by (auto simp: wf_world_def)
    have l: "list_ok (deferreds w) i (lists w i)" using wf_list [OF calm_wf [OF calm] i(1)] .
    have "calm (upd_list i (advance (lists w i)) w)"
      by (rule calm_upd_list [OF calm i(2)]) (use l in \<open>auto simp: list_ok_ops locked_ops dead_ops\<close>)
    moreover have "\<not> dead (advance (lists w i))" using g by (auto simp: dead_def current_def split: if_splits)
    ultimately have "later (upd_list i (advance (lists w i)) w) w'"
      unfolding w' using i current_ok [OF l g] by (intro invoke_later) (auto simp: free_upd)
    then show ?thesis using later_trans upd_later by blast
  next
    case False
    then obtain d k where dk: "starting k w d \<or> marked k w d" using w by (auto simp: inv_world_def busy_def)
    then have ik: "i = lid d k" using st True by (auto simp: starting_def marked_def)
    show ?thesis
    proof (cases "marked k w d")
      case m: True
      then have "g = DisableL (lid d (6 - k))"
        using g ik marked_current [of k w d] by auto
      then show ?thesis unfolding w' by (auto simp: invoke_def later_def upd_list_def)
    next
      case m: False
      then have "starting k w d" using dk by simp
      then have "g = SetState d (outcome k)" "dstate_of w d = Pending"
        using g ik starting_current [of k w d] st True by (auto simp: starting_def)
      then show ?thesis unfolding w' by (auto simp: invoke_def later_def upd_list_def)
    qed
  qed
qed

lemma act_later:
  assumes w: "inv_world w" and a: "act a w = Some w'"
  shows "later w w'"
  using a
proof (cases rule: act_cases)
  case (ret b)
  then show ?thesis using a by (auto simp: list_step_later split: list.splits frame.splits)
next
  case (loop i f fs)
  then have "f = FOuter i \<or> f = FInner i" by (cases f) auto
  then show ?thesis using turn_later [OF w _ loop(2)] a loop(1) by simp
next
  case other
  then show ?thesis using grows.other_step [OF a] grows_later by blast
qed

lemma run_later:
  assumes "reachable_world w" "run_acts as w = Some w'"
  shows "later w w'"
  using assms
proof (induction as arbitrary: w)
  case Nil
  then show ?case by (simp add: later_def)
next
  case (Cons a as)
  then obtain v where v: "act a w = Some v" "run_acts as v = Some w'" by (auto split: option.splits)
  have "later w v" using act_later reachable_inv Cons.prems(1) v(1) by blast
  moreover have "later v w'" using Cons.IH [OF act_world [OF Cons.prems(1) v(1)] v(2)] .
  ultimately show ?case by (rule later_trans)
qed

lemma reachable_calls: "reachable_world w \<Longrightarrow> list_all (call_ok w) (calls w)"
proof (induction rule: reachable_world.induct)
  case begin_world
  then show ?case by (simp add: initial_world_def)
next
  case (act_world w a w')
  then have l: "later w w'" using act_later reachable_inv by blast
  then have "list_all (call_ok w') (calls w)"
    using act_world.IH call_ok_later by (auto simp: list_all_iff later_def)
  then show ?case using l by (auto simp: later_def)
qed

section \<open>Lists that an exception has left behind\<close>

text \<open>The list says it is firing, but nothing is running that would go on with it.\<close>

definition abandoned :: "nat \<Rightarrow> world \<Rightarrow> bool" where
  "abandoned i w \<longleftrightarrow> i < 6 * deferreds w \<and> firing (lists w i) \<and> (\<forall>f \<in> set (stack w). \<not> on_list i f)"

definition silent :: "nat \<Rightarrow> world \<Rightarrow> world \<Rightarrow> bool" where
  "silent i w w' \<longleftrightarrow> (abandoned i w \<longrightarrow> abandoned i w' \<and> (\<exists>us. calls w' = calls w @ us \<and> (\<forall>u \<in> set us. fst u \<noteq> i)))"

lemma silent_trans: "silent i u v \<Longrightarrow> silent i v w \<Longrightarrow> silent i u w"
proof -
  assume uv: "silent i u v" and vw: "silent i v w"
  have "\<exists>us. calls w = calls u @ us \<and> (\<forall>u \<in> set us. fst u \<noteq> i)" if a: "abandoned i u"
  proof -
    obtain us where us: "calls v = calls u @ us" "\<forall>u \<in> set us. fst u \<noteq> i" "abandoned i v"
      using uv a by (auto simp: silent_def)
    obtain vs where vs: "calls w = calls v @ vs" "\<forall>u \<in> set vs. fst u \<noteq> i"
      using vw us(3) by (auto simp: silent_def)
    show ?thesis using us vs by (intro exI [of _ "us @ vs"]) auto
  qed
  then show "silent i u w" using uv vw by (simp add: silent_def)
qed

lemma firing_ops:
  "firing (fst (cb_fireWith v c)) = firing c" "firing (fst (cb_add as c)) = firing c" "firing (cb_disable c) = firing c"
  "firing (cb_lock c) = firing c" "firing (after_call b c) = firing c"
  by (auto simp: cb_fireWith_def cb_add_def cb_disable_def cb_lock_def after_call_def Let_def split: option.splits)

lemma no_refire: "firing c \<Longrightarrow> \<not> snd (cb_fireWith v c)" "firing c \<Longrightarrow> \<not> snd (cb_add as c)"
  by (auto simp: cb_fireWith_def cb_add_def Let_def split: option.splits)

lemma silent_after_op:
  assumes "firing (lists w j) \<Longrightarrow> \<not> snd r" "firing (fst r) = firing (lists w j)"
  shows "silent i w (after_op j r w)"
  using assms by (cases r) (auto simp: silent_def abandoned_def after_op_def push_def upd_list_def begin_fire_def)

lemma silent_list: "stack w = fs \<or> stack w = f # fs \<Longrightarrow> firing (lists w j) \<longrightarrow> firing c \<Longrightarrow> silent i w (upd_list j c (w\<lparr>stack := fs\<rparr>))"
  by (auto simp: silent_def abandoned_def upd_list_def)

interpretation silent: logging_relation "silent i" for i
proof unfold_locales
  show "silent i u v \<Longrightarrow> silent i v w \<Longrightarrow> silent i u w" for u v w by (rule silent_trans)
  show "silent i w (fire_list j vs w)" "silent i w (add_to j g w)" for w j vs g
    unfolding fire_list_def add_to_def by (rule silent_after_op; simp add: no_refire firing_ops)+
qed (auto simp: silent_def abandoned_def push_def new_deferred_def Let_def)

lemma invoke_silent:
  assumes "j \<noteq> i"
  shows "silent i w (invoke j f vs w)"
proof (cases f)
  case (User n)
  then show ?thesis using assms by (auto simp: invoke_def silent_def abandoned_def push_def)
next
  case (Resolve c)
  then show ?thesis using silent.called_any by (simp add: invoke_def)
next
  case (FireL k)
  then show ?thesis using silent.fired by (simp add: invoke_def)
qed (auto simp: invoke_def firing_ops silent_def abandoned_def upd_list_def)

lemma turn_silent:
  assumes t: "turn w = Some w'" and st: "stack w = f # fs" and f: "f = FOuter j \<or> f = FInner j"
  shows "silent i w w'"
proof (cases "i = j")
  case True
  then show ?thesis using st f by (auto simp: silent_def abandoned_def)
next
  case False
  have u: "silent i w (upd_list j c (w\<lparr>stack := g # fs\<rparr>))" if "\<not> on_list i g" for c g
    using that False st by (auto simp: silent_def abandoned_def upd_list_def)
  have v: "silent i w (upd_list j c w)" "silent i w (upd_list j c (w\<lparr>stack := fs\<rparr>))" for c
    using False st by (auto simp: silent_def abandoned_def upd_list_def)
  show ?thesis
    using t st f False u v silent_trans [OF v(1) invoke_silent [OF not_sym [OF False]]]
    by (auto simp: turn_def Let_def split: option.splits)
qed

lemma act_silent:
  assumes a: "act a w = Some w'"
  shows "silent i w w'"
  using a
proof (cases rule: act_cases)
  case (ret b)
  then show ?thesis using a
    by (auto simp: firing_ops silent_def abandoned_def upd_list_def split: list.splits frame.splits)
next
  case (loop j f fs)
  then have "f = FOuter j \<or> f = FInner j" by (cases f) auto
  then show ?thesis using turn_silent [OF _ loop(2)] a loop(1) by simp
next
  case other
  then show ?thesis using silent.other_step [OF a] by blast
qed

lemma run_silent: "run_acts as w = Some w' \<Longrightarrow> silent i w w'"
proof (induction as arbitrary: w)
  case Nil
  then show ?case by (simp add: silent.same)
next
  case (Cons a as)
  then show ?case using act_silent silent_trans by (fastforce split: option.splits)
qed

section \<open>Handlers run from timers\<close>

definition same_handled :: "world \<Rightarrow> world \<Rightarrow> bool" where
  "same_handled w w' \<longleftrightarrow> handled w' = handled w"

interpretation same_handled: step_relation same_handled
  by unfold_locales (auto simp: same_handled_def push_def fire_list_def add_to_def new_deferred_def Let_def)

lemma upd_handled [simp]: "handled (upd_list i c w) = handled w"
  by (simp add: upd_list_def)

lemma invoke_handled:
  assumes "allowed n i f"
  shows "same_handled w (invoke i f vs w)"
proof (cases f)
  case (Resolve c)
  then show ?thesis using assms same_handled.called_closure [of n c] by (simp add: invoke_def allowed_def)
next
  case (FireL k)
  then show ?thesis using same_handled.fired by (simp add: invoke_def)
qed (auto simp: invoke_def same_handled_def push_def)

lemma inv_wf: "inv_world w \<Longrightarrow> wf_world w"
  by (auto simp: inv_world_def calm_def busy_def)

lemma act_handled:
  assumes w: "inv_world w" and a: "act a w = Some w'" and "a \<noteq> Timer"
  shows "same_handled w w'"
  using a
proof (cases rule: act_cases)
  case (ret b)
  then show ?thesis using a by (auto simp: same_handled_def split: list.splits frame.splits)
next
  case (loop j f fs)
  have wf: "wf_world w" using w by (rule inv_wf)
  then have "j < 6 * deferreds w" using loop(2,3) by (cases f) (auto simp: wf_world_def)
  then have l: "list_ok (deferreds w) j (lists w j)" using wf by (simp add: wf_list)
  show ?thesis
  proof (cases "current (advance (lists w j))")
    case None
    then show ?thesis
      using a loop by (cases f) (auto simp: turn_def Let_def same_handled_def split: option.splits)
  next
    case (Some x)
    obtain g vs where x: "x = (g, vs)" by fastforce
    have "same_handled (upd_list j (advance (lists w j)) w) (invoke j g vs (upd_list j (advance (lists w j)) w))"
      using current_ok [OF l] Some x invoke_handled by blast
    then show ?thesis
      using a loop Some x by (cases f) (auto simp: turn_def Let_def same_handled_def split: option.splits)
  qed
next
  case other
  then show ?thesis using same_handled.untimed_step [OF a] assms(3) by blast
qed

end
