(* ===== verification/Jq_Properties.thy ===== *)
theory Jq_Properties
  imports Jq_Deferred_Runs
begin

text \<open>
  What \<open>jQuery.Callbacks\<close> and \<open>jQuery.Deferred\<close> promise, for all runs of a client's operations, turns of the loops,
  returns, exceptions and timers.
\<close>

section \<open>Callback lists\<close>

text \<open>C13: \<open>fireWith\<close> on an idle, unlocked list ends, with as many turns as there are functions and three more; it has called
the functions in order, each once, up to the first that returns false when the list stops on that. A list with
\<open>memory\<close> that was not stopped calls a function that is added later at once, with the value it was fired with; a list
with \<open>once\<close> is never fired again.\<close>

theorem fire_calls_each_once:
  assumes "idle c" "lst c = Some l" "\<not> locked c" "\<not> flag_unique c" "length l + 3 \<le> n"
  shows "\<exists>c'. fire_now res n (cb_fireWith v c) = Some (map (\<lambda>f. (f, v)) (called (flag_stop c) res v l), c') \<and> idle c' \<and>
    (flag_memory c \<and> \<not> stopped (flag_stop c) res v l \<longrightarrow> (\<exists>c''. fire_now res 4 (cb_add [Fn f] c') = Some ([(f, v)], c''))) \<and>
    (flag_once c \<longrightarrow> fire_now res n (cb_fireWith u c') = Some ([], c'))"
proof -
  let ?c = "finish_fire ((begin_fire c)\<lparr>memory := (if stopped (flag_stop c) res v l then None else Some v)\<rparr>)"
  have "idle ?c" using assms(1) by (rule idle_finish)
  moreover have "\<exists>c''. fire_now res 4 (cb_add [Fn f] ?c) = Some ([(f, v)], c'')"
    if a: "flag_memory c" "\<not> stopped (flag_stop c) res v l"
  proof -
    have "lst ?c \<noteq> None" using a assms(2,3) by simp
    then obtain l' where "lst ?c = Some l'" by blast
    then show ?thesis
      using add_idle [OF \<open>idle ?c\<close>, of l' v 4 res f] a assms(4) by auto
  qed
  moreover have "fire_now res n (cb_fireWith u ?c) = Some ([], ?c)" if "flag_once c"
    using that by (simp add: cb_fireWith_def fire_now_def)
  ultimately show ?thesis using fire_idle [OF assms(1,2,3,5), of res v] by blast
qed

lemma fire_calls_each_once_witness:
  "\<exists>c'. fire_now (\<lambda>f v. False) 5 (cb_fireWith (7::nat) ((Callbacks ''once memory'')\<lparr>lst := Some [1::nat, 2]\<rparr>)) = Some ([(1, 7), (2, 7)], c') \<and>
    (\<exists>c''. fire_now (\<lambda>f v. False) 4 (cb_add [Fn 3] c') = Some ([(3, 7)], c''))"
proof -
  let ?c = "(Callbacks ''once memory'' :: (nat, nat) callbacks)\<lparr>lst := Some [1, 2]\<rparr>"
  have c: "idle ?c" "lst ?c = Some [1, 2]" "\<not> locked ?c" "\<not> flag_unique ?c" "length [1::nat, 2] + 3 \<le> 5"
    "flag_memory ?c" "\<not> flag_stop ?c"
    by (simp_all add: idle_def Callbacks_def create_options)
  show ?thesis
    using fire_calls_each_once [OF c(1-5), of "\<lambda>f v. False" 7 3] c(6,7) by (simp add: stopped_def) blast
qed

section \<open>Deferreds\<close>

text \<open>
  A client makes a deferred, adds a done and a fail callback and resolves the deferred; the done callback is running. Then
  it returns and the lists finish.
\<close>

definition demo_called :: "action list" where
  "demo_called =
     [Do NewDeferred, Do (AddCallback 0 2 5), Do (AddCallback 0 4 6), Do (Settle 0 2 [Plain 1])] @ replicate 11 Turn"

definition demo_settle :: "action list" where
  "demo_settle = demo_called @ [Return False, Turn, Turn]"

definition demo_world :: "action list \<Rightarrow> world" where
  "demo_world as = (case run_acts as initial_world of Some w \<Rightarrow> w | None \<Rightarrow> initial_world)"

lemma demo_world_reachable: "reachable_world (demo_world as)"
  unfolding demo_world_def by (auto intro: begin_world run_reachable split: option.splits)

text \<open>C14: The outcome of a deferred is final: once it is resolved or rejected, no run changes that.\<close>

theorem outcome_is_final:
  assumes "reachable_world w" "d < deferreds w" "dstate_of w d \<noteq> Pending" "run_acts as w = Some w'"
  shows "dstate_of w' d = dstate_of w d"
  using run_later [OF assms(1,4)] assms(2,3) by (auto simp: later_def)

lemma outcome_is_final_witness:
  "dstate_of (the (run_acts [Do (Settle 0 4 [Plain 2])] (demo_world demo_settle))) 0 = Resolved"
proof -
  let ?w = "demo_world demo_settle"
  have "run_acts [Do (Settle 0 4 [Plain 2])] ?w \<noteq> None" "0 < deferreds ?w" "dstate_of ?w 0 = Resolved"
    by code_simp+
  then show ?thesis using outcome_is_final [OF demo_world_reachable, of 0 demo_settle] by (auto simp del: run_acts.simps)
qed

text \<open>C15: In no run are callbacks for both outcomes of a deferred called: when one of its done callbacks has been called, the
deferred is resolved and none of its fail callbacks has been.\<close>

theorem one_outcome_only:
  assumes "reachable_world w" "(lid d 2, f, vs) \<in> set (calls w)"
  shows "dstate_of w d = Resolved \<and> (lid d 4, g, us) \<notin> set (calls w)"
proof -
  have ok: "call_ok w x" if "x \<in> set (calls w)" for x
    using reachable_calls [OF assms(1)] that by (simp add: list_all_iff)
  have "dstate_of w d = Resolved" using ok [OF assms(2)] by (auto simp: call_ok_def outcome_def)
  moreover have "dstate_of w d = Rejected" if "(lid d 4, g, us) \<in> set (calls w)"
    using ok [OF that] by (auto simp: call_ok_def outcome_def)
  ultimately show ?thesis by auto
qed

lemma one_outcome_only_witness:
  "dstate_of (demo_world demo_settle) 0 = Resolved \<and> (lid 0 4, 6, [Plain 2]) \<notin> set (calls (demo_world demo_settle))"
proof -
  have "(lid 0 2, 5, [Plain 1]) \<in> set (calls (demo_world demo_settle))" by code_simp
  then show ?thesis by (rule one_outcome_only [OF demo_world_reachable])
qed

text \<open>A pending deferred that a client resolves or rejects has that outcome two turns of the loop later, before any callback
has been called.\<close>

theorem settling_takes_effect:
  assumes "reachable_world w" "client_running w" "d < deferreds w" "dstate_of w d = Pending" "k \<in> {2, 4}" "list_all (value_ok w) vs"
  shows "\<exists>w'. run_acts [Do (Settle d k vs), Turn, Turn, Turn] w = Some w' \<and>
    dstate_of w' d = (if k = 2 then Resolved else Rejected) \<and> calls w' = calls w"
proof -
  let ?i = "lid d k"
  let ?c = "lists w ?i"
  have calm: "calm w" using reachable_inv [OF assms(1)] assms(2) busy_not_client by (auto simp: inv_world_def)
  then have "fresh d k ?c" using calm_pending assms(3-5) by (auto simp: pending_d_def)
  then obtain us where c: "lst ?c = Some (prefix_of d k @ us)" "firingIndex ?c = -1" "queue ?c = []" "\<not> locked ?c" "\<not> firing ?c"
    by (auto simp: fresh_def holds_prefix_def)
  let ?c1 = "begin_fire (?c\<lparr>queue := [vs]\<rparr>)"
  let ?c2 = "?c1\<lparr>memory := Some vs, queue := []\<rparr>"
  let ?w1 = "push (FOuter ?i) (upd_list ?i ?c1 w)"
  let ?w2 = "upd_list ?i ?c2 (w\<lparr>stack := FInner ?i # stack w\<rparr>)"
  let ?w3 = "(upd_list ?i (advance ?c2) ?w2)\<lparr>dstate_of := (dstate_of w)(d := outcome k)\<rparr>"
  have 1: "act (Do (Settle d k vs)) w = Some ?w1"
    using assms c by (auto simp: args_ok_def fire_list_def after_op_def cb_fireWith_def)
  have 2: "act Turn ?w1 = Some ?w2"
    using c by (simp add: turn_def next_value_def begin_fire_def upd_list_def push_def)
  have "current (advance ?c2) = Some (SetState d (outcome k), vs)"
    using c by (simp add: current_def advance_def entries_def begin_fire_def prefix_nth nth_append)
  then have 3: "act Turn ?w2 = Some ?w3"
    by (simp add: turn_def invoke_def upd_list_def)
  let ?c3 = "advance ?c2"
  let ?j = "lid d (6 - k)"
  have "?j \<noteq> ?i" using assms(5) by (auto simp: lid_def)
  moreover have "current (advance ?c3) = Some (DisableL ?j, vs)"
    using c by (simp add: current_def advance_def entries_def begin_fire_def prefix_nth nth_append)
  ultimately have "\<exists>w'. act Turn ?w3 = Some w' \<and> dstate_of w' = dstate_of ?w3 \<and> calls w' = calls w"
    by (simp add: turn_def invoke_def upd_list_def)
  then show ?thesis unfolding run_acts.simps 1 2 3 option.case by (auto simp: outcome_def)
qed

lemma settling_takes_effect_witness:
  "\<exists>w'. run_acts [Do (Settle 0 4 [Plain 3]), Turn, Turn, Turn] (demo_world [Do NewDeferred]) = Some w' \<and> dstate_of w' 0 = Rejected"
proof -
  have "client_running (demo_world [Do NewDeferred])" "0 < deferreds (demo_world [Do NewDeferred])"
    "dstate_of (demo_world [Do NewDeferred]) 0 = Pending" "list_all (value_ok (demo_world [Do NewDeferred])) [Plain 3]"
    by code_simp+
  then show ?thesis using settling_takes_effect [OF demo_world_reachable, of "[Do NewDeferred]" 0 4 "[Plain 3]"]
    by (simp del: run_acts.simps) blast
qed

text \<open>The handlers given to \<open>then\<close> run from a timer only: no operation of a client, turn of a loop, return or exception
runs one, even when the deferred is settled already.\<close>

theorem handlers_run_from_timers:
  assumes "reachable_world w" "act a w = Some w'" "a \<noteq> Timer"
  shows "handled w' = handled w"
  using act_handled [OF reachable_inv [OF assms(1)] assms(2,3)] by (simp add: same_handled_def)

lemma handlers_run_from_timers_witness:
  "handled (the (act (Do (Then 0 (Some 9) None None)) (demo_world demo_settle))) = []"
proof -
  have "act (Do (Then 0 (Some 9) None None)) (demo_world demo_settle) \<noteq> None" "handled (demo_world demo_settle) = []"
    by code_simp+
  then show ?thesis using handlers_run_from_timers [OF demo_world_reachable, of "Do (Then 0 (Some 9) None None)" demo_settle]
    by (auto simp del: act.simps)
qed

text \<open>A list that is marked as firing while nothing runs it, as a callback that throws leaves it, stays so in every run:
none of its functions, those added later included, is ever called again.\<close>

theorem abandoned_list_stays_silent:
  assumes "abandoned i w" "run_acts as w = Some w'"
  shows "abandoned i w' \<and> (\<exists>us. calls w' = calls w @ us \<and> (\<forall>u \<in> set us. fst u \<noteq> i))"
  using run_silent [OF assms(2), of i] assms(1) by (simp add: silent_def)

text \<open>A done callback throws; another one is added.\<close>

definition demo_throw :: "action list" where
  "demo_throw = demo_called @ [Throw (Plain 9)]"

lemma abandoned_list_stays_silent_witness:
  "reachable_world (demo_world demo_throw) \<and>
    abandoned (lid 0 2) (the (run_acts [Do (AddCallback 0 2 8)] (demo_world demo_throw)))"
proof -
  have a: "abandoned (lid 0 2) (demo_world demo_throw)" by code_simp
  have "run_acts [Do (AddCallback 0 2 8)] (demo_world demo_throw) \<noteq> None" by code_simp
  then show ?thesis using abandoned_list_stays_silent [OF a] demo_world_reachable by (auto simp del: run_acts.simps)
qed

end
