(* ===== verification/Jq_Events.thy ===== *)
theory Jq_Events
  imports Jq_Callbacks Js_Regex_Syntax "HOL-Library.Char_ord" "HOL-Library.List_Lexorder"
begin

text \<open>
  The event manager of jQuery: the handlers of an element are kept per type, delegated ones in front. \<open>on\<close>, \<open>one\<close>,
  \<open>off\<close> change these lists; \<open>dispatch\<close> determines the handlers of an event and calls them. The page is a parameter:
  the path from a node to the root, the selector engine and the kinds of nodes.
\<close>

section \<open>Handlers\<close>

text \<open>
  A client's function, the two constants, the wrapper \<open>one\<close> makes, and the controller of \<open>leverageNative\<close>.
\<close>

datatype fn = Client nat | ReturnTrue | ReturnFalse | OneShot fn | Controller string

text \<open>An argument: missing or null, a string, a function, \<open>false\<close>, or an object of data.\<close>

datatype jarg = Missing | AText string | AFn nat | AFalse | AData nat

text \<open>A selector is \<open>None\<close> when it is falsy; the namespace is \<open>None\<close> when it is \<open>false\<close>.\<close>

record handle_obj =
  h_type :: string
  origType :: string
  h_data :: jarg
  handler :: fn
  guid :: nat
  sel :: "string option"
  namespace :: "string option"

record handler_list =
  hs :: "handle_obj list"
  delegateCount :: int

record event_state =
  events_of :: "(nat \<times> (string \<times> handler_list) list) list"
  guids :: "(fn \<times> nat) list"
  guid_counter :: nat
  listeners :: "(nat \<times> string) list"
  claimed :: "(nat \<times> string) list"
  global_types :: "string list"

definition no_events :: event_state where
  "no_events = \<lparr>events_of = [], guids = [], guid_counter = 1, listeners = [], claimed = [], global_types = []\<rparr>"

record page =
  node_path :: "nat \<Rightarrow> nat list"
  is_elem :: "nat \<Rightarrow> bool"
  is_node :: "nat \<Rightarrow> bool"
  accepts :: "nat \<Rightarrow> bool"
  checkable :: "nat \<Rightarrow> bool"
  disabled_elem :: "nat \<Rightarrow> bool"
  valid_selector :: "string \<Rightarrow> bool"
  selects :: "nat \<Rightarrow> string \<Rightarrow> nat \<Rightarrow> bool"

section \<open>Special types\<close>

definition special_table :: "(string \<times> string option \<times> string option) list" where
  "special_table =
     [(''focus'', Some ''focusin'', None), (''blur'', Some ''focusout'', None),
      (''mouseenter'', Some ''mouseover'', Some ''mouseover''), (''mouseleave'', Some ''mouseout'', Some ''mouseout''),
      (''pointerenter'', Some ''pointerover'', Some ''pointerover''), (''pointerleave'', Some ''pointerout'', Some ''pointerout'')]"

definition mapped_type :: "string option \<Rightarrow> string \<Rightarrow> string" where
  "mapped_type selector t =
     (case map_of special_table t of
        None \<Rightarrow> t
      | Some (delegateType, bindType) \<Rightarrow>
          (case (if selector \<noteq> None then delegateType else bindType) of Some u \<Rightarrow> u | None \<Rightarrow> t))"

text \<open>Whether \<open>setup\<close> claims the first handler: for focus and blur, and for click on checkable inputs.\<close>

definition setup_claims :: "page \<Rightarrow> nat \<Rightarrow> string \<Rightarrow> bool" where
  "setup_claims pg el t \<longleftrightarrow> t = ''focus'' \<or> t = ''blur'' \<or> t = ''click'' \<and> checkable pg el"

definition enter_leave :: "string \<Rightarrow> bool" where
  "enter_leave t \<longleftrightarrow> t \<in> {''mouseenter'', ''mouseleave'', ''pointerenter'', ''pointerleave''}"

section \<open>Types and namespaces\<close>

definition js_join :: "string \<Rightarrow> string list \<Rightarrow> string" where
  "js_join x ws = (case ws of [] \<Rightarrow> [] | w # vs \<Rightarrow> w @ concat (map (\<lambda>v. x @ v) vs))"

definition type_words :: "string \<Rightarrow> string list" where
  "type_words types = (case createOptions types of [] \<Rightarrow> [[]] | ws \<Rightarrow> ws)"

definition dot :: "char \<Rightarrow> bool" where
  "dot c \<longleftrightarrow> c = CHR ''.''"

text \<open>\<open>rtypenamespace\<close>: the type, and what follows the first dot.\<close>

definition type_namespace :: "string \<Rightarrow> string \<times> string" where
  "type_namespace w = (takeWhile (\<lambda>c. \<not> dot c) w, drop 1 (dropWhile (\<lambda>c. \<not> dot c) w))"

definition namespaces_of :: "string \<Rightarrow> string list" where
  "namespaces_of n = sort (split_where dot n)"

text \<open>The pattern that finds the namespaces, in order, in the sorted namespaces of a handler.\<close>

definition namespace_rx :: "string list \<Rightarrow> rx option" where
  "namespace_rx ns = RegExp (unescape ''(^|%.)'' @ js_join (unescape ''%.(?:.*%.|)'') ns @ unescape ''(%.|$)'')"

section \<open>Adding handlers\<close>

definition elem_events :: "event_state \<Rightarrow> nat \<Rightarrow> (string \<times> handler_list) list option" where
  "elem_events s el = oget (events_of s) el"

definition set_events :: "nat \<Rightarrow> (string \<times> handler_list) list \<Rightarrow> event_state \<Rightarrow> event_state" where
  "set_events el ev s = s\<lparr>events_of := oset (events_of s) el ev\<rparr>"

definition clear_events :: "nat \<Rightarrow> event_state \<Rightarrow> event_state" where
  "clear_events el s = s\<lparr>events_of := odel (events_of s) el\<rparr>"

definition handlers_at :: "event_state \<Rightarrow> nat \<Rightarrow> string \<Rightarrow> handler_list" where
  "handlers_at s el t =
     (case elem_events s el of
        None \<Rightarrow> \<lparr>hs = [], delegateCount = 0\<rparr>
      | Some ev \<Rightarrow> (case oget ev t of Some hl \<Rightarrow> hl | None \<Rightarrow> \<lparr>hs = [], delegateCount = 0\<rparr>))"

definition put_handlers :: "nat \<Rightarrow> string \<Rightarrow> handler_list \<Rightarrow> event_state \<Rightarrow> event_state" where
  "put_handlers el t hl s =
     set_events el (oset (case elem_events s el of Some ev \<Rightarrow> ev | None \<Rightarrow> []) t hl) s"

definition insert_handler :: "handle_obj \<Rightarrow> handler_list \<Rightarrow> handler_list" where
  "insert_handler h hl =
     (if sel h \<noteq> None
      then hl\<lparr>hs := take (nat (delegateCount hl)) (hs hl) @ h # drop (nat (delegateCount hl)) (hs hl),
              delegateCount := delegateCount hl + 1\<rparr>
      else hl\<lparr>hs := hs hl @ [h]\<rparr>)"

text \<open>A wrapper has the identity of the function it wraps.\<close>

fun base_fn :: "fn \<Rightarrow> fn" where
  "base_fn (OneShot f) = base_fn f"
| "base_fn f = f"

definition guid_of :: "fn \<Rightarrow> event_state \<Rightarrow> nat option" where
  "guid_of f s = map_of (guids s) (base_fn f)"

definition ensure_guid :: "fn \<Rightarrow> event_state \<Rightarrow> event_state" where
  "ensure_guid f s =
     (case guid_of f s of
        Some g \<Rightarrow> s
      | None \<Rightarrow> s\<lparr>guids := (base_fn f, guid_counter s) # guids s, guid_counter := Suc (guid_counter s)\<rparr>)"

text \<open>\<open>leverageNative\<close> with \<open>expectSync\<close>: the controller, a new function, gets a handler for all namespaces.\<close>

definition leverageNative :: "nat \<Rightarrow> string \<Rightarrow> event_state \<Rightarrow> event_state" where
  "leverageNative el t s =
     (let h = \<lparr>h_type = t, origType = t, h_data = Missing, handler = Controller t, guid = guid_counter s, sel = None, namespace = None\<rparr>
      in put_handlers el t (insert_handler h (handlers_at s el t))
           (s\<lparr>claimed := (el, t) # claimed s, guid_counter := Suc (guid_counter s)\<rparr>))"

text \<open>The list of a type is made for its first handler, with the native listener.\<close>

definition init_type :: "page \<Rightarrow> nat \<Rightarrow> string \<Rightarrow> event_state \<Rightarrow> event_state" where
  "init_type pg el t s =
     (case Option.bind (elem_events s el) (\<lambda>ev. oget ev t) of
        Some hl \<Rightarrow> s
      | None \<Rightarrow>
          (let s = put_handlers el t \<lparr>hs = [], delegateCount = 0\<rparr> s;
               s = (if setup_claims pg el t then leverageNative el t s else s)
           in s\<lparr>listeners := (el, t) # listeners s\<rparr>))"

definition add_word :: "page \<Rightarrow> nat \<Rightarrow> fn \<Rightarrow> jarg \<Rightarrow> string option \<Rightarrow> string \<Rightarrow> event_state \<Rightarrow> event_state" where
  "add_word pg el f d selector w s =
     (let (orig, n) = type_namespace w in
      if orig = [] then s
      else
        let t = mapped_type selector orig;
            h = \<lparr>h_type = t, origType = orig, h_data = d, handler = f, guid = (case guid_of f s of Some g \<Rightarrow> g | None \<Rightarrow> 0), sel = selector,
                 namespace = Some (js_join ''.'' (namespaces_of n))\<rparr>;
            s = init_type pg el t s;
            s = put_handlers el t (insert_handler h (handlers_at s el t)) s
        in s\<lparr>global_types := List.insert t (global_types s)\<rparr>)"

text \<open>\<open>jQuery.event.add\<close>; \<open>None\<close> is the exception for an invalid selector.\<close>

definition event_add :: "page \<Rightarrow> nat \<Rightarrow> string \<Rightarrow> fn \<Rightarrow> jarg \<Rightarrow> string option \<Rightarrow> event_state \<Rightarrow> event_state option" where
  "event_add pg el types f d selector s =
     (if \<not> accepts pg el then Some s
      else if (case selector of Some x \<Rightarrow> \<not> valid_selector pg x | None \<Rightarrow> False) then None
      else
        let s = ensure_guid f s;
            s = (if elem_events s el = None then set_events el [] s else s)
        in Some (fold (add_word pg el f d selector) (rev (type_words types)) s))"

section \<open>Removing handlers\<close>

definition handler_text :: "handle_obj \<Rightarrow> string" where
  "handler_text h = (case namespace h of Some n \<Rightarrow> n | None \<Rightarrow> ''false'')"

definition removes :: "bool \<Rightarrow> string \<Rightarrow> nat option option \<Rightarrow> rx option \<Rightarrow> string option \<Rightarrow> handle_obj \<Rightarrow> bool" where
  "removes mappedTypes orig g tmp selector h \<longleftrightarrow>
     (mappedTypes \<or> orig = origType h) \<and> (case g of None \<Rightarrow> True | Some x \<Rightarrow> x = Some (guid h)) \<and>
     (case tmp of None \<Rightarrow> True | Some r \<Rightarrow> regex_test r (handler_text h)) \<and>
     (case selector of None \<Rightarrow> True | Some x \<Rightarrow> sel h = Some x \<or> x = ''**'' \<and> sel h \<noteq> None)"

definition remove_from :: "(handle_obj \<Rightarrow> bool) \<Rightarrow> handler_list \<Rightarrow> handler_list" where
  "remove_from p hl =
     hl\<lparr>hs := filter (\<lambda>h. \<not> p h) (hs hl),
        delegateCount := delegateCount hl - int (length (filter (\<lambda>h. p h \<and> sel h \<noteq> None) (hs hl)))\<rparr>"

text \<open>One word with a type; \<open>None\<close> is the exception for a namespace that is not a pattern.\<close>

definition remove_typed :: "nat \<Rightarrow> fn option \<Rightarrow> string option \<Rightarrow> bool \<Rightarrow> string \<Rightarrow> event_state \<Rightarrow> event_state option" where
  "remove_typed el f selector mappedTypes w s =
     (let (orig, n) = type_namespace w;
          t = mapped_type selector orig;
          hl = handlers_at s el t;
          g = map_option (\<lambda>x. guid_of x s) f
      in case (if n = [] then Some None else map_option Some (namespace_rx (namespaces_of n))) of
           None \<Rightarrow> None
         | Some tmp \<Rightarrow>
             (let hl' = remove_from (removes mappedTypes orig g tmp selector) hl in
              if hs hl = [] then Some s
              else if hs hl' = [] then
                Some (set_events el (odel (case elem_events s el of Some ev \<Rightarrow> ev | None \<Rightarrow> []) t)
                  (s\<lparr>listeners := filter (\<lambda>x. x \<noteq> (el, t)) (listeners s)\<rparr>))
              else Some (put_handlers el t hl' s)))"

text \<open>An element whose last type is gone loses its event data.\<close>

definition drop_empty :: "nat \<Rightarrow> event_state \<Rightarrow> event_state" where
  "drop_empty el s = (if elem_events s el = Some [] then clear_events el s else s)"

fun fold_opt :: "('a \<Rightarrow> 's \<Rightarrow> 's option) \<Rightarrow> 'a list \<Rightarrow> 's \<Rightarrow> 's option" where
  "fold_opt f [] s = Some s"
| "fold_opt f (x # xs) s = Option.bind (f x s) (fold_opt f xs)"

text \<open>A word without type stands for all types of the element.\<close>

definition remove_word :: "nat \<Rightarrow> fn option \<Rightarrow> string option \<Rightarrow> string \<Rightarrow> event_state \<Rightarrow> event_state option" where
  "remove_word el f selector w s =
     (if fst (type_namespace w) = [] then
        fold_opt (\<lambda>t s. map_option (drop_empty el) (remove_typed el f selector True (t @ w) s))
          (case elem_events s el of Some ev \<Rightarrow> okeys ev | None \<Rightarrow> []) s
      else remove_typed el f selector False w s)"

definition event_remove :: "nat \<Rightarrow> string \<Rightarrow> fn option \<Rightarrow> string option \<Rightarrow> event_state \<Rightarrow> event_state option" where
  "event_remove el types f selector s =
     (if elem_events s el = None then Some s
      else map_option (drop_empty el) (fold_opt (remove_word el f selector) (rev (type_words types)) s))"

section \<open>The methods on, one and off\<close>

definition nullish :: "jarg \<Rightarrow> bool" where
  "nullish a \<longleftrightarrow> a = Missing"

text \<open>The shifting of arguments: selector, data and function.\<close>

definition shift_args :: "jarg \<Rightarrow> jarg \<Rightarrow> jarg \<Rightarrow> jarg \<times> jarg \<times> jarg" where
  "shift_args selector dat f =
     (if nullish dat \<and> nullish f then (Missing, Missing, selector)
      else if nullish f then
        (case selector of AText x \<Rightarrow> (selector, Missing, dat) | _ \<Rightarrow> (Missing, selector, dat))
      else (selector, dat, f))"

definition selector_arg :: "jarg \<Rightarrow> string option" where
  "selector_arg a = (case a of AText x \<Rightarrow> if x = [] then None else Some x | _ \<Rightarrow> None)"

text \<open>The function, if there is one; \<open>None\<close> for a truthy value that is no function, which is outside the model.\<close>

definition fn_arg :: "jarg \<Rightarrow> fn option option" where
  "fn_arg a =
     (case a of
        AFn n \<Rightarrow> Some (Some (Client n))
      | AFalse \<Rightarrow> Some (Some ReturnFalse)
      | Missing \<Rightarrow> Some None
      | AText x \<Rightarrow> if x = [] then Some None else None
      | AData n \<Rightarrow> None)"

definition on :: "page \<Rightarrow> nat list \<Rightarrow> string \<Rightarrow> jarg \<Rightarrow> jarg \<Rightarrow> jarg \<Rightarrow> bool \<Rightarrow> event_state \<Rightarrow> event_state option" where
  "on pg els types selector dat f one s =
     (case shift_args selector dat f of
        (selector, dat, f) \<Rightarrow>
          (case fn_arg f of
             None \<Rightarrow> None
           | Some None \<Rightarrow> Some s
           | Some (Some g) \<Rightarrow>
               (let (g, s) = (if one then (OneShot g, ensure_guid g s) else (g, s))
                in fold_opt (\<lambda>el. event_add pg el types g dat (selector_arg selector)) els s)))"

definition off :: "nat list \<Rightarrow> string \<Rightarrow> jarg \<Rightarrow> jarg \<Rightarrow> event_state \<Rightarrow> event_state option" where
  "off els types selector f s =
     (let (selector, f) = (case selector of AFalse \<Rightarrow> (Missing, AFalse) | AFn n \<Rightarrow> (Missing, AFn n) | _ \<Rightarrow> (selector, f))
      in case fn_arg f of
           None \<Rightarrow> None
         | Some g \<Rightarrow> fold_opt (\<lambda>el. event_remove el types g (selector_arg selector)) els s)"

text \<open>What a page may ask for.\<close>

datatype operation = On "nat list" string jarg jarg jarg bool | Off "nat list" string jarg jarg

fun operate :: "page \<Rightarrow> operation \<Rightarrow> event_state \<Rightarrow> event_state option" where
  "operate pg (On els types selector dat f one) s = on pg els types selector dat f one s"
| "operate pg (Off els types selector f) s = off els types selector f s"

section \<open>Dispatching\<close>

record event =
  e_type :: string
  target :: nat
  related :: "nat option"
  button :: int
  rnamespace :: "rx option"
  stopped_propagation :: bool
  stopped_immediate :: bool
  default_prevented :: bool
  e_result :: "nat option"

text \<open>
  What a function gives back: undefined, \<open>false\<close>, or another value; it may also stop the event, and add and remove
  handlers.
\<close>

datatype answer = Undef | AnswerFalse | Answer nat

record reaction =
  answer :: answer
  stops :: bool
  stops_now :: bool
  does :: "operation list"

text \<open>The delegated handlers for a node; a selector is looked up once per node.\<close>

fun match_delegates :: "(string \<Rightarrow> bool) \<Rightarrow> (string \<times> bool) list \<Rightarrow> handle_obj list \<Rightarrow> handle_obj list" where
  "match_delegates m cache [] = []"
| "match_delegates m cache (h # rest) =
     (let x = (case sel h of Some x \<Rightarrow> x | None \<Rightarrow> ''undefined'') @ '' '';
          cache = (if map_of cache x = None then (x, m x) # cache else cache)
      in if map_of cache x = Some True then h # match_delegates m cache rest else match_delegates m cache rest)"

definition event_handlers :: "page \<Rightarrow> nat \<Rightarrow> event \<Rightarrow> handler_list \<Rightarrow> (nat \<times> handle_obj list) list" where
  "event_handlers pg this e hl =
     (let dc = delegateCount hl;
          ups = (if dc \<noteq> 0 \<and> is_node pg (target e) \<and> \<not> (e_type e = ''click'' \<and> 1 \<le> button e)
                 then takeWhile (\<lambda>n. n \<noteq> this) (node_path pg (target e)) else []);
          per = (\<lambda>cur. if is_elem pg cur \<and> \<not> (e_type e = ''click'' \<and> disabled_elem pg cur)
                  then match_delegates (\<lambda>x. selects pg this x cur) [] (take (nat dc) (hs hl)) else []);
          delegated = filter (\<lambda>q. snd q \<noteq> []) (map (\<lambda>cur. (cur, per cur)) ups)
      in delegated @ (if dc < int (length (hs hl)) then [(this, drop (nat dc) (hs hl))] else []))"

text \<open>What a call of a handler does to the event.\<close>

definition after_handler :: "reaction \<Rightarrow> event \<Rightarrow> event" where
  "after_handler r e =
     (let e = (if stops_now r then e\<lparr>stopped_immediate := True, stopped_propagation := True\<rparr> else e);
          e = (if stops r then e\<lparr>stopped_propagation := True\<rparr> else e)
      in case answer r of
           Undef \<Rightarrow> e
         | AnswerFalse \<Rightarrow> e\<lparr>e_result := Some 0, default_prevented := True, stopped_propagation := True\<rparr>
         | Answer n \<Rightarrow> e\<lparr>e_result := Some (Suc n)\<rparr>)"

text \<open>\<open>jQuery.contains(a, b)\<close> for different nodes, and the check of mouseenter and its like.\<close>

definition outside :: "page \<Rightarrow> nat \<Rightarrow> nat option \<Rightarrow> bool" where
  "outside pg el rel = (case rel of None \<Rightarrow> True | Some r \<Rightarrow> r \<noteq> el \<and> el \<notin> set (node_path pg r))"

definition off_event :: "nat \<Rightarrow> handle_obj \<Rightarrow> event_state \<Rightarrow> event_state option" where
  "off_event this h s =
     event_remove this (case namespace h of Some n \<Rightarrow> if n = [] then origType h else origType h @ ''.'' @ n | None \<Rightarrow> origType h)
       (Some (handler h)) (sel h) s"

text \<open>
  A client's functions and how they react. The wrapper of \<open>one\<close> takes itself off first.
\<close>

type_synonym clients = "fn \<Rightarrow> nat \<Rightarrow> event \<Rightarrow> event_state \<Rightarrow> reaction"

fun apply_fn :: "page \<Rightarrow> clients \<Rightarrow> nat \<Rightarrow> handle_obj \<Rightarrow> fn \<Rightarrow> nat \<Rightarrow> event \<Rightarrow> event_state \<Rightarrow> (event_state \<times> reaction) option" where
  "apply_fn pg cl this h ReturnTrue el e s = Some (s, \<lparr>answer = Answer 1, stops = False, stops_now = False, does = []\<rparr>)"
| "apply_fn pg cl this h ReturnFalse el e s = Some (s, \<lparr>answer = AnswerFalse, stops = False, stops_now = False, does = []\<rparr>)"
| "apply_fn pg cl this h (OneShot f) el e s = Option.bind (off_event this h s) (apply_fn pg cl this h f el e)"
| "apply_fn pg cl this h f el e s = map_option (\<lambda>t. (t, cl f el e s)) (fold_opt (operate pg) (does (cl f el e s)) s)"

type_synonym called = "(nat \<times> handle_obj) list"

fun call_handlers :: "page \<Rightarrow> clients \<Rightarrow> nat \<Rightarrow> nat \<Rightarrow> handle_obj list \<Rightarrow> called \<times> event \<times> event_state \<Rightarrow> (called \<times> event \<times> event_state) option" where
  "call_handlers pg cl this el [] x = Some x"
| "call_handlers pg cl this el (h # rest) (log, e, s) =
     (if stopped_immediate e then Some (log, e, s)
      else if (case rnamespace e of None \<Rightarrow> True | Some r \<Rightarrow> namespace h = None \<or> regex_test r (handler_text h)) then
        if enter_leave (origType h) \<and> \<not> outside pg el (related e) then call_handlers pg cl this el rest (log, e, s)
        else
          Option.bind (apply_fn pg cl this h (handler h) el (if enter_leave (origType h) then e\<lparr>e_type := origType h\<rparr> else e) s)
            (\<lambda>(s, r). call_handlers pg cl this el rest (log @ [(el, h)], after_handler r e, s))
      else call_handlers pg cl this el rest (log, e, s))"

fun run_queue :: "page \<Rightarrow> clients \<Rightarrow> nat \<Rightarrow> (nat \<times> handle_obj list) list \<Rightarrow> called \<times> event \<times> event_state \<Rightarrow> (called \<times> event \<times> event_state) option" where
  "run_queue pg cl this [] x = Some x"
| "run_queue pg cl this ((el, hl) # q) (log, e, s) =
     (if stopped_propagation e then Some (log, e, s)
      else Option.bind (call_handlers pg cl this el hl (log, e, s)) (run_queue pg cl this q))"

definition dispatch_event :: "page \<Rightarrow> clients \<Rightarrow> nat \<Rightarrow> event \<Rightarrow> event_state \<Rightarrow> (called \<times> event \<times> event_state) option" where
  "dispatch_event pg cl this e s =
     run_queue pg cl this (event_handlers pg this e (handlers_at s this (e_type e))) ([], e, s)"

end
