(* ===== verification/Jq_Events_Proofs.thy ===== *)
theory Jq_Events_Proofs
  imports Jq_Events "HOL-Library.Sublist"
begin

text \<open>
  What the lists of handlers keep over every operation and dispatch, and the order in which a dispatch calls them.
\<close>

section \<open>Lists of handlers\<close>

text \<open>Delegated handlers come first, and \<open>delegateCount\<close> counts them.\<close>

definition delegated :: "handle_obj \<Rightarrow> bool" where
  "delegated h \<longleftrightarrow> sel h \<noteq> None"

definition list_ok :: "handler_list \<Rightarrow> bool" where
  "list_ok hl \<longleftrightarrow> hs hl = filter delegated (hs hl) @ filter (\<lambda>h. \<not> delegated h) (hs hl) \<and>
     delegateCount hl = int (length (filter delegated (hs hl)))"

lemma list_okI:
  assumes "hs hl = ds @ bs" "list_all delegated ds" "list_all (\<lambda>h. \<not> delegated h) bs" "delegateCount hl = int (length ds)"
  shows "list_ok hl"
proof -
  have "filter delegated (ds @ bs) = ds" "filter (\<lambda>h. \<not> delegated h) (ds @ bs) = bs"
    using assms(2,3) by (auto simp: list_all_iff filter_id_conv filter_empty_conv)
  then show ?thesis using assms by (simp add: list_ok_def)
qed

lemma list_okE:
  assumes "list_ok hl"
  obtains ds bs where "hs hl = ds @ bs" "list_all delegated ds" "list_all (\<lambda>h. \<not> delegated h) bs" "delegateCount hl = int (length ds)"
  using assms that [of "filter delegated (hs hl)" "filter (\<lambda>h. \<not> delegated h) (hs hl)"]
  by (simp add: list_ok_def list_all_iff)

lemma insert_ok:
  assumes "list_ok hl"
  shows "list_ok (insert_handler h hl)" "hs (insert_handler h hl) \<noteq> []"
proof -
  obtain ds bs where d: "hs hl = ds @ bs" "list_all delegated ds" "list_all (\<lambda>h. \<not> delegated h) bs" "delegateCount hl = int (length ds)"
    using assms by (rule list_okE)
  show "list_ok (insert_handler h hl)"
  proof (cases "sel h")
    case None
    then show ?thesis using d by (intro list_okI [of _ ds "bs @ [h]"]) (auto simp: insert_handler_def delegated_def)
  next
    case (Some x)
    then show ?thesis using d by (intro list_okI [of _ "ds @ [h]" bs]) (auto simp: insert_handler_def delegated_def)
  qed
  show "hs (insert_handler h hl) \<noteq> []" by (auto simp: insert_handler_def)
qed

lemma remove_ok:
  assumes "list_ok hl"
  shows "list_ok (remove_from p hl)"
proof -
  obtain ds bs where d: "hs hl = ds @ bs" "list_all delegated ds" "list_all (\<lambda>h. \<not> delegated h) bs" "delegateCount hl = int (length ds)"
    using assms by (rule list_okE)
  have "filter (\<lambda>h. p h \<and> sel h \<noteq> None) ds = filter p ds" "filter (\<lambda>h. p h \<and> sel h \<noteq> None) bs = []"
    using d(2,3) by (auto simp: list_all_iff delegated_def filter_empty_conv intro!: filter_cong)
  moreover have "length ds = length (filter p ds) + length (filter (\<lambda>h. \<not> p h) ds)"
    using sum_length_filter_compl [of p ds] by simp
  ultimately show ?thesis
    using d by (intro list_okI [of _ "filter (\<lambda>h. \<not> p h) ds" "filter (\<lambda>h. \<not> p h) bs"])
      (auto simp: remove_from_def list_all_iff)
qed

lemma empty_ok [simp]: "list_ok \<lparr>hs = [], delegateCount = 0\<rparr>"
  by (simp add: list_ok_def)

section \<open>All elements\<close>

text \<open>
  Every list is of that form and has handlers, its type is in the data once, and the native listeners are those of the types.
\<close>

definition type_list :: "event_state \<Rightarrow> nat \<Rightarrow> string \<Rightarrow> handler_list option" where
  "type_list s el t = Option.bind (elem_events s el) (\<lambda>ev. oget ev t)"

definition events_ok :: "event_state \<Rightarrow> bool" where
  "events_ok s \<longleftrightarrow> (\<forall>el ev. elem_events s el = Some ev \<longrightarrow> obj_ok ev) \<and>
     (\<forall>el t hl. type_list s el t = Some hl \<longrightarrow> list_ok hl \<and> hs hl \<noteq> []) \<and> distinct (listeners s) \<and>
     (\<forall>el t. (el, t) \<in> set (listeners s) \<longleftrightarrow> type_list s el t \<noteq> None)"

lemma handlers_at_eq: "handlers_at s el t = (case type_list s el t of Some hl \<Rightarrow> hl | None \<Rightarrow> \<lparr>hs = [], delegateCount = 0\<rparr>)"
  by (auto simp: handlers_at_def type_list_def split: option.splits)

lemma handlers_at_ok: "events_ok s \<Longrightarrow> list_ok (handlers_at s el t)"
  by (auto simp: handlers_at_eq events_ok_def split: option.splits)

lemma elem_events_simps [simp]:
  "elem_events (set_events el ev s) e = (if e = el then Some ev else elem_events s e)"
  "elem_events (clear_events el s) e = (if e = el then None else elem_events s e)"
  "elem_events (s\<lparr>listeners := ls\<rparr>) = elem_events s" "elem_events (s\<lparr>claimed := cs\<rparr>) = elem_events s"
  "elem_events (s\<lparr>guid_counter := n\<rparr>) = elem_events s" "elem_events (s\<lparr>global_types := gs\<rparr>) = elem_events s"
  "listeners (set_events el ev s) = listeners s" "listeners (clear_events el s) = listeners s"
  "guid_counter (set_events el ev s) = guid_counter s"
  by (auto simp: elem_events_def set_events_def clear_events_def fun_eq_iff)

lemma type_list_cong: "elem_events s = elem_events s' \<Longrightarrow> type_list s = type_list s'"
  by (auto simp: type_list_def fun_eq_iff)

lemma events_ok_cong:
  assumes "elem_events s' = elem_events s" "listeners s' = listeners s"
  shows "events_ok s' = events_ok s"
  using assms type_list_cong [of s' s] by (simp add: events_ok_def)

lemma put_simps [simp]:
  "type_list (put_handlers el t hl s) e u = (if e = el \<and> u = t then Some hl else type_list s e u)"
  "listeners (put_handlers el t hl s) = listeners s"
  by (auto simp: put_handlers_def type_list_def split: option.splits)

lemma put_obj:
  assumes "\<And>ev. elem_events s el = Some ev \<Longrightarrow> obj_ok ev" "elem_events (put_handlers el t hl s) e = Some ev" "\<And>ev. elem_events s e = Some ev \<Longrightarrow> obj_ok ev"
  shows "obj_ok ev"
  using assms obj_ok_oset [OF obj_ok_Nil, of t hl] by (auto simp: put_handlers_def split: if_splits option.splits)

text \<open>An update of the list of a type that is there, and of one that is new.\<close>

lemma put_ok:
  assumes "events_ok s" "list_ok hl" "hs hl \<noteq> []" "type_list s el t \<noteq> None"
  shows "events_ok (put_handlers el t hl s)"
  using assms put_obj [of s el t hl] by (auto simp: events_ok_def)

lemma put_new_ok:
  assumes "events_ok s" "list_ok hl" "hs hl \<noteq> []" "type_list s el t = None"
    and "elem_events s' = elem_events (put_handlers el t hl s)" "listeners s' = (el, t) # listeners s"
  shows "events_ok s'"
proof -
  have "type_list s' = type_list (put_handlers el t hl s)" using assms(5) by (rule type_list_cong)
  then show ?thesis using assms put_obj [of s el t hl] by (auto simp: events_ok_def)
qed

lemma oset_twice: "oset (oset ev t x) t y = oset ev t y"
  by (induction ev t x rule: oset.induct) auto

lemma put_put: "elem_events (put_handlers el t hl (put_handlers el t hl' s)) = elem_events (put_handlers el t hl s)"
  by (auto simp: put_handlers_def oset_twice fun_eq_iff split: option.splits)

lemma put_cong: "elem_events s = elem_events s' \<Longrightarrow> elem_events (put_handlers el t hl s) = elem_events (put_handlers el t hl s')"
  by (simp add: put_handlers_def fun_eq_iff)

section \<open>Adding\<close>

lemma add_word_ok:
  assumes s: "events_ok s"
  shows "events_ok (add_word pg el f d selector w s)"
proof -
  obtain orig n where w: "type_namespace w = (orig, n)" by fastforce
  show ?thesis
  proof (cases "orig = []")
    case True
    then show ?thesis using s w by (simp add: add_word_def)
  next
    case False
    let ?t = "mapped_type selector orig"
    let ?s = "init_type pg el ?t s"
    let ?h = "\<lparr>h_type = ?t, origType = orig, h_data = d, handler = f, guid = (case guid_of f s of Some g \<Rightarrow> g | None \<Rightarrow> 0), sel = selector,
      namespace = Some (js_join ''.'' (namespaces_of n))\<rparr>"
    have a: "events_ok (add_word pg el f d selector w s) =
        events_ok (put_handlers el ?t (insert_handler ?h (handlers_at ?s el ?t)) ?s)"
      by (rule events_ok_cong) (use w False in \<open>simp_all add: add_word_def Let_def\<close>)
    show ?thesis
    proof (cases "type_list s el ?t")
      case (Some hl)
      then have "?s = s" by (auto simp: init_type_def type_list_def)
      then show ?thesis using a Some s by (simp add: put_ok insert_ok handlers_at_ok)
    next
      case None
      let ?e = "\<lparr>hs = [], delegateCount = 0\<rparr> :: handler_list"
      let ?c = "\<lparr>h_type = ?t, origType = ?t, h_data = Missing, handler = Controller ?t, guid = guid_counter s, sel = None, namespace = None\<rparr>"
      let ?l = "if setup_claims pg el ?t then insert_handler ?c ?e else ?e"
      have l: "elem_events ?s = elem_events (put_handlers el ?t ?l s)" "listeners ?s = (el, ?t) # listeners s"
        using None by (auto simp: init_type_def type_list_def leverageNative_def Let_def oset_twice handlers_at_eq put_handlers_def
            fun_eq_iff split: option.splits)
      then have "handlers_at ?s el ?t = ?l" by (simp add: handlers_at_eq type_list_cong [OF l(1)])
      moreover have "list_ok ?l" by (simp add: insert_ok)
      moreover have "elem_events (put_handlers el ?t hl ?s) = elem_events (put_handlers el ?t hl s)" for hl
        using put_cong [OF l(1)] put_put by simp
      ultimately show ?thesis
        unfolding a by (intro put_new_ok [OF s _ _ None]) (auto simp: insert_ok l(2))
    qed
  qed
qed

lemma fold_opt_keeps:
  "(\<And>x s s'. x \<in> set xs \<Longrightarrow> P s \<Longrightarrow> f x s = Some s' \<Longrightarrow> P s') \<Longrightarrow> P s \<Longrightarrow> fold_opt f xs s = Some s' \<Longrightarrow> P s'"
  by (induction xs arbitrary: s) (auto simp: bind_eq_Some_conv)

lemma ensure_keeps [simp]: "elem_events (ensure_guid f s) = elem_events s" "listeners (ensure_guid f s) = listeners s"
  by (auto simp: ensure_guid_def elem_events_def fun_eq_iff split: option.splits)

lemma empty_data_ok:
  assumes "events_ok s" "elem_events s el = None"
  shows "events_ok (set_events el [] s)"
proof -
  have "type_list (set_events el [] s) = type_list s"
    using assms(2) by (auto simp: type_list_def fun_eq_iff)
  then show ?thesis using assms(1) by (auto simp: events_ok_def)
qed

lemma event_add_ok:
  assumes "events_ok s" "event_add pg el types f d selector s = Some s'"
  shows "events_ok s'"
proof (cases "accepts pg el")
  case True
  let ?s = "ensure_guid f s"
  let ?v = "if elem_events ?s el = None then set_events el [] ?s else ?s"
  have e: "events_ok ?s" using assms(1) events_ok_cong [of ?s s] by simp
  have "events_ok ?v"
    by (cases "elem_events ?s el = None") (simp_all only: if_True if_False simp_thms empty_data_ok [OF e] e)
  moreover have "s' = fold (add_word pg el f d selector) (rev (type_words types)) ?v"
    using assms(2) True by (auto simp: event_add_def Let_def split: if_splits)
  moreover have "events_ok (fold (add_word pg el f d selector) ws v)" if "events_ok v" for ws v
    using add_word_ok that by (rule fold_keeps)
  ultimately show ?thesis by (simp only:)
next
  case False
  then show ?thesis using assms by (simp add: event_add_def)
qed

section \<open>Removing\<close>

lemma remove_typed_ok:
  assumes s: "events_ok s" and r: "remove_typed el f selector m w s = Some s'"
  shows "events_ok s'"
proof -
  obtain orig n where w: "type_namespace w = (orig, n)" by fastforce
  let ?t = "mapped_type selector orig"
  let ?hl = "handlers_at s el ?t"
  obtain tmp where tmp: "(if n = [] then Some None else map_option Some (namespace_rx (namespaces_of n))) = Some tmp"
    using r w by (auto simp: remove_typed_def Let_def split: option.splits)
  define p where "p = removes m orig (map_option (\<lambda>x. guid_of x s) f) tmp selector"
  have r': "s' = (if hs ?hl = [] then s
      else if hs (remove_from p ?hl) = [] then set_events el (odel (case elem_events s el of Some ev \<Rightarrow> ev | None \<Rightarrow> []) ?t)
        (s\<lparr>listeners := filter (\<lambda>x. x \<noteq> (el, ?t)) (listeners s)\<rparr>)
      else put_handlers el ?t (remove_from p ?hl) s)"
    using r by (simp add: remove_typed_def Let_def w tmp p_def [symmetric] split: if_splits)
  have ok: "list_ok (remove_from p ?hl)" by (intro remove_ok handlers_at_ok s)
  consider "hs ?hl = []" | "hs ?hl \<noteq> []" "hs (remove_from p ?hl) = []" | "hs ?hl \<noteq> []" "hs (remove_from p ?hl) \<noteq> []" by blast
  then show ?thesis
  proof cases
    case 1
    then show ?thesis using r' s by simp
  next
    case 2
    let ?s = "set_events el (odel (case elem_events s el of Some ev \<Rightarrow> ev | None \<Rightarrow> []) ?t)
        (s\<lparr>listeners := filter (\<lambda>x. x \<noteq> (el, ?t)) (listeners s)\<rparr>)"
    have t: "type_list ?s e u = (if e = el \<and> u = ?t then None else type_list s e u)" for e u
      by (cases "elem_events s el") (auto simp: type_list_def)
    moreover have "obj_ok (odel (case elem_events s el of Some ev \<Rightarrow> ev | None \<Rightarrow> []) ?t)"
      using s by (auto simp: events_ok_def split: option.splits)
    ultimately show ?thesis using 2 r' s by (auto simp: events_ok_def split: if_splits)
  next
    case 3
    then have "type_list s el ?t \<noteq> None" by (auto simp: handlers_at_eq split: option.splits)
    then show ?thesis using 3 r' s ok by (simp add: put_ok)
  qed
qed

lemma drop_empty_ok: "events_ok s \<Longrightarrow> events_ok (drop_empty el s)"
proof -
  assume s: "events_ok s"
  have "type_list (drop_empty el s) = type_list s" by (auto simp: drop_empty_def type_list_def fun_eq_iff)
  then show ?thesis using s by (auto simp: drop_empty_def events_ok_def split: if_splits)
qed

lemma remove_word_ok: "events_ok s \<Longrightarrow> remove_word el f selector w s = Some s' \<Longrightarrow> events_ok s'"
  unfolding remove_word_def
  by (auto split: if_splits intro: remove_typed_ok drop_empty_ok elim!: fold_opt_keeps [rotated 2])

lemma event_remove_ok: "events_ok s \<Longrightarrow> event_remove el types f selector s = Some s' \<Longrightarrow> events_ok s'"
  by (auto simp: event_remove_def split: if_splits intro: drop_empty_ok dest: fold_opt_keeps [of _ events_ok, rotated 2] remove_word_ok)

section \<open>Operations and dispatches\<close>

lemma add_all_ok: "events_ok s \<Longrightarrow> fold_opt (\<lambda>el. event_add pg el types g d x) els s = Some s' \<Longrightarrow> events_ok s'"
  by (rule fold_opt_keeps [of els events_ok]) (rule event_add_ok)

lemma on_ok:
  assumes "events_ok s" "on pg els types selector dat f one s = Some s'"
  shows "events_ok s'"
proof -
  obtain x d g where a: "shift_args selector dat f = (x, d, g)" by (cases "shift_args selector dat f") auto
  obtain h where h: "fn_arg g = Some h" using assms(2) a by (cases "fn_arg g") (auto simp: on_def)
  have e: "events_ok (ensure_guid k s)" for k using assms(1) events_ok_cong [of "ensure_guid k s" s] by simp
  show ?thesis
  proof (cases h)
    case None
    then show ?thesis using assms a h by (simp add: on_def)
  next
    case (Some k)
    then show ?thesis
      using assms a h add_all_ok [OF e] add_all_ok [OF assms(1)] by (cases one) (auto simp: on_def)
  qed
qed

lemma remove_all_ok: "events_ok s \<Longrightarrow> fold_opt (\<lambda>el. event_remove el types g x) els s = Some s' \<Longrightarrow> events_ok s'"
  by (rule fold_opt_keeps [of els events_ok]) (rule event_remove_ok)

lemma off_ok:
  assumes "events_ok s" "off els types selector f s = Some s'"
  shows "events_ok s'"
proof -
  obtain x g where a: "(case selector of AFalse \<Rightarrow> (Missing, AFalse) | AFn n \<Rightarrow> (Missing, AFn n) | _ \<Rightarrow> (selector, f)) = (x, g)" by fastforce
  then obtain h where "fn_arg g = Some h" using assms(2) by (cases "fn_arg g") (auto simp: off_def)
  then show ?thesis using assms(2) a remove_all_ok [OF assms(1)] by (auto simp: off_def)
qed

lemma operate_ok: "events_ok s \<Longrightarrow> operate pg op s = Some s' \<Longrightarrow> events_ok s'"
  by (cases op) (auto intro: on_ok off_ok)

lemma operations_ok: "events_ok s \<Longrightarrow> fold_opt (operate pg) ops s = Some s' \<Longrightarrow> events_ok s'"
  by (rule fold_opt_keeps [of ops events_ok]) (auto intro: operate_ok)

lemma apply_ok: "events_ok s \<Longrightarrow> apply_fn pg cl this h f el e s = Some (s', r) \<Longrightarrow> events_ok s'"
  by (induction pg cl this h f el e s rule: apply_fn.induct)
    (auto simp: bind_eq_Some_conv off_event_def intro: operations_ok event_remove_ok)

lemma call_ok:
  "events_ok s \<Longrightarrow> call_handlers pg cl this el hl (log, e, s) = Some (log', e', s') \<Longrightarrow> events_ok s'"
  by (induction hl arbitrary: log e s) (auto simp: bind_eq_Some_conv split: if_splits option.splits dest: apply_ok)

lemma queue_ok: "events_ok s \<Longrightarrow> run_queue pg cl this q (log, e, s) = Some (log', e', s') \<Longrightarrow> events_ok s'"
proof (induction q arbitrary: log e s)
  case (Cons x q)
  obtain el hl where x: "x = (el, hl)" by fastforce
  show ?case
  proof (cases "stopped_propagation e")
    case False
    then obtain l1 e1 s1 where "call_handlers pg cl this el hl (log, e, s) = Some (l1, e1, s1)"
        "run_queue pg cl this q (l1, e1, s1) = Some (log', e', s')"
      using Cons.prems(2) x by (auto simp: bind_eq_Some_conv)
    then show ?thesis using Cons.IH call_ok Cons.prems(1) by blast
  qed (use Cons.prems x in simp)
qed simp

lemma dispatch_ok: "events_ok s \<Longrightarrow> dispatch_event pg cl this e s = Some (log, e', s') \<Longrightarrow> events_ok s'"
  unfolding dispatch_event_def by (rule queue_ok)

text \<open>The states a page can reach.\<close>

inductive reachable_events :: "page \<Rightarrow> event_state \<Rightarrow> bool" for pg where
  start: "reachable_events pg no_events"
| operation: "reachable_events pg s \<Longrightarrow> operate pg op s = Some s' \<Longrightarrow> reachable_events pg s'"
| dispatched: "reachable_events pg s \<Longrightarrow> dispatch_event pg cl this e s = Some (log, e', s') \<Longrightarrow> reachable_events pg s'"

lemma no_events_ok: "events_ok no_events"
  by (simp add: events_ok_def no_events_def type_list_def elem_events_def)

lemma reachable_events_ok: "reachable_events pg s \<Longrightarrow> events_ok s"
  by (induction rule: reachable_events.induct) (auto intro: no_events_ok operate_ok dispatch_ok)

section \<open>The order of a dispatch\<close>

lemma match_delegates_eq:
  assumes "\<And>x b. map_of cache x = Some b \<Longrightarrow> b = m x"
  shows "match_delegates m cache hl = filter (\<lambda>h. m ((case sel h of Some x \<Rightarrow> x | None \<Rightarrow> ''undefined'') @ '' '')) hl"
  using assms
proof (induction hl arbitrary: cache)
  case (Cons h hl)
  let ?x = "(case sel h of Some x \<Rightarrow> x | None \<Rightarrow> ''undefined'') @ '' ''"
  let ?cache = "if map_of cache ?x = None then (?x, m ?x) # cache else cache"
  have c: "\<And>x b. map_of ?cache x = Some b \<Longrightarrow> b = m x" using Cons.prems by (auto split: if_splits)
  have "map_of ?cache ?x = Some (m ?x)" using Cons.prems by (cases "map_of cache ?x") auto
  then show ?case using Cons.IH [OF c] by (auto simp: Let_def)
qed simp

lemma match_delegates_Nil:
  "match_delegates m [] hl = filter (\<lambda>h. m ((case sel h of Some x \<Rightarrow> x | None \<Rightarrow> ''undefined'') @ '' '')) hl"
  by (rule match_delegates_eq) simp

text \<open>The calls in the order of the page: from the target upwards the matching delegated handlers, then the direct ones.\<close>

definition delegates_for :: "page \<Rightarrow> nat \<Rightarrow> event \<Rightarrow> handler_list \<Rightarrow> nat \<Rightarrow> handle_obj list" where
  "delegates_for pg this e hl cur =
     (if is_elem pg cur \<and> \<not> (e_type e = ''click'' \<and> disabled_elem pg cur)
      then filter (\<lambda>h. case sel h of Some x \<Rightarrow> selects pg this (x @ '' '') cur | None \<Rightarrow> False) (hs hl) else [])"

definition dispatch_order :: "page \<Rightarrow> nat \<Rightarrow> event \<Rightarrow> handler_list \<Rightarrow> called" where
  "dispatch_order pg this e hl =
     (if is_node pg (target e) \<and> \<not> (e_type e = ''click'' \<and> 1 \<le> button e)
      then concat (map (\<lambda>cur. map (Pair cur) (delegates_for pg this e hl cur)) (takeWhile (\<lambda>n. n \<noteq> this) (node_path pg (target e))))
      else []) @ map (Pair this) (filter (\<lambda>h. sel h = None) (hs hl))"

lemma concat_filter_nonempty: "concat (map (\<lambda>(el, l). map (Pair el) l) (filter (\<lambda>q. snd q \<noteq> []) qs)) = concat (map (\<lambda>(el, l). map (Pair el) l) qs)"
  by (induction qs) auto

lemma handlers_order:
  assumes "list_ok hl"
  shows "concat (map (\<lambda>(el, l). map (Pair el) l) (event_handlers pg this e hl)) = dispatch_order pg this e hl"
proof -
  obtain ds bs where d: "hs hl = ds @ bs" "list_all delegated ds" "list_all (\<lambda>h. \<not> delegated h) bs" "delegateCount hl = int (length ds)"
    using assms by (rule list_okE)
  have b: "filter (\<lambda>h. case sel h of Some x \<Rightarrow> P x | None \<Rightarrow> False) bs = []" for P
    using d(3) by (auto simp: list_all_iff delegated_def filter_empty_conv)
  have ds: "filter (\<lambda>h. m ((case sel h of Some x \<Rightarrow> x | None \<Rightarrow> ''undefined'') @ '' '')) ds =
      filter (\<lambda>h. case sel h of Some x \<Rightarrow> m (x @ '' '') | None \<Rightarrow> False) ds" for m
    using d(2) by (auto simp: list_all_iff delegated_def intro!: filter_cong split: option.splits)
  have per: "(if is_elem pg cur \<and> \<not> (e_type e = ''click'' \<and> disabled_elem pg cur)
      then match_delegates (\<lambda>x. selects pg this x cur) [] (take (nat (delegateCount hl)) (hs hl)) else []) = delegates_for pg this e hl cur" for cur
    using d(1,4) ds [of "\<lambda>x. selects pg this x cur"] b by (auto simp: delegates_for_def match_delegates_Nil)
  have none: "delegates_for pg this e hl cur = []" if "delegateCount hl = 0" for cur
    using that d(1,4) b by (simp add: delegates_for_def)
  have direct: "filter (\<lambda>h. sel h = None) (hs hl) = bs"
    using d(1-3) by (auto simp: list_all_iff delegated_def filter_id_conv filter_empty_conv)
  let ?ups = "takeWhile (\<lambda>n. n \<noteq> this) (node_path pg (target e))"
  have "concat (map (\<lambda>(el, l). map (Pair el) l) (map (\<lambda>cur. (cur, delegates_for pg this e hl cur)) ns)) =
      concat (map (\<lambda>cur. map (Pair cur) (delegates_for pg this e hl cur)) ns)" for ns
    by (induction ns) auto
  then show ?thesis
    unfolding event_handlers_def Let_def per dispatch_order_def direct
    using d(1,4) none by (auto simp: concat_filter_nonempty)
qed

text \<open>The log of a dispatch is a part of this, in the same order, whatever the handlers do.\<close>

lemma call_log:
  assumes "call_handlers pg cl this el hl (log, e, s) = Some (log', e', s')"
  shows "\<exists>l. log' = log @ map (Pair el) l \<and> subseq l hl"
  using assms
proof (induction hl arbitrary: log e s)
  case (Cons h hl)
  have skip: "\<exists>l. log' = log @ map (Pair el) l \<and> subseq l (h # hl)"
    if "call_handlers pg cl this el hl (log, e, s) = Some (log', e', s')"
    using Cons.IH [OF that] by auto
  have call: "\<exists>l. log' = log @ map (Pair el) l \<and> subseq l (h # hl)"
    if c: "call_handlers pg cl this el hl (log @ [(el, h)], e1, s1) = Some (log', e', s')" for e1 s1
  proof -
    obtain l where "log' = (log @ [(el, h)]) @ map (Pair el) l" "subseq l hl" using Cons.IH [OF c] by blast
    then show ?thesis by (intro exI [of _ "h # l"]) auto
  qed
  show ?case using Cons.prems skip call by (auto simp: bind_eq_Some_conv split: if_splits)
qed simp

lemma queue_log:
  assumes "run_queue pg cl this q (log, e, s) = Some (log', e', s')"
  shows "\<exists>l. log' = log @ l \<and> subseq l (concat (map (\<lambda>(el, l). map (Pair el) l) q))"
  using assms
proof (induction q arbitrary: log e s)
  case (Cons x q)
  obtain el hl where x: "x = (el, hl)" by fastforce
  show ?case
  proof (cases "stopped_propagation e")
    case True
    then show ?thesis using Cons.prems x by auto
  next
    case False
    then obtain l1 e1 s1 where c: "call_handlers pg cl this el hl (log, e, s) = Some (l1, e1, s1)"
        "run_queue pg cl this q (l1, e1, s1) = Some (log', e', s')"
      using Cons.prems x by (auto simp: bind_eq_Some_conv)
    obtain l where l: "l1 = log @ map (Pair el) l" "subseq l hl" using call_log [OF c(1)] by blast
    obtain m where m: "log' = l1 @ m" "subseq m (concat (map (\<lambda>(el, l). map (Pair el) l) q))" using Cons.IH [OF c(2)] by blast
    have "subseq (map (Pair el) l @ m) (map (Pair el) hl @ concat (map (\<lambda>(el, l). map (Pair el) l) q))"
      using l(2) m(2) by (intro list_emb_append_mono subseq_map)
    then show ?thesis using l m x by auto
  qed
qed simp

text \<open>An event that nobody stops reaches every handler.\<close>

lemma after_handler_stop: "stopped_propagation e \<Longrightarrow> stopped_propagation (after_handler r e)"
  by (auto simp: after_handler_def Let_def split: answer.splits)

lemma call_stop: "call_handlers pg cl this el hl (log, e, s) = Some (log', e', s') \<Longrightarrow> stopped_propagation e \<Longrightarrow> stopped_propagation e'"
  by (induction hl arbitrary: log e s) (auto simp: bind_eq_Some_conv after_handler_stop split: if_splits)

definition plain_event :: "event \<Rightarrow> bool" where
  "plain_event e \<longleftrightarrow> rnamespace e = None \<and> (stopped_immediate e \<longrightarrow> stopped_propagation e)"

lemma after_handler_plain: "plain_event e \<Longrightarrow> plain_event (after_handler r e)"
  by (auto simp: plain_event_def after_handler_def Let_def split: answer.splits)

lemma call_all:
  assumes "call_handlers pg cl this el hl (log, e, s) = Some (log', e', s')" "plain_event e" "\<not> stopped_propagation e'"
    and "list_all (\<lambda>h. \<not> enter_leave (origType h)) hl"
  shows "log' = log @ map (Pair el) hl \<and> plain_event e'"
  using assms
proof (induction hl arbitrary: log e s)
  case (Cons h hl)
  have "\<not> stopped_propagation e" using call_stop [OF Cons.prems(1)] Cons.prems(3) by blast
  then have "\<not> stopped_immediate e" using Cons.prems(2) by (auto simp: plain_event_def)
  then obtain s1 r where "call_handlers pg cl this el hl (log @ [(el, h)], after_handler r e, s1) = Some (log', e', s')"
    using Cons.prems by (auto simp: bind_eq_Some_conv plain_event_def)
  then show ?case using Cons.IH Cons.prems(2-) after_handler_plain by fastforce
qed simp

lemma queue_all:
  assumes "run_queue pg cl this q (log, e, s) = Some (log', e', s')" "plain_event e" "\<not> stopped_propagation e'"
    and "list_all (\<lambda>(el, hl). list_all (\<lambda>h. \<not> enter_leave (origType h)) hl) q"
  shows "log' = log @ concat (map (\<lambda>(el, l). map (Pair el) l) q)"
  using assms
proof (induction q arbitrary: log e s)
  case (Cons x q)
  obtain el hl where x: "x = (el, hl)" by fastforce
  show ?case
  proof (cases "stopped_propagation e")
    case True
    then show ?thesis using Cons.prems x by auto
  next
    case False
    then obtain l1 e1 s1 where c: "call_handlers pg cl this el hl (log, e, s) = Some (l1, e1, s1)"
        "run_queue pg cl this q (l1, e1, s1) = Some (log', e', s')"
      using Cons.prems x by (auto simp: bind_eq_Some_conv)
    have "\<not> stopped_propagation e1"
    proof
      assume "stopped_propagation e1"
      then have "e' = e1" using c(2) by (cases q) auto
      then show False using \<open>stopped_propagation e1\<close> Cons.prems(3) by simp
    qed
    then show ?thesis using call_all [OF c(1)] Cons.IH [OF c(2)] Cons.prems x by auto
  qed
qed simp

end
