(* ===== verification/Jq_Namespaces.thy ===== *)
theory Jq_Namespaces
  imports Jq_Events "HOL-Library.Sublist"
begin

text \<open>
  The pattern \<open>jQuery.event.remove\<close> builds from namespaces, from its text to what it accepts: it finds the
  namespaces, in order and possibly with others in between, among the sorted namespaces of a handler.
\<close>

section \<open>Parsing the text\<close>

definition ns_word :: "string \<Rightarrow> bool" where
  "ns_word w \<longleftrightarrow> w \<noteq> [] \<and> list_all is_word w"

abbreviation Dot :: rx where "Dot \<equiv> ch CHR ''.''"

definition gap :: rx where
  "gap = Alt (Seq (Star (Cls any_char)) Dot) Eps"

definition finish :: rx where
  "finish = Alt Dot Eol"

fun word_rx :: "string \<Rightarrow> rx \<Rightarrow> rx" where
  "word_rx [] r = r"
| "word_rx (c # w) r = Seq (ch c) (word_rx w r)"

fun chain :: "string \<Rightarrow> string list \<Rightarrow> rx" where
  "chain w [] = word_rx w finish"
| "chain w (v # vs) = word_rx w (Seq Dot (Seq gap (chain v vs)))"

definition sep :: string where
  "sep = unescape ''%.(?:.*%.|)''"

lemma fuel8: "8 \<le> length n \<Longrightarrow> \<exists>a b c d e f g h m. n = a # b # c # d # e # f # g # h # m"
  by (auto simp: Suc_le_length_iff numeral_eq_Suc)

lemma is_word_not_special:
  assumes "is_word c"
  shows "c \<notin> set ''^$([.*+?|){''" "c \<noteq> bsl"
  using assms by (auto simp: is_word_def is_alnum_def is_digit_def is_upper_def is_lower_def code_def)

lemma p_term_word:
  assumes "is_word c" "t \<noteq> []" "hd t \<notin> {CHR ''*'', CHR ''+'', CHR ''?'', CHR ''{''}"
  shows "p_term (x # n) (c # t) = Some (ch c, t)"
  using is_word_not_special [OF assms(1)] assms(2,3) by (cases t) (auto simp: quantify_def)

lemma p_seq_word:
  assumes "list_all is_word w" "t \<noteq> []" "hd t \<in> {bsl, CHR ''(''}" "length w < length n"
  shows "p_seq n (w @ t) = map_option (\<lambda>(q, u). (word_rx w q, u)) (p_seq (drop (length w) n) t)"
  using assms
proof (induction w arbitrary: n)
  case Nil
  then show ?case by (simp add: option.map_ident split_beta)
next
  case (Cons c w)
  obtain x y m where n: "n = x # y # m" using Cons.prems(4) by (cases n; cases "tl n") auto
  have h: "hd (w @ t) \<noteq> CHR ''|''" "hd (w @ t) \<noteq> CHR '')''" "hd (w @ t) \<notin> {CHR ''*'', CHR ''+'', CHR ''?'', CHR ''{''}"
    using Cons.prems(1,3) is_word_not_special by (cases w; force)+
  have c: "c \<noteq> CHR ''|''" "c \<noteq> CHR '')''" using Cons.prems(1) is_word_not_special [of c] by auto
  have "p_term (y # m) (c # w @ t) = Some (ch c, w @ t)"
    using Cons.prems(1,2) h(3) by (intro p_term_word) auto
  then have "p_seq n ((c # w) @ t) = map_option (\<lambda>(q, u). (Seq (ch c) q, u)) (p_seq (y # m) (w @ t))"
    using c h(1,2) Cons.prems(2) unfolding n by simp
  also have "p_seq (y # m) (w @ t) = map_option (\<lambda>(q, u). (word_rx w q, u)) (p_seq (drop (length w) (y # m)) t)"
    using Cons.prems n by (intro Cons.IH) auto
  finally show ?case unfolding n by (simp add: option.map_comp comp_def split_beta)
qed

lemma p_seq_finish:
  assumes "8 \<le> length n"
  shows "p_seq n (unescape ''(%.|$)'') = Some (finish, [])"
proof -
  obtain a b c d e f g h m where "n = a # b # c # d # e # f # g # h # m" using fuel8 [OF assms] by blast
  then show ?thesis by (simp add: rx_eval finish_def)
qed

lemma quantify_none: "t \<noteq> [] \<Longrightarrow> hd t \<notin> set ''*+?{'' \<Longrightarrow> quantify r t = Some (r, t)"
  by (cases t) (auto simp: quantify_def)

lemma p_alt_gap:
  assumes "8 \<le> length n"
  shows "p_alt n (unescape ''.*%.|)'' @ t) = Some (gap, CHR '')'' # t)"
proof -
  obtain a b c d e f g h m where "n = a # b # c # d # e # f # g # h # m" using fuel8 [OF assms] by blast
  then show ?thesis by (simp add: rx_eval gap_def)
qed

lemma p_term_gap:
  assumes "9 \<le> length n" "t \<noteq> []" "hd t \<notin> set ''*+?{''"
  shows "p_term n (unescape ''(?:.*%.|)'' @ t) = Some (gap, t)"
proof -
  obtain x m where n: "n = x # m" "8 \<le> length m" using assms(1) by (cases n) auto
  have u: "unescape ''(?:.*%.|)'' @ t = CHR ''('' # CHR ''?'' # CHR '':'' # (unescape ''.*%.|)'' @ t)" by (simp add: unescape_def)
  show ?thesis
    unfolding n u p_term.simps using p_alt_gap [OF n(2), of t] quantify_none [OF assms(2,3), of gap] by simp
qed

lemma p_seq_sep:
  assumes "11 \<le> length n" "t \<noteq> []" "hd t \<notin> set ''|)*+?{''"
  shows "p_seq n (sep @ t) = map_option (\<lambda>(q, u). (Seq Dot (Seq gap q), u)) (p_seq (drop 2 n) t)"
proof -
  obtain x y m where n: "n = x # y # m" "9 \<le> length m" using assms(1) by (cases n; cases "tl n") auto
  define g where "g = tl (unescape ''(?:.*%.|)'' @ t)"
  have g: "unescape ''(?:.*%.|)'' @ t = CHR ''('' # g" by (simp add: g_def unescape_def)
  have s: "sep @ t = bsl # CHR ''.'' # CHR ''('' # g" unfolding g [symmetric] by (simp add: sep_def unescape_def)
  have "p_term m (CHR ''('' # g) = Some (gap, t)"
    unfolding g [symmetric] by (rule p_term_gap) (use n(2) assms in auto)
  then have "p_seq (y # m) (CHR ''('' # g) = map_option (\<lambda>(q, u). (Seq gap q, u)) (p_seq m t)"
    using assms(2,3) by simp
  moreover have "p_term (y # m) (bsl # CHR ''.'' # CHR ''('' # g) = Some (Dot, CHR ''('' # g)"
    by (simp add: quantify_def item_rx_def)
  moreover have "p_seq (x # y # m) (bsl # CHR ''.'' # CHR ''('' # g) =
      map_option (\<lambda>(q, u). (Seq Dot q, u)) (p_seq (y # m) (CHR ''('' # g))"
    using calculation(2) by (simp del: p_seq.simps(2) add: p_seq.simps(2) [of x "y # m"])
  ultimately show ?thesis
    unfolding n s by (cases "p_seq m t") (auto simp del: p_seq.simps p_term.simps)
qed

lemma tail_start: "hd (unescape ''(%.|$)'') = CHR ''(''" "unescape ''(%.|$)'' \<noteq> []" "hd (sep @ x) = bsl" "sep @ x \<noteq> []" "length sep = 11"
  by (simp_all add: unescape_def sep_def)

lemma p_seq_chain:
  assumes "list_all ns_word (w # ws)" "length (w @ concat (map (\<lambda>v. sep @ v) ws)) + 11 \<le> length n"
  shows "p_seq n ((w @ concat (map (\<lambda>v. sep @ v) ws)) @ unescape ''(%.|$)'') = Some (chain w ws, [])"
  using assms
proof (induction ws arbitrary: w n)
  case Nil
  have "p_seq n (w @ unescape ''(%.|$)'') =
      map_option (\<lambda>(q, u). (word_rx w q, u)) (p_seq (drop (length w) n) (unescape ''(%.|$)''))"
    by (rule p_seq_word) (use Nil in \<open>auto simp: ns_word_def tail_start\<close>)
  also have "p_seq (drop (length w) n) (unescape ''(%.|$)'') = Some (finish, [])"
    by (rule p_seq_finish) (use Nil in auto)
  finally show ?case by simp
next
  case (Cons v vs)
  let ?t = "(v @ concat (map (\<lambda>v. sep @ v) vs)) @ unescape ''(%.|$)''"
  have v: "v \<noteq> []" "is_word (hd v)" using Cons.prems(1) by (cases v; simp add: ns_word_def)+
  have "hd ?t = hd v" "?t \<noteq> []" using v by simp_all
  then have t: "hd ?t \<notin> set ''|)*+?{''" using is_word_not_special(1) [OF v(2)] by auto
  have "p_seq n (w @ (sep @ ?t)) =
      map_option (\<lambda>(q, u). (word_rx w q, u)) (p_seq (drop (length w) n) (sep @ ?t))"
    by (rule p_seq_word) (use Cons.prems in \<open>auto simp: ns_word_def tail_start\<close>)
  also have "p_seq (drop (length w) n) (sep @ ?t) =
      map_option (\<lambda>(q, u). (Seq Dot (Seq gap q), u)) (p_seq (drop 2 (drop (length w) n)) ?t)"
    by (rule p_seq_sep) (use Cons.prems(2) t \<open>?t \<noteq> []\<close> in auto)
  also have "p_seq (drop 2 (drop (length w) n)) ?t = Some (chain v vs, [])"
    by (rule Cons.IH) (use Cons.prems in \<open>auto simp: tail_start\<close>)
  finally show ?case by simp
qed

text \<open>The whole pattern.\<close>

definition start_rx :: rx where
  "start_rx = Alt Bol Dot"

lemma p_term_start:
  assumes "9 \<le> length n" "t \<noteq> []" "hd t \<notin> set ''*+?{''"
  shows "p_term n (unescape ''(^|%.)'' @ t) = Some (start_rx, t)"
proof -
  obtain x m where n: "n = x # m" "8 \<le> length m" using assms(1) by (cases n) auto
  obtain a b c d e f g h k where m: "m = a # b # c # d # e # f # g # h # k" using fuel8 [OF n(2)] by blast
  have "p_alt m (unescape ''^|%.)'' @ t) = Some (start_rx, CHR '')'' # t)"
    unfolding m by (simp add: rx_eval start_rx_def)
  moreover have "unescape ''(^|%.)'' @ t = CHR ''('' # (unescape ''^|%.)'' @ t)" "unescape ''^|%.)'' @ t = CHR ''^'' # tl (unescape ''^|%.)'' @ t)"
    by (simp_all add: unescape_def)
  ultimately show ?thesis
    unfolding n p_term.simps using quantify_none [OF assms(2,3), of start_rx] by (simp add: unescape_def)
qed

lemma p_seq_start:
  assumes "10 \<le> length n" "t \<noteq> []" "hd t \<notin> set ''|)*+?{''"
  shows "p_seq n (unescape ''(^|%.)'' @ t) = map_option (\<lambda>(q, u). (Seq start_rx q, u)) (p_seq (drop 1 n) t)"
proof -
  obtain x m where n: "n = x # m" "9 \<le> length m" using assms(1) by (cases n) auto
  define g where "g = tl (unescape ''(^|%.)'' @ t)"
  have g: "unescape ''(^|%.)'' @ t = CHR ''('' # g" by (simp add: g_def unescape_def)
  have "p_term m (CHR ''('' # g) = Some (start_rx, t)"
    unfolding g [symmetric] by (rule p_term_start) (use n(2) assms in auto)
  then show ?thesis unfolding n g using assms(2,3) by simp
qed

lemma namespace_rx_eq:
  assumes "list_all ns_word (w # ws)"
  shows "namespace_rx (w # ws) = Some (Seq start_rx (chain w ws))"
proof -
  let ?t = "(w @ concat (map (\<lambda>v. sep @ v) ws)) @ unescape ''(%.|$)''"
  let ?s = "unescape ''(^|%.)'' @ ?t"
  let ?n = "?s @ ?s @ ?s @ ''fuel''"
  have s: "unescape ''(^|%.)'' @ js_join (unescape ''%.(?:.*%.|)'') (w # ws) @ unescape ''(%.|$)'' = ?s"
    by (simp add: js_join_def sep_def)
  have w: "w \<noteq> []" "is_word (hd w)" using assms by (cases w; simp add: ns_word_def)+
  then have t: "?t \<noteq> []" "hd ?t \<notin> set ''|)*+?{''" using is_word_not_special(1) [OF w(2)] by auto
  obtain x y m where n: "?n = x # y # m" by (simp add: unescape_def)
  have len: "length ?t + 11 \<le> length m"
    using arg_cong [OF n, of length] by (simp add: unescape_def)
  have "p_seq (y # m) ?s = map_option (\<lambda>(q, u). (Seq start_rx q, u)) (p_seq (drop 1 (y # m)) ?t)"
    by (rule p_seq_start) (use len t in auto)
  moreover have "p_seq m ?t = Some (chain w ws, [])"
    by (rule p_seq_chain [OF assms]) (use len in auto)
  ultimately have "p_seq (y # m) ?s = Some (Seq start_rx (chain w ws), [])" by simp
  then have "p_alt ?n ?s = Some (Seq start_rx (chain w ws), [])"
    unfolding n by (simp only: p_alt.simps option.case prod.case strip_prefix.simps)
  then show ?thesis unfolding namespace_rx_def RegExp_def s by simp
qed

section \<open>What it accepts\<close>

lemma run_word: "run (word_rx w r) (pv, s) \<noteq> [] \<longleftrightarrow> (\<exists>t. s = w @ t \<and> run r (unit_after pv w, t) \<noteq> [])"
proof (induction w arbitrary: pv s)
  case (Cons c w)
  have "run (word_rx (c # w) r) (pv, s) \<noteq> [] \<longleftrightarrow> (\<exists>t. s = c # t \<and> run (word_rx w r) (Some c, t) \<noteq> [])"
    by (cases s) (auto simp: ch_def)
  then show ?case using Cons.IH by (auto simp: unit_after_def)
qed simp

lemma run_finish: "run finish (pv, t) \<noteq> [] \<longleftrightarrow> t = [] \<or> hd t = CHR ''.''"
  by (cases t) (auto simp: finish_def ch_def)

lemma lang_gap: "lang gap = insert [] {x @ [CHR ''.''] | x. list_all any_char x}"
  by (auto simp: gap_def ch_def lang_Star_Cls simp del: lang.simps(5))

lemma run_gap: "(pw, u) \<in> set (run gap (pv, t)) \<longleftrightarrow> (\<exists>v \<in> lang gap. t = v @ u \<and> pw = unit_after pv v)"
  by (rule decidesD, rule plain_decides) (simp add: gap_def ch_def)

lemma gap_ends: "(\<exists>pw. (pw, u) \<in> set (run gap (pv, t))) \<longleftrightarrow> u = t \<or> (\<exists>x. t = x @ CHR ''.'' # u \<and> list_all any_char x)"
proof -
  have "(\<exists>pw. (pw, u) \<in> set (run gap (pv, t))) \<longleftrightarrow> (\<exists>v \<in> lang gap. t = v @ u)" by (simp add: run_gap) blast
  then show ?thesis by (auto simp: lang_gap)
qed

lemma drop_Cons_less: "drop i xs = y # ys \<Longrightarrow> i < length xs"
  by (cases "i < length xs") auto

text \<open>The chain of words from a place where a namespace starts.\<close>

fun matches :: "string \<Rightarrow> string list \<Rightarrow> string \<Rightarrow> bool" where
  "matches w [] s \<longleftrightarrow> (\<exists>t. s = w @ t \<and> (t = [] \<or> hd t = CHR ''.''))"
| "matches w (v # vs) s \<longleftrightarrow> (\<exists>t u. s = w @ CHR ''.'' # t \<and>
     (u = t \<or> (\<exists>x. t = x @ CHR ''.'' # u \<and> list_all any_char x)) \<and> matches v vs u)"

lemma run_chain: "run (chain w ws) (pv, s) \<noteq> [] \<longleftrightarrow> matches w ws s"
proof (induction ws arbitrary: w pv s)
  case Nil
  show ?case by (simp only: chain.simps run_word run_finish matches.simps)
next
  case (Cons v vs)
  have dot: "run (Seq Dot r) (pv, s) \<noteq> [] \<longleftrightarrow> (\<exists>t. s = CHR ''.'' # t \<and> run r (Some CHR ''.'', t) \<noteq> [])" for r pv s
    by (cases s) (auto simp: ch_def)
  have "run (Seq gap (chain v vs)) (pv, t) \<noteq> [] \<longleftrightarrow>
      (\<exists>u. (u = t \<or> (\<exists>x. t = x @ CHR ''.'' # u \<and> list_all any_char x)) \<and> matches v vs u)" for pv t
    unfolding run_Seq_nonempty Bex_pair Cons.IH using gap_ends [of _ pv t] by blast
  then show ?case unfolding chain.simps run_word dot matches.simps by auto
qed

text \<open>Joined words, and their parts that start after a dot.\<close>

abbreviation joined :: "string list \<Rightarrow> string" where
  "joined \<equiv> js_join ''.''"

lemma joined_simps [simp]: "joined [] = []" "joined [w] = w" "joined (v # w # ws) = v @ CHR ''.'' # joined (w # ws)"
  by (simp_all add: js_join_def)

lemma ns_word_no_dot: "ns_word w \<Longrightarrow> CHR ''.'' \<notin> set w"
  by (auto simp: ns_word_def list_all_iff is_word_def is_alnum_def is_digit_def is_upper_def is_lower_def code_def)

lemma joined_chars: "list_all ns_word ms \<Longrightarrow> list_all any_char (joined ms)"
proof -
  have "is_word c \<Longrightarrow> any_char c" for c
    by (auto simp: any_char_def is_word_def is_alnum_def is_digit_def is_upper_def is_lower_def code_def)
  moreover have "any_char CHR ''.''" by (simp add: any_char_def code_def)
  ultimately show "list_all ns_word ms \<Longrightarrow> list_all any_char (joined ms)"
    by (induction ms rule: induct_list012) (auto simp: ns_word_def list_all_iff)
qed

lemma first_word:
  assumes "CHR ''.'' \<notin> set w" "CHR ''.'' \<notin> set m" "w @ t = m @ r" "t = [] \<or> hd t = CHR ''.''" "r = [] \<or> hd r = CHR ''.''"
  shows "w = m \<and> t = r"
proof -
  have "takeWhile (\<lambda>c. c \<noteq> CHR ''.'') (w @ t) = w" using assms(1,4) by (cases t) (auto simp: takeWhile_append takeWhile_eq_all_conv)
  moreover have "takeWhile (\<lambda>c. c \<noteq> CHR ''.'') (m @ r) = m" using assms(2,5) by (cases r) (auto simp: takeWhile_append takeWhile_eq_all_conv)
  ultimately show ?thesis using assms(3) by (metis same_append_eq)
qed

lemma after_dot:
  assumes "list_all ns_word ms"
  shows "(\<exists>x. joined ms = x @ CHR ''.'' # u) \<longleftrightarrow> (\<exists>i. 0 < i \<and> i < length ms \<and> u = joined (drop i ms))"
  using assms
proof (induction ms rule: induct_list012)
  case (2 w)
  then show ?case using ns_word_no_dot [of w] by auto
next
  case (3 v w ws)
  have v: "CHR ''.'' \<notin> set v" using 3(3) ns_word_no_dot by simp
  let ?j = "joined (w # ws)"
  have "(\<exists>x. v @ CHR ''.'' # ?j = x @ CHR ''.'' # u) \<longleftrightarrow> u = ?j \<or> (\<exists>x. ?j = x @ CHR ''.'' # u)"
  proof
    assume "\<exists>x. v @ CHR ''.'' # ?j = x @ CHR ''.'' # u"
    then obtain x where "v @ CHR ''.'' # ?j = x @ CHR ''.'' # u" by blast
    then obtain y where "v = x @ y \<and> y @ CHR ''.'' # ?j = CHR ''.'' # u \<or> v @ y = x \<and> CHR ''.'' # ?j = y @ CHR ''.'' # u"
      by (auto simp: append_eq_append_conv2)
    then show "u = ?j \<or> (\<exists>x. ?j = x @ CHR ''.'' # u)" using v by (cases y) auto
  next
    assume "u = ?j \<or> (\<exists>x. ?j = x @ CHR ''.'' # u)"
    then show "\<exists>x. v @ CHR ''.'' # ?j = x @ CHR ''.'' # u" by (metis append_Cons append_assoc)
  qed
  also have "\<dots> \<longleftrightarrow> (\<exists>i. 0 < i \<and> i < length (v # w # ws) \<and> u = joined (drop i (v # w # ws)))" (is "_ \<longleftrightarrow> (\<exists>i. ?P i)")
  proof -
    have "(\<exists>i. ?P i) \<longleftrightarrow> (\<exists>j. ?P (Suc j))" by (metis gr0_implies_Suc zero_less_Suc)
    also have "\<dots> \<longleftrightarrow> ?P (Suc 0) \<or> (\<exists>j. ?P (Suc (Suc j)))" by (metis not0_implies_Suc)
    also have "(\<exists>j. ?P (Suc (Suc j))) \<longleftrightarrow> (\<exists>i. 0 < i \<and> i < length (w # ws) \<and> u = joined (drop i (w # ws)))"
      by (metis drop_Suc_Cons gr0_implies_Suc length_Cons Suc_less_eq zero_less_Suc)
    finally show ?thesis using 3(2) 3(3) by auto
  qed
  finally show ?case by simp
qed simp

lemma subseq_Cons_drop: "subseq (v # vs) ms \<longleftrightarrow> (\<exists>i r. drop i ms = v # r \<and> subseq vs r)"
proof
  assume "subseq (v # vs) ms"
  then obtain us r where "ms = us @ v # r" "subseq vs r" by (auto dest: list_emb_ConsD)
  then show "\<exists>i r. drop i ms = v # r \<and> subseq vs r" by (intro exI [of _ "length us"] exI [of _ r]) simp
next
  assume "\<exists>i r. drop i ms = v # r \<and> subseq vs r"
  then obtain i r where "drop i ms = v # r" "subseq vs r" by blast
  then have "subseq (v # vs) (drop i ms)" by simp
  then show "subseq (v # vs) ms" by (metis append_take_drop_id list_emb_append2)
qed

lemma matches_joined:
  assumes "list_all ns_word ms" "list_all ns_word (w # ws)" "ms \<noteq> []"
  shows "matches w ws (joined ms) \<longleftrightarrow> (\<exists>r. ms = w # r \<and> subseq ws r)"
  using assms
proof (induction ws arbitrary: w ms)
  case Nil
  obtain m r where ms: "ms = m # r" using Nil by (cases ms) auto
  have dots: "CHR ''.'' \<notin> set w" "CHR ''.'' \<notin> set m" using Nil.prems ms ns_word_no_dot by auto
  obtain t where t: "joined ms = m @ t" "t = [] \<or> hd t = CHR ''.''" unfolding ms by (cases r) auto
  have "matches w [] (joined ms) \<longleftrightarrow> w = m"
    unfolding matches.simps t(1) using first_word [OF dots _ _ t(2)] t(2) by metis
  then show ?case using ms by auto
next
  case (Cons v vs)
  obtain m r where ms: "ms = m # r" using Cons.prems by (cases ms) auto
  have dots: "CHR ''.'' \<notin> set w" "CHR ''.'' \<notin> set m" using Cons.prems ms ns_word_no_dot by auto
  have r: "list_all ns_word r" "list_all any_char (joined r)" using Cons.prems ms joined_chars by auto
  have split: "joined ms = w @ CHR ''.'' # t \<longleftrightarrow> m = w \<and> r \<noteq> [] \<and> t = joined r" for t
    using first_word [OF dots, of "CHR ''.'' # t" "CHR ''.'' # joined r"] dots unfolding ms by (cases r) auto
  have ups: "(u = joined r \<or> (\<exists>x. joined r = x @ CHR ''.'' # u \<and> list_all any_char x)) \<longleftrightarrow> (\<exists>i < length r. u = joined (drop i r))"
    if "r \<noteq> []" for u
  proof -
    have "(\<exists>x. joined r = x @ CHR ''.'' # u \<and> list_all any_char x) \<longleftrightarrow> (\<exists>x. joined r = x @ CHR ''.'' # u)"
      using r(2) by auto
    also have "\<dots> \<longleftrightarrow> (\<exists>i. 0 < i \<and> i < length r \<and> u = joined (drop i r))" by (rule after_dot [OF r(1)])
    finally show ?thesis using that by (metis drop0 length_greater_0_conv neq0_conv)
  qed
  have ih: "matches v vs (joined (drop i r)) \<longleftrightarrow> (\<exists>q. drop i r = v # q \<and> subseq vs q)" if "i < length r" for i
    by (rule Cons.IH) (use that r(1) Cons.prems(2) in \<open>auto simp: list_all_iff dest: in_set_dropD\<close>)
  have "matches w (v # vs) (joined ms) \<longleftrightarrow> m = w \<and> r \<noteq> [] \<and> (\<exists>i < length r. matches v vs (joined (drop i r)))"
  proof -
    let ?U = "\<lambda>u. u = joined r \<or> (\<exists>x. joined r = x @ CHR ''.'' # u \<and> list_all any_char x)"
    have "matches w (v # vs) (joined ms) \<longleftrightarrow> m = w \<and> r \<noteq> [] \<and> (\<exists>u. ?U u \<and> matches v vs u)"
      unfolding matches.simps split by blast
    also have "\<dots> \<longleftrightarrow> m = w \<and> r \<noteq> [] \<and> (\<exists>i < length r. matches v vs (joined (drop i r)))"
    proof -
      have "(\<exists>u. ?U u \<and> matches v vs u) \<longleftrightarrow> (\<exists>i < length r. matches v vs (joined (drop i r)))" if "r \<noteq> []"
        unfolding ups [OF that] by blast
      then show ?thesis by blast
    qed
    finally show ?thesis .
  qed
  also have "\<dots> \<longleftrightarrow> m = w \<and> (\<exists>i q. drop i r = v # q \<and> subseq vs q)"
  proof -
    have "(\<exists>i < length r. matches v vs (joined (drop i r))) \<longleftrightarrow> (\<exists>i < length r. \<exists>q. drop i r = v # q \<and> subseq vs q)"
      using ih by auto
    also have "\<dots> \<longleftrightarrow> (\<exists>i q. drop i r = v # q \<and> subseq vs q)" by (auto dest: drop_Cons_less)
    finally show ?thesis by auto
  qed
  finally show ?case unfolding ms subseq_Cons_drop by auto
qed

lemma pattern_joined:
  assumes "list_all ns_word ms" "list_all ns_word (w # ws)" "ms \<noteq> []"
  shows "regex_test (Seq start_rx (chain w ws)) (joined ms) \<longleftrightarrow> subseq (w # ws) ms"
proof -
  have start: "run (Seq start_rx (chain w ws)) (pv, s) \<noteq> [] \<longleftrightarrow>
      pv = None \<and> matches w ws s \<or> (\<exists>u. s = CHR ''.'' # u \<and> matches w ws u)" for pv s
    unfolding run_Seq_nonempty by (cases s) (auto simp: start_rx_def ch_def run_chain)
  have "regex_test (Seq start_rx (chain w ws)) (joined ms) \<longleftrightarrow>
      (\<exists>pv s. (pv, s) \<in> set (starts None (joined ms)) \<and> (pv = None \<and> matches w ws s \<or> (\<exists>u. s = CHR ''.'' # u \<and> matches w ws u)))"
    unfolding regex_test_def list_ex_iff Bex_pair start by blast
  also have "\<dots> \<longleftrightarrow> matches w ws (joined ms) \<or> (\<exists>u. (\<exists>x. joined ms = x @ CHR ''.'' # u) \<and> matches w ws u)"
  proof -
    have e: "(\<exists>pv s. (pv, s) \<in> A \<and> (pv = None \<and> matches w ws s \<or> (\<exists>u. s = CHR ''.'' # u \<and> matches w ws u))) \<longleftrightarrow>
        (\<exists>s. (None, s) \<in> A \<and> matches w ws s) \<or> (\<exists>u. (\<exists>pv. (pv, CHR ''.'' # u) \<in> A) \<and> matches w ws u)" for A
      by auto
    show ?thesis unfolding e starts_None starts_suffix by simp
  qed
  also have "\<dots> \<longleftrightarrow> (\<exists>i < length ms. matches w ws (joined (drop i ms)))"
  proof -
    have "(\<exists>u. (\<exists>x. joined ms = x @ CHR ''.'' # u) \<and> matches w ws u) \<longleftrightarrow>
        (\<exists>i. 0 < i \<and> i < length ms \<and> matches w ws (joined (drop i ms)))"
      unfolding after_dot [OF assms(1)] by blast
    then show ?thesis using assms(3) by (metis drop0 length_greater_0_conv neq0_conv)
  qed
  also have "\<dots> \<longleftrightarrow> (\<exists>i < length ms. \<exists>r. drop i ms = w # r \<and> subseq ws r)"
  proof -
    have "matches w ws (joined (drop i ms)) \<longleftrightarrow> (\<exists>r. drop i ms = w # r \<and> subseq ws r)" if "i < length ms" for i
      by (rule matches_joined [OF _ assms(2)]) (use that assms(1) in \<open>auto simp: list_all_iff dest: in_set_dropD\<close>)
    then show ?thesis by blast
  qed
  also have "\<dots> \<longleftrightarrow> subseq (w # ws) ms"
    unfolding subseq_Cons_drop by (auto dest: drop_Cons_less)
  finally show ?thesis .
qed

section \<open>Sorted namespaces\<close>

lemma sorted_subseq:
  fixes xs ys :: "string list"
  assumes "sorted xs" "sorted ys" "distinct xs"
  shows "subseq xs ys \<longleftrightarrow> set xs \<subseteq> set ys"
proof
  assume "subseq xs ys"
  then show "set xs \<subseteq> set ys" by (auto elim: list_emb_set)
next
  assume "set xs \<subseteq> set ys"
  with assms show "subseq xs ys"
  proof (induction ys arbitrary: xs)
    case (Cons y ys)
    show ?case
    proof (cases xs)
      case (Cons x xs')
      show ?thesis
      proof (cases "x = y")
        case True
        have "set xs' \<subseteq> set ys" using Cons.prems(3,4) True \<open>xs = x # xs'\<close> by auto
        then show ?thesis using Cons.IH [of xs'] Cons.prems \<open>xs = x # xs'\<close> True by auto
      next
        case False
        then have "y < x" using Cons.prems \<open>xs = x # xs'\<close> by (auto simp: less_le)
        then have "y \<notin> set xs" using Cons.prems(1) \<open>xs = x # xs'\<close> by auto
        then have "set xs \<subseteq> set ys" using Cons.prems(4) by auto
        then show ?thesis using Cons.IH [of xs] Cons.prems by auto
      qed
    qed simp
  qed simp
qed

end
