(* ===== verification/Jq_Event_Properties.thy ===== *)
theory Jq_Event_Properties
  imports Jq_Events_Proofs Jq_Namespaces
begin

text \<open>
  What the event manager keeps and does: the form of its lists and its native listeners in every reachable state,
  the order of the calls of a dispatch, and which handlers a namespace takes off.
\<close>

section \<open>Namespaces in the text of a handler\<close>

lemma dot_iff: "dot c \<longleftrightarrow> c = CHR ''.''"
  by (simp add: dot_def)

lemma word_no_dot: "ns_word w \<Longrightarrow> list_all (\<lambda>c. \<not> dot c) w"
  using ns_word_no_dot [of w] by (auto simp: list_all_iff dot_iff)

lemma split_ns: "ns_word w \<Longrightarrow> split_where dot w = [w]"
  by (rule split_where_single) (rule word_no_dot)

lemma split_ns_dot: "ns_word w \<Longrightarrow> split_where dot (w @ CHR ''.'' # s) = w # split_where dot s"
  by (rule split_where_append, erule word_no_dot, simp add: dot_def)

lemma split_joined: "list_all ns_word ms \<Longrightarrow> ms \<noteq> [] \<Longrightarrow> split_where dot (joined ms) = ms"
  by (induction ms rule: induct_list012) (auto simp: split_ns split_ns_dot)

lemma split_chars: "c \<in> set s \<Longrightarrow> p c \<or> (\<exists>w \<in> set (split_where p s). c \<in> set w)"
  by (induction s) (auto split: list.splits)

text \<open>A type with namespaces is one word.\<close>

lemma one_word:
  assumes "ns_word t" "list_all ns_word (split_where dot n)"
  shows "type_words (t @ CHR ''.'' # n) = [t @ CHR ''.'' # n]" "type_namespace (t @ CHR ''.'' # n) = (t, n)"
proof -
  have word: "\<not> white c" if "is_word c" for c
    using that by (auto simp: white_def is_word_def is_alnum_def is_digit_def is_upper_def is_lower_def code_def)
  have "\<not> white c" if "c \<in> set n" for c
    using split_chars [OF that, of dot] assms(2) word by (auto simp: dot_iff white_def code_def ns_word_def list_all_iff)
  then have "list_all (\<lambda>c. \<not> white c) (t @ CHR ''.'' # n)"
    using assms(1) word by (auto simp: ns_word_def list_all_iff white_def code_def)
  then show "type_words (t @ CHR ''.'' # n) = [t @ CHR ''.'' # n]"
    by (simp add: type_words_def createOptions_def split_where_single)
  have "\<forall>c \<in> set t. \<not> dot c" using word_no_dot [OF assms(1)] by (simp add: list_all_iff)
  then show "type_namespace (t @ CHR ''.'' # n) = (t, n)"
    by (auto simp: type_namespace_def dot_iff takeWhile_append dropWhile_append takeWhile_eq_all_conv dropWhile_eq_Nil_conv)
qed

lemma split_nonempty: "split_where p s \<noteq> []"
  by (cases s) (auto split: list.splits)

text \<open>A handler that was added with namespaces \<open>m\<close> made of words, or with none.\<close>

definition named :: "handle_obj \<Rightarrow> bool" where
  "named h \<longleftrightarrow> (\<exists>m. namespace h = Some (joined (namespaces_of m)) \<and> (m = [] \<or> list_all ns_word (split_where dot m)))"

definition names_of :: "handle_obj \<Rightarrow> string set" where
  "names_of h = set (split_where dot (handler_text h))"

lemma pattern_named:
  assumes n: "list_all ns_word (split_where dot n)" "distinct (split_where dot n)"
  obtains r where "namespace_rx (namespaces_of n) = Some r"
    "\<forall>h. named h \<longrightarrow> regex_test r (handler_text h) = (set (split_where dot n) \<subseteq> names_of h)"
proof -
  obtain w ws where w: "namespaces_of n = w # ws" using split_nonempty [of dot n] by (metis namespaces_of_def list.exhaust set_empty set_sort)
  have mem: "set (w # ws) = set (split_where dot n)" and so: "sorted (w # ws)" "distinct (w # ws)"
    unfolding w [symmetric] using n(2) by (simp_all add: namespaces_of_def)
  have words: "list_all ns_word (w # ws)" using n(1) mem by (auto simp: list_all_iff)
  let ?r = "Seq start_rx (chain w ws)"
  have r: "namespace_rx (namespaces_of n) = Some ?r" unfolding w by (rule namespace_rx_eq [OF words])
  have test: "regex_test ?r (handler_text h) \<longleftrightarrow> set (split_where dot n) \<subseteq> names_of h" if h: "named h" for h
  proof -
    obtain m where m: "namespace h = Some (joined (namespaces_of m))" "m = [] \<or> list_all ns_word (split_where dot m)"
      using h by (auto simp: named_def)
    show ?thesis
    proof (cases "m = []")
      case True
      then have t: "handler_text h = []" using m by (simp add: handler_text_def namespaces_of_def)
      have "w \<noteq> []" using words by (simp add: ns_word_def)
      then have "\<not> matches w ws []" by (cases ws) auto
      then have "run ?r (None, []) = []" using run_chain [of w ws None "[]"] by (auto simp: start_rx_def ch_def)
      then have "\<not> regex_test ?r (handler_text h)" by (simp add: t regex_test_def)
      moreover have "\<not> set (split_where dot n) \<subseteq> names_of h" using mem \<open>w \<noteq> []\<close> by (auto simp: names_of_def t)
      ultimately show ?thesis by simp
    next
      case False
      let ?ms = "namespaces_of m"
      have ms: "list_all ns_word ?ms" "?ms \<noteq> []" "sorted ?ms"
        using m False split_nonempty [of dot m] by (auto simp: namespaces_of_def list_all_iff simp flip: set_empty)
      have t: "handler_text h = joined ?ms" by (simp add: handler_text_def m)
      have "regex_test ?r (handler_text h) \<longleftrightarrow> subseq (w # ws) ?ms" unfolding t by (rule pattern_joined [OF ms(1) words ms(2)])
      also have "\<dots> \<longleftrightarrow> set (w # ws) \<subseteq> set ?ms" by (rule sorted_subseq [OF so(1) ms(3) so(2)])
      also have "set ?ms = names_of h" by (simp add: names_of_def t split_joined [OF ms(1,2)])
      finally show ?thesis unfolding mem .
    qed
  qed
  show thesis using that [OF r] test by blast
qed

section \<open>A page\<close>

text \<open>Nodes 1 to 5, each inside the one before; the selector \<open>li\<close> selects node 3, \<open>a\<close> the nodes from 4 on.\<close>

definition demo_dom :: page where
  "demo_dom =
     \<lparr>node_path = (\<lambda>n. rev [1..<Suc n]), is_elem = (\<lambda>_. True), is_node = (\<lambda>_. True), accepts = (\<lambda>_. True),
      checkable = (\<lambda>_. False), disabled_elem = (\<lambda>_. False), valid_selector = (\<lambda>_. True),
      selects = (\<lambda>root x n. x = ''li '' \<and> n = 3 \<or> x = ''a '' \<and> 4 \<le> n)\<rparr>"

definition demo_ops :: "operation list" where
  "demo_ops =
     [On [1] ''click.b.a'' (AFn 1) Missing Missing False, On [1] ''click'' (AText ''li'') Missing (AFn 2) False,
      On [1] ''click.a'' (AText ''a'') (AFn 3) Missing True]"

definition demo_events :: event_state where
  "demo_events = (case fold_opt (operate demo_dom) demo_ops no_events of Some s \<Rightarrow> s | None \<Rightarrow> no_events)"

lemma operations_reachable: "reachable_events pg s \<Longrightarrow> fold_opt (operate pg) ops s = Some s' \<Longrightarrow> reachable_events pg s'"
  by (rule fold_opt_keeps [of ops "reachable_events pg"]) (auto intro: reachable_events.operation)

lemma demo_events_reachable: "reachable_events demo_dom demo_events"
  unfolding demo_events_def by (auto intro: reachable_events.start operations_reachable split: option.splits)

definition demo_click :: event where
  "demo_click =
     \<lparr>e_type = ''click'', target = 5, related = None, button = 0, rnamespace = None, stopped_propagation = False,
      stopped_immediate = False, default_prevented = False, e_result = None\<rparr>"

text \<open>Handlers that do nothing, except that the second takes all handlers off.\<close>

definition demo_clients :: clients where
  "demo_clients f el e s =
     \<lparr>answer = Undef, stops = False, stops_now = False, does = (if f = Client 3 then [Off [1] ''click'' Missing Missing] else [])\<rparr>"

section \<open>Properties\<close>

text \<open>C16: In every state a page can reach by \<open>on\<close>, \<open>one\<close>, \<open>off\<close> and dispatching events to functions that use them, the delegated
handlers of a type come before the direct ones and \<open>delegateCount\<close> is their number; a type in the data has a handler, and
there is one native listener for each type in the data and for no other.\<close>

theorem handler_lists_ordered:
  assumes "reachable_events pg s"
  shows "distinct (listeners s) \<and> ((el, t) \<in> set (listeners s) \<longleftrightarrow> hs (handlers_at s el t) \<noteq> []) \<and>
    hs (handlers_at s el t) = filter delegated (hs (handlers_at s el t)) @ filter (\<lambda>h. \<not> delegated h) (hs (handlers_at s el t)) \<and>
    delegateCount (handlers_at s el t) = int (length (filter delegated (hs (handlers_at s el t))))"
proof -
  have ok: "events_ok s" using assms by (rule reachable_events_ok)
  have "list_ok (handlers_at s el t)" using ok by (rule handlers_at_ok)
  moreover have "(el, t) \<in> set (listeners s) \<longleftrightarrow> hs (handlers_at s el t) \<noteq> []"
    using ok by (cases "type_list s el t") (auto simp: events_ok_def handlers_at_eq)
  ultimately show ?thesis using ok by (simp add: list_ok_def events_ok_def)
qed

theorem handler_lists_ordered_witness:
  "delegateCount (handlers_at demo_events 1 ''click'') = 2 \<and> (1, ''click'') \<in> set (listeners demo_events)"
proof -
  have "length (filter delegated (hs (handlers_at demo_events 1 ''click''))) = 2" "hs (handlers_at demo_events 1 ''click'') \<noteq> []"
    by code_simp+
  then show ?thesis
    using handler_lists_ordered [OF demo_events_reachable, of 1 "''click''"] by auto
qed

text \<open>C17: A dispatch calls handlers in the order of the page: from the target up to the element the delegated handlers whose
selector selects the node, in the order they were added, then the direct ones. Whatever the called functions do, adding and taking off
handlers included, no other handler is called and none twice for a node; when nothing stops the event, all of them are called.\<close>

theorem dispatch_calls_in_order:
  assumes "reachable_events pg s" "dispatch_event pg cl this e s = Some (log, e', s')"
  shows "subseq log (dispatch_order pg this e (handlers_at s this (e_type e))) \<and>
    (plain_event e \<and> \<not> stopped_propagation e' \<and> (\<forall>h \<in> set (hs (handlers_at s this (e_type e))). \<not> enter_leave (origType h)) \<longrightarrow>
      log = dispatch_order pg this e (handlers_at s this (e_type e)))"
proof -
  let ?hl = "handlers_at s this (e_type e)"
  let ?q = "event_handlers pg this e ?hl"
  have run: "run_queue pg cl this ?q ([], e, s) = Some (log, e', s')" using assms(2) by (simp add: dispatch_event_def)
  have order: "concat (map (\<lambda>(el, l). map (Pair el) l) ?q) = dispatch_order pg this e ?hl"
    using assms(1) by (intro handlers_order handlers_at_ok reachable_events_ok)
  have sub: "set l \<subseteq> set (hs ?hl)" if "(el, l) \<in> set ?q" for el l
    using that by (auto simp: event_handlers_def Let_def match_delegates_Nil dest: in_set_takeD in_set_dropD split: if_splits)
  have "list_all (\<lambda>(el, hl). list_all (\<lambda>h. \<not> enter_leave (origType h)) hl) ?q"
    if "\<forall>h \<in> set (hs ?hl). \<not> enter_leave (origType h)"
    using sub that by (fastforce simp: list_all_iff)
  then show ?thesis using queue_log [OF run] queue_all [OF run] order by auto
qed

theorem dispatch_calls_in_order_witness:
  "map (\<lambda>(n, h). (n, handler h)) (fst (the (dispatch_event demo_dom demo_clients 1 demo_click demo_events))) =
     [(5, OneShot (Client 3)), (4, OneShot (Client 3)), (3, Client 2), (1, Client 1)]"
proof -
  let ?d = "dispatch_event demo_dom demo_clients 1 demo_click demo_events"
  have d: "\<not> Option.is_none ?d" "\<not> stopped_propagation (fst (snd (the ?d)))" "plain_event demo_click"
    "list_all (\<lambda>h. \<not> enter_leave (origType h)) (hs (handlers_at demo_events 1 (e_type demo_click)))"
    "map (\<lambda>(n, h). (n, handler h)) (dispatch_order demo_dom 1 demo_click (handlers_at demo_events 1 (e_type demo_click))) =
      [(5, OneShot (Client 3)), (4, OneShot (Client 3)), (3, Client 2), (1, Client 1)]"
    by code_simp+
  obtain log e' s' where e: "?d = Some (log, e', s')" using d(1) by (cases ?d) auto
  have "\<not> stopped_propagation e'" "\<forall>h \<in> set (hs (handlers_at demo_events 1 (e_type demo_click))). \<not> enter_leave (origType h)"
    using d(2,4) unfolding e by (simp_all add: list_all_iff)
  then have "log = dispatch_order demo_dom 1 demo_click (handlers_at demo_events 1 (e_type demo_click))"
    using dispatch_calls_in_order [OF demo_events_reachable e] d(3) by blast
  then show ?thesis using d(5) unfolding e by simp
qed

text \<open>C18: \<open>off\<close> with a type and namespaces takes off exactly the handlers of the type that have all these namespaces, in
whatever order either were written: the pattern that is searched in the text of the sorted namespaces decides inclusion.\<close>

theorem off_takes_namespaces:
  assumes "ns_word t" "mapped_type None t = t" "list_all ns_word (split_where dot n)" "distinct (split_where dot n)"
    and "elem_events s el \<noteq> None" "list_all named (hs (handlers_at s el t))"
  shows "\<exists>s'. event_remove el (t @ ''.'' @ n) None None s = Some s' \<and>
    hs (handlers_at s' el t) =
      filter (\<lambda>h. \<not> (origType h = t \<and> set (split_where dot n) \<subseteq> names_of h)) (hs (handlers_at s el t))"
proof -
  let ?w = "t @ CHR ''.'' # n" and ?hl = "handlers_at s el t"
  let ?goal = "filter (\<lambda>h. \<not> (origType h = t \<and> set (split_where dot n) \<subseteq> names_of h)) (hs ?hl)"
  have n0: "n \<noteq> []" "t \<noteq> []" using assms(1,3) by (auto simp: ns_word_def)
  obtain r where r: "namespace_rx (namespaces_of n) = Some r"
    "\<forall>h. named h \<longrightarrow> regex_test r (handler_text h) = (set (split_where dot n) \<subseteq> names_of h)"
    using pattern_named [OF assms(3,4)] by blast
  let ?p = "removes False t None (Some r) None"
  have p: "hs (remove_from ?p ?hl) = ?goal"
    using assms(6) r(2) by (auto simp: remove_from_def removes_def list_all_iff intro!: filter_cong)
  have keep: "handlers_at (drop_empty el s') el t = handlers_at s' el t" for s'
    by (simp add: handlers_at_def drop_empty_def)
  have "remove_word el None None ?w s = remove_typed el None None False ?w s"
    using n0(2) by (simp add: remove_word_def one_word [OF assms(1,3)])
  also have "\<dots> = Some (if hs ?hl = [] then s else if ?goal = [] then
      set_events el (odel (case elem_events s el of Some ev \<Rightarrow> ev | None \<Rightarrow> []) t) (s\<lparr>listeners := filter (\<lambda>x. x \<noteq> (el, t)) (listeners s)\<rparr>)
      else put_handlers el t (remove_from ?p ?hl) s)" (is "_ = Some ?s")
    using n0(1) by (simp add: remove_typed_def one_word [OF assms(1,3)] assms(2) r(1) p)
  finally have w: "remove_word el None None ?w s = Some ?s" .
  have "event_remove el ?w None None s = map_option (drop_empty el) (Option.bind (remove_word el None None ?w s) (fold_opt (remove_word el None None) []))"
    using assms(5) by (simp only: event_remove_def one_word [OF assms(1,3)] rev_singleton_conv rev.simps append.simps fold_opt.simps if_False simp_thms)
  then have "event_remove el ?w None None s = Some (drop_empty el ?s)" unfolding w by simp
  moreover have "hs (handlers_at ?s el t) = ?goal"
  proof -
    have "handlers_at (put_handlers el t hl s) el t = hl" for hl by (simp add: handlers_at_eq)
    moreover have "hs (handlers_at (set_events el (odel ev t) s') el t) = []" for ev s' by (simp add: handlers_at_def)
    ultimately show ?thesis using p by simp
  qed
  ultimately show ?thesis using keep by simp
qed

theorem off_takes_namespaces_witness:
  "\<exists>s'. event_remove 1 (''click'' @ ''.'' @ ''a.b'') None None demo_events = Some s' \<and>
    map handler (hs (handlers_at s' 1 ''click'')) = [Client 2, OneShot (Client 3)]"
proof -
  have n: "ns_word ''click''" "mapped_type None ''click'' = ''click''" "list_all ns_word (split_where dot ''a.b'')"
    "distinct (split_where dot ''a.b'')" "\<not> Option.is_none (elem_events demo_events 1)"
    and h: "map (\<lambda>h. (namespace h, origType h)) (hs (handlers_at demo_events 1 ''click'')) =
      [(Some [], ''click''), (Some ''a'', ''click''), (Some ''a.b'', ''click'')]"
    and r: "map handler (filter (\<lambda>h. \<not> (origType h = ''click'' \<and> list_all (\<lambda>w. w \<in> set (split_where dot (handler_text h))) (split_where dot ''a.b'')))
      (hs (handlers_at demo_events 1 ''click''))) = [Client 2, OneShot (Client 3)]"
    and m: "joined (namespaces_of []) = []" "joined (namespaces_of ''a'') = ''a''" "joined (namespaces_of ''a.b'') = ''a.b''"
      "list_all ns_word (split_where dot ''a'')"
    by code_simp+
  have "list_all named (hs (handlers_at demo_events 1 ''click''))"
  proof -
    have "named h" if "namespace h \<in> {Some [], Some ''a'', Some ''a.b''}" for h
      unfolding named_def using that m n(3) by (elim insertE) (rule exI [of _ "[]"] exI [of _ "''a''"] exI [of _ "''a.b''"], simp)+
    moreover have "namespace h \<in> {Some [], Some ''a'', Some ''a.b''}" if "h \<in> set (hs (handlers_at demo_events 1 ''click''))" for h
    proof -
      have "(namespace h, origType h) \<in> set (map (\<lambda>h. (namespace h, origType h)) (hs (handlers_at demo_events 1 ''click'')))"
        using that by (auto simp: image_iff)
      then show ?thesis unfolding h by auto
    qed
    ultimately show ?thesis by (simp add: list_all_iff)
  qed
  moreover have "elem_events demo_events 1 \<noteq> None" using n(5) by (simp add: Option.is_none_def)
  ultimately obtain s' where "event_remove 1 (''click'' @ ''.'' @ ''a.b'') None None demo_events = Some s'"
    "hs (handlers_at s' 1 ''click'') = filter (\<lambda>h. \<not> (origType h = ''click'' \<and> set (split_where dot ''a.b'') \<subseteq> names_of h)) (hs (handlers_at demo_events 1 ''click''))"
    using off_takes_namespaces [OF n(1-4)] by blast
  then show ?thesis using r by (auto simp: names_of_def list_all_iff subset_code(1) cong: filter_cong)
qed

end
