(* ===== verification/Bs_Util.thy ===== *)
theory Bs_Util
  imports Js_Values
begin

text \<open>
  The helpers of \<open>bootstrap.js\<close> that its components share: the neighbour of an element in a list, the
  selector an element points to, and \<open>Data\<close>, the registry of one instance per element. Elements of the
  document are numbers.
\<close>

section \<open>Lists of elements\<close>

text \<open>\<open>indexOf\<close>: the place of the first occurrence, \<open>-1\<close> when there is none (\<open>null\<close> is in no list).\<close>

fun index_upto :: "nat \<Rightarrow> 'a \<Rightarrow> 'a list \<Rightarrow> int" where
  "index_upto n x [] = -1"
| "index_upto n x (y # ys) = (if y = x then int n else index_upto (Suc n) x ys)"

definition indexOf :: "'a list \<Rightarrow> 'a option \<Rightarrow> int" where
  "indexOf xs e = (case e of None \<Rightarrow> -1 | Some x \<Rightarrow> index_upto 0 x xs)"

text \<open>Reading an array at an index: \<open>undefined\<close> outside.\<close>

definition at_index :: "'a list \<Rightarrow> int \<Rightarrow> 'a option" where
  "at_index xs i = (if 0 \<le> i \<and> i < int (length xs) then Some (xs ! nat i) else None)"

definition getNextActiveElement :: "'a list \<Rightarrow> 'a option \<Rightarrow> bool \<Rightarrow> bool \<Rightarrow> 'a option" where
  "getNextActiveElement list active shouldGetNext isCycleAllowed =
     (let index = indexOf list active; n = int (length list) in
      if index = -1 then at_index list (if \<not> shouldGetNext \<and> isCycleAllowed then n - 1 else 0)
      else
        let i = index + (if shouldGetNext then 1 else -1);
            i = (if isCycleAllowed then js_rem (i + n) n else i)
        in at_index list (max 0 (min i (n - 1))))"

lemma index_upto_nth: "distinct xs \<Longrightarrow> i < length xs \<Longrightarrow> index_upto n (xs ! i) xs = int (n + i)"
proof (induction xs arbitrary: n i)
  case (Cons x xs)
  then show ?case by (cases i) auto
qed simp

lemma index_upto_absent: "index_upto n x xs = -1 \<longleftrightarrow> x \<notin> set xs"
  by (induction n x xs rule: index_upto.induct) auto

lemma indexOf_nth [simp]: "distinct xs \<Longrightarrow> i < length xs \<Longrightarrow> indexOf xs (Some (xs ! i)) = int i"
  by (simp add: indexOf_def index_upto_nth)

lemma indexOf_upt [simp]: "indexOf [0..<n] (Some i) = (if i < n then int i else -1)"
  using indexOf_nth [of "[0..<n]" i] index_upto_absent [of 0 i "[0..<n]"]
  by (simp add: indexOf_def)

lemma indexOf_None [simp]: "indexOf xs None = -1" "indexOf [] e = -1"
  by (simp_all add: indexOf_def split: option.split)

lemma at_index_nat [simp]: "i < length xs \<Longrightarrow> at_index xs (int i) = Some (xs ! i)"
  by (simp add: at_index_def)

lemma js_rem_cycle:
  fixes i n :: int
  assumes "-1 \<le> i" and "i \<le> n" and "0 < n"
  shows "js_rem (i + n) n = (if i = -1 then n - 1 else if i = n then 0 else i)"
proof -
  have "js_rem (i + n) n = i mod n"
    using assms by (simp add: js_rem_nonneg)
  moreover have "(-1) mod n = n - 1" using assms(3) by (simp add: zmod_minus1)
  ultimately show ?thesis using assms by auto
qed

text \<open>The neighbour in a list without duplicates, with and without going round.\<close>

lemma next_cyclic:
  assumes "distinct xs" and "i < length xs"
  shows "getNextActiveElement xs (Some (xs ! i)) True True
    = Some (xs ! (if Suc i = length xs then 0 else Suc i))"
proof -
  have len: "0 < length xs" using assms(2) by linarith
  have "js_rem (int i + 1 + int (length xs)) (int (length xs))
      = (if Suc i = length xs then 0 else int (Suc i))"
    using assms(2) len js_rem_cycle [of "int i + 1" "int (length xs)"] by (auto simp del: length_greater_0_conv)
  then show ?thesis using assms len
    by (auto simp: getNextActiveElement_def Let_def at_index_def nat_add_distrib min_def max_def)
qed

lemma prev_cyclic:
  assumes "distinct xs" and "i < length xs"
  shows "getNextActiveElement xs (Some (xs ! i)) False True
    = Some (xs ! (if i = 0 then length xs - 1 else i - 1))"
proof -
  have len: "0 < length xs" using assms(2) by linarith
  have "js_rem (int i + -1 + int (length xs)) (int (length xs))
      = (if i = 0 then int (length xs) - 1 else int i - 1)"
    using assms(2) len js_rem_cycle [of "int i - 1" "int (length xs)"] by (auto simp del: length_greater_0_conv)
  then show ?thesis using assms len
    by (auto simp: getNextActiveElement_def Let_def at_index_def nat_diff_distrib min_def max_def)
qed

lemma neighbour_bounded:
  assumes "distinct xs" and "i < length xs"
  shows "getNextActiveElement xs (Some (xs ! i)) True False = Some (xs ! min (Suc i) (length xs - 1))"
    and "getNextActiveElement xs (Some (xs ! i)) False False = Some (xs ! (i - 1))"
  using assms
  by (auto simp: getNextActiveElement_def Let_def at_index_def nat_add_distrib nat_diff_distrib min_def max_def)

section \<open>The target of an element\<close>

text \<open>\<open>includes\<close> and \<open>startsWith\<close> for one character, \<open>split\<close> at it, \<open>trim\<close> are those of \<open>Js_Strings\<close> and here.\<close>

definition after_hash :: "string \<Rightarrow> string" where
  "after_hash s = takeWhile (\<lambda>c. c \<noteq> CHR ''#'') (drop 1 (dropWhile (\<lambda>c. c \<noteq> CHR ''#'') s))"

definition href_selector :: "string option \<Rightarrow> string option" where
  "href_selector href =
     (case href of
        None \<Rightarrow> None
      | Some h \<Rightarrow>
          if h = [] \<or> CHR ''#'' \<notin> set h \<and> hd h \<noteq> CHR ''.'' then None
          else
            let h = (if CHR ''#'' \<in> set h \<and> hd h \<noteq> CHR ''#'' then CHR ''#'' # after_hash h else h)
            in if h \<noteq> ''#'' then Some (trim h) else None)"

definition getSelector :: "string option \<Rightarrow> string option \<Rightarrow> string option" where
  "getSelector target href =
     (case target of
        Some t \<Rightarrow> if t = [] \<or> t = ''#'' then href_selector href else Some t
      | None \<Rightarrow> href_selector href)"

text \<open>\<open>document.querySelector\<close> is a parameter: the first element a selector finds.\<close>

definition getSelectorFromElement :: "(string \<Rightarrow> 'e option) \<Rightarrow> string option \<Rightarrow> string option \<Rightarrow> string option" where
  "getSelectorFromElement query target href =
     (case getSelector target href of
        None \<Rightarrow> None
      | Some s \<Rightarrow> if s = [] then None else if query s = None then None else Some s)"

definition getElementFromSelector :: "(string \<Rightarrow> 'e option) \<Rightarrow> string option \<Rightarrow> string option \<Rightarrow> 'e option" where
  "getElementFromSelector query target href =
     (case getSelector target href of None \<Rightarrow> None | Some s \<Rightarrow> if s = [] then None else query s)"

lemma trim_keeps_head:
  assumes "\<not> is_space c"
  shows "\<exists>t. trim (c # s) = c # t"
proof -
  have "dropWhile is_space (rev s @ [c]) \<noteq> []" using assms by (simp add: dropWhile_eq_Nil_conv)
  moreover have "last (dropWhile is_space (rev s @ [c])) = c"
    using assms by (metis calculation last_snoc dropWhile_append3 dropWhile_eq_Nil_conv append_is_Nil_conv
        dropWhile.simps(2) last_append not_Cons_self2 dropWhile_append1 dropWhile_append2)
  ultimately have "hd (rev (dropWhile is_space (rev s @ [c]))) = c" by (simp add: hd_rev)
  then show ?thesis using assms \<open>dropWhile is_space (rev s @ [c]) \<noteq> []\<close>
    by (cases "rev (dropWhile is_space (rev s @ [c]))") (auto simp: trim_def)
qed

text \<open>A selector taken from \<open>href\<close> is an identifier or a class, whatever URL stands before it.\<close>

lemma href_selector_shape:
  assumes "href_selector href = Some s"
  shows "s \<noteq> [] \<and> hd s \<in> {CHR ''#'', CHR ''.''}"
proof -
  obtain h where h: "href = Some h" and ne: "h \<noteq> []"
    using assms by (auto simp: href_selector_def split: option.splits if_splits)
  have sp: "\<not> is_space (CHR ''#'')" "\<not> is_space (CHR ''.'')" by (simp_all add: is_space_def code_def)
  obtain c t where ct: "(if CHR ''#'' \<in> set h \<and> hd h \<noteq> CHR ''#'' then CHR ''#'' # after_hash h else h) = c # t"
      "c = CHR ''#'' \<or> c = CHR ''.''" "s = trim (c # t)"
    using assms ne unfolding h href_selector_def
    by (cases h) (auto simp: Let_def split: if_splits)
  then show ?thesis using trim_keeps_head [of c t] sp by auto
qed

section \<open>Instances\<close>

text \<open>
  \<open>Data\<close>: a map from elements to maps from keys to instances; an instance is a number given when it is
  made. What is written to the console is kept.
\<close>

record registry =
  element_map :: "(nat \<times> (string \<times> nat) list) list"
  console :: "string list"
  next_instance :: nat

definition data_set :: "nat \<Rightarrow> string \<Rightarrow> nat \<Rightarrow> registry \<Rightarrow> registry" where
  "data_set e key inst r =
     (let m = (case oget (element_map r) e of None \<Rightarrow> oset (element_map r) e [] | Some _ \<Rightarrow> element_map r);
          im = (case oget m e of None \<Rightarrow> [] | Some im \<Rightarrow> im)
      in if oget im key = None \<and> im \<noteq> [] then
           r\<lparr>element_map := m,
             console := console r @
               [''Bootstrap doesn'' @ [CHR 0x27] @ ''t allow more than one instance per element. Bound instance: ''
                 @ fst (hd im) @ ''.'']\<rparr>
         else r\<lparr>element_map := oset m e (oset im key inst)\<rparr>)"

definition data_get :: "nat \<Rightarrow> string \<Rightarrow> registry \<Rightarrow> nat option" where
  "data_get e key r = (case oget (element_map r) e of None \<Rightarrow> None | Some im \<Rightarrow> oget im key)"

definition data_remove :: "nat \<Rightarrow> string \<Rightarrow> registry \<Rightarrow> registry" where
  "data_remove e key r =
     (case oget (element_map r) e of
        None \<Rightarrow> r
      | Some im \<Rightarrow>
          let im = odel im key in
          if im = [] then r\<lparr>element_map := odel (element_map r) e\<rparr>
          else r\<lparr>element_map := oset (element_map r) e im\<rparr>)"

text \<open>The constructor of a component, \<open>getOrCreateInstance\<close> and \<open>dispose\<close>; \<open>el\<close> is what \<open>getElement\<close> finds.\<close>

definition instance_key :: "string \<Rightarrow> string" where
  "instance_key name = ''bs.'' @ name"

definition base_constructor :: "string \<Rightarrow> nat option \<Rightarrow> registry \<Rightarrow> nat \<times> registry" where
  "base_constructor name el r =
     (let i = next_instance r; r = r\<lparr>next_instance := i + 1\<rparr> in
      (i, case el of None \<Rightarrow> r | Some e \<Rightarrow> data_set e (instance_key name) i r))"

definition getInstance :: "string \<Rightarrow> nat option \<Rightarrow> registry \<Rightarrow> nat option" where
  "getInstance name el r = (case el of None \<Rightarrow> None | Some e \<Rightarrow> data_get e (instance_key name) r)"

definition getOrCreateInstance :: "string \<Rightarrow> nat option \<Rightarrow> registry \<Rightarrow> nat \<times> registry" where
  "getOrCreateInstance name el r =
     (case getInstance name el r of Some i \<Rightarrow> (i, r) | None \<Rightarrow> base_constructor name el r)"

definition dispose :: "string \<Rightarrow> nat \<Rightarrow> registry \<Rightarrow> registry" where
  "dispose name e r = data_remove e (instance_key name) r"

inductive reachable_registry :: "registry \<Rightarrow> bool" where
  empty: "reachable_registry \<lparr>element_map = [], console = [], next_instance = 0\<rparr>"
| set: "reachable_registry r \<Longrightarrow> reachable_registry (data_set e key i r)"
| create: "reachable_registry r \<Longrightarrow> reachable_registry (snd (getOrCreateInstance name el r))"
| remove: "reachable_registry r \<Longrightarrow> reachable_registry (data_remove e key r)"

definition one_instance :: "registry \<Rightarrow> bool" where
  "one_instance r \<longleftrightarrow> obj_ok (element_map r) \<and> (\<forall>e im. oget (element_map r) e = Some im \<longrightarrow> length im = 1)"

lemma data_set_one:
  assumes "one_instance r"
  shows "one_instance (data_set e key i r)"
proof -
  have "length (oset im key i) = 1" if "oget (element_map r) e = Some im" "im = [] \<or> oget im key \<noteq> None" for im
  proof -
    have "im \<noteq> [] \<Longrightarrow> length im = 1" using assms that(1) by (simp add: one_instance_def)
    then show ?thesis using that by (cases im) (auto split: if_splits)
  qed
  then show ?thesis
    using assms
    by (auto simp: one_instance_def data_set_def Let_def split: option.splits if_splits)
qed

lemma data_remove_one:
  assumes "one_instance r"
  shows "one_instance (data_remove e key r)"
proof -
  have "odel im key = [] \<or> length (odel im key) = 1" if "oget (element_map r) e = Some im" for im
  proof -
    have "length im = 1" using assms that by (simp add: one_instance_def)
    then obtain p where "im = [p]" by (cases im) auto
    then show ?thesis by (simp add: odel_def)
  qed
  then show ?thesis
    using assms
    by (auto simp: one_instance_def data_remove_def Let_def split: option.splits if_splits)
qed

lemma create_one: "one_instance r \<Longrightarrow> one_instance (snd (getOrCreateInstance name el r))"
  using data_set_one [of "r\<lparr>next_instance := next_instance r + 1\<rparr>"]
  by (auto simp: getOrCreateInstance_def base_constructor_def Let_def split: option.splits)
    (auto simp: one_instance_def)

lemma reachable_one: "reachable_registry r \<Longrightarrow> one_instance r"
proof (induction rule: reachable_registry.induct)
  case empty
  show ?case by (simp add: one_instance_def)
qed (auto intro: data_set_one data_remove_one create_one)

end
