(* ===== verification/Bs_Carousel.thy ===== *)
theory Bs_Carousel
  imports Bs_Util
begin

text \<open>
  The carousel of \<open>bootstrap.js\<close>: its page (items, indicators), the state of the instance, timers and
  transitions under way, and every operation as a function on them. An operation that can throw also says
  whether it returned.
\<close>

section \<open>State\<close>

text \<open>An option of type \<open>(number|boolean)\<close>.\<close>

datatype setting = Number int | Flag bool

fun truthy_setting :: "setting \<Rightarrow> bool" where
  "truthy_setting (Number n) \<longleftrightarrow> n \<noteq> 0"
| "truthy_setting (Flag b) \<longleftrightarrow> b"

datatype order = ORDER_NEXT | ORDER_PREV

datatype direction = DIRECTION_LEFT | DIRECTION_RIGHT

text \<open>An element below \<open>.carousel-indicators\<close>.\<close>

record indicator =
  is_target :: bool       \<comment> \<open>has \<open>data-bs-target\<close>\<close>
  slide_to :: jsnum       \<comment> \<open>\<open>parseInt\<close> of its \<open>data-bs-slide-to\<close>\<close>
  lit_up :: bool          \<comment> \<open>has the class \<open>active\<close>\<close>
  aria_current :: bool

text \<open>A transition that \<open>_slide\<close> waits for: the item that leaves, the one that comes, the order.\<close>

type_synonym transition = "nat \<times> nat \<times> order"

record carousel =
  item_count :: nat                     \<comment> \<open>the items of the page are \<open>0\<close>, \<open>1\<close>, ... in its order\<close>
  item_interval :: "nat \<Rightarrow> jsnum"       \<comment> \<open>\<open>parseInt\<close> of their \<open>data-bs-interval\<close>\<close>
  item_classes :: "nat \<Rightarrow> string set"
  animated :: bool                      \<comment> \<open>the carousel has the class \<open>slide\<close>\<close>
  rtl :: bool
  indicators :: "indicator list option"
  cfg_keyboard :: bool
  cfg_wrap :: bool
  cfg_touch :: bool                     \<comment> \<open>the option, on a device with touch\<close>
  cfg_hover :: bool                     \<comment> \<open>\<open>pause\<close> is \<open>hover\<close>\<close>
  cfg_interval :: setting
  default_interval :: "setting option"
  pointer_events :: bool
  items :: "nat list"
  interval :: "nat option"
  activeElement :: "nat option"
  isPaused :: bool
  isSliding :: bool
  touchTimeout :: "nat option"
  touchStartX :: int
  touchDeltaX :: int
  live_intervals :: "nat list"          \<comment> \<open>running intervals of the browser\<close>
  live_timeouts :: "nat list"           \<comment> \<open>waiting calls of \<open>cycle\<close>\<close>
  next_timer :: nat
  transitions :: "transition list"
  slid_timers :: nat                    \<comment> \<open>waiting calls of \<open>triggerSlidEvent\<close>\<close>
  deferred_to :: "(nat \<times> int) list"     \<comment> \<open>listeners of \<open>slid\<close> that call \<open>to\<close>\<close>
  next_listener :: nat

text \<open>What listeners of \<open>slide\<close> decide from the numbers of the two items: \<open>preventDefault\<close> or not.\<close>

type_synonym slide_listener = "int \<Rightarrow> int \<Rightarrow> bool"

definition active :: "carousel \<Rightarrow> nat \<Rightarrow> bool" where
  "active s i \<longleftrightarrow> ''active'' \<in> item_classes s i"

definition page_items :: "carousel \<Rightarrow> nat list" where
  "page_items s = [0..<item_count s]"

definition active_item :: "carousel \<Rightarrow> nat option" where
  "active_item s = List.find (active s) (page_items s)"

definition add_classes :: "nat \<Rightarrow> string list \<Rightarrow> carousel \<Rightarrow> carousel" where
  "add_classes i cs s = s\<lparr>item_classes := (item_classes s)(i := item_classes s i \<union> set cs)\<rparr>"

definition remove_classes :: "nat \<Rightarrow> string list \<Rightarrow> carousel \<Rightarrow> carousel" where
  "remove_classes i cs s = s\<lparr>item_classes := (item_classes s)(i := item_classes s i - set cs)\<rparr>"

section \<open>Intervals\<close>

definition updateInterval :: "carousel \<Rightarrow> carousel" where
  "updateInterval s =
     (case (case activeElement s of None \<Rightarrow> active_item s | Some i \<Rightarrow> Some i) of
        None \<Rightarrow> s
      | Some i \<Rightarrow>
          let d = (case default_interval s of
                     Some d \<Rightarrow> if truthy_setting d then d else cfg_interval s
                   | None \<Rightarrow> cfg_interval s) in
          (case item_interval s i of
             Some n \<Rightarrow> if n \<noteq> 0 then s\<lparr>default_interval := Some d, cfg_interval := Number n\<rparr>
                       else s\<lparr>cfg_interval := d\<rparr>
           | None \<Rightarrow> s\<lparr>cfg_interval := d\<rparr>))"

definition clear_interval :: "carousel \<Rightarrow> carousel" where
  "clear_interval s =
     s\<lparr>live_intervals := (case interval s of None \<Rightarrow> live_intervals s | Some k \<Rightarrow> removeAll k (live_intervals s)),
       interval := None\<rparr>"

text \<open>The argument of \<open>cycle\<close> and \<open>pause\<close> says whether they were given an event.\<close>

definition carousel_cycle :: "bool \<Rightarrow> carousel \<Rightarrow> carousel" where
  "carousel_cycle event s =
     (let s = (if event then s else s\<lparr>isPaused := False\<rparr>);
          s = (if interval s \<noteq> None then clear_interval s else s)
      in if truthy_setting (cfg_interval s) \<and> \<not> isPaused s then
           let s = updateInterval s in
           s\<lparr>interval := Some (next_timer s), live_intervals := live_intervals s @ [next_timer s],
             next_timer := next_timer s + 1\<rparr>
         else s)"

text \<open>
  \<open>triggerTransitionEnd(this._element)\<close> dispatches an event whose target is the carousel; the listeners of
  \<open>executeAfterTransition\<close> sit on the items and the event goes to none of them.
\<close>

definition moving :: "carousel \<Rightarrow> bool" where
  "moving s \<longleftrightarrow>
     list_ex (\<lambda>i. ''carousel-item-next'' \<in> item_classes s i \<or> ''carousel-item-prev'' \<in> item_classes s i) (page_items s)"

definition carousel_pause :: "bool \<Rightarrow> carousel \<Rightarrow> carousel" where
  "carousel_pause event s =
     (let s = (if event then s else s\<lparr>isPaused := True\<rparr>);
          s = (if moving s then carousel_cycle True s else s)
      in clear_interval s)"

section \<open>Sliding\<close>

definition getItemIndex :: "nat option \<Rightarrow> carousel \<Rightarrow> int \<times> carousel" where
  "getItemIndex e s =
     (let s = s\<lparr>items := (case e of None \<Rightarrow> [] | Some _ \<Rightarrow> page_items s)\<rparr> in (indexOf (items s) e, s))"

definition getItemByOrder :: "order \<Rightarrow> nat option \<Rightarrow> carousel \<Rightarrow> nat option" where
  "getItemByOrder order a s = getNextActiveElement (items s) a (order = ORDER_NEXT) (cfg_wrap s)"

definition directionToOrder :: "bool \<Rightarrow> direction \<Rightarrow> order" where
  "directionToOrder is_rtl d =
     (if is_rtl then (if d = DIRECTION_LEFT then ORDER_PREV else ORDER_NEXT)
      else if d = DIRECTION_LEFT then ORDER_NEXT else ORDER_PREV)"

definition orderToDirection :: "bool \<Rightarrow> order \<Rightarrow> direction" where
  "orderToDirection is_rtl r =
     (if is_rtl then (if r = ORDER_PREV then DIRECTION_LEFT else DIRECTION_RIGHT)
      else if r = ORDER_PREV then DIRECTION_RIGHT else DIRECTION_LEFT)"

lemma direction_order [simp]: "directionToOrder b (orderToDirection b r) = r"
  by (cases b; cases r; simp add: directionToOrder_def orderToDirection_def)

definition triggerSlideEvent :: "slide_listener \<Rightarrow> nat option \<Rightarrow> carousel \<Rightarrow> bool \<times> carousel" where
  "triggerSlideEvent listener related s =
     (let (target, s) = getItemIndex related s; (from, s) = getItemIndex (active_item s) s
      in (listener from target, s))"

text \<open>The first indicator that passes a test.\<close>

definition first_indicator :: "(indicator \<Rightarrow> bool) \<Rightarrow> indicator list \<Rightarrow> nat option" where
  "first_indicator p ds = List.find (\<lambda>k. p (ds ! k)) [0..<length ds]"

text \<open>
  \<open>classList\<close> of a missing active indicator throws. The loop asks for the number of the item at each
  indicator, which leaves the list of items as the last call made it.
\<close>

definition setActiveIndicator :: "nat \<Rightarrow> carousel \<Rightarrow> carousel \<times> bool" where
  "setActiveIndicator e s =
     (case indicators s of
        None \<Rightarrow> (s, True)
      | Some ds \<Rightarrow>
          (case first_indicator lit_up ds of
             None \<Rightarrow> (s, False)
           | Some k \<Rightarrow>
               let ds = ds[k := (ds ! k)\<lparr>lit_up := False, aria_current := False\<rparr>];
                   (i, s') = getItemIndex (Some e) s;
                   s = (if list_ex is_target ds then s' else s)
               in case first_indicator (\<lambda>d. is_target d \<and> slide_to d = Some i) ds of
                    None \<Rightarrow> (s\<lparr>indicators := Some ds\<rparr>, True)
                  | Some j \<Rightarrow> (s\<lparr>indicators := Some (ds[j := (ds ! j)\<lparr>lit_up := True, aria_current := True\<rparr>])\<rparr>, True)))"

definition directionalClassName :: "order \<Rightarrow> string" where
  "directionalClassName order = (if order = ORDER_NEXT then ''carousel-item-start'' else ''carousel-item-end'')"

definition orderClassName :: "order \<Rightarrow> string" where
  "orderClassName order = (if order = ORDER_NEXT then ''carousel-item-next'' else ''carousel-item-prev'')"

definition begin_transition :: "order \<Rightarrow> nat \<Rightarrow> nat \<Rightarrow> carousel \<Rightarrow> carousel" where
  "begin_transition order a n s =
     (let s = add_classes n [orderClassName order] s;
          s = add_classes a [directionalClassName order] s;
          s = add_classes n [directionalClassName order] s
      in s\<lparr>transitions := transitions s @ [(a, n, order)]\<rparr>)"

definition completeCallBack :: "transition \<Rightarrow> carousel \<Rightarrow> carousel" where
  "completeCallBack t s =
     (let (a, n, order) = t;
          s = remove_classes n [directionalClassName order, orderClassName order] s;
          s = add_classes n [''active''] s;
          s = remove_classes a [''active'', orderClassName order, directionalClassName order] s
      in s\<lparr>isSliding := False, slid_timers := slid_timers s + 1\<rparr>)"

text \<open>The last part of \<open>_slide\<close>, once \<open>slide\<close> was not prevented; the result says whether it returned.\<close>

definition start_slide :: "(carousel \<Rightarrow> carousel) \<Rightarrow> order \<Rightarrow> nat \<Rightarrow> nat \<Rightarrow> bool \<Rightarrow> carousel \<Rightarrow> carousel \<times> bool" where
  "start_slide slid order a n isCycling s =
     (let s = s\<lparr>isSliding := True\<rparr>;
          s = (if isCycling then carousel_pause False s else s);
          (s, returned) = setActiveIndicator n s
      in if \<not> returned then (s, False)
         else
           let s = s\<lparr>activeElement := Some n\<rparr>;
               s = (if animated s then begin_transition order a n s
                    else
                      let s = remove_classes a [''active''] s;
                          s = add_classes n [''active''] s
                      in slid (s\<lparr>isSliding := False\<rparr>))
           in (if isCycling then carousel_cycle False s else s, True))"

text \<open>
  \<open>_slide\<close>, with the dispatch of \<open>slid\<close> for a carousel without animation as an argument. A direction has
  been turned into an order.
\<close>

definition slide :: "(carousel \<Rightarrow> carousel) \<Rightarrow> slide_listener \<Rightarrow> order \<Rightarrow> nat option \<Rightarrow> carousel \<Rightarrow> carousel \<times> bool" where
  "slide slid listener order element s =
     (let a = active_item s;
          (_, s) = getItemIndex a s;
          n = (case element of Some i \<Rightarrow> Some i | None \<Rightarrow> getItemByOrder order a s);
          (_, s) = getItemIndex n s;
          isCycling = (interval s \<noteq> None)
      in if (case n of Some i \<Rightarrow> active s i | None \<Rightarrow> False) then (s\<lparr>isSliding := False\<rparr>, True)
         else if isSliding s then (s, True)
         else
           let (prevented, s) = triggerSlideEvent listener n s in
           if prevented then (s, True)
           else case (a, n) of
               (Some a, Some n) \<Rightarrow> start_slide slid order a n isCycling s
             | _ \<Rightarrow> (s, True))"

text \<open>\<open>to\<close>: while a transition is under way, the call is repeated by a listener of \<open>slid\<close>.\<close>

definition to_item :: "(carousel \<Rightarrow> carousel) \<Rightarrow> slide_listener \<Rightarrow> int \<Rightarrow> carousel \<Rightarrow> carousel \<times> bool" where
  "to_item slid listener index s =
     (let s = s\<lparr>activeElement := active_item s\<rparr>;
          (activeIndex, s) = getItemIndex (activeElement s) s
      in if index > int (length (items s)) - 1 \<or> index < 0 then (s, True)
         else if isSliding s then
           (s\<lparr>deferred_to := deferred_to s @ [(next_listener s, index)], next_listener := next_listener s + 1\<rparr>, True)
         else if activeIndex = index then (carousel_cycle False (carousel_pause False s), True)
         else slide slid listener (if index > activeIndex then ORDER_NEXT else ORDER_PREV)
                (at_index (items s) index) s)"

text \<open>
  Dispatching \<open>slid\<close>: the listeners that were registered when the dispatch began, without the ones removed
  meanwhile; each removes itself before it runs, and an exception in one ends only that one. In a carousel
  without animation a listener dispatches \<open>slid\<close> again; a dispatch below another one has a listener less
  to call, so the number of listeners bounds the nesting (\<open>fuel\<close>).
\<close>

fun slid_event :: "nat \<Rightarrow> slide_listener \<Rightarrow> carousel \<Rightarrow> carousel" where
  "slid_event 0 listener s = s"
| "slid_event (Suc fuel) listener s =
     fold (\<lambda>(l, index) s.
         if (l, index) \<in> set (deferred_to s)
         then fst (to_item (slid_event fuel listener) listener index (s\<lparr>deferred_to := remove1 (l, index) (deferred_to s)\<rparr>))
         else s)
       (deferred_to s) s"

definition triggerSlid :: "slide_listener \<Rightarrow> carousel \<Rightarrow> carousel" where
  "triggerSlid listener s = slid_event (Suc (length (deferred_to s))) listener s"

definition carousel_slide :: "slide_listener \<Rightarrow> order \<Rightarrow> carousel \<Rightarrow> carousel \<times> bool" where
  "carousel_slide listener order s = slide (triggerSlid listener) listener order None s"

definition carousel_to :: "slide_listener \<Rightarrow> int \<Rightarrow> carousel \<Rightarrow> carousel \<times> bool" where
  "carousel_to listener index s = to_item (triggerSlid listener) listener index s"

section \<open>Listeners\<close>

definition nextWhenVisible :: "slide_listener \<Rightarrow> bool \<Rightarrow> carousel \<Rightarrow> carousel" where
  "nextWhenVisible listener visible s = (if visible then fst (carousel_slide listener ORDER_NEXT s) else s)"

definition keydown :: "slide_listener \<Rightarrow> bool \<Rightarrow> string \<Rightarrow> carousel \<Rightarrow> carousel" where
  "keydown listener in_text key s =
     (if in_text then s
      else if key = ''ArrowLeft'' then fst (carousel_slide listener (directionToOrder (rtl s) DIRECTION_RIGHT) s)
      else if key = ''ArrowRight'' then fst (carousel_slide listener (directionToOrder (rtl s) DIRECTION_LEFT) s)
      else s)"

definition handleSwipe :: "slide_listener \<Rightarrow> carousel \<Rightarrow> carousel \<times> bool" where
  "handleSwipe listener s =
     (let d = \<bar>touchDeltaX s\<bar>; forward = touchDeltaX s > 0 in
      if d \<le> 40 then (s, True)
      else carousel_slide listener (directionToOrder (rtl s) (if forward then DIRECTION_RIGHT else DIRECTION_LEFT))
             (s\<lparr>touchDeltaX := 0\<rparr>))"

text \<open>The listeners of a touch: \<open>fine\<close> says that the pointer is a pen or a finger, \<open>xs\<close> lists the touches.\<close>

definition touch_start :: "bool \<Rightarrow> int \<Rightarrow> int list \<Rightarrow> carousel \<Rightarrow> carousel" where
  "touch_start fine x xs s =
     (if pointer_events s \<and> fine then s\<lparr>touchStartX := x\<rparr>
      else if \<not> pointer_events s then (case xs of [] \<Rightarrow> s | t # _ \<Rightarrow> s\<lparr>touchStartX := t\<rparr>)
      else s)"

definition touch_move :: "int list \<Rightarrow> carousel \<Rightarrow> carousel" where
  "touch_move xs s =
     (case xs of [] \<Rightarrow> s | x # _ \<Rightarrow> s\<lparr>touchDeltaX := (if length xs > 1 then 0 else x - touchStartX s)\<rparr>)"

definition touch_end :: "slide_listener \<Rightarrow> bool \<Rightarrow> int \<Rightarrow> carousel \<Rightarrow> carousel" where
  "touch_end listener fine x s =
     (let s = (if pointer_events s \<and> fine then s\<lparr>touchDeltaX := x - touchStartX s\<rparr> else s);
          (s, returned) = handleSwipe listener s
      in if \<not> returned \<or> \<not> cfg_hover s then s
         else
           let s = carousel_pause False s;
               s = (case touchTimeout s of None \<Rightarrow> s | Some k \<Rightarrow> s\<lparr>live_timeouts := removeAll k (live_timeouts s)\<rparr>)
           in s\<lparr>touchTimeout := Some (next_timer s), live_timeouts := live_timeouts s @ [next_timer s],
                next_timer := next_timer s + 1\<rparr>)"

text \<open>The end of a transition of an item: every callback that waits for it runs.\<close>

definition transition_end :: "nat \<Rightarrow> carousel \<Rightarrow> carousel" where
  "transition_end i s =
     fold completeCallBack (filter (\<lambda>t. fst t = i) (transitions s))
       (s\<lparr>transitions := filter (\<lambda>t. fst t \<noteq> i) (transitions s)\<rparr>)"

section \<open>Runs\<close>

datatype action =
    CallNext | CallPrev | CallTo int | CallPause | CallCycle
  | Tick nat bool | MouseEnter | MouseLeave | Key bool string
  | TouchStart bool int "int list" | TouchMove "int list" | TouchEnd bool int
  | TransitionEnd nat | SlidTimer | TouchTimer nat

text \<open>A listener is there only when the options given to the constructor asked for it.\<close>

fun act :: "slide_listener \<Rightarrow> action \<Rightarrow> carousel \<Rightarrow> carousel" where
  "act p CallNext s = fst (carousel_slide p ORDER_NEXT s)"
| "act p CallPrev s = fst (carousel_slide p ORDER_PREV s)"
| "act p (CallTo i) s = fst (carousel_to p i s)"
| "act p CallPause s = carousel_pause False s"
| "act p CallCycle s = carousel_cycle False s"
| "act p (Tick k visible) s = (if k \<in> set (live_intervals s) then nextWhenVisible p visible s else s)"
| "act p MouseEnter s = (if cfg_hover s then carousel_pause True s else s)"
| "act p MouseLeave s = (if cfg_hover s then carousel_cycle True s else s)"
| "act p (Key in_text key) s = (if cfg_keyboard s then keydown p in_text key s else s)"
| "act p (TouchStart fine x xs) s = (if cfg_touch s then touch_start fine x xs s else s)"
| "act p (TouchMove xs) s = (if cfg_touch s \<and> \<not> pointer_events s then touch_move xs s else s)"
| "act p (TouchEnd fine x) s = (if cfg_touch s then touch_end p fine x s else s)"
| "act p (TransitionEnd i) s = transition_end i s"
| "act p SlidTimer s = (if slid_timers s = 0 then s else triggerSlid p (s\<lparr>slid_timers := slid_timers s - 1\<rparr>))"
| "act p (TouchTimer k) s =
     (if k \<in> set (live_timeouts s) then carousel_cycle False (s\<lparr>live_timeouts := removeAll k (live_timeouts s)\<rparr>) else s)"

text \<open>What the constructor leaves: nothing is running.\<close>

definition constructed :: "carousel \<Rightarrow> bool" where
  "constructed s \<longleftrightarrow>
     items s = [] \<and> interval s = None \<and> activeElement s = None \<and> \<not> isPaused s \<and> \<not> isSliding s
     \<and> touchTimeout s = None \<and> touchStartX s = 0 \<and> touchDeltaX s = 0 \<and> default_interval s = None
     \<and> live_intervals s = [] \<and> live_timeouts s = [] \<and> transitions s = [] \<and> slid_timers s = 0 \<and> deferred_to s = []"

inductive reachable_carousel :: "carousel \<Rightarrow> carousel \<Rightarrow> bool" for s0 where
  start: "constructed s0 \<Longrightarrow> reachable_carousel s0 s0"
| step: "reachable_carousel s0 s \<Longrightarrow> reachable_carousel s0 (act p a s)"

definition run_carousel :: "action list \<Rightarrow> carousel \<Rightarrow> carousel" where
  "run_carousel acts s = fold (act (\<lambda>_ _. False)) acts s"

end
