(* ===== verification/Bs_Carousel_Proofs.thy ===== *)
theory Bs_Carousel_Proofs
  imports Bs_Carousel
begin

text \<open>
  Invariants of the carousel. The dispatch of \<open>slid\<close> is an interface of \<open>_slide\<close> and \<open>to\<close>: the locale
  \<open>slid_keeps\<close> states what they need of it, and the dispatch of the model, which calls \<open>to\<close>, is an
  interpretation by induction on the nesting.
\<close>

section \<open>What the helpers leave alone\<close>

named_theorems quiet "fields that an operation leaves alone"

lemma updateInterval_quiet [quiet, simp]:
  "item_count (updateInterval s) = item_count s" "item_classes (updateInterval s) = item_classes s"
  "transitions (updateInterval s) = transitions s" "isSliding (updateInterval s) = isSliding s"
  "cfg_wrap (updateInterval s) = cfg_wrap s" "interval (updateInterval s) = interval s"
  "live_intervals (updateInterval s) = live_intervals s" "indicators (updateInterval s) = indicators s"
  "deferred_to (updateInterval s) = deferred_to s" "animated (updateInterval s) = animated s"
  "isPaused (updateInterval s) = isPaused s"
  by (auto simp: updateInterval_def Let_def split: option.split)

lemma clear_interval_quiet [quiet, simp]:
  "item_count (clear_interval s) = item_count s" "item_classes (clear_interval s) = item_classes s"
  "transitions (clear_interval s) = transitions s" "isSliding (clear_interval s) = isSliding s"
  "cfg_wrap (clear_interval s) = cfg_wrap s" "indicators (clear_interval s) = indicators s"
  "deferred_to (clear_interval s) = deferred_to s" "animated (clear_interval s) = animated s"
  "interval (clear_interval s) = None"
  by (simp_all add: clear_interval_def)

lemma cycle_quiet [quiet, simp]:
  "item_count (carousel_cycle e s) = item_count s" "item_classes (carousel_cycle e s) = item_classes s"
  "transitions (carousel_cycle e s) = transitions s" "isSliding (carousel_cycle e s) = isSliding s"
  "cfg_wrap (carousel_cycle e s) = cfg_wrap s" "indicators (carousel_cycle e s) = indicators s"
  "deferred_to (carousel_cycle e s) = deferred_to s" "animated (carousel_cycle e s) = animated s"
  by (simp_all add: carousel_cycle_def Let_def)

lemma pause_quiet [quiet, simp]:
  "item_count (carousel_pause e s) = item_count s" "item_classes (carousel_pause e s) = item_classes s"
  "transitions (carousel_pause e s) = transitions s" "isSliding (carousel_pause e s) = isSliding s"
  "cfg_wrap (carousel_pause e s) = cfg_wrap s" "indicators (carousel_pause e s) = indicators s"
  "deferred_to (carousel_pause e s) = deferred_to s" "animated (carousel_pause e s) = animated s"
  by (simp_all add: carousel_pause_def Let_def)

lemma getItemIndex_snd [simp]:
  "snd (getItemIndex e s) = s\<lparr>items := (case e of None \<Rightarrow> [] | Some _ \<Rightarrow> page_items s)\<rparr>"
  by (simp add: getItemIndex_def Let_def)

lemma active_updates [simp]:
  "active (s\<lparr>items := x\<rparr>) = active s" "active (s\<lparr>transitions := ts\<rparr>) = active s"
  "active (s\<lparr>isSliding := b\<rparr>) = active s" "active (s\<lparr>isSliding := b, slid_timers := k\<rparr>) = active s"
  by (simp_all add: active_def fun_eq_iff)

lemma page_items_cong [simp]:
  "page_items (s\<lparr>items := x\<rparr>) = page_items s" "active_item (s\<lparr>items := x\<rparr>) = active_item s"
  by (simp_all add: page_items_def active_item_def)

text \<open>Marking an indicator changes nothing else.\<close>

lemma indicator_quiet [quiet, simp]:
  "item_count (fst (setActiveIndicator e s)) = item_count s"
  "item_classes (fst (setActiveIndicator e s)) = item_classes s"
  "transitions (fst (setActiveIndicator e s)) = transitions s"
  "isSliding (fst (setActiveIndicator e s)) = isSliding s"
  "cfg_wrap (fst (setActiveIndicator e s)) = cfg_wrap s"
  "deferred_to (fst (setActiveIndicator e s)) = deferred_to s"
  "animated (fst (setActiveIndicator e s)) = animated s"
  "interval (fst (setActiveIndicator e s)) = interval s"
  "live_intervals (fst (setActiveIndicator e s)) = live_intervals s"
  by (simp_all add: setActiveIndicator_def getItemIndex_def Let_def split: option.split)

lemma active_quiet [simp]:
  "active (carousel_pause e s) = active s" "active (fst (setActiveIndicator i s)) = active s"
  "active (s\<lparr>activeElement := x\<rparr>) = active s"
  by (simp_all add: active_def fun_eq_iff)

section \<open>Timers\<close>

text \<open>At most one interval runs: the one the instance knows.\<close>

definition one_interval :: "carousel \<Rightarrow> bool" where
  "one_interval s \<longleftrightarrow> live_intervals s = (case interval s of None \<Rightarrow> [] | Some k \<Rightarrow> [k])"

lemma clear_interval_one: "one_interval s \<Longrightarrow> live_intervals (clear_interval s) = []"
  by (auto simp: one_interval_def clear_interval_def split: option.splits)

lemma cycle_one: "one_interval s \<Longrightarrow> one_interval (carousel_cycle e s)"
  using clear_interval_one [of "s\<lparr>isPaused := False\<rparr>"] clear_interval_one [of s]
  by (auto simp: one_interval_def carousel_cycle_def Let_def)

lemma one_interval_paused [simp]: "one_interval (s\<lparr>isPaused := b\<rparr>) = one_interval s"
  by (simp add: one_interval_def)

lemma pause_one: "one_interval s \<Longrightarrow> one_interval (carousel_pause e s)"
  using clear_interval_one [of "carousel_cycle True s"] clear_interval_one [of s] cycle_one [of s True]
    clear_interval_one [of "carousel_cycle True (s\<lparr>isPaused := True\<rparr>)"]
    clear_interval_one [of "s\<lparr>isPaused := True\<rparr>"] cycle_one [of "s\<lparr>isPaused := True\<rparr>" True]
  by (auto simp: carousel_pause_def Let_def) (auto simp: one_interval_def)

section \<open>One active item\<close>

definition resting :: "nat \<Rightarrow> carousel \<Rightarrow> bool" where
  "resting a s \<longleftrightarrow> a < item_count s \<and> (\<forall>i < item_count s. active s i \<longleftrightarrow> i = a)"

definition one_active :: "carousel \<Rightarrow> bool" where
  "one_active s \<longleftrightarrow> (\<exists>a. resting a s \<and>
     (transitions s = [] \<or>
      (\<exists>n r. transitions s = [(a, n, r)] \<and> n < item_count s \<and> n \<noteq> a \<and> isSliding s)))"

definition sound :: "carousel \<Rightarrow> bool" where
  "sound s \<longleftrightarrow> one_interval s \<and> (cfg_wrap s \<longrightarrow> one_active s)"

lemma active_classes [simp]:
  "active (add_classes i cs s) j \<longleftrightarrow> active s j \<or> j = i \<and> ''active'' \<in> set cs"
  "active (remove_classes i cs s) j \<longleftrightarrow> active s j \<and> \<not> (j = i \<and> ''active'' \<in> set cs)"
  by (auto simp: active_def add_classes_def remove_classes_def)

lemma classes_quiet [quiet, simp]:
  "item_count (add_classes i cs s) = item_count s" "item_count (remove_classes i cs s) = item_count s"
  "transitions (add_classes i cs s) = transitions s" "transitions (remove_classes i cs s) = transitions s"
  "isSliding (add_classes i cs s) = isSliding s" "isSliding (remove_classes i cs s) = isSliding s"
  "cfg_wrap (add_classes i cs s) = cfg_wrap s" "cfg_wrap (remove_classes i cs s) = cfg_wrap s"
  "interval (add_classes i cs s) = interval s" "interval (remove_classes i cs s) = interval s"
  "live_intervals (add_classes i cs s) = live_intervals s" "live_intervals (remove_classes i cs s) = live_intervals s"
  "deferred_to (add_classes i cs s) = deferred_to s" "deferred_to (remove_classes i cs s) = deferred_to s"
  "animated (add_classes i cs s) = animated s" "animated (remove_classes i cs s) = animated s"
  by (simp_all add: add_classes_def remove_classes_def)

lemma moving_classes [simp]: "''active'' \<noteq> directionalClassName r" "''active'' \<noteq> orderClassName r"
  by (simp_all add: directionalClassName_def orderClassName_def)

text \<open>The invariant looks only at the fields it names.\<close>

lemma resting_cong:
  "item_count s = item_count t \<Longrightarrow> (\<And>i. active s i = active t i) \<Longrightarrow> resting a s = resting a t"
  by (simp add: resting_def)

lemma one_active_cong:
  assumes "item_count s = item_count t" and "item_classes s = item_classes t"
    and "transitions s = transitions t" and "isSliding s = isSliding t"
  shows "one_active s = one_active t"
  using assms by (simp add: one_active_def resting_def active_def)

lemma sound_cong:
  assumes "item_count s = item_count t" and "item_classes s = item_classes t"
    and "transitions s = transitions t" and "isSliding s = isSliding t" and "cfg_wrap s = cfg_wrap t"
    and "live_intervals s = live_intervals t" and "interval s = interval t"
  shows "sound s = sound t"
  using one_active_cong [OF assms(1-4)] assms(5-7) by (simp add: sound_def one_interval_def)

lemma sound_updates [simp]:
  "sound (s\<lparr>items := x\<rparr>) = sound s" "sound (s\<lparr>activeElement := e\<rparr>) = sound s"
  "sound (s\<lparr>indicators := ds\<rparr>) = sound s" "sound (s\<lparr>deferred_to := l\<rparr>) = sound s"
  "sound (s\<lparr>deferred_to := l, next_listener := k\<rparr>) = sound s"
  "sound (s\<lparr>touchDeltaX := i\<rparr>) = sound s" "sound (s\<lparr>touchStartX := i\<rparr>) = sound s"
  "sound (s\<lparr>live_timeouts := ts\<rparr>) = sound s" "sound (s\<lparr>slid_timers := k\<rparr>) = sound s"
  "sound (s\<lparr>touchTimeout := tm, live_timeouts := ts, next_timer := k\<rparr>) = sound s"
  by (rule sound_cong; simp)+

lemma sound_cycle: "sound s \<Longrightarrow> sound (carousel_cycle e s)"
  using cycle_one one_active_cong [of "carousel_cycle e s" s] by (simp add: sound_def)

lemma sound_pause: "sound s \<Longrightarrow> sound (carousel_pause e s)"
  using pause_one one_active_cong [of "carousel_pause e s" s] by (simp add: sound_def)

lemma active_item_Some: "active_item s = Some a \<Longrightarrow> a < item_count s \<and> active s a"
  by (auto simp: active_item_def page_items_def find_Some_iff)

lemma active_item_resting: "resting a s \<Longrightarrow> active_item s = Some a"
proof (cases "active_item s")
  case None
  then show "resting a s \<Longrightarrow> ?thesis" by (auto simp: active_item_def page_items_def find_None_iff resting_def)
next
  case (Some b)
  then show "resting a s \<Longrightarrow> ?thesis" using active_item_Some [OF Some] by (auto simp: resting_def)
qed

section \<open>The slide\<close>

text \<open>The item a slide goes to, and the state in which the transition starts.\<close>

definition target_item :: "order \<Rightarrow> nat option \<Rightarrow> carousel \<Rightarrow> nat option" where
  "target_item r el s =
     (case el of Some i \<Rightarrow> Some i
      | None \<Rightarrow> getNextActiveElement (case active_item s of None \<Rightarrow> [] | Some _ \<Rightarrow> page_items s)
                  (active_item s) (r = ORDER_NEXT) (cfg_wrap s))"

definition listing :: "nat option \<Rightarrow> carousel \<Rightarrow> carousel" where
  "listing e s = s\<lparr>items := (case e of None \<Rightarrow> [] | Some _ \<Rightarrow> page_items s)\<rparr>"

lemma getItemIndex_eq: "getItemIndex e s = (indexOf (page_items s) e, listing e s)"
  by (simp add: getItemIndex_def listing_def Let_def split: option.split)

lemma listing_simps [simp]:
  "listing e (listing f s) = listing e s" "active (listing e s) = active s"
  "active_item (listing e s) = active_item s" "page_items (listing e s) = page_items s"
  "isSliding (listing e s) = isSliding s" "interval (listing e s) = interval s"
  "indicators (listing e s) = indicators s" "animated (listing e s) = animated s"
  by (cases e; simp add: listing_def)+

lemma target_item_eq:
  "(case el of Some i \<Rightarrow> Some i | None \<Rightarrow> getItemByOrder r (active_item s) (listing (active_item s) s)) = target_item r el s"
  by (cases "active_item s"; cases el; simp add: target_item_def getItemByOrder_def listing_def)

lemma slide_eq:
  "slide slid p r el s =
     (let n = target_item r el s in
      if (case n of Some i \<Rightarrow> active s i | None \<Rightarrow> False) then ((listing n s)\<lparr>isSliding := False\<rparr>, True)
      else if isSliding s then (listing n s, True)
      else if p (indexOf (page_items s) (active_item s)) (indexOf (page_items s) n) then (listing (active_item s) s, True)
      else case (active_item s, n) of
          (Some a, Some n) \<Rightarrow> start_slide slid r a n (interval s \<noteq> None) (listing (Some a) s)
        | _ \<Rightarrow> (listing (active_item s) s, True))"
  unfolding slide_def getItemIndex_eq triggerSlideEvent_def Let_def prod.case target_item_eq listing_simps
  by (simp split: option.split)

lemma sound_listing [simp]: "sound (listing e s) = sound s"
  by (simp add: listing_def)

lemma target_in_page:
  assumes "target_item r None s = Some n"
  shows "n < item_count s"
proof -
  have "at_index (page_items s) k = Some n \<Longrightarrow> n < item_count s" for k
    by (auto simp: at_index_def page_items_def split: if_splits)
  moreover have "at_index ([]::nat list) k \<noteq> Some n" for k by (simp add: at_index_def)
  ultimately show ?thesis using assms
    by (auto simp: target_item_def getNextActiveElement_def Let_def split: option.splits if_splits)
qed

lemma target_single:
  assumes "cfg_wrap s" and "resting a s" and "target_item r None s = Some a"
  shows "item_count s = 1"
proof -
  let ?n = "item_count s"
  have a: "a < ?n" and act: "active_item s = Some a"
    using assms(2) active_item_resting by (auto simp: resting_def)
  have "target_item r None s = Some (if r = ORDER_NEXT then (if Suc a = ?n then 0 else Suc a)
      else (if a = 0 then ?n - 1 else a - 1))"
    using a next_cyclic [of "[0..<?n]" a] prev_cyclic [of "[0..<?n]" a]
    by (cases r) (auto simp: target_item_def act assms(1) page_items_def)
  then show ?thesis using assms(3) a by (auto split: if_splits)
qed

lemma start_pausing:
  "sound s \<Longrightarrow> (cfg_wrap s \<longrightarrow> transitions s = []) \<Longrightarrow> sound (s\<lparr>isSliding := b\<rparr>)"
  by (auto simp: sound_def one_active_def resting_def active_def one_interval_def)

text \<open>Both ways to change the active item keep the invariant.\<close>

lemma begin_transition_simps [simp]:
  "active (begin_transition r a n s) = active s" "item_count (begin_transition r a n s) = item_count s"
  "transitions (begin_transition r a n s) = transitions s @ [(a, n, r)]"
  "isSliding (begin_transition r a n s) = isSliding s" "cfg_wrap (begin_transition r a n s) = cfg_wrap s"
  "one_interval (begin_transition r a n s) = one_interval s"
  by (simp_all add: begin_transition_def Let_def one_interval_def fun_eq_iff)

lemma swap_simps:
  assumes "t = (add_classes n [''active''] (remove_classes a [''active''] s))\<lparr>isSliding := False\<rparr>"
  shows "active t j \<longleftrightarrow> j = n \<or> active s j \<and> j \<noteq> a" "item_count t = item_count s" "transitions t = transitions s"
    "cfg_wrap t = cfg_wrap s" "one_interval t = one_interval s"
  unfolding assms by (auto simp: one_interval_def)

lemma sound_begin:
  assumes "sound s" and "cfg_wrap s \<longrightarrow> transitions s = []" and "isSliding s" and "active_item s = Some a"
    and "n < item_count s" and "\<not> active s n"
  shows "sound (begin_transition r a n s)"
proof -
  have "resting a s" if "cfg_wrap s"
    using that assms(1,4) active_item_resting by (auto simp: sound_def one_active_def)
  moreover have "n \<noteq> a" using assms(4,6) active_item_Some by blast
  ultimately show ?thesis
    using assms by (auto simp: sound_def one_active_def resting_def)
qed

lemma sound_swap:
  assumes "sound s" and "cfg_wrap s \<longrightarrow> transitions s = []" and "active_item s = Some a"
    and "n < item_count s" and "\<not> active s n"
  shows "sound ((add_classes n [''active''] (remove_classes a [''active''] s))\<lparr>isSliding := False\<rparr>)" (is "sound ?t")
proof -
  have "resting a s" if "cfg_wrap s"
    using that assms(1,3) active_item_resting by (auto simp: sound_def one_active_def)
  moreover have "n \<noteq> a" using assms(3,5) active_item_Some by blast
  ultimately show ?thesis
    using assms swap_simps [OF refl, of n a s]
    by (auto simp: sound_def one_active_def resting_def simp del: active_classes)
qed

text \<open>The end of a transition: at most one is under way, so one callback runs.\<close>

lemma complete_quiet:
  "item_count (completeCallBack t s) = item_count s" "cfg_wrap (completeCallBack t s) = cfg_wrap s"
  "transitions (completeCallBack t s) = transitions s" "one_interval (completeCallBack t s) = one_interval s"
  by (cases t; simp add: completeCallBack_def Let_def one_interval_def)+

lemma complete_active:
  "active (completeCallBack (a, n, r) s) j \<longleftrightarrow> (active s j \<or> j = n) \<and> j \<noteq> a"
  by (auto simp: completeCallBack_def Let_def)

lemma complete_fold:
  "item_count (fold completeCallBack ts s) = item_count s" "cfg_wrap (fold completeCallBack ts s) = cfg_wrap s"
  "transitions (fold completeCallBack ts s) = transitions s" "one_interval (fold completeCallBack ts s) = one_interval s"
  by (induction ts arbitrary: s) (simp_all add: complete_quiet)

lemma sound_transition_end:
  assumes "sound s"
  shows "sound (transition_end i s)"
proof -
  have timers: "one_interval (transition_end i s)"
    using assms by (simp add: transition_end_def complete_fold sound_def) (simp add: one_interval_def)
  have "one_active (transition_end i s)" if w: "cfg_wrap s"
  proof -
    obtain a where rest: "resting a s"
      and tr: "transitions s = [] \<or> (\<exists>n r. transitions s = [(a, n, r)] \<and> n < item_count s \<and> n \<noteq> a \<and> isSliding s)"
      using assms w by (auto simp: sound_def one_active_def)
    show ?thesis
    proof (cases "transitions s")
      case Nil
      then have "transition_end i s = s" by (simp add: transition_end_def)
      then show ?thesis using assms w by (simp add: sound_def)
    next
      case (Cons t ts)
      then obtain n r where t: "transitions s = [(a, n, r)]" "n < item_count s" "n \<noteq> a" "isSliding s"
        using tr by auto
      show ?thesis
      proof (cases "a = i")
        case True
        have "resting n (completeCallBack (a, n, r) (s\<lparr>transitions := []\<rparr>))"
          using rest t by (auto simp: resting_def complete_quiet complete_active)
        then show ?thesis using True t
          by (auto simp: transition_end_def one_active_def complete_quiet)
      next
        case False
        then have "transition_end i s = s" using t by (simp add: transition_end_def)
        then show ?thesis using assms w by (simp add: sound_def)
      qed
    qed
  qed
  then show ?thesis using timers by (simp add: sound_def transition_end_def complete_fold)
qed

section \<open>The interface to the dispatch of slid\<close>

locale slid_keeps =
  fixes slid :: "carousel \<Rightarrow> carousel"
  assumes slid_sound: "sound s \<Longrightarrow> sound (slid s)"
begin

lemma start_slide_sound:
  assumes "sound s" and "\<not> isSliding s" and "active_item s = Some a" and "n < item_count s" and "\<not> active s n"
  shows "sound (fst (start_slide slid r a n c s))"
proof -
  have calm: "cfg_wrap s \<longrightarrow> transitions s = []"
    using assms(1,2) by (auto simp: sound_def one_active_def)
  define t where "t = (if c then carousel_pause False (s\<lparr>isSliding := True\<rparr>) else s\<lparr>isSliding := True\<rparr>)"
  have t: "sound t" "cfg_wrap t \<longrightarrow> transitions t = []" "isSliding t" "item_count t = item_count s" "active t = active s"
    using start_pausing [OF assms(1) calm, of True] calm
    by (cases c; simp add: t_def sound_pause)+
  define u where "u = (fst (setActiveIndicator n t))\<lparr>activeElement := Some n\<rparr>"
  have u: "sound u" "cfg_wrap u \<longrightarrow> transitions u = []" "isSliding u" "item_count u = item_count s" "active u = active s"
    using t sound_cong [of "fst (setActiveIndicator n t)" t] by (simp_all add: u_def)
  have act: "active_item u = Some a"
    using assms(3) u(4,5) by (simp add: active_item_def page_items_def)
  let ?swap = "(add_classes n [''active''] (remove_classes a [''active''] u))\<lparr>isSliding := False\<rparr>"
  have b: "sound (begin_transition r a n u)" and w: "sound (slid ?swap)"
    using sound_begin [OF u(1-3) act] slid_sound [OF sound_swap [OF u(1,2) act]] assms(4,5) u(4,5) by simp_all
  have eq: "fst (start_slide slid r a n c s) =
      (if \<not> snd (setActiveIndicator n t) then fst (setActiveIndicator n t)
       else (let s = (if animated u then begin_transition r a n u else slid ?swap)
             in if c then carousel_cycle False s else s))"
    by (simp add: start_slide_def t_def u_def Let_def split_beta)
  have "sound (fst (setActiveIndicator n t))"
    using t(1) sound_cong [of "fst (setActiveIndicator n t)" t] by simp
  then show ?thesis unfolding eq using b w by (simp add: Let_def sound_cycle)
qed

lemma slide_sound:
  assumes "sound s" and "el = None \<or> (\<exists>i < item_count s. el = Some i) \<and> \<not> isSliding s"
  shows "sound (fst (slide slid p r el s))"
proof -
  let ?n = "target_item r el s"
  have page: "?n = Some i \<Longrightarrow> i < item_count s" for i
    using assms(2) target_in_page [of r s i] by (auto simp: target_item_def)
  have calm: "cfg_wrap s \<longrightarrow> transitions s = []" if n: "?n = Some i" "active s i" for i
  proof
    assume w: "cfg_wrap s"
    then obtain a where a: "resting a s"
        "transitions s = [] \<or> (\<exists>n r. transitions s = [(a, n, r)] \<and> n < item_count s \<and> n \<noteq> a \<and> isSliding s)"
      using assms(1) by (auto simp: sound_def one_active_def)
    show "transitions s = []"
    proof (cases el)
      case None
      have "i = a" using a(1) n page by (auto simp: resting_def)
      then have "item_count s = 1" using target_single [OF w a(1)] n(1) None by simp
      then show ?thesis using a by (auto simp: resting_def)
    next
      case (Some j)
      then show ?thesis using a(2) assms(2) by auto
    qed
  qed
  have stop: "sound ((listing ?n s)\<lparr>isSliding := False\<rparr>)" if "?n = Some i" "active s i" for i
    using start_pausing [of "listing ?n s" False] assms(1) calm [OF that] by (simp add: listing_def)
  have go: "sound (fst (start_slide slid r a i c (listing (Some a) s)))"
    if "active_item s = Some a" "?n = Some i" "\<not> active s i" "\<not> isSliding s" for a i c
    using that page assms(1) by (intro start_slide_sound) (simp_all add: listing_def)
  show ?thesis
    using assms(1) stop go by (simp add: slide_eq Let_def split: option.split)
qed

lemma to_sound:
  assumes "sound s"
  shows "sound (fst (to_item slid p index s))"
proof -
  let ?a = "active_item s"
  let ?s = "(listing ?a s)\<lparr>activeElement := ?a\<rparr>"
  have eq: "getItemIndex ?a (s\<lparr>activeElement := ?a\<rparr>) = (indexOf (page_items s) ?a, ?s)"
    by (simp add: getItemIndex_def listing_def page_items_def split: option.split)
  have s: "sound ?s" "isSliding ?s = isSliding s" "item_count ?s = item_count s" using assms by (simp_all add: listing_def)
  have items: "at_index (items ?s) index = Some i \<Longrightarrow> i < item_count s" for i
    by (auto simp: at_index_def listing_def page_items_def split: option.splits if_splits)
  have target: "at_index (items ?s) index \<noteq> None"
    if "\<not> (index > int (length (items ?s)) - 1 \<or> index < 0)"
    using that by (simp add: at_index_def)
  have go: "sound (fst (slide slid p r (at_index (items ?s) index) ?s))"
    if "\<not> isSliding s" for r
    using slide_sound [OF s(1), of "at_index (items ?s) index"] items that s(2,3)
    by (cases "at_index (items ?s) index") auto
  show ?thesis
    using s go by (simp add: to_item_def Let_def eq sound_cycle sound_pause)
qed

end

text \<open>The dispatch of the model meets the interface.\<close>

lemma slid_event_sound: "sound s \<Longrightarrow> sound (slid_event k p s)"
proof (induction k arbitrary: s)
  case (Suc k)
  have "slid_keeps (slid_event k p)" by unfold_locales (rule Suc.IH)
  note step = slid_keeps.to_sound [OF this]
  show ?case
    unfolding slid_event.simps
    by (rule fold_invariant [where P = sound and Q = "\<lambda>_. True"]) (use Suc.prems in \<open>auto intro!: step\<close>)
qed simp

interpretation dispatch: slid_keeps "triggerSlid p" for p
  by unfold_locales (simp add: triggerSlid_def slid_event_sound del: slid_event.simps)

lemma carousel_slide_sound: "sound s \<Longrightarrow> sound (fst (carousel_slide p r s))"
  by (simp add: carousel_slide_def dispatch.slide_sound)

lemma act_sound:
  assumes "sound s"
  shows "sound (act p a s)"
proof (cases a)
  case (TouchEnd fine x)
  have swipe: "sound t \<Longrightarrow> sound (fst (handleSwipe p t))" for t
    by (simp add: handleSwipe_def Let_def carousel_slide_sound)
  show ?thesis
    using assms swipe [of s] swipe [of "s\<lparr>touchDeltaX := x - touchStartX s\<rparr>"] TouchEnd
    by (simp add: touch_end_def Let_def split_beta sound_pause split: option.split)
qed (use assms in \<open>auto simp: carousel_slide_sound carousel_to_def dispatch.to_sound sound_pause sound_cycle
    nextWhenVisible_def keydown_def touch_start_def touch_move_def sound_transition_end
    dispatch.slid_sound split: list.split\<close>)

lemma reachable_sound:
  assumes "reachable_carousel s0 s" and "\<exists>a. resting a s0"
  shows "sound s"
  using assms
proof (induction rule: reachable_carousel.induct)
  case start
  then show ?case
    by (auto simp: constructed_def sound_def one_interval_def one_active_def)
next
  case (step s p a)
  then show ?case by (simp add: act_sound)
qed

section \<open>A carousel marked as sliding\<close>

text \<open>
  While a carousel that goes round is marked as sliding, only the end of a transition it waits for takes the
  mark back; if it waits for none, nothing does.
\<close>

definition busy :: "transition list \<Rightarrow> nat \<Rightarrow> (nat \<Rightarrow> string set) \<Rightarrow> carousel \<Rightarrow> bool" where
  "busy ts k look s \<longleftrightarrow> isSliding s \<and> transitions s = ts \<and> cfg_wrap s \<and> 1 < k \<and> item_count s = k
     \<and> item_classes s = look \<and> (\<exists>a. resting a s)"

lemma busy_fields:
  assumes "isSliding s = isSliding t" and "transitions s = transitions t" and "cfg_wrap s = cfg_wrap t"
    and "item_count s = item_count t" and "item_classes s = item_classes t"
  shows "busy ts k look s = busy ts k look t"
  using assms by (simp add: busy_def resting_def active_def)

lemma busy_resting: "busy ts k look s \<Longrightarrow> busy us k look t \<Longrightarrow> resting a s = resting a t"
  by (simp add: busy_def resting_def active_def)

lemma busy_updates [simp]:
  "busy ts k look (s\<lparr>items := x\<rparr>) = busy ts k look s" "busy ts k look (s\<lparr>activeElement := e\<rparr>) = busy ts k look s"
  "busy ts k look (s\<lparr>deferred_to := l\<rparr>) = busy ts k look s"
  "busy ts k look (s\<lparr>deferred_to := l, next_listener := j\<rparr>) = busy ts k look s"
  "busy ts k look (s\<lparr>touchDeltaX := i\<rparr>) = busy ts k look s" "busy ts k look (s\<lparr>touchStartX := i\<rparr>) = busy ts k look s"
  "busy ts k look (s\<lparr>live_timeouts := tms\<rparr>) = busy ts k look s" "busy ts k look (s\<lparr>slid_timers := j\<rparr>) = busy ts k look s"
  "busy ts k look (s\<lparr>touchTimeout := tm, live_timeouts := tms, next_timer := j\<rparr>) = busy ts k look s"
  "busy ts k look (listing e s) = busy ts k look s"
  "busy ts k look (carousel_cycle b s) = busy ts k look s" "busy ts k look (carousel_pause b s) = busy ts k look s"
  by (rule busy_fields; simp add: listing_def)+

lemma busy_slide:
  assumes "busy ts k look s"
  shows "busy ts k look (fst (slide slid p r None s))"
proof -
  obtain a where a: "resting a s" and w: "cfg_wrap s" "item_count s \<noteq> 1" "isSliding s"
    using assms by (auto simp: busy_def)
  have "\<not> active s i" if "target_item r None s = Some i" for i
    using a target_single [OF w(1) a, of r] target_in_page [OF that] that w(2) by (auto simp: resting_def)
  then show ?thesis using assms w(3)
    by (auto simp: slide_eq Let_def split: option.split)
qed

lemma busy_to:
  assumes "busy ts k look s"
  shows "busy ts k look (fst (to_item slid p index s))"
proof -
  have "isSliding s" using assms by (simp add: busy_def)
  then show ?thesis using assms by (simp add: to_item_def Let_def getItemIndex_def)
qed

lemma busy_slid:
  assumes "busy ts k look s"
  shows "busy ts k look (slid_event fuel p s)"
proof (cases fuel)
  case (Suc j)
  show ?thesis
    unfolding Suc slid_event.simps
    by (rule fold_invariant [where P = "busy ts k look" and Q = "\<lambda>_. True"]) (use assms in \<open>auto intro!: busy_to\<close>)
qed (use assms in simp)

lemma busy_act:
  assumes "busy ts k look s" and "\<And>i. a = TransitionEnd i \<Longrightarrow> i \<notin> fst ` set ts"
  shows "busy ts k look (act p a s)"
proof (cases a)
  case (TouchEnd fine x)
  have swipe: "busy ts k look t \<Longrightarrow> busy ts k look (fst (handleSwipe p t))" for t
    by (simp add: handleSwipe_def carousel_slide_def Let_def busy_slide)
  show ?thesis
    using assms swipe [of s] swipe [of "s\<lparr>touchDeltaX := x - touchStartX s\<rparr>"] TouchEnd
    by (simp add: touch_end_def Let_def split_beta split: option.split)
next
  case (TransitionEnd i)
  have "filter (\<lambda>t. fst t = i) ts = []" "filter (\<lambda>t. fst t \<noteq> i) ts = ts"
    using assms(2) [OF TransitionEnd] by (force simp: filter_empty_conv filter_id_conv)+
  moreover have "s\<lparr>transitions := transitions s\<rparr> = s" by simp
  ultimately have "transition_end i s = s" using assms(1) by (simp add: transition_end_def busy_def)
  then show ?thesis using assms(1) TransitionEnd by simp
qed (use assms(1) in \<open>auto simp: carousel_slide_def carousel_to_def busy_slide busy_to triggerSlid_def busy_slid
    nextWhenVisible_def keydown_def touch_start_def touch_move_def
    simp del: slid_event.simps split: list.split\<close>)

type_synonym schedule = "(slide_listener \<times> action) list"

definition play :: "schedule \<Rightarrow> carousel \<Rightarrow> carousel" where
  "play acts s = fold (\<lambda>(p, a). act p a) acts s"

lemma busy_play:
  assumes "busy ts k look s" and "\<And>p i. (p, TransitionEnd i) \<in> set acts \<Longrightarrow> i \<notin> fst ` set ts"
  shows "busy ts k look (play acts s)"
  using assms
proof (induction acts arbitrary: s)
  case (Cons x acts)
  obtain p a where x: "x = (p, a)" by fastforce
  have "busy ts k look (act p a s)" using Cons.prems x by (intro busy_act) auto
  then have "busy ts k look (play acts (act p a s))"
    using Cons.prems(2) by (intro Cons.IH) auto
  then show ?case by (simp add: play_def x)
qed (simp add: play_def)

section \<open>A slide to the neighbour\<close>

lemma target_next:
  assumes "cfg_wrap s" and "resting a s"
  shows "target_item ORDER_NEXT None s = Some (if Suc a = item_count s then 0 else Suc a)"
proof -
  have a: "a < item_count s" and act: "active_item s = Some a"
    using assms(2) active_item_resting by (auto simp: resting_def)
  then show ?thesis
    using next_cyclic [of "[0..<item_count s]" a] assms(1)
    by (auto simp: target_item_def page_items_def)
qed

lemma next_starts:
  assumes "cfg_wrap s" and "resting a s" and "1 < item_count s" and "\<not> isSliding s" and "n = (if Suc a = item_count s then 0 else Suc a)"
    and "\<not> p (int a) (int n)"
  shows "slide slid p ORDER_NEXT None s = start_slide slid ORDER_NEXT a n (interval s \<noteq> None) (listing (Some a) s)"
proof -
  have n: "n < item_count s" "n \<noteq> a" and a: "a < item_count s" "active_item s = Some a"
    using assms(2,3,5) active_item_resting by (auto simp: resting_def)
  moreover have "\<not> active s n" using assms(2) n by (simp add: resting_def)
  ultimately show ?thesis
    using assms(4,6) target_next [OF assms(1,2)] assms(5)
    by (simp add: slide_eq Let_def page_items_def)
qed

text \<open>A slide with animation and without indicators begins one transition.\<close>

definition begun :: "nat \<Rightarrow> nat \<Rightarrow> order \<Rightarrow> carousel \<Rightarrow> carousel \<Rightarrow> bool" where
  "begun a n r s t \<longleftrightarrow> transitions t = transitions s @ [(a, n, r)] \<and> active t = active s \<and> isSliding t
     \<and> item_count t = item_count s \<and> cfg_wrap t = cfg_wrap s \<and> indicators t = None \<and> animated t"

lemma begun_active: "begun a n r s t \<Longrightarrow> active_item t = active_item s \<and> resting b t = resting b s"
  by (simp add: begun_def active_item_def page_items_def resting_def)

lemma begun_cycle [simp]: "begun a n r s (carousel_cycle e t) = begun a n r s t"
proof -
  have "active (carousel_cycle e t) = active t" by (simp add: active_def fun_eq_iff)
  then show ?thesis by (simp add: begun_def)
qed

lemma begin_transition_kept [simp]:
  "indicators (begin_transition r a n s) = indicators s" "animated (begin_transition r a n s) = animated s"
  by (simp_all add: begin_transition_def add_classes_def Let_def)

lemma start_begins:
  assumes "indicators s = None" and "animated s"
  shows "begun a n r s (fst (start_slide slid r a n c (listing e s)))"
proof -
  define t where "t = (if c then carousel_pause False ((listing e s)\<lparr>isSliding := True\<rparr>)
    else (listing e s)\<lparr>isSliding := True\<rparr>)"
  have t: "begun a n r s (begin_transition r a n (t\<lparr>activeElement := Some n\<rparr>))" "indicators t = None" "animated t"
    using assms by (auto simp: begun_def t_def listing_def)
  have "fst (start_slide slid r a n c (listing e s)) =
      (let u = begin_transition r a n (t\<lparr>activeElement := Some n\<rparr>) in if c then carousel_cycle False u else u)"
  proof -
    have "setActiveIndicator n t = (t, True)" by (simp add: setActiveIndicator_def t(2))
    then show ?thesis
      unfolding start_slide_def Let_def t_def [symmetric] by (simp add: t(3))
  qed
  then show ?thesis using t(1) by (cases c) (simp_all add: Let_def)
qed

lemma next_begins:
  assumes "cfg_wrap s" and "resting a s" and "1 < item_count s" and "\<not> isSliding s" and "transitions s = []"
    and "indicators s = None" and "animated s" and "n = (if Suc a = item_count s then 0 else Suc a)"
    and "\<not> p (int a) (int n)"
  shows "\<exists>look. busy [(a, n, ORDER_NEXT)] (item_count s) look (act p CallNext s) \<and> resting a (act p CallNext s)"
proof -
  have "begun a n ORDER_NEXT s (act p CallNext s)"
    using next_starts [where p = p, OF assms(1-4,8,9)] start_begins [OF assms(6,7)]
    by (simp add: carousel_slide_def)
  then show ?thesis
    using assms(1,2,3,5) begun_active [of a n ORDER_NEXT s "act p CallNext s" a]
    by (auto simp: busy_def begun_def)
qed

lemma busy_end:
  assumes "busy [(a, n, r)] k look s" and "resting a s" and "n < item_count s" and "n \<noteq> a"
  shows "resting n (transition_end a s) \<and> \<not> isSliding (transition_end a s)"
proof -
  have "transition_end a s = completeCallBack (a, n, r) (s\<lparr>transitions := []\<rparr>)"
    using assms(1) by (simp add: transition_end_def busy_def)
  then show ?thesis using assms
    by (auto simp: resting_def complete_quiet complete_active) (auto simp: completeCallBack_def Let_def)
qed

section \<open>Without wrap\<close>

text \<open>Sliding back from the first item: the target is the active item itself.\<close>

lemma first_item_prev:
  assumes "\<not> cfg_wrap s" and "resting 0 s"
  shows "act p CallPrev s = (listing (Some 0) s)\<lparr>isSliding := False\<rparr>"
proof -
  have s: "0 < item_count s" "active_item s = Some 0" "active s 0"
    using assms(2) active_item_resting by (auto simp: resting_def)
  moreover have "target_item ORDER_PREV None s = Some 0"
    using s neighbour_bounded(2) [of "[0..<item_count s]" 0] assms(1)
    by (simp add: target_item_def page_items_def)
  ultimately show ?thesis by (simp add: carousel_slide_def slide_eq)
qed

lemma first_item_next:
  assumes "\<not> cfg_wrap s" and "resting 0 s" and "1 < item_count s" and "\<not> isSliding s" and "\<not> p 0 1"
    and "indicators s = None" and "animated s"
  shows "begun 0 1 ORDER_NEXT s (act p CallNext s)"
proof -
  have s: "active_item s = Some 0" "\<not> active s 1"
    using assms(2,3) active_item_resting by (auto simp: resting_def)
  moreover have "target_item ORDER_NEXT None s = Some 1"
    using s assms(1,3) neighbour_bounded(1) [of "[0..<item_count s]" 0]
    by (simp add: target_item_def page_items_def)
  ultimately show ?thesis
    using assms(3-5) start_begins [OF assms(6,7)]
    by (simp add: carousel_slide_def slide_eq page_items_def)
qed

lemma first_item_to:
  assumes "resting 0 s" and "0 < i" and "i < item_count s" and "\<not> isSliding s" and "\<not> p 0 (int i)"
    and "indicators s = None" and "animated s"
  shows "begun 0 i ORDER_NEXT s (act p (CallTo (int i)) s)"
proof -
  have s: "active_item s = Some 0" "\<not> active s i"
    using assms(1-3) active_item_resting by (auto simp: resting_def)
  let ?s = "s\<lparr>activeElement := Some 0\<rparr>"
  have "act p (CallTo (int i)) s = fst (slide (triggerSlid p) p ORDER_NEXT (Some i) (listing (Some 0) ?s))"
    using s assms(2-4)
    by (simp add: carousel_to_def to_item_def getItemIndex_eq Let_def at_index_def listing_def page_items_def)
  also have "\<dots> = fst (start_slide (triggerSlid p) ORDER_NEXT 0 i (interval s \<noteq> None) (listing (Some 0) ?s))"
    using s assms(3-5)
    by (simp add: slide_eq target_item_def Let_def) (simp add: page_items_def active_item_def)
  finally show ?thesis
    using start_begins [of ?s 0 i ORDER_NEXT "triggerSlid p" "interval s \<noteq> None" "Some 0"] assms(6,7)
    by (simp add: begun_def)
qed

end
