(* ===== verification/Bs_Sanitizer.thy ===== *)
theory Bs_Sanitizer
  imports Js_Regex_Syntax
begin

text \<open>
  The sanitizer of \<open>bootstrap.js\<close>: which attributes an element may keep, and the loop over the elements of a
  parsed document that drops the elements and attributes that are not allowed. Parsing and printing of HTML
  are the browser's and are parameters.
\<close>

section \<open>Allowed attributes\<close>

text \<open>An entry of an allow list: a name or a regular expression.\<close>

datatype allowed = Name string | Pattern rx

type_synonym allow_list = "(string \<times> allowed list) list"

definition uriAttrs :: "string list" where
  "uriAttrs = [''background'', ''cite'', ''href'', ''itemtype'', ''longdesc'', ''poster'', ''src'', ''xlink:href'']"

definition ARIA_ATTRIBUTE_PATTERN :: rx where
  "ARIA_ATTRIBUTE_PATTERN = icase (re ''^aria-[%w-]*$'')"

definition SAFE_URL_PATTERN :: rx where
  "SAFE_URL_PATTERN = icase (re ''^(?:(?:https?|mailto|ftp|tel|file):|[^#&/:?]*(?:[#/?]|$))'')"

definition DATA_URL_PATTERN :: rx where
  "DATA_URL_PATTERN = icase (re (''^data:(?:image%/(?:bmp|gif|jpeg|jpg|png|tiff|webp)|video%/(?:mpeg|mp4|ogg|webm)'' @
     ''|audio%/(?:mp3|oga|ogg|opus));base64,[%d+/a-z]+=*$''))"

definition allowedAttribute :: "string \<times> string \<Rightarrow> allowed list \<Rightarrow> bool" where
  "allowedAttribute attr list =
     (let attrName = to_lower (fst attr) in
      if list_ex (\<lambda>a. case a of Name n \<Rightarrow> n = attrName | Pattern _ \<Rightarrow> False) list then
        (if attrName \<in> set uriAttrs
         then regex_test SAFE_URL_PATTERN (snd attr) \<or> regex_test DATA_URL_PATTERN (snd attr)
         else True)
      else list_ex (\<lambda>a. case a of Pattern r \<Rightarrow> regex_test r attrName | Name _ \<Rightarrow> False) list)"

definition DefaultAllowlist :: allow_list where
  "DefaultAllowlist =
     [(''*'', [Name ''class'', Name ''dir'', Name ''id'', Name ''lang'', Name ''role'', Pattern ARIA_ATTRIBUTE_PATTERN]),
      (''a'', [Name ''target'', Name ''href'', Name ''title'', Name ''rel'']),
      (''area'', []), (''b'', []), (''br'', []), (''col'', []), (''code'', []), (''div'', []), (''em'', []), (''hr'', []),
      (''h1'', []), (''h2'', []), (''h3'', []), (''h4'', []), (''h5'', []), (''h6'', []), (''i'', []),
      (''img'', [Name ''src'', Name ''srcset'', Name ''alt'', Name ''title'', Name ''width'', Name ''height'']),
      (''li'', []), (''ol'', []), (''p'', []), (''pre'', []), (''s'', []), (''small'', []), (''span'', []), (''sub'', []),
      (''sup'', []), (''strong'', []), (''u'', []), (''ul'', [])]"

section \<open>The document\<close>

text \<open>A node of the parsed document; an element has an identity, its name and its attributes in order.\<close>

datatype dom = El nat string "(string \<times> string) list" "dom list" | Txt string

text \<open>\<open>querySelectorAll('*')\<close>: identity, name and attributes of the elements in the order of the document.\<close>

fun elements_of :: "dom list \<Rightarrow> (nat \<times> string \<times> (string \<times> string) list) list" where
  "elements_of [] = []"
| "elements_of (Txt s # ts) = elements_of ts"
| "elements_of (El i n as cs # ts) = (i, n, as) # elements_of cs @ elements_of ts"

text \<open>\<open>el.remove()\<close>; an element that is no longer in the document leaves it as it is.\<close>

fun remove_element :: "nat \<Rightarrow> dom list \<Rightarrow> dom list" where
  "remove_element i [] = []"
| "remove_element i (Txt s # ts) = Txt s # remove_element i ts"
| "remove_element i (El j n as cs # ts) =
     (if i = j then ts else El j n as (remove_element i cs) # remove_element i ts)"

text \<open>\<open>el.removeAttribute(name)\<close> takes the first attribute of that name.\<close>

fun remove_first :: "string \<Rightarrow> (string \<times> string) list \<Rightarrow> (string \<times> string) list" where
  "remove_first k [] = []"
| "remove_first k (a # as) = (if fst a = k then as else a # remove_first k as)"

fun remove_attribute :: "nat \<Rightarrow> string \<Rightarrow> dom list \<Rightarrow> dom list" where
  "remove_attribute i k [] = []"
| "remove_attribute i k (Txt s # ts) = Txt s # remove_attribute i k ts"
| "remove_attribute i k (El j n as cs # ts) =
     (if i = j then El j n (remove_first k as) cs # ts
      else El j n as (remove_attribute i k cs) # remove_attribute i k ts)"

text \<open>\<open>[].concat(allowList['*'] || [], allowList[elName] || [])\<close>.\<close>

definition entries_for :: "allow_list \<Rightarrow> string \<Rightarrow> allowed list" where
  "entries_for al n =
     (case map_of al ''*'' of None \<Rightarrow> [] | Some as \<Rightarrow> as) @ (case map_of al n of None \<Rightarrow> [] | Some as \<Rightarrow> as)"

definition sanitize_element :: "allow_list \<Rightarrow> nat \<times> string \<times> (string \<times> string) list \<Rightarrow> dom list \<Rightarrow> dom list" where
  "sanitize_element al el doc =
     (let (i, n, attributeList) = el; elName = to_lower n in
      if elName \<notin> fst ` set al then remove_element i doc
      else
        let allowedAttributes = entries_for al elName in
        fold (\<lambda>attr doc. if \<not> allowedAttribute attr allowedAttributes then remove_attribute i (fst attr) doc else doc)
          attributeList doc)"

definition sanitize_document :: "allow_list \<Rightarrow> dom list \<Rightarrow> dom list" where
  "sanitize_document al doc = fold (sanitize_element al) (elements_of doc) doc"

definition sanitizeHtml ::
  "(string \<Rightarrow> dom list) \<Rightarrow> (dom list \<Rightarrow> string) \<Rightarrow> string \<Rightarrow> allow_list \<Rightarrow> (string \<Rightarrow> string) option \<Rightarrow> string" where
  "sanitizeHtml parse print unsafeHtml al sanitizeFn =
     (if unsafeHtml = [] then unsafeHtml
      else case sanitizeFn of
          Some f \<Rightarrow> f unsafeHtml
        | None \<Rightarrow> print (sanitize_document al (parse unsafeHtml)))"

section \<open>The document as a filter\<close>

text \<open>What the loop computes: one pass over the tree.\<close>

fun filtered :: "allow_list \<Rightarrow> dom list \<Rightarrow> dom list" where
  "filtered al [] = []"
| "filtered al (Txt s # ts) = Txt s # filtered al ts"
| "filtered al (El i n as cs # ts) =
     (if to_lower n \<in> fst ` set al
      then El i n (filter (\<lambda>a. allowedAttribute a (entries_for al (to_lower n))) as) (filtered al cs) # filtered al ts
      else filtered al ts)"

definition ids :: "dom list \<Rightarrow> nat list" where
  "ids doc = map fst (elements_of doc)"

lemma ids_simps [simp]:
  "ids [] = []" "ids (Txt s # ts) = ids ts" "ids (El i n as cs # ts) = i # ids cs @ ids ts"
  by (simp_all add: ids_def)

text \<open>Elements have identities of their own, and attributes of one element have distinct names.\<close>

definition parsed :: "dom list \<Rightarrow> bool" where
  "parsed doc \<longleftrightarrow> distinct (ids doc) \<and> (\<forall>(i, n, as) \<in> set (elements_of doc). distinct (map fst as))"

text \<open>An operation on an element elsewhere leaves a part of the document as it is.\<close>

lemma remove_elsewhere [simp]: "i \<notin> set (ids ts) \<Longrightarrow> remove_element i ts = ts"
  by (induction i ts rule: remove_element.induct) auto

lemma attribute_elsewhere [simp]: "i \<notin> set (ids ts) \<Longrightarrow> remove_attribute i k ts = ts"
  by (induction i k ts rule: remove_attribute.induct) auto

lemma fold_attributes:
  "fold (\<lambda>a doc. if \<not> p a then remove_attribute i (fst a) doc else doc) ds (El i n as cs # ts) =
     El i n (fold (\<lambda>a as. if \<not> p a then remove_first (fst a) as else as) ds as) cs # ts"
  by (induction ds arbitrary: as) simp_all

lemma fold_attributes_elsewhere:
  assumes "i \<noteq> j"
  shows "fold (\<lambda>a doc. if \<not> p a then remove_attribute i (fst a) doc else doc) ds (El j n as cs # ts) =
     El j n as (fold (\<lambda>a doc. if \<not> p a then remove_attribute i (fst a) doc else doc) ds cs)
       # fold (\<lambda>a doc. if \<not> p a then remove_attribute i (fst a) doc else doc) ds ts"
  using assms by (induction ds arbitrary: cs ts) simp_all

lemma fold_attributes_text:
  "fold (\<lambda>a doc. if \<not> p a then remove_attribute i (fst a) doc else doc) ds (Txt s # ts) =
     Txt s # fold (\<lambda>a doc. if \<not> p a then remove_attribute i (fst a) doc else doc) ds ts"
  by (induction ds arbitrary: ts) simp_all

lemma remove_first_other: "k \<notin> fst ` set as \<Longrightarrow> remove_first k as = as"
  by (induction k as rule: remove_first.induct) auto

lemma fold_remove_first:
  assumes "distinct (map fst (xs @ ds))" and "\<And>a. a \<in> set xs \<Longrightarrow> p a"
  shows "fold (\<lambda>a as. if \<not> p a then remove_first (fst a) as else as) ds (xs @ ds) = filter p (xs @ ds)"
  using assms
proof (induction ds arbitrary: xs)
  case (Cons d ds)
  show ?case
  proof (cases "p d")
    case True
    then show ?thesis using Cons.IH [of "xs @ [d]"] Cons.prems by auto
  next
    case False
    have "remove_first (fst d) (ys @ d # ds) = ys @ ds" if "fst d \<notin> fst ` set ys" for ys
      using that by (induction ys) auto
    then show ?thesis using Cons.IH [of xs] Cons.prems False by auto
  qed
qed auto

lemma element_elsewhere:
  "fst el \<noteq> j \<Longrightarrow> sanitize_element al el (El j n as cs # ts) =
     El j n as (sanitize_element al el cs) # sanitize_element al el ts"
  by (simp add: sanitize_element_def Let_def split_beta fold_attributes_elsewhere)

lemma element_text: "sanitize_element al el (Txt s # ts) = Txt s # sanitize_element al el ts"
  by (simp add: sanitize_element_def Let_def split_beta fold_attributes_text)

lemma element_absent:
  assumes "fst el \<notin> set (ids ts)"
  shows "sanitize_element al el ts = ts"
proof -
  have quiet: "fold (\<lambda>a doc. if \<not> p a then remove_attribute (fst el) (fst a) doc else doc) ds ts = ts" for p ds
    using assms by (induction ds) auto
  show ?thesis using assms by (simp add: sanitize_element_def Let_def split_beta quiet)
qed

lemma fold_elsewhere:
  assumes "j \<notin> fst ` set els"
  shows "fold (sanitize_element al) els (El j n as cs # ts) =
     El j n as (fold (sanitize_element al) els cs) # fold (sanitize_element al) els ts"
  using assms by (induction els arbitrary: cs ts) (auto simp: element_elsewhere)

lemma fold_absent: "fst ` set els \<inter> set (ids ts) = {} \<Longrightarrow> fold (sanitize_element al) els ts = ts"
  by (induction els) (auto simp: element_absent)

lemma fold_text: "fold (sanitize_element al) els (Txt s # ts) = Txt s # fold (sanitize_element al) els ts"
  by (induction els arbitrary: ts) (simp_all add: element_text)

lemma ids_filtered: "set (ids (filtered al doc)) \<subseteq> set (ids doc)"
  by (induction al doc rule: filtered.induct) auto

lemma set_ids: "set (ids doc) = fst ` set (elements_of doc)"
  by (simp add: ids_def)

lemma sanitize_is_filtered:
  assumes "parsed doc"
  shows "sanitize_document al doc = filtered al doc"
  using assms unfolding sanitize_document_def
proof (induction al doc rule: filtered.induct)
  case (1 al)
  show ?case by simp
next
  case (2 al s ts)
  then show ?case by (simp add: fold_text parsed_def)
next
  case (3 al i n as cs ts)
  note prems = "3.prems"
  have parts: "parsed cs" "parsed ts" and as: "distinct (map fst as)"
    and i: "i \<notin> set (ids cs)" "i \<notin> set (ids ts)" and sep: "set (ids cs) \<inter> set (ids ts) = {}"
    using prems by (auto simp: parsed_def)
  have rest: "fold (sanitize_element al) (elements_of ts) (fold (sanitize_element al) (elements_of cs) ts) = filtered al ts"
    if "fold (sanitize_element al) (elements_of ts) ts = filtered al ts"
    using that sep by (simp add: fold_absent set_ids)
  show ?case
  proof (cases "to_lower n \<in> fst ` set al")
    case True
    let ?as = "filter (\<lambda>a. allowedAttribute a (entries_for al (to_lower n))) as"
    have first: "sanitize_element al (i, n, as) (El i n as cs # ts) = El i n ?as cs # ts"
      using True fold_remove_first [of "[]" as "\<lambda>a. allowedAttribute a (entries_for al (to_lower n))"] as
      by (simp add: sanitize_element_def Let_def fold_attributes)
    have "i \<notin> fst ` set (elements_of cs @ elements_of ts)"
      using i by (auto simp: set_ids)
    then have "fold (sanitize_element al) (elements_of (El i n as cs # ts)) (El i n as cs # ts) =
        El i n ?as (fold (sanitize_element al) (elements_of cs @ elements_of ts) cs)
          # fold (sanitize_element al) (elements_of cs @ elements_of ts) ts"
      using first by (simp add: fold_elsewhere del: fold_append)
    moreover have "fst ` set (elements_of ts) \<inter> set (ids (filtered al cs)) = {}"
      using sep ids_filtered [of al cs] unfolding set_ids by blast
    then have "fold (sanitize_element al) (elements_of ts) (filtered al cs) = filtered al cs"
      by (rule fold_absent)
    ultimately show ?thesis
      using 3 parts rest True by simp
  next
    case False
    have "sanitize_element al (i, n, as) (El i n as cs # ts) = ts"
      using False by (simp add: sanitize_element_def)
    then show ?thesis
      using 3 parts rest False by simp
  qed
qed

end
