(* ===== verification/Bs_Sanitizer_Proofs.thy ===== *)
theory Bs_Sanitizer_Proofs
  imports Bs_Sanitizer
begin

text \<open>
  The URLs the sanitizer lets through. \<open>url_scheme\<close> is the scheme a browser reads (URL standard: control
  characters and spaces before the URL, tabs and line ends anywhere are ignored); every URL attribute that
  stays has no scheme of its own, or one of a fixed list.
\<close>

section \<open>Words without regard to case\<close>

lemma to_lower_simps [simp]:
  "to_lower [] = []" "to_lower (c # s) = (if is_upper c then char_of (code c + 32) else c) # to_lower s"
  "to_lower (s @ t) = to_lower s @ to_lower t"
  by (simp_all add: to_lower_def)

lemma to_lower_Nil_iff [simp]: "to_lower s = [] \<longleftrightarrow> s = []"
  by (simp add: to_lower_def)

lemma code_char_of: "n < 256 \<Longrightarrow> code (char_of n) = n"
  by (simp add: code_def)

lemma code_lower: "code (if is_upper d then char_of (code d + 32) else d) = (if 65 \<le> code d \<and> code d \<le> 90 then code d + 32 else code d)"
  using code_char_of [of "code d + 32"] by (auto simp: is_upper_def)

lemma lower_code:
  fixes x y :: nat
  assumes "\<not> (65 \<le> y \<and> y \<le> 90)"
  shows "(x = y \<or> x = (if 97 \<le> y \<and> y \<le> 122 then y - 32 else y)) \<longleftrightarrow> (if 65 \<le> x \<and> x \<le> 90 then x + 32 else x) = y"
  using assms by auto

lemma lower_eq:
  assumes "\<not> is_upper c"
  shows "(d = c \<or> d = swap_case c) \<longleftrightarrow> (if is_upper d then char_of (code d + 32) else d) = c" (is "_ \<longleftrightarrow> ?l = c")
proof -
  have "?l = c \<longleftrightarrow> (if 65 \<le> code d \<and> code d \<le> 90 then code d + 32 else code d) = code c"
    unfolding code_lower [symmetric] code_inject ..
  also have "\<dots> \<longleftrightarrow> code d = code c \<or> code d = (if 97 \<le> code c \<and> code c \<le> 122 then code c - 32 else code c)"
    using assms by (subst lower_code) (simp_all add: is_upper_def)
  also have "(if 97 \<le> code c \<and> code c \<le> 122 then code c - 32 else code c) = code (swap_case c)"
    using assms by (simp add: swap_case_code is_lower_def)
  finally show ?thesis by simp
qed

lemma lower_one:
  assumes "\<not> is_upper c" and "d = c \<or> d = swap_case c"
  shows "to_lower [d] = [c]"
  using iffD1 [OF lower_eq [OF assms(1)] assms(2)] by (simp only: to_lower_simps)

lemma lang_Seq_any: "s \<in> lang (Seq (any_of cs) r) \<longleftrightarrow> (\<exists>c t. s = c # t \<and> c \<in> set cs \<and> t \<in> lang r)"
  unfolding any_of_def lang_Seq_Cls by simp

lemma lang_Seq_end: "(\<exists>u t. v = u @ t \<and> u \<in> lang (Seq q (ch c))) \<longleftrightarrow> (\<exists>u t. v = u @ c # t \<and> u \<in> lang q)"
proof -
  have "u \<in> lang (Seq q (ch c)) \<longleftrightarrow> (\<exists>w. u = w @ [c] \<and> w \<in> lang q)" for u
    unfolding lang_Seq_iff lang_ch by blast
  then show ?thesis by (metis append.assoc append_Cons append_Nil)
qed

lemma run_Seq_tail:
  assumes "plain a" and "\<And>pw t. run b (pw, t) \<noteq> [] \<longleftrightarrow> E t"
  shows "run (Seq a b) (pv, s) \<noteq> [] \<longleftrightarrow> (\<exists>u t. s = u @ t \<and> u \<in> lang a \<and> E t)"
  unfolding run_Seq_nonempty Bex_pair decidesD [OF plain_decides [OF assms(1)]] assms(2) by blast

lemma lang_Seq_union: "lang q = lang b \<union> lang c \<Longrightarrow> lang (Seq a q) = lang (Seq a b) \<union> lang (Seq a c)"
  by auto

lemma icase_lit:
  assumes "w \<noteq> []" and "list_all (\<lambda>c. \<not> is_upper c) w"
  shows "s \<in> lang (icase (lit w)) \<longleftrightarrow> to_lower s = w"
  using assms
proof (induction w arbitrary: s rule: lit.induct)
  case (2 c)
  then show ?case
    by (cases s) (auto simp: icase_ch lang_any_of Cons_eq_append_conv lower_eq [symmetric] simp del: icase.simps(1))
next
  case (3 c d w)
  have "s \<in> lang (icase (lit (c # d # w))) \<longleftrightarrow>
      (\<exists>e t. s = e # t \<and> (e = c \<or> e = swap_case c) \<and> t \<in> lang (icase (lit (d # w))))"
    by (auto simp: icase_ch lang_Seq_any simp del: icase.simps(1) lang.simps)
  also have "\<dots> \<longleftrightarrow> to_lower s = c # d # w"
    using "3.IH" "3.prems" lower_eq [of c] by (cases s) auto
  finally show ?case .
qed simp

section \<open>The pattern of safe URLs\<close>

definition safe_schemes :: "string list" where
  "safe_schemes = [''http'', ''https'', ''mailto'', ''ftp'', ''tel'', ''file'']"

definition url_plain :: "char \<Rightarrow> bool" where
  "url_plain c \<longleftrightarrow> c \<notin> set ''#&/:?''"

lemma safe_rx:
  "re ''^(?:(?:https?|mailto|ftp|tel|file):|[^#&/:?]*(?:[#/?]|$))'' =
     Seq Bol (Alt (Seq (Alt (Seq (ch CHR ''h'') (Seq (ch CHR ''t'') (Seq (ch CHR ''t'') (Seq (ch CHR ''p'') (opt (ch CHR ''s''))))))
         (Alt (lit ''mailto'') (Alt (lit ''ftp'') (Alt (lit ''tel'') (lit ''file''))))) (ch CHR '':''))
       (Seq (Star (Cls (not_in (cls [One CHR ''#'', One CHR ''&'', One CHR ''/'', One CHR '':'', One CHR ''?'']))))
         (Alt (Cls (cls [One CHR ''#'', One CHR ''/'', One CHR ''?''])) Eol)))"
  by (simp add: rx_eval)

definition scheme_rx :: rx where
  "scheme_rx = Alt (lit ''http'') (Alt (lit ''https'') (Alt (lit ''mailto'') (Alt (lit ''ftp'') (Alt (lit ''tel'') (lit ''file'')))))"

lemma scheme_lang:
  "s \<in> lang (icase (Alt (Seq (ch CHR ''h'') (Seq (ch CHR ''t'') (Seq (ch CHR ''t'') (Seq (ch CHR ''p'') (opt (ch CHR ''s''))))))
         (Alt (lit ''mailto'') (Alt (lit ''ftp'') (Alt (lit ''tel'') (lit ''file''))))))
    \<longleftrightarrow> to_lower s \<in> set safe_schemes"
proof -
  have l: "list_all (\<lambda>c. \<not> is_upper c) w" if "w \<in> set safe_schemes" for w
    using that by (auto simp: safe_schemes_def is_upper_def code_def)
  have lit: "s \<in> lang (icase (lit w)) \<longleftrightarrow> to_lower s = w" if "w \<in> set safe_schemes" for w
    using icase_lit [OF _ l [OF that], of s] that by (auto simp: safe_schemes_def)
  have "lang (icase (Seq (ch CHR ''p'') (opt (ch CHR ''s'')))) = lang (icase (ch CHR ''p'')) \<union> lang (icase (Seq (ch CHR ''p'') (ch CHR ''s'')))"
    by (auto simp: opt_def icase_ch lang_Seq_any lang_any_of lang_Alt simp del: icase.simps(1) lang.simps)
      (auto simp: lang_any_of)
  note union = lang_Seq_union [OF lang_Seq_union [OF lang_Seq_union [OF this, of "icase (ch CHR ''t'')"],
      of "icase (ch CHR ''t'')"], of "icase (ch CHR ''h'')"]
  have "s \<in> lang (icase (Seq (ch CHR ''h'') (Seq (ch CHR ''t'') (Seq (ch CHR ''t'') (Seq (ch CHR ''p'') (opt (ch CHR ''s'')))))))
      \<longleftrightarrow> s \<in> lang (icase (lit ''http'')) \<or> s \<in> lang (icase (lit ''https''))"
    using union by (simp only: icase.simps lit.simps Un_iff)
  then show ?thesis
    using lit by (simp add: safe_schemes_def lang_Alt del: lit.simps)
qed

lemma safe_url_test:
  "regex_test SAFE_URL_PATTERN v \<longleftrightarrow>
     (\<exists>u t. v = u @ CHR '':'' # t \<and> to_lower u \<in> set safe_schemes) \<or>
     (\<exists>u t. v = u @ t \<and> list_all url_plain u \<and> (t = [] \<or> hd t \<in> set ''#/?''))"
proof -
  let ?S = "Alt (Seq (ch CHR ''h'') (Seq (ch CHR ''t'') (Seq (ch CHR ''t'') (Seq (ch CHR ''p'') (opt (ch CHR ''s''))))))
         (Alt (lit ''mailto'') (Alt (lit ''ftp'') (Alt (lit ''tel'') (lit ''file''))))"
  let ?f = "not_in (cls [One CHR ''#'', One CHR ''&'', One CHR ''/'', One CHR '':'', One CHR ''?''])"
  let ?g = "cls [One CHR ''#'', One CHR ''/'', One CHR ''?'']"
  have special: "swap_case c = c" if "c \<in> set ''#&/:?''" for c
    using that by (auto simp: swap_case_def is_lower_def is_upper_def code_def)
  have closed: "swap_case c \<in> A \<longleftrightarrow> c \<in> A" if "A \<subseteq> set ''#&/:?''" for c A
    using special swap_case_eq that by (metis subsetD)
  have not5: "?f c \<longleftrightarrow> c \<notin> set ''#&/:?''" for c by (auto simp: not_in_def cls_def)
  have in3: "?g c \<longleftrightarrow> c \<in> set ''#/?''" for c by (auto simp: cls_def)
  have f: "icase (Cls ?f) = Cls url_plain"
    using closed [of "set ''#&/:?''"] by (simp add: url_plain_def fun_eq_iff not5 del: list.set)
  have g: "icase (Cls ?g) = Cls (\<lambda>c. c \<in> set ''#/?'')"
    using closed [of "set ''#/?''"] by (simp add: fun_eq_iff in3 del: list.set) simp
  have colon: "icase (ch CHR '':'') = ch CHR '':''"
    using closed [of "{CHR '':''}"] by (simp add: ch_def fun_eq_iff)
  have rx: "SAFE_URL_PATTERN = Seq Bol (Alt (Seq (icase ?S) (ch CHR '':''))
      (Seq (Star (Cls url_plain)) (Alt (Cls (\<lambda>c. c \<in> set ''#/?'')) Eol)))"
    unfolding SAFE_URL_PATTERN_def safe_rx using f g colon by simp
  have "run (Seq (icase ?S) (ch CHR '':'')) (None, v) \<noteq> [] \<longleftrightarrow> (\<exists>u t. v = u @ CHR '':'' # t \<and> to_lower u \<in> set safe_schemes)"
  proof -
    have "run (Seq (icase ?S) (ch CHR '':'')) (None, v) \<noteq> [] \<longleftrightarrow>
        (\<exists>u t. v = u @ t \<and> u \<in> lang (Seq (icase ?S) (ch CHR '':'')))"
      by (rule nonempty_run) (simp add: opt_def ch_def)
    then show ?thesis unfolding lang_Seq_end scheme_lang .
  qed
  moreover have "run (Seq (Star (Cls url_plain)) (Alt (Cls (\<lambda>c. c \<in> set ''#/?'')) Eol)) (None, v) \<noteq> [] \<longleftrightarrow>
      (\<exists>u t. v = u @ t \<and> list_all url_plain u \<and> (t = [] \<or> hd t \<in> set ''#/?''))"
  proof -
    let ?A = "Alt (Cls (\<lambda>c. c \<in> set ''#/?'')) Eol"
    have "run ?A (pw, t) \<noteq> [] \<longleftrightarrow> t = [] \<or> hd t \<in> set ''#/?''" for pw t by (cases t) auto
    then show ?thesis by (subst run_Seq_tail) (simp_all only: plain.simps lang_Star_Cls)
  qed
  ultimately show ?thesis
    unfolding rx test_Bol by (simp only: run.simps(4) append_is_Nil_conv de_Morgan_conj)
qed

section \<open>The scheme of a URL\<close>

definition scheme_char :: "char \<Rightarrow> bool" where
  "scheme_char c \<longleftrightarrow> is_digit c \<or> is_upper c \<or> is_lower c \<or> c \<in> set ''+-.''"

definition browser_text :: "string \<Rightarrow> string" where
  "browser_text v = filter (\<lambda>c. code c \<notin> {9, 10, 13}) (dropWhile (\<lambda>c. code c \<le> 32) v)"

definition url_scheme :: "string \<Rightarrow> string option" where
  "url_scheme v =
     (let u = browser_text v; w = takeWhile (\<lambda>c. c \<noteq> CHR '':'') u in
      if w \<noteq> [] \<and> w \<noteq> u \<and> list_all scheme_char w then Some (to_lower w) else None)"

text \<open>Text without control characters before the colon is read as it is.\<close>

lemma browser_text_plain:
  assumes "list_all (\<lambda>c. 32 < code c) u" and "32 < code c"
  shows "\<exists>s. browser_text (u @ c # t) = u @ c # s"
proof -
  have "dropWhile (\<lambda>c. code c \<le> 32) (u @ c # t) = u @ c # t"
    using assms by (cases u) auto
  moreover have "filter (\<lambda>c. code c \<notin> {9, 10, 13}) u = u"
    using assms(1) by (induction u) auto
  ultimately show ?thesis using assms(2) by (auto simp: browser_text_def)
qed

lemma scheme_of_word:
  assumes "list_all scheme_char u" and "u \<noteq> []"
  shows "url_scheme (u @ CHR '':'' # t) = Some (to_lower u)"
proof -
  have c: "scheme_char d \<Longrightarrow> 32 < code d \<and> d \<noteq> CHR '':''" for d
    by (auto simp: scheme_char_def is_digit_def is_upper_def is_lower_def code_def)
  then obtain s where s: "browser_text (u @ CHR '':'' # t) = u @ CHR '':'' # s"
    using browser_text_plain [of u "CHR '':''" t] assms(1) by (auto simp: list_all_iff code_def)
  have "takeWhile (\<lambda>c. c \<noteq> CHR '':'') (u @ CHR '':'' # s) = u"
    using assms(1) c by (intro takeWhile_eq_all_conv [THEN iffD2] | subst takeWhile_append2 | auto simp: list_all_iff)+
  then show ?thesis using assms by (simp add: url_scheme_def s Let_def)
qed

lemma lower_letters: "list_all is_lower (to_lower u) \<Longrightarrow> list_all scheme_char u"
  by (auto simp: list_all_iff to_lower_def scheme_char_def split: if_splits)

lemma scheme_letters:
  assumes "to_lower u \<in> set safe_schemes"
  shows "list_all scheme_char u \<and> u \<noteq> []"
proof -
  have "list_all is_lower w \<and> w \<noteq> []" if "w \<in> set safe_schemes" for w
    using that by (auto simp: safe_schemes_def is_lower_def code_def)
  then have "list_all is_lower (to_lower u)" "u \<noteq> []" using assms by force+
  then show ?thesis using lower_letters by simp
qed

lemma browser_text_append:
  assumes "x \<in> set ''#/?''"
  shows "browser_text (u @ x # t) = filter (\<lambda>c. code c \<notin> {9, 10, 13}) (dropWhile (\<lambda>c. code c \<le> 32) u)
    @ x # filter (\<lambda>c. code c \<notin> {9, 10, 13}) t"
proof -
  have x: "32 < code x" using assms by (auto simp: code_def)
  have "dropWhile (\<lambda>c. code c \<le> 32) (u @ x # t) = dropWhile (\<lambda>c. code c \<le> 32) u @ x # t"
    using x by (induction u) auto
  then show ?thesis using x by (simp add: browser_text_def)
qed

lemma no_scheme:
  assumes "list_all url_plain u" and "t = [] \<or> hd t \<in> set ''#/?''"
  shows "url_scheme (u @ t) = None"
proof -
  let ?p = "\<lambda>c. code c \<notin> {9, 10, 13}" and ?q = "\<lambda>c. code c \<le> 32"
  have u: "CHR '':'' \<notin> set (filter ?p (dropWhile ?q u))"
    using assms(1) set_dropWhileD by (fastforce simp: list_all_iff url_plain_def)
  show ?thesis
  proof (cases t)
    case Nil
    have whole: "takeWhile (\<lambda>c. c \<noteq> CHR '':'') (browser_text (u @ t)) = browser_text (u @ t)"
      using u Nil unfolding takeWhile_eq_all_conv browser_text_def by auto
    show ?thesis unfolding url_scheme_def Let_def whole by simp
  next
    case (Cons x t')
    then have x: "x \<in> set ''#/?''" using assms(2) by simp
    have "x \<in> set (takeWhile (\<lambda>c. c \<noteq> CHR '':'') (browser_text (u @ t)))"
      unfolding Cons browser_text_append [OF x] using u x by (subst takeWhile_append2) auto
    moreover have "\<not> scheme_char x"
      using x by (auto simp: scheme_char_def is_digit_def is_upper_def is_lower_def code_def)
    ultimately show ?thesis by (auto simp: url_scheme_def Let_def list_all_iff)
  qed
qed

lemma safe_url_scheme:
  assumes "regex_test SAFE_URL_PATTERN v" and "url_scheme v = Some w"
  shows "w \<in> set safe_schemes"
  using assms scheme_of_word scheme_letters no_scheme unfolding safe_url_test by fastforce

text \<open>A data URL that stays is an image, a video or a sound in base 64.\<close>

lemma data_rx:
  "\<exists>r. DATA_URL_PATTERN = Seq Bol (Seq (icase (ch CHR ''d'')) (Seq (icase (ch CHR ''a'')) (Seq (icase (ch CHR ''t''))
     (Seq (icase (ch CHR ''a'')) (Seq (icase (ch CHR '':'')) r)))))"
  unfolding DATA_URL_PATTERN_def by (simp add: rx_eval)

lemma run_Seq_letter:
  assumes "run (Seq (icase (ch c)) r) (pv, s) \<noteq> []"
  shows "\<exists>d t. s = d # t \<and> (d = c \<or> d = swap_case c) \<and> run r (Some d, t) \<noteq> []"
  using assms unfolding icase_ch any_of_def by (cases s) (auto split: if_splits)

lemma data_url_scheme:
  assumes "regex_test DATA_URL_PATTERN v"
  shows "url_scheme v = Some ''data''"
proof -
  obtain r where r: "run (Seq (icase (ch CHR ''d'')) (Seq (icase (ch CHR ''a'')) (Seq (icase (ch CHR ''t''))
      (Seq (icase (ch CHR ''a'')) (Seq (icase (ch CHR '':'')) r))))) (None, v) \<noteq> []"
    using assms data_rx unfolding test_Bol [symmetric] by metis
  obtain d1 t1 where 1: "v = d1 # t1" "d1 = CHR ''d'' \<or> d1 = swap_case CHR ''d''" and r1: "run (Seq (icase (ch CHR ''a''))
      (Seq (icase (ch CHR ''t'')) (Seq (icase (ch CHR ''a'')) (Seq (icase (ch CHR '':'')) r)))) (Some d1, t1) \<noteq> []"
    using run_Seq_letter [OF r] by blast
  obtain d2 t2 where 2: "t1 = d2 # t2" "d2 = CHR ''a'' \<or> d2 = swap_case CHR ''a''" and r2: "run (Seq (icase (ch CHR ''t''))
      (Seq (icase (ch CHR ''a'')) (Seq (icase (ch CHR '':'')) r))) (Some d2, t2) \<noteq> []"
    using run_Seq_letter [OF r1] by blast
  obtain d3 t3 where 3: "t2 = d3 # t3" "d3 = CHR ''t'' \<or> d3 = swap_case CHR ''t''"
      and r3: "run (Seq (icase (ch CHR ''a'')) (Seq (icase (ch CHR '':'')) r)) (Some d3, t3) \<noteq> []"
    using run_Seq_letter [OF r2] by blast
  obtain d4 t4 where 4: "t3 = d4 # t4" "d4 = CHR ''a'' \<or> d4 = swap_case CHR ''a''"
      and r4: "run (Seq (icase (ch CHR '':'')) r) (Some d4, t4) \<noteq> []"
    using run_Seq_letter [OF r3] by blast
  obtain d5 t where 5: "t4 = d5 # t" "d5 = CHR '':'' \<or> d5 = swap_case CHR '':''"
    using run_Seq_letter [OF r4] by blast
  have v: "v = [d1, d2, d3, d4] @ d5 # t" using 1(1) 2(1) 3(1) 4(1) 5(1) by simp
  have nu: "\<not> is_upper CHR ''d''" "\<not> is_upper CHR ''a''" "\<not> is_upper CHR ''t''"
    by (simp_all add: is_upper_def code_def)
  have letters: "to_lower [d1] = ''d''" "to_lower [d2] = ''a''" "to_lower [d3] = ''t''" "to_lower [d4] = ''a''"
    using lower_one [OF nu(1) 1(2)] lower_one [OF nu(2) 2(2)] lower_one [OF nu(3) 3(2)] lower_one [OF nu(2) 4(2)] .
  have "to_lower ([d1] @ [d2] @ [d3] @ [d4]) = ''d'' @ ''a'' @ ''t'' @ ''a''"
    unfolding to_lower_simps(3) letters ..
  then have low: "to_lower [d1, d2, d3, d4] = ''data''" by (simp only: append_Cons append_Nil)
  have "list_all scheme_char [d1, d2, d3, d4]"
    by (rule lower_letters) (simp only: low, simp add: is_lower_def code_def)
  note word = scheme_of_word [OF this list.discI [OF refl]]
  have "d5 = CHR '':''" using 5(2) by (auto simp: swap_case_def is_lower_def is_upper_def code_def)
  then show ?thesis by (simp only: v word low)
qed

section \<open>What stays in the document\<close>

lemma filtered_elements:
  "(i, n, as) \<in> set (elements_of (filtered al doc)) \<Longrightarrow>
     to_lower n \<in> fst ` set al \<and> (\<forall>a \<in> set as. allowedAttribute a (entries_for al (to_lower n)))"
  by (induction al doc rule: filtered.induct) (auto split: if_splits)

lemma aria_starts:
  assumes "regex_test ARIA_ATTRIBUTE_PATTERN v"
  shows "take 1 v = ''a'' \<or> take 1 v = ''A''"
proof -
  have "\<exists>r. ARIA_ATTRIBUTE_PATTERN = Seq Bol (Seq (icase (ch CHR ''a'')) r)"
    unfolding ARIA_ATTRIBUTE_PATTERN_def by (simp add: rx_eval)
  then obtain r where "run (Seq (icase (ch CHR ''a'')) r) (None, v) \<noteq> []"
    using assms unfolding test_Bol [symmetric] by metis
  moreover have "swap_case CHR ''a'' = CHR ''A''" by code_simp
  ultimately show ?thesis using run_Seq_letter [of "CHR ''a''" r None v] by auto
qed

text \<open>The attributes of the default list: no event handler, and URLs with one of the listed schemes.\<close>

lemma entries_from: "x \<in> set (entries_for al n) \<Longrightarrow> \<exists>(m, as) \<in> set al. x \<in> set as"
  by (cases "map_of al ''*''"; cases "map_of al n") (auto simp: entries_for_def dest: map_of_SomeD)

lemma default_names:
  assumes "Name k \<in> set (entries_for DefaultAllowlist n)"
  shows "take 2 k \<noteq> ''on''"
proof -
  have "\<forall>(m, as) \<in> set DefaultAllowlist. list_all (\<lambda>a. case a of Name k \<Rightarrow> take 2 k \<noteq> ''on'' | Pattern _ \<Rightarrow> True) as"
    by (simp add: DefaultAllowlist_def)
  moreover have "\<exists>(m, as) \<in> set DefaultAllowlist. Name k \<in> set as"
    using entries_from [OF assms] .
  ultimately show ?thesis by (fastforce simp: list_all_iff)
qed

lemma default_patterns:
  assumes "Pattern r \<in> set (entries_for DefaultAllowlist n)"
  shows "r = ARIA_ATTRIBUTE_PATTERN"
proof -
  have "\<forall>(m, as) \<in> set DefaultAllowlist. list_all (\<lambda>a. case a of Name k \<Rightarrow> True | Pattern r \<Rightarrow> r = ARIA_ATTRIBUTE_PATTERN) as"
    by (simp add: DefaultAllowlist_def)
  moreover have "\<exists>(m, as) \<in> set DefaultAllowlist. Pattern r \<in> set as"
    using entries_from [OF assms] .
  ultimately show ?thesis by (fastforce simp: list_all_iff)
qed

lemma allowed_cases:
  assumes "allowedAttribute (k, v) as"
  shows "Name (to_lower k) \<in> set as \<and>
      (to_lower k \<in> set uriAttrs \<longrightarrow> regex_test SAFE_URL_PATTERN v \<or> regex_test DATA_URL_PATTERN v)
    \<or> (\<exists>r. Pattern r \<in> set as \<and> regex_test r (to_lower k))"
proof -
  have "list_ex (\<lambda>a. case a of Name n \<Rightarrow> n = x | Pattern _ \<Rightarrow> False) as \<longleftrightarrow> Name x \<in> set as" for x
    by (induction as) (auto split: allowed.splits)
  moreover have "list_ex (\<lambda>a. case a of Pattern r \<Rightarrow> regex_test r x | Name _ \<Rightarrow> False) as
      \<longleftrightarrow> (\<exists>r. Pattern r \<in> set as \<and> regex_test r x)" for x
    by (induction as) (auto split: allowed.splits)
  ultimately show ?thesis
    using assms by (auto simp: allowedAttribute_def Let_def split: if_splits)
qed

lemma default_attribute:
  assumes "allowedAttribute (k, v) (entries_for DefaultAllowlist n)"
  shows "take 2 (to_lower k) \<noteq> ''on''"
    and "to_lower k \<in> set uriAttrs \<Longrightarrow> url_scheme v = None \<or> url_scheme v \<in> Some ` set (''data'' # safe_schemes)"
proof -
  let ?k = "to_lower k"
  have cases: "Name ?k \<in> set (entries_for DefaultAllowlist n) \<and>
        (?k \<in> set uriAttrs \<longrightarrow> regex_test SAFE_URL_PATTERN v \<or> regex_test DATA_URL_PATTERN v)
      \<or> regex_test ARIA_ATTRIBUTE_PATTERN ?k"
    using allowed_cases [OF assms] default_patterns by blast
  have aria: "take 1 ?k = ''a''" if "regex_test ARIA_ATTRIBUTE_PATTERN ?k"
  proof -
    have "\<not> is_upper c" if "c \<in> set ?k" for c
      using that code_char_of by (auto simp: to_lower_def is_upper_def split: if_splits)
    moreover have "is_upper CHR ''A''" by (simp add: is_upper_def code_def)
    ultimately show ?thesis using aria_starts [OF that] by (cases ?k) auto
  qed
  have "take 1 ?k = ''o''" if "take 2 ?k = ''on''"
    using that by (cases ?k) auto
  then show "take 2 ?k \<noteq> ''on''" using cases default_names aria by fastforce
  show "url_scheme v = None \<or> url_scheme v \<in> Some ` set (''data'' # safe_schemes)" if "?k \<in> set uriAttrs"
  proof -
    have "take 1 ?k \<noteq> ''a''" using that by (auto simp: uriAttrs_def)
    then have "regex_test SAFE_URL_PATTERN v \<or> regex_test DATA_URL_PATTERN v" using cases aria that by blast
    then show ?thesis using safe_url_scheme data_url_scheme by (cases "url_scheme v") auto
  qed
qed

end
