(* ===== verification/Bs_Config.thy ===== *)
theory Bs_Config
  imports Bs_Util Bs_Sanitizer
begin

text \<open>
  Options of the components of \<open>bootstrap.js\<close>: reading them from data attributes, merging them with defaults
  and with what a client gives, and \<open>typeCheckConfig\<close>, which throws when an option has none of its declared
  types. The document is known through a selector function and two elements.
\<close>

section \<open>Values\<close>

text \<open>
  \<open>BJQuery\<close> is a jQuery collection, \<open>BHost\<close> any other object, with the word \<open>Object.prototype.toString\<close> gives
  it; such a word begins with a letter.
\<close>

datatype bval =
    BUndefined | BNull | BBool bool | BNum num | BStr string
  | BElem nat | BJQuery "nat list" | BArr "bval list" | BObj "(string \<times> bval) list"
  | BFun | BRegex rx | BHost string

fun truthy_b :: "bval \<Rightarrow> bool" where
  "truthy_b BUndefined = False"
| "truthy_b BNull = False"
| "truthy_b (BBool b) = b"
| "truthy_b (BNum x) = (case x of None \<Rightarrow> False | Some d \<Rightarrow> \<not> dec_zero d)"
| "truthy_b (BStr s) = (s \<noteq> [])"
| "truthy_b v = True"

text \<open>\<open>typeof v === 'object'\<close>, for a value that is not null.\<close>

fun is_object :: "bval \<Rightarrow> bool" where
  "is_object BUndefined = False"
| "is_object BNull = False"
| "is_object (BBool b) = False"
| "is_object (BNum x) = False"
| "is_object (BStr s) = False"
| "is_object BFun = False"
| "is_object v = True"

definition bget :: "(string \<times> bval) list \<Rightarrow> string \<Rightarrow> bval" where
  "bget ob k = (case oget ob k of None \<Rightarrow> BUndefined | Some v \<Rightarrow> v)"

definition is_undefined :: "bval \<Rightarrow> bool" where
  "is_undefined v = (case v of BUndefined \<Rightarrow> True | _ \<Rightarrow> False)"

text \<open>The properties the code asks for: \<open>jquery\<close>, \<open>0\<close>, \<open>nodeType\<close> and \<open>getBoundingClientRect\<close>.\<close>

fun bprop :: "bval \<Rightarrow> string \<Rightarrow> bval" where
  "bprop (BObj ob) k = bget ob k"
| "bprop (BElem i) k =
     (if k = ''nodeType'' then BNum (of_nat_num 1) else if k = ''getBoundingClientRect'' then BFun else BUndefined)"
| "bprop (BJQuery es) k =
     (if k = ''jquery'' then BStr ''3'' else if k = ''0'' then (case es of [] \<Rightarrow> BUndefined | e # _ \<Rightarrow> BElem e)
      else BUndefined)"
| "bprop (BArr vs) k = (if k = ''0'' then (case vs of [] \<Rightarrow> BUndefined | v # _ \<Rightarrow> v) else BUndefined)"
| "bprop v k = BUndefined"

text \<open>\<open>None\<close> when it throws: the first element of an empty jQuery collection has no property.\<close>

definition isElement :: "bval \<Rightarrow> bool option" where
  "isElement obj =
     (if \<not> truthy_b obj \<or> \<not> is_object obj then Some False
      else
        let obj = (if \<not> is_undefined (bprop obj ''jquery'') then bprop obj ''0'' else obj) in
        if is_undefined obj then None else Some (\<not> is_undefined (bprop obj ''nodeType'')))"

definition getElement :: "(string \<Rightarrow> nat option) \<Rightarrow> bval \<Rightarrow> bval option" where
  "getElement query obj =
     (case isElement obj of
        None \<Rightarrow> None
      | Some True \<Rightarrow> Some (if truthy_b (bprop obj ''jquery'') then bprop obj ''0'' else obj)
      | Some False \<Rightarrow>
          Some (case obj of
              BStr s \<Rightarrow> if s = [] then BNull else (case query s of None \<Rightarrow> BNull | Some e \<Rightarrow> BElem e)
            | _ \<Rightarrow> BNull))"

definition is_letter :: "char \<Rightarrow> bool" where
  "is_letter c \<longleftrightarrow> is_lower c \<or> is_upper c"

fun toType :: "bval \<Rightarrow> string" where
  "toType BUndefined = ''undefined''"
| "toType BNull = ''null''"
| "toType (BBool b) = ''boolean''"
| "toType (BNum x) = ''number''"
| "toType (BStr s) = ''string''"
| "toType (BArr vs) = ''array''"
| "toType BFun = ''function''"
| "toType (BRegex r) = ''regexp''"
| "toType (BObj ob) = ''object''"
| "toType (BJQuery es) = ''object''"
| "toType (BElem i) = ''html''"
| "toType (BHost tag) = to_lower (takeWhile is_letter tag)"

section \<open>The check of an options object\<close>

datatype bs_error = TypeError string

definition valueType :: "bval \<Rightarrow> string option" where
  "valueType v =
     (if truthy_b v
      then (case isElement v of None \<Rightarrow> None | Some True \<Rightarrow> Some ''element'' | Some False \<Rightarrow> Some (toType v))
      else Some (toType v))"

definition matches_type :: "string \<Rightarrow> string \<Rightarrow> bool" where
  "matches_type expected t = (case RegExp expected of None \<Rightarrow> False | Some r \<Rightarrow> regex_test r t)"

definition type_message :: "string \<Rightarrow> string \<Rightarrow> string \<Rightarrow> string \<Rightarrow> string" where
  "type_message componentName property t expected =
     to_upper componentName @ '': Option '' @ [CHR 0x22] @ property @ [CHR 0x22] @ '' provided type '' @ [CHR 0x22] @ t
       @ [CHR 0x22] @ '' but expected type '' @ [CHR 0x22] @ expected @ [CHR 0x22] @ ''.''"

fun typeCheckConfig :: "string \<Rightarrow> (string \<times> bval) list \<Rightarrow> (string \<times> string) list \<Rightarrow> bs_error option" where
  "typeCheckConfig name config [] = None"
| "typeCheckConfig name config ((p, expected) # types) =
     (case valueType (bget config p) of
        None \<Rightarrow> Some (TypeError ''undefined has no properties'')
      | Some t \<Rightarrow>
          if matches_type expected t then typeCheckConfig name config types
          else Some (TypeError (type_message name p t expected)))"

section \<open>Data attributes\<close>

definition normalizeData :: "string option \<Rightarrow> bval" where
  "normalizeData val =
     (case val of
        None \<Rightarrow> BNull
      | Some s \<Rightarrow>
          if s = ''true'' then BBool True
          else if s = ''false'' then BBool False
          else if s = num_text (js_Number s) then BNum (js_Number s)
          else if s = [] \<or> s = ''null'' then BNull
          else BStr s)"

definition normalizeDataKey :: "string \<Rightarrow> string" where
  "normalizeDataKey key = concat (map (\<lambda>c. if is_upper c then CHR ''-'' # to_lower [c] else [c]) key)"

text \<open>Attributes of an element, in order. The names of an HTML document are in lower case.\<close>

type_synonym attributes = "(string \<times> string) list"

definition setDataAttribute :: "attributes \<Rightarrow> string \<Rightarrow> string \<Rightarrow> attributes" where
  "setDataAttribute attrs key value = oset attrs (''data-bs-'' @ normalizeDataKey key) value"

definition removeDataAttribute :: "attributes \<Rightarrow> string \<Rightarrow> attributes" where
  "removeDataAttribute attrs key = odel attrs (''data-bs-'' @ normalizeDataKey key)"

definition getDataAttribute :: "attributes \<Rightarrow> string \<Rightarrow> bval" where
  "getDataAttribute attrs key = normalizeData (oget attrs (''data-bs-'' @ normalizeDataKey key))"

text \<open>\<open>dataset\<close>: a dash and a lower-case letter of the name become the upper-case letter.\<close>

fun camel :: "string \<Rightarrow> string" where
  "camel [] = []"
| "camel [c] = [c]"
| "camel (c # d # s) = (if c = CHR ''-'' \<and> is_lower d then upper1 d @ camel s else c # camel (d # s))"

definition dataset :: "attributes \<Rightarrow> attributes" where
  "dataset attrs = map (\<lambda>(n, v). (camel (drop 5 n), v)) (filter (\<lambda>(n, v). take 5 n = ''data-'') attrs)"

definition pure_key :: "string \<Rightarrow> string" where
  "pure_key key = (let k = drop 2 key in to_lower (take 1 k) @ drop 1 k)"

definition getDataAttributes :: "attributes \<Rightarrow> (string \<times> bval) list" where
  "getDataAttributes attrs =
     fold (\<lambda>(k, v) ob. oset ob (pure_key k) (normalizeData (Some v)))
       (filter (\<lambda>(k, v). take 2 k = ''bs'') (dataset attrs)) []"

section \<open>Merging\<close>

text \<open>\<open>{...a, ...b}\<close>; what a value spreads to, and to what it spreads when only objects are taken.\<close>

definition spread :: "(string \<times> bval) list \<Rightarrow> (string \<times> bval) list \<Rightarrow> (string \<times> bval) list" where
  "spread a b = fold (\<lambda>(k, v) ob. oset ob k v) b a"

definition own_props :: "bval \<Rightarrow> (string \<times> bval) list" where
  "own_props v =
     (case v of
        BObj ob \<Rightarrow> ob
      | BArr vs \<Rightarrow> map (\<lambda>i. (nat_str i, vs ! i)) [0..<length vs]
      | BStr s \<Rightarrow> map (\<lambda>i. (nat_str i, BStr [s ! i])) [0..<length s]
      | _ \<Rightarrow> [])"

definition object_props :: "bval \<Rightarrow> (string \<times> bval) list" where
  "object_props v = (if is_object v then own_props v else [])"

definition checked_config :: "string \<Rightarrow> (string \<times> bval) list \<Rightarrow> (string \<times> string) list \<Rightarrow> bs_error + (string \<times> bval) list" where
  "checked_config name config types =
     (case typeCheckConfig name config types of None \<Rightarrow> Inr config | Some e \<Rightarrow> Inl e)"

text \<open>The page: the first element a selector finds, the body and the root element.\<close>

record web_page =
  query :: "string \<Rightarrow> nat option"
  body_element :: nat
  root_element :: nat

text \<open>Replacing an option by the element it stands for.\<close>

definition with_element ::
  "web_page \<Rightarrow> string \<Rightarrow> (string \<times> bval) list \<Rightarrow> ((string \<times> bval) list \<Rightarrow> bs_error + (string \<times> bval) list) \<Rightarrow>
     bs_error + (string \<times> bval) list" where
  "with_element pg p config k =
     (case getElement (query pg) (bget config p) of
        None \<Rightarrow> Inl (TypeError ''undefined has no properties'')
      | Some e \<Rightarrow> k (oset config p e))"

section \<open>Carousel, collapse, modal, offcanvas, toast\<close>

abbreviation num_value :: "int \<Rightarrow> bval" where "num_value n \<equiv> BNum (Some (Dec n 0))"

definition carousel_default :: "(string \<times> bval) list" where
  "carousel_default = [(''interval'', num_value 5000), (''keyboard'', BBool True), (''slide'', BBool False),
     (''pause'', BStr ''hover''), (''wrap'', BBool True), (''touch'', BBool True)]"

definition carousel_types :: "(string \<times> string) list" where
  "carousel_types = [(''interval'', ''(number|boolean)''), (''keyboard'', ''boolean''), (''slide'', ''(boolean|string)''),
     (''pause'', ''(string|boolean)''), (''wrap'', ''boolean''), (''touch'', ''boolean'')]"

definition carousel_config :: "attributes \<Rightarrow> bval \<Rightarrow> bs_error + (string \<times> bval) list" where
  "carousel_config attrs config =
     checked_config ''carousel'' (spread (spread carousel_default (getDataAttributes attrs)) (object_props config)) carousel_types"

definition collapse_default :: "(string \<times> bval) list" where
  "collapse_default = [(''toggle'', BBool True), (''parent'', BNull)]"

definition collapse_types :: "(string \<times> string) list" where
  "collapse_types = [(''toggle'', ''boolean''), (''parent'', ''(null|element)'')]"

definition collapse_config :: "web_page \<Rightarrow> attributes \<Rightarrow> bval \<Rightarrow> bs_error + (string \<times> bval) list" where
  "collapse_config pg attrs config =
     (let config = spread (spread collapse_default (getDataAttributes attrs)) (own_props config);
          config = oset config ''toggle'' (BBool (truthy_b (bget config ''toggle'')))
      in with_element pg ''parent'' config (\<lambda>config. checked_config ''collapse'' config collapse_types))"

definition modal_default :: "(string \<times> bval) list" where
  "modal_default = [(''backdrop'', BBool True), (''keyboard'', BBool True), (''focus'', BBool True)]"

definition modal_types :: "(string \<times> string) list" where
  "modal_types = [(''backdrop'', ''(boolean|string)''), (''keyboard'', ''boolean''), (''focus'', ''boolean'')]"

definition modal_config :: "attributes \<Rightarrow> bval \<Rightarrow> bs_error + (string \<times> bval) list" where
  "modal_config attrs config =
     checked_config ''modal'' (spread (spread modal_default (getDataAttributes attrs)) (object_props config)) modal_types"

definition offcanvas_default :: "(string \<times> bval) list" where
  "offcanvas_default = [(''backdrop'', BBool True), (''keyboard'', BBool True), (''scroll'', BBool False)]"

definition offcanvas_types :: "(string \<times> string) list" where
  "offcanvas_types = [(''backdrop'', ''boolean''), (''keyboard'', ''boolean''), (''scroll'', ''boolean'')]"

definition offcanvas_config :: "attributes \<Rightarrow> bval \<Rightarrow> bs_error + (string \<times> bval) list" where
  "offcanvas_config attrs config =
     checked_config ''offcanvas'' (spread (spread offcanvas_default (getDataAttributes attrs)) (object_props config)) offcanvas_types"

definition toast_default :: "(string \<times> bval) list" where
  "toast_default = [(''animation'', BBool True), (''autohide'', BBool True), (''delay'', num_value 5000)]"

definition toast_types :: "(string \<times> string) list" where
  "toast_types = [(''animation'', ''boolean''), (''autohide'', ''boolean''), (''delay'', ''number'')]"

definition toast_config :: "attributes \<Rightarrow> bval \<Rightarrow> bs_error + (string \<times> bval) list" where
  "toast_config attrs config =
     checked_config ''toast'' (spread (spread toast_default (getDataAttributes attrs)) (object_props config)) toast_types"

section \<open>Dropdown, backdrop, focus trap, scroll spy\<close>

definition dropdown_default :: "(string \<times> bval) list" where
  "dropdown_default = [(''offset'', BArr [num_value 0, num_value 2]), (''boundary'', BStr ''clippingParents''),
     (''reference'', BStr ''toggle''), (''display'', BStr ''dynamic''), (''popperConfig'', BNull), (''autoClose'', BBool True)]"

definition dropdown_types :: "(string \<times> string) list" where
  "dropdown_types = [(''offset'', ''(array|string|function)''), (''boundary'', ''(string|element)''),
     (''reference'', ''(string|element|object)''), (''display'', ''string''), (''popperConfig'', ''(null|object|function)''),
     (''autoClose'', ''(boolean|string)'')]"

definition is_function :: "bval \<Rightarrow> bool" where
  "is_function v = (case v of BFun \<Rightarrow> True | _ \<Rightarrow> False)"

text \<open>After the check, an object that is no element must have a method that measures it.\<close>

definition dropdown_config :: "attributes \<Rightarrow> bval \<Rightarrow> bs_error + (string \<times> bval) list" where
  "dropdown_config attrs config =
     (case checked_config ''dropdown'' (spread (spread dropdown_default (getDataAttributes attrs)) (own_props config)) dropdown_types of
        Inl e \<Rightarrow> Inl e
      | Inr config \<Rightarrow>
          let ref = bget config ''reference'' in
          if is_object ref \<and> isElement ref = Some False \<and> \<not> is_function (bprop ref ''getBoundingClientRect'') then
            Inl (TypeError (''DROPDOWN: Option '' @ [CHR 0x22] @ ''reference'' @ [CHR 0x22] @ '' provided type '' @ [CHR 0x22] @ ''object''
              @ [CHR 0x22] @ '' without a required '' @ [CHR 0x22] @ ''getBoundingClientRect'' @ [CHR 0x22] @ '' method.''))
          else Inr config)"

definition backdrop_default :: "(string \<times> bval) list" where
  "backdrop_default = [(''className'', BStr ''modal-backdrop''), (''isVisible'', BBool True), (''isAnimated'', BBool False),
     (''rootElement'', BStr ''body''), (''clickCallback'', BNull)]"

definition backdrop_types :: "(string \<times> string) list" where
  "backdrop_types = [(''className'', ''string''), (''isVisible'', ''boolean''), (''isAnimated'', ''boolean''),
     (''rootElement'', ''(element|string)''), (''clickCallback'', ''(function|null)'')]"

definition backdrop_config :: "web_page \<Rightarrow> bval \<Rightarrow> bs_error + (string \<times> bval) list" where
  "backdrop_config pg config =
     with_element pg ''rootElement'' (spread backdrop_default (object_props config))
       (\<lambda>config. checked_config ''backdrop'' config backdrop_types)"

definition focustrap_default :: "(string \<times> bval) list" where
  "focustrap_default = [(''trapElement'', BNull), (''autofocus'', BBool True)]"

definition focustrap_types :: "(string \<times> string) list" where
  "focustrap_types = [(''trapElement'', ''element''), (''autofocus'', ''boolean'')]"

definition focustrap_config :: "bval \<Rightarrow> bs_error + (string \<times> bval) list" where
  "focustrap_config config = checked_config ''focustrap'' (spread focustrap_default (object_props config)) focustrap_types"

definition scrollspy_default :: "(string \<times> bval) list" where
  "scrollspy_default = [(''offset'', num_value 10), (''method'', BStr ''auto''), (''target'', BStr [])]"

definition scrollspy_types :: "(string \<times> string) list" where
  "scrollspy_types = [(''offset'', ''number''), (''method'', ''string''), (''target'', ''(string|element)'')]"

definition scrollspy_config :: "web_page \<Rightarrow> attributes \<Rightarrow> bval \<Rightarrow> bs_error + (string \<times> bval) list" where
  "scrollspy_config pg attrs config =
     with_element pg ''target'' (spread (spread scrollspy_default (getDataAttributes attrs)) (object_props config))
       (\<lambda>config.
          let config = (if truthy_b (bget config ''target'') then config else oset config ''target'' (BElem (root_element pg)))
          in checked_config ''scrollspy'' config scrollspy_types)"

section \<open>Tooltip and popover\<close>

definition allow_value :: "allow_list \<Rightarrow> bval" where
  "allow_value al = BObj (map (\<lambda>(k, as). (k, BArr (map (\<lambda>a. case a of Name n \<Rightarrow> BStr n | Pattern r \<Rightarrow> BRegex r) as))) al)"

definition tooltip_default :: "(string \<times> bval) list" where
  "tooltip_default = [(''animation'', BBool True),
     (''template'', BStr (''<div class='' @ [CHR 0x22] @ ''tooltip'' @ [CHR 0x22] @ '' role='' @ [CHR 0x22] @ ''tooltip'' @ [CHR 0x22]
        @ ''><div class='' @ [CHR 0x22] @ ''tooltip-arrow'' @ [CHR 0x22] @ ''></div><div class='' @ [CHR 0x22] @ ''tooltip-inner''
        @ [CHR 0x22] @ ''></div></div>'')),
     (''trigger'', BStr ''hover focus''), (''title'', BStr []), (''delay'', num_value 0), (''html'', BBool False),
     (''selector'', BBool False), (''placement'', BStr ''top''), (''offset'', BArr [num_value 0, num_value 0]),
     (''container'', BBool False), (''fallbackPlacements'', BArr [BStr ''top'', BStr ''right'', BStr ''bottom'', BStr ''left'']),
     (''boundary'', BStr ''clippingParents''), (''customClass'', BStr []), (''sanitize'', BBool True), (''sanitizeFn'', BNull),
     (''allowList'', allow_value DefaultAllowlist), (''popperConfig'', BNull)]"

definition tooltip_types :: "(string \<times> string) list" where
  "tooltip_types = [(''animation'', ''boolean''), (''template'', ''string''), (''title'', ''(string|element|function)''),
     (''trigger'', ''string''), (''delay'', ''(number|object)''), (''html'', ''boolean''), (''selector'', ''(string|boolean)''),
     (''placement'', ''(string|function)''), (''offset'', ''(array|string|function)''), (''container'', ''(string|element|boolean)''),
     (''fallbackPlacements'', ''array''), (''boundary'', ''(string|element)''), (''customClass'', ''(string|function)''),
     (''sanitize'', ''boolean''), (''sanitizeFn'', ''(null|function)''), (''allowList'', ''object''),
     (''popperConfig'', ''(null|object|function)'')]"

definition popover_default :: "(string \<times> bval) list" where
  "popover_default = spread tooltip_default [(''placement'', BStr ''right''), (''offset'', BArr [num_value 0, num_value 8]),
     (''trigger'', BStr ''click''), (''content'', BStr []),
     (''template'', BStr (''<div class='' @ [CHR 0x22] @ ''popover'' @ [CHR 0x22] @ '' role='' @ [CHR 0x22] @ ''tooltip'' @ [CHR 0x22]
        @ ''><div class='' @ [CHR 0x22] @ ''popover-arrow'' @ [CHR 0x22] @ ''></div><h3 class='' @ [CHR 0x22] @ ''popover-header''
        @ [CHR 0x22] @ ''></h3><div class='' @ [CHR 0x22] @ ''popover-body'' @ [CHR 0x22] @ ''></div></div>''))]"

definition popover_types :: "(string \<times> string) list" where
  "popover_types = tooltip_types @ [(''content'', ''(string|element|function)'')]"

text \<open>Numbers as text, a number as delay for both directions, \<open>false\<close> as container for the body.\<close>

definition number_text :: "string \<Rightarrow> (string \<times> bval) list \<Rightarrow> (string \<times> bval) list" where
  "number_text p config = (case bget config p of BNum x \<Rightarrow> oset config p (BStr (num_text x)) | _ \<Rightarrow> config)"

definition both_delays :: "(string \<times> bval) list \<Rightarrow> (string \<times> bval) list" where
  "both_delays config =
     (case bget config ''delay'' of
        BNum x \<Rightarrow> oset config ''delay'' (BObj [(''show'', BNum x), (''hide'', BNum x)])
      | _ \<Rightarrow> config)"

definition container_element ::
  "web_page \<Rightarrow> (string \<times> bval) list \<Rightarrow> ((string \<times> bval) list \<Rightarrow> bs_error + (string \<times> bval) list) \<Rightarrow>
     bs_error + (string \<times> bval) list" where
  "container_element pg config k =
     (case bget config ''container'' of
        BBool False \<Rightarrow> k (oset config ''container'' (BElem (body_element pg)))
      | _ \<Rightarrow> with_element pg ''container'' config k)"

text \<open>
  \<open>_getConfig\<close> of both, with the defaults and the types of the class; \<open>sanitize\<close> stands for \<open>sanitizeHtml\<close> on the
  template, the allow list and the client's function, which may give any value.
\<close>

definition tip_config ::
  "(bval \<Rightarrow> bval \<Rightarrow> bval \<Rightarrow> bval) \<Rightarrow> web_page \<Rightarrow> (string \<times> bval) list \<Rightarrow> (string \<times> string) list \<Rightarrow>
     attributes \<Rightarrow> bval \<Rightarrow> bs_error + (string \<times> bval) list" where
  "tip_config sanitize pg defaults types attrs config =
     (let dataAttributes = filter (\<lambda>(k, v). k \<notin> {''sanitize'', ''allowList'', ''sanitizeFn''}) (getDataAttributes attrs);
          config = spread (spread defaults dataAttributes) (object_props config)
      in container_element pg config (\<lambda>config.
           let config = number_text ''content'' (number_text ''title'' (both_delays config)) in
           case checked_config ''tooltip'' config types of
             Inl e \<Rightarrow> Inl e
           | Inr config \<Rightarrow>
               Inr (if truthy_b (bget config ''sanitize'')
                    then oset config ''template'' (sanitize (bget config ''template'') (bget config ''allowList'') (bget config ''sanitizeFn''))
                    else config)))"

definition tooltip_config ::
  "(bval \<Rightarrow> bval \<Rightarrow> bval \<Rightarrow> bval) \<Rightarrow> web_page \<Rightarrow> attributes \<Rightarrow> bval \<Rightarrow> bs_error + (string \<times> bval) list" where
  "tooltip_config sanitize pg attrs config = tip_config sanitize pg tooltip_default tooltip_types attrs config"

definition popover_config ::
  "(bval \<Rightarrow> bval \<Rightarrow> bval \<Rightarrow> bval) \<Rightarrow> web_page \<Rightarrow> attributes \<Rightarrow> bval \<Rightarrow> bs_error + (string \<times> bval) list" where
  "popover_config sanitize pg attrs config = tip_config sanitize pg popover_default popover_types attrs config"

section \<open>All components\<close>

datatype component =
    Carousel | Collapse | Modal | Offcanvas | Toast | Dropdown | Backdrop | FocusTrap | ScrollSpy | Tooltip | Popover

fun getConfig ::
  "(bval \<Rightarrow> bval \<Rightarrow> bval \<Rightarrow> bval) \<Rightarrow> web_page \<Rightarrow> component \<Rightarrow> attributes \<Rightarrow> bval \<Rightarrow> bs_error + (string \<times> bval) list" where
  "getConfig sanitize pg Carousel attrs config = carousel_config attrs config"
| "getConfig sanitize pg Collapse attrs config = collapse_config pg attrs config"
| "getConfig sanitize pg Modal attrs config = modal_config attrs config"
| "getConfig sanitize pg Offcanvas attrs config = offcanvas_config attrs config"
| "getConfig sanitize pg Toast attrs config = toast_config attrs config"
| "getConfig sanitize pg Dropdown attrs config = dropdown_config attrs config"
| "getConfig sanitize pg Backdrop attrs config = backdrop_config pg config"
| "getConfig sanitize pg FocusTrap attrs config = focustrap_config config"
| "getConfig sanitize pg ScrollSpy attrs config = scrollspy_config pg attrs config"
| "getConfig sanitize pg Tooltip attrs config = tooltip_config sanitize pg attrs config"
| "getConfig sanitize pg Popover attrs config = popover_config sanitize pg attrs config"

fun types_of :: "component \<Rightarrow> (string \<times> string) list" where
  "types_of Carousel = carousel_types"
| "types_of Collapse = collapse_types"
| "types_of Modal = modal_types"
| "types_of Offcanvas = offcanvas_types"
| "types_of Toast = toast_types"
| "types_of Dropdown = dropdown_types"
| "types_of Backdrop = backdrop_types"
| "types_of FocusTrap = focustrap_types"
| "types_of ScrollSpy = scrollspy_types"
| "types_of Tooltip = tooltip_types"
| "types_of Popover = popover_types"

end
