(* ===== verification/Bs_Config_Proofs.thy ===== *)
theory Bs_Config_Proofs
  imports Bs_Config
begin

text \<open>
  Types of options. \<open>has_type\<close> reads a type word on the constructors of values; \<open>declared\<close> lists the words of
  a type description. The patterns made from the descriptions decide \<open>has_type\<close>, and what \<open>typeCheckConfig\<close>
  accepts is well typed.
\<close>

section \<open>Type words\<close>

definition occurs_in :: "string \<Rightarrow> string \<Rightarrow> bool" where
  "occurs_in w s \<longleftrightarrow> list_ex (\<lambda>i. take (length w) (drop i s) = w) [0..<Suc (length s)]"

lemma occurs_in_iff: "occurs_in w s \<longleftrightarrow> (\<exists>u v. s = u @ w @ v)"
proof
  assume "occurs_in w s"
  then obtain i where "take (length w) (drop i s) = w" by (auto simp: occurs_in_def list_ex_iff)
  then have "s = take i s @ w @ drop (length w) (drop i s)"
    by (metis append_take_drop_id)
  then show "\<exists>u v. s = u @ w @ v" by blast
next
  assume "\<exists>u v. s = u @ w @ v"
  then obtain u v where "s = u @ w @ v" by blast
  then show "occurs_in w s"
    by (auto simp: occurs_in_def list_ex_iff intro!: bexI [of _ "length u"])
qed

fun has_type :: "string \<Rightarrow> bval \<Rightarrow> bool" where
  "has_type w BUndefined = False"
| "has_type w BNull = (w = ''null'')"
| "has_type w (BBool b) = (w = ''boolean'')"
| "has_type w (BNum x) = (w = ''number'')"
| "has_type w (BStr s) = (w = ''string'')"
| "has_type w (BElem i) = (w = ''element'')"
| "has_type w (BJQuery es) = (w = ''element'' \<and> es \<noteq> [])"
| "has_type w (BArr vs) = (w = ''array'')"
| "has_type w BFun = (w = ''function'')"
| "has_type w (BRegex r) = False"
| "has_type w (BObj ob) =
     (case isElement (BObj ob) of None \<Rightarrow> False | Some e \<Rightarrow> w = (if e then ''element'' else ''object''))"
| "has_type w (BHost tag) = occurs_in w (to_lower (takeWhile is_letter tag))"

text \<open>The words of a description: \<open>word\<close> or \<open>(word|word|...)\<close>.\<close>

definition declared :: "string \<Rightarrow> string list" where
  "declared e = split_where (\<lambda>c. c = CHR ''|'') (filter (\<lambda>c. c \<noteq> CHR ''('' \<and> c \<noteq> CHR '')'') e)"

definition descriptions :: "string list" where
  "descriptions = [''boolean'', ''string'', ''number'', ''object'', ''array'', ''element'', ''(number|boolean)'',
     ''(boolean|string)'', ''(string|boolean)'', ''(null|element)'', ''(array|string|function)'', ''(string|element)'',
     ''(string|element|object)'', ''(null|object|function)'', ''(element|string)'', ''(function|null)'',
     ''(string|element|function)'', ''(number|object)'', ''(string|function)'', ''(string|element|boolean)'', ''(null|function)'']"

definition type_words :: "string list" where
  "type_words = [''null'', ''boolean'', ''number'', ''string'', ''element'', ''array'', ''function'', ''object'']"

lemma descriptions_rx:
  "\<forall>e \<in> set descriptions. RegExp e = Some (alts (map lit (declared e)))"
  by (simp add: descriptions_def declared_def rx_eval)

lemma declared_words: "\<forall>e \<in> set descriptions. list_all (\<lambda>w. w \<in> set type_words) (declared e)"
  by code_simp

lemma declared_nonempty: "declared e \<noteq> []"
proof -
  have "split_where p s \<noteq> []" for p s by (induction s) (auto split: list.split)
  then show ?thesis by (simp add: declared_def)
qed

lemma test_alts: "rs \<noteq> [] \<Longrightarrow> regex_test (alts rs) s \<longleftrightarrow> (\<exists>r \<in> set rs. regex_test r s)"
  by (induction rs rule: alts.induct) (auto simp: test_Alt)

lemma test_word: "regex_test (lit w) s \<longleftrightarrow> occurs_in w s"
  unfolding test_anywhere [OF plain_lit] occurs_in_iff lang_lit by blast

lemma matches_declared:
  assumes "e \<in> set descriptions"
  shows "matches_type e t \<longleftrightarrow> (\<exists>w \<in> set (declared e). occurs_in w t)"
  using descriptions_rx assms declared_nonempty [of e]
  by (simp add: matches_type_def test_alts test_word)

text \<open>No type word is part of another word that \<open>toType\<close> gives.\<close>

lemma words_apart:
  "\<forall>w \<in> set type_words. \<forall>t \<in> set (''undefined'' # ''regexp'' # type_words). occurs_in w t = (w = t)"
  by code_simp

lemma word_type:
  assumes "w \<in> set type_words" and "valueType v = Some t"
  shows "occurs_in w t \<longleftrightarrow> has_type w v"
proof -
  have o: "occurs_in w t = (w = t)" if "t \<in> set (''undefined'' # ''regexp'' # type_words)" for t
    using words_apart assms(1) that by blast
  have n: "w \<noteq> ''undefined''" "w \<noteq> ''regexp''" using assms(1) by (auto simp: type_words_def)
  show ?thesis
    using assms(2) o n
    by (cases v) (auto simp: valueType_def isElement_def is_undefined_def type_words_def Let_def
        split: option.splits if_splits list.splits bool.splits)
qed

section \<open>What the check accepts\<close>

definition well_typed :: "(string \<times> bval) list \<Rightarrow> string \<times> string \<Rightarrow> bool" where
  "well_typed config = (\<lambda>(p, e). \<exists>w \<in> set (declared e). has_type w (bget config p))"

lemma has_type_value: "has_type w v \<Longrightarrow> w \<in> set type_words \<Longrightarrow> valueType v \<noteq> None"
  by (cases v) (auto simp: valueType_def isElement_def is_undefined_def Let_def split: option.splits if_splits list.splits bool.splits)

lemma typeCheck_None:
  assumes "snd ` set types \<subseteq> set descriptions"
  shows "typeCheckConfig name config types = None \<longleftrightarrow> (\<forall>d \<in> set types. well_typed config d)"
  using assms
proof (induction name config types rule: typeCheckConfig.induct)
  case (2 name config p e types)
  have e: "e \<in> set descriptions" using "2.prems" by simp
  then have words: "w \<in> set type_words" if "w \<in> set (declared e)" for w
    using declared_words that by (auto simp: list_all_iff)
  have "well_typed config (p, e) \<longleftrightarrow>
      (case valueType (bget config p) of None \<Rightarrow> False | Some t \<Rightarrow> matches_type e t)"
  proof (cases "valueType (bget config p)")
    case None
    then have "\<not> has_type w (bget config p)" if "w \<in> set (declared e)" for w
      using has_type_value [of w "bget config p"] words [OF that] by blast
    then show ?thesis using None by (simp add: well_typed_def)
  next
    case (Some t)
    then show ?thesis using words word_type [OF _ Some] by (simp add: well_typed_def matches_declared [OF e])
  qed
  then show ?case using 2 by (auto split: option.splits)
qed simp

lemma checked_typed:
  assumes "snd ` set types \<subseteq> set descriptions"
  shows "checked_config name config types = (if \<forall>d \<in> set types. well_typed config d then Inr config
    else Inl (the (typeCheckConfig name config types)))"
  using typeCheck_None [OF assms, of name config] by (auto simp: checked_config_def split: option.split)

lemma types_known: "snd ` set (types_of c) \<subseteq> set descriptions"
proof -
  have "list_all (\<lambda>c. list_all (\<lambda>(p, e). e \<in> set descriptions) (types_of c))
      [Carousel, Collapse, Modal, Offcanvas, Toast, Dropdown, Backdrop, FocusTrap, ScrollSpy, Tooltip, Popover]"
    by code_simp
  then have "list_all (\<lambda>(p, e). e \<in> set descriptions) (types_of c)" by (cases c) simp_all
  then show ?thesis by (auto simp: list_all_iff)
qed

section \<open>Every component\<close>

lemma bget_oset: "bget (oset ob k v) p = (if p = k then v else bget ob p)"
  by (simp add: bget_def)

lemma checked_Inr: "checked_config name config types = Inr c \<Longrightarrow> snd ` set types \<subseteq> set descriptions \<Longrightarrow>
    c = config \<and> (\<forall>d \<in> set types. well_typed c d)"
  using checked_typed [of types name config] by (auto split: if_splits)

lemma with_element_Inr: "with_element pg p config k = Inr c \<Longrightarrow> \<exists>config'. k config' = Inr c"
  by (auto simp: with_element_def split: option.splits)

lemma container_Inr: "container_element pg config k = Inr c \<Longrightarrow> \<exists>config'. k config' = Inr c"
  by (auto simp: container_element_def dest: with_element_Inr split: bval.splits bool.splits)

lemma dropdown_Inr: "dropdown_config attrs config = Inr c \<Longrightarrow> \<exists>config'. checked_config ''dropdown'' config' dropdown_types = Inr c"
  by (auto simp: dropdown_config_def Let_def split: sum.splits if_splits)

lemma tip_typed:
  assumes "tip_config sanitize pg defaults types attrs config = Inr c" and "snd ` set types \<subseteq> set descriptions"
    and "(p, e) \<in> set types" and "p \<noteq> ''template''"
  shows "well_typed c (p, e)"
proof -
  obtain config' where "(case checked_config ''tooltip'' config' types of Inl e \<Rightarrow> Inl e
      | Inr config \<Rightarrow> Inr (if truthy_b (bget config ''sanitize'')
          then oset config ''template'' (sanitize (bget config ''template'') (bget config ''allowList'') (bget config ''sanitizeFn''))
          else config)) = Inr c"
    using container_Inr assms(1) unfolding tip_config_def Let_def by blast
  then obtain d where d: "checked_config ''tooltip'' config' types = Inr d"
      "c = d \<or> (\<exists>v. c = oset d ''template'' v)"
    by (auto split: sum.splits if_splits)
  have "well_typed d (p, e)" using checked_Inr [OF d(1) assms(2)] assms(3) by blast
  then show ?thesis using d(2) assms(4) by (auto simp: well_typed_def bget_oset)
qed

lemma config_typed:
  assumes "getConfig sanitize pg which attrs config = Inr c" and "(p, e) \<in> set (types_of which)"
    and "p \<noteq> ''template''"
  shows "well_typed c (p, e)"
proof -
  note known = types_known [of which]
  have ok: "well_typed c (p, e)" if "checked_config name config' (types_of which) = Inr c" for name config'
    using checked_Inr [OF that known] assms(2) by blast
  show ?thesis
  proof (cases which)
    case Collapse
    then show ?thesis using assms(1) ok by (auto simp: collapse_config_def Let_def dest!: with_element_Inr)
  next
    case Dropdown
    then obtain config' where "checked_config ''dropdown'' config' dropdown_types = Inr c"
      using assms(1) dropdown_Inr by fastforce
    then show ?thesis using ok [of "''dropdown''" config'] Dropdown by simp
  next
    case Backdrop
    then show ?thesis using assms(1) ok by (auto simp: backdrop_config_def dest!: with_element_Inr)
  next
    case ScrollSpy
    then show ?thesis using assms(1) ok by (auto simp: scrollspy_config_def Let_def dest!: with_element_Inr)
  next
    case Tooltip
    then show ?thesis using assms known tip_typed by (simp add: tooltip_config_def)
  next
    case Popover
    then show ?thesis using assms known tip_typed by (simp add: popover_config_def)
  qed (use assms(1) ok in \<open>auto simp: carousel_config_def modal_config_def offcanvas_config_def toast_config_def focustrap_config_def\<close>)
qed

text \<open>A component without elements among its options throws exactly when an option is ill typed.\<close>

lemma checked_error:
  "(\<exists>er. checked_config name config (types_of which) = Inl er) \<longleftrightarrow> (\<exists>d \<in> set (types_of which). \<not> well_typed config d)"
  using checked_typed [OF types_known, of name config which] by auto

end
