(* ===== verification/Bs_Properties.thy ===== *)
theory Bs_Properties
  imports Bs_Carousel_Proofs Bs_Sanitizer_Proofs Bs_Config_Proofs
begin

text \<open>
  The properties of the components of \<open>bootstrap.js\<close>, each with an application to a concrete page.
\<close>

section \<open>Carousel\<close>

text \<open>Three items, the first one active; an interval of five seconds; no listener prevents a slide.\<close>

definition demo_carousel :: "bool \<Rightarrow> indicator list option \<Rightarrow> carousel" where
  "demo_carousel goes_round ds = \<lparr>item_count = 3, item_interval = (\<lambda>_. None),
     item_classes = (\<lambda>i. if i = 0 then {''carousel-item'', ''active''} else {''carousel-item''}),
     animated = True, rtl = False, indicators = ds, cfg_keyboard = True, cfg_wrap = goes_round, cfg_touch = True,
     cfg_hover = True, cfg_interval = Number 5000, default_interval = None, pointer_events = True,
     items = [], interval = None, activeElement = None, isPaused = False, isSliding = False, touchTimeout = None,
     touchStartX = 0, touchDeltaX = 0, live_intervals = [], live_timeouts = [], next_timer = 1, transitions = [],
     slid_timers = 0, deferred_to = [], next_listener = 0\<rparr>"

definition never_prevented :: slide_listener where
  "never_prevented from target = False"

lemma demo_carousel_start:
  "constructed (demo_carousel b ds)" "resting 0 (demo_carousel b ds)"
  by (auto simp: constructed_def demo_carousel_def resting_def active_def)

text \<open>C19: In every state a carousel can reach from one active item, whatever is called, clicked, typed, touched
  or timed in whatever order: at most one interval runs, the one the instance knows; and when the carousel
  goes round, exactly one item is active.
\<close>

theorem carousel_one_active:
  assumes "reachable_carousel s0 s" and "resting a s0"
  shows "live_intervals s = (case interval s of None \<Rightarrow> [] | Some k \<Rightarrow> [k])
    \<and> (cfg_wrap s \<longrightarrow> (\<exists>!i. i < item_count s \<and> active s i))"
  using reachable_sound [OF assms(1)] assms(2)
  by (auto simp: sound_def one_interval_def one_active_def resting_def)

theorem carousel_one_active_witness:
  "let s = act never_prevented CallNext (demo_carousel True None)
   in \<exists>!i. i < item_count s \<and> active s i"
proof -
  let ?s = "act never_prevented CallNext (demo_carousel True None)"
  have "reachable_carousel (demo_carousel True None) ?s"
    by (intro reachable_carousel.intros demo_carousel_start)
  moreover have "cfg_wrap ?s" by code_simp
  ultimately show ?thesis
    using carousel_one_active [OF _ demo_carousel_start(2)] by (simp add: Let_def)
qed



text \<open>Without \<open>wrap\<close>, \<open>prev\<close> at the first item during a slide takes the mark of the slide away, because the
  item it would go to is itself and is active; a further \<open>to\<close> then starts a second transition of the same
  item, and when both end two items are active.
\<close>

theorem carousel_two_active:
  assumes "\<not> cfg_wrap s" and "resting 0 s" and "2 < item_count s" and "\<not> isSliding s" and "transitions s = []"
    and "indicators s = None" and "animated s"
  shows "let t = play [(never_prevented, CallNext), (never_prevented, CallPrev), (never_prevented, CallTo 2),
             (never_prevented, TransitionEnd 0)] s
         in active t 1 \<and> active t 2"
proof -
  let ?p = never_prevented
  define t1 where "t1 = act ?p CallNext s"
  define t2 where "t2 = act ?p CallPrev t1"
  define t3 where "t3 = act ?p (CallTo (int 2)) t2"
  have b1: "begun 0 1 ORDER_NEXT s t1"
    using first_item_next [of s ?p] assms by (simp add: t1_def never_prevented_def)
  then have r1: "resting 0 t1" "\<not> cfg_wrap t1"
    using assms(1,2) begun_active [OF b1, of 0] by (simp_all add: begun_def)
  have t2: "t2 = (listing (Some 0) t1)\<lparr>isSliding := False\<rparr>"
    using first_item_prev [OF r1(2,1)] by (simp add: t2_def)
  have r2: "resting 0 t2" "2 < item_count t2" "\<not> isSliding t2" "indicators t2 = None" "animated t2"
      "transitions t2 = [(0, 1, ORDER_NEXT)]"
    using r1 b1 assms(3,5) by (auto simp: t2 begun_def listing_def resting_def)
  have b3: "begun 0 2 ORDER_NEXT t2 t3"
    using first_item_to [OF r2(1) _ _ r2(3) _ r2(4,5), of 2 ?p] r2(2) by (simp add: t3_def never_prevented_def)
  have "play [(?p, CallNext), (?p, CallPrev), (?p, CallTo 2), (?p, TransitionEnd 0)] s = transition_end 0 t3"
    by (simp add: play_def t1_def t2_def t3_def)
  moreover have "transitions t3 = [(0, 1, ORDER_NEXT), (0, 2, ORDER_NEXT)]"
    using b3 r2(6) by (simp add: begun_def)
  ultimately show ?thesis
    by (simp add: transition_end_def complete_active Let_def)
qed

theorem carousel_two_active_witness:
  "let t = play [(never_prevented, CallNext), (never_prevented, CallPrev), (never_prevented, CallTo 2),
       (never_prevented, TransitionEnd 0)] (demo_carousel False None)
   in active t 1 \<and> active t 2"
  by (rule carousel_two_active [OF _ demo_carousel_start(2)]) (simp_all add: demo_carousel_def)

text \<open>When no indicator is active, \<open>_slide\<close> throws after it has marked the carousel as sliding, with no
  transition that could take the mark back: from then on no call, key, touch or timer changes an item.
\<close>

theorem carousel_stuck_without_indicator:
  assumes "cfg_wrap s" and "resting a s" and "1 < item_count s" and "\<not> isSliding s" and "transitions s = []"
    and "indicators s = Some ds" and "\<And>d. d \<in> set ds \<Longrightarrow> \<not> lit_up d"
    and "n = (if Suc a = item_count s then 0 else Suc a)" and "\<not> p (int a) (int n)"
  shows "item_classes (play acts (act p CallNext s)) = item_classes s"
proof -
  define t where "t = (if interval s \<noteq> None then carousel_pause False ((listing (Some a) s)\<lparr>isSliding := True\<rparr>)
    else (listing (Some a) s)\<lparr>isSliding := True\<rparr>)"
  have t: "indicators t = Some ds" "busy [] (item_count s) (item_classes s) t"
    using assms(1-3,5,6) by (auto simp: t_def listing_def busy_def resting_def)
  have "first_indicator lit_up ds = None"
    using assms(7) by (auto simp: first_indicator_def find_None_iff)
  then have dark: "setActiveIndicator n t = (t, False)" by (simp add: setActiveIndicator_def t(1))
  have "act p CallNext s = t"
    using next_starts [where p = p, OF assms(1-4,8,9)] dark
    unfolding start_slide_def Let_def t_def [symmetric] by (simp add: carousel_slide_def)
  then show ?thesis using busy_play [OF t(2)] by (simp add: busy_def)
qed

text \<open>Two indicators for three items: at the third item none is active.\<close>

definition short_indicators :: "indicator list" where
  "short_indicators = [\<lparr>is_target = True, slide_to = Some 0, lit_up = True, aria_current = True\<rparr>,
     \<lparr>is_target = True, slide_to = Some 1, lit_up = False, aria_current = False\<rparr>]"

theorem carousel_stuck_without_indicator_witness:
  "let s = play [(never_prevented, CallNext), (never_prevented, TransitionEnd 0), (never_prevented, CallNext),
       (never_prevented, TransitionEnd 1)] (demo_carousel True (Some short_indicators));
     t = play [(never_prevented, CallTo 0), (never_prevented, SlidTimer), (never_prevented, CallPrev),
       (never_prevented, TransitionEnd 2)] (act never_prevented CallNext s)
   in active s 2 \<and> active t 2 \<and> \<not> active t 0"
proof -
  let ?s = "play [(never_prevented, CallNext), (never_prevented, TransitionEnd 0), (never_prevented, CallNext),
      (never_prevented, TransitionEnd 1)] (demo_carousel True (Some short_indicators))"
  let ?ds = "[\<lparr>is_target = True, slide_to = Some 0, lit_up = False, aria_current = False\<rparr>,
     \<lparr>is_target = True, slide_to = Some 1, lit_up = False, aria_current = False\<rparr>]"
  have s: "cfg_wrap ?s" "item_count ?s = 3" "\<not> isSliding ?s" "transitions ?s = []" "indicators ?s = Some ?ds"
      "active ?s 2" "\<not> active ?s 0" "\<not> active ?s 1"
    by code_simp+
  have "resting 2 ?s"
    unfolding resting_def s(2) using s(6-8) by (auto simp: numeral_3_eq_3 numeral_2_eq_2 less_Suc_eq)
  then have "item_classes (play acts (act never_prevented CallNext ?s)) = item_classes ?s" for acts
    by (rule carousel_stuck_without_indicator [OF s(1) _ _ s(3-5), where n = 0])
      (use s(2) in \<open>auto simp: never_prevented_def\<close>)
  then show ?thesis using s(6,7) by (simp add: Let_def active_def)
qed

section \<open>Sanitizer\<close>

definition demo_page :: "dom list" where
  "demo_page = [El 0 ''DIV'' [(''class'', ''box''), (''onclick'', ''steal()'')]
     [El 1 ''A'' [(''HREF'', ''javascript:steal()''), (''title'', ''t'')] [Txt ''go''], El 2 ''SCRIPT'' [] [Txt ''steal()''],
      El 3 ''A'' [(''href'', ''HTTPS://x'')] []]]"

lemma demo_page_parsed: "parsed demo_page"
  by (simp add: parsed_def demo_page_def)

text \<open>C21: The loop that removes elements and attributes one by one, from a list of elements taken before it
  begins, computes one pass over the tree that keeps the allowed elements with their allowed attributes:
  elements that were removed with an ancestor, and those whose list entry is stale, make no difference.\<close>

theorem sanitize_is_filter:
  assumes "parsed doc"
  shows "sanitize_document al doc = filtered al doc"
  using assms by (rule sanitize_is_filtered)

theorem sanitize_is_filter_witness:
  "sanitize_document [(''div'', [Name ''class'']), (''a'', [Name ''title''])] demo_page =
     [El 0 ''DIV'' [(''class'', ''box'')] [El 1 ''A'' [(''title'', ''t'')] [Txt ''go''], El 3 ''A'' [] []]]"
  unfolding sanitize_is_filter [OF demo_page_parsed]
  by code_simp

text \<open>C22: With the default allow list, no element outside the list is left, no attribute whose name begins
  with \<open>on\<close>, and no URL attribute with a scheme, as a browser reads it, other than the six listed ones and
  \<open>data\<close>: in particular no script.\<close>

theorem sanitized_page_is_safe:
  assumes "parsed doc" and "(i, n, as) \<in> set (elements_of (sanitize_document DefaultAllowlist doc))" and "(k, v) \<in> set as"
  shows "to_lower n \<in> fst ` set DefaultAllowlist \<and> take 2 (to_lower k) \<noteq> ''on''
    \<and> (to_lower k \<in> set uriAttrs \<longrightarrow> url_scheme v = None \<or> url_scheme v \<in> Some ` set (''data'' # safe_schemes))"
  using filtered_elements assms(2,3) default_attribute unfolding sanitize_is_filtered [OF assms(1)] by blast

theorem sanitized_page_is_safe_witness:
  "url_scheme ''HTTPS://x'' \<in> Some ` set (''data'' # safe_schemes)"
proof -
  have "(3, ''A'', [(''href'', ''HTTPS://x'')]) \<in> set (elements_of (sanitize_document DefaultAllowlist demo_page))"
    by code_simp
  from sanitized_page_is_safe [OF demo_page_parsed this, of "''href''" "''HTTPS://x''"]
  have "to_lower ''href'' \<in> set uriAttrs \<longrightarrow> url_scheme ''HTTPS://x'' = None \<or>
      url_scheme ''HTTPS://x'' \<in> Some ` set (''data'' # safe_schemes)"
    by simp
  moreover have "to_lower ''href'' \<in> set uriAttrs" "url_scheme ''HTTPS://x'' \<noteq> None" by code_simp+
  ultimately show ?thesis by blast
qed

section \<open>Options\<close>

text \<open>C23: Whatever the data attributes say and whatever a client passes, when the options of a component are
  accepted, every declared option has one of its declared types, after the conversions of the component.
  (The template of a tooltip is replaced after the check by what the sanitizer of the client gives.)\<close>

theorem options_well_typed:
  assumes "getConfig sanitize pg which attrs given = Inr config" and "(p, e) \<in> set (types_of which)"
    and "p \<noteq> ''template''"
  shows "\<exists>w \<in> set (declared e). has_type w (bget config p)"
  using config_typed [OF assms] by (simp add: well_typed_def)

definition demo_web :: web_page where
  "demo_web = \<lparr>query = (\<lambda>s. if s = ''body'' then Some 1 else None), body_element = 1, root_element = 0\<rparr>"

theorem options_well_typed_witness:
  "\<exists>w \<in> set (declared ''(number|boolean)''). has_type w
     (bget (projr (getConfig (\<lambda>t a f. t) demo_web Carousel [(''data-bs-interval'', ''2000'')] BUndefined)) ''interval'')"
proof -
  let ?c = "getConfig (\<lambda>t a f. t) demo_web Carousel [(''data-bs-interval'', ''2000'')] BUndefined"
  have "\<not> isl ?c" by code_simp
  then have "?c = Inr (projr ?c)" by simp
  then show ?thesis by (rule options_well_typed [where p = "''interval''"]) (simp_all add: carousel_types_def)
qed

end
