(* ===== verification/Bs_Dom.thy ===== *)
theory Bs_Dom
  imports Bs_Config
begin

text \<open>
  Elements as the components of \<open>bootstrap.js\<close> change them: inline styles, attributes and classes, and what every
  change leaves alone.
\<close>

section \<open>Elements\<close>

record styled =
  styles :: "(string \<times> string) list"
  attrs_of :: attributes
  class_list :: "string list"

type_synonym sheet = "nat \<Rightarrow> styled"

definition classList_add :: "string \<Rightarrow> string list \<Rightarrow> string list" where
  "classList_add c cs = (if c \<in> set cs then cs else cs @ [c])"

definition classList_remove :: "string \<Rightarrow> string list \<Rightarrow> string list" where
  "classList_remove c cs = removeAll c cs"

text \<open>\<open>element.style[p]\<close>; writing the empty text or null removes the property.\<close>

definition style_of :: "string \<Rightarrow> styled \<Rightarrow> string" where
  "style_of p el = (case oget (styles el) p of None \<Rightarrow> [] | Some v \<Rightarrow> v)"

definition set_style :: "string \<Rightarrow> string \<Rightarrow> styled \<Rightarrow> styled" where
  "set_style p v el = el\<lparr>styles := (if v = [] then odel (styles el) p else oset (styles el) p v)\<rparr>"

definition add_class :: "string \<Rightarrow> styled \<Rightarrow> styled" where
  "add_class c el = el\<lparr>class_list := classList_add c (class_list el)\<rparr>"

definition remove_class :: "string \<Rightarrow> styled \<Rightarrow> styled" where
  "remove_class c el = el\<lparr>class_list := classList_remove c (class_list el)\<rparr>"

definition set_attribute :: "string \<Rightarrow> string \<Rightarrow> styled \<Rightarrow> styled" where
  "set_attribute k v el = el\<lparr>attrs_of := oset (attrs_of el) k v\<rparr>"

definition drop_attribute :: "string \<Rightarrow> styled \<Rightarrow> styled" where
  "drop_attribute k el = el\<lparr>attrs_of := odel (attrs_of el) k\<rparr>"

text \<open>The property \<open>disabled\<close> of an element, if it has one, goes before the attribute.\<close>

definition isDisabled :: "styled \<Rightarrow> bool option \<Rightarrow> bool" where
  "isDisabled el property =
     (if ''disabled'' \<in> set (class_list el) then True
      else case property of
             Some b \<Rightarrow> b
           | None \<Rightarrow> oget (attrs_of el) ''disabled'' \<notin> {None, Some ''false''})"

section \<open>What changes leave alone\<close>

lemma style_simps [simp]:
  "oget (styles (set_style p v el)) q = (if q = p then (if v = [] then None else Some v) else oget (styles el) q)"
  "attrs_of (set_style p v el) = attrs_of el"
  by (simp_all add: set_style_def)

lemma class_simps [simp]:
  "class_list (set_style k v el) = class_list el" "class_list (set_attribute k v el) = class_list el"
  "class_list (drop_attribute k el) = class_list el"
  "set (class_list (add_class c el)) = insert c (set (class_list el))"
  "set (class_list (remove_class c el)) = set (class_list el) - {c}"
  by (auto simp: set_style_def set_attribute_def drop_attribute_def
        add_class_def remove_class_def classList_add_def classList_remove_def)

end
