(* ===== verification/Bs_ScrollBar.thy ===== *)
theory Bs_ScrollBar
  imports Bs_Dom
begin

text \<open>
  \<open>ScrollBarHelper\<close> of \<open>bootstrap.js\<close>: hiding the scroll bar of the page while a modal is open, moving what is
  fixed to its right by the width of the bar, and putting the inline styles back. The layout
  (widths, computed styles) is a parameter.
\<close>

section \<open>State\<close>

text \<open>
  The window: its inner width, and what the page looks like with given inline styles: the width left beside the
  scroll bar, the width of an element, its computed styles in pixels. The elements that the two selectors find.
\<close>

record window =
  innerWidth :: int
  rootWidth :: "sheet \<Rightarrow> int"
  clientWidth :: "sheet \<Rightarrow> nat \<Rightarrow> int"
  computed :: "sheet \<Rightarrow> nat \<Rightarrow> string \<Rightarrow> decimal"
  fixed_content :: "nat list"
  sticky_content :: "nat list"
  body_id :: nat

definition written :: "bval \<Rightarrow> string" where
  "written v = (case v of BStr s \<Rightarrow> s | BNum x \<Rightarrow> num_text x | BBool b \<Rightarrow> (if b then ''true'' else ''false'') | _ \<Rightarrow> [])"

section \<open>Operations\<close>

definition getWidth :: "window \<Rightarrow> sheet \<Rightarrow> int" where
  "getWidth w doc = \<bar>innerWidth w - rootWidth w doc\<bar>"

definition isOverflowing :: "window \<Rightarrow> sheet \<Rightarrow> bool" where
  "isOverflowing w doc \<longleftrightarrow> getWidth w doc > 0"

definition saveInitialAttribute :: "string \<Rightarrow> styled \<Rightarrow> styled" where
  "saveInitialAttribute p el =
     (if style_of p el \<noteq> [] then el\<lparr>attrs_of := setDataAttribute (attrs_of el) p (style_of p el)\<rparr> else el)"

definition disableOverFlow :: "window \<Rightarrow> sheet \<Rightarrow> sheet" where
  "disableOverFlow w doc =
     doc(body_id w := set_style ''overflow'' ''hidden'' (saveInitialAttribute ''overflow'' (doc (body_id w))))"

definition moved :: "decimal \<Rightarrow> int \<Rightarrow> string" where
  "moved d n = num_text (Some (Dec (mantissa d + n * 10 ^ places d) (places d))) @ ''px''"

text \<open>\<open>_applyManipulationCallback\<close>: one element, or every element that a selector finds, in order.\<close>

definition applyManipulationCallback :: "nat list \<Rightarrow> (sheet \<Rightarrow> nat \<Rightarrow> styled \<Rightarrow> styled) \<Rightarrow> sheet \<Rightarrow> sheet" where
  "applyManipulationCallback es f doc = fold (\<lambda>e doc. doc(e := f doc e (doc e))) es doc"

definition setElementAttributes :: "window \<Rightarrow> nat list \<Rightarrow> string \<Rightarrow> int \<Rightarrow> sheet \<Rightarrow> sheet" where
  "setElementAttributes w es p n doc =
     (let scrollbarWidth = getWidth w doc in
      applyManipulationCallback es (\<lambda>doc e el.
        if e \<noteq> body_id w \<and> innerWidth w > clientWidth w doc e + scrollbarWidth then el
        else (let el' = saveInitialAttribute p el in
              set_style p (moved (computed w (doc(e := el')) e p) n) el')) doc)"

definition scroll_hide :: "window \<Rightarrow> sheet \<Rightarrow> sheet" where
  "scroll_hide w doc =
     (let width = getWidth w doc;
          doc = disableOverFlow w doc;
          doc = setElementAttributes w [body_id w] ''paddingRight'' width doc;
          doc = setElementAttributes w (fixed_content w) ''paddingRight'' width doc
      in setElementAttributes w (sticky_content w) ''marginRight'' (- width) doc)"

definition restored :: "string \<Rightarrow> styled \<Rightarrow> styled" where
  "restored p el =
     (let value = getDataAttribute (attrs_of el) p in
      if is_undefined value then set_style p [] el
      else set_style p (written value) (el\<lparr>attrs_of := removeDataAttribute (attrs_of el) p\<rparr>))"

definition resetElementAttributes :: "nat list \<Rightarrow> string \<Rightarrow> sheet \<Rightarrow> sheet" where
  "resetElementAttributes es p doc = applyManipulationCallback es (\<lambda>_ _. restored p) doc"

definition scroll_reset :: "window \<Rightarrow> sheet \<Rightarrow> sheet" where
  "scroll_reset w doc =
     (let doc = resetElementAttributes [body_id w] ''overflow'' doc;
          doc = resetElementAttributes [body_id w] ''paddingRight'' doc;
          doc = resetElementAttributes (fixed_content w) ''paddingRight'' doc
      in resetElementAttributes (sticky_content w) ''marginRight'' doc)"

section \<open>One element at a time\<close>

lemma apply_elsewhere: "e \<notin> set es \<Longrightarrow> applyManipulationCallback es f doc e = doc e"
  unfolding applyManipulationCallback_def by (induction es arbitrary: doc) auto

lemma apply_at:
  assumes "distinct es" "e \<in> set es"
  shows "\<exists>doc'. doc' e = doc e \<and> applyManipulationCallback es f doc e = f doc' e (doc e)"
  using assms
proof (induction es arbitrary: doc)
  case (Cons x es)
  define doc2 where "doc2 = doc(x := f doc x (doc x))"
  have step: "applyManipulationCallback (x # es) f doc = applyManipulationCallback es f doc2"
    by (simp add: applyManipulationCallback_def doc2_def)
  show ?case
  proof (cases "e = x")
    case True
    then show ?thesis using Cons.prems apply_elsewhere [of e es f doc2] step by (auto simp: doc2_def)
  next
    case False
    then have "doc2 e = doc e" by (simp add: doc2_def)
    then show ?thesis using False Cons.prems Cons.IH [of doc2] step by simp
  qed
qed simp

lemma save_simps [simp]:
  "styles (saveInitialAttribute p el) = styles el" "class_list (saveInitialAttribute p el) = class_list el"
  by (simp_all add: saveInitialAttribute_def)

definition data_name :: "string \<Rightarrow> string" where
  "data_name p = ''data-bs-'' @ normalizeDataKey p"

definition adjusted :: "string \<Rightarrow> styled \<Rightarrow> styled \<Rightarrow> bool" where
  "adjusted p el el' \<longleftrightarrow> (\<exists>v. v \<noteq> [] \<and> el' = set_style p v (saveInitialAttribute p el))"

lemma saved_attr:
  "oget (attrs_of (saveInitialAttribute p el)) k =
    (if k = data_name p \<and> style_of p el \<noteq> [] then Some (style_of p el) else oget (attrs_of el) k)"
  by (simp add: saveInitialAttribute_def setDataAttribute_def data_name_def)

lemma normalize_defined: "\<not> is_undefined (getDataAttribute attrs p)"
  by (simp add: getDataAttribute_def normalizeData_def is_undefined_def split: option.split)

lemma restored_get:
  "oget (styles (restored p el)) q = (if q = p
     then (let v = written (normalizeData (oget (attrs_of el) (data_name p))) in if v = [] then None else Some v)
     else oget (styles el) q)"
  "oget (attrs_of (restored p el)) k = (if k = data_name p then None else oget (attrs_of el) k)"
  using normalize_defined [of "attrs_of el" p]
  by (simp_all add: restored_def data_name_def getDataAttribute_def removeDataAttribute_def Let_def)

lemma adjusted_get:
  assumes "adjusted p el el'"
  shows "q \<noteq> p \<Longrightarrow> oget (styles el') q = oget (styles el) q"
    and "oget (attrs_of el') k =
      (if k = data_name p \<and> style_of p el \<noteq> [] then Some (style_of p el) else oget (attrs_of el) k)"
  using assms by (auto simp: adjusted_def saved_attr)

text \<open>A style is no empty text and not the text of null, so it is written back as it was.\<close>

definition plain_at :: "string \<Rightarrow> styled \<Rightarrow> bool" where
  "plain_at p el \<longleftrightarrow> oget (styles el) p \<noteq> Some [] \<and> oget (styles el) p \<noteq> Some ''null''"

definition plain_style :: "styled \<Rightarrow> bool" where
  "plain_style el \<longleftrightarrow> (\<forall>(p, v) \<in> set (styles el). v \<noteq> [] \<and> v \<noteq> ''null'')"

lemma plain_styleD: "plain_style el \<Longrightarrow> plain_at p el"
  unfolding plain_style_def plain_at_def oget_def by (auto dest: map_of_SomeD)

lemma written_back: "v \<noteq> [] \<Longrightarrow> v \<noteq> ''null'' \<Longrightarrow> written (normalizeData (Some v)) = v"
  by (simp add: written_def normalizeData_def)

lemma saved_back:
  assumes "plain_at p el"
  shows "style_of p el \<noteq> [] \<Longrightarrow>
      (let v = written (normalizeData (Some (style_of p el))) in if v = [] then None else Some v) = oget (styles el) p"
    and "style_of p el = [] \<Longrightarrow>
      (let v = written (normalizeData None) in if v = [] then None else Some v) = oget (styles el) p"
  using assms
  by (cases "oget (styles el) p"; simp add: plain_at_def style_of_def written_back written_def normalizeData_def)+

section \<open>Hiding and resetting\<close>

lemma moved_nonempty: "moved d n \<noteq> []"
  by (simp add: moved_def)

text \<open>What hiding does to an element in one step: nothing, or it saves the style and sets another.\<close>

lemma set_attributes_at:
  assumes "distinct es"
  shows "e \<notin> set es \<Longrightarrow> setElementAttributes w es p n doc e = doc e"
    and "setElementAttributes w es p n doc e = doc e \<or> adjusted p (doc e) (setElementAttributes w es p n doc e)"
    and "e \<in> set es \<Longrightarrow> e = body_id w \<Longrightarrow> adjusted p (doc e) (setElementAttributes w es p n doc e)"
proof -
  let ?f = "\<lambda>doc' e el.
        if e \<noteq> body_id w \<and> innerWidth w > clientWidth w doc' e + getWidth w doc then el
        else (let el' = saveInitialAttribute p el in
              set_style p (moved (computed w (doc'(e := el')) e p) n) el')"
  have eq: "setElementAttributes w es p n doc = applyManipulationCallback es ?f doc"
    by (simp add: setElementAttributes_def)
  show "e \<notin> set es \<Longrightarrow> setElementAttributes w es p n doc e = doc e"
    by (simp add: eq apply_elsewhere)
  have step: "?f doc' e el = el \<or> adjusted p el (?f doc' e el)" "e = body_id w \<Longrightarrow> adjusted p el (?f doc' e el)" for doc' el
    using moved_nonempty by (auto simp: adjusted_def Let_def)
  obtain doc' where at: "e \<in> set es \<Longrightarrow> setElementAttributes w es p n doc e = ?f doc' e (doc e)"
    using apply_at [OF assms, where e = e and f = ?f and doc = doc] unfolding eq by blast
  show "adjusted p (doc e) (setElementAttributes w es p n doc e)" if "e \<in> set es" "e = body_id w"
    unfolding at [OF that(1)] by (rule step(2) [OF that(2)])
  show "setElementAttributes w es p n doc e = doc e \<or> adjusted p (doc e) (setElementAttributes w es p n doc e)"
  proof (cases "e \<in> set es")
    case True
    show ?thesis unfolding at [OF True] by (rule step(1))
  next
    case False
    then show ?thesis by (simp add: eq apply_elsewhere)
  qed
qed

lemma reset_attributes_at:
  assumes "distinct es"
  shows "resetElementAttributes es p doc e = (if e \<in> set es then restored p (doc e) else doc e)"
  using apply_at [OF assms, where e = e and f = "\<lambda>_ _. restored p" and doc = doc]
    apply_elsewhere [where e = e and es = es and f = "\<lambda>_ _. restored p" and doc = doc]
  by (auto simp: resetElementAttributes_def)

text \<open>The attributes that hiding saves to are free.\<close>

definition no_saved :: "styled \<Rightarrow> bool" where
  "no_saved el \<longleftrightarrow> (\<forall>p \<in> {''overflow'', ''paddingRight'', ''marginRight''}. oget (attrs_of el) (data_name p) = None)"

lemma data_names [simp]:
  "data_name ''overflow'' = ''data-bs-overflow''"
  "data_name ''paddingRight'' = ''data-bs-padding-right''"
  "data_name ''marginRight'' = ''data-bs-margin-right''"
  by code_simp+

lemma style_of_cong: "oget (styles a) p = oget (styles b) p \<Longrightarrow> style_of p a = style_of p b"
  by (simp add: style_of_def)

text \<open>One property of one element: set or left alone, then restored.\<close>

definition style_back :: "string \<Rightarrow> styled \<Rightarrow> styled \<Rightarrow> styled \<Rightarrow> bool" where
  "style_back p el hidden after \<longleftrightarrow>
     oget (styles after) p = oget (styles el) p \<or>
     oget (styles after) p = None \<and> oget (styles hidden) p = oget (styles el) p"

lemma body_back:
  assumes "adjusted ''paddingRight'' (set_style ''overflow'' ''hidden'' (saveInitialAttribute ''overflow'' el)) hid"
    and "plain_style el" "no_saved el"
  shows "oget (styles (restored ''paddingRight'' (restored ''overflow'' hid))) q = oget (styles el) q"
proof -
  let ?mid = "set_style ''overflow'' ''hidden'' (saveInitialAttribute ''overflow'' el)"
  have mid: "adjusted ''overflow'' el ?mid" by (auto simp: adjusted_def)
  have "style_of ''paddingRight'' ?mid = style_of ''paddingRight'' el" by (simp add: style_of_def)
  moreover have "oget (attrs_of el) ''data-bs-overflow'' = None" "oget (attrs_of el) ''data-bs-padding-right'' = None"
    using assms(3) by (simp_all add: no_saved_def)
  ultimately show ?thesis
    using adjusted_get(1) [OF assms(1), of q]
    by (cases "q = ''paddingRight''"; cases "q = ''overflow''")
       (simp_all add: restored_get adjusted_get(2) [OF assms(1)] saved_attr saved_back [OF plain_styleD [OF assms(2)]])
qed

lemma one_back:
  assumes "hid = el \<or> adjusted p el hid" "plain_at p el" "oget (attrs_of el) (data_name p) = None"
  shows "style_back p el hid (restored p hid)"
proof -
  have "oget (styles (restored p el)) p = None"
    using assms(3) by (simp add: restored_get written_def normalizeData_def)
  moreover have "oget (styles (restored p hid)) p = oget (styles el) p" if "adjusted p el hid"
    using assms(3) that by (simp add: restored_get adjusted_get(2) [OF that] saved_back [OF assms(2)])
  ultimately show ?thesis using assms(1) by (auto simp: style_back_def)
qed

lemma kept_by:
  assumes "hid = el \<or> adjusted p el hid"
  shows "q \<noteq> p \<Longrightarrow> oget (styles hid) q = oget (styles el) q"
    and "k \<noteq> data_name p \<Longrightarrow> oget (attrs_of hid) k = oget (attrs_of el) k"
  using assms by (auto dest: adjusted_get(1) simp: adjusted_get(2))

text \<open>An element that both selectors may find: its padding, then its margin, in both directions.\<close>

lemma item_back:
  assumes "h1 = el \<or> adjusted ''paddingRight'' el h1" "h2 = h1 \<or> adjusted ''marginRight'' h1 h2"
    and "plain_style el" "no_saved el"
    and "\<not> f \<Longrightarrow> h1 = el" "\<not> s \<Longrightarrow> h2 = h1"
  shows "style_back q el h2 ((if s then restored ''marginRight'' else id) ((if f then restored ''paddingRight'' else id) h2))"
proof -
  note kept1 = kept_by [OF assms(1)] and kept2 = kept_by [OF assms(2)]
  have free: "oget (attrs_of el) ''data-bs-padding-right'' = None" "oget (attrs_of h1) ''data-bs-margin-right'' = None"
    using assms(4) kept1(2) [of "''data-bs-margin-right''"] by (simp_all add: no_saved_def)
  have "plain_at ''marginRight'' h1"
    using plain_styleD [OF assms(3)] kept1(1) [of "''marginRight''"] by (simp add: plain_at_def)
  then have margin: "style_back ''marginRight'' h1 h2 (restored ''marginRight'' h2)"
    using one_back [OF assms(2)] free by simp
  have padding: "style_back ''paddingRight'' el h1 (restored ''paddingRight'' h1)"
    using one_back [OF assms(1)] plain_styleD [OF assms(3)] free by simp
  consider "q = ''paddingRight''" | "q = ''marginRight''" | "q \<noteq> ''paddingRight''" "q \<noteq> ''marginRight''" by blast
  then show ?thesis
  proof cases
    case 1
    then show ?thesis using padding assms(5) kept2(1) [of "''paddingRight''"] kept2(2) [of "''data-bs-padding-right''"]
      by (auto simp: style_back_def restored_get)
  next
    case 2
    then show ?thesis using margin assms(6) kept1(1) [of "''marginRight''"]
      by (auto simp: style_back_def restored_get)
  next
    case 3
    then show ?thesis using kept1(1) [of q] kept2(1) [of q] by (auto simp: style_back_def restored_get)
  qed
qed

text \<open>The body.\<close>

lemma hide_body:
  assumes "distinct (fixed_content w)" "distinct (sticky_content w)"
    and "body_id w \<notin> set (fixed_content w)" "body_id w \<notin> set (sticky_content w)"
  shows "adjusted ''paddingRight''
    (set_style ''overflow'' ''hidden'' (saveInitialAttribute ''overflow'' (doc (body_id w)))) (scroll_hide w doc (body_id w))"
  using set_attributes_at(3) [of "[body_id w]" "body_id w" w "''paddingRight''" "disableOverFlow w doc" "getWidth w doc"] assms
  by (simp add: scroll_hide_def Let_def set_attributes_at(1) disableOverFlow_def)

lemma reset_body:
  assumes "distinct (fixed_content w)" "distinct (sticky_content w)"
    and "body_id w \<notin> set (fixed_content w)" "body_id w \<notin> set (sticky_content w)"
  shows "scroll_reset w doc (body_id w) = restored ''paddingRight'' (restored ''overflow'' (doc (body_id w)))"
  using assms by (simp add: scroll_reset_def Let_def reset_attributes_at)

lemma hidden_overflow:
  assumes "adjusted ''paddingRight'' (set_style ''overflow'' ''hidden'' (saveInitialAttribute ''overflow'' el)) hid"
  shows "oget (styles hid) ''overflow'' = Some ''hidden''"
    and "style_of ''overflow'' el \<noteq> [] \<Longrightarrow> oget (attrs_of hid) ''data-bs-overflow'' = Some (style_of ''overflow'' el)"
  using adjusted_get(1) [OF assms, of "''overflow''"] by (simp_all add: adjusted_get(2) [OF assms] saved_attr)

lemma reset_overflow:
  "oget (styles (restored ''paddingRight'' (restored ''overflow'' el))) ''overflow'' =
    (let v = written (normalizeData (oget (attrs_of el) ''data-bs-overflow'')) in if v = [] then None else Some v)"
  "oget (attrs_of (restored ''paddingRight'' (restored ''overflow'' el))) ''data-bs-overflow'' = None"
  by (simp_all add: restored_get)

text \<open>The whole page.\<close>

lemma reset_hidden_at:
  assumes "distinct (fixed_content w)" "distinct (sticky_content w)"
    and "body_id w \<notin> set (fixed_content w)" "body_id w \<notin> set (sticky_content w)"
    and "plain_style (doc e)" "no_saved (doc e)"
  shows "style_back p (doc e) (scroll_hide w doc e) (scroll_reset w (scroll_hide w doc) e)"
    and "e = body_id w \<Longrightarrow> oget (styles (scroll_reset w (scroll_hide w doc) e)) p = oget (styles (doc e)) p"
proof -
  show body: "oget (styles (scroll_reset w (scroll_hide w doc) e)) p = oget (styles (doc e)) p" if "e = body_id w"
    unfolding that reset_body [OF assms(1-4)]
    by (rule body_back [OF hide_body [OF assms(1-4)]]) (use assms(5,6) that in simp_all)
  define n where "n = getWidth w doc"
  define d2 where "d2 = setElementAttributes w [body_id w] ''paddingRight'' n (disableOverFlow w doc)"
  define d3 where "d3 = setElementAttributes w (fixed_content w) ''paddingRight'' n d2"
  define d4 where "d4 = setElementAttributes w (sticky_content w) ''marginRight'' (- n) d3"
  have hide: "scroll_hide w doc = d4"
    by (simp add: scroll_hide_def d2_def d3_def d4_def n_def Let_def)
  have reset: "scroll_reset w d4 e =
    (if e \<in> set (sticky_content w) then restored ''marginRight'' else id)
      ((if e \<in> set (fixed_content w) then restored ''paddingRight'' else id) (d4 e))" if "e \<noteq> body_id w"
    using assms(3,4) that by (simp add: scroll_reset_def Let_def reset_attributes_at assms(1,2))
  show "style_back p (doc e) (scroll_hide w doc e) (scroll_reset w (scroll_hide w doc) e)"
  proof (cases "e = body_id w")
    case False
    then have "d2 e = doc e"
      by (simp add: d2_def disableOverFlow_def set_attributes_at(1))
    moreover have "e \<notin> set (fixed_content w) \<Longrightarrow> d3 e = d2 e" "d3 e = d2 e \<or> adjusted ''paddingRight'' (d2 e) (d3 e)"
      unfolding d3_def by (rule set_attributes_at [OF assms(1)], assumption) (rule set_attributes_at(2) [OF assms(1)])
    moreover have "e \<notin> set (sticky_content w) \<Longrightarrow> d4 e = d3 e" "d4 e = d3 e \<or> adjusted ''marginRight'' (d3 e) (d4 e)"
      unfolding d4_def by (rule set_attributes_at [OF assms(2)], assumption) (rule set_attributes_at(2) [OF assms(2)])
    ultimately have "style_back p (doc e) (d4 e)
        ((if e \<in> set (sticky_content w) then restored ''marginRight'' else id)
          ((if e \<in> set (fixed_content w) then restored ''paddingRight'' else id) (d4 e)))"
      using assms(5,6) by (intro item_back) simp_all
    then show ?thesis unfolding hide reset [OF False] .
  next
    case True
    then show ?thesis using body by (auto simp: style_back_def)
  qed
qed


text \<open>Hidden twice and reset twice, as with a modal opened from a modal.\<close>

lemma nested_overflow:
  assumes "distinct (fixed_content w)" "distinct (sticky_content w)"
    and "body_id w \<notin> set (fixed_content w)" "body_id w \<notin> set (sticky_content w)"
  shows "oget (styles (scroll_reset w (scroll_hide w (scroll_hide w doc)) (body_id w))) ''overflow'' = Some ''hidden''"
    and "oget (styles (scroll_reset w (scroll_reset w (scroll_hide w (scroll_hide w doc))) (body_id w))) ''overflow'' = None"
proof -
  note hide1 = hidden_overflow [OF hide_body [OF assms]]
  have "style_of ''overflow'' (scroll_hide w doc (body_id w)) = ''hidden''"
    by (simp add: style_of_def hide1(1))
  then have "oget (attrs_of (scroll_hide w (scroll_hide w doc) (body_id w))) ''data-bs-overflow'' = Some ''hidden''"
    using hide1(2) [of "scroll_hide w doc"] by simp
  then show "oget (styles (scroll_reset w (scroll_hide w (scroll_hide w doc)) (body_id w))) ''overflow'' = Some ''hidden''"
    by (simp add: reset_body [OF assms] reset_overflow(1) written_back)
  show "oget (styles (scroll_reset w (scroll_reset w (scroll_hide w (scroll_hide w doc))) (body_id w))) ''overflow'' = None"
    by (simp add: reset_body [OF assms] reset_overflow(1)) (simp add: restored_get written_def normalizeData_def)
qed

end
