(* ===== verification/Bs_Modal.thy ===== *)
theory Bs_Modal
  imports Bs_ScrollBar
begin

text \<open>
  \<open>Backdrop\<close>, \<open>FocusTrap\<close> and \<open>Modal\<close> of \<open>bootstrap.js\<close>. The page holds any number of modals; the handlers
  that they bind to the window and to the document are shared, as are the scroll bar and the focus. A dialog is
  assumed to be there; scroll positions are left out.
\<close>

section \<open>State\<close>

record backdrop =
  bd_visible :: bool                    \<comment> \<open>the options \<open>isVisible\<close> and \<open>isAnimated\<close>\<close>
  bd_animated :: bool
  bd_className :: string
  bd_appended :: bool
  bd_classes :: "string list option"    \<comment> \<open>of its element, once there is one\<close>
  bd_mousedown :: nat                   \<comment> \<open>listeners\<close>

datatype tab_direction = TAB_NAV_FORWARD | TAB_NAV_BACKWARD

record focus_trap =
  trap_element :: nat
  autofocus :: bool
  isActive :: bool
  lastTabNavDirection :: "tab_direction option"

record modal =
  modal_element :: nat
  modal_conf :: "(string \<times> bval) list"
  the_backdrop :: backdrop
  the_trap :: focus_trap
  isShown :: bool
  ignoreBackdropClick :: bool
  isTransitioning :: bool
  disposed :: bool
  attached :: bool              \<comment> \<open>its element has an element as parent\<close>
  on_keydown :: nat             \<comment> \<open>listeners on the element and on the dialog\<close>
  on_click :: nat
  on_mousedown :: nat
  on_mouseup :: nat

text \<open>What waits for the end of a transition, and where.\<close>

datatype place = AtElement nat | AtDialog nat | AtBackdrop nat

datatype modal_callback =
    HideModal nat | ShowElement nat | TransitionComplete nat | BackdropHidden nat
  | StaticEnd nat bool | OverflowEnd nat

record modal_page =
  page_doc :: sheet
  modals :: "nat \<Rightarrow> modal"
  waiting :: "(place \<times> modal_callback) list"
  on_resize :: "nat list"       \<comment> \<open>modals with a listener on the window\<close>
  on_focus :: "nat list"        \<comment> \<open>modals whose trap has listeners on the document\<close>
  focused :: "nat option"
  on_show :: "(nat \<times> nat) list"       \<comment> \<open>the opener waits for \<open>show\<close>, then for \<open>hidden\<close>, of a modal\<close>
  on_hidden :: "(nat \<times> nat) list"
  triggered :: "(string \<times> nat) list"

text \<open>
  The rest of the page: whether an element is higher than the window, the direction of writing, the elements below
  an element, those that can take the focus, and what the listeners of an event decide.
\<close>

record modal_env = window +
  too_high :: "sheet \<Rightarrow> nat \<Rightarrow> bool"
  is_RTL :: bool
  inside :: "nat \<Rightarrow> nat \<Rightarrow> bool"
  focusableChildren :: "sheet \<Rightarrow> nat \<Rightarrow> nat list"
  is_visible :: "sheet \<Rightarrow> nat \<Rightarrow> bool"
  can_focus :: "sheet \<Rightarrow> nat \<Rightarrow> bool"
  prevents :: "modal_page \<Rightarrow> string \<Rightarrow> nat \<Rightarrow> bool"

definition on_modal :: "nat \<Rightarrow> (modal \<Rightarrow> modal) \<Rightarrow> modal_page \<Rightarrow> modal_page" where
  "on_modal i f p = p\<lparr>modals := (modals p)(i := f (modals p i))\<rparr>"

definition on_doc :: "nat \<Rightarrow> (styled \<Rightarrow> styled) \<Rightarrow> modal_page \<Rightarrow> modal_page" where
  "on_doc e f p = p\<lparr>page_doc := (page_doc p)(e := f (page_doc p e))\<rparr>"

definition log_event :: "string \<Rightarrow> nat \<Rightarrow> modal_page \<Rightarrow> modal_page" where
  "log_event ev i p = p\<lparr>triggered := triggered p @ [(ev, i)]\<rparr>"

text \<open>\<open>executeAfterTransition\<close>: now, or when the transition at the place ends.\<close>

definition executeAfterTransition :: "bool \<Rightarrow> place \<Rightarrow> modal_callback \<Rightarrow> (modal_page \<Rightarrow> modal_page) \<Rightarrow> modal_page \<Rightarrow> modal_page" where
  "executeAfterTransition wait t cb go p = (if wait then p\<lparr>waiting := waiting p @ [(t, cb)]\<rparr> else go p)"

section \<open>Backdrop\<close>

definition backdrop_getElement :: "backdrop \<Rightarrow> backdrop" where
  "backdrop_getElement b =
     (case bd_classes b of
        Some _ \<Rightarrow> b
      | None \<Rightarrow> b\<lparr>bd_classes := Some (if bd_animated b then [bd_className b, ''fade''] else [bd_className b])\<rparr>)"

definition backdrop_class :: "(string list \<Rightarrow> string list) \<Rightarrow> backdrop \<Rightarrow> backdrop" where
  "backdrop_class f b = (let b = backdrop_getElement b in b\<lparr>bd_classes := map_option f (bd_classes b)\<rparr>)"

definition backdrop_append :: "backdrop \<Rightarrow> backdrop" where
  "backdrop_append b =
     (if bd_appended b then b
      else (let b = backdrop_getElement b in b\<lparr>bd_mousedown := bd_mousedown b + 1, bd_appended := True\<rparr>))"

definition backdrop_dispose :: "backdrop \<Rightarrow> backdrop" where
  "backdrop_dispose b = (if \<not> bd_appended b then b else b\<lparr>bd_mousedown := 0, bd_appended := False\<rparr>)"

definition on_backdrop :: "nat \<Rightarrow> (backdrop \<Rightarrow> backdrop) \<Rightarrow> modal_page \<Rightarrow> modal_page" where
  "on_backdrop i f = on_modal i (\<lambda>m. m\<lparr>the_backdrop := f (the_backdrop m)\<rparr>)"

definition backdrop_show :: "nat \<Rightarrow> modal_callback \<Rightarrow> (modal_page \<Rightarrow> modal_page) \<Rightarrow> modal_page \<Rightarrow> modal_page" where
  "backdrop_show i cb go p =
     (if \<not> bd_visible (the_backdrop (modals p i)) then go p
      else (let p = on_backdrop i backdrop_append p;
                p = on_backdrop i (backdrop_class (classList_add ''show'')) p
            in executeAfterTransition (bd_animated (the_backdrop (modals p i))) (AtBackdrop i) cb go p))"

definition backdrop_hide :: "nat \<Rightarrow> modal_callback \<Rightarrow> (modal_page \<Rightarrow> modal_page) \<Rightarrow> modal_page \<Rightarrow> modal_page" where
  "backdrop_hide i cb go p =
     (if \<not> bd_visible (the_backdrop (modals p i)) then go p
      else (let p = on_backdrop i (backdrop_class (classList_remove ''show'')) p
            in executeAfterTransition (bd_animated (the_backdrop (modals p i))) (AtBackdrop i) cb
                 (\<lambda>p. go (on_backdrop i backdrop_dispose p)) p))"

section \<open>Focus\<close>

definition on_trap :: "nat \<Rightarrow> (focus_trap \<Rightarrow> focus_trap) \<Rightarrow> modal_page \<Rightarrow> modal_page" where
  "on_trap i f = on_modal i (\<lambda>m. m\<lparr>the_trap := f (the_trap m)\<rparr>)"

text \<open>The element that \<open>_handleFocusin\<close> moves the focus to, if it does.\<close>

definition handleFocusin :: "modal_env \<Rightarrow> sheet \<Rightarrow> focus_trap \<Rightarrow> nat \<Rightarrow> nat option" where
  "handleFocusin env doc tr target =
     (if target = trap_element tr \<or> inside env (trap_element tr) target then None
      else (let elements = focusableChildren env doc (trap_element tr) in
            if elements = [] then Some (trap_element tr)
            else if lastTabNavDirection tr = Some TAB_NAV_BACKWARD then Some (last elements)
            else Some (hd elements)))"

text \<open>
  \<open>element.focus()\<close> and the event that follows, which may move the focus on: so often at most (the first argument).
\<close>

fun focus_on :: "nat \<Rightarrow> modal_env \<Rightarrow> nat \<Rightarrow> modal_page \<Rightarrow> modal_page" where
  "focus_on 0 env e p = p"
| "focus_on (Suc n) env e p =
     (if focused p = Some e \<or> \<not> can_focus env (page_doc p) e then p
      else fold (\<lambda>i p. case handleFocusin env (page_doc p) (the_trap (modals p i)) e of
                         None \<Rightarrow> p
                       | Some e' \<Rightarrow> focus_on n env e' p) (on_focus p) (p\<lparr>focused := Some e\<rparr>))"

definition focus :: "modal_env \<Rightarrow> nat \<Rightarrow> modal_page \<Rightarrow> modal_page" where
  "focus = focus_on 3"

definition trap_activate :: "modal_env \<Rightarrow> nat \<Rightarrow> modal_page \<Rightarrow> modal_page" where
  "trap_activate env i p =
     (let tr = the_trap (modals p i) in
      if isActive tr then p
      else (let p = (if autofocus tr then focus env (trap_element tr) p else p);
                p = p\<lparr>on_focus := []\<rparr>;
                p = p\<lparr>on_focus := on_focus p @ [i]\<rparr>
            in on_trap i (\<lambda>tr. tr\<lparr>isActive := True\<rparr>) p))"

definition trap_deactivate :: "nat \<Rightarrow> modal_page \<Rightarrow> modal_page" where
  "trap_deactivate i p =
     (if \<not> isActive (the_trap (modals p i)) then p
      else (on_trap i (\<lambda>tr. tr\<lparr>isActive := False\<rparr>) p)\<lparr>on_focus := []\<rparr>)"

text \<open>A key is pressed: \<open>_handleKeydown\<close> of every trap with listeners.\<close>

definition handleKeydown :: "string \<Rightarrow> bool \<Rightarrow> modal_page \<Rightarrow> modal_page" where
  "handleKeydown key shift p =
     (if key \<noteq> ''Tab'' then p
      else fold (\<lambda>i. on_trap i (\<lambda>tr. tr\<lparr>lastTabNavDirection := Some (if shift then TAB_NAV_BACKWARD else TAB_NAV_FORWARD)\<rparr>))
             (on_focus p) p)"

section \<open>Modal\<close>

definition isAnimated :: "nat \<Rightarrow> modal_page \<Rightarrow> bool" where
  "isAnimated i p \<longleftrightarrow> ''fade'' \<in> set (class_list (page_doc p (modal_element (modals p i))))"

definition on_own :: "nat \<Rightarrow> (styled \<Rightarrow> styled) \<Rightarrow> modal_page \<Rightarrow> modal_page" where
  "on_own i f p = on_doc (modal_element (modals p i)) f p"

definition px :: "int \<Rightarrow> string" where
  "px n = num_text (Some (Dec n 0)) @ ''px''"

definition adjustDialog :: "modal_env \<Rightarrow> nat \<Rightarrow> modal_page \<Rightarrow> modal_page" where
  "adjustDialog env i p =
     (let isModalOverflowing = too_high env (page_doc p) (modal_element (modals p i));
          scrollbarWidth = getWidth (window.truncate env) (page_doc p);
          isBodyOverflowing = scrollbarWidth > 0;
          p = (if \<not> isBodyOverflowing \<and> isModalOverflowing \<and> \<not> is_RTL env
                  \<or> isBodyOverflowing \<and> \<not> isModalOverflowing \<and> is_RTL env
               then on_own i (set_style ''paddingLeft'' (px scrollbarWidth)) p else p)
      in if isBodyOverflowing \<and> \<not> isModalOverflowing \<and> \<not> is_RTL env
            \<or> \<not> isBodyOverflowing \<and> isModalOverflowing \<and> is_RTL env
         then on_own i (set_style ''paddingRight'' (px scrollbarWidth)) p else p)"

definition resetAdjustments :: "nat \<Rightarrow> modal_page \<Rightarrow> modal_page" where
  "resetAdjustments i p = on_own i (set_style ''paddingRight'' [] \<circ> set_style ''paddingLeft'' []) p"

definition setEscapeEvent :: "nat \<Rightarrow> modal_page \<Rightarrow> modal_page" where
  "setEscapeEvent i = on_modal i (\<lambda>m. m\<lparr>on_keydown := (if isShown m then on_keydown m + 1 else 0)\<rparr>)"

text \<open>Taking the listener off the window takes that of every modal off.\<close>

definition setResizeEvent :: "nat \<Rightarrow> modal_page \<Rightarrow> modal_page" where
  "setResizeEvent i p = (if isShown (modals p i) then p\<lparr>on_resize := on_resize p @ [i]\<rparr> else p\<lparr>on_resize := []\<rparr>)"

text \<open>
  Opening from a button (below): the button waits for \<open>show\<close>, and unless that is prevented for \<open>hidden\<close>, to take
  the focus back.
\<close>

definition trigger_show :: "bool \<Rightarrow> nat \<Rightarrow> modal_page \<Rightarrow> modal_page" where
  "trigger_show prevented i p =
     (let mine = filter (\<lambda>(j, _). j = i) (on_show p);
          p = p\<lparr>on_show := filter (\<lambda>(j, _). j \<noteq> i) (on_show p)\<rparr>;
          p = (if prevented then p else p\<lparr>on_hidden := on_hidden p @ mine\<rparr>)
      in log_event ''show'' i p)"

definition trigger_hidden :: "modal_env \<Rightarrow> nat \<Rightarrow> modal_page \<Rightarrow> modal_page" where
  "trigger_hidden env i p =
     (let mine = filter (\<lambda>(j, _). j = i) (on_hidden p);
          p = log_event ''hidden'' i (p\<lparr>on_hidden := filter (\<lambda>(j, _). j \<noteq> i) (on_hidden p)\<rparr>)
      in fold (\<lambda>(_, b) p. if is_visible env (page_doc p) b then focus env b p else p) mine p)"

text \<open>Callbacks of a disposed modal throw at their first line.\<close>

definition transitionComplete :: "modal_env \<Rightarrow> nat \<Rightarrow> modal_page \<Rightarrow> modal_page" where
  "transitionComplete env i p =
     (if disposed (modals p i) then p
      else (let p = (if truthy_b (bget (modal_conf (modals p i)) ''focus'') then trap_activate env i p else p);
                p = on_modal i (\<lambda>m. m\<lparr>isTransitioning := False\<rparr>) p
            in log_event ''shown'' i p))"

definition showElement :: "modal_env \<Rightarrow> nat \<Rightarrow> modal_page \<Rightarrow> modal_page" where
  "showElement env i p =
     (if disposed (modals p i) then p
      else (let animated = isAnimated i p;
                p = on_modal i (\<lambda>m. m\<lparr>attached := True\<rparr>) p;
                p = on_own i (set_style ''display'' ''block'') p;
                p = on_own i (drop_attribute ''aria-hidden'') p;
                p = on_own i (set_attribute ''aria-modal'' ''true'') p;
                p = on_own i (set_attribute ''role'' ''dialog'') p;
                p = on_own i (add_class ''show'') p
            in executeAfterTransition animated (AtDialog i) (TransitionComplete i) (transitionComplete env i) p))"

definition showBackdrop :: "modal_env \<Rightarrow> nat \<Rightarrow> modal_page \<Rightarrow> modal_page" where
  "showBackdrop env i p =
     backdrop_show i (ShowElement i) (showElement env i) (on_modal i (\<lambda>m. m\<lparr>on_click := on_click m + 1\<rparr>) p)"

definition modal_show :: "modal_env \<Rightarrow> nat \<Rightarrow> modal_page \<Rightarrow> modal_page" where
  "modal_show env i p =
     (if isShown (modals p i) \<or> isTransitioning (modals p i) \<or> disposed (modals p i) then p
      else (let prevented = prevents env p ''show'' i; p = trigger_show prevented i p in
            if prevented then p
            else (let p = on_modal i (\<lambda>m. m\<lparr>isShown := True\<rparr>) p;
                      p = (if isAnimated i p then on_modal i (\<lambda>m. m\<lparr>isTransitioning := True\<rparr>) p else p);
                      p = p\<lparr>page_doc := scroll_hide (window.truncate env) (page_doc p)\<rparr>;
                      p = on_doc (body_id env) (add_class ''modal-open'') p;
                      p = adjustDialog env i p;
                      p = setEscapeEvent i p;
                      p = setResizeEvent i p;
                      p = on_modal i (\<lambda>m. m\<lparr>on_mousedown := on_mousedown m + 1\<rparr>) p
                  in showBackdrop env i p)))"

text \<open>What follows when the backdrop is hidden.\<close>

definition modal_hidden :: "modal_env \<Rightarrow> nat \<Rightarrow> modal_page \<Rightarrow> modal_page" where
  "modal_hidden env i p =
     (let p = on_doc (body_id env) (remove_class ''modal-open'') p in
      if disposed (modals p i) then p
      else (let p = resetAdjustments i p;
                p = p\<lparr>page_doc := scroll_reset (window.truncate env) (page_doc p)\<rparr>
            in trigger_hidden env i p))"

definition hideModal :: "modal_env \<Rightarrow> nat \<Rightarrow> modal_page \<Rightarrow> modal_page" where
  "hideModal env i p =
     (if disposed (modals p i) then p
      else (let p = on_own i (set_style ''display'' ''none'') p;
                p = on_own i (set_attribute ''aria-hidden'' ''true'') p;
                p = on_own i (drop_attribute ''aria-modal'') p;
                p = on_own i (drop_attribute ''role'') p;
                p = on_modal i (\<lambda>m. m\<lparr>isTransitioning := False\<rparr>) p
            in backdrop_hide i (BackdropHidden i) (modal_hidden env i) p))"

definition modal_hide :: "modal_env \<Rightarrow> nat \<Rightarrow> modal_page \<Rightarrow> modal_page" where
  "modal_hide env i p =
     (if \<not> isShown (modals p i) \<or> isTransitioning (modals p i) then p
      else (let prevented = prevents env p ''hide'' i; p = log_event ''hide'' i p in
            if prevented then p
            else (let p = on_modal i (\<lambda>m. m\<lparr>isShown := False\<rparr>) p;
                      animated = isAnimated i p;
                      p = (if animated then on_modal i (\<lambda>m. m\<lparr>isTransitioning := True\<rparr>) p else p);
                      p = setEscapeEvent i p;
                      p = setResizeEvent i p;
                      p = trap_deactivate i p;
                      p = on_own i (remove_class ''show'') p;
                      p = on_modal i (\<lambda>m. m\<lparr>on_click := 0\<rparr>) p;
                      p = on_modal i (\<lambda>m. m\<lparr>on_mousedown := 0\<rparr>) p
                  in executeAfterTransition animated (AtElement i) (HideModal i) (hideModal env i) p)))"

definition modal_toggle :: "modal_env \<Rightarrow> nat \<Rightarrow> modal_page \<Rightarrow> modal_page" where
  "modal_toggle env i p = (if isShown (modals p i) then modal_hide env i p else modal_show env i p)"

definition triggerBackdropTransition :: "modal_env \<Rightarrow> nat \<Rightarrow> modal_page \<Rightarrow> modal_page" where
  "triggerBackdropTransition env i p =
     (let prevented = prevents env p ''hidePrevented'' i; p = log_event ''hidePrevented'' i p in
      if prevented then p
      else (let el = page_doc p (modal_element (modals p i));
                isModalOverflowing = too_high env (page_doc p) (modal_element (modals p i)) in
            if \<not> isModalOverflowing \<and> style_of ''overflowY'' el = ''hidden'' \<or> ''modal-static'' \<in> set (class_list el) then p
            else (let p = (if \<not> isModalOverflowing then on_own i (set_style ''overflowY'' ''hidden'') p else p);
                      p = on_own i (add_class ''modal-static'') p;
                      p = executeAfterTransition True (AtDialog i) (StaticEnd i isModalOverflowing) id p
                  in focus env (modal_element (modals p i)) p)))"

text \<open>The class and the style are held by the callbacks; a disposed modal has no dialog to wait for any more.\<close>

definition static_end :: "nat \<Rightarrow> bool \<Rightarrow> modal_page \<Rightarrow> modal_page" where
  "static_end i isModalOverflowing p =
     (let p = on_own i (remove_class ''modal-static'') p in
      if isModalOverflowing \<or> disposed (modals p i) then p
      else executeAfterTransition True (AtDialog i) (OverflowEnd i) id p)"

definition overflow_end :: "nat \<Rightarrow> modal_page \<Rightarrow> modal_page" where
  "overflow_end i = on_own i (set_style ''overflowY'' [])"

definition modal_dispose :: "nat \<Rightarrow> modal_page \<Rightarrow> modal_page" where
  "modal_dispose i p =
     (let p = p\<lparr>on_resize := []\<rparr> in
      if disposed (modals p i) then p
      else (let p = on_backdrop i backdrop_dispose p;
                p = trap_deactivate i p
            in on_modal i (\<lambda>m. m\<lparr>on_mousedown := 0, on_keydown := 0, on_click := 0, on_mouseup := 0,
                 isShown := False, isTransitioning := False, disposed := True\<rparr>) p))"

definition handleUpdate :: "modal_env \<Rightarrow> nat \<Rightarrow> modal_page \<Rightarrow> modal_page" where
  "handleUpdate env i p = (if disposed (modals p i) then p else adjustDialog env i p)"

text \<open>A new modal for an element, with its options.\<close>

definition initializeBackDrop :: "(string \<times> bval) list \<Rightarrow> bool \<Rightarrow> backdrop" where
  "initializeBackDrop config animated =
     \<lparr>bd_visible = truthy_b (bget config ''backdrop''), bd_animated = animated, bd_className = ''modal-backdrop'', bd_appended = False,
      bd_classes = None, bd_mousedown = 0\<rparr>"

definition initializeFocusTrap :: "nat \<Rightarrow> focus_trap" where
  "initializeFocusTrap e = \<lparr>trap_element = e, autofocus = True, isActive = False, lastTabNavDirection = None\<rparr>"

definition modal_new :: "nat \<Rightarrow> nat \<Rightarrow> (string \<times> bval) list \<Rightarrow> bool \<Rightarrow> modal_page \<Rightarrow> modal_page" where
  "modal_new i e config in_page p =
     p\<lparr>modals := (modals p)(i :=
       \<lparr>modal_element = e, modal_conf = config,
        the_backdrop = initializeBackDrop config (''fade'' \<in> set (class_list (page_doc p e))),
        the_trap = initializeFocusTrap e, isShown = False, ignoreBackdropClick = False, isTransitioning = False,
        disposed = False, attached = in_page, on_keydown = 0, on_click = 0, on_mousedown = 0, on_mouseup = 0\<rparr>)\<rparr>"

section \<open>Events\<close>

text \<open>A listener that an earlier one of the same event took off does not run.\<close>

definition key_listener :: "modal_env \<Rightarrow> nat \<Rightarrow> string \<Rightarrow> modal_page \<Rightarrow> modal_page" where
  "key_listener env i key p =
     (if on_keydown (modals p i) = 0 then p
      else if truthy_b (bget (modal_conf (modals p i)) ''keyboard'') \<and> key = ''Escape'' then modal_hide env i p
      else if \<not> truthy_b (bget (modal_conf (modals p i)) ''keyboard'') \<and> key = ''Escape'' then triggerBackdropTransition env i p
      else p)"

definition modal_key :: "modal_env \<Rightarrow> nat \<Rightarrow> string \<Rightarrow> modal_page \<Rightarrow> modal_page" where
  "modal_key env i key p = (key_listener env i key ^^ on_keydown (modals p i)) p"

definition click_listener :: "modal_env \<Rightarrow> nat \<Rightarrow> nat \<Rightarrow> modal_page \<Rightarrow> modal_page" where
  "click_listener env i target p =
     (if on_click (modals p i) = 0 then p
      else if ignoreBackdropClick (modals p i) then on_modal i (\<lambda>m. m\<lparr>ignoreBackdropClick := False\<rparr>) p
      else if target \<noteq> modal_element (modals p i) then p
      else if bget (modal_conf (modals p i)) ''backdrop'' = BBool True then modal_hide env i p
      else if bget (modal_conf (modals p i)) ''backdrop'' = BStr ''static'' then triggerBackdropTransition env i p
      else p)"

definition modal_click :: "modal_env \<Rightarrow> nat \<Rightarrow> nat \<Rightarrow> modal_page \<Rightarrow> modal_page" where
  "modal_click env i target p = (click_listener env i target ^^ on_click (modals p i)) p"

definition dialog_mousedown :: "nat \<Rightarrow> modal_page \<Rightarrow> modal_page" where
  "dialog_mousedown i = on_modal i (\<lambda>m. m\<lparr>on_mouseup := on_mouseup m + on_mousedown m\<rparr>)"

definition modal_mouseup :: "nat \<Rightarrow> nat \<Rightarrow> modal_page \<Rightarrow> modal_page" where
  "modal_mouseup i target =
     on_modal i (\<lambda>m. m\<lparr>ignoreBackdropClick := ignoreBackdropClick m \<or> on_mouseup m > 0 \<and> target = modal_element m,
       on_mouseup := 0\<rparr>)"

definition window_resize :: "modal_env \<Rightarrow> modal_page \<Rightarrow> modal_page" where
  "window_resize env p = fold (handleUpdate env) (on_resize p) p"

text \<open>A click on an element with \<open>data-bs-toggle="modal"\<close> for the modal.\<close>

definition toggle_button :: "modal_env \<Rightarrow> nat \<Rightarrow> nat \<Rightarrow> modal_page \<Rightarrow> modal_page" where
  "toggle_button env i b p = modal_toggle env i (p\<lparr>on_show := on_show p @ [(i, b)]\<rparr>)"

fun run_callback :: "modal_env \<Rightarrow> modal_callback \<Rightarrow> modal_page \<Rightarrow> modal_page" where
  "run_callback env (HideModal i) p = hideModal env i p"
| "run_callback env (ShowElement i) p = showElement env i p"
| "run_callback env (TransitionComplete i) p = transitionComplete env i p"
| "run_callback env (BackdropHidden i) p = modal_hidden env i (on_backdrop i backdrop_dispose p)"
| "run_callback env (StaticEnd i high) p = static_end i high p"
| "run_callback env (OverflowEnd i) p = overflow_end i p"

definition modal_transition_end :: "modal_env \<Rightarrow> place \<Rightarrow> modal_page \<Rightarrow> modal_page" where
  "modal_transition_end env t p =
     (let mine = filter (\<lambda>(u, _). u = t) (waiting p);
          p = p\<lparr>waiting := filter (\<lambda>(u, _). u \<noteq> t) (waiting p)\<rparr>
      in fold (\<lambda>(_, cb). run_callback env cb) mine p)"

datatype modal_action =
    Show nat | Hide nat | Toggle nat | Opener nat nat | TransitionOver place | KeyDown nat string | Click nat nat
  | MouseDown nat | MouseUp nat nat | Resize | Update nat | Focus nat | Tab bool | Dispose nat

fun modal_act :: "modal_env \<Rightarrow> modal_action \<Rightarrow> modal_page \<Rightarrow> modal_page" where
  "modal_act env (Show i) p = modal_show env i p"
| "modal_act env (Hide i) p = modal_hide env i p"
| "modal_act env (Toggle i) p = modal_toggle env i p"
| "modal_act env (Opener i b) p = toggle_button env i b p"
| "modal_act env (TransitionOver t) p = modal_transition_end env t p"
| "modal_act env (KeyDown i key) p = modal_key env i key p"
| "modal_act env (Click i target) p = modal_click env i target p"
| "modal_act env (MouseDown i) p = dialog_mousedown i p"
| "modal_act env (MouseUp i target) p = modal_mouseup i target p"
| "modal_act env Resize p = window_resize env p"
| "modal_act env (Update i) p = handleUpdate env i p"
| "modal_act env (Focus e) p = focus env e p"
| "modal_act env (Tab shift) p = handleKeydown ''Tab'' shift p"
| "modal_act env (Dispose i) p = modal_dispose i p"

definition run_modal :: "modal_env \<Rightarrow> modal_action list \<Rightarrow> modal_page \<Rightarrow> modal_page" where
  "run_modal env acts p = fold (modal_act env) acts p"

end
