(* ===== verification/Bs_Modal_Proofs.thy ===== *)
theory Bs_Modal_Proofs
  imports Bs_Modal
begin

text \<open>
  What the operations of \<open>Bs_Modal\<close> leave alone and what they change, a modal that is never left in transition, and
  opening and closing as a whole.
\<close>

section \<open>The basic operations\<close>

lemmas page_ops = on_modal_def on_doc_def log_event_def

lemma on_modal_simps [simp]:
  "modals (on_modal i f p) j = (if j = i then f (modals p i) else modals p j)"
  "page_doc (on_modal i f p) = page_doc p" "waiting (on_modal i f p) = waiting p"
  "on_resize (on_modal i f p) = on_resize p" "on_focus (on_modal i f p) = on_focus p"
  "focused (on_modal i f p) = focused p" "triggered (on_modal i f p) = triggered p"
  "on_show (on_modal i f p) = on_show p" "on_hidden (on_modal i f p) = on_hidden p"
  by (simp_all add: page_ops)

lemma on_doc_simps [simp]:
  "page_doc (on_doc e f p) d = (if d = e then f (page_doc p e) else page_doc p d)"
  "modals (on_doc e f p) = modals p" "waiting (on_doc e f p) = waiting p"
  "on_resize (on_doc e f p) = on_resize p" "on_focus (on_doc e f p) = on_focus p"
  "focused (on_doc e f p) = focused p" "triggered (on_doc e f p) = triggered p"
  "on_show (on_doc e f p) = on_show p" "on_hidden (on_doc e f p) = on_hidden p"
  by (simp_all add: page_ops)

lemma log_event_simps [simp]:
  "modals (log_event ev i p) = modals p" "page_doc (log_event ev i p) = page_doc p"
  "waiting (log_event ev i p) = waiting p" "on_resize (log_event ev i p) = on_resize p"
  "on_focus (log_event ev i p) = on_focus p" "focused (log_event ev i p) = focused p"
  "on_show (log_event ev i p) = on_show p" "on_hidden (log_event ev i p) = on_hidden p"
  by (simp_all add: page_ops)

text \<open>Moving the focus changes nothing else.\<close>

lemma focus_on_only: "\<exists>x. focus_on n env e p = p\<lparr>focused := x\<rparr>"
proof (induction n arbitrary: e p)
  case 0
  have "p = p\<lparr>focused := focused p\<rparr>" by simp
  then show ?case by (metis focus_on.simps(1))
next
  case (Suc n)
  have keep: "\<exists>x. fold (\<lambda>i p. case handleFocusin env (page_doc p) (the_trap (modals p i)) e of
                     None \<Rightarrow> p | Some e' \<Rightarrow> focus_on n env e' p) is p = p\<lparr>focused := x\<rparr>" for "is" p
  proof (induction "is" arbitrary: p)
    case Nil
    have "p = p\<lparr>focused := focused p\<rparr>" by simp
    then show ?case by (metis fold_Nil id_apply)
  next
    case (Cons i "is")
    obtain x where x: "(case handleFocusin env (page_doc p) (the_trap (modals p i)) e of
        None \<Rightarrow> p | Some e' \<Rightarrow> focus_on n env e' p) = p\<lparr>focused := x\<rparr>"
    proof (cases "handleFocusin env (page_doc p) (the_trap (modals p i)) e")
      case None
      then show ?thesis using that [of "focused p"] by simp
    next
      case (Some e')
      then show ?thesis using that Suc.IH [of e' p] by auto
    qed
    obtain y where "fold (\<lambda>i p. case handleFocusin env (page_doc p) (the_trap (modals p i)) e of
                     None \<Rightarrow> p | Some e' \<Rightarrow> focus_on n env e' p) is (p\<lparr>focused := x\<rparr>) = p\<lparr>focused := x\<rparr>\<lparr>focused := y\<rparr>"
      using Cons.IH by blast
    then show ?case using x by auto
  qed
  show ?case
  proof (cases "focused p = Some e \<or> \<not> can_focus env (page_doc p) e")
    case True
    then have "focus_on (Suc n) env e p = p\<lparr>focused := focused p\<rparr>" by simp
    then show ?thesis by blast
  next
    case False
    then show ?thesis using keep [of "on_focus (p\<lparr>focused := Some e\<rparr>)" "p\<lparr>focused := Some e\<rparr>"] by auto
  qed
qed

lemma focus_simps [simp]:
  "modals (focus env e p) = modals p" "page_doc (focus env e p) = page_doc p"
  "waiting (focus env e p) = waiting p" "on_resize (focus env e p) = on_resize p"
  "on_focus (focus env e p) = on_focus p" "triggered (focus env e p) = triggered p"
  "on_show (focus env e p) = on_show p" "on_hidden (focus env e p) = on_hidden p"
  using focus_on_only [of 3 env e p] unfolding focus_def by (metis modal_page.ext_inject modal_page.surjective modal_page.update_convs(6))+

lemma update_simps [simp]:
  "modals (setEscapeEvent i p) j = (if j = i then (modals p i)\<lparr>on_keydown := (if isShown (modals p i) then on_keydown (modals p i) + 1 else 0)\<rparr> else modals p j)"
  "page_doc (setEscapeEvent i p) = page_doc p" "waiting (setEscapeEvent i p) = waiting p"
  "on_resize (setEscapeEvent i p) = on_resize p" "on_focus (setEscapeEvent i p) = on_focus p"
  "modals (setResizeEvent i p) = modals p" "page_doc (setResizeEvent i p) = page_doc p"
  "waiting (setResizeEvent i p) = waiting p" "on_focus (setResizeEvent i p) = on_focus p"
  "on_resize (setResizeEvent i p) = (if isShown (modals p i) then on_resize p @ [i] else [])"
  by (simp_all add: setEscapeEvent_def setResizeEvent_def)

lemma trigger_simps [simp]:
  "modals (trigger_show v i p) = modals p" "page_doc (trigger_show v i p) = page_doc p"
  "waiting (trigger_show v i p) = waiting p" "on_resize (trigger_show v i p) = on_resize p"
  "on_focus (trigger_show v i p) = on_focus p"
  by (simp_all add: trigger_show_def Let_def)

lemma trigger_hidden_simps [simp]:
  "modals (trigger_hidden env i p) = modals p" "page_doc (trigger_hidden env i p) = page_doc p"
  "waiting (trigger_hidden env i p) = waiting p" "on_resize (trigger_hidden env i p) = on_resize p"
  "on_focus (trigger_hidden env i p) = on_focus p"
  unfolding trigger_hidden_def Let_def by (subst fold_same; simp split: prod.split)+

lemma trap_simps [simp]:
  "modals (trap_activate env i p) j = (if j = i then (modals p i)\<lparr>the_trap := (the_trap (modals p i))\<lparr>isActive := True\<rparr>\<rparr> else modals p j)"
  "page_doc (trap_activate env i p) = page_doc p" "waiting (trap_activate env i p) = waiting p"
  "on_resize (trap_activate env i p) = on_resize p"
  "on_focus (trap_activate env i p) = (if isActive (the_trap (modals p i)) then on_focus p else [i])"
  "modals (trap_deactivate i p) j = (if j = i then (modals p i)\<lparr>the_trap := (the_trap (modals p i))\<lparr>isActive := False\<rparr>\<rparr> else modals p j)"
  "page_doc (trap_deactivate i p) = page_doc p" "waiting (trap_deactivate i p) = waiting p"
  "on_resize (trap_deactivate i p) = on_resize p"
  "on_focus (trap_deactivate i p) = (if isActive (the_trap (modals p i)) then [] else on_focus p)"
  by (simp_all add: trap_activate_def trap_deactivate_def on_trap_def Let_def)

lemma own_simps [simp]:
  "modals (on_own i f p) = modals p" "waiting (on_own i f p) = waiting p"
  "on_resize (on_own i f p) = on_resize p" "on_focus (on_own i f p) = on_focus p"
  "page_doc (on_own i f p) e = (if e = modal_element (modals p i) then f (page_doc p e) else page_doc p e)"
  by (simp_all add: on_own_def)

lemma adjust_simps [simp]:
  "modals (adjustDialog env i p) = modals p" "waiting (adjustDialog env i p) = waiting p"
  "on_resize (adjustDialog env i p) = on_resize p" "on_focus (adjustDialog env i p) = on_focus p"
  "modals (resetAdjustments i p) = modals p" "waiting (resetAdjustments i p) = waiting p"
  "on_resize (resetAdjustments i p) = on_resize p" "on_focus (resetAdjustments i p) = on_focus p"
  by (simp_all add: adjustDialog_def resetAdjustments_def Let_def)

section \<open>Classes\<close>

text \<open>Only the classes \<open>show\<close>, \<open>modal-open\<close> and \<open>modal-static\<close> come and go.\<close>

lemma restored_classes [simp]: "class_list (restored k el) = class_list el"
  by (simp add: restored_def Let_def)

lemma apply_classes:
  assumes "\<And>doc e el. class_list (f doc e el) = class_list el"
  shows "class_list (applyManipulationCallback es f doc e) = class_list (doc e)"
  unfolding applyManipulationCallback_def using assms by (induction es arbitrary: doc) auto

lemma scroll_classes [simp]:
  "class_list (scroll_hide w doc e) = class_list (doc e)"
  "class_list (scroll_reset w doc e) = class_list (doc e)"
  unfolding scroll_hide_def scroll_reset_def setElementAttributes_def resetElementAttributes_def disableOverFlow_def Let_def
  by (simp_all add: apply_classes)

definition has_fade :: "modal_page \<Rightarrow> nat \<Rightarrow> bool" where
  "has_fade p e \<longleftrightarrow> ''fade'' \<in> set (class_list (page_doc p e))"

lemma isAnimated_fade: "isAnimated i p \<longleftrightarrow> has_fade p (modal_element (modals p i))"
  by (simp add: isAnimated_def has_fade_def)

lemma fade_own:
  assumes "\<And>el. ''fade'' \<in> set (class_list (f el)) \<longleftrightarrow> ''fade'' \<in> set (class_list el)"
  shows "has_fade (on_doc d f p) e = has_fade p e" "has_fade (on_own i f p) e = has_fade p e"
  using assms by (simp_all add: has_fade_def)

lemma fade_adjust: "has_fade (adjustDialog env i p) e = has_fade p e" "has_fade (resetAdjustments i p) e = has_fade p e"
  by (simp_all add: adjustDialog_def resetAdjustments_def Let_def fade_own)

section \<open>Never stuck in a transition\<close>

fun place_of :: "modal_callback \<Rightarrow> place" where
  "place_of (HideModal i) = AtElement i"
| "place_of (ShowElement i) = AtBackdrop i"
| "place_of (BackdropHidden i) = AtBackdrop i"
| "place_of (TransitionComplete i) = AtDialog i"
| "place_of (StaticEnd i h) = AtDialog i"
| "place_of (OverflowEnd i) = AtDialog i"

text \<open>The callbacks at whose end, or at the end of one they lead to, the modal is out of its transition.\<close>

fun moves :: "nat \<Rightarrow> modal_callback \<Rightarrow> bool" where
  "moves i (HideModal j) \<longleftrightarrow> j = i"
| "moves i (ShowElement j) \<longleftrightarrow> j = i"
| "moves i (TransitionComplete j) \<longleftrightarrow> j = i"
| "moves i _ \<longleftrightarrow> False"

definition jobs :: "nat \<Rightarrow> modal_callback list \<Rightarrow> nat" where
  "jobs i cbs = length (filter (moves i) cbs)"

lemma jobs_simps [simp]:
  "jobs i [] = 0" "jobs i (cb # cbs) = (if moves i cb then 1 else 0) + jobs i cbs"
  "jobs i (xs @ ys) = jobs i xs + jobs i ys"
  by (simp_all add: jobs_def)

text \<open>
  Of a modal that is not disposed of: a transition is under way when exactly one such callback waits, or is among
  those still to run for an event (the first argument).
\<close>

definition steady :: "modal_callback list \<Rightarrow> nat \<Rightarrow> modal_page \<Rightarrow> bool" where
  "steady cbs i p \<longleftrightarrow>
     (\<forall>(t, cb) \<in> set (waiting p). t = place_of cb) \<and>
     (disposed (modals p i) \<or>
       (bd_animated (the_backdrop (modals p i)) \<longleftrightarrow> isAnimated i p) \<and>
       jobs i (cbs @ map snd (waiting p)) = (if isTransitioning (modals p i) then 1 else 0))"

lemmas fade_simps = isAnimated_fade fade_own fade_adjust

lemma backdrop_simps [simp]:
  "bd_animated (backdrop_append b) = bd_animated b" "bd_visible (backdrop_append b) = bd_visible b"
  "bd_animated (backdrop_class f b) = bd_animated b" "bd_visible (backdrop_class f b) = bd_visible b"
  "bd_animated (backdrop_dispose b) = bd_animated b" "bd_visible (backdrop_dispose b) = bd_visible b"
  by (simp_all add: backdrop_append_def backdrop_class_def backdrop_dispose_def backdrop_getElement_def Let_def split: option.split)

lemma fade_same [simp]:
  "has_fade (on_modal i f p) e = has_fade p e" "has_fade (trigger_show v i p) e = has_fade p e"
  "has_fade (trigger_hidden env i p) e = has_fade p e" "has_fade (trap_activate env i p) e = has_fade p e"
  "has_fade (trap_deactivate i p) e = has_fade p e" "has_fade (setEscapeEvent i p) e = has_fade p e"
  "has_fade (setResizeEvent i p) e = has_fade p e" "has_fade (log_event ev i p) e = has_fade p e"
  "has_fade (focus env d p) e = has_fade p e" "has_fade (p\<lparr>waiting := ws\<rparr>) e = has_fade p e"
  "has_fade (p\<lparr>on_show := x\<rparr>) e = has_fade p e" "has_fade (p\<lparr>on_resize := ys\<rparr>) e = has_fade p e"
  "has_fade (p\<lparr>page_doc := scroll_hide w (page_doc p)\<rparr>) e = has_fade p e"
  "has_fade (p\<lparr>page_doc := scroll_reset w (page_doc p)\<rparr>) e = has_fade p e"
  by (simp_all add: has_fade_def)

text \<open>A callback that runs: it waited for its transition, or nothing is animated and it runs at once.\<close>

definition due :: "modal_callback \<Rightarrow> modal_callback list \<Rightarrow> nat \<Rightarrow> nat \<Rightarrow> modal_page \<Rightarrow> bool" where
  "due cb cbs i j p \<longleftrightarrow> steady (cb # cbs) i p \<or>
     steady cbs i p \<and> \<not> isTransitioning (modals p j) \<and> \<not> isAnimated j p"

lemma steady_complete:
  assumes "due (TransitionComplete j) cbs i j p"
  shows "steady cbs i (transitionComplete env j p)"
  using assms by (auto simp: due_def steady_def transitionComplete_def fade_simps Let_def split: if_splits)

lemma steady_showElement:
  assumes "due (ShowElement j) cbs i j p"
  shows "steady cbs i (showElement env j p)"
proof (cases "disposed (modals p j)")
  case True
  then show ?thesis using assms by (auto simp: due_def steady_def showElement_def split: if_splits)
next
  case False
  define q where "q = on_own j (add_class ''show'') (on_own j (set_attribute ''role'' ''dialog'') (on_own j (set_attribute ''aria-modal'' ''true'')
    (on_own j (drop_attribute ''aria-hidden'') (on_own j (set_style ''display'' ''block'') (on_modal j (\<lambda>m. m\<lparr>attached := True\<rparr>) p)))))"
  have q: "due (TransitionComplete j) cbs i j q"
    using assms by (auto simp: due_def steady_def q_def fade_simps split: if_splits)
  have eq: "showElement env j p =
      executeAfterTransition (isAnimated j p) (AtDialog j) (TransitionComplete j) (transitionComplete env j) q"
    using False by (simp add: showElement_def q_def Let_def)
  show ?thesis
  proof (cases "isAnimated j p")
    case True
    moreover have "isAnimated j q" using True by (simp add: q_def fade_simps)
    ultimately show ?thesis using q unfolding eq executeAfterTransition_def
      by (auto simp: due_def steady_def fade_simps split: if_splits)
  next
    case False
    then show ?thesis using steady_complete [OF q] unfolding eq executeAfterTransition_def by simp
  qed
qed

lemma steady_hidden:
  assumes "steady cbs i p"
  shows "steady cbs i (modal_hidden env j p)"
  using assms by (auto simp: steady_def modal_hidden_def fade_simps Let_def split: if_splits)

lemma steady_dispose_backdrop:
  assumes "steady cbs i p"
  shows "steady cbs i (on_backdrop j backdrop_dispose p)"
  using assms by (auto simp: steady_def on_backdrop_def fade_simps split: if_splits)

lemma steady_hideModal:
  assumes "due (HideModal j) cbs i j p"
  shows "steady cbs i (hideModal env j p)"
proof (cases "disposed (modals p j)")
  case True
  then show ?thesis using assms by (auto simp: due_def steady_def hideModal_def split: if_splits)
next
  case False
  define q where "q = on_modal j (\<lambda>m. m\<lparr>isTransitioning := False\<rparr>) (on_own j (drop_attribute ''role'')
    (on_own j (drop_attribute ''aria-modal'') (on_own j (set_attribute ''aria-hidden'' ''true'') (on_own j (set_style ''display'' ''none'') p))))"
  have q: "steady cbs i q"
    using assms False by (auto simp: due_def steady_def q_def fade_simps split: if_splits)
  have eq: "hideModal env j p = backdrop_hide j (BackdropHidden j) (modal_hidden env j) q"
    using False by (simp add: hideModal_def q_def Let_def)
  have r: "steady cbs i (on_backdrop j f q)" if "\<And>b. bd_animated (f b) = bd_animated b" for f
    using q that by (auto simp: steady_def on_backdrop_def fade_simps split: if_splits)
  then have wait: "steady cbs i ((on_backdrop j f q)\<lparr>waiting := waiting (on_backdrop j f q) @ [(AtBackdrop j, BackdropHidden j)]\<rparr>)"
    if "\<And>b. bd_animated (f b) = bd_animated b" for f
    using that by (auto simp: steady_def fade_simps split: if_splits)
  show ?thesis
    unfolding eq backdrop_hide_def executeAfterTransition_def Let_def
    using q r wait by (auto intro!: steady_hidden steady_dispose_backdrop)
qed

text \<open>An operation that leaves what waits, the transition and the class \<open>fade\<close> alone.\<close>

definition calm :: "modal_page \<Rightarrow> modal_page \<Rightarrow> bool" where
  "calm p q \<longleftrightarrow> waiting q = waiting p \<and>
     (\<forall>i. modal_element (modals q i) = modal_element (modals p i) \<and> disposed (modals q i) = disposed (modals p i) \<and>
       isTransitioning (modals q i) = isTransitioning (modals p i) \<and>
       bd_animated (the_backdrop (modals q i)) = bd_animated (the_backdrop (modals p i))) \<and>
     (\<forall>e. has_fade q e = has_fade p e)"

lemma calm_steady: "calm p q \<Longrightarrow> steady cbs i p \<Longrightarrow> steady cbs i q"
  unfolding calm_def steady_def by (simp add: isAnimated_fade)

lemma calm_refl [simp]: "calm p p" and calm_trans: "calm p q \<Longrightarrow> calm q r \<Longrightarrow> calm p r"
  by (simp_all add: calm_def)

lemma calm_ops:
  "calm p (focus env e p)" "calm p (trigger_show v i p)" "calm p (log_event ev i p)" "calm p (adjustDialog env i p)"
  "calm p (setEscapeEvent i p)" "calm p (setResizeEvent i p)" "calm p (trap_deactivate i p)"
  "calm p (on_doc d (add_class ''modal-open'') p)" "calm p (on_own i (remove_class ''show'') p)"
  "calm p (on_own i (remove_class ''modal-static'') p)" "calm p (on_own i (add_class ''modal-static'') p)"
  "calm p (on_own i (set_style k y) p)"
  "calm p (p\<lparr>page_doc := scroll_hide w (page_doc p)\<rparr>)" "calm p (p\<lparr>on_show := x\<rparr>)" "calm p (p\<lparr>on_resize := ys\<rparr>)"
  by (simp_all add: calm_def fade_simps)

lemma calm_modal:
  assumes "\<And>m. modal_element (f m) = modal_element m \<and> disposed (f m) = disposed m \<and>
    isTransitioning (f m) = isTransitioning m \<and> the_backdrop (f m) = the_backdrop m"
  shows "calm p (on_modal i f p)"
  using assms by (simp add: calm_def fade_simps)

lemma due_backdrop:
  assumes "due cb cbs i j p" "\<And>b. bd_animated (f b) = bd_animated b"
  shows "due cb cbs i j (on_backdrop j f p)"
  using assms by (auto simp: due_def steady_def on_backdrop_def fade_simps split: if_splits)

lemma steady_wait:
  assumes "due cb cbs i j p" "bd_animated (the_backdrop (modals p j))" "moves i cb \<Longrightarrow> i = j" "t = place_of cb"
  shows "steady cbs i (p\<lparr>waiting := waiting p @ [(t, cb)]\<rparr>)"
  using assms by (auto simp: due_def steady_def fade_simps split: if_splits)

lemma steady_backdrop_show:
  assumes "due (ShowElement j) cbs i j p"
  shows "steady cbs i (backdrop_show j (ShowElement j) (showElement env j) p)"
proof (cases "bd_visible (the_backdrop (modals p j))")
  case False
  then show ?thesis using steady_showElement [OF assms] by (simp add: backdrop_show_def)
next
  case True
  define q where "q = on_backdrop j (backdrop_class (classList_add ''show'')) (on_backdrop j backdrop_append p)"
  have q: "due (ShowElement j) cbs i j q"
    unfolding q_def by (intro due_backdrop assms) simp_all
  have eq: "backdrop_show j (ShowElement j) (showElement env j) p =
      executeAfterTransition (bd_animated (the_backdrop (modals q j))) (AtBackdrop j) (ShowElement j) (showElement env j) q"
    using True by (simp add: backdrop_show_def q_def Let_def)
  show ?thesis
    using steady_showElement [OF q, of env] steady_wait [OF q] unfolding eq executeAfterTransition_def by simp
qed

text \<open>A transition begins: the mark and the callback together, or neither.\<close>

lemma steady_show:
  assumes "steady cbs i p"
  shows "steady cbs i (modal_show env j p)"
proof (cases "isShown (modals p j) \<or> isTransitioning (modals p j) \<or> disposed (modals p j)")
  case True
  then show ?thesis using assms unfolding modal_show_def by simp
next
  case False
  define p1 where "p1 = trigger_show (prevents env p ''show'' j) j p"
  define p2 where "p2 = on_modal j (\<lambda>m. m\<lparr>isShown := True\<rparr>) p1"
  define p3 where "p3 = (if isAnimated j p2 then on_modal j (\<lambda>m. m\<lparr>isTransitioning := True\<rparr>) p2 else p2)"
  define p4 where "p4 = adjustDialog env j (on_doc (body_id env) (add_class ''modal-open'')
    (p3\<lparr>page_doc := scroll_hide (window.truncate env) (page_doc p3)\<rparr>))"
  define p5 where "p5 = on_modal j (\<lambda>m. m\<lparr>on_mousedown := on_mousedown m + 1\<rparr>) (setResizeEvent j (setEscapeEvent j p4))"
  define p6 where "p6 = on_modal j (\<lambda>m. m\<lparr>on_click := on_click m + 1\<rparr>) p5"
  have eq: "modal_show env j p = (if prevents env p ''show'' j then p1
      else backdrop_show j (ShowElement j) (showElement env j) p6)"
    using False unfolding modal_show_def showBackdrop_def Let_def p6_def p5_def p4_def p3_def p2_def p1_def by simp
  have one: "steady cbs i p1" using calm_steady [OF calm_ops(2) assms] by (simp add: p1_def)
  have "calm p1 p2" unfolding p2_def by (rule calm_modal) simp
  then have two: "steady cbs i p2" using one by (rule calm_steady)
  have kept: "isTransitioning (modals p2 j) = False" "disposed (modals p2 j) = False"
    using False by (simp_all add: p2_def p1_def)
  have calm: "calm p3 p6"
    unfolding p6_def p5_def p4_def by (intro calm_modal [THEN calm_trans [rotated]] calm_ops [THEN calm_trans [rotated]]) simp_all
  have due: "due (ShowElement j) cbs i j p6" if "\<not> prevents env p ''show'' j"
  proof (cases "isAnimated j p2")
    case True
    then have "steady (ShowElement j # cbs) i p3"
      using two kept by (auto simp: p3_def steady_def fade_simps split: if_splits)
    then show ?thesis using calm_steady [OF calm] by (simp add: due_def)
  next
    case False
    then have "steady cbs i p3" "\<not> isTransitioning (modals p3 j)" "\<not> isAnimated j p3" using two kept by (simp_all add: p3_def)
    then show ?thesis using calm_steady [OF calm] calm by (simp add: due_def calm_def isAnimated_fade)
  qed
  show ?thesis using one steady_backdrop_show [OF due] unfolding eq by simp
qed

lemma steady_hide:
  assumes "steady cbs i p"
  shows "steady cbs i (modal_hide env j p)"
proof (cases "\<not> isShown (modals p j) \<or> isTransitioning (modals p j)")
  case True
  then show ?thesis using assms unfolding modal_hide_def by simp
next
  case False
  define p1 where "p1 = log_event ''hide'' j p"
  define p2 where "p2 = on_modal j (\<lambda>m. m\<lparr>isShown := False\<rparr>) p1"
  define p3 where "p3 = (if isAnimated j p2 then on_modal j (\<lambda>m. m\<lparr>isTransitioning := True\<rparr>) p2 else p2)"
  define p4 where "p4 = on_own j (remove_class ''show'') (trap_deactivate j (setResizeEvent j (setEscapeEvent j p3)))"
  define p5 where "p5 = on_modal j (\<lambda>m. m\<lparr>on_mousedown := 0\<rparr>) (on_modal j (\<lambda>m. m\<lparr>on_click := 0\<rparr>) p4)"
  have eq: "modal_hide env j p = (if prevents env p ''hide'' j then p1
      else executeAfterTransition (isAnimated j p2) (AtElement j) (HideModal j) (hideModal env j) p5)"
    using False unfolding modal_hide_def Let_def p5_def p4_def p3_def p2_def p1_def by simp
  have one: "steady cbs i p1" using calm_steady [OF calm_ops(3) assms] by (simp add: p1_def)
  have "calm p1 p2" unfolding p2_def by (rule calm_modal) simp
  then have two: "steady cbs i p2" using one by (rule calm_steady)
  have kept: "isTransitioning (modals p2 j) = False"
    using False by (simp add: p2_def p1_def)
  have calm: "calm p3 p5"
    unfolding p5_def p4_def by (intro calm_modal [THEN calm_trans [rotated]] calm_ops [THEN calm_trans [rotated]]) simp_all
  show ?thesis
  proof (cases "isAnimated j p2")
    case True
    then have "steady (HideModal j # cbs) i p3"
      using two kept by (auto simp: p3_def steady_def fade_simps split: if_splits)
    then have "steady (HideModal j # cbs) i p5" by (rule calm_steady [OF calm])
    then have "steady cbs i (p5\<lparr>waiting := waiting p5 @ [(AtElement j, HideModal j)]\<rparr>)"
      by (auto simp: steady_def fade_simps split: if_splits)
    then show ?thesis using one True unfolding eq executeAfterTransition_def by simp
  next
    case False
    then have "steady cbs i p3" "\<not> isTransitioning (modals p3 j)" "\<not> isAnimated j p3" using two kept by (simp_all add: p3_def)
    then have "due (HideModal j) cbs i j p5"
      using calm_steady [OF calm] calm by (simp add: due_def calm_def isAnimated_fade)
    then show ?thesis using one False steady_hideModal unfolding eq executeAfterTransition_def by simp
  qed
qed

text \<open>A callback that moves no modal may be queued at any time.\<close>

lemma steady_queue:
  assumes "steady cbs i p" "\<And>i. \<not> moves i cb" "t = place_of cb"
  shows "steady cbs i (executeAfterTransition True t cb f p)"
  using assms by (auto simp: steady_def executeAfterTransition_def fade_simps split: if_splits)

lemma steady_trigger:
  assumes "steady cbs i p"
  shows "steady cbs i (triggerBackdropTransition env j p)"
  unfolding triggerBackdropTransition_def Let_def
  using assms by (simp add: steady_queue calm_steady [OF calm_ops(1)] calm_steady [OF calm_ops(3)]
      calm_steady [OF calm_ops(11)] calm_steady [OF calm_ops(12)])

lemma steady_static:
  assumes "steady cbs i p"
  shows "steady cbs i (static_end j h p)" "steady cbs i (overflow_end j p)"
  unfolding static_end_def overflow_end_def Let_def
  using assms by (simp_all add: steady_queue calm_steady [OF calm_ops(10)] calm_steady [OF calm_ops(12)])

lemma steady_dispose:
  assumes "steady cbs i p"
  shows "steady cbs i (modal_dispose j p)"
  using assms by (auto simp: steady_def modal_dispose_def on_backdrop_def fade_simps Let_def split: if_splits)

lemma steady_drop: "steady (cb # cbs) i p \<Longrightarrow> \<not> moves i cb \<Longrightarrow> steady cbs i p"
  by (simp add: steady_def)

lemma steady_callback:
  assumes "steady (cb # cbs) i p"
  shows "steady cbs i (run_callback env cb p)"
proof (cases cb)
  case (HideModal j)
  then show ?thesis using assms steady_hideModal by (simp add: due_def)
next
  case (ShowElement j)
  then show ?thesis using assms steady_showElement by (simp add: due_def)
next
  case (TransitionComplete j)
  then show ?thesis using assms steady_complete by (simp add: due_def)
next
  case (BackdropHidden j)
  then show ?thesis using steady_drop [OF assms] by (simp add: steady_hidden steady_dispose_backdrop)
next
  case (StaticEnd j h)
  then show ?thesis using steady_drop [OF assms] by (simp add: steady_static)
next
  case (OverflowEnd j)
  then show ?thesis using steady_drop [OF assms] by (simp add: steady_static)
qed

lemma steady_callbacks:
  assumes "steady (map snd xs @ cbs) i p"
  shows "steady cbs i (fold (\<lambda>(_, cb). run_callback env cb) xs p)"
  using assms
proof (induction xs arbitrary: p)
  case (Cons x xs)
  then show ?case using steady_callback [of "snd x" "map snd xs @ cbs" i p env] by (simp add: case_prod_beta)
qed simp

lemma jobs_split:
  "jobs i (map snd xs) = jobs i (map snd (filter (\<lambda>(u, _). u = t) xs)) + jobs i (map snd (filter (\<lambda>(u, _). u \<noteq> t) xs))"
  by (induction xs) auto

lemma steady_transition_end:
  assumes "steady [] i p"
  shows "steady [] i (modal_transition_end env t p)"
proof -
  let ?mine = "filter (\<lambda>(u, _). u = t) (waiting p)" and ?p = "p\<lparr>waiting := filter (\<lambda>(u, _). u \<noteq> t) (waiting p)\<rparr>"
  have "steady (map snd ?mine) i ?p"
    using assms jobs_split [of i "waiting p" t] by (auto simp: steady_def fade_simps)
  then show ?thesis using steady_callbacks [of ?mine "[]" i ?p env] by (simp add: modal_transition_end_def Let_def)
qed

lemma steady_power:
  assumes "steady cbs i p" "\<And>p. steady cbs i p \<Longrightarrow> steady cbs i (f p)"
  shows "steady cbs i ((f ^^ n) p)"
  using assms by (induction n) auto

lemma steady_fold:
  assumes "steady cbs i p" "\<And>x p. steady cbs i p \<Longrightarrow> steady cbs i (f x p)"
  shows "steady cbs i (fold f xs p)"
  by (rule fold_keeps) (use assms in auto)

lemma steady_act:
  assumes "steady [] i p"
  shows "steady [] i (modal_act env a p)"
proof (cases a)
  case (Opener j b)
  then show ?thesis using calm_steady [OF calm_ops(14) assms]
    by (simp add: toggle_button_def modal_toggle_def steady_show steady_hide)
next
  case (KeyDown j key)
  have "steady [] i (key_listener env j key p)" if "steady [] i p" for p
    using that by (simp add: key_listener_def steady_hide steady_trigger)
  then show ?thesis using KeyDown assms by (simp add: modal_key_def steady_power)
next
  case (Click j target)
  have "steady [] i (click_listener env j target p)" if "steady [] i p" for p
    using that calm_steady [OF calm_modal that] by (simp add: click_listener_def steady_hide steady_trigger)
  then show ?thesis using Click assms by (simp add: modal_click_def steady_power)
next
  case Resize
  have "steady [] i (handleUpdate env j p)" if "steady [] i p" for j p
    using that calm_steady [OF calm_ops(4) that] by (simp add: handleUpdate_def)
  then show ?thesis using Resize assms by (simp add: window_resize_def steady_fold)
next
  case (Tab shift)
  have "steady [] i (on_trap j f p)" if "steady [] i p" for j f p
    using calm_steady [OF calm_modal that] by (simp add: on_trap_def)
  then show ?thesis using Tab assms by (simp add: handleKeydown_def steady_fold)
next
  case (Update j)
  then show ?thesis using assms calm_steady [OF calm_ops(4) assms] by (simp add: handleUpdate_def)
qed (use assms calm_steady [OF calm_modal assms] calm_steady [OF calm_ops(1) assms] in
     \<open>simp_all add: modal_toggle_def steady_show steady_hide steady_transition_end steady_dispose
       dialog_mousedown_def modal_mouseup_def\<close>)

lemma steady_run: "steady [] i p \<Longrightarrow> steady [] i (run_modal env acts p)"
  unfolding run_modal_def by (simp add: steady_fold steady_act)

lemma steady_new: "waiting p = [] \<Longrightarrow> steady [] i (modal_new i e config b p)"
  by (simp add: steady_def modal_new_def initializeBackDrop_def isAnimated_def)

section \<open>Transitions end\<close>

text \<open>A callback queues behind it only what it leads to: the dialog after the element is shown.\<close>

definition leads :: "nat \<Rightarrow> modal_callback \<Rightarrow> modal_page \<Rightarrow> modal_page \<Rightarrow> bool" where
  "leads i cb p q \<longleftrightarrow> (\<exists>xs. waiting q = waiting p @ xs \<and>
     (\<forall>x \<in> set xs. moves i (snd x) \<longrightarrow> fst x = AtDialog i \<and> (\<exists>j. cb = ShowElement j)))"

lemma leads_same: "waiting q = waiting p \<Longrightarrow> leads i cb p q"
  by (simp add: leads_def)

lemma waiting_hidden [simp]: "waiting (modal_hidden env j p) = waiting p"
  by (simp add: modal_hidden_def Let_def)

lemma waiting_complete [simp]: "waiting (transitionComplete env j p) = waiting p"
  by (simp add: transitionComplete_def Let_def)

lemma leads_callback: "leads i cb p (run_callback env cb p)"
proof (cases cb)
  case (HideModal j)
  then show ?thesis by (auto simp: leads_def hideModal_def backdrop_hide_def executeAfterTransition_def on_backdrop_def Let_def)
next
  case (ShowElement j)
  then show ?thesis by (auto simp: leads_def showElement_def executeAfterTransition_def Let_def)
next
  case (StaticEnd j h)
  then show ?thesis by (auto simp: leads_def static_end_def executeAfterTransition_def Let_def)
qed (simp_all add: leads_same on_backdrop_def overflow_end_def)

lemma leads_callbacks:
  "\<exists>xs. waiting (fold (\<lambda>(_, cb). run_callback env cb) ys p) = waiting p @ xs \<and>
     (\<forall>x \<in> set xs. moves i (snd x) \<longrightarrow> fst x = AtDialog i \<and> (\<exists>y \<in> set ys. \<exists>j. snd y = ShowElement j))"
proof (induction ys arbitrary: p)
  case (Cons y ys)
  let ?q = "run_callback env (snd y) p"
  obtain xs where xs: "waiting ?q = waiting p @ xs"
      "\<forall>x \<in> set xs. moves i (snd x) \<longrightarrow> fst x = AtDialog i \<and> (\<exists>j. snd y = ShowElement j)"
    using leads_callback [of i "snd y" p env] unfolding leads_def by blast
  obtain zs where zs: "waiting (fold (\<lambda>(_, cb). run_callback env cb) ys ?q) = waiting ?q @ zs"
      "\<forall>x \<in> set zs. moves i (snd x) \<longrightarrow> fst x = AtDialog i \<and> (\<exists>y \<in> set ys. \<exists>j. snd y = ShowElement j)"
    using Cons.IH [of ?q] by blast
  show ?case
    using xs zs by (intro exI [of _ "xs @ zs"]) (auto simp: case_prod_unfold)
qed simp

definition quiet_at :: "place \<Rightarrow> nat \<Rightarrow> modal_page \<Rightarrow> bool" where
  "quiet_at t i p \<longleftrightarrow> (\<forall>(u, c) \<in> set (waiting p). u = t \<longrightarrow> \<not> moves i c)"

lemma quiet_after:
  assumes "steady [] i p"
  shows "quiet_at t i (modal_transition_end env t p)"
    and "quiet_at t' i p \<Longrightarrow> t' \<noteq> AtDialog i \<Longrightarrow> quiet_at t' i (modal_transition_end env t p)"
proof -
  let ?mine = "filter (\<lambda>(u, _). u = t) (waiting p)"
  obtain xs where xs: "waiting (modal_transition_end env t p) = filter (\<lambda>(u, _). u \<noteq> t) (waiting p) @ xs"
      "\<forall>x \<in> set xs. moves i (snd x) \<longrightarrow> fst x = AtDialog i \<and> (\<exists>y \<in> set ?mine. \<exists>j. snd y = ShowElement j)"
    using leads_callbacks [of env ?mine "p\<lparr>waiting := filter (\<lambda>(u, _). u \<noteq> t) (waiting p)\<rparr>" i]
    by (auto simp: modal_transition_end_def Let_def)
  have placed: "(u, c) \<in> set (waiting p) \<Longrightarrow> u = place_of c" for u c
    using assms by (auto simp: steady_def)
  have "t = AtBackdrop j" if "(u, ShowElement j) \<in> set ?mine" for u j
    using that placed [of u "ShowElement j"] by auto
  then show "quiet_at t i (modal_transition_end env t p)"
    using xs(2) unfolding quiet_at_def xs(1) by (fastforce simp: case_prod_beta)
  show "quiet_at t' i p \<Longrightarrow> t' \<noteq> AtDialog i \<Longrightarrow> quiet_at t' i (modal_transition_end env t p)"
    using xs(2) unfolding quiet_at_def xs(1) by (fastforce simp: case_prod_beta)
qed

lemma quiet_not_moving:
  assumes "steady [] i p" "quiet_at (AtElement i) i p" "quiet_at (AtBackdrop i) i p" "quiet_at (AtDialog i) i p"
    and "\<not> disposed (modals p i)"
  shows "\<not> isTransitioning (modals p i)"
proof -
  have "\<not> moves i c" if "(u, c) \<in> set (waiting p)" for u c
  proof
    assume "moves i c"
    moreover have "u = place_of c" using assms(1) that by (auto simp: steady_def)
    ultimately show False using that assms(2-4) by (cases c) (auto simp: quiet_at_def)
  qed
  then have "jobs i (map snd (waiting p)) = 0" by (auto simp: jobs_def filter_empty_conv)
  then show ?thesis using assms(1,5) by (simp add: steady_def split: if_splits)
qed

text \<open>Whatever was done with the modal, three ends of transitions bring it out of its own.\<close>

lemma out_of_transition:
  assumes "steady [] i p"
  shows "let m = modals (run_modal env
      [TransitionOver (AtElement i), TransitionOver (AtBackdrop i), TransitionOver (AtDialog i)] p) i
    in disposed m \<or> \<not> isTransitioning m"
proof -
  define p1 where "p1 = modal_transition_end env (AtElement i) p"
  define p2 where "p2 = modal_transition_end env (AtBackdrop i) p1"
  define p3 where "p3 = modal_transition_end env (AtDialog i) p2"
  have s: "steady [] i p1" "steady [] i p2" "steady [] i p3"
    unfolding p3_def p2_def p1_def by (simp_all add: steady_transition_end assms)
  have "quiet_at (AtElement i) i p1" unfolding p1_def by (rule quiet_after(1) [OF assms])
  then have "quiet_at (AtElement i) i p2" "quiet_at (AtBackdrop i) i p2"
    unfolding p2_def using quiet_after [OF s(1)] by simp_all
  then have q: "quiet_at (AtElement i) i p3" "quiet_at (AtBackdrop i) i p3" "quiet_at (AtDialog i) i p3"
    unfolding p3_def using quiet_after [OF s(2)] by simp_all
  have "run_modal env [TransitionOver (AtElement i), TransitionOver (AtBackdrop i), TransitionOver (AtDialog i)] p = p3"
    by (simp add: run_modal_def p3_def p2_def p1_def)
  moreover have "disposed (modals p3 i) \<or> \<not> isTransitioning (modals p3 i)"
    using quiet_not_moving [OF s(3) q] by blast
  ultimately show ?thesis by (simp add: Let_def)
qed

section \<open>Opening and closing\<close>

definition shown_element :: "styled \<Rightarrow> styled" where
  "shown_element el = add_class ''show'' (set_attribute ''role'' ''dialog'' (set_attribute ''aria-modal'' ''true''
     (drop_attribute ''aria-hidden'' (set_style ''display'' ''block'' el))))"

definition hidden_element :: "styled \<Rightarrow> styled" where
  "hidden_element el = drop_attribute ''role'' (drop_attribute ''aria-modal'' (set_attribute ''aria-hidden'' ''true''
     (set_style ''display'' ''none'' (remove_class ''show'' el))))"

definition padded :: "modal_env \<Rightarrow> sheet \<Rightarrow> nat \<Rightarrow> styled" where
  "padded env doc e =
     (let high = too_high env doc e; n = getWidth (window.truncate env) doc; wide = n > 0;
          el = (if \<not> wide \<and> high \<and> \<not> is_RTL env \<or> wide \<and> \<not> high \<and> is_RTL env
                then set_style ''paddingLeft'' (px n) (doc e) else doc e)
      in if wide \<and> \<not> high \<and> \<not> is_RTL env \<or> \<not> wide \<and> high \<and> is_RTL env
         then set_style ''paddingRight'' (px n) el else el)"

lemma page_doc_adjust:
  "page_doc (adjustDialog env i p) =
     (page_doc p)(modal_element (modals p i) := padded env (page_doc p) (modal_element (modals p i)))"
  by (rule ext) (simp add: padded_def adjustDialog_def Let_def)

text \<open>The page of an open modal.\<close>

definition opened_doc :: "modal_env \<Rightarrow> nat \<Rightarrow> sheet \<Rightarrow> sheet" where
  "opened_doc env e doc =
     (let doc = scroll_hide (window.truncate env) doc;
          doc = doc(body_id env := add_class ''modal-open'' (doc (body_id env)))
      in doc(e := shown_element (padded env doc e)))"

definition closed_doc :: "modal_env \<Rightarrow> nat \<Rightarrow> sheet \<Rightarrow> sheet" where
  "closed_doc env e doc =
     (let doc = doc(e := hidden_element (doc e));
          doc = doc(body_id env := remove_class ''modal-open'' (doc (body_id env)));
          doc = doc(e := set_style ''paddingRight'' [] (set_style ''paddingLeft'' [] (doc e)))
      in scroll_reset (window.truncate env) doc)"

lemma padded_simps [simp]: "class_list (padded env doc e) = class_list (doc e)" "attrs_of (padded env doc e) = attrs_of (doc e)"
  by (simp_all add: padded_def Let_def)

lemma fade_docs:
  "''fade'' \<in> set (class_list (opened_doc env e doc d)) \<longleftrightarrow> ''fade'' \<in> set (class_list (doc d))"
  "''fade'' \<in> set (class_list (closed_doc env e doc d)) \<longleftrightarrow> ''fade'' \<in> set (class_list (doc d))"
  by (auto simp: opened_doc_def closed_doc_def shown_element_def hidden_element_def Let_def)

text \<open>A modal that is closed, or open, with nothing under way.\<close>

definition closed :: "nat \<Rightarrow> modal_page \<Rightarrow> bool" where
  "closed i p \<longleftrightarrow> (let m = modals p i in waiting p = [] \<and> \<not> isShown m \<and> \<not> isTransitioning m \<and> \<not> disposed m \<and>
     bd_animated (the_backdrop m) = isAnimated i p \<and> \<not> bd_appended (the_backdrop m) \<and>
     on_keydown m = 0 \<and> on_click m = 0 \<and> on_mousedown m = 0)"

definition opened :: "nat \<Rightarrow> modal_page \<Rightarrow> bool" where
  "opened i p \<longleftrightarrow> (let m = modals p i in waiting p = [] \<and> isShown m \<and> \<not> isTransitioning m \<and> \<not> disposed m \<and>
     bd_animated (the_backdrop m) = isAnimated i p \<and> bd_appended (the_backdrop m) = bd_visible (the_backdrop m) \<and>
     on_keydown m = 1 \<and> on_click m = 1 \<and> on_mousedown m = 1)"

lemma end_nothing: "\<forall>x \<in> set (waiting p). fst x \<noteq> t \<Longrightarrow> modal_transition_end env t p = p"
proof -
  assume *: "\<forall>x \<in> set (waiting p). fst x \<noteq> t"
  then have "filter (\<lambda>(u, _). u = t) (waiting p) = []" "filter (\<lambda>(u, _). u \<noteq> t) (waiting p) = waiting p"
    by (auto simp: filter_empty_conv filter_id_conv)
  then show ?thesis by (simp add: modal_transition_end_def)
qed

lemma end_queued:
  assumes "waiting p = []"
  shows "modal_transition_end env t (p\<lparr>waiting := [(t, cb)]\<rparr>) = run_callback env cb p"
proof -
  have "p\<lparr>waiting := []\<rparr> = p" using assms by simp
  then show ?thesis by (simp add: modal_transition_end_def)
qed

lemma show_begins:
  assumes "\<not> isShown (modals p i)" "\<not> isTransitioning (modals p i)" "\<not> disposed (modals p i)"
    and "\<And>q. \<not> prevents env q ''show'' i"
  obtains q where "modal_show env i p = backdrop_show i (ShowElement i) (showElement env i) q"
    "waiting q = waiting p" "on_resize q = on_resize p @ [i]"
    "modals q i = (modals p i)\<lparr>isShown := True, isTransitioning := isAnimated i p, on_keydown := on_keydown (modals p i) + 1,
      on_mousedown := on_mousedown (modals p i) + 1, on_click := on_click (modals p i) + 1\<rparr>"
    "\<And>j. j \<noteq> i \<Longrightarrow> modals q j = modals p j"
    "page_doc q = (let doc = scroll_hide (window.truncate env) (page_doc p);
          doc = doc(body_id env := add_class ''modal-open'' (doc (body_id env)))
      in doc(modal_element (modals p i) := padded env doc (modal_element (modals p i))))"
proof -
  define p1 where "p1 = trigger_show False i p"
  define p2 where "p2 = on_modal i (\<lambda>m. m\<lparr>isShown := True\<rparr>) p1"
  define p3 where "p3 = (if isAnimated i p2 then on_modal i (\<lambda>m. m\<lparr>isTransitioning := True\<rparr>) p2 else p2)"
  define p4 where "p4 = on_doc (body_id env) (add_class ''modal-open'')
    (p3\<lparr>page_doc := scroll_hide (window.truncate env) (page_doc p3)\<rparr>)"
  define p5 where "p5 = adjustDialog env i p4"
  define p6 where "p6 = on_modal i (\<lambda>m. m\<lparr>on_mousedown := on_mousedown m + 1\<rparr>) (setResizeEvent i (setEscapeEvent i p5))"
  define p7 where "p7 = on_modal i (\<lambda>m. m\<lparr>on_click := on_click m + 1\<rparr>) p6"
  have eq: "modal_show env i p = backdrop_show i (ShowElement i) (showElement env i) p7"
    using assms unfolding modal_show_def showBackdrop_def Let_def p7_def p6_def p5_def p4_def p3_def p2_def p1_def by simp
  have fade: "isAnimated i p2 = isAnimated i p" by (simp add: p2_def p1_def isAnimated_fade)
  have p3: "modals p3 = (modals p)(i := (modals p i)\<lparr>isShown := True, isTransitioning := isAnimated i p\<rparr>)"
    "waiting p3 = waiting p" "page_doc p3 = page_doc p" "on_resize p3 = on_resize p"
    using assms(1,2) fade unfolding p3_def p2_def p1_def by auto
  have p5: "modals p5 = modals p3" "waiting p5 = waiting p" "on_resize p5 = on_resize p"
    using p3 by (simp_all add: p5_def p4_def)
  show thesis
  proof (rule that [OF eq])
    show "modals p7 i = (modals p i)\<lparr>isShown := True, isTransitioning := isAnimated i p, on_keydown := on_keydown (modals p i) + 1,
        on_mousedown := on_mousedown (modals p i) + 1, on_click := on_click (modals p i) + 1\<rparr>"
      using p5 p3 by (simp add: p7_def p6_def)
    show "page_doc p7 = (let doc = scroll_hide (window.truncate env) (page_doc p);
          doc = doc(body_id env := add_class ''modal-open'' (doc (body_id env)))
      in doc(modal_element (modals p i) := padded env doc (modal_element (modals p i))))"
      using p3 by (simp add: p7_def p6_def p5_def page_doc_adjust p4_def on_doc_def Let_def)
  qed (use p5 p3 in \<open>simp_all add: p7_def p6_def\<close>)
qed

lemma show_closed:
  assumes "closed i p" "\<And>q. \<not> prevents env q ''show'' i"
  obtains q where "modal_show env i p = backdrop_show i (ShowElement i) (showElement env i) q"
    "waiting q = []" "on_resize q = on_resize p @ [i]"
    "modals q i = (modals p i)\<lparr>isShown := True, isTransitioning := isAnimated i p, on_keydown := 1, on_mousedown := 1, on_click := 1\<rparr>"
    "\<And>j. j \<noteq> i \<Longrightarrow> modals q j = modals p j"
    "page_doc q = (let doc = scroll_hide (window.truncate env) (page_doc p);
          doc = doc(body_id env := add_class ''modal-open'' (doc (body_id env)))
      in doc(modal_element (modals p i) := padded env doc (modal_element (modals p i))))"
proof -
  have idle: "\<not> isShown (modals p i)" "\<not> isTransitioning (modals p i)" "\<not> disposed (modals p i)" "waiting p = []"
    "on_keydown (modals p i) = 0" "on_click (modals p i) = 0" "on_mousedown (modals p i) = 0"
    using assms(1) by (simp_all add: closed_def Let_def)
  show thesis
    by (rule show_begins [OF idle(1-3) assms(2)]) (rule that, use idle in simp_all)
qed

lemma complete_simps:
  assumes "\<not> disposed (modals p i)"
  shows "modals (transitionComplete env i p) j = (if j = i then (modals p i)\<lparr>isTransitioning := False,
      the_trap := (if truthy_b (bget (modal_conf (modals p i)) ''focus'') then (the_trap (modals p i))\<lparr>isActive := True\<rparr> else the_trap (modals p i))\<rparr>
    else modals p j)"
    "page_doc (transitionComplete env i p) = page_doc p" "on_resize (transitionComplete env i p) = on_resize p"
  using assms by (simp_all add: transitionComplete_def Let_def)

text \<open>The element is shown, after a transition of the dialog or at once.\<close>

lemma element_shown:
  fixes env :: modal_env
  assumes "waiting p = []" "\<not> disposed (modals p i)"
  defines "q \<equiv> modal_transition_end env (AtDialog i) (showElement env i p)"
  shows "waiting q = []" "on_resize q = on_resize p"
    "modals q j = (if j = i then (modals p i)\<lparr>attached := True, isTransitioning := False,
      the_trap := (if truthy_b (bget (modal_conf (modals p i)) ''focus'') then (the_trap (modals p i))\<lparr>isActive := True\<rparr> else the_trap (modals p i))\<rparr>
    else modals p j)"
    "page_doc q = (page_doc p)(modal_element (modals p i) := shown_element (page_doc p (modal_element (modals p i))))"
proof -
  define r where "r = on_own i (add_class ''show'') (on_own i (set_attribute ''role'' ''dialog'') (on_own i (set_attribute ''aria-modal'' ''true'')
    (on_own i (drop_attribute ''aria-hidden'') (on_own i (set_style ''display'' ''block'') (on_modal i (\<lambda>m. m\<lparr>attached := True\<rparr>) p)))))"
  have eq: "showElement env i p =
      executeAfterTransition (isAnimated i p) (AtDialog i) (TransitionComplete i) (transitionComplete env i) r"
    using assms(2) by (simp add: showElement_def r_def Let_def)
  have r: "waiting r = []" "\<not> disposed (modals r i)" "on_resize r = on_resize p"
    "modals r = (modals p)(i := (modals p i)\<lparr>attached := True\<rparr>)"
    "page_doc r = (page_doc p)(modal_element (modals p i) := shown_element (page_doc p (modal_element (modals p i))))"
    using assms(1,2) by (auto simp: r_def shown_element_def)
  have q: "q = transitionComplete env i r"
  proof (cases "isAnimated i p")
    case True
    then show ?thesis unfolding q_def eq using r(1) by (simp add: executeAfterTransition_def end_queued)
  next
    case False
    then show ?thesis unfolding q_def eq using r(1) by (simp add: executeAfterTransition_def end_nothing)
  qed
  show "waiting q = []" "on_resize q = on_resize p"
    "modals q j = (if j = i then (modals p i)\<lparr>attached := True, isTransitioning := False,
      the_trap := (if truthy_b (bget (modal_conf (modals p i)) ''focus'') then (the_trap (modals p i))\<lparr>isActive := True\<rparr> else the_trap (modals p i))\<rparr>
    else modals p j)"
    "page_doc q = (page_doc p)(modal_element (modals p i) := shown_element (page_doc p (modal_element (modals p i))))"
    unfolding q using r by (simp_all add: complete_simps)
qed

lemma backdrop_states [simp]:
  "bd_appended (backdrop_append b)" "bd_appended (backdrop_class f b) = bd_appended b" "\<not> bd_appended (backdrop_dispose b)"
  by (simp_all add: backdrop_append_def backdrop_class_def backdrop_dispose_def backdrop_getElement_def Let_def split: option.split)

lemma open_modal:
  assumes "closed i p" "\<And>q. \<not> prevents env q ''show'' i" "modal_element (modals p i) \<noteq> body_id env"
  defines "q \<equiv> run_modal env [Show i, TransitionOver (AtBackdrop i), TransitionOver (AtDialog i)] p"
  shows "opened i q" "page_doc q = opened_doc env (modal_element (modals p i)) (page_doc p)"
    "on_resize q = on_resize p @ [i]"
    "modal_element (modals q i) = modal_element (modals p i)"
    "bd_visible (the_backdrop (modals q i)) \<longleftrightarrow> bd_visible (the_backdrop (modals p i))"
    "isActive (the_trap (modals q i)) \<longleftrightarrow> isActive (the_trap (modals p i)) \<or> truthy_b (bget (modal_conf (modals p i)) ''focus'')"
    "j \<noteq> i \<Longrightarrow> modals q j = modals p j"
proof -
  obtain a where begin_show: "modal_show env i p = backdrop_show i (ShowElement i) (showElement env i) a"
    and a: "waiting a = []" "on_resize a = on_resize p @ [i]"
      "modals a i = (modals p i)\<lparr>isShown := True, isTransitioning := isAnimated i p, on_keydown := 1, on_mousedown := 1, on_click := 1\<rparr>"
      "\<And>j. j \<noteq> i \<Longrightarrow> modals a j = modals p j"
      "page_doc a = (let doc = scroll_hide (window.truncate env) (page_doc p);
          doc = doc(body_id env := add_class ''modal-open'' (doc (body_id env)))
        in doc(modal_element (modals p i) := padded env doc (modal_element (modals p i))))"
    by (rule show_closed [OF assms(1,2)]) blast
  define b where "b = (if bd_visible (the_backdrop (modals a i))
    then on_backdrop i (backdrop_class (classList_add ''show'')) (on_backdrop i backdrop_append a) else a)"
  have b: "waiting b = []" "on_resize b = on_resize p @ [i]" "page_doc b = page_doc a" "\<And>j. j \<noteq> i \<Longrightarrow> modals b j = modals p j"
    "\<not> disposed (modals b i)"
    using a assms(1) by (simp_all add: b_def on_backdrop_def closed_def Let_def)
  have q: "q = modal_transition_end env (AtDialog i) (showElement env i b)"
  proof (cases "bd_visible (the_backdrop (modals a i)) \<and> bd_animated (the_backdrop (modals a i))")
    case True
    then have "modal_show env i p = b\<lparr>waiting := [(AtBackdrop i, ShowElement i)]\<rparr>"
      using b(1) unfolding begin_show by (simp add: backdrop_show_def executeAfterTransition_def b_def on_backdrop_def)
    then have "modal_transition_end env (AtBackdrop i) (modal_show env i p) = showElement env i b"
      using b(1) by (simp add: end_queued)
    then show ?thesis by (simp add: q_def run_modal_def)
  next
    case False
    then have "modal_show env i p = showElement env i b"
      unfolding begin_show by (auto simp: backdrop_show_def executeAfterTransition_def b_def on_backdrop_def Let_def)
    moreover have "modal_transition_end env (AtBackdrop i) (showElement env i b) = showElement env i b"
      using b(1,5) by (intro end_nothing) (simp add: showElement_def executeAfterTransition_def Let_def)
    ultimately show ?thesis by (simp add: q_def run_modal_def)
  qed
  show doc: "page_doc q = opened_doc env (modal_element (modals p i)) (page_doc p)"
    unfolding q element_shown [OF b(1,5)] b(3) a(5) by (simp add: opened_doc_def b_def a(3) on_backdrop_def Let_def)
  show "on_resize q = on_resize p @ [i]" "j \<noteq> i \<Longrightarrow> modals q j = modals p j"
    unfolding q element_shown [OF b(1,5)] using b by simp_all
  have own: "modal_element (modals b i) = modal_element (modals p i)" "the_trap (modals b i) = the_trap (modals p i)"
    "modal_conf (modals b i) = modal_conf (modals p i)"
    "bd_visible (the_backdrop (modals b i)) = bd_visible (the_backdrop (modals p i))"
    by (simp_all add: b_def a(3) on_backdrop_def)
  show "modal_element (modals q i) = modal_element (modals p i)"
    "bd_visible (the_backdrop (modals q i)) \<longleftrightarrow> bd_visible (the_backdrop (modals p i))"
    "isActive (the_trap (modals q i)) \<longleftrightarrow> isActive (the_trap (modals p i)) \<or> truthy_b (bget (modal_conf (modals p i)) ''focus'')"
    unfolding q element_shown [OF b(1,5)] using own by simp_all
  have "isAnimated i q = isAnimated i p"
    using own by (simp add: isAnimated_def doc fade_docs) (simp add: q element_shown [OF b(1,5)])
  moreover obtain tr where "modals q i = (modals b i)\<lparr>attached := True, isTransitioning := False, the_trap := tr\<rparr>"
    unfolding q element_shown [OF b(1,5)] by simp
  moreover have "waiting q = []" unfolding q by (rule element_shown(1) [OF b(1,5)])
  moreover have "bd_appended (the_backdrop (modals b i)) = bd_visible (the_backdrop (modals b i))"
    "bd_animated (the_backdrop (modals b i)) = isAnimated i p" "isShown (modals b i)" "\<not> disposed (modals b i)"
    "on_keydown (modals b i) = 1" "on_click (modals b i) = 1" "on_mousedown (modals b i) = 1"
    using assms(1) by (simp_all add: b_def a(3) on_backdrop_def closed_def Let_def)
  ultimately show "opened i q"
    by (simp add: opened_def Let_def)
qed

lemma hide_begins:
  assumes "opened i p" "\<And>q. \<not> prevents env q ''hide'' i"
  obtains q where
    "modal_transition_end env (AtElement i) (modal_hide env i p) = backdrop_hide i (BackdropHidden i) (modal_hidden env i) q"
    "isShown (modals q i) = False" "isTransitioning (modals q i) = False"
    "modal_element (modals q i) = modal_element (modals p i)" "the_backdrop (modals q i) = the_backdrop (modals p i)"
    "disposed (modals q i) = False" "waiting q = []" "on_keydown (modals q i) = 0" "on_click (modals q i) = 0"
    "on_mousedown (modals q i) = 0" "\<not> isActive (the_trap (modals q i))" "on_resize q = []"
    "on_focus q = (if isActive (the_trap (modals p i)) then [] else on_focus p)"
    "page_doc q = (page_doc p)(modal_element (modals p i) := hidden_element (page_doc p (modal_element (modals p i))))"
    "\<And>j. j \<noteq> i \<Longrightarrow> modals q j = modals p j"
proof -
  define e where "e = modal_element (modals p i)"
  define p1 where "p1 = on_modal i (\<lambda>m. m\<lparr>isShown := False\<rparr>) (log_event ''hide'' i p)"
  define p2 where "p2 = (if isAnimated i p1 then on_modal i (\<lambda>m. m\<lparr>isTransitioning := True\<rparr>) p1 else p1)"
  define p3 where "p3 = on_own i (remove_class ''show'') (trap_deactivate i (setResizeEvent i (setEscapeEvent i p2)))"
  define p4 where "p4 = on_modal i (\<lambda>m. m\<lparr>on_mousedown := 0\<rparr>) (on_modal i (\<lambda>m. m\<lparr>on_click := 0\<rparr>) p3)"
  have hide: "modal_hide env i p =
      executeAfterTransition (isAnimated i p1) (AtElement i) (HideModal i) (hideModal env i) p4"
    using assms(1,2) unfolding opened_def modal_hide_def Let_def p4_def p3_def p2_def p1_def by simp
  have p2: "isShown (modals p2 i) = False" "modal_element (modals p2 i) = e" "the_backdrop (modals p2 i) = the_backdrop (modals p i)"
    "disposed (modals p2 i) = False" "the_trap (modals p2 i) = the_trap (modals p i)" "on_focus p2 = on_focus p" "waiting p2 = []" "page_doc p2 = page_doc p" "j \<noteq> i \<Longrightarrow> modals p2 j = modals p j" for j
    using assms(1) by (auto simp: p2_def p1_def opened_def e_def Let_def)
  have p4: "isShown (modals p4 i) = False" "modal_element (modals p4 i) = e" "the_backdrop (modals p4 i) = the_backdrop (modals p i)"
    "disposed (modals p4 i) = False" "waiting p4 = []" "on_keydown (modals p4 i) = 0" "on_click (modals p4 i) = 0"
    "on_mousedown (modals p4 i) = 0" "\<not> isActive (the_trap (modals p4 i))" "on_resize p4 = []"
    "on_focus p4 = (if isActive (the_trap (modals p i)) then [] else on_focus p)"
    "page_doc p4 = (page_doc p)(e := remove_class ''show'' (page_doc p e))" "j \<noteq> i \<Longrightarrow> modals p4 j = modals p j" for j
    using p2 by (auto simp: p4_def p3_def)
  define p5 where "p5 = on_modal i (\<lambda>m. m\<lparr>isTransitioning := False\<rparr>) (on_own i (drop_attribute ''role'') (on_own i (drop_attribute ''aria-modal'')
    (on_own i (set_attribute ''aria-hidden'' ''true'') (on_own i (set_style ''display'' ''none'') p4))))"
  have hidden: "hideModal env i p4 = backdrop_hide i (BackdropHidden i) (modal_hidden env i) p5"
    using p4(4) by (simp add: hideModal_def p5_def Let_def)
  have "modal_transition_end env (AtElement i) (modal_hide env i p) = hideModal env i p4"
  proof (cases "isAnimated i p1")
    case True
    then show ?thesis using p4(5) unfolding hide by (simp add: executeAfterTransition_def end_queued)
  next
    case False
    then show ?thesis using p4(5) unfolding hide
      by (simp add: executeAfterTransition_def)
        (intro end_nothing, simp add: hidden backdrop_hide_def executeAfterTransition_def on_backdrop_def p5_def Let_def)
  qed
  then show thesis
    unfolding hidden by (rule that) (use p4 in \<open>auto simp: p5_def e_def hidden_element_def\<close>)
qed

lemma close_modal:
  assumes "opened i p" "\<And>q. \<not> prevents env q ''hide'' i" "modal_element (modals p i) \<noteq> body_id env"
  defines "q \<equiv> run_modal env [Hide i, TransitionOver (AtElement i), TransitionOver (AtBackdrop i)] p"
  shows "closed i q" "page_doc q = closed_doc env (modal_element (modals p i)) (page_doc p)"
    "on_resize q = []" "\<not> isActive (the_trap (modals q i))"
    "on_focus q = (if isActive (the_trap (modals p i)) then [] else on_focus p)"
    "modal_element (modals q i) = modal_element (modals p i)" "j \<noteq> i \<Longrightarrow> modals q j = modals p j"
proof -
  define e where "e = modal_element (modals p i)"
  obtain p5 where half:
    "modal_transition_end env (AtElement i) (modal_hide env i p) = backdrop_hide i (BackdropHidden i) (modal_hidden env i) p5"
    and p5: "isShown (modals p5 i) = False" "isTransitioning (modals p5 i) = False"
    "modal_element (modals p5 i) = e" "the_backdrop (modals p5 i) = the_backdrop (modals p i)"
    "disposed (modals p5 i) = False" "waiting p5 = []" "on_keydown (modals p5 i) = 0" "on_click (modals p5 i) = 0"
    "on_mousedown (modals p5 i) = 0" "\<not> isActive (the_trap (modals p5 i))" "on_resize p5 = []"
    "on_focus p5 = (if isActive (the_trap (modals p i)) then [] else on_focus p)"
    "page_doc p5 = (page_doc p)(e := hidden_element (page_doc p e))" "\<And>j. j \<noteq> i \<Longrightarrow> modals p5 j = modals p j"
    unfolding e_def by (rule hide_begins [OF assms(1,2)]) blast
  define p6 where "p6 = on_backdrop i (backdrop_class (classList_remove ''show'')) p5"
  define p7 where "p7 = (if bd_visible (the_backdrop (modals p i)) then on_backdrop i backdrop_dispose p6 else p5)"
  have p7: "isShown (modals p7 i) = False" "isTransitioning (modals p7 i) = False" "modal_element (modals p7 i) = e"
    "bd_animated (the_backdrop (modals p7 i)) = isAnimated i p" "\<not> bd_appended (the_backdrop (modals p7 i))"
    "disposed (modals p7 i) = False" "waiting p7 = []" "on_keydown (modals p7 i) = 0" "on_click (modals p7 i) = 0"
    "on_mousedown (modals p7 i) = 0" "\<not> isActive (the_trap (modals p7 i))" "on_resize p7 = []"
    "on_focus p7 = (if isActive (the_trap (modals p i)) then [] else on_focus p)"
    "page_doc p7 = (page_doc p)(e := hidden_element (page_doc p e))" "j \<noteq> i \<Longrightarrow> modals p7 j = modals p j" for j
    using p5 assms(1) by (auto simp: p7_def p6_def on_backdrop_def opened_def Let_def)
  have p6: "waiting p6 = []" using p5(6) by (simp add: p6_def on_backdrop_def)
  have "q = modal_hidden env i p7"
  proof (cases "bd_visible (the_backdrop (modals p i)) \<and> bd_animated (the_backdrop (modals p i))")
    case True
    then have "backdrop_hide i (BackdropHidden i) (modal_hidden env i) p5 = p6\<lparr>waiting := [(AtBackdrop i, BackdropHidden i)]\<rparr>"
      using p5(4,6) by (simp add: backdrop_hide_def executeAfterTransition_def p6_def on_backdrop_def)
    then show ?thesis using True p6 half by (simp add: q_def run_modal_def end_queued p7_def)
  next
    case False
    then have "backdrop_hide i (BackdropHidden i) (modal_hidden env i) p5 = modal_hidden env i p7"
      using p5(4) by (auto simp: backdrop_hide_def executeAfterTransition_def p7_def p6_def on_backdrop_def Let_def)
    then show ?thesis using p7(7) half by (simp add: q_def run_modal_def end_nothing)
  qed
  moreover have "page_doc (modal_hidden env i p7) = closed_doc env e (page_doc p)"
    using p7(3,6,14) by (simp add: modal_hidden_def closed_doc_def resetAdjustments_def on_own_def on_doc_def Let_def)
  moreover have "isAnimated i (modal_hidden env i p7) = isAnimated i p"
    using p7(3) calculation(2) by (simp add: isAnimated_def fade_docs e_def) (simp add: modal_hidden_def Let_def e_def)
  ultimately show "closed i q" "page_doc q = closed_doc env (modal_element (modals p i)) (page_doc p)"
    "on_resize q = []" "\<not> isActive (the_trap (modals q i))"
    "on_focus q = (if isActive (the_trap (modals p i)) then [] else on_focus p)"
    "modal_element (modals q i) = modal_element (modals p i)" "j \<noteq> i \<Longrightarrow> modals q j = modals p j"
    using p7 by (simp_all add: closed_def e_def Let_def) (simp_all add: modal_hidden_def Let_def)
qed

section \<open>The page after a cycle\<close>

lemma reset_at:
  assumes "distinct (fixed_content w)" "distinct (sticky_content w)"
    and "body_id w \<notin> set (fixed_content w)" "body_id w \<notin> set (sticky_content w)"
  shows "scroll_reset w doc d =
    (if d = body_id w then restored ''paddingRight'' (restored ''overflow'' (doc d))
     else (if d \<in> set (sticky_content w) then restored ''marginRight'' else id)
       ((if d \<in> set (fixed_content w) then restored ''paddingRight'' else id) (doc d)))"
  using assms by (simp add: scroll_reset_def Let_def reset_attributes_at)

lemma hide_other:
  assumes "d \<noteq> body_id w" "d \<notin> set (fixed_content w)" "d \<notin> set (sticky_content w)"
    and "distinct (fixed_content w)" "distinct (sticky_content w)"
  shows "scroll_hide w doc d = doc d"
  using assms by (simp add: scroll_hide_def Let_def set_attributes_at(1) disableOverFlow_def)

lemma add_remove_class: "c \<notin> set (class_list el) \<Longrightarrow> remove_class c (add_class c el) = el"
  by (simp add: add_class_def remove_class_def classList_add_def classList_remove_def)

lemma truncate_fields [simp]:
  "fixed_content (window.truncate env) = fixed_content env" "sticky_content (window.truncate env) = sticky_content env"
  "body_id (window.truncate env) = body_id env"
  by (simp_all add: window.truncate_def)

lemma cycle_doc:
  assumes "distinct (fixed_content env)" "distinct (sticky_content env)"
    and "body_id env \<notin> set (fixed_content env)" "body_id env \<notin> set (sticky_content env)"
    and "e \<noteq> body_id env" "e \<notin> set (fixed_content env)" "e \<notin> set (sticky_content env)"
    and "''modal-open'' \<notin> set (class_list (doc (body_id env)))"
  shows "d \<noteq> e \<Longrightarrow> closed_doc env e (opened_doc env e doc) d =
      scroll_reset (window.truncate env) (scroll_hide (window.truncate env) doc) d"
    and "oget (styles (closed_doc env e (opened_doc env e doc) e)) q =
      (if q = ''display'' then Some ''none'' else if q = ''paddingLeft'' \<or> q = ''paddingRight'' then None
       else oget (styles (doc e)) q)"
    and "oget (attrs_of (closed_doc env e (opened_doc env e doc) e)) k =
      (if k = ''aria-hidden'' then Some ''true'' else if k = ''aria-modal'' \<or> k = ''role'' then None
       else oget (attrs_of (doc e)) k)"
    and "set (class_list (closed_doc env e (opened_doc env e doc) e)) = set (class_list (doc e)) - {''show''}"
proof -
  let ?w = "window.truncate env"
  have lists: "distinct (fixed_content ?w)" "distinct (sticky_content ?w)"
    "body_id ?w \<notin> set (fixed_content ?w)" "body_id ?w \<notin> set (sticky_content ?w)"
    using assms(1-4) by simp_all
  have own: "scroll_hide ?w doc e = doc e" using hide_other [of e ?w doc] assms by simp
  have e: "closed_doc env e (opened_doc env e doc) e =
      set_style ''paddingRight'' [] (set_style ''paddingLeft'' [] (hidden_element (opened_doc env e doc e)))"
    using assms(5-7) by (simp add: closed_doc_def Let_def reset_at [OF lists])
  have opened: "opened_doc env e doc e = shown_element (padded env ((scroll_hide ?w doc)
      (body_id env := add_class ''modal-open'' (scroll_hide ?w doc (body_id env)))) e)"
    by (simp add: opened_doc_def Let_def)
  have padding: "q \<noteq> ''paddingLeft'' \<Longrightarrow> q \<noteq> ''paddingRight'' \<Longrightarrow> oget (styles (padded env d e)) q = oget (styles (d e)) q" for d q
    by (simp add: padded_def Let_def)
  show "oget (styles (closed_doc env e (opened_doc env e doc) e)) q =
      (if q = ''display'' then Some ''none'' else if q = ''paddingLeft'' \<or> q = ''paddingRight'' then None
       else oget (styles (doc e)) q)"
    unfolding e opened using own assms(5) padding [of q]
    by (simp add: hidden_element_def shown_element_def set_attribute_def drop_attribute_def add_class_def remove_class_def)
  show "oget (attrs_of (closed_doc env e (opened_doc env e doc) e)) k =
      (if k = ''aria-hidden'' then Some ''true'' else if k = ''aria-modal'' \<or> k = ''role'' then None
       else oget (attrs_of (doc e)) k)"
    unfolding e opened using own assms(5)
    by (simp add: hidden_element_def shown_element_def set_attribute_def drop_attribute_def add_class_def remove_class_def)
  show "set (class_list (closed_doc env e (opened_doc env e doc) e)) = set (class_list (doc e)) - {''show''}"
    unfolding e opened using own assms(5)
    by (simp add: hidden_element_def shown_element_def)
  show "closed_doc env e (opened_doc env e doc) d = scroll_reset ?w (scroll_hide ?w doc) d" if "d \<noteq> e"
  proof -
    have "''modal-open'' \<notin> set (class_list (scroll_hide ?w doc (body_id env)))" using assms(8) by simp
    then show ?thesis using that assms(5)
      by (simp add: closed_doc_def opened_doc_def Let_def reset_at [OF lists] add_remove_class)
  qed
qed

section \<open>Opened again while the backdrop fades\<close>

lemma reopened:
  assumes "opened i p" "isAnimated i p" "bd_visible (the_backdrop (modals p i))"
    and "\<And>q. \<not> prevents env q ''hide'' i" "\<And>q. \<not> prevents env q ''show'' i"
    and "modal_element (modals p i) \<noteq> body_id env"
  defines "q \<equiv> run_modal env
    [Hide i, TransitionOver (AtElement i), Show i, TransitionOver (AtBackdrop i), TransitionOver (AtDialog i)] p"
  shows "isShown (modals q i)" "\<not> isTransitioning (modals q i)" "waiting q = []"
    and "\<not> bd_appended (the_backdrop (modals q i))" "''modal-open'' \<notin> set (class_list (page_doc q (body_id env)))"
proof -
  obtain a where half:
    "modal_transition_end env (AtElement i) (modal_hide env i p) = backdrop_hide i (BackdropHidden i) (modal_hidden env i) a"
    and a: "isShown (modals a i) = False" "isTransitioning (modals a i) = False"
    "modal_element (modals a i) = modal_element (modals p i)" "the_backdrop (modals a i) = the_backdrop (modals p i)"
    "disposed (modals a i) = False" "waiting a = []"
    by (rule hide_begins [OF assms(1,4)]) blast
  define b where "b = on_backdrop i (backdrop_class (classList_remove ''show'')) a"
  define c where "c = b\<lparr>waiting := [(AtBackdrop i, BackdropHidden i)]\<rparr>"
  have animated: "bd_animated (the_backdrop (modals p i))" using assms(1,2) by (simp add: opened_def Let_def)
  have c: "modal_transition_end env (AtElement i) (modal_hide env i p) = c"
    using half a(4,6) assms(3) animated by (simp add: backdrop_hide_def executeAfterTransition_def c_def b_def on_backdrop_def)
  have ready: "\<not> isShown (modals c i)" "\<not> isTransitioning (modals c i)" "\<not> disposed (modals c i)"
    "bd_visible (the_backdrop (modals c i))" "bd_animated (the_backdrop (modals c i))" "modal_element (modals c i) = modal_element (modals p i)"
    using a assms(3) animated by (simp_all add: c_def b_def on_backdrop_def)
  obtain d where begins: "modal_show env i c = backdrop_show i (ShowElement i) (showElement env i) d"
    and d: "waiting d = waiting c" "isShown (modals d i)" "\<not> disposed (modals d i)" "the_backdrop (modals d i) = the_backdrop (modals c i)"
      "modal_element (modals d i) = modal_element (modals p i)"
    by (rule show_begins [OF ready(1-3) assms(5)]) (use ready in simp)
  define f where "f = on_backdrop i (backdrop_class (classList_add ''show'')) (on_backdrop i backdrop_append d)"
  have shown: "modal_show env i c = f\<lparr>waiting := [(AtBackdrop i, BackdropHidden i), (AtBackdrop i, ShowElement i)]\<rparr>"
    using begins d(1,4) ready(4,5) by (simp add: backdrop_show_def executeAfterTransition_def f_def on_backdrop_def c_def)
  define g where "g = modal_hidden env i (on_backdrop i backdrop_dispose (f\<lparr>waiting := []\<rparr>))"
  have g: "isShown (modals g i)" "\<not> disposed (modals g i)" "\<not> bd_appended (the_backdrop (modals g i))" "waiting g = []"
    "''modal-open'' \<notin> set (class_list (page_doc g (body_id env)))" "modal_element (modals g i) = modal_element (modals p i)"
    using d(2,3,5) by (simp_all add: g_def f_def on_backdrop_def modal_hidden_def resetAdjustments_def Let_def)
  have "q = modal_transition_end env (AtDialog i) (showElement env i g)"
  proof -
    have "modal_transition_end env (AtBackdrop i) (modal_show env i c) = showElement env i g"
      unfolding shown by (simp add: modal_transition_end_def g_def)
    then show ?thesis by (simp add: q_def run_modal_def c)
  qed
  then show "isShown (modals q i)" "\<not> isTransitioning (modals q i)" "waiting q = []"
    "\<not> bd_appended (the_backdrop (modals q i))" "''modal-open'' \<notin> set (class_list (page_doc q (body_id env)))"
    using g assms(6) by (simp_all add: element_shown)
qed

section \<open>Focus\<close>

text \<open>Focus that leaves the element of the one trap with listeners comes back.\<close>

lemma focus_comes_back:
  assumes "on_focus p = [i]" "focused p \<noteq> Some e" "can_focus env (page_doc p) e"
    and "can_focus env (page_doc p) (trap_element (the_trap (modals p i)))"
    and "\<forall>c \<in> set (focusableChildren env (page_doc p) (trap_element (the_trap (modals p i)))).
      inside env (trap_element (the_trap (modals p i))) c \<and> can_focus env (page_doc p) c"
  shows "\<exists>x. focused (focus env e p) = Some x \<and>
    (x = trap_element (the_trap (modals p i)) \<or> inside env (trap_element (the_trap (modals p i))) x)"
proof (cases "handleFocusin env (page_doc p) (the_trap (modals p i)) e")
  case None
  then show ?thesis using assms(1-3)
    by (auto simp: focus_def numeral_eq_Suc handleFocusin_def Let_def split: if_splits)
next
  case (Some c)
  let ?t = "trap_element (the_trap (modals p i))" and ?p = "p\<lparr>focused := Some e\<rparr>"
  have c: "c = ?t \<or> inside env ?t c" "can_focus env (page_doc p) c" "c \<noteq> e"
    using Some assms(4,5) by (auto simp: handleFocusin_def Let_def split: if_splits)
  then have "handleFocusin env (page_doc p) (the_trap (modals p i)) c = None" by (simp add: handleFocusin_def)
  then show ?thesis using assms(1-3) c Some
    by (simp add: focus_def numeral_eq_Suc)
qed

lemma focus_free:
  assumes "on_focus p = []" "can_focus env (page_doc p) e"
  shows "focused (focus env e p) = Some e"
  using assms by (simp add: focus_def numeral_eq_Suc)

text \<open>Closing the second of two open modals takes the listeners of the first off.\<close>

lemma nested_modals:
  assumes "closed i p" "closed j p" "i \<noteq> j"
    and "\<And>ev k q. \<not> prevents env q ev k"
    and "modal_element (modals p i) \<noteq> body_id env" "modal_element (modals p j) \<noteq> body_id env"
    and "truthy_b (bget (modal_conf (modals p i)) ''focus'')" "truthy_b (bget (modal_conf (modals p j)) ''focus'')"
  defines "opening \<equiv> \<lambda>k. [Show k, TransitionOver (AtBackdrop k), TransitionOver (AtDialog k)]"
  defines "q \<equiv> run_modal env (opening i @ opening j @ [Hide j, TransitionOver (AtElement j), TransitionOver (AtBackdrop j)]) p"
  shows "isShown (modals q i)" "isActive (the_trap (modals q i))" "on_focus q = []" "on_resize q = []"
proof -
  define a where "a = run_modal env (opening i) p"
  define b where "b = run_modal env (opening j) a"
  have q: "q = run_modal env [Hide j, TransitionOver (AtElement j), TransitionOver (AtBackdrop j)] b"
    by (simp add: q_def run_modal_def a_def b_def)
  have first: "opened i a" "page_doc a = opened_doc env (modal_element (modals p i)) (page_doc p)"
      "isActive (the_trap (modals a i))" "modals a j = modals p j"
    using open_modal [OF assms(1) assms(4) assms(5)] assms(3,7) unfolding a_def opening_def by simp_all
  have "closed j a"
    using assms(2) first by (simp add: closed_def opened_def isAnimated_def fade_docs Let_def)
  moreover have "modal_element (modals a j) \<noteq> body_id env" using assms(6) first(4) by simp
  ultimately have second: "opened j b" "modal_element (modals b j) = modal_element (modals a j)"
      "isActive (the_trap (modals b j))" "modals b i = modals a i"
    using open_modal [where i = j and p = a and env = env] assms(3,4,6,8) first(4) unfolding b_def opening_def by simp_all
  have third: "on_resize q = []" "on_focus q = []" "modals q i = modals b i"
    using close_modal [OF second(1), where env = env] second(2,3) assms(3,4,6) first(4) unfolding q by simp_all
  then show "isShown (modals q i)" "isActive (the_trap (modals q i))" "on_focus q = []" "on_resize q = []"
    using first(1,3) second(4) by (simp_all add: opened_def Let_def)
qed

end
