(* ===== verification/Bs_Modal_Properties.thy ===== *)
theory Bs_Modal_Properties
  imports Bs_Modal_Proofs
begin

text \<open>
  The properties of the scroll bar helper, the modal with its backdrop, and the focus trap, each with an
  application to a concrete page.
\<close>

section \<open>A page\<close>

text \<open>
  Body 0 with a scroll bar of 15 pixels, a wide fixed element 3 and a narrow one 4 that is sticky as well, and the
  modals 7 and 8 for the elements 10 and 20, each with two elements that can take the focus.
\<close>

definition demo_styled :: "(string \<times> string) list \<Rightarrow> string list \<Rightarrow> styled" where
  "demo_styled st cs = \<lparr>styles = st, attrs_of = [], class_list = cs\<rparr>"

definition demo_sheet :: sheet where
  "demo_sheet e =
     (if e = 0 then demo_styled [(''overflow'', ''auto'')] []
      else if e = 4 then demo_styled [(''paddingRight'', ''5px'')] [''sticky-top'']
      else if e = 10 \<or> e = 20 then demo_styled [] [''modal'', ''fade'']
      else demo_styled [] [])"

definition demo_env :: modal_env where
  "demo_env = \<lparr>innerWidth = 1000,
     rootWidth = (\<lambda>doc. if style_of ''overflow'' (doc 0) = ''hidden'' then 1000 else 985),
     clientWidth = (\<lambda>doc e. if e = 4 then 300 else 1000), computed = (\<lambda>_ _ _. Dec 0 0),
     fixed_content = [3, 4], sticky_content = [4], body_id = 0, too_high = (\<lambda>_ _. False), is_RTL = False,
     inside = (\<lambda>e d. e div 10 = d div 10), focusableChildren = (\<lambda>_ e. [e + 1, e + 2]), is_visible = (\<lambda>_ _. True),
     can_focus = (\<lambda>_ _. True), prevents = (\<lambda>_ _ _. False)\<rparr>"

definition demo_window :: window where
  "demo_window = window.truncate demo_env"

definition demo_empty :: modal_page where
  "demo_empty = \<lparr>page_doc = demo_sheet, modals = undefined, waiting = [], on_resize = [], on_focus = [],
     focused = None, on_show = [], on_hidden = [], triggered = []\<rparr>"

definition demo_modals :: modal_page where
  "demo_modals = modal_new 8 20 modal_default True (modal_new 7 10 modal_default True demo_empty)"

lemma demo_lists:
  "distinct (fixed_content demo_env)" "distinct (sticky_content demo_env)"
  "body_id demo_env \<notin> set (fixed_content demo_env)" "body_id demo_env \<notin> set (sticky_content demo_env)"
  by (simp_all add: demo_env_def)

lemma demo_plain: "plain_style (demo_sheet e)" "no_saved (demo_sheet e)"
  by (auto simp: plain_style_def no_saved_def demo_sheet_def demo_styled_def)

lemma demo_fade: "''fade'' \<in> set (class_list (demo_sheet 10))" "''fade'' \<in> set (class_list (demo_sheet 20))"
  by (simp_all add: demo_sheet_def demo_styled_def)

lemma demo_closed: "closed 7 demo_modals" "closed 8 demo_modals"
  by (simp_all add: closed_def demo_modals_def modal_new_def demo_empty_def initializeBackDrop_def isAnimated_def demo_fade)

lemma demo_elements [simp]:
  "modal_element (modals demo_modals 7) = 10" "modal_element (modals demo_modals 8) = 20"
  "modal_conf (modals demo_modals 7) = modal_default" "modal_conf (modals demo_modals 8) = modal_default"
  "page_doc demo_modals = demo_sheet"
  by (simp_all add: demo_modals_def modal_new_def demo_empty_def)

lemma demo_focus: "truthy_b (bget modal_default ''focus'')"
  by code_simp

lemma demo_never: "\<not> prevents demo_env q ev i" "body_id demo_env = 0"
  by (simp_all add: demo_env_def)

section \<open>Scroll bar\<close>

text \<open>Resetting the scroll bar undoes hiding it: every inline style of every element is again what it was, save that
  the padding or margin of an element that hiding passed over (it was too narrow) may be gone. What hiding
  changed comes back, on the body always.
\<close>

theorem scroll_reset_restores:
  assumes "distinct (fixed_content w)" "distinct (sticky_content w)"
    and "body_id w \<notin> set (fixed_content w)" "body_id w \<notin> set (sticky_content w)"
    and "plain_style (doc e)" "no_saved (doc e)"
  shows "let before = oget (styles (doc e)) p; hidden = oget (styles (scroll_hide w doc e)) p;
      after = oget (styles (scroll_reset w (scroll_hide w doc) e)) p
    in after = before \<or> after = None \<and> hidden = before \<and> e \<noteq> body_id w"
  using reset_hidden_at [where w = w and doc = doc and e = e and p = p, OF assms] by (auto simp: Let_def style_back_def)

theorem scroll_reset_restores_witness:
  "oget (styles (scroll_reset demo_window (scroll_hide demo_window demo_sheet) 0)) ''overflow'' = Some ''auto''"
proof -
  have "distinct (fixed_content demo_window)" "distinct (sticky_content demo_window)"
    "body_id demo_window \<notin> set (fixed_content demo_window)" "body_id demo_window \<notin> set (sticky_content demo_window)"
    "body_id demo_window = 0"
    using demo_lists by (simp_all add: demo_window_def demo_never)
  then show ?thesis
    using scroll_reset_restores [of demo_window demo_sheet 0 "''overflow''"] demo_plain [of 0]
    by (simp add: demo_sheet_def demo_styled_def Let_def)
qed

section \<open>Modal\<close>

text \<open>C24: A modal never stays in a transition: whatever was done on the page, with this modal and with others, once the
  transitions of its element, its backdrop and its dialog end it is out of transition, so that \<open>show\<close> and
  \<open>hide\<close> work again (or it was disposed of).
\<close>

theorem modal_never_stuck:
  assumes "waiting p0 = []"
  shows "let p = run_modal env acts (modal_new i e config attached_to p0);
      q = run_modal env [TransitionOver (AtElement i), TransitionOver (AtBackdrop i), TransitionOver (AtDialog i)] p
    in disposed (modals q i) \<or> \<not> isTransitioning (modals q i)"
  using out_of_transition [OF steady_run [OF steady_new [OF assms]]] by (simp add: Let_def)

theorem modal_never_stuck_witness:
  "let q = run_modal demo_env [TransitionOver (AtElement 7), TransitionOver (AtBackdrop 7), TransitionOver (AtDialog 7)]
      (run_modal demo_env [Show 7] (modal_new 7 10 modal_default True demo_empty))
    in disposed (modals q 7) \<or> \<not> isTransitioning (modals q 7)"
  using modal_never_stuck [of demo_empty demo_env "[Show 7]" 7 10 modal_default True] by (simp add: demo_empty_def Let_def)



text \<open>Showing a modal again while its backdrop is still fading out is accepted, and the callback of the fade then
  removes the backdrop and the class \<open>modal-open\<close> from under the open modal: it ends up shown, at rest, and without
  either.
\<close>

theorem modal_reopened_loses_backdrop:
  assumes "opened i p" and "isAnimated i p" and "bd_visible (the_backdrop (modals p i))"
    and "\<And>q ev. \<not> prevents env q ev i" and "modal_element (modals p i) \<noteq> body_id env"
  shows "let q = run_modal env [Hide i, TransitionOver (AtElement i), Show i,
        TransitionOver (AtBackdrop i), TransitionOver (AtDialog i)] p
    in isShown (modals q i) \<and> \<not> isTransitioning (modals q i) \<and> waiting q = []
      \<and> \<not> bd_appended (the_backdrop (modals q i)) \<and> ''modal-open'' \<notin> set (class_list (page_doc q (body_id env)))"
  using reopened [OF assms(1-3) assms(4) assms(4) assms(5)] by (simp add: Let_def)

lemma demo_opened:
  defines "p \<equiv> run_modal demo_env [Show 7, TransitionOver (AtBackdrop 7), TransitionOver (AtDialog 7)] demo_modals"
  shows "opened 7 p" "isAnimated 7 p" "modal_element (modals p 7) = 10"
  using open_modal [OF demo_closed(1), of demo_env] demo_fade
  unfolding p_def by (simp_all add: demo_never isAnimated_def fade_docs)

lemma demo_backdrop:
  "bd_visible (the_backdrop (modals (run_modal demo_env
     [Show 7, TransitionOver (AtBackdrop 7), TransitionOver (AtDialog 7)] demo_modals) 7))"
proof -
  have "truthy_b (bget modal_default ''backdrop'')" by code_simp
  then have "bd_visible (the_backdrop (modals demo_modals 7))"
    by (simp add: demo_modals_def modal_new_def initializeBackDrop_def)
  then show ?thesis using open_modal [OF demo_closed(1), of demo_env] by (simp add: demo_never)
qed

theorem modal_reopened_loses_backdrop_witness:
  "let p = run_modal demo_env [Show 7, TransitionOver (AtBackdrop 7), TransitionOver (AtDialog 7)] demo_modals;
      q = run_modal demo_env [Hide 7, TransitionOver (AtElement 7), Show 7,
        TransitionOver (AtBackdrop 7), TransitionOver (AtDialog 7)] p
    in isShown (modals q 7) \<and> \<not> bd_appended (the_backdrop (modals q 7))"
  using modal_reopened_loses_backdrop [OF demo_opened(1,2) demo_backdrop, of demo_env] demo_opened(3)
  by (simp add: demo_never Let_def)

section \<open>Focus\<close>

text \<open>With two modals open one after the other, closing the second takes the listeners of the first off the
  document and the window: its focus trap still counts as active, the focus can leave it for any element, and
  activating the trap again does nothing.
\<close>

theorem nested_modal_loses_trap:
  assumes "closed i p" "closed j p" "i \<noteq> j"
    and "\<And>ev k q. \<not> prevents env q ev k"
    and "modal_element (modals p i) \<noteq> body_id env" "modal_element (modals p j) \<noteq> body_id env"
    and "truthy_b (bget (modal_conf (modals p i)) ''focus'')" "truthy_b (bget (modal_conf (modals p j)) ''focus'')"
    and "\<And>doc. can_focus env doc e"
  shows "let q = run_modal env [Show i, TransitionOver (AtBackdrop i), TransitionOver (AtDialog i),
        Show j, TransitionOver (AtBackdrop j), TransitionOver (AtDialog j),
        Hide j, TransitionOver (AtElement j), TransitionOver (AtBackdrop j)] p
    in isShown (modals q i) \<and> isActive (the_trap (modals q i)) \<and> focused (focus env e q) = Some e
      \<and> trap_activate env i q = q \<and> on_resize q = []"
  using nested_modals [OF assms(1-8)] focus_free assms(9) by (simp add: Let_def trap_activate_def)

theorem nested_modal_loses_trap_witness:
  "let q = run_modal demo_env [Show 7, TransitionOver (AtBackdrop 7), TransitionOver (AtDialog 7),
        Show 8, TransitionOver (AtBackdrop 8), TransitionOver (AtDialog 8),
        Hide 8, TransitionOver (AtElement 8), TransitionOver (AtBackdrop 8)] demo_modals
    in isShown (modals q 7) \<and> focused (focus demo_env 99 q) = Some 99"
proof -
  have "can_focus demo_env d 99" for d by (simp add: demo_env_def)
  then show ?thesis
    using nested_modal_loses_trap [OF demo_closed, of demo_env 99] demo_focus by (simp add: demo_never Let_def)
qed

end
