(* ===== verification/Bs_Toast.thy ===== *)
theory Bs_Toast
  imports Bs_Dom
begin

text \<open>
  The toast of \<open>bootstrap.js\<close>: its classes, its timer, what the pointer and the focus do, and transitions under
  way. Operations are functions on the state; what the listeners of \<open>show\<close> and \<open>hide\<close> decide is an argument.
\<close>

section \<open>State\<close>

datatype toast_job = ToastShown | ToastHidden

record toast =
  toast_classes :: "string list"
  toast_conf :: "(string \<times> bval) list"
  toast_timeout :: "nat option"
  hasMouseInteraction :: bool
  hasKeyboardInteraction :: bool
  toast_disposed :: bool
  toast_timers :: "nat list"        \<comment> \<open>running timers of the browser\<close>
  toast_next :: nat
  toast_waiting :: "toast_job list" \<comment> \<open>callbacks that wait for the end of the transition\<close>
  toast_events :: "string list"

definition toast_has :: "string \<Rightarrow> toast \<Rightarrow> bool" where
  "toast_has c t \<longleftrightarrow> c \<in> set (toast_classes t)"

definition toast_add :: "string \<Rightarrow> toast \<Rightarrow> toast" where
  "toast_add c t = t\<lparr>toast_classes := classList_add c (toast_classes t)\<rparr>"

definition toast_remove :: "string \<Rightarrow> toast \<Rightarrow> toast" where
  "toast_remove c t = t\<lparr>toast_classes := classList_remove c (toast_classes t)\<rparr>"

definition toast_event :: "string \<Rightarrow> toast \<Rightarrow> toast" where
  "toast_event ev t = t\<lparr>toast_events := toast_events t @ [ev]\<rparr>"

definition toast_option :: "string \<Rightarrow> toast \<Rightarrow> bool" where
  "toast_option k t \<longleftrightarrow> truthy_b (bget (toast_conf t) k)"

section \<open>Operations\<close>

definition clearTimeout :: "toast \<Rightarrow> toast" where
  "clearTimeout t =
     t\<lparr>toast_timers := (case toast_timeout t of None \<Rightarrow> toast_timers t | Some k \<Rightarrow> removeAll k (toast_timers t)),
       toast_timeout := None\<rparr>"

definition maybeScheduleHide :: "toast \<Rightarrow> toast" where
  "maybeScheduleHide t =
     (if \<not> toast_option ''autohide'' t then t
      else if hasMouseInteraction t \<or> hasKeyboardInteraction t then t
      else t\<lparr>toast_timeout := Some (toast_next t), toast_timers := toast_timers t @ [toast_next t], toast_next := toast_next t + 1\<rparr>)"

text \<open>The callbacks throw when the toast was disposed of.\<close>

fun run_toast_job :: "toast_job \<Rightarrow> toast \<Rightarrow> toast" where
  "run_toast_job ToastShown t =
     (if toast_disposed t then t
      else maybeScheduleHide (toast_event ''shown'' (toast_remove ''showing'' t)))"
| "run_toast_job ToastHidden t =
     (if toast_disposed t then t
      else toast_event ''hidden'' (toast_remove ''show'' (toast_remove ''showing'' (toast_add ''hide'' t))))"

definition toast_queue :: "toast_job \<Rightarrow> toast \<Rightarrow> toast" where
  "toast_queue job t =
     (if toast_option ''animation'' t then t\<lparr>toast_waiting := toast_waiting t @ [job]\<rparr> else run_toast_job job t)"

definition toast_show :: "bool \<Rightarrow> toast \<Rightarrow> toast" where
  "toast_show prevented t =
     (if toast_disposed t then t
      else (let t = toast_event ''show'' t in
            if prevented then t
            else (let t = clearTimeout t;
                      t = (if toast_option ''animation'' t then toast_add ''fade'' t else t);
                      t = toast_remove ''hide'' t;
                      t = toast_add ''show'' t;
                      t = toast_add ''showing'' t
                  in toast_queue ToastShown t)))"

definition toast_hide :: "bool \<Rightarrow> toast \<Rightarrow> toast" where
  "toast_hide prevented t =
     (if toast_disposed t \<or> \<not> toast_has ''show'' t then t
      else (let t = toast_event ''hide'' t in
            if prevented then t
            else toast_queue ToastHidden (toast_add ''showing'' t)))"

definition toast_dispose :: "toast \<Rightarrow> toast" where
  "toast_dispose t =
     (if toast_disposed t then t
      else (let t = clearTimeout t;
                t = (if toast_has ''show'' t then toast_remove ''show'' t else t)
            in t\<lparr>toast_disposed := True\<rparr>))"

datatype interaction = MouseOver | MouseOut | FocusIn | FocusOut

text \<open>The last argument: the related target is the toast or lies in it. A disposed toast has no listeners.\<close>

definition onInteraction :: "interaction \<Rightarrow> bool \<Rightarrow> bool \<Rightarrow> toast \<Rightarrow> toast" where
  "onInteraction ev isInteracting stays t =
     (if toast_disposed t then t
      else (let t = (if ev = MouseOver \<or> ev = MouseOut then t\<lparr>hasMouseInteraction := isInteracting\<rparr>
                     else t\<lparr>hasKeyboardInteraction := isInteracting\<rparr>)
            in if isInteracting then clearTimeout t
               else if stays then t
               else maybeScheduleHide t))"

definition toast_new :: "string list \<Rightarrow> (string \<times> bval) list \<Rightarrow> toast" where
  "toast_new cs config = \<lparr>toast_classes = cs, toast_conf = config, toast_timeout = None, hasMouseInteraction = False,
     hasKeyboardInteraction = False, toast_disposed = False, toast_timers = [], toast_next = 1, toast_waiting = [],
     toast_events = []\<rparr>"

definition toast_transition_end :: "toast \<Rightarrow> toast" where
  "toast_transition_end t = fold run_toast_job (toast_waiting t) (t\<lparr>toast_waiting := []\<rparr>)"

definition toast_timer :: "nat \<Rightarrow> bool \<Rightarrow> toast \<Rightarrow> toast" where
  "toast_timer k prevented t =
     (if k \<in> set (toast_timers t) then toast_hide prevented (t\<lparr>toast_timers := removeAll k (toast_timers t)\<rparr>) else t)"

datatype toast_action =
    ShowToast bool | HideToast bool | DisposeToast | Interact interaction bool | ToastOver | ToastTimer nat bool

fun toast_act :: "toast_action \<Rightarrow> toast \<Rightarrow> toast" where
  "toast_act (ShowToast v) t = toast_show v t"
| "toast_act (HideToast v) t = toast_hide v t"
| "toast_act DisposeToast t = toast_dispose t"
| "toast_act (Interact ev stays) t = onInteraction ev (ev = MouseOver \<or> ev = FocusIn) stays t"
| "toast_act ToastOver t = toast_transition_end t"
| "toast_act (ToastTimer k v) t = toast_timer k v t"

definition run_toast :: "toast_action list \<Rightarrow> toast \<Rightarrow> toast" where
  "run_toast acts t = fold toast_act acts t"

end
