(* ===== verification/Bs_Toast_Proofs.thy ===== *)
theory Bs_Toast_Proofs
  imports Bs_Toast
begin

text \<open>
  The classes of a toast in every reachable state, its timers, and what calls during a transition do to it.
\<close>

section \<open>Fields\<close>

lemma toast_class_simps [simp]:
  "set (toast_classes (toast_add c t)) = insert c (set (toast_classes t))"
  "set (toast_classes (toast_remove c t)) = set (toast_classes t) - {c}"
  by (auto simp: toast_add_def toast_remove_def classList_add_def classList_remove_def)

lemma toast_event_simps [simp]:
  "toast_classes (toast_event ev t) = toast_classes t" "toast_conf (toast_event ev t) = toast_conf t"
  "toast_timers (toast_event ev t) = toast_timers t" "toast_timeout (toast_event ev t) = toast_timeout t"
  "toast_waiting (toast_event ev t) = toast_waiting t" "toast_disposed (toast_event ev t) = toast_disposed t"
  "hasMouseInteraction (toast_event ev t) = hasMouseInteraction t" "toast_next (toast_event ev t) = toast_next t"
  "hasKeyboardInteraction (toast_event ev t) = hasKeyboardInteraction t"
  by (simp_all add: toast_event_def)

lemma toast_add_simps [simp]:
  "toast_conf (toast_add c t) = toast_conf t" "toast_timers (toast_add c t) = toast_timers t"
  "toast_timeout (toast_add c t) = toast_timeout t" "toast_waiting (toast_add c t) = toast_waiting t"
  "toast_disposed (toast_add c t) = toast_disposed t" "hasMouseInteraction (toast_add c t) = hasMouseInteraction t"
  "hasKeyboardInteraction (toast_add c t) = hasKeyboardInteraction t" "toast_next (toast_add c t) = toast_next t"
  "toast_events (toast_add c t) = toast_events t"
  "toast_conf (toast_remove c t) = toast_conf t" "toast_timers (toast_remove c t) = toast_timers t"
  "toast_timeout (toast_remove c t) = toast_timeout t" "toast_waiting (toast_remove c t) = toast_waiting t"
  "toast_disposed (toast_remove c t) = toast_disposed t" "hasMouseInteraction (toast_remove c t) = hasMouseInteraction t"
  "hasKeyboardInteraction (toast_remove c t) = hasKeyboardInteraction t" "toast_next (toast_remove c t) = toast_next t"
  "toast_events (toast_remove c t) = toast_events t"
  by (simp_all add: toast_add_def toast_remove_def)

lemma clearTimeout_simps [simp]:
  "toast_classes (clearTimeout t) = toast_classes t" "toast_conf (clearTimeout t) = toast_conf t"
  "toast_waiting (clearTimeout t) = toast_waiting t" "toast_disposed (clearTimeout t) = toast_disposed t"
  "hasMouseInteraction (clearTimeout t) = hasMouseInteraction t" "toast_next (clearTimeout t) = toast_next t"
  "hasKeyboardInteraction (clearTimeout t) = hasKeyboardInteraction t" "toast_timeout (clearTimeout t) = None"
  "toast_events (clearTimeout t) = toast_events t"
  by (simp_all add: clearTimeout_def)

lemma schedule_simps [simp]:
  "toast_classes (maybeScheduleHide t) = toast_classes t" "toast_conf (maybeScheduleHide t) = toast_conf t"
  "toast_waiting (maybeScheduleHide t) = toast_waiting t" "toast_disposed (maybeScheduleHide t) = toast_disposed t"
  "hasMouseInteraction (maybeScheduleHide t) = hasMouseInteraction t"
  "hasKeyboardInteraction (maybeScheduleHide t) = hasKeyboardInteraction t"
  "toast_events (maybeScheduleHide t) = toast_events t"
  by (simp_all add: maybeScheduleHide_def)

lemma option_simps [simp]:
  "toast_option k (toast_event ev t) = toast_option k t" "toast_option k (toast_add c t) = toast_option k t"
  "toast_option k (toast_remove c t) = toast_option k t" "toast_option k (clearTimeout t) = toast_option k t"
  "toast_option k (maybeScheduleHide t) = toast_option k t" "toast_option k (t\<lparr>toast_waiting := ws\<rparr>) = toast_option k t"
  by (simp_all add: toast_option_def)

section \<open>Classes\<close>

definition classes_ok :: "toast \<Rightarrow> bool" where
  "classes_ok t \<longleftrightarrow> \<not> (toast_has ''show'' t \<and> toast_has ''hide'' t) \<and>
     (toast_has ''showing'' t \<longrightarrow> toast_waiting t \<noteq> [] \<or> toast_disposed t)"

lemma jobs_ok:
  assumes "\<not> (toast_has ''show'' t \<and> toast_has ''hide'' t)" "jobs \<noteq> [] \<or> \<not> toast_has ''showing'' t \<or> toast_disposed t"
    "toast_waiting t = []"
  shows "classes_ok (fold run_toast_job jobs t) \<and> toast_waiting (fold run_toast_job jobs t) = []"
  using assms
proof (induction jobs arbitrary: t)
  case (Cons j jobs)
  have "\<not> (toast_has ''show'' (run_toast_job j t) \<and> toast_has ''hide'' (run_toast_job j t))"
    "\<not> toast_has ''showing'' (run_toast_job j t) \<or> toast_disposed (run_toast_job j t)" "toast_waiting (run_toast_job j t) = []"
    using Cons.prems by (cases j; auto simp: toast_has_def)+
  then show ?case using Cons.IH by simp
qed (simp add: classes_ok_def)

lemma classes_act:
  assumes "classes_ok t"
  shows "classes_ok (toast_act a t)"
proof (cases a)
  case ToastOver
  then show ?thesis
    using assms jobs_ok [of "t\<lparr>toast_waiting := []\<rparr>" "toast_waiting t"]
    by (auto simp: classes_ok_def toast_transition_end_def toast_has_def)
next
  case (ShowToast v)
  then show ?thesis using assms
    by (auto simp: classes_ok_def toast_show_def toast_queue_def toast_has_def Let_def)
next
  case (HideToast v)
  then show ?thesis using assms
    by (auto simp: classes_ok_def toast_hide_def toast_queue_def toast_has_def Let_def)
next
  case (ToastTimer k v)
  then show ?thesis using assms
    by (auto simp: classes_ok_def toast_timer_def toast_hide_def toast_queue_def toast_has_def Let_def)
next
  case DisposeToast
  then show ?thesis using assms by (auto simp: classes_ok_def toast_dispose_def toast_has_def Let_def)
next
  case (Interact ev stays)
  then show ?thesis using assms by (auto simp: classes_ok_def onInteraction_def toast_has_def Let_def)
qed

lemma classes_run: "classes_ok t \<Longrightarrow> classes_ok (run_toast acts t)"
  unfolding run_toast_def by (rule fold_keeps) (use classes_act in auto)

section \<open>Timers\<close>

text \<open>The pointer is on a toast at rest whose only timer, if any, is the one it knows: nothing hides it.\<close>

definition safe_toast :: "toast \<Rightarrow> bool" where
  "safe_toast t \<longleftrightarrow> toast_waiting t = [] \<and> hasMouseInteraction t \<and> toast_timers t = []"

fun only_watches :: "toast_action \<Rightarrow> bool" where
  "only_watches (ToastTimer k v) \<longleftrightarrow> True"
| "only_watches ToastOver \<longleftrightarrow> True"
| "only_watches (Interact ev stays) \<longleftrightarrow> ev \<noteq> MouseOut"
| "only_watches _ \<longleftrightarrow> False"

lemma safe_act:
  assumes "safe_toast t" "only_watches a"
  shows "safe_toast (toast_act a t) \<and> toast_classes (toast_act a t) = toast_classes t"
  using assms by (cases a)
    (auto simp: safe_toast_def toast_timer_def toast_transition_end_def onInteraction_def clearTimeout_def maybeScheduleHide_def Let_def
      split: option.split)

lemma safe_run:
  assumes "safe_toast t" "\<forall>a \<in> set acts. only_watches a"
  shows "toast_classes (run_toast acts t) = toast_classes t"
proof -
  let ?P = "\<lambda>s. safe_toast s \<and> toast_classes s = toast_classes t"
  have "?P (fold toast_act acts t)"
    by (rule fold_keeps [where P = ?P]) (use assms safe_act in auto)
  then show ?thesis by (simp add: run_toast_def)
qed

lemma pointer_comes:
  assumes "toast_waiting t = []" "set (toast_timers t) \<subseteq> set_option (toast_timeout t)" "\<not> toast_disposed t"
  shows "safe_toast (onInteraction MouseOver True stays t)"
    and "toast_classes (onInteraction MouseOver True stays t) = toast_classes t"
  using assms by (auto simp: safe_toast_def onInteraction_def clearTimeout_def Let_def split: option.splits
      intro!: removeAll_id) (auto simp: removeAll_filter_not_eq filter_empty_conv)

end
