(* ===== verification/Bs_Collapse.thy ===== *)
theory Bs_Collapse
  imports Bs_Dom
begin

text \<open>
  The collapse of \<open>bootstrap.js\<close>, with accordions: a page of collapsible elements and of triggers, the instances
  and the registry that finds them, and the transitions under way.
\<close>

section \<open>State\<close>

text \<open>What waits for the end of the transition of an element, for which instance, and the dimension that moves.\<close>

datatype collapse_job = CollapseShown nat string | CollapseHidden nat

record collapser =
  col_element :: nat
  col_parent :: "nat option"
  triggerArray :: "nat list"
  col_transitioning :: bool

record collapse_page =
  col_doc :: sheet
  col_inst :: "nat \<Rightarrow> collapser"
  col_next :: nat                                \<comment> \<open>the number of the next instance\<close>
  col_data :: "nat \<Rightarrow> nat option"               \<comment> \<open>\<open>Data.get(element, 'bs.collapse')\<close>\<close>
  col_waiting :: "(nat \<times> collapse_job) list"
  col_events :: "(string \<times> nat) list"

text \<open>
  The document: its triggers in order and what their selectors find, the elements and the triggers below a parent,
  those of them that count as nested, the parent an element names in its data attributes, sizes, and what listeners
  decide.
\<close>

record collapse_env =
  all_triggers :: "nat list"
  selects :: "nat \<Rightarrow> nat list"
  below :: "nat \<Rightarrow> nat list"
  triggers_below :: "nat \<Rightarrow> nat list"
  nested :: "sheet \<Rightarrow> nat \<Rightarrow> nat \<Rightarrow> bool"
  data_parent :: "nat \<Rightarrow> nat option"
  rect_size :: "sheet \<Rightarrow> nat \<Rightarrow> int"
  scroll_size :: "sheet \<Rightarrow> nat \<Rightarrow> int"
  col_prevents :: "collapse_page \<Rightarrow> string \<Rightarrow> nat \<Rightarrow> bool"

definition col_element_do :: "nat \<Rightarrow> (styled \<Rightarrow> styled) \<Rightarrow> collapse_page \<Rightarrow> collapse_page" where
  "col_element_do e f p = p\<lparr>col_doc := (col_doc p)(e := f (col_doc p e))\<rparr>"

definition col_mark :: "nat \<Rightarrow> bool \<Rightarrow> collapse_page \<Rightarrow> collapse_page" where
  "col_mark i b p = p\<lparr>col_inst := (col_inst p)(i := (col_inst p i)\<lparr>col_transitioning := b\<rparr>)\<rparr>"

definition col_event :: "string \<Rightarrow> nat \<Rightarrow> collapse_page \<Rightarrow> collapse_page" where
  "col_event ev e p = p\<lparr>col_events := col_events p @ [(ev, e)]\<rparr>"

definition has_class :: "string \<Rightarrow> sheet \<Rightarrow> nat \<Rightarrow> bool" where
  "has_class c doc e \<longleftrightarrow> c \<in> set (class_list (doc e))"

section \<open>Operations\<close>

definition collapse_isShown :: "collapse_page \<Rightarrow> nat \<Rightarrow> bool" where
  "collapse_isShown p e = has_class ''show'' (col_doc p) e"

definition getDimension :: "collapse_page \<Rightarrow> nat \<Rightarrow> string" where
  "getDimension p e = (if has_class ''collapse-horizontal'' (col_doc p) e then ''width'' else ''height'')"

text \<open>\<open>getElementFromSelector\<close> of a trigger.\<close>

definition trigger_target :: "collapse_env \<Rightarrow> nat \<Rightarrow> nat option" where
  "trigger_target env tr = (case selects env tr of [] \<Rightarrow> None | e # _ \<Rightarrow> Some e)"

definition addAriaAndCollapsedClass :: "nat list \<Rightarrow> bool \<Rightarrow> collapse_page \<Rightarrow> collapse_page" where
  "addAriaAndCollapsedClass trs isOpen p =
     fold (\<lambda>tr. col_element_do tr (\<lambda>el.
       set_attribute ''aria-expanded'' (if isOpen then ''true'' else ''false'')
         (if isOpen then remove_class ''collapsed'' el else add_class ''collapsed'' el))) trs p"

definition initializeChildren :: "collapse_env \<Rightarrow> nat \<Rightarrow> collapse_page \<Rightarrow> collapse_page" where
  "initializeChildren env parent p =
     fold (\<lambda>tr p. case trigger_target env tr of
                    None \<Rightarrow> p
                  | Some e \<Rightarrow> addAriaAndCollapsedClass [tr] (collapse_isShown p e) p)
       (filter (\<lambda>tr. \<not> nested env (col_doc p) parent tr) (triggers_below env parent)) p"

text \<open>The constructor up to \<open>toggle\<close>; the new instance and the page with it in the registry.\<close>

definition collapse_create :: "collapse_env \<Rightarrow> nat \<Rightarrow> nat option \<Rightarrow> collapse_page \<Rightarrow> nat \<times> collapse_page" where
  "collapse_create env e parent p =
     (let i = col_next p;
          trs = filter (\<lambda>tr. e \<in> set (selects env tr)) (all_triggers env);
          p = p\<lparr>col_next := i + 1, col_data := (col_data p)(e := Some i),
                col_inst := (col_inst p)(i := \<lparr>col_element = e, col_parent = parent, triggerArray = trs, col_transitioning = False\<rparr>)\<rparr>;
          p = (case parent of
                 Some par \<Rightarrow> initializeChildren env par p
               | None \<Rightarrow> addAriaAndCollapsedClass trs (collapse_isShown p e) p)
      in (i, p))"

definition collapse_getOrCreate :: "collapse_env \<Rightarrow> nat \<Rightarrow> collapse_page \<Rightarrow> nat \<times> collapse_page" where
  "collapse_getOrCreate env e p =
     (case col_data p e of Some i \<Rightarrow> (i, p) | None \<Rightarrow> collapse_create env e (data_parent env e) p)"

definition collapse_hide :: "collapse_env \<Rightarrow> nat \<Rightarrow> collapse_page \<Rightarrow> collapse_page" where
  "collapse_hide env i p =
     (let e = col_element (col_inst p i) in
      if col_transitioning (col_inst p i) \<or> \<not> collapse_isShown p e then p
      else (let prevented = col_prevents env p ''hide'' e; p = col_event ''hide'' e p in
            if prevented then p
            else (let dimension = getDimension p e;
                      p = col_element_do e (set_style dimension (num_text (Some (Dec (rect_size env (col_doc p) e) 0)) @ ''px'')) p;
                      p = col_element_do e (add_class ''collapsing'') p;
                      p = col_element_do e (\<lambda>el. remove_class ''show'' (remove_class ''collapse'' el)) p;
                      p = fold (\<lambda>tr p. case trigger_target env tr of
                                         None \<Rightarrow> p
                                       | Some d \<Rightarrow> if collapse_isShown p d then p else addAriaAndCollapsedClass [tr] False p)
                            (triggerArray (col_inst p i)) p;
                      p = col_mark i True p;
                      p = col_element_do e (set_style dimension []) p
                  in p\<lparr>col_waiting := col_waiting p @ [(e, CollapseHidden i)]\<rparr>)))"

text \<open>\<open>findOne(this._selector)\<close>: the selector is that of the last trigger found for the instance.\<close>

definition col_container :: "collapse_env \<Rightarrow> collapser \<Rightarrow> nat option" where
  "col_container env c = (case triggerArray c of [] \<Rightarrow> None | trs \<Rightarrow> trigger_target env (last trs))"

definition col_actives :: "collapse_env \<Rightarrow> nat option \<Rightarrow> sheet \<Rightarrow> nat list" where
  "col_actives env parent doc =
     (case parent of
        None \<Rightarrow> []
      | Some par \<Rightarrow> filter (\<lambda>e. (has_class ''show'' doc e \<or> has_class ''collapsing'' doc e) \<and> \<not> nested env doc par e) (below env par))"

text \<open>The other open elements are hidden; an element without an instance keeps none.\<close>

definition close_active :: "collapse_env \<Rightarrow> nat option \<Rightarrow> bool \<Rightarrow> nat \<Rightarrow> collapse_page \<Rightarrow> collapse_page" where
  "close_active env container known e p =
     (let p = (if container \<noteq> Some e then (case collapse_getOrCreate env e p of (j, p) \<Rightarrow> collapse_hide env j p) else p)
      in if known then p else p\<lparr>col_data := (col_data p)(e := None)\<rparr>)"

definition collapse_show :: "collapse_env \<Rightarrow> nat \<Rightarrow> collapse_page \<Rightarrow> collapse_page" where
  "collapse_show env i p =
     (let e = col_element (col_inst p i) in
      if col_transitioning (col_inst p i) \<or> collapse_isShown p e then p
      else (let actives = col_actives env (col_parent (col_inst p i)) (col_doc p);
                container = col_container env (col_inst p i);
                activesData = (case List.find (\<lambda>d. container \<noteq> Some d) actives of None \<Rightarrow> None | Some d \<Rightarrow> col_data p d) in
            if (case activesData of Some j \<Rightarrow> col_transitioning (col_inst p j) | None \<Rightarrow> False) then p
            else (let prevented = col_prevents env p ''show'' e; p = col_event ''show'' e p in
                  if prevented then p
                  else (let p = fold (close_active env container (activesData \<noteq> None)) actives p;
                            dimension = getDimension p e;
                            p = col_element_do e (remove_class ''collapse'') p;
                            p = col_element_do e (add_class ''collapsing'') p;
                            p = col_element_do e (set_style dimension ''0px'') p;
                            p = addAriaAndCollapsedClass (triggerArray (col_inst p i)) True p;
                            p = col_mark i True p;
                            p = p\<lparr>col_waiting := col_waiting p @ [(e, CollapseShown i dimension)]\<rparr>
                        in col_element_do e (set_style dimension (num_text (Some (Dec (scroll_size env (col_doc p) e) 0)) @ ''px'')) p))))"

definition collapse_toggle :: "collapse_env \<Rightarrow> nat \<Rightarrow> collapse_page \<Rightarrow> collapse_page" where
  "collapse_toggle env i p =
     (if collapse_isShown p (col_element (col_inst p i)) then collapse_hide env i p else collapse_show env i p)"

definition collapse_new :: "collapse_env \<Rightarrow> nat \<Rightarrow> nat option \<Rightarrow> bool \<Rightarrow> collapse_page \<Rightarrow> collapse_page" where
  "collapse_new env e parent toggle p =
     (case collapse_create env e parent p of (i, p) \<Rightarrow> if toggle then collapse_toggle env i p else p)"

section \<open>Events\<close>

fun run_collapse_job :: "collapse_job \<Rightarrow> collapse_page \<Rightarrow> collapse_page" where
  "run_collapse_job (CollapseShown i dimension) p =
     (let e = col_element (col_inst p i);
          p = col_mark i False p;
          p = col_element_do e (remove_class ''collapsing'') p;
          p = col_element_do e (\<lambda>el. add_class ''show'' (add_class ''collapse'' el)) p;
          p = col_element_do e (set_style dimension []) p
      in col_event ''shown'' e p)"
| "run_collapse_job (CollapseHidden i) p =
     (let e = col_element (col_inst p i);
          p = col_mark i False p;
          p = col_element_do e (remove_class ''collapsing'') p;
          p = col_element_do e (add_class ''collapse'') p
      in col_event ''hidden'' e p)"

definition collapse_transition_end :: "nat \<Rightarrow> collapse_page \<Rightarrow> collapse_page" where
  "collapse_transition_end e p =
     fold (\<lambda>(_, job). run_collapse_job job) (filter (\<lambda>(d, _). d = e) (col_waiting p))
       (p\<lparr>col_waiting := filter (\<lambda>(d, _). d \<noteq> e) (col_waiting p)\<rparr>)"

text \<open>A click on a trigger.\<close>

definition collapse_click :: "collapse_env \<Rightarrow> nat \<Rightarrow> collapse_page \<Rightarrow> collapse_page" where
  "collapse_click env tr p =
     fold (\<lambda>e p. case collapse_getOrCreate env e p of (i, p) \<Rightarrow> collapse_toggle env i p) (selects env tr) p"

datatype collapse_action = ShowPanel nat | HidePanel nat | TogglePanel nat | ClickTrigger nat | PanelOver nat

fun collapse_act :: "collapse_env \<Rightarrow> collapse_action \<Rightarrow> collapse_page \<Rightarrow> collapse_page" where
  "collapse_act env (ShowPanel i) p = collapse_show env i p"
| "collapse_act env (HidePanel i) p = collapse_hide env i p"
| "collapse_act env (TogglePanel i) p = collapse_toggle env i p"
| "collapse_act env (ClickTrigger tr) p = collapse_click env tr p"
| "collapse_act env (PanelOver e) p = collapse_transition_end e p"

definition run_collapse :: "collapse_env \<Rightarrow> collapse_action list \<Rightarrow> collapse_page \<Rightarrow> collapse_page" where
  "run_collapse env acts p = fold (collapse_act env) acts p"

end
