(* ===== verification/Bs_Collapse_Proofs.thy ===== *)
theory Bs_Collapse_Proofs
  imports Bs_Collapse
begin

text \<open>
  An accordion as an abstract machine on the phases of its panels, the simulation of its steps by the code, and
  the invariant that at most one panel is open or opening.
\<close>

section \<open>What operations leave alone\<close>

lemma col_do_simps [simp]:
  "col_data (col_element_do e f p) = col_data p" "col_inst (col_element_do e f p) = col_inst p"
  "col_waiting (col_element_do e f p) = col_waiting p" "col_next (col_element_do e f p) = col_next p"
  "col_doc (col_element_do e f p) d = (if d = e then f (col_doc p e) else col_doc p d)"
  "col_data (col_event ev e p) = col_data p" "col_inst (col_event ev e p) = col_inst p"
  "col_waiting (col_event ev e p) = col_waiting p" "col_doc (col_event ev e p) = col_doc p"
  "col_data (col_mark i b p) = col_data p" "col_waiting (col_mark i b p) = col_waiting p"
  "col_doc (col_mark i b p) = col_doc p"
  "col_inst (col_mark i b p) j = (if j = i then (col_inst p i)\<lparr>col_transitioning := b\<rparr> else col_inst p j)"
  by (simp_all add: col_element_do_def col_event_def col_mark_def)

lemma aria_simps [simp]:
  "col_data (addAriaAndCollapsedClass trs b p) = col_data p" "col_inst (addAriaAndCollapsedClass trs b p) = col_inst p"
  "col_waiting (addAriaAndCollapsedClass trs b p) = col_waiting p"
  unfolding addAriaAndCollapsedClass_def by (subst fold_same; simp)+

lemma aria_classes [simp]:
  assumes "c \<noteq> ''collapsed''"
  shows "has_class c (col_doc (addAriaAndCollapsedClass trs b p)) e \<longleftrightarrow> has_class c (col_doc p) e"
  unfolding addAriaAndCollapsedClass_def has_class_def
  by (subst fold_same [where g = "\<lambda>p. c \<in> set (class_list (col_doc p e))"]) (use assms in auto)

lemma do_classes:
  "has_class c (col_doc (col_element_do e f p)) d =
     (if d = e then c \<in> set (class_list (f (col_doc p e))) else has_class c (col_doc p) d)"
  by (simp add: has_class_def)

section \<open>Phases\<close>

datatype phase = Closed | Opening | Opened | Closing

fun in_phase :: "nat \<Rightarrow> nat \<Rightarrow> collapse_page \<Rightarrow> phase \<Rightarrow> bool" where
  "in_phase e i p Closed \<longleftrightarrow> filter (\<lambda>(d, _). d = e) (col_waiting p) = [] \<and> \<not> col_transitioning (col_inst p i)
     \<and> \<not> has_class ''collapsing'' (col_doc p) e \<and> \<not> has_class ''show'' (col_doc p) e"
| "in_phase e i p Opened \<longleftrightarrow> filter (\<lambda>(d, _). d = e) (col_waiting p) = [] \<and> \<not> col_transitioning (col_inst p i)
     \<and> \<not> has_class ''collapsing'' (col_doc p) e \<and> has_class ''show'' (col_doc p) e"
| "in_phase e i p Opening \<longleftrightarrow> (\<exists>dim. filter (\<lambda>(d, _). d = e) (col_waiting p) = [(e, CollapseShown i dim)])
     \<and> col_transitioning (col_inst p i) \<and> has_class ''collapsing'' (col_doc p) e \<and> \<not> has_class ''show'' (col_doc p) e"
| "in_phase e i p Closing \<longleftrightarrow> filter (\<lambda>(d, _). d = e) (col_waiting p) = [(e, CollapseHidden i)]
     \<and> col_transitioning (col_inst p i) \<and> has_class ''collapsing'' (col_doc p) e \<and> \<not> has_class ''show'' (col_doc p) e"

text \<open>The instance of a panel: registered, for the parent, with triggers that select nothing else.\<close>

definition panel :: "collapse_env \<Rightarrow> nat \<Rightarrow> nat \<Rightarrow> nat \<Rightarrow> collapse_page \<Rightarrow> bool" where
  "panel env par e i p \<longleftrightarrow> col_data p e = Some i \<and> col_element (col_inst p i) = e \<and> col_parent (col_inst p i) = Some par \<and>
     (\<forall>tr \<in> set (triggerArray (col_inst p i)). trigger_target env tr = Some e)"

definition accordion :: "collapse_env \<Rightarrow> nat \<Rightarrow> (nat \<Rightarrow> nat) \<Rightarrow> (nat \<Rightarrow> phase) \<Rightarrow> collapse_page \<Rightarrow> bool" where
  "accordion env par inst ph p \<longleftrightarrow>
     (\<forall>e \<in> set (below env par). panel env par e (inst e) p \<and> in_phase e (inst e) p (ph e))"

text \<open>Steps of the abstract machine.\<close>

definition abs_hide :: "nat \<Rightarrow> (nat \<Rightarrow> phase) \<Rightarrow> nat \<Rightarrow> phase" where
  "abs_hide e ph = (if ph e = Opened then ph(e := Closing) else ph)"

definition abs_show :: "nat list \<Rightarrow> bool \<Rightarrow> nat \<Rightarrow> (nat \<Rightarrow> phase) \<Rightarrow> nat \<Rightarrow> phase" where
  "abs_show panels prevented e ph =
     (let actives = filter (\<lambda>d. ph d \<noteq> Closed) panels in
      if ph e \<noteq> Closed \<or> (actives \<noteq> [] \<and> ph (hd actives) \<noteq> Opened) \<or> prevented then ph
      else (\<lambda>d. if d = e then Opening else if ph d = Opened then Closing else ph d))"

definition abs_toggle :: "nat list \<Rightarrow> bool \<Rightarrow> nat \<Rightarrow> (nat \<Rightarrow> phase) \<Rightarrow> nat \<Rightarrow> phase" where
  "abs_toggle panels prevented e ph = (if ph e = Opened then abs_hide e ph else abs_show panels prevented e ph)"

definition abs_end :: "nat \<Rightarrow> (nat \<Rightarrow> phase) \<Rightarrow> nat \<Rightarrow> phase" where
  "abs_end e ph = ph(e := (case ph e of Opening \<Rightarrow> Opened | Closing \<Rightarrow> Closed | s \<Rightarrow> s))"

section \<open>Simulation\<close>

text \<open>Another element, and the instance of another element, are as before.\<close>

definition elsewhere :: "nat \<Rightarrow> nat \<Rightarrow> collapse_page \<Rightarrow> collapse_page \<Rightarrow> bool" where
  "elsewhere e i p q \<longleftrightarrow> col_data q = col_data p \<and>
     (\<forall>j. \<exists>b. col_inst q j = (col_inst p j)\<lparr>col_transitioning := b\<rparr> \<and> (j \<noteq> i \<longrightarrow> b = col_transitioning (col_inst p j))) \<and>
     (\<forall>d. d \<noteq> e \<longrightarrow> filter (\<lambda>(u, _). u = d) (col_waiting q) = filter (\<lambda>(u, _). u = d) (col_waiting p) \<and>
       has_class ''show'' (col_doc q) d = has_class ''show'' (col_doc p) d \<and>
       has_class ''collapsing'' (col_doc q) d = has_class ''collapsing'' (col_doc p) d)"

lemma panel_elsewhere: "elsewhere e i p q \<Longrightarrow> panel env par d j q = panel env par d j p"
  unfolding elsewhere_def panel_def by (metis collapser.select_convs(1-3) collapser.surjective collapser.update_convs(4))

lemma phase_elsewhere:
  assumes "elsewhere e i p q" "d \<noteq> e" "j \<noteq> i"
  shows "in_phase d j q s = in_phase d j p s"
proof -
  have "col_transitioning (col_inst q j) = col_transitioning (col_inst p j)"
    using assms unfolding elsewhere_def by (metis collapser.select_convs(4) collapser.surjective collapser.update_convs(4))
  then show ?thesis using assms by (cases s) (simp_all add: elsewhere_def)
qed

lemma panels_apart: "panel env par e i p \<Longrightarrow> panel env par d j p \<Longrightarrow> d \<noteq> e \<Longrightarrow> j \<noteq> i"
  by (auto simp: panel_def)

text \<open>A step at one panel.\<close>

lemma accordion_step:
  assumes "accordion env par inst ph p" "e \<in> set (below env par)" "elsewhere e (inst e) p q" "in_phase e (inst e) q s"
  shows "accordion env par inst (ph(e := s)) q"
proof -
  have "panel env par d (inst d) q" "in_phase d (inst d) q ((ph(e := s)) d)" if "d \<in> set (below env par)" for d
  proof -
    have d: "panel env par d (inst d) p" "in_phase d (inst d) p (ph d)" and e: "panel env par e (inst e) p"
      using assms(1,2) that by (simp_all add: accordion_def)
    show "panel env par d (inst d) q" using d(1) panel_elsewhere [OF assms(3)] by simp
    show "in_phase d (inst d) q ((ph(e := s)) d)"
      using assms(3,4) d phase_elsewhere [OF assms(3)] panels_apart [OF e d(1)] by (cases "d = e") simp_all
  qed
  then show ?thesis by (simp add: accordion_def)
qed

lemma elsewhere_refl [simp]: "elsewhere e i p p"
  unfolding elsewhere_def by (metis collapser.surjective collapser.update_convs(4))

text \<open>A step that changes one element, marks one instance, and queues for the element.\<close>

lemma elsewhereI:
  assumes "col_data q = col_data p" "col_inst q = (col_inst p)(i := (col_inst p i)\<lparr>col_transitioning := b\<rparr>)"
    and "\<And>d. d \<noteq> e \<Longrightarrow> filter (\<lambda>(u, _). u = d) (col_waiting q) = filter (\<lambda>(u, _). u = d) (col_waiting p)"
    and "\<And>d c. d \<noteq> e \<Longrightarrow> c = ''show'' \<or> c = ''collapsing'' \<Longrightarrow> has_class c (col_doc q) d = has_class c (col_doc p) d"
  shows "elsewhere e i p q"
proof -
  have "\<exists>b. col_inst q j = (col_inst p j)\<lparr>col_transitioning := b\<rparr> \<and> (j \<noteq> i \<longrightarrow> b = col_transitioning (col_inst p j))" for j
    using assms(2) by (cases "j = i") auto
  then show ?thesis using assms by (simp add: elsewhere_def)
qed

definition untrigger :: "collapse_env \<Rightarrow> nat list \<Rightarrow> collapse_page \<Rightarrow> collapse_page" where
  "untrigger env trs p = fold (\<lambda>tr p. case trigger_target env tr of
       None \<Rightarrow> p | Some d \<Rightarrow> if collapse_isShown p d then p else addAriaAndCollapsedClass [tr] False p) trs p"

lemma untrigger_simps [simp]:
  "col_data (untrigger env trs p) = col_data p" "col_inst (untrigger env trs p) = col_inst p"
  "col_waiting (untrigger env trs p) = col_waiting p"
  unfolding untrigger_def by (subst fold_same; simp split: option.split)+

lemma untrigger_classes [simp]:
  assumes "c \<noteq> ''collapsed''"
  shows "has_class c (col_doc (untrigger env trs p)) e \<longleftrightarrow> has_class c (col_doc p) e"
  unfolding untrigger_def
  by (subst fold_same [where g = "\<lambda>p. has_class c (col_doc p) e"]) (use assms in \<open>auto split: option.split\<close>)

lemma hide_idle: "in_phase (col_element (col_inst p i)) i p s \<Longrightarrow> s \<noteq> Opened \<Longrightarrow> collapse_hide env i p = p"
  by (cases s) (simp_all add: collapse_hide_def collapse_isShown_def Let_def)

lemma hide_opened:
  assumes "col_element (col_inst p i) = e" "in_phase e i p Opened" "\<not> col_prevents env p ''hide'' e"
  shows "elsewhere e i p (collapse_hide env i p)" "in_phase e i (collapse_hide env i p) Closing"
proof -
  define dim where "dim = getDimension (col_event ''hide'' e p) e"
  define p1 where "p1 = col_element_do e (set_style dim (num_text (Some (Dec (rect_size env (col_doc p) e) 0)) @ ''px''))
    (col_event ''hide'' e p)"
  define p2 where "p2 = col_element_do e (\<lambda>el. remove_class ''show'' (remove_class ''collapse'' el)) (col_element_do e (add_class ''collapsing'') p1)"
  define p3 where "p3 = col_element_do e (set_style dim []) (col_mark i True (untrigger env (triggerArray (col_inst p i)) p2))"
  have eq: "collapse_hide env i p = p3\<lparr>col_waiting := col_waiting p3 @ [(e, CollapseHidden i)]\<rparr>"
    using assms by (simp add: collapse_hide_def collapse_isShown_def p3_def p2_def p1_def dim_def untrigger_def Let_def)
  have classes: "has_class c (col_doc p3) d = (if d = e then c = ''collapsing'' else has_class c (col_doc p) d)"
    if "c = ''show'' \<or> c = ''collapsing''" for c d
  proof -
    have "has_class c (col_doc p3) d = has_class c (col_doc p2) d"
      using that by (auto simp: p3_def do_classes) (simp_all add: has_class_def [symmetric])
    then show ?thesis using that assms(2) by (auto simp: p2_def p1_def do_classes has_class_def)
  qed
  have "col_inst p3 = (col_inst p)(i := (col_inst p i)\<lparr>col_transitioning := True\<rparr>)"
    by (rule ext) (simp add: p3_def p2_def p1_def)
  moreover have "col_data p3 = col_data p" "col_waiting p3 = col_waiting p"
    by (simp_all add: p3_def p2_def p1_def)
  ultimately show "elsewhere e i p (collapse_hide env i p)" "in_phase e i (collapse_hide env i p) Closing"
    using assms(2) classes unfolding eq by (auto intro!: elsewhereI [where b = True])
qed

lemma accordionD:
  assumes "accordion env par inst ph p" "e \<in> set (below env par)"
  shows "panel env par e (inst e) p" "in_phase e (inst e) p (ph e)" "col_element (col_inst p (inst e)) = e"
    "col_data p e = Some (inst e)"
  using assms by (simp_all add: accordion_def panel_def)

lemma accordion_cong:
  "(\<And>e. e \<in> set (below env par) \<Longrightarrow> ph e = ph' e) \<Longrightarrow> accordion env par inst ph p = accordion env par inst ph' p"
  by (simp add: accordion_def)

lemma accordion_hide:
  assumes "accordion env par inst ph p" "e \<in> set (below env par)" "\<not> col_prevents env p ''hide'' e"
  shows "accordion env par inst (abs_hide e ph) (collapse_hide env (inst e) p)"
proof (cases "ph e = Opened")
  case True
  then show ?thesis
    using accordion_step [OF assms(1,2)] hide_opened [of p "inst e" e env] accordionD [OF assms(1,2)] assms(3) by (simp add: abs_hide_def)
next
  case False
  then show ?thesis
    using hide_idle [of p "inst e" "ph e" env] accordionD [OF assms(1,2)] assms(1) by (simp add: abs_hide_def)
qed

lemma accordion_event: "accordion env par inst ph (col_event ev d p) = accordion env par inst ph p"
proof -
  have "in_phase e i (col_event ev d p) s = in_phase e i p s" for e i s by (cases s) simp_all
  then show ?thesis by (simp add: accordion_def panel_def)
qed

text \<open>The end of a transition.\<close>

lemma job_facts:
  assumes "col_element (col_inst p i) = e"
  shows "col_inst (run_collapse_job (CollapseShown i dim) p) = (col_inst p)(i := (col_inst p i)\<lparr>col_transitioning := False\<rparr>)"
    "col_data (run_collapse_job (CollapseShown i dim) p) = col_data p"
    "col_waiting (run_collapse_job (CollapseShown i dim) p) = col_waiting p"
    "has_class ''show'' (col_doc (run_collapse_job (CollapseShown i dim) p)) d \<longleftrightarrow> d = e \<or> has_class ''show'' (col_doc p) d"
    "has_class ''collapsing'' (col_doc (run_collapse_job (CollapseShown i dim) p)) d \<longleftrightarrow> d \<noteq> e \<and> has_class ''collapsing'' (col_doc p) d"
    "col_inst (run_collapse_job (CollapseHidden i) p) = (col_inst p)(i := (col_inst p i)\<lparr>col_transitioning := False\<rparr>)"
    "col_data (run_collapse_job (CollapseHidden i) p) = col_data p"
    "col_waiting (run_collapse_job (CollapseHidden i) p) = col_waiting p"
    "has_class ''show'' (col_doc (run_collapse_job (CollapseHidden i) p)) d \<longleftrightarrow> has_class ''show'' (col_doc p) d"
    "has_class ''collapsing'' (col_doc (run_collapse_job (CollapseHidden i) p)) d \<longleftrightarrow> d \<noteq> e \<and> has_class ''collapsing'' (col_doc p) d"
  using assms by (auto simp: has_class_def Let_def)

lemma job_steps:
  assumes "col_element (col_inst p i) = e" "filter (\<lambda>(d, _). d = e) (col_waiting p) = []"
  shows "elsewhere e i p (run_collapse_job (CollapseShown i dim) p)" "in_phase e i (run_collapse_job (CollapseShown i dim) p) Opened"
    "elsewhere e i p (run_collapse_job (CollapseHidden i) p)"
    "\<not> has_class ''show'' (col_doc p) e \<Longrightarrow> in_phase e i (run_collapse_job (CollapseHidden i) p) Closed"
  using assms(2) job_facts [OF assms(1)]
  by (auto simp del: run_collapse_job.simps intro!: elsewhereI [where b = False])

lemma none_waiting: "filter (\<lambda>(d, _). d = e) ws = [] \<Longrightarrow> filter (\<lambda>(d, _). d \<noteq> e) ws = ws"
  by (auto simp: filter_empty_conv filter_id_conv)

lemma accordion_end:
  assumes "accordion env par inst ph p" "e \<in> set (below env par)"
  shows "accordion env par inst (abs_end e ph) (collapse_transition_end e p)"
proof -
  define p1 where "p1 = p\<lparr>col_waiting := filter (\<lambda>(d, _). d \<noteq> e) (col_waiting p)\<rparr>"
  have p1: "col_element (col_inst p1 (inst e)) = e" "filter (\<lambda>(d, _). d = e) (col_waiting p1) = []"
    "has_class c (col_doc p1) d = has_class c (col_doc p) d" for c d
    using accordionD(3) [OF assms] by (auto simp: p1_def filter_empty_conv)
  have p1': "elsewhere e (inst e) p p1"
    by (rule elsewhereI [where b = "col_transitioning (col_inst p (inst e))"]) (auto simp: p1_def intro!: filter_cong)
  have trans: "elsewhere e (inst e) p q" if "elsewhere e (inst e) p1 q" "col_inst q = (col_inst p1)(inst e := (col_inst p1 (inst e))\<lparr>col_transitioning := False\<rparr>)" for q
    using that p1' by (intro elsewhereI [where b = False]) (auto simp: elsewhere_def p1_def)
  have eq: "collapse_transition_end e p = fold (\<lambda>(_, job). run_collapse_job job) (filter (\<lambda>(d, _). d = e) (col_waiting p)) p1"
    by (simp add: collapse_transition_end_def p1_def)
  show ?thesis
  proof (cases "ph e")
    case Opening
    then obtain dim where "filter (\<lambda>(d, _). d = e) (col_waiting p) = [(e, CollapseShown (inst e) dim)]"
      using accordionD(2) [OF assms] by auto
    then have "collapse_transition_end e p = run_collapse_job (CollapseShown (inst e) dim) p1" by (simp add: eq)
    then show ?thesis
      using accordion_step [OF assms trans] job_steps(1,2) [OF p1(1,2), of dim] job_facts(1) [OF p1(1), of dim] Opening
      by (simp add: abs_end_def)
  next
    case Closing
    then have "collapse_transition_end e p = run_collapse_job (CollapseHidden (inst e)) p1"
      using accordionD(2) [OF assms] by (simp add: eq)
    moreover have "\<not> has_class ''show'' (col_doc p1) e"
      using accordionD(2) [OF assms] Closing by (simp add: p1_def)
    ultimately show ?thesis
      using accordion_step [OF assms trans] job_steps(3,4) [OF p1(1,2)] job_facts(6) [OF p1(1)] Closing
      by (simp add: abs_end_def)
  next
    case Closed
    then have "collapse_transition_end e p = p"
      using accordionD(2) [OF assms] none_waiting [of e "col_waiting p"] by (simp add: eq p1_def)
    then show ?thesis using assms(1) Closed by (simp add: abs_end_def fun_upd_idem)
  next
    case Opened
    then have "collapse_transition_end e p = p"
      using accordionD(2) [OF assms] none_waiting [of e "col_waiting p"] by (simp add: eq p1_def)
    then show ?thesis using assms(1) Opened by (simp add: abs_end_def fun_upd_idem)
  qed
qed

text \<open>
  An accordion: the panels are those below the parent, none of them nested, a trigger selects at most one of them,
  and nothing prevents hiding.
\<close>

definition accordion_env :: "collapse_env \<Rightarrow> nat \<Rightarrow> bool" where
  "accordion_env env par \<longleftrightarrow> distinct (below env par) \<and>
     (\<forall>doc. \<forall>e \<in> set (below env par). \<not> nested env doc par e) \<and>
     (\<forall>tr. selects env tr = [] \<or> (\<exists>e \<in> set (below env par). selects env tr = [e])) \<and>
     (\<forall>p e. \<not> col_prevents env p ''hide'' e)"

lemma actives_phases:
  assumes "accordion env par inst ph p" "accordion_env env par"
  shows "col_actives env (Some par) (col_doc p) = filter (\<lambda>d. ph d \<noteq> Closed) (below env par)"
proof -
  have "(has_class ''show'' (col_doc p) d \<or> has_class ''collapsing'' (col_doc p) d) \<and> \<not> nested env (col_doc p) par d
      \<longleftrightarrow> ph d \<noteq> Closed" if "d \<in> set (below env par)" for d
    using accordionD(2) [OF assms(1) that] assms(2) that by (cases "ph d") (simp_all add: accordion_env_def)
  then show ?thesis by (simp add: col_actives_def cong: filter_cong)
qed

lemma accordion_close:
  assumes "accordion env par inst ph p" "accordion_env env par" "set es \<subseteq> set (below env par)" "e \<notin> set es" "c = None \<or> c = Some e"
  shows "accordion env par inst (fold abs_hide es ph) (fold (close_active env c True) es p)"
  using assms(1,3,4)
proof (induction es arbitrary: ph p)
  case (Cons d es)
  then have d: "d \<in> set (below env par)" "d \<noteq> e" by auto
  have "close_active env c True d p = collapse_hide env (inst d) p"
    using accordionD(4) [OF Cons.prems(1) d(1)] assms(5) d(2) by (auto simp: close_active_def collapse_getOrCreate_def)
  moreover have "accordion env par inst (abs_hide d ph) (collapse_hide env (inst d) p)"
    using accordion_hide [OF Cons.prems(1) d(1)] assms(2) by (simp add: accordion_env_def)
  ultimately show ?case using Cons.IH [of "abs_hide d ph"] Cons.prems by simp
qed simp

lemma fold_hide: "fold abs_hide es ph d = (if d \<in> set es \<and> ph d = Opened then Closing else ph d)"
  by (induction es arbitrary: ph) (auto simp: abs_hide_def)

lemma show_opening:
  assumes "col_element (col_inst p i) = e" "in_phase e i p Closed"
  defines "dim \<equiv> getDimension p e"
  defines "q \<equiv> col_mark i True (addAriaAndCollapsedClass (triggerArray (col_inst p i)) True
    (col_element_do e (set_style dim ''0px'') (col_element_do e (add_class ''collapsing'') (col_element_do e (remove_class ''collapse'') p))))"
  defines "r \<equiv> q\<lparr>col_waiting := col_waiting q @ [(e, CollapseShown i dim)]\<rparr>"
  shows "elsewhere e i p (col_element_do e (set_style d v) r)" "in_phase e i (col_element_do e (set_style d v) r) Opening"
proof -
  have "has_class c (col_doc q) d = (if d = e then c = ''collapsing'' else has_class c (col_doc p) d)"
    if "c = ''show'' \<or> c = ''collapsing''" for c d
    using that assms(2) by (auto simp: q_def do_classes) (simp_all add: has_class_def)
  then have classes: "has_class c (col_doc (col_element_do e (set_style k v) r)) d = (if d = e then c = ''collapsing'' else has_class c (col_doc p) d)"
    if "c = ''show'' \<or> c = ''collapsing''" for c d k
    using that by (simp add: r_def do_classes) (simp add: has_class_def)
  have inst: "col_inst q = (col_inst p)(i := (col_inst p i)\<lparr>col_transitioning := True\<rparr>)"
    by (rule ext) (simp add: q_def)
  have "col_data q = col_data p" "col_waiting q = col_waiting p" by (simp_all add: q_def)
  then show "elsewhere e i p (col_element_do e (set_style d v) r)" "in_phase e i (col_element_do e (set_style d v) r) Opening"
    using assms(2) classes inst by (auto simp: r_def intro!: elsewhereI [where b = True])
qed

lemma container_own:
  "panel env par e i p \<Longrightarrow> col_container env (col_inst p i) = None \<or> col_container env (col_inst p i) = Some e"
  unfolding panel_def col_container_def by (cases "triggerArray (col_inst p i)") auto

lemma accordion_show:
  assumes "accordion env par inst ph p" "accordion_env env par" "e \<in> set (below env par)"
  shows "accordion env par inst (abs_show (below env par) (col_prevents env p ''show'' e) e ph) (collapse_show env (inst e) p)"
proof -
  let ?i = "inst e" and ?actives = "filter (\<lambda>d. ph d \<noteq> Closed) (below env par)"
  define c where "c = col_container env (col_inst p ?i)"
  note e = accordionD [OF assms(1,3)]
  have c: "c = None \<or> c = Some e" using container_own [OF e(1)] by (simp add: c_def)
  have parent: "col_parent (col_inst p ?i) = Some par" using e(1) by (simp add: panel_def)
  note actives = actives_phases [OF assms(1,2)]
  show ?thesis
  proof (cases "ph e = Closed")
    case False
    then have "collapse_show env ?i p = p"
      using e by (cases "ph e") (simp_all add: collapse_show_def collapse_isShown_def Let_def)
    then show ?thesis using assms(1) False by (simp add: abs_show_def Let_def)
  next
    case True
    then have idle: "\<not> col_transitioning (col_inst p ?i)" "\<not> collapse_isShown p e"
      using e(2) by (simp_all add: collapse_isShown_def)
    have first: "List.find (\<lambda>d. c \<noteq> Some d) ?actives = (case ?actives of [] \<Rightarrow> None | d # _ \<Rightarrow> Some d)"
    proof (cases ?actives)
      case (Cons d ds)
      then have "d \<in> set ?actives" by simp
      then have "c \<noteq> Some d" using True c by auto
      then show ?thesis using Cons by simp
    qed simp
    define data where "data = (case ?actives of [] \<Rightarrow> None | d # _ \<Rightarrow> col_data p d)"
    have data: "data = (case ?actives of [] \<Rightarrow> None | d # _ \<Rightarrow> Some (inst d))"
      and busy: "(case data of Some j \<Rightarrow> col_transitioning (col_inst p j) | None \<Rightarrow> False) \<longleftrightarrow> ?actives \<noteq> [] \<and> ph (hd ?actives) \<noteq> Opened"
    proof -
      have "col_data p d = Some (inst d)" "col_transitioning (col_inst p (inst d)) \<longleftrightarrow> ph d \<noteq> Opened" if "d \<in> set ?actives" for d
      proof -
        have d: "d \<in> set (below env par)" "ph d \<noteq> Closed" using that by auto
        show "col_data p d = Some (inst d)" by (rule accordionD(4) [OF assms(1) d(1)])
        show "col_transitioning (col_inst p (inst d)) \<longleftrightarrow> ph d \<noteq> Opened"
          using accordionD(2) [OF assms(1) d(1)] d(2) by (cases "ph d") simp_all
      qed
      then show "data = (case ?actives of [] \<Rightarrow> None | d # _ \<Rightarrow> Some (inst d))"
        "(case data of Some j \<Rightarrow> col_transitioning (col_inst p j) | None \<Rightarrow> False) \<longleftrightarrow> ?actives \<noteq> [] \<and> ph (hd ?actives) \<noteq> Opened"
        unfolding data_def by (cases ?actives; simp)+
    qed
    define p1 where "p1 = col_event ''show'' e p"
    define p2 where "p2 = fold (close_active env c True) ?actives p1"
    have known: "fold (close_active env c (data \<noteq> None)) ?actives p1 = p2"
      using data by (cases ?actives) (simp_all add: p2_def)
    have p2: "accordion env par inst (fold abs_hide ?actives ph) p2"
      unfolding p2_def by (rule accordion_close [OF _ assms(2)]) (use assms(1) True c in \<open>auto simp: p1_def accordion_event\<close>)
    define q where "q = col_mark ?i True (addAriaAndCollapsedClass (triggerArray (col_inst p2 ?i)) True
      (col_element_do e (set_style (getDimension p2 e) ''0px'') (col_element_do e (add_class ''collapsing'') (col_element_do e (remove_class ''collapse'') p2))))"
    define r where "r = q\<lparr>col_waiting := col_waiting q @ [(e, CollapseShown ?i (getDimension p2 e))]\<rparr>"
    define v where "v = num_text (Some (Dec (scroll_size env (col_doc r) e) 0)) @ ''px''"
    have actives_data: "(case (case ?actives of [] \<Rightarrow> None | d # _ \<Rightarrow> Some d) of None \<Rightarrow> None | Some d \<Rightarrow> col_data p d) = data"
      by (simp add: data_def split: list.split)
    have eq: "collapse_show env ?i p =
      (if ?actives \<noteq> [] \<and> ph (hd ?actives) \<noteq> Opened then p
       else if col_prevents env p ''show'' e then p1 else col_element_do e (set_style (getDimension p2 e) v) r)"
      unfolding collapse_show_def Let_def e(3) parent actives c_def [symmetric] first actives_data busy known [unfolded p1_def]
      using idle by (simp add: p1_def [symmetric] known q_def [symmetric] r_def [symmetric] v_def [symmetric])
    show ?thesis
    proof (cases "(?actives \<noteq> [] \<and> ph (hd ?actives) \<noteq> Opened) \<or> col_prevents env p ''show'' e")
      case stays: True
      then show ?thesis using assms(1) unfolding eq by (auto simp: abs_show_def p1_def accordion_event Let_def)
    next
      case False
      then have opens: "collapse_show env ?i p = col_element_do e (set_style (getDimension p2 e) v) r"
        unfolding eq by auto
      have "in_phase e ?i p2 Closed" using accordionD(2) [OF p2 assms(3)] True by (simp only: fold_hide) simp
      then have "elsewhere e ?i p2 (collapse_show env ?i p)" "in_phase e ?i (collapse_show env ?i p) Opening"
        unfolding opens r_def q_def by (intro show_opening accordionD(3) [OF p2 assms(3)]; assumption)+
      then have "accordion env par inst ((fold abs_hide ?actives ph)(e := Opening)) (collapse_show env ?i p)"
        using accordion_step [OF p2 assms(3)] by simp
      then show ?thesis
        using True False by (subst accordion_cong [where ph' = "(fold abs_hide ?actives ph)(e := Opening)"])
          (auto simp: abs_show_def fold_hide Let_def)
    qed
  qed
qed

lemma accordion_toggle:
  assumes "accordion env par inst ph p" "accordion_env env par" "e \<in> set (below env par)"
  shows "accordion env par inst (abs_toggle (below env par) (col_prevents env p ''show'' e) e ph) (collapse_toggle env (inst e) p)"
proof -
  have "collapse_isShown p e \<longleftrightarrow> ph e = Opened"
    using accordionD(2) [OF assms(1,3)] by (cases "ph e") (simp_all add: collapse_isShown_def)
  then show ?thesis
    using accordion_hide [OF assms(1,3)] accordion_show [OF assms] accordionD(3) [OF assms(1,3)] assms(2)
    by (simp add: collapse_toggle_def abs_toggle_def accordion_env_def)
qed

section \<open>One open panel\<close>

definition one_open :: "nat list \<Rightarrow> (nat \<Rightarrow> phase) \<Rightarrow> bool" where
  "one_open panels ph \<longleftrightarrow> (\<forall>d \<in> set panels. \<forall>e \<in> set panels.
     ph d \<in> {Opening, Opened} \<longrightarrow> ph e \<in> {Opening, Opened} \<longrightarrow> d = e)"

lemma one_open_hide: "one_open panels ph \<Longrightarrow> one_open panels (abs_hide e ph)"
  by (auto simp: one_open_def abs_hide_def)

lemma one_open_end: "one_open panels ph \<Longrightarrow> one_open panels (abs_end e ph)"
  by (auto simp: one_open_def abs_end_def split: phase.splits)

lemma one_open_show:
  assumes "one_open panels ph"
  shows "one_open panels (abs_show panels v e ph)"
proof (cases "ph e \<noteq> Closed \<or> (filter (\<lambda>d. ph d \<noteq> Closed) panels \<noteq> [] \<and>
    ph (hd (filter (\<lambda>d. ph d \<noteq> Closed) panels)) \<noteq> Opened) \<or> v")
  case True
  then show ?thesis using assms by (simp add: abs_show_def Let_def)
next
  case False
  have "ph d \<noteq> Opening" if "d \<in> set panels" for d
  proof
    assume d: "ph d = Opening"
    then have "d \<in> set (filter (\<lambda>d. ph d \<noteq> Closed) panels)" using that by simp
    then have nonempty: "filter (\<lambda>d. ph d \<noteq> Closed) panels \<noteq> []" by (metis length_pos_if_in_set length_greater_0_conv)
    define h where "h = hd (filter (\<lambda>d. ph d \<noteq> Closed) panels)"
    have "h \<in> set (filter (\<lambda>d. ph d \<noteq> Closed) panels)" unfolding h_def by (rule hd_in_set [OF nonempty])
    then have "h \<in> set panels" by simp
    moreover have "ph h = Opened" using False nonempty by (simp add: h_def)
    ultimately have "d = h" using assms that d unfolding one_open_def by blast
    then show False using d \<open>ph h = Opened\<close> by simp
  qed
  then show ?thesis using False by (auto simp: one_open_def abs_show_def Let_def split: if_splits)
qed

lemma one_open_toggle: "one_open panels ph \<Longrightarrow> one_open panels (abs_toggle panels v e ph)"
  by (simp add: abs_toggle_def one_open_hide one_open_show)

text \<open>Actions on the panels: calls on their instances, clicks on any trigger, ends of their transitions.\<close>

fun acts_on :: "nat list \<Rightarrow> (nat \<Rightarrow> nat) \<Rightarrow> collapse_action \<Rightarrow> bool" where
  "acts_on panels inst (ShowPanel i) \<longleftrightarrow> i \<in> inst ` set panels"
| "acts_on panels inst (HidePanel i) \<longleftrightarrow> i \<in> inst ` set panels"
| "acts_on panels inst (TogglePanel i) \<longleftrightarrow> i \<in> inst ` set panels"
| "acts_on panels inst (ClickTrigger tr) \<longleftrightarrow> True"
| "acts_on panels inst (PanelOver e) \<longleftrightarrow> e \<in> set panels"

definition kept :: "collapse_env \<Rightarrow> nat \<Rightarrow> (nat \<Rightarrow> nat) \<Rightarrow> collapse_page \<Rightarrow> bool" where
  "kept env par inst p \<longleftrightarrow> (\<exists>ph. accordion env par inst ph p \<and> one_open (below env par) ph)"

lemma kept_act:
  assumes "kept env par inst p" "accordion_env env par" "acts_on (below env par) inst a"
  shows "kept env par inst (collapse_act env a p)"
proof -
  obtain ph where ph: "accordion env par inst ph p" "one_open (below env par) ph" using assms(1) by (auto simp: kept_def)
  have toggle: "kept env par inst (collapse_toggle env (inst e) p)" if "e \<in> set (below env par)" for e
    using accordion_toggle [OF ph(1) assms(2) that] one_open_toggle [OF ph(2)] by (auto simp: kept_def)
  show ?thesis
  proof (cases a)
    case (ShowPanel i)
    then show ?thesis using assms(3) accordion_show [OF ph(1) assms(2)] one_open_show [OF ph(2)] by (auto simp: kept_def)
  next
    case (HidePanel i)
    then obtain e where "e \<in> set (below env par)" "i = inst e" using assms(3) by auto
    then show ?thesis using HidePanel accordion_hide [OF ph(1)] one_open_hide [OF ph(2)] assms(2)
      by (auto simp: kept_def accordion_env_def)
  next
    case (TogglePanel i)
    then show ?thesis using assms(3) toggle by auto
  next
    case (ClickTrigger tr)
    consider "selects env tr = []" | e where "e \<in> set (below env par)" "selects env tr = [e]"
      using assms(2) unfolding accordion_env_def by blast
    then show ?thesis
    proof cases
      case 1
      then show ?thesis using ClickTrigger assms(1) by (simp add: collapse_click_def)
    next
      case 2
      then show ?thesis using ClickTrigger toggle accordionD(4) [OF ph(1)] by (simp add: collapse_click_def collapse_getOrCreate_def)
    qed
  next
    case (PanelOver e)
    then show ?thesis using assms(3) accordion_end [OF ph(1)] one_open_end [OF ph(2)] by (auto simp: kept_def)
  qed
qed

lemma kept_run:
  assumes "kept env par inst p" "accordion_env env par" "\<forall>a \<in> set acts. acts_on (below env par) inst a"
  shows "kept env par inst (run_collapse env acts p)"
  unfolding run_collapse_def by (rule fold_keeps) (use assms kept_act in auto)

definition open_panel :: "collapse_page \<Rightarrow> nat \<Rightarrow> bool" where
  "open_panel p e \<longleftrightarrow> has_class ''show'' (col_doc p) e \<or> (\<exists>i dim. (e, CollapseShown i dim) \<in> set (col_waiting p))"

lemma open_phase:
  assumes "accordion env par inst ph p" "e \<in> set (below env par)" "open_panel p e"
  shows "ph e \<in> {Opening, Opened}"
proof -
  have mine: "(e, job) \<in> set (col_waiting p) \<longleftrightarrow> (e, job) \<in> set (filter (\<lambda>(d, _). d = e) (col_waiting p))" for job
    by simp
  have "in_phase e (inst e) p (ph e)" by (rule accordionD(2) [OF assms(1,2)])
  then show ?thesis using assms(3) unfolding open_panel_def mine by (cases "ph e") auto
qed

lemma kept_one:
  assumes "kept env par inst p" "d \<in> set (below env par)" "e \<in> set (below env par)" "open_panel p d" "open_panel p e"
  shows "d = e"
  using assms open_phase unfolding kept_def one_open_def by blast

end
