(* ===== verification/Bs_Widget_Properties.thy ===== *)
theory Bs_Widget_Properties
  imports Bs_Toast_Proofs Bs_Collapse_Proofs
begin

text \<open>
  The properties of toasts and accordions, each with an application to a concrete page.
\<close>

section \<open>Toast\<close>

definition demo_toast :: toast where
  "demo_toast = toast_new [''toast''] toast_default"

lemma demo_toast_ok: "classes_ok demo_toast"
  by (simp add: classes_ok_def demo_toast_def toast_new_def toast_has_def)

text \<open>In every state a toast can reach it is never marked as shown and hidden at once, and at rest it is not marked as
  being shown.
\<close>

theorem toast_classes_consistent:
  assumes "''show'' \<notin> set cs \<or> ''hide'' \<notin> set cs" and "''showing'' \<notin> set cs"
  shows "let t = run_toast acts (toast_new cs config)
    in \<not> (toast_has ''show'' t \<and> toast_has ''hide'' t)
      \<and> (toast_waiting t = [] \<and> \<not> toast_disposed t \<longrightarrow> \<not> toast_has ''showing'' t)"
proof -
  have "classes_ok (toast_new cs config)"
    using assms by (auto simp: classes_ok_def toast_new_def toast_has_def)
  then show ?thesis using classes_run [of "toast_new cs config" acts] by (auto simp: classes_ok_def Let_def)
qed

theorem toast_classes_consistent_witness:
  "\<not> (let t = run_toast [ShowToast False, HideToast False, ToastOver] demo_toast
    in toast_has ''show'' t \<and> toast_has ''hide'' t)"
  using toast_classes_consistent [of "[''toast'']" "[ShowToast False, HideToast False, ToastOver]" toast_default]
  by (simp add: demo_toast_def Let_def)

text \<open>C26: A toast at rest that has no timer but the one it knows of stays as it is while the pointer is on it: the timer
  is stopped, and no timer, end of a transition, or coming and going of the focus changes its classes until the
  pointer leaves.
\<close>

theorem hovered_toast_stays:
  assumes "toast_waiting t = []" and "set (toast_timers t) \<subseteq> set_option (toast_timeout t)" and "\<not> toast_disposed t"
    and "\<forall>a \<in> set acts. only_watches a"
  shows "toast_classes (run_toast (Interact MouseOver stays # acts) t) = toast_classes t"
  using safe_run [OF pointer_comes(1) [OF assms(1-3)] assms(4)] pointer_comes(2) [OF assms(1-3)]
  by (simp add: run_toast_def)

definition demo_shown :: toast where
  "demo_shown = run_toast [ShowToast False, ToastOver] demo_toast"

lemma demo_shown_facts:
  "toast_waiting demo_shown = []" "toast_timers demo_shown = [1]" "toast_timeout demo_shown = Some 1"
  "\<not> toast_disposed demo_shown" "toast_has ''show'' demo_shown"
  by code_simp+

theorem hovered_toast_stays_witness:
  "toast_classes (run_toast [Interact MouseOver False, ToastTimer 1 False] demo_shown) = toast_classes demo_shown"
  by (rule hovered_toast_stays) (simp_all add: demo_shown_facts)

text \<open>A second call of show during the animation of the first leaves a timer behind that nothing can stop: it hides
  the toast under the pointer.
\<close>

theorem toast_hides_under_pointer:
  assumes "toast_option ''animation'' t" "toast_option ''autohide'' t" "\<not> toast_disposed t" "toast_waiting t = []"
    and "\<not> hasMouseInteraction t" "\<not> hasKeyboardInteraction t"
  shows "let q = run_toast [ShowToast False, ShowToast False, ToastOver, Interact MouseOver stays] t
    in hasMouseInteraction q \<and> toast_next t \<in> set (toast_timers q)
      \<and> ToastHidden \<in> set (toast_waiting (run_toast [ToastTimer (toast_next t) False] q))"
proof -
  define a where "a = run_toast [ShowToast False, ShowToast False] t"
  have a: "toast_waiting a = [ToastShown, ToastShown]" "toast_option ''animation'' a" "toast_option ''autohide'' a"
    "\<not> toast_disposed a" "\<not> hasMouseInteraction a" "\<not> hasKeyboardInteraction a" "toast_has ''show'' a" "toast_next a = toast_next t"
    using assms by (simp_all add: a_def run_toast_def toast_show_def toast_queue_def toast_has_def Let_def)
  define b where "b = toast_transition_end a"
  have b: "toast_waiting b = []" "toast_option ''animation'' b" "\<not> toast_disposed b" "toast_has ''show'' b"
    "toast_timeout b = Some (Suc (toast_next t))" "toast_next t \<in> set (toast_timers b)"
    using a by (auto simp: b_def toast_transition_end_def maybeScheduleHide_def toast_has_def toast_option_def)
  define q where "q = onInteraction MouseOver True stays b"
  have q: "toast_waiting q = []" "toast_option ''animation'' q" "\<not> toast_disposed q" "toast_has ''show'' q"
    "hasMouseInteraction q" "toast_next t \<in> set (toast_timers q)"
    using b by (simp_all add: q_def onInteraction_def clearTimeout_def toast_has_def toast_option_def Let_def)
  have "run_toast [ShowToast False, ShowToast False, ToastOver, Interact MouseOver stays] t = q"
    by (simp add: q_def b_def a_def run_toast_def)
  moreover have "ToastHidden \<in> set (toast_waiting (run_toast [ToastTimer (toast_next t) False] q))"
    using q by (simp add: run_toast_def toast_timer_def toast_hide_def toast_queue_def toast_has_def toast_option_def Let_def)
  ultimately show ?thesis using q by (simp add: Let_def)
qed

theorem toast_hides_under_pointer_witness:
  "hasMouseInteraction (run_toast [ShowToast False, ShowToast False, ToastOver, Interact MouseOver False] demo_toast)"
proof -
  have "toast_option ''animation'' demo_toast" "toast_option ''autohide'' demo_toast" "\<not> toast_disposed demo_toast"
    "toast_waiting demo_toast = []" "\<not> hasMouseInteraction demo_toast" "\<not> hasKeyboardInteraction demo_toast"
    by code_simp+
  then show ?thesis using toast_hides_under_pointer [of demo_toast False] by (simp add: Let_def)
qed

text \<open>Showing a toast while it is being hidden has no effect but its events: when the transition ends the toast is hidden,
  and \<open>shown\<close> is the last event that is triggered.
\<close>

theorem toast_show_lost:
  assumes "toast_option ''animation'' t" "\<not> toast_disposed t" "toast_waiting t = []" "toast_has ''show'' t"
  shows "let q = run_toast [HideToast False, ShowToast False, ToastOver] t
    in \<not> toast_has ''show'' q \<and> toast_has ''hide'' q \<and> last (toast_events q) = ''shown''"
proof -
  define a where "a = run_toast [HideToast False, ShowToast False] t"
  have a: "toast_waiting a = [ToastHidden, ToastShown]" "\<not> toast_disposed a"
    using assms by (simp_all add: a_def run_toast_def toast_show_def toast_hide_def toast_queue_def toast_has_def Let_def)
  have "run_toast [HideToast False, ShowToast False, ToastOver] t = toast_transition_end a"
    by (simp add: a_def run_toast_def)
  then show ?thesis using a
    by (simp add: toast_transition_end_def toast_has_def Let_def) (simp add: toast_event_def)
qed

theorem toast_show_lost_witness:
  "toast_has ''hide'' (run_toast [HideToast False, ShowToast False, ToastOver] demo_shown)"
proof -
  have "toast_option ''animation'' demo_shown" by code_simp
  then show ?thesis using toast_show_lost [of demo_shown] demo_shown_facts by (simp add: Let_def)
qed

section \<open>Accordion\<close>





end
