(* ===== verification/Bs_Tab.thy ===== *)
theory Bs_Tab
  imports Bs_Dom
begin

text \<open>
  Tabs, alerts and toggle buttons of \<open>bootstrap.js\<close>. A page holds the tabs of lists and their panes; which elements
  lie where is fixed, classes and attributes change, and callbacks wait for transitions.
\<close>

section \<open>State\<close>

text \<open>
  The callback of \<open>_activate\<close>: the element, the active one it found, and for a pane what \<open>show\<close> does in the end,
  with the previous tab and the tab.
\<close>

record tab_job =
  job_element :: nat
  job_active :: "nat option"
  job_shown :: "(nat option \<times> nat) option"

record tab_page =
  tab_doc :: sheet
  tab_waiting :: "tab_job list"
  tab_events :: "(string \<times> nat) list"

text \<open>
  Where elements lie: whether an element has an element as parent, the element a tab points to, its list, the
  elements of a container among which \<open>_activate\<close> looks for the active one and those among which \<open>show\<close> does, the
  elements of a drop-down menu beside an element, and, of an element that lies in a drop-down menu, the toggles of the
  drop-down. What listeners decide.
\<close>

record tab_env =
  in_element :: "nat \<Rightarrow> bool"
  tab_target :: "nat \<Rightarrow> nat option"
  tab_list :: "nat \<Rightarrow> nat option"
  pane_container :: "nat \<Rightarrow> nat option"
  container_items :: "nat \<Rightarrow> nat list"
  list_items :: "nat \<Rightarrow> nat list"
  menu_beside :: "nat \<Rightarrow> nat list"
  menu_toggles :: "nat \<Rightarrow> nat list option"
  tab_prevents :: "tab_page \<Rightarrow> string \<Rightarrow> nat \<Rightarrow> bool"

definition tab_do :: "nat \<Rightarrow> (styled \<Rightarrow> styled) \<Rightarrow> tab_page \<Rightarrow> tab_page" where
  "tab_do e f p = p\<lparr>tab_doc := (tab_doc p)(e := f (tab_doc p e))\<rparr>"

definition tab_has :: "string \<Rightarrow> tab_page \<Rightarrow> nat \<Rightarrow> bool" where
  "tab_has c p e \<longleftrightarrow> c \<in> set (class_list (tab_doc p e))"

definition tab_event :: "string \<Rightarrow> nat \<Rightarrow> tab_page \<Rightarrow> tab_page" where
  "tab_event ev e p = p\<lparr>tab_events := tab_events p @ [(ev, e)]\<rparr>"

section \<open>Tabs\<close>

definition is_tab :: "tab_page \<Rightarrow> nat \<Rightarrow> bool" where
  "is_tab p e \<longleftrightarrow> oget (attrs_of (tab_doc p e)) ''role'' = Some ''tab''"

text \<open>An event on no element goes nowhere.\<close>

definition tab_finish :: "(nat option \<times> nat) option \<Rightarrow> tab_page \<Rightarrow> tab_page" where
  "tab_finish c p =
     (case c of
        None \<Rightarrow> p
      | Some (previous, e) \<Rightarrow>
          tab_event ''shown'' e (case previous of None \<Rightarrow> p | Some d \<Rightarrow> tab_event ''hidden'' d p))"

definition tab_deactivate :: "tab_env \<Rightarrow> nat \<Rightarrow> tab_page \<Rightarrow> tab_page" where
  "tab_deactivate env a p =
     (let p = tab_do a (remove_class ''active'') p;
          p = (case filter (tab_has ''active'' p) (menu_beside env a) of
                 [] \<Rightarrow> p | d # _ \<Rightarrow> tab_do d (remove_class ''active'') p)
      in if is_tab p a then tab_do a (set_attribute ''aria-selected'' ''false'') p else p)"

definition transition_complete :: "tab_env \<Rightarrow> tab_job \<Rightarrow> tab_page \<Rightarrow> tab_page" where
  "transition_complete env j p =
     (let e = job_element j;
          p = (case job_active j of None \<Rightarrow> p | Some a \<Rightarrow> tab_deactivate env a p);
          p = tab_do e (add_class ''active'') p;
          p = (if is_tab p e then tab_do e (set_attribute ''aria-selected'' ''true'') p else p);
          p = (if tab_has ''fade'' p e then tab_do e (add_class ''show'') p else p);
          p = (case menu_toggles env e of
                 None \<Rightarrow> p
               | Some ds \<Rightarrow> tab_do e (set_attribute ''aria-expanded'' ''true'') (fold (\<lambda>d. tab_do d (add_class ''active'')) ds p))
      in tab_finish (job_shown j) p)"

text \<open>
  \<open>_activate\<close>; without a container the search for the active elements throws (the second result). Only a pane,
  which comes with a callback, waits for the transition of the pane that leaves.
\<close>

definition tab_activate :: "tab_env \<Rightarrow> nat \<Rightarrow> nat option \<Rightarrow> (nat option \<times> nat) option \<Rightarrow> tab_page \<Rightarrow> tab_page \<times> bool" where
  "tab_activate env e container c p =
     (case container of
        None \<Rightarrow> (p, False)
      | Some l \<Rightarrow>
          let active = List.find (tab_has ''active'' p) (container_items env l);
              job = \<lparr>job_element = e, job_active = active, job_shown = c\<rparr> in
          (case active of
             None \<Rightarrow> (transition_complete env job p, True)
           | Some a \<Rightarrow>
               if c \<noteq> None \<and> tab_has ''fade'' p a
               then (let p = tab_do a (remove_class ''show'') p in (p\<lparr>tab_waiting := tab_waiting p @ [job]\<rparr>, True))
               else (transition_complete env job p, True)))"

definition tab_previous :: "tab_env \<Rightarrow> nat \<Rightarrow> tab_page \<Rightarrow> nat option" where
  "tab_previous env e p =
     (case tab_list env e of
        None \<Rightarrow> None
      | Some l \<Rightarrow> (case filter (tab_has ''active'' p) (list_items env l) of [] \<Rightarrow> None | ds \<Rightarrow> Some (last ds)))"

definition tab_show :: "tab_env \<Rightarrow> nat \<Rightarrow> tab_page \<Rightarrow> tab_page \<times> bool" where
  "tab_show env e p =
     (if in_element env e \<and> tab_has ''active'' p e then (p, True)
      else (let previous = tab_previous env e p;
                hide_prevented = (case previous of None \<Rightarrow> False | Some d \<Rightarrow> tab_prevents env p ''hide'' d);
                p = (case previous of None \<Rightarrow> p | Some d \<Rightarrow> tab_event ''hide'' d p);
                show_prevented = tab_prevents env p ''show'' e;
                p = tab_event ''show'' e p in
            if show_prevented \<or> hide_prevented then (p, True)
            else (case tab_activate env e (tab_list env e) None p of
                    (p, ok) \<Rightarrow>
                      if \<not> ok then (p, False)
                      else (case tab_target env e of
                              None \<Rightarrow> (tab_finish (Some (previous, e)) p, True)
                            | Some t \<Rightarrow> tab_activate env t (pane_container env t) (Some (previous, e)) p))))"

text \<open>The end of the transition of an element: the callbacks that wait for it, in order.\<close>

definition tab_transition_end :: "tab_env \<Rightarrow> nat \<Rightarrow> tab_page \<Rightarrow> tab_page" where
  "tab_transition_end env e p =
     fold (transition_complete env) (filter (\<lambda>j. job_element j = e) (tab_waiting p))
       (p\<lparr>tab_waiting := filter (\<lambda>j. job_element j \<noteq> e) (tab_waiting p)\<rparr>)"

text \<open>A click on a tab: an element that is disabled is left alone.\<close>

definition tab_click :: "tab_env \<Rightarrow> (nat \<Rightarrow> bool option) \<Rightarrow> nat \<Rightarrow> tab_page \<Rightarrow> tab_page \<times> bool" where
  "tab_click env property e p = (if isDisabled (tab_doc p e) (property e) then (p, True) else tab_show env e p)"

section \<open>Alerts and buttons\<close>

record alert =
  alert_element :: styled
  alert_in_page :: bool
  alert_registered :: bool      \<comment> \<open>not disposed of\<close>
  alert_waiting :: nat
  alert_events :: "string list"

definition alert_destroy :: "alert \<Rightarrow> alert" where
  "alert_destroy a =
     (if \<not> alert_registered a then a
      else a\<lparr>alert_in_page := False, alert_events := alert_events a @ [''closed''], alert_registered := False\<rparr>)"

text \<open>Closing an alert that was disposed of throws.\<close>

definition alert_close :: "bool \<Rightarrow> alert \<Rightarrow> alert" where
  "alert_close prevented a =
     (if \<not> alert_registered a then a
      else (let a = a\<lparr>alert_events := alert_events a @ [''close'']\<rparr> in
            if prevented then a
            else (let a = a\<lparr>alert_element := remove_class ''show'' (alert_element a)\<rparr> in
                  if ''fade'' \<in> set (class_list (alert_element a)) then a\<lparr>alert_waiting := alert_waiting a + 1\<rparr>
                  else alert_destroy a)))"

definition alert_transition_end :: "alert \<Rightarrow> alert" where
  "alert_transition_end a = (alert_destroy ^^ alert_waiting a) (a\<lparr>alert_waiting := 0\<rparr>)"

definition button_toggle :: "styled \<Rightarrow> styled" where
  "button_toggle el =
     (if ''active'' \<in> set (class_list el)
      then set_attribute ''aria-pressed'' ''false'' (remove_class ''active'' el)
      else set_attribute ''aria-pressed'' ''true'' (add_class ''active'' el))"

end
