(* ===== verification/Bs_ScrollSpy.thy ===== *)
theory Bs_ScrollSpy
  imports Bs_Dom
begin

text \<open>
  The scroll spy of \<open>bootstrap.js\<close>: measuring the targets, choosing the target for a scroll position, and marking
  its link. Lengths are integers in a fixed unit; where elements lie and which links there are belong to the page.
\<close>

section \<open>State\<close>

text \<open>\<open>_activeTarget\<close>: null at first; undefined after activating the last of no targets.\<close>

datatype spy_target = NoTarget | Undefined | Target string

record spy =
  spy_offsets :: "int list"
  spy_targets :: "string list"
  activeTarget :: spy_target
  spy_height :: int               \<comment> \<open>\<open>_scrollHeight\<close>\<close>
  spy_active :: "nat list"        \<comment> \<open>elements with the class \<open>active\<close>\<close>
  spy_events :: "string list"

text \<open>
  The page as it is now: what is scrolled is the window or an element; the links below the target of the options
  with the selector each names; for a selector the element it finds, for that its place and size; the elements that
  are marked along with a link.
\<close>

record spy_page =
  spy_window :: bool
  spy_method :: string
  spy_offset :: int
  scrollTop :: int
  scrollHeight :: int
  offsetHeight :: int
  spy_links :: "(nat \<times> string option) list"
  found :: "string \<Rightarrow> nat option"
  top_offset :: "nat \<Rightarrow> int"      \<comment> \<open>\<open>Manipulator.offset\<close> and \<open>Manipulator.position\<close>\<close>
  top_position :: "nat \<Rightarrow> int"
  has_size :: "nat \<Rightarrow> bool"
  link_for :: "string \<Rightarrow> nat option"
  along :: "nat \<Rightarrow> nat list"

section \<open>Operations\<close>

definition spy_measure :: "spy_page \<Rightarrow> nat \<times> string option \<Rightarrow> (int \<times> string) option" where
  "spy_measure pg l =
     (let method = (if spy_method pg = ''auto'' then if spy_window pg then ''offset'' else ''position'' else spy_method pg);
          offsetBase = (if method = ''position'' then scrollTop pg else 0) in
      case snd l of
        None \<Rightarrow> None
      | Some sel \<Rightarrow>
          if sel = [] then None
          else (case found pg sel of
                  None \<Rightarrow> None
                | Some e \<Rightarrow>
                    if has_size pg e
                    then Some ((if method = ''position'' then top_position pg e else top_offset pg e) + offsetBase, sel)
                    else None))"

definition spy_refresh :: "spy_page \<Rightarrow> spy \<Rightarrow> spy" where
  "spy_refresh pg s =
     (let items = sort_key fst (List.map_filter (spy_measure pg) (spy_links pg))
      in s\<lparr>spy_offsets := map fst items, spy_targets := map snd items, spy_height := scrollHeight pg\<rparr>)"

definition spy_clear :: "spy_page \<Rightarrow> spy \<Rightarrow> spy" where
  "spy_clear pg s = s\<lparr>spy_active := filter (\<lambda>e. e \<notin> fst ` set (spy_links pg)) (spy_active s)\<rparr>"

text \<open>The text of a target in a selector. Without a link for it the operation throws, after clearing.\<close>

fun target_text :: "spy_target \<Rightarrow> string" where
  "target_text (Target t) = t"
| "target_text Undefined = ''undefined''"
| "target_text NoTarget = ''null''"

definition spy_activate :: "spy_page \<Rightarrow> spy_target \<Rightarrow> spy \<Rightarrow> spy \<times> bool" where
  "spy_activate pg target s =
     (let s = spy_clear pg (s\<lparr>activeTarget := target\<rparr>) in
      case link_for pg (target_text target) of
        None \<Rightarrow> (s, False)
      | Some l \<Rightarrow>
          (s\<lparr>spy_active := fold (\<lambda>e es. if e \<in> set es then es else es @ [e]) (l # along pg l) (spy_active s),
             spy_events := spy_events s @ [target_text target]\<rparr>, True))"

text \<open>The loop goes from the last target to the first.\<close>

fun spy_loop :: "spy_page \<Rightarrow> int \<Rightarrow> nat \<Rightarrow> spy \<Rightarrow> spy \<times> bool" where
  "spy_loop pg y 0 s = (s, True)"
| "spy_loop pg y (Suc i) s =
     (let isActiveTarget = activeTarget s \<noteq> Target (spy_targets s ! i) \<and> y \<ge> spy_offsets s ! i \<and>
            (Suc i \<ge> length (spy_offsets s) \<or> y < spy_offsets s ! Suc i) in
      if isActiveTarget
      then (case spy_activate pg (Target (spy_targets s ! i)) s of
              (s, ok) \<Rightarrow> if ok then spy_loop pg y i s else (s, False))
      else spy_loop pg y i s)"

text \<open>An active target that is the empty text counts as none.\<close>

definition spy_process :: "spy_page \<Rightarrow> spy \<Rightarrow> spy \<times> bool" where
  "spy_process pg s =
     (let y = scrollTop pg + spy_offset pg;
          maxScroll = spy_offset pg + scrollHeight pg - offsetHeight pg;
          s = (if spy_height s \<noteq> scrollHeight pg then spy_refresh pg s else s) in
      if y \<ge> maxScroll then
        (let target = (if spy_targets s = [] then Undefined else Target (last (spy_targets s))) in
         if activeTarget s \<noteq> target then spy_activate pg target s else (s, True))
      else if activeTarget s \<notin> {NoTarget, Undefined, Target []} \<and> spy_offsets s \<noteq> [] \<and> y < spy_offsets s ! 0 \<and> spy_offsets s ! 0 > 0
      then (spy_clear pg (s\<lparr>activeTarget := NoTarget\<rparr>), True)
      else spy_loop pg y (length (spy_offsets s)) s)"

definition spy_new :: "spy_page \<Rightarrow> spy \<times> bool" where
  "spy_new pg =
     spy_process pg (spy_refresh pg \<lparr>spy_offsets = [], spy_targets = [], activeTarget = NoTarget, spy_height = 0,
       spy_active = [], spy_events = []\<rparr>)"

section \<open>The target of a position\<close>

text \<open>What the loop is to find: the last target that the position has reached.\<close>

definition reached :: "int list \<Rightarrow> int \<Rightarrow> nat" where
  "reached offs y = length (filter (\<lambda>x. x \<le> y) offs)"

lemma sorted_reached:
  assumes "sorted offs" "i < length offs"
  shows "offs ! i \<le> y \<longleftrightarrow> i < reached offs y"
  using assms
proof (induction offs arbitrary: i)
  case (Cons x offs)
  show ?case
  proof (cases "x \<le> y")
    case True
    then show ?thesis using Cons by (cases i) (auto simp: reached_def)
  next
    case False
    then have "filter (\<lambda>x. x \<le> y) offs = []" using Cons.prems(1) by (auto simp: filter_empty_conv)
    moreover have "x \<le> (x # offs) ! i" using Cons.prems nth_mem by (cases i) auto
    then have "\<not> (x # offs) ! i \<le> y" using False by simp
    ultimately show ?thesis using False by (simp add: reached_def)
  qed
qed simp

lemma chosen_iff:
  assumes "sorted offs" "i < length offs"
  shows "offs ! i \<le> y \<and> (Suc i \<ge> length offs \<or> y < offs ! Suc i) \<longleftrightarrow> Suc i = reached offs y"
proof -
  have "reached offs y \<le> length offs" by (simp add: reached_def)
  then show ?thesis
    using sorted_reached [OF assms(1), of i y] sorted_reached [OF assms(1), of "Suc i" y] assms(2)
    by (cases "Suc i < length offs") (auto simp: not_le [symmetric])
qed

lemma activate_fields [simp]:
  "spy_offsets (fst (spy_activate pg t s)) = spy_offsets s" "spy_targets (fst (spy_activate pg t s)) = spy_targets s"
  "activeTarget (fst (spy_activate pg t s)) = t"
  "snd (spy_activate pg t s) \<longleftrightarrow> link_for pg (target_text t) \<noteq> None"
  by (simp_all add: spy_activate_def spy_clear_def Let_def split: option.split)

text \<open>The loop activates at most once, and only the target that was reached.\<close>

lemma loop_below:
  assumes "sorted (spy_offsets s)" "n \<le> length (spy_offsets s)" "n < reached (spy_offsets s) y \<or> reached (spy_offsets s) y = 0"
  shows "spy_loop pg y n s = (s, True)"
  using assms(2,3)
proof (induction n)
  case (Suc i)
  then have "\<not> (spy_offsets s ! i \<le> y \<and> (Suc i \<ge> length (spy_offsets s) \<or> y < spy_offsets s ! Suc i))"
    using chosen_iff [OF assms(1), of i y] by auto
  then show ?case using Suc by (auto simp: Let_def)
qed simp

lemma loop_finds:
  assumes "sorted (spy_offsets s)" "n \<le> length (spy_offsets s)" "reached (spy_offsets s) y \<le> n" "0 < reached (spy_offsets s) y"
  defines "t \<equiv> Target (spy_targets s ! (reached (spy_offsets s) y - 1))"
  shows "spy_loop pg y n s = (if activeTarget s = t then (s, True) else spy_activate pg t s)"
  using assms(2,3)
proof (induction n)
  case (Suc i)
  have i: "i < length (spy_offsets s)" using Suc.prems by simp
  note chosen = chosen_iff [OF assms(1) i, of y]
  show ?case
  proof (cases "Suc i = reached (spy_offsets s) y")
    case True
    then have t: "t = Target (spy_targets s ! i)" by (simp add: t_def flip: True)
    let ?s = "fst (spy_activate pg t s)"
    have "spy_loop pg y i ?s = (?s, True)" "spy_loop pg y i s = (s, True)"
      using assms(1) i True by (auto intro!: loop_below)
    have "spy_offsets s ! i \<le> y \<and> (Suc i \<ge> length (spy_offsets s) \<or> y < spy_offsets s ! Suc i)"
      by (rule iffD2 [OF chosen True])
    then have "spy_loop pg y (Suc i) s = (if activeTarget s \<noteq> t
        then (case spy_activate pg t s of (s, ok) \<Rightarrow> if ok then spy_loop pg y i s else (s, False)) else spy_loop pg y i s)"
      by (simp add: t Let_def)
    then show ?thesis
      using \<open>spy_loop pg y i ?s = (?s, True)\<close> \<open>spy_loop pg y i s = (s, True)\<close> by (cases "spy_activate pg t s") auto
  next
    case False
    then show ?thesis using chosen Suc by (auto simp: Let_def)
  qed
next
  case 0
  then show ?case using assms(4) by simp
qed

lemma refresh_sorted: "sorted (spy_offsets (spy_refresh pg s))" "length (spy_targets (spy_refresh pg s)) = length (spy_offsets (spy_refresh pg s))"
  by (simp_all add: spy_refresh_def Let_def)

end
