(* ===== verification/Bs_Nav_Properties.thy ===== *)
theory Bs_Nav_Properties
  imports Bs_Tab Bs_ScrollSpy
begin

text \<open>
  What switching between tabs and scrolling past targets marks as active, and the properties of both with an
  application to a concrete page.
\<close>

section \<open>Tabs\<close>

lemma tab_do_simps [simp]:
  "tab_has c (tab_do e f p) d = (if d = e then c \<in> set (class_list (f (tab_doc p e))) else tab_has c p d)"
  "tab_waiting (tab_do e f p) = tab_waiting p" "tab_has c (tab_event ev e p) d = tab_has c p d"
  "tab_waiting (tab_event ev e p) = tab_waiting p"
  by (simp_all add: tab_has_def tab_do_def tab_event_def)

lemma tab_finish_simps [simp]:
  "tab_has c (tab_finish k p) d = tab_has c p d" "tab_waiting (tab_finish k p) = tab_waiting p"
  by (simp_all add: tab_finish_def split: option.split prod.split)

text \<open>No drop-down menus.\<close>

definition no_menus :: "tab_env \<Rightarrow> bool" where
  "no_menus env \<longleftrightarrow> (\<forall>e. menu_beside env e = [] \<and> menu_toggles env e = None)"

lemma complete_classes:
  assumes "no_menus env"
  shows "tab_has ''active'' (transition_complete env j p) d \<longleftrightarrow>
      d = job_element j \<or> tab_has ''active'' p d \<and> job_active j \<noteq> Some d"
    and "tab_has ''fade'' (transition_complete env j p) d \<longleftrightarrow> tab_has ''fade'' p d"
    and "tab_waiting (transition_complete env j p) = tab_waiting p"
  using assms
  by (auto simp: transition_complete_def tab_deactivate_def no_menus_def Let_def tab_has_def [symmetric] split: option.split)

text \<open>Of a container exactly one element is active.\<close>

definition only_active :: "tab_env \<Rightarrow> tab_page \<Rightarrow> nat \<Rightarrow> nat \<Rightarrow> bool" where
  "only_active env p l d \<longleftrightarrow> d \<in> set (container_items env l) \<and>
     (\<forall>x \<in> set (container_items env l). tab_has ''active'' p x \<longleftrightarrow> x = d)"

lemma find_only:
  assumes "only_active env p l d"
  shows "List.find (tab_has ''active'' p) (container_items env l) = Some d"
proof (cases "List.find (tab_has ''active'' p) (container_items env l)")
  case None
  then show ?thesis using assms by (auto simp: only_active_def find_None_iff)
next
  case (Some x)
  then show ?thesis using assms by (auto simp: only_active_def find_Some_iff)
qed

text \<open>A tab, its list, its pane and the container of its pane.\<close>

definition tab_pane :: "tab_env \<Rightarrow> nat \<Rightarrow> nat \<Rightarrow> nat \<Rightarrow> nat \<Rightarrow> bool" where
  "tab_pane env e l t c \<longleftrightarrow> tab_list env e = Some l \<and> tab_target env e = Some t \<and> pane_container env t = Some c \<and>
     e \<in> set (container_items env l) \<and> t \<in> set (container_items env c) \<and>
     set (container_items env l) \<inter> set (container_items env c) = {} \<and>
     no_menus env \<and> (\<forall>p ev d. \<not> tab_prevents env p ev d)"

lemma show_tab:
  assumes "tab_pane env e l t c" "only_active env p l d" "d \<noteq> e" "only_active env p c a" "a \<noteq> t"
  obtains q where "tab_show env e p = (q, True)" "only_active env q l e"
    "\<And>x. tab_has ''fade'' q x \<longleftrightarrow> tab_has ''fade'' p x"
    "tab_has ''fade'' p a \<Longrightarrow> only_active env q c a"
    "\<not> tab_has ''fade'' p a \<Longrightarrow> only_active env q c t"
    "map (\<lambda>j. (job_element j, job_active j)) (tab_waiting q) =
      map (\<lambda>j. (job_element j, job_active j)) (tab_waiting p) @ (if tab_has ''fade'' p a then [(t, Some a)] else [])"
proof -
  have e: "\<not> tab_has ''active'' p e" "e \<notin> set (container_items env c)" "d \<notin> set (container_items env c)"
    using assms(1-3) by (auto simp: tab_pane_def only_active_def)
  have pane: "t \<in> set (container_items env c)" "t \<notin> set (container_items env l)" "a \<notin> set (container_items env l)"
    "e \<in> set (container_items env l)"
    using assms(1,4) by (auto simp: tab_pane_def only_active_def)
  define previous where "previous = tab_previous env e p"
  define p1 where "p1 = tab_event ''show'' e (case previous of None \<Rightarrow> p | Some d \<Rightarrow> tab_event ''hide'' d p)"
  have p1: "tab_has x p1 y = tab_has x p y" "tab_waiting p1 = tab_waiting p" for x y
    by (simp_all add: p1_def split: option.split)
  define p2 where "p2 = transition_complete env \<lparr>job_element = e, job_active = Some d, job_shown = None\<rparr> p1"
  have find1: "List.find (tab_has ''active'' p1) (container_items env l) = Some d"
  proof -
    have "tab_has ''active'' p1 = tab_has ''active'' p" by (rule ext) (rule p1)
    then show ?thesis using find_only [OF assms(2)] by simp
  qed
  have p2: "tab_has ''active'' p2 x \<longleftrightarrow> x = e \<or> tab_has ''active'' p x \<and> x \<noteq> d" "tab_has ''fade'' p2 x \<longleftrightarrow> tab_has ''fade'' p x"
    "tab_waiting p2 = tab_waiting p" for x
    using assms(1) p1 complete_classes [of env] by (auto simp: p2_def tab_pane_def)
  have "only_active env p2 c a"
    using assms(4) e p2(1) by (auto simp: only_active_def)
  then have find2: "List.find (tab_has ''active'' p2) (container_items env c) = Some a" by (rule find_only)
  have l: "only_active env p2 l e" using assms(2) pane(4) p2(1) by (auto simp: only_active_def)
  let ?job = "\<lparr>job_element = t, job_active = Some a, job_shown = Some (previous, e)\<rparr>"
  define q where "q = (if tab_has ''fade'' p a
    then (tab_do a (remove_class ''show'') p2)\<lparr>tab_waiting := tab_waiting p2 @ [?job]\<rparr> else transition_complete env ?job p2)"
  have "tab_activate env e (Some l) None p1 = (p2, True)"
    using find1 by (simp add: tab_activate_def p2_def Let_def)
  moreover have "tab_activate env t (Some c) (Some (previous, e)) p2 = (q, True)"
    using find2 p2(2) by (simp add: tab_activate_def q_def Let_def)
  ultimately have show_q: "tab_show env e p = (q, True)"
    using assms(1) e(1) by (simp add: tab_show_def tab_pane_def previous_def [symmetric] p1_def [symmetric] Let_def split: option.split)
  have menus: "no_menus env" using assms(1) by (simp add: tab_pane_def)
  have same: "tab_has x (r\<lparr>tab_waiting := w\<rparr>) y = tab_has x r y" for x y r w by (simp add: tab_has_def)
  have q: "tab_has ''active'' q x \<longleftrightarrow> (if tab_has ''fade'' p a then tab_has ''active'' p2 x else x = t \<or> tab_has ''active'' p2 x \<and> x \<noteq> a)"
    "tab_has ''fade'' q x \<longleftrightarrow> tab_has ''fade'' p x" for x
    using p2(2) complete_classes [OF menus] by (auto simp: q_def same tab_has_def [symmetric])
  show thesis
  proof (rule that [OF show_q])
    show "only_active env q l e" using l pane(2,3) q(1) by (auto simp: only_active_def)
    show "tab_has ''fade'' p a \<Longrightarrow> only_active env q c a" using \<open>only_active env p2 c a\<close> q(1) by (simp add: only_active_def)
    show "\<not> tab_has ''fade'' p a \<Longrightarrow> only_active env q c t"
      using \<open>only_active env p2 c a\<close> q(1) pane(1) by (auto simp: only_active_def)
    show "map (\<lambda>j. (job_element j, job_active j)) (tab_waiting q) =
      map (\<lambda>j. (job_element j, job_active j)) (tab_waiting p) @ (if tab_has ''fade'' p a then [(t, Some a)] else [])"
      using p2(3) complete_classes(3) [OF menus] by (simp add: q_def)
  qed (rule q(2))
qed

lemma one_job:
  assumes "map (\<lambda>j. (job_element j, job_active j)) ws = [(t, Some a)]"
  obtains j where "ws = [j]" "job_element j = t" "job_active j = Some a"
  using assms by (cases ws) auto

lemma end_job:
  assumes "no_menus env" "tab_waiting p = js @ j # ks" "job_element j = t" "\<forall>k \<in> set (js @ ks). job_element k \<noteq> t"
  shows "tab_has ''active'' (tab_transition_end env t p) d \<longleftrightarrow> d = t \<or> tab_has ''active'' p d \<and> job_active j \<noteq> Some d"
    and "tab_waiting (tab_transition_end env t p) = js @ ks"
proof -
  have "filter (\<lambda>k. job_element k = t) (tab_waiting p) = [j]" "filter (\<lambda>k. job_element k \<noteq> t) (tab_waiting p) = js @ ks"
    using assms(2-4) by (auto simp: filter_empty_conv filter_id_conv)
  then have eq: "tab_transition_end env t p = transition_complete env j (p\<lparr>tab_waiting := js @ ks\<rparr>)"
    by (simp add: tab_transition_end_def)
  show "tab_has ''active'' (tab_transition_end env t p) d \<longleftrightarrow> d = t \<or> tab_has ''active'' p d \<and> job_active j \<noteq> Some d"
    "tab_waiting (tab_transition_end env t p) = js @ ks"
    unfolding eq complete_classes(1,3) [OF assms(1)] using assms(3) by (simp_all add: tab_has_def)
qed

definition demo_tabs_env :: tab_env where
  "demo_tabs_env = \<lparr>in_element = (\<lambda>_. True), tab_target = (\<lambda>e. if e < 10 then Some (e + 10) else None),
     tab_list = (\<lambda>e. if e < 10 then Some 50 else None), pane_container = (\<lambda>_. Some 60),
     container_items = (\<lambda>c. if c = 50 then [2, 3, 4] else [12, 13, 14]), list_items = (\<lambda>_. [2, 3, 4]),
     menu_beside = (\<lambda>_. []), menu_toggles = (\<lambda>_. None), tab_prevents = (\<lambda>_ _ _. False)\<rparr>"

definition demo_tabs :: tab_page where
  "demo_tabs = \<lparr>tab_doc = (\<lambda>e. \<lparr>styles = [], attrs_of = [],
       class_list = (if e = 2 then [''active''] else if e = 12 then [''fade'', ''active'', ''show''] else [''fade''])\<rparr>),
     tab_waiting = [], tab_events = []\<rparr>"

lemma demo_tabs_facts:
  "tab_pane demo_tabs_env 3 50 13 60" "tab_pane demo_tabs_env 4 50 14 60"
  "only_active demo_tabs_env demo_tabs 50 2" "only_active demo_tabs_env demo_tabs 60 12"
  "tab_waiting demo_tabs = []" "tab_has ''fade'' demo_tabs 12"
  by (simp_all add: tab_pane_def only_active_def no_menus_def demo_tabs_env_def demo_tabs_def tab_has_def)

text \<open>C28: Switching from one tab to another, when nothing is under way: the call returns, and once the transition of the
  pane has ended the tab is the only active one of its list and its pane the only active one of its container.
\<close>

theorem tab_switch:
  assumes "tab_pane env e l t c" and "only_active env p l d" and "d \<noteq> e" and "only_active env p c a" and "a \<noteq> t"
    and "tab_waiting p = []"
  shows "let q = tab_transition_end env t (fst (tab_show env e p))
    in snd (tab_show env e p) \<and> only_active env q l e \<and> only_active env q c t \<and> tab_waiting q = []"
proof -
  obtain q where q: "tab_show env e p = (q, True)" "only_active env q l e"
    "tab_has ''fade'' p a \<Longrightarrow> only_active env q c a" "\<not> tab_has ''fade'' p a \<Longrightarrow> only_active env q c t"
    "map (\<lambda>j. (job_element j, job_active j)) (tab_waiting q) = (if tab_has ''fade'' p a then [(t, Some a)] else [])"
    by (rule show_tab [OF assms(1-5)]) (use assms(6) in simp)
  have pane: "t \<in> set (container_items env c)" "t \<notin> set (container_items env l)" "a \<notin> set (container_items env l)" "no_menus env"
    using assms(1,4) by (auto simp: tab_pane_def only_active_def)
  show ?thesis
  proof (cases "tab_has ''fade'' p a")
    case True
    then obtain j where j: "tab_waiting q = [] @ j # []" "job_element j = t" "job_active j = Some a"
      using q(5) by (auto elim: one_job)
    note ended = end_job [OF pane(4) j(1,2)]
    show ?thesis using q(1,2) q(3) [OF True] ended pane j(3) by (auto simp: only_active_def)
  next
    case False
    then have "tab_transition_end env t q = q" using q(5) by (simp add: tab_transition_end_def)
    then show ?thesis using q False by simp
  qed
qed

theorem tab_switch_witness:
  "only_active demo_tabs_env (tab_transition_end demo_tabs_env 13 (fst (tab_show demo_tabs_env 3 demo_tabs))) 60 13"
  using tab_switch [OF demo_tabs_facts(1,3) _ demo_tabs_facts(4) _ demo_tabs_facts(5)] by (simp add: Let_def)

text \<open>Two switches, the second before the transition of the first has ended, leave both new panes active: each
  callback takes the class from the pane that was active at the start.
\<close>

theorem tab_two_panes:
  assumes "tab_pane env e1 l t1 c" and "tab_pane env e2 l t2 c" and "e1 \<noteq> e2" and "t1 \<noteq> t2"
    and "only_active env p l d" and "d \<noteq> e1" and "only_active env p c a" and "a \<noteq> t1" and "a \<noteq> t2"
    and "tab_waiting p = []" and "tab_has ''fade'' p a"
  shows "let q = fst (tab_show env e2 (fst (tab_show env e1 p)));
      r = tab_transition_end env t2 (tab_transition_end env t1 q)
    in tab_waiting r = [] \<and> tab_has ''active'' r t1 \<and> tab_has ''active'' r t2"
proof -
  have menus: "no_menus env" using assms(1) by (simp add: tab_pane_def)
  obtain q where q: "tab_show env e1 p = (q, True)" "only_active env q l e1" "tab_has ''fade'' q a" "only_active env q c a"
    "map (\<lambda>j. (job_element j, job_active j)) (tab_waiting q) = [(t1, Some a)]"
    by (rule show_tab [OF assms(1,5,6,7,8)]) (use assms(10,11) in simp)
  obtain r where r: "tab_show env e2 q = (r, True)"
    "map (\<lambda>j. (job_element j, job_active j)) (tab_waiting r) = [(t1, Some a), (t2, Some a)]"
    by (rule show_tab [OF assms(2) q(2) assms(3) q(4) assms(9)]) (use q(3,5) in simp)
  obtain j k where jk: "tab_waiting r = [] @ j # [k]" "job_element j = t1" "job_active j = Some a" "job_element k = t2" "job_active k = Some a"
    using r(2) by (auto simp: map_eq_Cons_conv)
  have first: "tab_has ''active'' (tab_transition_end env t1 r) x \<longleftrightarrow> x = t1 \<or> tab_has ''active'' r x \<and> x \<noteq> a"
    "tab_waiting (tab_transition_end env t1 r) = [k]" for x
    using end_job [OF menus jk(1,2)] jk(3,4) assms(4) by auto
  have "tab_has ''active'' (tab_transition_end env t2 (tab_transition_end env t1 r)) x \<longleftrightarrow>
      x = t2 \<or> tab_has ''active'' (tab_transition_end env t1 r) x \<and> x \<noteq> a"
    "tab_waiting (tab_transition_end env t2 (tab_transition_end env t1 r)) = []" for x
    using end_job [OF menus, of "tab_transition_end env t1 r" "[]" k "[]" t2] first(2) jk(4,5) by auto
  then show ?thesis using q(1) r(1) first(1) assms(8) by (simp add: Let_def)
qed

theorem tab_two_panes_witness:
  "let q = fst (tab_show demo_tabs_env 4 (fst (tab_show demo_tabs_env 3 demo_tabs)))
    in tab_has ''active'' (tab_transition_end demo_tabs_env 14 (tab_transition_end demo_tabs_env 13 q)) 13"
  using tab_two_panes [OF demo_tabs_facts(1,2) _ _ demo_tabs_facts(3) _ demo_tabs_facts(4) _ _ demo_tabs_facts(5,6)]
  by (simp add: Let_def)

section \<open>Scroll spy\<close>

definition run_spy :: "spy_page list \<Rightarrow> spy \<Rightarrow> spy" where
  "run_spy pgs s = fold (\<lambda>pg s. fst (spy_process pg s)) pgs s"

definition measured :: "spy \<Rightarrow> bool" where
  "measured s \<longleftrightarrow> sorted (spy_offsets s) \<and> length (spy_targets s) = length (spy_offsets s)"

lemma measured_loop: "measured s \<Longrightarrow> measured (fst (spy_loop pg y n s))"
proof (induction n arbitrary: s)
  case (Suc i)
  have "measured (fst (spy_activate pg t s))" for t using Suc.prems by (simp add: measured_def)
  then show ?case using Suc by (auto simp: Let_def split: prod.split) (metis fst_conv)+
qed simp

lemma measured_process:
  assumes "measured s"
  shows "measured (fst (spy_process pg s))"
proof -
  have "measured (if spy_height s \<noteq> scrollHeight pg then spy_refresh pg s else s)"
    using assms refresh_sorted by (simp add: measured_def)
  then show ?thesis
    by (auto simp: spy_process_def Let_def measured_loop spy_clear_def) (simp_all add: measured_def)
qed

lemma measured_run: "measured s \<Longrightarrow> measured (run_spy pgs s)"
  unfolding run_spy_def by (rule fold_keeps) (use measured_process in auto)

definition demo_spy_page :: "int \<Rightarrow> (nat \<times> string option) list \<Rightarrow> spy_page" where
  "demo_spy_page y links = \<lparr>spy_window = True, spy_method = ''auto'', spy_offset = 10, scrollTop = y, scrollHeight = 900,
     offsetHeight = 200, spy_links = links, found = (\<lambda>t. if t = ''#a'' then Some 20 else if t = ''#b'' then Some 30 else None),
     top_offset = (\<lambda>e. 10 * int e - 100), top_position = (\<lambda>_. 0), has_size = (\<lambda>_. True),
     link_for = (\<lambda>t. if t = ''#a'' then Some 2 else if t = ''#b'' then Some 3 else None), along = (\<lambda>_. [])\<rparr>"

text \<open>C29: Processing a scroll position above the end of the page marks the last target that the position has reached,
  whatever happened before: it is the active target afterwards, or already was.
\<close>

theorem spy_finds_target:
  fixes pg :: spy_page
  assumes "s = run_spy pgs (fst (spy_new pg0))" and "s' = (if spy_height s \<noteq> scrollHeight pg then spy_refresh pg s else s)"
    and "y = scrollTop pg + spy_offset pg" and "y < spy_offset pg + scrollHeight pg - offsetHeight pg"
    and "0 < reached (spy_offsets s') y"
  shows "activeTarget (fst (spy_process pg s)) = Target (spy_targets s' ! (reached (spy_offsets s') y - 1))"
proof -
  have "measured (fst (spy_new pg0))"
    unfolding spy_new_def by (rule measured_process) (simp add: measured_def refresh_sorted)
  then have "measured s" using assms(1) measured_run by simp
  then have m: "measured s'" using assms(2) refresh_sorted by (simp add: measured_def)
  have "spy_offsets s' \<noteq> []" using assms(5) by (auto simp: reached_def)
  then have "\<not> y < spy_offsets s' ! 0"
    using sorted_reached [of "spy_offsets s'" 0 y] m assms(5) by (simp add: measured_def)
  then have "spy_process pg s = spy_loop pg y (length (spy_offsets s')) s'"
    using assms(2-4) by (simp add: spy_process_def Let_def)
  moreover have "reached (spy_offsets s') y \<le> length (spy_offsets s')" by (simp add: reached_def)
  ultimately show ?thesis
    using loop_finds [of s' "length (spy_offsets s')" y pg] m assms(5) by (simp add: measured_def)
qed

text \<open>The links are not in the order of their targets, and the page is scrolled from its end back to the first target.\<close>

theorem spy_finds_target_witness:
  "activeTarget (fst (spy_process (demo_spy_page 120 [(3, Some ''#b''), (2, Some ''#a''), (4, None)])
      (fst (spy_new (demo_spy_page 700 [(3, Some ''#b''), (2, Some ''#a''), (4, None)]))))) = Target ''#a''"
proof -
  let ?pg = "\<lambda>y. demo_spy_page y [(3, Some ''#b''), (2, Some ''#a''), (4, None)]"
  let ?s = "fst (spy_new (?pg 700))"
  have s: "spy_height ?s = 900" "spy_offsets ?s = [100, 200]" "spy_targets ?s = [''#a'', ''#b'']"
    by (simp_all add: spy_new_def spy_process_def spy_refresh_def spy_measure_def demo_spy_page_def map_filter_simps Let_def
        spy_activate_def spy_clear_def)
  show ?thesis
    using spy_finds_target [of ?s "[]" "?pg 700" ?s "?pg 120" 130] s
    by (simp add: run_spy_def reached_def) (simp add: demo_spy_page_def)
qed

text \<open>Without targets, on a page that need not be scrolled, the constructor throws: the last of no targets is undefined,
  which is not the null of the start, and there is no link for it.
\<close>

theorem spy_throws_without_targets:
  assumes "spy_links pg = []" and "scrollTop pg \<ge> scrollHeight pg - offsetHeight pg" and "link_for pg ''undefined'' = None"
  shows "\<not> snd (spy_new pg)"
  using assms by (simp add: spy_new_def spy_process_def spy_refresh_def map_filter_simps Let_def)

theorem spy_throws_without_targets_witness: "\<not> snd (spy_new (demo_spy_page 700 []))"
  by (rule spy_throws_without_targets) (simp_all add: demo_spy_page_def)

section \<open>Alerts and buttons\<close>

text \<open>Closing again during the animation changes nothing: the alert goes away once.\<close>

lemma destroy_again: "\<not> alert_registered a \<Longrightarrow> (alert_destroy ^^ n) a = a"
  by (induction n) (simp_all add: alert_destroy_def)

lemma alert_closes_once:
  assumes "alert_registered a" "alert_in_page a" "''fade'' \<in> set (class_list (alert_element a))" "alert_waiting a = 0"
    and "closed = ((alert_close False) ^^ Suc n) a"
  shows "alert_in_page closed" "\<not> alert_in_page (alert_transition_end closed)" "\<not> alert_registered (alert_transition_end closed)"
    "alert_events (alert_transition_end closed) = alert_events a @ replicate (Suc n) ''close'' @ [''closed'']"
proof -
  have c: "alert_registered closed \<and> alert_in_page closed \<and> ''fade'' \<in> set (class_list (alert_element closed)) \<and>
      alert_waiting closed = Suc n \<and> alert_events closed = alert_events a @ replicate (Suc n) ''close''"
    unfolding assms(5)
  proof (induction n)
    case 0
    then show ?case using assms(1-4) by (simp add: alert_close_def Let_def)
  next
    case (Suc n)
    then show ?case by (simp add: alert_close_def Let_def flip: replicate_append_same)
  qed
  then show "alert_in_page closed" by simp
  have "alert_transition_end closed = alert_destroy (closed\<lparr>alert_waiting := 0\<rparr>)"
    using c destroy_again [of "alert_destroy (closed\<lparr>alert_waiting := 0\<rparr>)" n]
    by (simp add: alert_transition_end_def funpow_Suc_right alert_destroy_def del: funpow.simps)
  then show "\<not> alert_in_page (alert_transition_end closed)" "\<not> alert_registered (alert_transition_end closed)"
    "alert_events (alert_transition_end closed) = alert_events a @ replicate (Suc n) ''close'' @ [''closed'']"
    using c by (simp_all add: alert_destroy_def)
qed

text \<open>After a toggle the attribute says whether the button is active.\<close>

lemma button_pressed:
  "oget (attrs_of (button_toggle el)) ''aria-pressed'' =
     Some (if ''active'' \<in> set (class_list (button_toggle el)) then ''true'' else ''false'')"
  by (simp add: button_toggle_def) (simp add: set_attribute_def)

end
