(* ===== verification/Group_Methods.thy ===== *)
theory Group_Methods
  imports Prelude
begin

text \<open>
  The methods \<open>require_from_group\<close> and \<open>skip_or_fill_minimum\<close> of \<open>additional-methods.js\<close>. They check every field
  of the group again, on a shallow copy of the validator: the copy has counters of its own and shares the maps.
  The state is the part of the page and of the validators that this touches.
\<close>

section \<open>Fields\<close>

text \<open>
  The rules of a field: a group method with the minimum and the fields that the selector finds in the form, the
  remote method, any other method with its verdict on the field.
\<close>

datatype field_rule =
    RequireFromGroup int "nat list"
  | SkipOrFill int "nat list"
  | Remote
  | Other bool

record group_form =
  filled :: "nat \<Rightarrow> bool"               \<comment> \<open>whether \<open>elementValue\<close> is truthy\<close>
  blank :: "nat \<Rightarrow> bool"                \<comment> \<open>whether \<open>optional\<close> holds\<close>
  field_rules :: "nat \<Rightarrow> field_rule list"

text \<open>
  Validators are numbered, 0 is the one of the form. A copy is kept in the data of the first field of the group
  under the name \<open>valid_req_grp\<close> or \<open>valid_skip\<close>. \<open>asked\<close> holds the members whose remote value was sent,
  which is in the data of the field; \<open>group_pending\<close> is the map that all copies share.
\<close>

record group_state =
  being_validated :: "nat \<Rightarrow> bool"
  copies :: "((string \<times> nat) \<times> nat) list"
  next_copy :: nat
  asked :: "nat list"
  group_pending :: "nat list"
  pending_count :: "nat \<Rightarrow> nat"         \<comment> \<open>\<open>pendingRequest\<close> of each validator\<close>
  shows_error :: "nat \<Rightarrow> bool"
  checked :: "(nat \<times> nat) list"         \<comment> \<open>calls of \<open>element\<close>: validator and field\<close>

section \<open>The methods\<close>

definition copy_of :: "string \<Rightarrow> nat list \<Rightarrow> group_state \<Rightarrow> nat \<times> group_state" where
  "copy_of key members s =
     (case members of
        [] \<Rightarrow> (next_copy s, s\<lparr>next_copy := next_copy s + 1\<rparr>)
      | f # _ \<Rightarrow>
          (case map_of (copies s) (key, f) of
             Some w \<Rightarrow> (w, s)
           | None \<Rightarrow> (next_copy s, s\<lparr>copies := ((key, f), next_copy s) # copies s, next_copy := next_copy s + 1\<rparr>)))"

text \<open>A copy starts with the counter of the validator that is copied.\<close>

definition take_copy :: "nat \<Rightarrow> string \<Rightarrow> nat list \<Rightarrow> group_state \<Rightarrow> nat \<times> group_state" where
  "take_copy this key members s =
     (case copy_of key members s of
        (w, s') \<Rightarrow> (w, if next_copy s' = next_copy s then s'
                     else s'\<lparr>pending_count := (pending_count s')(w := pending_count s' this)\<rparr>))"

fun group_valid :: "group_form \<Rightarrow> field_rule \<Rightarrow> bool" where
  "group_valid g (RequireFromGroup k members) = (int (length (filter (filled g) members)) \<ge> k)"
| "group_valid g (SkipOrFill k members) =
     (let numberFilled = length (filter (filled g) members) in numberFilled = 0 \<or> int numberFilled \<ge> k)"
| "group_valid g Remote = True"
| "group_valid g (Other b) = b"

definition set_marks :: "nat list \<Rightarrow> bool \<Rightarrow> group_state \<Rightarrow> group_state" where
  "set_marks members b s = s\<lparr>being_validated := (\<lambda>f. if f \<in> set members then b else being_validated s f)\<rparr>"

text \<open>What is left of the rounds of nested checks is the fuel of \<open>again\<close>; \<open>None\<close> when it is used up.\<close>

fun each_field :: "(nat \<Rightarrow> group_state \<Rightarrow> group_state option) \<Rightarrow> nat list \<Rightarrow> group_state \<Rightarrow> group_state option" where
  "each_field again [] s = Some s"
| "each_field again (f # fs) s = (case again f s of None \<Rightarrow> None | Some s \<Rightarrow> each_field again fs s)"

definition group_method ::
  "(nat \<Rightarrow> nat \<Rightarrow> group_state \<Rightarrow> group_state option) \<Rightarrow> string \<Rightarrow> nat \<Rightarrow> nat \<Rightarrow> nat list \<Rightarrow> group_state \<Rightarrow> group_state option" where
  "group_method again key this e members s =
     (case take_copy this key members s of
        (validator, s) \<Rightarrow>
          if being_validated s e then Some s
          else map_option (set_marks members False) (each_field (again validator) members (set_marks members True s)))"

text \<open>
  The remote method: a value that is optional holds, one that was sent already counts as valid until there is an answer; otherwise the request is
  counted by the validator that asks, unless the name is pending, and the loop over the rules is left.
\<close>

definition send_remote :: "nat \<Rightarrow> nat \<Rightarrow> group_state \<Rightarrow> group_state" where
  "send_remote this e s =
     (let s = s\<lparr>asked := e # asked s\<rparr>
      in if e \<in> set (group_pending s) then s
         else s\<lparr>pending_count := (pending_count s)(this := pending_count s this + 1), group_pending := e # group_pending s\<rparr>)"

fun rule_loop ::
  "(nat \<Rightarrow> nat \<Rightarrow> group_state \<Rightarrow> group_state option) \<Rightarrow> group_form \<Rightarrow> nat \<Rightarrow> nat \<Rightarrow> field_rule list \<Rightarrow> group_state \<Rightarrow>
    (bool option \<times> group_state) option" where
  "rule_loop again g this e [] s = Some (Some True, s)"
| "rule_loop again g this e (r # rs) s =
     (case r of
        Remote \<Rightarrow>
          if blank g e \<or> e \<in> set (asked s) then rule_loop again g this e rs s else Some (None, send_remote this e s)
      | Other b \<Rightarrow> if b then rule_loop again g this e rs s else Some (Some False, s)
      | RequireFromGroup k members \<Rightarrow>
          (case group_method again ''valid_req_grp'' this e members s of
             None \<Rightarrow> None
           | Some s \<Rightarrow> if group_valid g r then rule_loop again g this e rs s else Some (Some False, s))
      | SkipOrFill k members \<Rightarrow>
          (case group_method again ''valid_skip'' this e members s of
             None \<Rightarrow> None
           | Some s \<Rightarrow> if group_valid g r then rule_loop again g this e rs s else Some (Some False, s)))"

text \<open>\<open>validator.element\<close>: the check, and what the page shows of it; the label of a field that waits stays as it is.\<close>

primrec group_element :: "nat \<Rightarrow> group_form \<Rightarrow> nat \<Rightarrow> nat \<Rightarrow> group_state \<Rightarrow> group_state option" where
  "group_element 0 g this e s = None"
| "group_element (Suc n) g this e s =
     (case rule_loop (group_element n g) g this e (field_rules g e) s of
        None \<Rightarrow> None
      | Some (ok, s) \<Rightarrow> Some (s\<lparr>shows_error := (case ok of None \<Rightarrow> shows_error s | Some b \<Rightarrow> (shows_error s)(e := \<not> b)), checked := checked s @ [(this, e)]\<rparr>))"

declare group_element.simps(2) [simp del] group_valid.simps(2) [simp del]

section \<open>Fields that are marked\<close>



lemma take_copy_simps [simp]:
  "being_validated (snd (take_copy w key ms s)) = being_validated s" "asked (snd (take_copy w key ms s)) = asked s"
  "group_pending (snd (take_copy w key ms s)) = group_pending s" "shows_error (snd (take_copy w key ms s)) = shows_error s"
  "checked (snd (take_copy w key ms s)) = checked s"
  by (simp_all add: take_copy_def copy_of_def split: list.split option.split)

lemma set_marks_simps [simp]:
  "being_validated (set_marks ms b s) f = (if f \<in> set ms then b else being_validated s f)"
  "asked (set_marks ms b s) = asked s" "group_pending (set_marks ms b s) = group_pending s"
  "shows_error (set_marks ms b s) = shows_error s" "pending_count (set_marks ms b s) = pending_count s"
  "copies (set_marks ms b s) = copies s" "next_copy (set_marks ms b s) = next_copy s"
  by (simp_all add: set_marks_def)

lemma group_method_marked:
  assumes "being_validated s e"
  shows "group_method again key w e ms s = Some (snd (take_copy w key ms s))"
  using assms by (cases "take_copy w key ms s") (simp add: group_method_def, metis snd_conv take_copy_simps(1))





section \<open>Fields that are not\<close>

definition unmarked :: "group_state \<Rightarrow> bool" where
  "unmarked s \<longleftrightarrow> (\<forall>f. \<not> being_validated s f)"






section \<open>Requests\<close>

text \<open>No copy is the validator of the form; the field \<open>e\<close> was not asked without its name being pending.\<close>

definition apart :: "nat \<Rightarrow> group_state \<Rightarrow> bool" where
  "apart e s \<longleftrightarrow> 0 < next_copy s \<and> (\<forall>(key, w) \<in> set (copies s). w \<noteq> 0) \<and>
     (e \<in> set (asked s) \<longrightarrow> e \<in> set (group_pending s))"

text \<open>What a check by a copy leaves alone.\<close>

definition by_copy :: "nat \<Rightarrow> group_state \<Rightarrow> group_state \<Rightarrow> bool" where
  "by_copy e s s' \<longleftrightarrow> apart e s' \<and> being_validated s' = being_validated s \<and> pending_count s' 0 = pending_count s 0 \<and>
     (e \<in> set (asked s) \<longrightarrow> e \<in> set (asked s'))"

lemma by_copy_trans: "by_copy e s t \<Longrightarrow> by_copy e t u \<Longrightarrow> by_copy e s u"
  by (simp add: by_copy_def)

lemma take_copy_apart:
  assumes "apart e s"
  shows "fst (take_copy w key ms s) \<noteq> 0" "by_copy e s (snd (take_copy w key ms s))"
proof -
  have "map_of (copies s) k = Some v \<Longrightarrow> 0 < v" for k v
    using assms by (force simp: apart_def dest!: map_of_SomeD)
  then show "fst (take_copy w key ms s) \<noteq> 0" "by_copy e s (snd (take_copy w key ms s))"
    using assms by (auto simp: take_copy_def copy_of_def apart_def by_copy_def split: list.split option.split)
qed

lemma send_by_copy: "apart e s \<Longrightarrow> w \<noteq> 0 \<Longrightarrow> by_copy e s (send_remote w f s)"
  by (auto simp: send_remote_def by_copy_def apart_def Let_def)

lemma rule_loop_by_copy:
  assumes "apart e s" "w \<noteq> 0" "being_validated s f"
  shows "\<exists>r. rule_loop again g w f rs s = Some r \<and> by_copy e s (snd r)"
  using assms
proof (induction rs arbitrary: s)
  case Nil
  then show ?case by (simp add: by_copy_def)
next
  case (Cons r rs)
  have refl: "by_copy e s s" using Cons.prems by (simp add: by_copy_def)
  have IH: "\<exists>r. rule_loop again g w f rs t = Some r \<and> by_copy e s (snd r)" if "by_copy e s t" for t
    using Cons.IH [of t] Cons.prems that by_copy_trans [OF that] by (auto simp: by_copy_def)
  show ?case
    using IH [OF refl] refl IH [OF take_copy_apart(2) [OF Cons.prems(1)]] take_copy_apart(2) [OF Cons.prems(1)]
      send_by_copy [OF Cons.prems(1,2)] group_method_marked [OF Cons.prems(3)]
    by (cases r) auto
qed

lemma element_by_copy:
  assumes "apart e s" "w \<noteq> 0" "being_validated s f"
  shows "\<exists>s'. group_element (Suc n) g w f s = Some s' \<and> by_copy e s s'"
proof -
  obtain ok t where "rule_loop (group_element n g) g w f (field_rules g f) s = Some (ok, t)" "by_copy e s t"
    using rule_loop_by_copy [OF assms, of "group_element n g" g "field_rules g f"] by auto
  then show ?thesis by (simp add: group_element.simps(2) by_copy_def apart_def)
qed

text \<open>A field with a group method and the remote method.\<close>

definition asks :: "group_form \<Rightarrow> nat \<Rightarrow> int \<Rightarrow> nat list \<Rightarrow> bool" where
  "asks g e k ms \<longleftrightarrow> field_rules g e = [RequireFromGroup k ms, Remote] \<and> group_valid g (RequireFromGroup k ms) \<and>
     e \<in> set ms \<and> \<not> blank g e"

lemma asked_by_copy:
  assumes "asks g e k ms" "apart e s" "w \<noteq> 0" "being_validated s e" "group_element (Suc n) g w e s = Some s'"
  shows "e \<in> set (asked s')"
  using assms by (auto simp: asks_def group_element.simps(2) group_method_marked send_remote_def Let_def split: if_splits)

lemma each_by_copy:
  assumes "asks g e k ms" "apart e s" "w \<noteq> 0" "\<forall>f \<in> set fs. being_validated s f"
  shows "\<exists>s'. each_field (group_element (Suc n) g w) fs s = Some s' \<and> by_copy e s s' \<and>
      (e \<in> set fs \<longrightarrow> e \<in> set (asked s'))"
  using assms(2,4)
proof (induction fs arbitrary: s)
  case Nil
  then show ?case by (simp add: by_copy_def)
next
  case (Cons f fs)
  then obtain t where t: "group_element (Suc n) g w f s = Some t" "by_copy e s t"
    using element_by_copy [OF _ assms(3)] by (metis list.set_intros(1))
  obtain u where u: "each_field (group_element (Suc n) g w) fs t = Some u" "by_copy e t u" "e \<in> set fs \<longrightarrow> e \<in> set (asked u)"
    using Cons.IH [of t] Cons.prems t(2) by (auto simp: by_copy_def)
  have "f = e \<Longrightarrow> e \<in> set (asked u)"
    using asked_by_copy [OF assms(1) Cons.prems(1) assms(3)] Cons.prems(2) t(1) u(2) by (auto simp: by_copy_def)
  then show ?case using t u by_copy_trans [OF t(2) u(2)] by auto
qed

section \<open>Properties\<close>

definition demo_group :: group_form where
  "demo_group = \<lparr>filled = (\<lambda>f. f = 2), blank = (\<lambda>f. f \<noteq> 2),
     field_rules = (\<lambda>f. if f = 2 then [RequireFromGroup 1 [2, 3, 4], Remote]
       else if f = 3 then [RequireFromGroup 2 [2, 3, 4], Other True] else [SkipOrFill 1 [3, 4], Other False])\<rparr>"

definition demo_group_state :: "nat list \<Rightarrow> group_state" where
  "demo_group_state sent = \<lparr>being_validated = (\<lambda>_. False), copies = [], next_copy = 5, asked = sent, group_pending = [],
     pending_count = (\<lambda>_. 0), shows_error = (\<lambda>_. False), checked = []\<rparr>"



text \<open>C31: A field with \<open>require_from_group\<close> before \<open>remote\<close>: its check sends the request, but counts it with the copy,
  so that the validator of the form has no request to wait for.
\<close>

theorem group_request_uncounted:
  assumes "asks g e k ms" and "apart e s" and "unmarked s" and "e \<notin> set (asked s)" and "2 \<le> n"
  shows "\<exists>s'. group_element n g 0 e s = Some s' \<and> e \<in> set (group_pending s') \<and> pending_count s' 0 = pending_count s 0 \<and>
      \<not> shows_error s' e"
proof -
  have "n = Suc (Suc (n - 2))" using assms(5) by simp
  then obtain m where n: "n = Suc (Suc m)" by blast
  obtain v t where vt: "take_copy 0 ''valid_req_grp'' ms s = (v, t)" by fastforce
  then have t: "v \<noteq> 0" "by_copy e s t" using take_copy_apart [OF assms(2), of 0 "''valid_req_grp''" ms] by simp_all
  then have "apart e (set_marks ms True t)" "\<forall>f \<in> set ms. being_validated (set_marks ms True t) f"
    by (simp_all add: by_copy_def apart_def)
  from each_by_copy [OF assms(1) this(1) t(1) this(2), of m] obtain u where
    u: "each_field (group_element (Suc m) g v) ms (set_marks ms True t) = Some u" "by_copy e (set_marks ms True t) u" "e \<in> set (asked u)"
    using assms(1) by (auto simp: asks_def)
  have "\<not> being_validated t e" using assms(3) t(2) by (simp add: by_copy_def unmarked_def)
  then have "group_method (group_element (Suc m) g) ''valid_req_grp'' 0 e ms s = Some (set_marks ms False u)"
    using vt u(1) by (simp add: group_method_def)
  then have "rule_loop (group_element (Suc m) g) g 0 e (field_rules g e) s = Some (Some True, set_marks ms False u)"
    using assms(1) u(3) by (simp add: asks_def)
  then show ?thesis
    using u t(2) by (simp add: n group_element.simps(2) [of "Suc m"] by_copy_def apart_def)
qed

theorem group_request_uncounted_witness:
  "\<exists>s'. group_element 2 demo_group 0 2 (demo_group_state []) = Some s' \<and> 2 \<in> set (group_pending s') \<and> pending_count s' 0 = 0"
proof -
  have "asks demo_group 2 1 [2, 3, 4]" by (simp add: asks_def demo_group_def)
  moreover have "apart 2 (demo_group_state [])" "unmarked (demo_group_state [])" "asked (demo_group_state []) = []"
    "pending_count (demo_group_state []) 0 = 0"
    by (simp_all add: apart_def unmarked_def demo_group_state_def)
  ultimately show ?thesis
    using group_request_uncounted [of demo_group 2 1 "[2, 3, 4]" "demo_group_state []" 2] by auto
qed

end
