(* ===== verification/Bs_EventHandler.thy ===== *)
theory Bs_EventHandler
  imports Js_Values "HOL-Library.Sublist"
begin

text \<open>
  \<open>EventHandler\<close> of \<open>bootstrap.js\<close>: the registry of handlers beside the listeners of the elements, the keys made
  of namespaces, delegation, handlers that run once, and \<open>trigger\<close>. Elements and the functions of callers are numbers.
\<close>

section \<open>State\<close>

text \<open>A function that a caller passed; one that was wrapped for \<open>mouseenter\<close> or \<open>mouseleave\<close>, a new one at each call.\<close>

datatype callback_fn = Given nat | Wrapped nat nat

text \<open>The key of a handler: \<open>uid\<close>, or \<open>namespaces::uid\<close>.\<close>

datatype hkey = Plain nat | Tagged string nat

primrec serial :: "hkey \<Rightarrow> nat" where
  "serial (Plain n) = n"
| "serial (Tagged ns n) = n"

definition uid_text :: "nat \<Rightarrow> string" where
  "uid_text n = nat_str n"

primrec key_text :: "hkey \<Rightarrow> string" where
  "key_text (Plain n) = uid_text n"
| "key_text (Tagged ns n) = ns @ ''::'' @ uid_text n"

text \<open>Without \<open>::uid\<close>.\<close>

primrec stripped :: "hkey \<Rightarrow> string" where
  "stripped (Plain n) = uid_text n"
| "stripped (Tagged ns n) = ns"

record event_handler =
  originalHandler :: callback_fn
  delegationSelector :: "string option"
  oneOff :: bool

text \<open>
  The handlers made so far, by the number in their key; \<open>eventRegistry\<close>, by the number of the element: the keys with
  the event they are stored under, in the order of insertion; the listeners of an element: event, handler, capture.
\<close>

record event_state =
  uidEvent :: nat
  wraps :: nat
  element_uid :: "nat \<Rightarrow> nat option"
  made :: "nat \<Rightarrow> event_handler"
  eventRegistry :: "nat \<Rightarrow> (string \<times> hkey) list"
  listeners :: "nat \<Rightarrow> (string \<times> nat \<times> bool) list"
  called :: "(nat \<times> nat) list"        \<comment> \<open>function of a caller, \<open>this\<close>\<close>

section \<open>Names of events\<close>

definition nativeEvents :: "string list" where
  "nativeEvents = [''click'', ''dblclick'', ''mouseup'', ''mousedown'', ''contextmenu'', ''mousewheel'', ''DOMMouseScroll'',
     ''mouseover'', ''mouseout'', ''mousemove'', ''selectstart'', ''selectend'', ''keydown'', ''keypress'', ''keyup'',
     ''orientationchange'', ''touchstart'', ''touchmove'', ''touchend'', ''touchcancel'', ''pointerdown'', ''pointermove'',
     ''pointerup'', ''pointerleave'', ''pointercancel'', ''gesturestart'', ''gesturechange'', ''gestureend'', ''focus'',
     ''blur'', ''change'', ''reset'', ''select'', ''submit'', ''focusin'', ''focusout'', ''load'', ''unload'', ''beforeunload'',
     ''resize'', ''move'', ''DOMContentLoaded'', ''readystatechange'', ''error'', ''abort'', ''scroll'']"

definition getTypeEvent :: "string \<Rightarrow> string" where
  "getTypeEvent ev =
     (let t = takeWhile (\<lambda>c. c \<noteq> CHR ''.'') ev
      in if t = ''mouseenter'' then ''mouseover'' else if t = ''mouseleave'' then ''mouseout'' else t)"

text \<open>What is left without the match of \<open>namespaceRegex\<close>.\<close>

definition namespace_of :: "string \<Rightarrow> string" where
  "namespace_of ev = drop 1 (dropWhile (\<lambda>c. c \<noteq> CHR ''.'') ev)"

definition is_custom :: "string \<Rightarrow> bool" where
  "is_custom ev \<longleftrightarrow> prefix ''mouseenter'' (to_lower ev) \<or> prefix ''mouseleave'' (to_lower ev)"

definition normal_type :: "string \<Rightarrow> string" where
  "normal_type ev = (let t = getTypeEvent ev in if t \<in> set nativeEvents then t else ev)"

section \<open>Registering\<close>

definition getEvent :: "nat \<Rightarrow> event_state \<Rightarrow> nat \<times> event_state" where
  "getEvent e s =
     (case element_uid s e of
        Some u \<Rightarrow> (u, s)
      | None \<Rightarrow> (uidEvent s, s\<lparr>uidEvent := uidEvent s + 1, element_uid := (element_uid s)(e := Some (uidEvent s))\<rparr>))"

text \<open>The keys under an event, as \<open>Object.keys\<close> gives them: those that are numbers come first.\<close>

definition stored :: "nat \<Rightarrow> string \<Rightarrow> event_state \<Rightarrow> hkey list" where
  "stored u t s =
     (let ks = map snd (filter (\<lambda>(t', k). t' = t) (eventRegistry s u))
      in filter (\<lambda>k. k = Plain (serial k)) ks @ filter (\<lambda>k. k \<noteq> Plain (serial k)) ks)"

definition findHandler :: "event_state \<Rightarrow> hkey list \<Rightarrow> callback_fn \<Rightarrow> string option \<Rightarrow> hkey option" where
  "findHandler s ks f sel =
     List.find (\<lambda>k. originalHandler (made s (serial k)) = f \<and> delegationSelector (made s (serial k)) = sel) ks"

text \<open>A call gives a function, or a selector and a function; an empty selector is as good as none.\<close>

datatype binding = Direct nat | Delegated string nat

fun binding_parts :: "binding \<Rightarrow> nat \<times> string option" where
  "binding_parts (Direct f) = (f, None)"
| "binding_parts (Delegated sel f) = (f, if sel = [] then None else Some sel)"

definition wrap_fn :: "string \<Rightarrow> nat \<Rightarrow> event_state \<Rightarrow> callback_fn \<times> event_state" where
  "wrap_fn ev f s = (if is_custom ev then (Wrapped f (wraps s), s\<lparr>wraps := wraps s + 1\<rparr>) else (Given f, s))"

definition addHandler :: "nat \<Rightarrow> string \<Rightarrow> binding \<Rightarrow> bool \<Rightarrow> event_state \<Rightarrow> event_state" where
  "addHandler e ev b once s =
     (let (f, sel) = binding_parts b;
          (f, s) = wrap_fn ev f s;
          t = normal_type ev;
          (u, s) = getEvent e s
      in case findHandler s (stored u t s) f sel of
           Some k \<Rightarrow>
             s\<lparr>made := (made s)(serial k := (made s (serial k))\<lparr>oneOff := oneOff (made s (serial k)) \<and> once\<rparr>)\<rparr>
         | None \<Rightarrow>
             (let n = uidEvent s; ns = namespace_of ev; k = (if ns = [] then Plain n else Tagged ns n)
              in s\<lparr>uidEvent := n + 1, made := (made s)(n := \<lparr>originalHandler = f, delegationSelector = sel, oneOff = once\<rparr>),
                   eventRegistry := (eventRegistry s)(u := eventRegistry s u @ [(t, k)]),
                   listeners := (listeners s)(e := listeners s e @ [(t, n, sel \<noteq> None)])\<rparr>))"

definition eh_on :: "nat \<Rightarrow> string \<Rightarrow> binding \<Rightarrow> event_state \<Rightarrow> event_state" where
  "eh_on e ev b s = addHandler e ev b False s"

definition eh_one :: "nat \<Rightarrow> string \<Rightarrow> binding \<Rightarrow> event_state \<Rightarrow> event_state" where
  "eh_one e ev b s = addHandler e ev b True s"

section \<open>Removing\<close>

definition removeHandler :: "nat \<Rightarrow> nat \<Rightarrow> string \<Rightarrow> callback_fn \<Rightarrow> string option \<Rightarrow> event_state \<Rightarrow> event_state" where
  "removeHandler e u t f sel s =
     (case findHandler s (stored u t s) f sel of
        None \<Rightarrow> s
      | Some k \<Rightarrow>
          s\<lparr>listeners := (listeners s)(e := filter (\<lambda>l. l \<noteq> (t, serial k, sel \<noteq> None)) (listeners s e)),
            eventRegistry := (eventRegistry s)(u := filter (\<lambda>h. h \<noteq> (t, k)) (eventRegistry s u))\<rparr>)"

text \<open>The keys are those at the start; a key is removed through the function and the selector of its handler.\<close>

definition remove_keys :: "nat \<Rightarrow> nat \<Rightarrow> string \<Rightarrow> hkey list \<Rightarrow> event_state \<Rightarrow> event_state" where
  "remove_keys e u t ks s =
     fold (\<lambda>k s. removeHandler e u t (originalHandler (made s (serial k))) (delegationSelector (made s (serial k))) s) ks s"

definition removeNamespacedHandlers :: "nat \<Rightarrow> nat \<Rightarrow> string \<Rightarrow> string \<Rightarrow> event_state \<Rightarrow> event_state" where
  "removeNamespacedHandlers e u ns t s = remove_keys e u t (filter (\<lambda>k. sublist ns (key_text k)) (stored u t s)) s"

definition eh_off :: "nat \<Rightarrow> string \<Rightarrow> (callback_fn \<times> string option) option \<Rightarrow> event_state \<Rightarrow> event_state" where
  "eh_off e ev h s =
     (let t = normal_type ev;
          inNamespace = t \<noteq> ev;
          (u, s) = getEvent e s
      in case h of
           Some (f, sel) \<Rightarrow> removeHandler e u t f sel s
         | None \<Rightarrow>
             (let s = (if ev \<noteq> [] \<and> hd ev = CHR ''.''
                       then fold (removeNamespacedHandlers e u (tl ev)) (remdups (map fst (eventRegistry s u))) s else s)
              in remove_keys e u t (filter (\<lambda>k. \<not> inNamespace \<or> sublist (stripped k) ev) (stored u t s)) s))"

section \<open>Events\<close>

text \<open>
  An event that reaches an element: its type, the nodes from its target up to the element (which is not among them),
  \<open>relatedTarget\<close>, what a selector finds below the element, and what a node contains.
\<close>

record dom_event =
  event_type :: string
  event_path :: "nat list"
  relatedTarget :: "nat option"
  selected :: "string \<Rightarrow> nat list"
  node_contains :: "nat \<Rightarrow> nat \<Rightarrow> bool"

definition call_fn :: "dom_event \<Rightarrow> callback_fn \<Rightarrow> nat \<Rightarrow> event_state \<Rightarrow> event_state" where
  "call_fn d f target s =
     (case f of
        Given g \<Rightarrow> s\<lparr>called := called s @ [(g, target)]\<rparr>
      | Wrapped g _ \<Rightarrow>
          (case relatedTarget d of
             None \<Rightarrow> s\<lparr>called := called s @ [(g, target)]\<rparr>
           | Some r \<Rightarrow> if r \<noteq> target \<and> \<not> node_contains d target r then s\<lparr>called := called s @ [(g, target)]\<rparr> else s))"

text \<open>\<open>bootstrapHandler\<close> and \<open>bootstrapDelegationHandler\<close>: the element the function is called on, if it is.\<close>

definition handler_target :: "dom_event \<Rightarrow> nat \<Rightarrow> event_handler \<Rightarrow> nat option" where
  "handler_target d e h =
     (case delegationSelector h of
        None \<Rightarrow> Some e
      | Some sel \<Rightarrow> List.find (\<lambda>x. x \<in> set (selected d sel)) (event_path d))"

definition run_handler :: "dom_event \<Rightarrow> nat \<Rightarrow> nat \<Rightarrow> event_state \<Rightarrow> event_state" where
  "run_handler d e n s =
     (let h = made s n in
      case handler_target d e h of
        None \<Rightarrow> s
      | Some target \<Rightarrow>
          (let s = (if oneOff h then eh_off e (event_type d) (Some (originalHandler h, delegationSelector h)) s else s)
           in call_fn d (originalHandler h) target s))"

text \<open>
  The listeners of an element, those that capture first. One that was taken off meanwhile is not called.
\<close>

definition dispatch_on :: "dom_event \<Rightarrow> nat \<Rightarrow> event_state \<Rightarrow> event_state" where
  "dispatch_on d e s =
     (let ls = filter (\<lambda>(t, n, c). t = event_type d) (listeners s e)
      in fold (\<lambda>l s. if l \<in> set (listeners s e) then run_handler d e (fst (snd l)) s else s)
           (filter (\<lambda>(t, n, c). c) ls @ filter (\<lambda>(t, n, c). \<not> c) ls) s)"

section \<open>Triggering\<close>

text \<open>
  What jQuery made of the event when it is loaded: propagation stopped, at once too, default prevented; the event
  that \<open>trigger\<close> gives back.
\<close>

record jquery_outcome =
  isPropagationStopped :: bool
  isImmediatePropagationStopped :: bool
  isDefaultPrevented :: bool

record trigger_result =
  evt_name :: string
  evt_bubbles :: bool
  evt_dispatched :: bool
  evt_prevented :: bool
  jquery_prevented :: "bool option"

definition eh_trigger :: "jquery_outcome option \<Rightarrow> (bool \<Rightarrow> bool) \<Rightarrow> string \<Rightarrow> trigger_result" where
  "eh_trigger jquery native_prevents ev =
     (let typeEvent = getTypeEvent ev;
          inNamespace = ev \<noteq> typeEvent;
          isNative = typeEvent \<in> set nativeEvents;
          used = (if inNamespace then jquery else None);
          bubbles = (case used of None \<Rightarrow> True | Some j \<Rightarrow> \<not> isPropagationStopped j);
          nativeDispatch = (case used of None \<Rightarrow> True | Some j \<Rightarrow> \<not> isImmediatePropagationStopped j);
          defaultPrevented = (case used of None \<Rightarrow> False | Some j \<Rightarrow> isDefaultPrevented j);
          prevented = defaultPrevented \<or> nativeDispatch \<and> native_prevents bubbles
      in \<lparr>evt_name = (if isNative then typeEvent else ev), evt_bubbles = bubbles, evt_dispatched = nativeDispatch,
          evt_prevented = prevented,
          jquery_prevented = (case used of None \<Rightarrow> None | Some j \<Rightarrow> Some (isDefaultPrevented j \<or> prevented))\<rparr>)"

end
