(* ===== verification/Bs_EventHandler_Proofs.thy ===== *)
theory Bs_EventHandler_Proofs
  imports Bs_EventHandler
begin

text \<open>
  The registry of \<open>EventHandler\<close> agrees with the listeners of the elements in every reachable state; removing is
  filtering.
\<close>

section \<open>The invariant\<close>

definition listening :: "event_state \<Rightarrow> string \<times> hkey \<Rightarrow> string \<times> nat \<times> bool" where
  "listening s h = (fst h, serial (snd h), delegationSelector (made s (serial (snd h))) \<noteq> None)"

definition signature :: "event_state \<Rightarrow> string \<times> hkey \<Rightarrow> string \<times> callback_fn \<times> string option" where
  "signature s h = (fst h, originalHandler (made s (serial (snd h))), delegationSelector (made s (serial (snd h))))"

definition handlers_at :: "event_state \<Rightarrow> nat \<Rightarrow> (string \<times> hkey) list" where
  "handlers_at s e = (case element_uid s e of None \<Rightarrow> [] | Some u \<Rightarrow> eventRegistry s u)"

text \<open>
  The listeners of an element are those of its handlers, in the same order; no function is registered twice for the
  same event and selector; numbers and wrapped functions were given out before.
\<close>

definition well_kept :: "event_state \<Rightarrow> bool" where
  "well_kept s \<longleftrightarrow>
     (\<forall>e. listeners s e = map (listening s) (handlers_at s e)) \<and>
     (\<forall>u. distinct (map (signature s) (eventRegistry s u)) \<and> distinct (map (serial \<circ> snd) (eventRegistry s u))) \<and>
     (\<forall>u h. h \<in> set (eventRegistry s u) \<longrightarrow> serial (snd h) < uidEvent s \<and>
        (\<forall>g w. originalHandler (made s (serial (snd h))) = Wrapped g w \<longrightarrow> w < wraps s)) \<and>
     (\<forall>u. (\<forall>e. element_uid s e \<noteq> Some u) \<longrightarrow> eventRegistry s u = []) \<and>
     (\<forall>e u. element_uid s e = Some u \<longrightarrow> u < uidEvent s \<and> (\<forall>e'. element_uid s e' = Some u \<longrightarrow> e' = e))"

lemma well_keptD:
  assumes "well_kept s"
  shows "listeners s e = map (listening s) (handlers_at s e)"
    and "distinct (map (signature s) (eventRegistry s u))" "distinct (map (serial \<circ> snd) (eventRegistry s u))"
    and "h \<in> set (eventRegistry s u) \<Longrightarrow> serial (snd h) < uidEvent s"
    and "h \<in> set (eventRegistry s u) \<Longrightarrow> originalHandler (made s (serial (snd h))) = Wrapped g w \<Longrightarrow> w < wraps s"
    and "(\<And>e. element_uid s e \<noteq> Some u) \<Longrightarrow> eventRegistry s u = []"
    and "element_uid s e = Some u \<Longrightarrow> u < uidEvent s"
    and "element_uid s e = Some u \<Longrightarrow> element_uid s e' = Some u \<Longrightarrow> e' = e"
  using assms unfolding well_kept_def by blast+

lemma signature_eqD:
  assumes "well_kept s" "h \<in> set (eventRegistry s u)" "h' \<in> set (eventRegistry s u)" "signature s h = signature s h'"
  shows "h = h'"
  using assms(2-4) well_keptD(2) [OF assms(1), of u] by (auto simp: distinct_map inj_on_def)

lemma serial_eqD:
  assumes "well_kept s" "h \<in> set (eventRegistry s u)" "h' \<in> set (eventRegistry s u)" "serial (snd h) = serial (snd h')"
  shows "h = h'"
  using assms(2-4) well_keptD(3) [OF assms(1), of u] by (auto simp: distinct_map inj_on_def)

lemma getEvent_keeps:
  assumes "well_kept s" "getEvent e s = (u, s')"
  shows "well_kept s'" "element_uid s' e = Some u" "eventRegistry s' = eventRegistry s" "listeners s' = listeners s"
    "made s' = made s" "called s' = called s" "wraps s' = wraps s" "eventRegistry s u = handlers_at s e"
    "handlers_at s' = handlers_at s"
proof -
  have new: "eventRegistry s (uidEvent s) = []"
    by (rule well_keptD(6) [OF assms(1)]) (use well_keptD(7) [OF assms(1)] in fastforce)
  have "handlers_at s' = handlers_at s \<and> element_uid s' e = Some u \<and> eventRegistry s' = eventRegistry s \<and> listeners s' = listeners s
      \<and> made s' = made s \<and> called s' = called s \<and> wraps s' = wraps s \<and> eventRegistry s u = handlers_at s e"
  proof (cases "element_uid s e")
    case None
    then have s': "u = uidEvent s" "s' = s\<lparr>uidEvent := uidEvent s + 1, element_uid := (element_uid s)(e := Some (uidEvent s))\<rparr>"
      using assms(2) by (auto simp: getEvent_def)
    have "handlers_at s' x = handlers_at s x" for x
      using None new by (simp add: handlers_at_def s'(2) split: option.split)
    then show ?thesis using None new by (simp add: s' fun_eq_iff) (simp add: handlers_at_def)
  next
    case (Some u')
    then show ?thesis using assms(2) by (auto simp: getEvent_def handlers_at_def)
  qed
  then show "element_uid s' e = Some u" "eventRegistry s' = eventRegistry s" "listeners s' = listeners s" "made s' = made s"
    "called s' = called s" "wraps s' = wraps s" "eventRegistry s u = handlers_at s e" and same: "handlers_at s' = handlers_at s"
    by simp_all
  have old: "element_uid s x \<noteq> Some (uidEvent s)" for x using well_keptD(7) [OF assms(1), of x "uidEvent s"] by auto
  show "well_kept s'"
  proof (cases "element_uid s e")
    case None
    then have s': "s' = s\<lparr>uidEvent := uidEvent s + 1, element_uid := (element_uid s)(e := Some (uidEvent s))\<rparr>"
      using assms(2) by (auto simp only: getEvent_def option.case prod.inject)
    have maps: "listening s' = listening s" "signature s' = signature s" "listeners s' = listeners s"
      "eventRegistry s' = eventRegistry s" "wraps s' = wraps s" "made s' = made s" "uidEvent s' = Suc (uidEvent s)"
      "element_uid s' = (element_uid s)(e := Some (uidEvent s))"
      by (simp_all add: s' listening_def signature_def fun_eq_iff)
    note D = well_keptD [OF assms(1)]
    show ?thesis
      unfolding well_kept_def same maps
    proof (intro conjI allI impI)
      fix v
      assume free: "\<forall>x. ((element_uid s)(e := Some (uidEvent s))) x \<noteq> Some v"
      then have "element_uid s x \<noteq> Some v" for x using None by (cases "x = e") (auto split: if_splits)
      then show "eventRegistry s v = []" by (rule D(6))
    qed (use D old None in \<open>auto simp: less_SucI split: if_splits\<close>)
  next
    case (Some u')
    then show ?thesis using assms by (simp add: getEvent_def)
  qed
qed

section \<open>Removing is filtering\<close>

definition drop_handlers :: "nat \<Rightarrow> nat \<Rightarrow> (string \<times> hkey \<Rightarrow> bool) \<Rightarrow> event_state \<Rightarrow> event_state" where
  "drop_handlers e u P s =
     s\<lparr>listeners := (listeners s)(e := map (listening s) (filter (\<lambda>h. \<not> P h) (eventRegistry s u))),
       eventRegistry := (eventRegistry s)(u := filter (\<lambda>h. \<not> P h) (eventRegistry s u))\<rparr>"

lemma drop_simps [simp]:
  "element_uid (drop_handlers e u P s) = element_uid s" "made (drop_handlers e u P s) = made s"
  "called (drop_handlers e u P s) = called s" "uidEvent (drop_handlers e u P s) = uidEvent s" "wraps (drop_handlers e u P s) = wraps s"
  "eventRegistry (drop_handlers e u P s) u = filter (\<lambda>h. \<not> P h) (eventRegistry s u)"
  "listeners (drop_handlers e u P s) e = map (listening s) (filter (\<lambda>h. \<not> P h) (eventRegistry s u))"
  "listening (drop_handlers e u P s) = listening s" "signature (drop_handlers e u P s) = signature s"
  by (simp_all add: drop_handlers_def listening_def signature_def fun_eq_iff)

lemma drop_drop [simp]: "drop_handlers e u P (drop_handlers e u Q s) = drop_handlers e u (\<lambda>h. P h \<or> Q h) s"
  unfolding drop_handlers_def [of e u P] by (simp, simp add: drop_handlers_def conj_commute)

lemma drop_cong: "(\<And>h. h \<in> set (eventRegistry s u) \<Longrightarrow> P h = Q h) \<Longrightarrow> drop_handlers e u P s = drop_handlers e u Q s"
  by (simp add: drop_handlers_def cong: filter_cong)

lemma drop_well_kept:
  assumes "well_kept s" "element_uid s e = Some u"
  shows "well_kept (drop_handlers e u P s)"
proof -
  have handlers: "handlers_at (drop_handlers e u P s) x = (if x = e then filter (\<lambda>h. \<not> P h) (eventRegistry s u) else handlers_at s x)" for x
  proof (cases "element_uid s x")
    case (Some v)
    moreover have "x \<noteq> e \<Longrightarrow> v \<noteq> u" using well_keptD(8) [OF assms(1)] assms(2) Some by blast
    ultimately show ?thesis using assms(2) by (auto simp: handlers_at_def drop_handlers_def)
  next
    case None
    then show ?thesis using assms(2) by (auto simp: handlers_at_def)
  qed
  have kept: "distinct (map (signature s) (filter (\<lambda>h. \<not> P h) (eventRegistry s u)))"
    "distinct (map (serial \<circ> snd) (filter (\<lambda>h. \<not> P h) (eventRegistry s u)))"
    using well_keptD(2,3) [OF assms(1), of u] by (auto intro: distinct_map_filter simp del: map_map)
  show ?thesis
    using assms kept unfolding well_kept_def drop_simps handlers
    by (auto simp: drop_handlers_def)
qed

lemma stored_set: "set (stored u t s) = {k. (t, k) \<in> set (eventRegistry s u)}"
proof -
  have "set (map snd (filter (\<lambda>(t', k). t' = t) (eventRegistry s u))) = {k. (t, k) \<in> set (eventRegistry s u)}" by force
  then show ?thesis unfolding stored_def Let_def by auto
qed

lemma stored_distinct:
  assumes "well_kept s"
  shows "distinct (stored u t s)"
proof -
  have "distinct (map snd (filter (\<lambda>(t', k). t' = t) (eventRegistry s u)))"
    using distinct_map_filter [OF well_keptD(3) [OF assms, of u], of "\<lambda>(t', k). t' = t"]
    by (auto simp: distinct_map inj_on_def)
  then show ?thesis by (auto simp: stored_def Let_def)
qed

lemma findHandler_Some:
  "findHandler s (stored u t s) f sel = Some k \<Longrightarrow> (t, k) \<in> set (eventRegistry s u) \<and> signature s (t, k) = (t, f, sel)"
  using nth_mem [of _ "stored u t s"] by (force simp: findHandler_def find_Some_iff signature_def stored_set)

lemma findHandler_None:
  "findHandler s (stored u t s) f sel = None \<longleftrightarrow> (t, f, sel) \<notin> signature s ` set (eventRegistry s u)"
  by (auto simp: findHandler_def find_None_iff signature_def stored_set image_iff)

lemma removeHandler_drop:
  assumes "well_kept s" "element_uid s e = Some u"
  shows "removeHandler e u t f sel s = drop_handlers e u (\<lambda>h. signature s h = (t, f, sel)) s"
proof (cases "findHandler s (stored u t s) f sel")
  case None
  then have "filter (\<lambda>h. signature s h \<noteq> (t, f, sel)) (eventRegistry s u) = eventRegistry s u"
    by (auto simp: findHandler_None image_iff filter_id_conv)
  then show ?thesis
    using None well_keptD(1) [OF assms(1), of e] assms(2)
    by (simp add: removeHandler_def drop_handlers_def handlers_at_def fun_upd_idem)
next
  case (Some k)
  note k = findHandler_Some [OF Some]
  have same: "h = (t, k) \<longleftrightarrow> signature s h = (t, f, sel)" if "h \<in> set (eventRegistry s u)" for h
    using k signature_eqD [OF assms(1) that, of "(t, k)"] by auto
  have "listening s h = (t, serial k, sel \<noteq> None) \<longleftrightarrow> h = (t, k)" if "h \<in> set (eventRegistry s u)" for h
    using k serial_eqD [OF assms(1) that, of "(t, k)"] by (auto simp: listening_def signature_def)
  then have "filter (\<lambda>l. l \<noteq> (t, serial k, sel \<noteq> None)) (listeners s e) =
      map (listening s) (filter (\<lambda>h. h \<noteq> (t, k)) (eventRegistry s u))"
    using well_keptD(1) [OF assms(1), of e] assms(2) by (simp add: handlers_at_def filter_map cong: filter_cong)
  then show ?thesis
    using Some same by (simp add: removeHandler_def drop_handlers_def cong: filter_cong)
qed

lemma remove_keys_drop:
  assumes "well_kept s" "element_uid s e = Some u" "distinct ks" "\<forall>k \<in> set ks. (t, k) \<in> set (eventRegistry s u)"
  shows "remove_keys e u t ks s = drop_handlers e u (\<lambda>(t', k). t' = t \<and> k \<in> set ks) s"
  using assms
proof (induction ks arbitrary: s)
  case Nil
  then have "drop_handlers e u (\<lambda>h. False) s = s"
    using well_keptD(1) [OF Nil(1), of e] by (simp add: drop_handlers_def handlers_at_def fun_upd_idem)
  then show ?case by (simp add: remove_keys_def)
next
  case (Cons k ks)
  let ?f = "originalHandler (made s (serial k))" and ?sel = "delegationSelector (made s (serial k))"
  have k: "signature s (t, k) = (t, ?f, ?sel)" by (simp add: signature_def)
  have first: "removeHandler e u t ?f ?sel s = drop_handlers e u (\<lambda>h. h = (t, k)) s"
    unfolding removeHandler_drop [OF Cons.prems(1,2)]
    by (rule drop_cong) (use signature_eqD [OF Cons.prems(1), of _ u "(t, k)"] k Cons.prems(4) in auto)
  let ?s = "drop_handlers e u (\<lambda>h. h = (t, k)) s"
  have "remove_keys e u t ks ?s = drop_handlers e u (\<lambda>(t', k). t' = t \<and> k \<in> set ks) ?s"
    by (rule Cons.IH) (use Cons.prems drop_well_kept [OF Cons.prems(1,2)] in auto)
  also have "\<dots> = drop_handlers e u (\<lambda>(t', k'). t' = t \<and> k' \<in> set (k # ks)) s"
    by (simp, rule drop_cong) auto
  finally show ?case using first by (simp add: remove_keys_def)
qed

lemma removeNamespaced_drop:
  assumes "well_kept s" "element_uid s e = Some u"
  shows "removeNamespacedHandlers e u ns t s = drop_handlers e u (\<lambda>(t', k). t' = t \<and> sublist ns (key_text k)) s"
  unfolding removeNamespacedHandlers_def
  using assms by (subst remove_keys_drop) (auto simp: stored_distinct stored_set intro!: drop_cong)

lemma all_namespaced_drop:
  assumes "well_kept s" "element_uid s e = Some u"
  shows "fold (removeNamespacedHandlers e u ns) ts s = drop_handlers e u (\<lambda>(t, k). t \<in> set ts \<and> sublist ns (key_text k)) s"
  using assms
proof (induction ts arbitrary: s)
  case Nil
  then show ?case
    using well_keptD(1) [OF Nil(1), of e] by (simp add: drop_handlers_def handlers_at_def fun_upd_idem split_beta)
next
  case (Cons t ts)
  then show ?case
    by (simp add: removeNamespaced_drop drop_well_kept) (auto intro!: drop_cong)
qed

text \<open>What \<open>off\<close> without a function takes.\<close>

definition taken :: "string \<Rightarrow> string \<times> hkey \<Rightarrow> bool" where
  "taken ev h \<longleftrightarrow> ev \<noteq> [] \<and> hd ev = CHR ''.'' \<and> sublist (tl ev) (key_text (snd h)) \<or>
     fst h = normal_type ev \<and> (normal_type ev = ev \<or> sublist (stripped (snd h)) ev)"

lemma off_drops:
  assumes "well_kept s" "getEvent e s = (u, s')"
  shows "eh_off e ev None s = drop_handlers e u (taken ev) s'"
    and "eh_off e ev (Some (f, sel)) s = drop_handlers e u (\<lambda>h. signature s h = (normal_type ev, f, sel)) s'"
proof -
  note s' = getEvent_keeps(1,2) [OF assms]
  have sig: "signature s' = signature s" using getEvent_keeps(5) [OF assms] by (simp add: signature_def fun_eq_iff)
  let ?P = "\<lambda>h. ev \<noteq> [] \<and> hd ev = CHR ''.'' \<and> sublist (tl ev) (key_text (snd h))"
  define t where "t = (if ev \<noteq> [] \<and> hd ev = CHR ''.''
    then fold (removeNamespacedHandlers e u (tl ev)) (remdups (map fst (eventRegistry s' u))) s' else s')"
  have t: "t = drop_handlers e u ?P s'"
  proof (cases "ev \<noteq> [] \<and> hd ev = CHR ''.''")
    case True
    then show ?thesis unfolding t_def using all_namespaced_drop [OF s'] by (force intro!: drop_cong)
  next
    case False
    then have "drop_handlers e u ?P s' = s'"
      using well_keptD(1) [OF s'(1), of e] s'(2) by (auto simp: drop_handlers_def handlers_at_def fun_upd_idem)
    then show ?thesis unfolding t_def using False by auto
  qed
  have kept: "well_kept t" "element_uid t e = Some u" using t drop_well_kept [OF s'] s'(2) by simp_all
  have "eh_off e ev None s = remove_keys e u (normal_type ev)
      (filter (\<lambda>k. \<not> (normal_type ev \<noteq> ev) \<or> sublist (stripped k) ev) (stored u (normal_type ev) t)) t"
    by (simp only: eh_off_def Let_def t_def assms(2) prod.case option.case)
  also have "\<dots> = drop_handlers e u (taken ev) s'"
    using kept by (subst remove_keys_drop) (auto simp: stored_distinct stored_set t taken_def intro!: drop_cong)
  finally show "eh_off e ev None s = drop_handlers e u (taken ev) s'" .
  show "eh_off e ev (Some (f, sel)) s = drop_handlers e u (\<lambda>h. signature s h = (normal_type ev, f, sel)) s'"
    using assms(2) removeHandler_drop [OF s'] sig by (simp add: eh_off_def Let_def)
qed

lemma off_well_kept: "well_kept s \<Longrightarrow> well_kept (eh_off e ev h s)"
  using off_drops [of s e _ _ ev] getEvent_keeps(1,2) [of s e] drop_well_kept
  by (cases "getEvent e s"; cases h) (auto simp: split_paired_all)

section \<open>Registering keeps the invariant\<close>

lemma wrap_fn_keeps:
  assumes "well_kept s" "wrap_fn ev f s = (g, s')"
  shows "well_kept s'" "\<And>h w. g = Wrapped h w \<Longrightarrow> w < wraps s'" "listeners s' = listeners s" "called s' = called s"
    "is_custom ev \<Longrightarrow> g = Wrapped f (wraps s)" "\<not> is_custom ev \<Longrightarrow> g = Given f"
proof -
  have s': "s' = s \<or> s' = s\<lparr>wraps := wraps s + 1\<rparr>" using assms(2) by (auto simp: wrap_fn_def split: if_splits)
  have "handlers_at (s\<lparr>wraps := n\<rparr>) = handlers_at s" for n
    by (auto simp: handlers_at_def fun_eq_iff split: option.split)
  then show "well_kept s'"
    using assms(1) s' by (auto simp: well_kept_def listening_def [abs_def] signature_def [abs_def] less_SucI)
qed (use assms(2) in \<open>auto simp: wrap_fn_def split: if_splits\<close>)

lemma once_keeps:
  assumes "well_kept s"
  shows "well_kept (s\<lparr>made := (made s)(n := (made s n)\<lparr>oneOff := b\<rparr>)\<rparr>)"
proof -
  let ?s = "s\<lparr>made := (made s)(n := (made s n)\<lparr>oneOff := b\<rparr>)\<rparr>"
  have "listening ?s = listening s" "signature ?s = signature s" "handlers_at ?s = handlers_at s"
    by (auto simp: listening_def signature_def handlers_at_def fun_eq_iff split: option.split)
  then show ?thesis using assms by (simp add: well_kept_def)
qed

lemma insert_keeps:
  assumes "well_kept s" "element_uid s e = Some u" "(t, f, sel) \<notin> signature s ` set (eventRegistry s u)"
    "\<forall>g w. f = Wrapped g w \<longrightarrow> w < wraps s" "serial k = uidEvent s"
    "s' = s\<lparr>uidEvent := uidEvent s + 1,
      made := (made s)(uidEvent s := \<lparr>originalHandler = f, delegationSelector = sel, oneOff = once\<rparr>),
      eventRegistry := (eventRegistry s)(u := eventRegistry s u @ [(t, k)]),
      listeners := (listeners s)(e := listeners s e @ [(t, uidEvent s, sel \<noteq> None)])\<rparr>"
  shows "well_kept s'"
proof -
  have s': "uidEvent s' = Suc (uidEvent s)" "wraps s' = wraps s" "element_uid s' = element_uid s"
    "made s' = (made s)(uidEvent s := \<lparr>originalHandler = f, delegationSelector = sel, oneOff = once\<rparr>)"
    "\<And>v. eventRegistry s' v = (if v = u then eventRegistry s u @ [(t, k)] else eventRegistry s v)"
    "\<And>x. listeners s' x = (if x = e then listeners s e @ [(t, uidEvent s, sel \<noteq> None)] else listeners s x)"
    by (simp_all add: assms(6))
  note D = well_keptD [OF assms(1)]
  have other: "e' \<noteq> e \<Longrightarrow> element_uid s e' \<noteq> Some u" for e' using D(8) [OF assms(2)] by blast
  have old: "listening s' h = listening s h" "signature s' h = signature s h" "serial (snd h) \<noteq> uidEvent s"
    if "h \<in> set (eventRegistry s v)" for h v
    using D(4) [OF that] by (auto simp: listening_def signature_def s'(4))
  have new: "listening s' (t, k) = (t, uidEvent s, sel \<noteq> None)" "signature s' (t, k) = (t, f, sel)"
    by (simp_all add: listening_def signature_def assms(5) s'(4))
  have handlers: "handlers_at s' x = (if x = e then handlers_at s e @ [(t, k)] else handlers_at s x)" for x
    using assms(2) other [of x] by (auto simp: handlers_at_def s'(3,5) split: option.split)
  have in_reg: "h \<in> set (handlers_at s x) \<Longrightarrow> \<exists>v. h \<in> set (eventRegistry s v)" for h x
    by (auto simp: handlers_at_def split: option.splits)
  have maps: "map (signature s') (eventRegistry s v) = map (signature s) (eventRegistry s v)"
    "map (listening s') (handlers_at s x) = map (listening s) (handlers_at s x)" for v x
    by (intro map_cong refl; use old(1,2) in_reg in blast)+
  show ?thesis
    unfolding well_kept_def handlers s'(5)
  proof (intro conjI allI impI)
    fix x
    show "listeners s' x = map (listening s') (if x = e then handlers_at s e @ [(t, k)] else handlers_at s x)"
      using D(1) maps(2) new(1) by (simp add: s'(6))
  next
    fix v
    show "distinct (map (signature s') (if v = u then eventRegistry s u @ [(t, k)] else eventRegistry s v))"
      using D(2) assms(3) new(2) by (simp add: maps(1))
    show "distinct (map (serial \<circ> snd) (if v = u then eventRegistry s u @ [(t, k)] else eventRegistry s v))"
      using D(3) assms(5) by (auto simp: image_iff dest: old(3))
  next
    fix v assume "\<forall>x. element_uid s' x \<noteq> Some v"
    then show "(if v = u then eventRegistry s u @ [(t, k)] else eventRegistry s v) = []"
      using D(6) [of v] assms(2) by (auto simp: s'(3))
  next
    fix x v x'
    assume x: "element_uid s' x = Some v"
    then show "v < uidEvent s'" using D(7) [of x v] by (simp add: s'(1,3))
    assume "element_uid s' x' = Some v"
    then show "x' = x" using D(8) [of x v x'] x by (simp add: s'(3))
  next
    fix v h
    assume h: "h \<in> set (if v = u then eventRegistry s u @ [(t, k)] else eventRegistry s v)"
    show "serial (snd h) < uidEvent s'"
      using h D(4) [of h] assms(5) by (auto simp: less_SucI s'(1) split: if_splits)
    fix g w assume "originalHandler (made s' (serial (snd h))) = Wrapped g w"
    then show "w < wraps s'"
      using h D(5) [of h _ g w] assms(4,5) old(3) [of h] by (auto simp: s'(2,4) split: if_splits)
  qed
qed

lemma addHandler_well_kept:
  assumes "well_kept s"
  shows "well_kept (addHandler e ev b once s)"
proof -
  obtain f sel where b: "binding_parts b = (f, sel)" by fastforce
  obtain g s1 where g: "wrap_fn ev f s = (g, s1)" by fastforce
  obtain u s2 where u: "getEvent e s1 = (u, s2)" by fastforce
  note s1 = wrap_fn_keeps [OF assms g]
  note s2 = getEvent_keeps [OF s1(1) u]
  show ?thesis
  proof (cases "findHandler s2 (stored u (normal_type ev) s2) g sel")
    case (Some k)
    then show ?thesis using b g u once_keeps [OF s2(1)] by (simp add: addHandler_def Let_def)
  next
    case None
    then have fresh: "(normal_type ev, g, sel) \<notin> signature s2 ` set (eventRegistry s2 u)" by (simp add: findHandler_None)
    have "\<forall>h w. g = Wrapped h w \<longrightarrow> w < wraps s2" using s1(2) s2(7) by simp
    note insert_keeps [OF s2(1,2) fresh this,
        where k = "if namespace_of ev = [] then Plain (uidEvent s2) else Tagged (namespace_of ev) (uidEvent s2)" and once = once, OF _ refl]
    then show ?thesis using None b g u by (simp add: addHandler_def Let_def)
  qed
qed

section \<open>Dispatching\<close>

lemma call_fn_keeps [simp]:
  "element_uid (call_fn d f x s) = element_uid s" "made (call_fn d f x s) = made s" "listeners (call_fn d f x s) = listeners s"
  "eventRegistry (call_fn d f x s) = eventRegistry s" "well_kept (call_fn d f x s) = well_kept s"
  by (auto simp: call_fn_def well_kept_def listening_def [abs_def] signature_def [abs_def] handlers_at_def [abs_def]
      split: callback_fn.split option.split)

text \<open>The call that a listener makes for an event, and whether it takes itself off.\<close>

definition calls_of :: "dom_event \<Rightarrow> nat \<Rightarrow> event_state \<Rightarrow> nat \<Rightarrow> (nat \<times> nat) list" where
  "calls_of d e s n =
     (case handler_target d e (made s n) of
        None \<Rightarrow> []
      | Some x \<Rightarrow>
          (case originalHandler (made s n) of
             Given g \<Rightarrow> [(g, x)]
           | Wrapped g _ \<Rightarrow>
               (case relatedTarget d of None \<Rightarrow> [(g, x)] | Some r \<Rightarrow> if r \<noteq> x \<and> \<not> node_contains d x r then [(g, x)] else [])))"

definition spent :: "dom_event \<Rightarrow> nat \<Rightarrow> event_state \<Rightarrow> nat \<Rightarrow> bool" where
  "spent d e s n \<longleftrightarrow> oneOff (made s n) \<and> handler_target d e (made s n) \<noteq> None"

lemma run_handler_well_kept: "well_kept s \<Longrightarrow> well_kept (run_handler d e n s)"
  by (auto simp: run_handler_def Let_def off_well_kept split: option.split)

lemma run_handler_effect:
  assumes "well_kept s" "element_uid s e = Some u" "(event_type d, n, c) \<in> set (listeners s e)" "normal_type (event_type d) = event_type d"
  shows "element_uid (run_handler d e n s) = element_uid s" "made (run_handler d e n s) = made s"
    "called (run_handler d e n s) = called s @ calls_of d e s n"
    "listeners (run_handler d e n s) e =
      filter (\<lambda>l. \<not> (l = (event_type d, n, c) \<and> spent d e s n)) (listeners s e)"
proof -
  let ?h = "made s n"
  obtain k where k: "(event_type d, k) \<in> set (eventRegistry s u)" "serial k = n" "c \<longleftrightarrow> delegationSelector ?h \<noteq> None"
    using assms(3) well_keptD(1) [OF assms(1), of e] assms(2) by (auto simp: handlers_at_def listening_def)
  have get: "getEvent e s = (u, s)" using assms(2) by (simp add: getEvent_def)
  have off: "eh_off e (event_type d) (Some (originalHandler ?h, delegationSelector ?h)) s = drop_handlers e u (\<lambda>h. h = (event_type d, k)) s"
    unfolding off_drops(2) [OF assms(1) get] assms(4)
    by (rule drop_cong) (use signature_eqD [OF assms(1) _ k(1)] k(2) in \<open>auto simp: signature_def\<close>)
  have same: "listening s h = (event_type d, n, c) \<longleftrightarrow> h = (event_type d, k)" if "h \<in> set (eventRegistry s u)" for h
    using serial_eqD [OF assms(1) that k(1)] k(2,3) by (auto simp: listening_def)
  have left: "map (listening s) (filter (\<lambda>h. h \<noteq> (event_type d, k)) (eventRegistry s u)) =
      filter (\<lambda>l. l \<noteq> (event_type d, n, c)) (listeners s e)"
    using well_keptD(1) [OF assms(1), of e] assms(2) same by (simp add: handlers_at_def filter_map o_def cong: filter_cong)
  show "element_uid (run_handler d e n s) = element_uid s" "made (run_handler d e n s) = made s"
    using off by (auto simp: run_handler_def Let_def split: option.split)
  show "called (run_handler d e n s) = called s @ calls_of d e s n"
    using off by (auto simp: run_handler_def Let_def call_fn_def calls_of_def split: option.split callback_fn.split)
  show "listeners (run_handler d e n s) e =
      filter (\<lambda>l. \<not> (l = (event_type d, n, c) \<and> spent d e s n)) (listeners s e)"
    using off left by (auto simp: run_handler_def Let_def spent_def split: option.split)
qed

lemma run_all:
  assumes "well_kept s" "element_uid s e = Some u" "distinct ls" "set ls \<subseteq> set (listeners s e)"
    "\<forall>l \<in> set ls. fst l = event_type d" "normal_type (event_type d) = event_type d"
  defines "s' \<equiv> fold (\<lambda>l s. if l \<in> set (listeners s e) then run_handler d e (fst (snd l)) s else s) ls s"
  shows "called s' = called s @ concat (map (\<lambda>l. calls_of d e s (fst (snd l))) ls) \<and>
      listeners s' e = filter (\<lambda>l. \<not> (l \<in> set ls \<and> spent d e s (fst (snd l)))) (listeners s e)"
  using assms(1-5) unfolding s'_def
proof (induction ls arbitrary: s)
  case (Cons l ls)
  obtain n c where l: "l = (event_type d, n, c)" using Cons.prems(5) by (cases l) auto
  have "(event_type d, n, c) \<in> set (listeners s e)" using Cons.prems(4) l by simp
  note step = run_handler_effect [OF Cons.prems(1,2) this assms(6)]
  let ?s = "run_handler d e n s"
  have same: "calls_of d e ?s = calls_of d e s" "spent d e ?s = spent d e s"
    unfolding calls_of_def [abs_def] spent_def [abs_def] step(2) by (rule refl)+
  have "set ls \<subseteq> set (listeners ?s e)" using Cons.prems(3,4) l step(4) by auto
  then have IH: "called (fold (\<lambda>l s. if l \<in> set (listeners s e) then run_handler d e (fst (snd l)) s else s) ls ?s)
      = called ?s @ concat (map (\<lambda>l. calls_of d e ?s (fst (snd l))) ls)"
    "listeners (fold (\<lambda>l s. if l \<in> set (listeners s e) then run_handler d e (fst (snd l)) s else s) ls ?s) e
      = filter (\<lambda>l. \<not> (l \<in> set ls \<and> spent d e ?s (fst (snd l)))) (listeners ?s e)"
    using Cons.IH [OF run_handler_well_kept [OF Cons.prems(1)]] Cons.prems step(1) by auto
  have "filter (\<lambda>l. \<not> (l \<in> set ls \<and> spent d e s (fst (snd l)))) (listeners ?s e) =
      filter (\<lambda>k. \<not> (k \<in> set (l # ls) \<and> spent d e s (fst (snd k)))) (listeners s e)"
    using step(4) l by (auto intro!: filter_cong)
  then show ?case using IH step(3) same Cons.prems(4) l by simp
qed simp

lemma dispatch_well_kept: "well_kept s \<Longrightarrow> well_kept (dispatch_on d e s)"
  unfolding dispatch_on_def Let_def by (rule fold_keeps) (auto simp: run_handler_well_kept)

end
