(* ===== verification/Bs_EventHandler_Properties.thy ===== *)
theory Bs_EventHandler_Properties
  imports Bs_EventHandler_Proofs
begin

text \<open>
  The properties of \<open>EventHandler\<close>, for states reached by any calls and events, and what its keys mean for the
  components: the events that each of them listens to, and what disposing of it takes off.
\<close>

section \<open>Runs\<close>

datatype eh_action =
    OnEvent nat string binding
  | OneEvent nat string binding
  | OffEvent nat string "(callback_fn \<times> string option) option"
  | Dispatch nat dom_event

primrec eh_step :: "eh_action \<Rightarrow> event_state \<Rightarrow> event_state" where
  "eh_step (OnEvent e ev b) s = eh_on e ev b s"
| "eh_step (OneEvent e ev b) s = eh_one e ev b s"
| "eh_step (OffEvent e ev h) s = eh_off e ev h s"
| "eh_step (Dispatch e d) s = dispatch_on d e s"

definition eh_start :: event_state where
  "eh_start = \<lparr>uidEvent = 1, wraps = 0, element_uid = (\<lambda>_. None),
     made = (\<lambda>_. \<lparr>originalHandler = Given 0, delegationSelector = None, oneOff = False\<rparr>),
     eventRegistry = (\<lambda>_. []), listeners = (\<lambda>_. []), called = []\<rparr>"

definition eh_run :: "eh_action list \<Rightarrow> event_state" where
  "eh_run as = fold eh_step as eh_start"

lemma eh_start_well_kept: "well_kept eh_start"
  by (simp add: eh_start_def well_kept_def handlers_at_def)

lemma eh_run_well_kept: "well_kept (eh_run as)"
  unfolding eh_run_def
proof (rule fold_keeps [where P = well_kept, OF _ eh_start_well_kept])
  show "well_kept (eh_step a s)" if "well_kept s" for a s
    using that by (cases a) (simp_all add: eh_on_def eh_one_def addHandler_well_kept off_well_kept dispatch_well_kept)
qed

lemma listeners_agree:
  assumes "well_kept s"
  shows "listeners s e = map (listening s) (handlers_at s e)" "distinct (map (signature s) (handlers_at s e))"
    "distinct (listeners s e)"
proof -
  note D = well_keptD [OF assms]
  have "distinct (map (serial \<circ> snd) (handlers_at s e))" using D(3) by (auto simp: handlers_at_def split: option.split)
  then have "distinct (map (listening s) (handlers_at s e))"
    by (auto simp: distinct_map inj_on_def listening_def)
  then show "distinct (listeners s e)" using D(1) by simp
  show "listeners s e = map (listening s) (handlers_at s e)" by (rule D(1))
  show "distinct (map (signature s) (handlers_at s e))" using D(2) by (auto simp: handlers_at_def split: option.split)
qed

text \<open>C32: After any calls of \<open>on\<close>, \<open>one\<close> and \<open>off\<close> and any events, the listeners of every element are exactly those
  of its handlers in the registry, in the same order, and no function is registered twice for an event and a selector.
\<close>

theorem listeners_registered:
  "listeners (eh_run as) e = map (listening (eh_run as)) (handlers_at (eh_run as) e) \<and>
   distinct (map (signature (eh_run as)) (handlers_at (eh_run as) e)) \<and> distinct (listeners (eh_run as) e)"
  using listeners_agree [OF eh_run_well_kept] by blast

section \<open>Events\<close>

definition matching :: "dom_event \<Rightarrow> nat \<Rightarrow> event_state \<Rightarrow> (string \<times> nat \<times> bool) list" where
  "matching d e s =
     (let ls = filter (\<lambda>(t, n, c). t = event_type d) (listeners s e)
      in filter (\<lambda>(t, n, c). c) ls @ filter (\<lambda>(t, n, c). \<not> c) ls)"

lemma matching_props:
  assumes "distinct (listeners s e)"
  shows "distinct (matching d e s)" "set (matching d e s) \<subseteq> set (listeners s e)" "\<forall>l \<in> set (matching d e s). fst l = event_type d"
  using assms by (auto simp: matching_def Let_def)

text \<open>The types of events under which handlers are stored.\<close>

lemma native_plain: "list_all (\<lambda>t. getTypeEvent t = t) nativeEvents"
  by (simp add: nativeEvents_def getTypeEvent_def)

lemma normal_normal: "normal_type (normal_type ev) = normal_type ev"
  using native_plain by (auto simp: normal_type_def Let_def list_all_iff)

text \<open>C33: An event calls the functions of all listeners for it, those that capture first, then in the order of
  registration, each once; afterwards exactly the handlers made by \<open>one\<close> whose function was called are gone.
\<close>

theorem dispatch_calls_each:
  assumes "event_type d = normal_type ev" and "s = eh_run as"
  shows "called (dispatch_on d e s) = called s @ concat (map (\<lambda>l. calls_of d e s (fst (snd l))) (matching d e s)) \<and>
    listeners (dispatch_on d e s) e = filter (\<lambda>l. \<not> (fst l = event_type d \<and> spent d e s (fst (snd l)))) (listeners s e)"
proof -
  have kept: "well_kept s" using eh_run_well_kept assms(2) by simp
  have run: "dispatch_on d e s = fold (\<lambda>l s. if l \<in> set (listeners s e) then run_handler d e (fst (snd l)) s else s) (matching d e s) s"
    by (simp add: dispatch_on_def matching_def Let_def)
  show ?thesis
  proof (cases "element_uid s e")
    case None
    then have "listeners s e = []" using well_keptD(1) [OF kept, of e] by (simp add: handlers_at_def)
    then show ?thesis by (simp add: run matching_def)
  next
    case (Some u)
    note m = matching_props [OF listeners_agree(3) [OF kept, of e]]
    have "set (matching d e s) = {l \<in> set (listeners s e). fst l = event_type d}" by (auto simp: matching_def Let_def)
    then show ?thesis
      unfolding run using run_all [OF kept Some m] assms(1) normal_normal by (auto intro!: filter_cong)
  qed
qed

theorem dispatch_calls_each_witness:
  "called (dispatch_on \<lparr>event_type = ''click'', event_path = [7], relatedTarget = None, selected = (\<lambda>_. [7]), node_contains = (\<lambda>_ _. False)\<rparr>
     3 (eh_run [OnEvent 3 ''click'' (Direct 20), OneEvent 3 ''click.bs.tab'' (Delegated ''a'' 30), OnEvent 3 ''keyup'' (Direct 40)]))
   = [(30, 7), (20, 3)]"
proof -
  let ?as = "[OnEvent 3 ''click'' (Direct 20), OneEvent 3 ''click.bs.tab'' (Delegated ''a'' 30), OnEvent 3 ''keyup'' (Direct 40)]"
  let ?d = "\<lparr>event_type = ''click'', event_path = [7], relatedTarget = None, selected = (\<lambda>_. [7]), node_contains = (\<lambda>_ _. False)\<rparr>"
  have types: "normal_type ''click'' = ''click''" "normal_type ''click.bs.tab'' = ''click''" "normal_type ''keyup'' = ''keyup''"
    by (simp_all add: normal_type_def getTypeEvent_def nativeEvents_def Let_def)
  have custom: "\<not> is_custom ''click''" "\<not> is_custom ''click.bs.tab''" "\<not> is_custom ''keyup''"
    by code_simp+
  have "listeners (eh_run ?as) 3 = [(''click'', 2, False), (''click'', 3, True), (''keyup'', 4, False)]"
    "called (eh_run ?as) = []" "made (eh_run ?as) 2 = \<lparr>originalHandler = Given 20, delegationSelector = None, oneOff = False\<rparr>"
    "made (eh_run ?as) 3 = \<lparr>originalHandler = Given 30, delegationSelector = Some ''a'', oneOff = True\<rparr>"
    by (simp_all add: eh_run_def eh_start_def eh_on_def eh_one_def addHandler_def wrap_fn_def custom types getEvent_def findHandler_def
        stored_def namespace_of_def Let_def)
  then show ?thesis
    using dispatch_calls_each [of ?d "''click''" "eh_run ?as" ?as 3] types(1)
    by (simp add: matching_def calls_of_def handler_target_def)
qed

section \<open>The events of the components\<close>











text \<open>
  The function passed for \<open>mouseenter\<close> or \<open>mouseleave\<close> is wrapped, and the registry holds the wrapper: taking the
  function off again takes nothing of it off.
\<close>

lemma mouseenter_not_removed:
  assumes "well_kept s" "is_custom ev" "s' = eh_on e ev (Direct f) s"
  shows "length (listeners s' e) = Suc (length (listeners s e))"
    "last (listeners s' e) \<in> set (listeners (eh_off e ev (Some (Given f, None)) s') e)"
proof -
  obtain s1 where g: "wrap_fn ev f s = (Wrapped f (wraps s), s1)" using assms(2) by (simp add: wrap_fn_def)
  obtain u s2 where u: "getEvent e s1 = (u, s2)" by fastforce
  note s1 = wrap_fn_keeps [OF assms(1) g]
  note s2 = getEvent_keeps [OF s1(1) u]
  have old: "eventRegistry s1 = eventRegistry s" "made s1 = made s"
    using g assms(2) by (auto simp: wrap_fn_def)
  have fresh: "originalHandler (made s2 (serial (snd h))) \<noteq> Wrapped f (wraps s)" if "h \<in> set (eventRegistry s2 u)" for h
    using well_keptD(5) [OF assms(1), of h u f "wraps s"] that s2(3,5) old by auto
  have None: "findHandler s2 (stored u (normal_type ev) s2) (Wrapped f (wraps s)) None = None"
    unfolding findHandler_None
  proof
    assume "(normal_type ev, Wrapped f (wraps s), None) \<in> signature s2 ` set (eventRegistry s2 u)"
    then obtain h where "h \<in> set (eventRegistry s2 u)" "(normal_type ev, Wrapped f (wraps s), None) = signature s2 h" ..
    then show False using fresh [of h] by (simp add: signature_def)
  qed
  define k where "k = (if namespace_of ev = [] then Plain (uidEvent s2) else Tagged (namespace_of ev) (uidEvent s2))"
  have k: "serial k = uidEvent s2" by (simp add: k_def)
  have s': "listeners s' e = listeners s e @ [(normal_type ev, uidEvent s2, False)]"
    "element_uid s' e = Some u" "eventRegistry s' u = eventRegistry s2 u @ [(normal_type ev, k)]"
    "originalHandler (made s' (uidEvent s2)) = Wrapped f (wraps s)" "delegationSelector (made s' (uidEvent s2)) = None"
    using g u None s1(3) s2(2,4) by (simp_all add: assms(3) eh_on_def addHandler_def k_def Let_def)
  then show "length (listeners s' e) = Suc (length (listeners s e))" by simp
  have kept: "well_kept s'" using assms(1) addHandler_well_kept by (simp add: assms(3) eh_on_def)
  have "getEvent e s' = (u, s')" using s'(2) by (simp add: getEvent_def)
  from off_drops(2) [OF kept this]
  show "last (listeners s' e) \<in> set (listeners (eh_off e ev (Some (Given f, None)) s') e)"
    using s' k by (auto simp: signature_def listening_def)
qed

text \<open>With jQuery, the event of jQuery and the one that \<open>trigger\<close> gives back agree on whether the default is prevented.\<close>

lemma trigger_agrees:
  "jquery_prevented (eh_trigger j p ev) \<in> {None, Some (evt_prevented (eh_trigger j p ev))}"
  by (simp add: eh_trigger_def Let_def split: option.split)

end
