(* ===== verification/Bs_Offcanvas.thy ===== *)
theory Bs_Offcanvas
  imports Bs_Modal
begin

text \<open>
  \<open>Offcanvas\<close> of \<open>bootstrap.js\<close>, on a page with any number of them. It has the backdrop of \<open>Bs_Modal\<close> and a focus trap,
  of which only the listeners are followed here, not where the focus goes. There is no guard for transitions that are
  under way.
\<close>

section \<open>State\<close>

text \<open>An instance, by the number of its element.\<close>

record offcanvas =
  oc_conf :: "(string \<times> bval) list"
  oc_backdrop :: backdrop
  oc_trap :: bool              \<comment> \<open>the trap is active\<close>
  oc_shown :: bool
  oc_exists :: bool            \<comment> \<open>there is an instance, not disposed of\<close>
  oc_keydown :: nat            \<comment> \<open>listeners on the element\<close>

datatype oc_job = OcShown nat | OcHidden nat | OcBackdropHidden nat

record oc_page =
  oc_doc :: sheet
  canvases :: "nat \<Rightarrow> offcanvas"
  oc_waiting :: "(place \<times> oc_job) list"
  oc_trapping :: "nat list"           \<comment> \<open>traps with listeners on the document\<close>
  oc_events :: "(string \<times> nat) list"

text \<open>The elements of the page with the class \<open>offcanvas\<close>, in order, and what listeners decide.\<close>

record oc_env = window +
  oc_elements :: "nat list"
  oc_prevents :: "oc_page \<Rightarrow> string \<Rightarrow> nat \<Rightarrow> bool"

definition on_canvas :: "nat \<Rightarrow> (offcanvas \<Rightarrow> offcanvas) \<Rightarrow> oc_page \<Rightarrow> oc_page" where
  "on_canvas i f p = p\<lparr>canvases := (canvases p)(i := f (canvases p i))\<rparr>"

definition oc_do :: "nat \<Rightarrow> (styled \<Rightarrow> styled) \<Rightarrow> oc_page \<Rightarrow> oc_page" where
  "oc_do e f p = p\<lparr>oc_doc := (oc_doc p)(e := f (oc_doc p e))\<rparr>"

definition on_sheet :: "(sheet \<Rightarrow> sheet) \<Rightarrow> oc_page \<Rightarrow> oc_page" where
  "on_sheet f p = p\<lparr>oc_doc := f (oc_doc p)\<rparr>"

definition oc_event :: "string \<Rightarrow> nat \<Rightarrow> oc_page \<Rightarrow> oc_page" where
  "oc_event ev i p = p\<lparr>oc_events := oc_events p @ [(ev, i)]\<rparr>"

definition oc_wait :: "place \<Rightarrow> oc_job \<Rightarrow> oc_page \<Rightarrow> oc_page" where
  "oc_wait t cb p = p\<lparr>oc_waiting := oc_waiting p @ [(t, cb)]\<rparr>"

definition oc_scroll :: "nat \<Rightarrow> oc_page \<Rightarrow> bool" where
  "oc_scroll i p = truthy_b (bget (oc_conf (canvases p i)) ''scroll'')"

section \<open>Operations\<close>

text \<open>The backdrop is always animated; without the option \<open>backdrop\<close> it stays away.\<close>

definition oc_initializeBackDrop :: "(string \<times> bval) list \<Rightarrow> backdrop" where
  "oc_initializeBackDrop config =
     \<lparr>bd_visible = truthy_b (bget config ''backdrop''), bd_animated = True, bd_className = ''offcanvas-backdrop'',
      bd_appended = False, bd_classes = None, bd_mousedown = 0\<rparr>"

text \<open>Options that are not accepted make the constructor throw.\<close>

definition oc_new :: "nat \<Rightarrow> bval \<Rightarrow> oc_page \<Rightarrow> oc_page" where
  "oc_new i config p =
     (case offcanvas_config (attrs_of (oc_doc p i)) config of
        Inl _ \<Rightarrow> p
      | Inr conf \<Rightarrow>
          on_canvas i (\<lambda>_. \<lparr>oc_conf = conf, oc_backdrop = oc_initializeBackDrop conf, oc_trap = False, oc_shown = False,
            oc_exists = True, oc_keydown = oc_keydown (canvases p i) + 1\<rparr>) p)"

definition oc_getOrCreate :: "nat \<Rightarrow> oc_page \<Rightarrow> oc_page" where
  "oc_getOrCreate i p = (if oc_exists (canvases p i) then p else oc_new i (BObj []) p)"

definition oc_backdrop_show :: "nat \<Rightarrow> oc_page \<Rightarrow> oc_page" where
  "oc_backdrop_show i = on_canvas i (\<lambda>c. if bd_visible (oc_backdrop c)
     then c\<lparr>oc_backdrop := backdrop_class (classList_add ''show'') (backdrop_append (oc_backdrop c))\<rparr> else c)"

definition oc_backdrop_hide :: "nat \<Rightarrow> oc_page \<Rightarrow> oc_page" where
  "oc_backdrop_hide i p =
     (if \<not> bd_visible (oc_backdrop (canvases p i)) then p
      else oc_wait (AtBackdrop i) (OcBackdropHidden i)
             (on_canvas i (\<lambda>c. c\<lparr>oc_backdrop := backdrop_class (classList_remove ''show'') (oc_backdrop c)\<rparr>) p))"

text \<open>The trap takes the listeners of every trap off the document before it adds its own.\<close>

definition oc_trap_activate :: "nat \<Rightarrow> oc_page \<Rightarrow> oc_page" where
  "oc_trap_activate i p =
     (if oc_trap (canvases p i) then p else on_canvas i (\<lambda>c. c\<lparr>oc_trap := True\<rparr>) (p\<lparr>oc_trapping := [i]\<rparr>))"

definition oc_trap_deactivate :: "nat \<Rightarrow> oc_page \<Rightarrow> oc_page" where
  "oc_trap_deactivate i p =
     (if oc_trap (canvases p i) then on_canvas i (\<lambda>c. c\<lparr>oc_trap := False\<rparr>) (p\<lparr>oc_trapping := []\<rparr>) else p)"

definition oc_show :: "oc_env \<Rightarrow> nat \<Rightarrow> oc_page \<Rightarrow> oc_page" where
  "oc_show env i p =
     (if oc_shown (canvases p i) \<or> \<not> oc_exists (canvases p i) then p
      else (let prevented = oc_prevents env p ''show'' i; p = oc_event ''show'' i p in
            if prevented then p
            else (let p = on_canvas i (\<lambda>c. c\<lparr>oc_shown := True\<rparr>) p;
                      p = oc_do i (set_style ''visibility'' ''visible'') p;
                      p = oc_backdrop_show i p;
                      p = (if oc_scroll i p then p else on_sheet (scroll_hide (window.truncate env)) p);
                      p = oc_do i (drop_attribute ''aria-hidden'') p;
                      p = oc_do i (set_attribute ''aria-modal'' ''true'') p;
                      p = oc_do i (set_attribute ''role'' ''dialog'') p;
                      p = oc_do i (add_class ''show'') p
                  in oc_wait (AtElement i) (OcShown i) p)))"

definition oc_hide :: "oc_env \<Rightarrow> nat \<Rightarrow> oc_page \<Rightarrow> oc_page" where
  "oc_hide env i p =
     (if \<not> oc_shown (canvases p i) then p
      else (let prevented = oc_prevents env p ''hide'' i; p = oc_event ''hide'' i p in
            if prevented then p
            else (let p = oc_trap_deactivate i p;
                      p = on_canvas i (\<lambda>c. c\<lparr>oc_shown := False\<rparr>) p;
                      p = oc_do i (remove_class ''show'') p;
                      p = oc_backdrop_hide i p
                  in oc_wait (AtElement i) (OcHidden i) p)))"

definition oc_toggle :: "oc_env \<Rightarrow> nat \<Rightarrow> oc_page \<Rightarrow> oc_page" where
  "oc_toggle env i p = (if oc_shown (canvases p i) then oc_hide env i p else oc_show env i p)"

definition oc_dispose :: "nat \<Rightarrow> oc_page \<Rightarrow> oc_page" where
  "oc_dispose i p =
     (if \<not> oc_exists (canvases p i) then p
      else (let p = on_canvas i (\<lambda>c. c\<lparr>oc_backdrop := backdrop_dispose (oc_backdrop c)\<rparr>) p;
                p = oc_trap_deactivate i p
            in on_canvas i (\<lambda>c. c\<lparr>oc_shown := False, oc_exists := False, oc_keydown := 0\<rparr>) p))"

section \<open>Events\<close>

text \<open>The callbacks of an instance that was disposed of throw at their first line, apart from that of the backdrop.\<close>

fun oc_callback :: "oc_env \<Rightarrow> oc_job \<Rightarrow> oc_page \<Rightarrow> oc_page" where
  "oc_callback env (OcShown i) p =
     (if \<not> oc_exists (canvases p i) then p
      else oc_event ''shown'' i (if oc_scroll i p then p else oc_trap_activate i p))"
| "oc_callback env (OcHidden i) p =
     (if \<not> oc_exists (canvases p i) then p
      else (let p = oc_do i (set_attribute ''aria-hidden'' ''true'') p;
                p = oc_do i (drop_attribute ''aria-modal'') p;
                p = oc_do i (drop_attribute ''role'') p;
                p = oc_do i (set_style ''visibility'' ''hidden'') p;
                p = (if oc_scroll i p then p else on_sheet (scroll_reset (window.truncate env)) p)
            in oc_event ''hidden'' i p))"
| "oc_callback env (OcBackdropHidden i) p =
     on_canvas i (\<lambda>c. c\<lparr>oc_backdrop := backdrop_dispose (oc_backdrop c)\<rparr>) p"

definition oc_transition_end :: "oc_env \<Rightarrow> place \<Rightarrow> oc_page \<Rightarrow> oc_page" where
  "oc_transition_end env t p =
     fold (\<lambda>(_, cb). oc_callback env cb) (filter (\<lambda>(u, _). u = t) (oc_waiting p))
       (p\<lparr>oc_waiting := filter (\<lambda>(u, _). u \<noteq> t) (oc_waiting p)\<rparr>)"

definition oc_key :: "oc_env \<Rightarrow> string \<Rightarrow> nat \<Rightarrow> oc_page \<Rightarrow> oc_page" where
  "oc_key env key i p =
     ((\<lambda>p. if truthy_b (bget (oc_conf (canvases p i)) ''keyboard'') \<and> key = ''Escape'' then oc_hide env i p else p)
        ^^ oc_keydown (canvases p i)) p"

definition oc_backdrop_mousedown :: "oc_env \<Rightarrow> nat \<Rightarrow> oc_page \<Rightarrow> oc_page" where
  "oc_backdrop_mousedown env i p = (oc_hide env i ^^ bd_mousedown (oc_backdrop (canvases p i))) p"

text \<open>
  A click on a button for the offcanvas \<open>i\<close>: the first open one, if it is another, is closed before; when that has no
  instance, the handler throws.
\<close>

definition oc_click :: "oc_env \<Rightarrow> bool \<Rightarrow> nat \<Rightarrow> oc_page \<Rightarrow> oc_page" where
  "oc_click env disabled i p =
     (if disabled then p
      else (let already = List.find (\<lambda>e. ''show'' \<in> set (class_list (oc_doc p e))) (oc_elements env) in
            case already of
              None \<Rightarrow> oc_toggle env i (oc_getOrCreate i p)
            | Some j \<Rightarrow>
                if j = i then oc_toggle env i (oc_getOrCreate i p)
                else if \<not> oc_exists (canvases p j) then p
                else oc_toggle env i (oc_getOrCreate i (oc_hide env j p))))"

definition oc_load :: "oc_env \<Rightarrow> oc_page \<Rightarrow> oc_page" where
  "oc_load env p =
     fold (\<lambda>e p. oc_show env e (oc_getOrCreate e p))
       (filter (\<lambda>e. ''show'' \<in> set (class_list (oc_doc p e))) (oc_elements env)) p"

end
