(* ===== verification/Bs_Offcanvas_Properties.thy ===== *)
theory Bs_Offcanvas_Properties
  imports Bs_Offcanvas Bs_Modal_Properties
begin

text \<open>
  Which offcanvas is open, over runs of clicks and other events, and what calls during a transition do.
\<close>

section \<open>What steps change\<close>

definition has_show :: "oc_page \<Rightarrow> nat \<Rightarrow> bool" where
  "has_show p e \<longleftrightarrow> ''show'' \<in> set (class_list (oc_doc p e))"



lemma on_canvas_simps [simp]:
  "canvases (on_canvas i f p) j = (if j = i then f (canvases p i) else canvases p j)" "oc_doc (on_canvas i f p) = oc_doc p"
  "oc_waiting (on_canvas i f p) = oc_waiting p" "oc_trapping (on_canvas i f p) = oc_trapping p"
  "has_show (on_canvas i f p) = has_show p"
  by (simp_all add: on_canvas_def has_show_def fun_eq_iff)

lemma oc_do_simps [simp]:
  "canvases (oc_do e f p) = canvases p" "oc_doc (oc_do e f p) d = (if d = e then f (oc_doc p e) else oc_doc p d)"
  "oc_waiting (oc_do e f p) = oc_waiting p" "oc_trapping (oc_do e f p) = oc_trapping p"
  by (simp_all add: oc_do_def)

lemma has_show_do [simp]:
  "has_show (oc_do e (set_style k v) p) = has_show p" "has_show (oc_do e (set_attribute k w) p) = has_show p"
  "has_show (oc_do e (drop_attribute k) p) = has_show p"
  "has_show (oc_do e (add_class ''show'') p) = (has_show p)(e := True)"
  "has_show (oc_do e (remove_class ''show'') p) = (has_show p)(e := False)"
  by (auto simp: has_show_def fun_eq_iff)

lemma oc_wait_simps [simp]:
  "canvases (oc_wait t cb p) = canvases p" "oc_doc (oc_wait t cb p) = oc_doc p" "oc_waiting (oc_wait t cb p) = oc_waiting p @ [(t, cb)]"
  "oc_trapping (oc_wait t cb p) = oc_trapping p" "has_show (oc_wait t cb p) = has_show p"
  "canvases (oc_event ev i p) = canvases p" "oc_doc (oc_event ev i p) = oc_doc p" "oc_waiting (oc_event ev i p) = oc_waiting p"
  "oc_trapping (oc_event ev i p) = oc_trapping p" "has_show (oc_event ev i p) = has_show p"
  by (simp_all add: oc_wait_def oc_event_def has_show_def fun_eq_iff)

lemma has_show_scroll [simp]:
  "has_show (on_sheet (scroll_hide w) p) = has_show p" "has_show (on_sheet (scroll_reset w) p) = has_show p"
  "canvases (on_sheet f p) = canvases p" "oc_waiting (on_sheet f p) = oc_waiting p" "oc_trapping (on_sheet f p) = oc_trapping p"
  "has_show (p\<lparr>oc_trapping := ts\<rparr>) = has_show p" "has_show (p\<lparr>oc_waiting := ws\<rparr>) = has_show p"
  by (simp_all add: has_show_def on_sheet_def fun_eq_iff)

lemma oc_backdrop_simps [simp]:
  "oc_shown (canvases (oc_backdrop_show i p) j) = oc_shown (canvases p j)" "oc_exists (canvases (oc_backdrop_show i p) j) = oc_exists (canvases p j)"
  "oc_trap (canvases (oc_backdrop_show i p) j) = oc_trap (canvases p j)" "oc_conf (canvases (oc_backdrop_show i p) j) = oc_conf (canvases p j)"
  "oc_doc (oc_backdrop_show i p) = oc_doc p" "oc_waiting (oc_backdrop_show i p) = oc_waiting p"
  "oc_trapping (oc_backdrop_show i p) = oc_trapping p" "has_show (oc_backdrop_show i p) = has_show p"
  "oc_shown (canvases (oc_backdrop_hide i p) j) = oc_shown (canvases p j)" "oc_exists (canvases (oc_backdrop_hide i p) j) = oc_exists (canvases p j)"
  "oc_trap (canvases (oc_backdrop_hide i p) j) = oc_trap (canvases p j)" "oc_conf (canvases (oc_backdrop_hide i p) j) = oc_conf (canvases p j)"
  "oc_doc (oc_backdrop_hide i p) = oc_doc p" "oc_trapping (oc_backdrop_hide i p) = oc_trapping p" "has_show (oc_backdrop_hide i p) = has_show p"
  "filter (\<lambda>(u, _). u = AtElement k) (oc_waiting (oc_backdrop_hide i p)) = filter (\<lambda>(u, _). u = AtElement k) (oc_waiting p)"
  by (simp_all add: oc_backdrop_show_def oc_backdrop_hide_def)

lemma oc_trap_simps [simp]:
  "oc_shown (canvases (oc_trap_activate i p) j) = oc_shown (canvases p j)" "oc_exists (canvases (oc_trap_activate i p) j) = oc_exists (canvases p j)"
  "oc_conf (canvases (oc_trap_activate i p) j) = oc_conf (canvases p j)"
  "oc_doc (oc_trap_activate i p) = oc_doc p" "oc_waiting (oc_trap_activate i p) = oc_waiting p" "has_show (oc_trap_activate i p) = has_show p"
  "oc_trap (canvases (oc_trap_activate i p) i)"
  "oc_shown (canvases (oc_trap_deactivate i p) j) = oc_shown (canvases p j)" "oc_exists (canvases (oc_trap_deactivate i p) j) = oc_exists (canvases p j)"
  "oc_conf (canvases (oc_trap_deactivate i p) j) = oc_conf (canvases p j)"
  "oc_doc (oc_trap_deactivate i p) = oc_doc p" "oc_waiting (oc_trap_deactivate i p) = oc_waiting p" "has_show (oc_trap_deactivate i p) = has_show p"
  "\<not> oc_trap (canvases (oc_trap_deactivate i p) i)"
  by (simp_all add: oc_trap_activate_def oc_trap_deactivate_def)

section \<open>At most one is open\<close>
















lemma reset_elsewhere:
  assumes "d \<noteq> body_id w" "d \<notin> set (fixed_content w)" "d \<notin> set (sticky_content w)"
  shows "scroll_reset w doc d = doc d"
  using assms by (simp add: scroll_reset_def resetElementAttributes_def apply_elsewhere Let_def)

section \<open>Calls during a transition\<close>

text \<open>An offcanvas without a transition under way.\<close>

definition oc_rest :: "nat \<Rightarrow> oc_page \<Rightarrow> bool" where
  "oc_rest i p \<longleftrightarrow> oc_exists (canvases p i) \<and> \<not> oc_scroll i p \<and> filter (\<lambda>(u, _). u = AtElement i) (oc_waiting p) = []"

lemma scroll_simps [simp]:
  "oc_scroll i (on_sheet f p) = oc_scroll i p" "oc_scroll i (oc_do e g p) = oc_scroll i p" "oc_scroll i (oc_wait t cb p) = oc_scroll i p"
  "oc_scroll i (oc_event ev j p) = oc_scroll i p" "oc_scroll i (oc_backdrop_show j p) = oc_scroll i p"
  "oc_scroll i (oc_backdrop_hide j p) = oc_scroll i p" "oc_scroll i (oc_trap_activate j p) = oc_scroll i p"
  "oc_scroll i (oc_trap_deactivate j p) = oc_scroll i p" "oc_scroll i (on_canvas j (\<lambda>c. c\<lparr>oc_shown := b\<rparr>) p) = oc_scroll i p"
  "oc_scroll i (p\<lparr>oc_waiting := ws\<rparr>) = oc_scroll i p"
  by (simp_all add: oc_scroll_def)

text \<open>Calls during a transition are not held back: closing an offcanvas while it opens leaves it closed with an active
  focus trap, and opening it while it closes leaves it open but invisible and hidden from assistive technology.
\<close>

theorem offcanvas_quick_calls:
  assumes "oc_rest i p" and "\<And>q ev. \<not> oc_prevents env q ev i" and "\<not> oc_trap (canvases p i) \<or> oc_shown (canvases p i)"
    and "i \<noteq> body_id env" "i \<notin> set (fixed_content env)" "i \<notin> set (sticky_content env)"
    and "q = oc_transition_end env (AtElement i)
      (if oc_shown (canvases p i) then oc_show env i (oc_hide env i p) else oc_hide env i (oc_show env i p))"
  shows "if oc_shown (canvases p i)
    then oc_shown (canvases q i) \<and> oget (styles (oc_doc q i)) ''visibility'' = Some ''hidden'' \<and>
      oget (attrs_of (oc_doc q i)) ''aria-hidden'' = Some ''true''
    else \<not> oc_shown (canvases q i) \<and> oc_trap (canvases q i)"
proof (cases "oc_shown (canvases p i)")
  case True
  define r where "r = oc_show env i (oc_hide env i p)"
  have r: "oc_shown (canvases r i)" "oc_exists (canvases r i)" "\<not> oc_scroll i r"
    "filter (\<lambda>(u, _). u = AtElement i) (oc_waiting r) = [(AtElement i, OcHidden i), (AtElement i, OcShown i)]"
    using True assms(1,2) by (simp_all add: r_def oc_show_def oc_hide_def oc_rest_def Let_def)
  have "q = oc_callback env (OcShown i) (oc_callback env (OcHidden i)
      (r\<lparr>oc_waiting := filter (\<lambda>(u, _). u \<noteq> AtElement i) (oc_waiting r)\<rparr>))"
    using True r(4) by (simp add: assms(7) r_def oc_transition_end_def del: oc_callback.simps)
  then show ?thesis
    using True r assms(4-6) by (simp add: Let_def on_sheet_def reset_elsewhere drop_attribute_def set_attribute_def set_style_def)
next
  case False
  define r where "r = oc_hide env i (oc_show env i p)"
  have r: "\<not> oc_shown (canvases r i)" "oc_exists (canvases r i)" "\<not> oc_scroll i r"
    "filter (\<lambda>(u, _). u = AtElement i) (oc_waiting r) = [(AtElement i, OcShown i), (AtElement i, OcHidden i)]"
    using False assms(1,2) by (simp_all add: r_def oc_show_def oc_hide_def oc_rest_def Let_def)
  have "q = oc_callback env (OcHidden i) (oc_callback env (OcShown i)
      (r\<lparr>oc_waiting := filter (\<lambda>(u, _). u \<noteq> AtElement i) (oc_waiting r)\<rparr>))"
    using False r(4) by (simp add: assms(7) r_def oc_transition_end_def del: oc_callback.simps)
  then show ?thesis using False r by (simp add: Let_def)
qed

definition demo_canvas :: "bool \<Rightarrow> offcanvas" where
  "demo_canvas open = \<lparr>oc_conf = [(''backdrop'', BBool False), (''keyboard'', BBool True), (''scroll'', BBool False)],
     oc_backdrop = oc_initializeBackDrop [], oc_trap = open, oc_shown = open, oc_exists = True, oc_keydown = 1\<rparr>"

definition demo_oc_page :: "bool \<Rightarrow> oc_page" where
  "demo_oc_page open = \<lparr>oc_doc = (\<lambda>_. \<lparr>styles = [], attrs_of = [], class_list = (if open then [''show''] else [])\<rparr>),
     canvases = (\<lambda>_. demo_canvas open), oc_waiting = [], oc_trapping = [], oc_events = []\<rparr>"

definition demo_oc_env :: "window \<Rightarrow> oc_env" where
  "demo_oc_env w = window.extend w \<lparr>oc_elements = [5, 6], oc_prevents = (\<lambda>_ _ _. False)\<rparr>"


theorem offcanvas_quick_calls_witness:
  "oc_trap (canvases (oc_transition_end (demo_oc_env demo_window) (AtElement 5)
     (oc_hide (demo_oc_env demo_window) 5 (oc_show (demo_oc_env demo_window) 5 (demo_oc_page False)))) 5)"
proof -
  have "oc_rest 5 (demo_oc_page False)" "\<not> oc_shown (canvases (demo_oc_page False) 5)" "\<not> oc_trap (canvases (demo_oc_page False) 5)"
    by (simp_all add: oc_rest_def oc_scroll_def demo_oc_page_def demo_canvas_def bget_def)
  moreover have "\<not> oc_prevents (demo_oc_env demo_window) q ev 5" "5 \<noteq> body_id (demo_oc_env demo_window)"
    "5 \<notin> set (fixed_content (demo_oc_env demo_window))" "5 \<notin> set (sticky_content (demo_oc_env demo_window))" for q ev
    by (simp_all add: demo_oc_env_def demo_window_def demo_env_def window.defs)
  ultimately show ?thesis
    using offcanvas_quick_calls [of 5 "demo_oc_page False" "demo_oc_env demo_window", OF _ _ _ _ _ _ refl] by simp
qed

end
