(* ===== verification/Bs_Tooltip.thy ===== *)
theory Bs_Tooltip
  imports Bs_Dom "HOL-Library.Sublist"
begin

text \<open>
  Tooltips and popovers of \<open>bootstrap.js\<close>: one instance with its element, the tip that it puts into the page, the
  triggers, the timer and the transitions. Where Popper places the tip is a parameter; of the popper only its existence
  is kept. Delegation to the elements of a selector, the content of markup and the listeners for touch devices are left
  out.
\<close>

section \<open>State\<close>

datatype tip_kind = TooltipKind | PopoverKind

text \<open>The options; a delay that is a number stands in both places, a function is replaced by what it returns.\<close>

record tip_options =
  tip_kind :: tip_kind
  tip_animation :: bool
  delay_show :: nat
  delay_hide :: nat
  conf_title :: string
  conf_content :: string
  tip_placement :: string
  custom_classes :: "string list"
  tip_triggers :: "string list"
  tip_html :: bool
  tip_sanitize :: bool
  template_classes :: "string list"

datatype hover_state = HoverNone | HoverShow | HoverOut   \<comment> \<open>the empty text and null are one\<close>

datatype tip_job = TipShown | TipHidden

datatype tip_timer = ShowTimer | HideTimer

text \<open>The tip: its element, and for each place of the template the text that was put there.\<close>

record tip =
  tip_node :: styled
  tip_parts :: "string option list"

record tooltip =
  tt_element :: styled
  tt_enabled :: bool
  tt_timer :: "tip_timer option"
  hoverState :: hover_state
  activeTrigger :: "(string \<times> bool) list"
  tt_popper :: bool
  tt_tip :: "tip option"
  tt_in_page :: bool                \<comment> \<open>the tip is in the document\<close>
  tt_waiting :: "tip_job list"      \<comment> \<open>for the transition of the tip\<close>
  tt_events :: "string list"
  tt_disposed :: bool

record tip_env =
  in_document :: bool
  tip_prevents :: "tooltip \<Rightarrow> string \<Rightarrow> bool"
  tip_uid :: "tooltip \<Rightarrow> string"
  tip_rtl :: bool
  sanitized :: "string \<Rightarrow> string"
  has_text :: bool                  \<comment> \<open>\<open>textContent\<close> of the element is not empty\<close>

definition tip_event :: "string \<Rightarrow> tooltip \<Rightarrow> tooltip" where
  "tip_event ev t = t\<lparr>tt_events := tt_events t @ [ev]\<rparr>"

definition on_tip :: "(styled \<Rightarrow> styled) \<Rightarrow> tooltip \<Rightarrow> tooltip" where
  "on_tip f t = t\<lparr>tt_tip := map_option (\<lambda>p. p\<lparr>tip_node := f (tip_node p)\<rparr>) (tt_tip t)\<rparr>"

definition tip_has :: "string \<Rightarrow> tooltip \<Rightarrow> bool" where
  "tip_has c t = (case tt_tip t of None \<Rightarrow> False | Some p \<Rightarrow> c \<in> set (class_list (tip_node p)))"

section \<open>The tip\<close>

definition getTitle :: "tip_options \<Rightarrow> tooltip \<Rightarrow> string" where
  "getTitle c t =
     (case oget (attrs_of (tt_element t)) ''data-bs-original-title'' of
        None \<Rightarrow> conf_title c
      | Some s \<Rightarrow> if s = [] then conf_title c else s)"

text \<open>A popover overrides \<open>isWithContent\<close> and \<open>setContent\<close>; the kind selects the method.\<close>

definition isWithContent :: "tip_options \<Rightarrow> tooltip \<Rightarrow> bool" where
  "isWithContent c t =
     (case tip_kind c of
        TooltipKind \<Rightarrow> getTitle c t \<noteq> []
      | PopoverKind \<Rightarrow> getTitle c t \<noteq> [] \<or> conf_content c \<noteq> [])"

text \<open>Without content the place is removed from the tip.\<close>

definition sanitizeAndSetContent :: "tip_env \<Rightarrow> tip_options \<Rightarrow> string \<Rightarrow> string option" where
  "sanitizeAndSetContent env c s =
     (if s = [] then None else Some (if tip_html c \<and> tip_sanitize c then sanitized env s else s))"

definition setContent :: "tip_env \<Rightarrow> tip_options \<Rightarrow> tooltip \<Rightarrow> string option list" where
  "setContent env c t =
     (case tip_kind c of
        TooltipKind \<Rightarrow> [sanitizeAndSetContent env c (getTitle c t)]
      | PopoverKind \<Rightarrow> [sanitizeAndSetContent env c (getTitle c t), sanitizeAndSetContent env c (conf_content c)])"

definition getTipElement :: "tip_env \<Rightarrow> tip_options \<Rightarrow> tooltip \<Rightarrow> tooltip" where
  "getTipElement env c t =
     (case tt_tip t of
        Some _ \<Rightarrow> t
      | None \<Rightarrow>
          t\<lparr>tt_tip := Some \<lparr>tip_node = remove_class ''show'' (remove_class ''fade''
                \<lparr>styles = [], attrs_of = [], class_list = template_classes c\<rparr>),
             tip_parts = setContent env c t\<rparr>\<rparr>)"

definition basicClassPrefix :: "tip_options \<Rightarrow> string" where
  "basicClassPrefix c = (case tip_kind c of TooltipKind \<Rightarrow> ''bs-tooltip'' | PopoverKind \<Rightarrow> ''bs-popover'')"

definition attachmentMap :: "tip_env \<Rightarrow> string \<Rightarrow> string" where
  "attachmentMap env placement =
     (let p = to_lower placement in
      if p = ''auto'' \<or> p = ''top'' \<or> p = ''bottom'' then p
      else if p = ''right'' then (if tip_rtl env then ''left'' else ''right'')
      else if p = ''left'' then (if tip_rtl env then ''right'' else ''left'')
      else ''undefined'')"

definition updateAttachment :: "string \<Rightarrow> string" where
  "updateAttachment a = (if a = ''right'' then ''end'' else if a = ''left'' then ''start'' else a)"

definition addAttachmentClass :: "tip_options \<Rightarrow> string \<Rightarrow> tooltip \<Rightarrow> tooltip" where
  "addAttachmentClass c a t = on_tip (add_class (basicClassPrefix c @ ''-'' @ updateAttachment a)) t"

text \<open>Every class that begins with the prefix and goes on.\<close>

definition cleanTipClass :: "tip_options \<Rightarrow> tooltip \<Rightarrow> tooltip" where
  "cleanTipClass c t =
     on_tip (\<lambda>el. el\<lparr>class_list := filter (\<lambda>x. \<not> strict_prefix (basicClassPrefix c) x) (class_list el)\<rparr>) t"

definition isWithActiveTrigger :: "tooltip \<Rightarrow> bool" where
  "isWithActiveTrigger t \<longleftrightarrow> (\<exists>(k, b) \<in> set (activeTrigger t). b)"

section \<open>Hiding and showing\<close>

text \<open>The callbacks of a disposed instance do nothing that lasts.\<close>

definition tip_hidden :: "tip_options \<Rightarrow> tooltip \<Rightarrow> tooltip" where
  "tip_hidden c t =
     (if tt_disposed t \<or> isWithActiveTrigger t then t
      else (let t = (if hoverState t \<noteq> HoverShow then t\<lparr>tt_in_page := False\<rparr> else t);
                t = cleanTipClass c t;
                t = t\<lparr>tt_element := drop_attribute ''aria-describedby'' (tt_element t)\<rparr>;
                t = tip_event ''hidden'' t
            in t\<lparr>tt_popper := False\<rparr>))"

definition tip_hide :: "tip_env \<Rightarrow> tip_options \<Rightarrow> tooltip \<Rightarrow> tooltip" where
  "tip_hide env c t =
     (if \<not> tt_popper t then t
      else (let t = getTipElement env c t; prevented = tip_prevents env t ''hide''; t = tip_event ''hide'' t in
            if prevented then t
            else (let t = on_tip (remove_class ''show'') t;
                      t = t\<lparr>activeTrigger := oset (oset (oset (activeTrigger t) ''click'' False) ''focus'' False) ''hover'' False\<rparr>;
                      t = (if tip_has ''fade'' t then t\<lparr>tt_waiting := tt_waiting t @ [TipHidden]\<rparr> else tip_hidden c t)
                  in t\<lparr>hoverState := HoverNone\<rparr>)))"

text \<open>The event of \<open>_leave\<close>, if there is one: the trigger, and whether the pointer or the focus stays inside.\<close>

definition tip_leave :: "tip_env \<Rightarrow> tip_options \<Rightarrow> (string \<times> bool) option \<Rightarrow> tooltip \<Rightarrow> tooltip" where
  "tip_leave env c ev t =
     (if tt_disposed t then t
      else (let t = (case ev of None \<Rightarrow> t | Some (trigger, inside) \<Rightarrow> t\<lparr>activeTrigger := oset (activeTrigger t) trigger inside\<rparr>) in
            if isWithActiveTrigger t then t
            else (let t = t\<lparr>tt_timer := None, hoverState := HoverOut\<rparr> in
                  if delay_hide c = 0 then tip_hide env c t else t\<lparr>tt_timer := Some HideTimer\<rparr>)))"

definition tip_shown :: "tip_env \<Rightarrow> tip_options \<Rightarrow> tooltip \<Rightarrow> tooltip" where
  "tip_shown env c t =
     (if tt_disposed t then t
      else (let prevHoverState = hoverState t; t = tip_event ''shown'' (t\<lparr>hoverState := HoverNone\<rparr>)
            in if prevHoverState = HoverOut then tip_leave env c None t else t))"

text \<open>From \<open>getTipElement\<close> to the classes of the client.\<close>

definition tip_display :: "tip_env \<Rightarrow> tip_options \<Rightarrow> tooltip \<Rightarrow> tooltip" where
  "tip_display env c t =
     (let t = getTipElement env c t;
          tipId = tip_uid env t;
          t = on_tip (set_attribute ''id'' tipId) t;
          t = t\<lparr>tt_element := set_attribute ''aria-describedby'' tipId (tt_element t)\<rparr>;
          t = (if tip_animation c then on_tip (add_class ''fade'') t else t);
          t = addAttachmentClass c (attachmentMap env (tip_placement c)) t;
          t = (if \<not> tt_in_page t then tip_event ''inserted'' (t\<lparr>tt_in_page := True\<rparr>) else t);
          t = t\<lparr>tt_popper := True\<rparr>;
          t = on_tip (add_class ''show'') t
      in fold (\<lambda>x. on_tip (add_class x)) (custom_classes c) t)"

text \<open>An element that is not displayed makes \<open>show\<close> throw.\<close>

definition tip_show :: "tip_env \<Rightarrow> tip_options \<Rightarrow> tooltip \<Rightarrow> tooltip" where
  "tip_show env c t =
     (if tt_disposed t \<or> style_of ''display'' (tt_element t) = ''none'' \<or> \<not> (isWithContent c t \<and> tt_enabled t) then t
      else (let prevented = tip_prevents env t ''show''; t = tip_event ''show'' t in
            if prevented \<or> \<not> in_document env then t
            else (let t = tip_display env c t
                  in if tip_has ''fade'' t then t\<lparr>tt_waiting := tt_waiting t @ [TipShown]\<rparr> else tip_shown env c t)))"

definition tip_enter :: "tip_env \<Rightarrow> tip_options \<Rightarrow> string option \<Rightarrow> tooltip \<Rightarrow> tooltip" where
  "tip_enter env c ev t =
     (if tt_disposed t then t
      else (let t = (case ev of None \<Rightarrow> t | Some trigger \<Rightarrow> t\<lparr>activeTrigger := oset (activeTrigger t) trigger True\<rparr>);
                t = getTipElement env c t in
            if tip_has ''show'' t \<or> hoverState t = HoverShow then t\<lparr>hoverState := HoverShow\<rparr>
            else (let t = t\<lparr>tt_timer := None, hoverState := HoverShow\<rparr> in
                  if delay_show c = 0 then tip_show env c t else t\<lparr>tt_timer := Some ShowTimer\<rparr>)))"

text \<open>\<open>toggle\<close> by a click, and called without an event.\<close>

definition tip_click :: "tip_env \<Rightarrow> tip_options \<Rightarrow> tooltip \<Rightarrow> tooltip" where
  "tip_click env c t =
     (if \<not> tt_enabled t \<or> tt_disposed t then t
      else (let t = t\<lparr>activeTrigger := oset (activeTrigger t) ''click'' (oget (activeTrigger t) ''click'' \<noteq> Some True)\<rparr>
            in if isWithActiveTrigger t then tip_enter env c None t else tip_leave env c None t))"

definition tip_toggle :: "tip_env \<Rightarrow> tip_options \<Rightarrow> tooltip \<Rightarrow> tooltip" where
  "tip_toggle env c t =
     (if \<not> tt_enabled t \<or> tt_disposed t then t
      else (let t = getTipElement env c t
            in if tip_has ''show'' t then tip_leave env c None t else tip_enter env c None t))"

definition tip_dispose :: "tooltip \<Rightarrow> tooltip" where
  "tip_dispose t =
     (if tt_disposed t then t
      else t\<lparr>tt_timer := None, tt_in_page := False, tt_popper := False, tt_disposed := True\<rparr>)"

text \<open>The title moves to an attribute of its own; the name for assistive technology is kept.\<close>

definition fixTitle :: "tip_env \<Rightarrow> styled \<Rightarrow> styled" where
  "fixTitle env el =
     (let title = oget (attrs_of el) ''title''; given = title \<noteq> None \<and> title \<noteq> Some [] in
      if given \<or> oget (attrs_of el) ''data-bs-original-title'' = None then
        (let label = oget (attrs_of el) ''aria-label'';
             el = set_attribute ''data-bs-original-title'' (case title of None \<Rightarrow> [] | Some s \<Rightarrow> s) el;
             el = (if given \<and> (label = None \<or> label = Some []) \<and> \<not> has_text env
                   then set_attribute ''aria-label'' (the title) el else el)
         in set_attribute ''title'' [] el)
      else el)"

definition tip_new :: "tip_env \<Rightarrow> styled \<Rightarrow> tooltip" where
  "tip_new env el =
     \<lparr>tt_element = fixTitle env el, tt_enabled = True, tt_timer = None, hoverState = HoverNone, activeTrigger = [],
      tt_popper = False, tt_tip = None, tt_in_page = False, tt_waiting = [], tt_events = [], tt_disposed = False\<rparr>"

section \<open>Events\<close>

text \<open>
  What happens on the element: a click, the pointer, the focus. \<open>_setListeners\<close> binds a handler for every word of the
  option; every word but \<open>click\<close>, \<open>hover\<close> and \<open>manual\<close> is for the focus.
\<close>

datatype trigger_event = ClickEvent | PointerIn | PointerOut bool | FocusIn | FocusOut bool

fun handles :: "trigger_event \<Rightarrow> string \<Rightarrow> bool" where
  "handles ClickEvent w = (w = ''click'')"
| "handles PointerIn w = (w = ''hover'')"
| "handles (PointerOut inside) w = (w = ''hover'')"
| "handles FocusIn w = (w \<notin> {''click'', ''hover'', ''manual''})"
| "handles (FocusOut inside) w = (w \<notin> {''click'', ''hover'', ''manual''})"

fun tip_handler :: "tip_env \<Rightarrow> tip_options \<Rightarrow> trigger_event \<Rightarrow> tooltip \<Rightarrow> tooltip" where
  "tip_handler env c ClickEvent t = tip_click env c t"
| "tip_handler env c PointerIn t = tip_enter env c (Some ''hover'') t"
| "tip_handler env c (PointerOut inside) t = tip_leave env c (Some (''hover'', inside)) t"
| "tip_handler env c FocusIn t = tip_enter env c (Some ''focus'') t"
| "tip_handler env c (FocusOut inside) t = tip_leave env c (Some (''focus'', inside)) t"

definition tip_trigger :: "tip_env \<Rightarrow> tip_options \<Rightarrow> trigger_event \<Rightarrow> tooltip \<Rightarrow> tooltip" where
  "tip_trigger env c e t = (tip_handler env c e ^^ length (filter (handles e) (tip_triggers c))) t"

definition tip_timeout :: "tip_env \<Rightarrow> tip_options \<Rightarrow> tooltip \<Rightarrow> tooltip" where
  "tip_timeout env c t =
     (case tt_timer t of
        None \<Rightarrow> t
      | Some ShowTimer \<Rightarrow> (let t = t\<lparr>tt_timer := None\<rparr> in if hoverState t = HoverShow then tip_show env c t else t)
      | Some HideTimer \<Rightarrow> (let t = t\<lparr>tt_timer := None\<rparr> in if hoverState t = HoverOut then tip_hide env c t else t))"

definition tip_transition_end :: "tip_env \<Rightarrow> tip_options \<Rightarrow> tooltip \<Rightarrow> tooltip" where
  "tip_transition_end env c t =
     fold (\<lambda>j. case j of TipShown \<Rightarrow> tip_shown env c | TipHidden \<Rightarrow> tip_hidden c) (tt_waiting t) (t\<lparr>tt_waiting := []\<rparr>)"

text \<open>Popper moved the tip.\<close>

definition tip_placed :: "tip_env \<Rightarrow> tip_options \<Rightarrow> string \<Rightarrow> tooltip \<Rightarrow> tooltip" where
  "tip_placed env c placement t =
     (if tt_popper t then addAttachmentClass c (attachmentMap env placement) (cleanTipClass c t) else t)"

end
