(* ===== verification/Bs_Tooltip_Properties.thy ===== *)
theory Bs_Tooltip_Properties
  imports Bs_Tooltip
begin

text \<open>
  Runs of a tooltip: the cycle of a pointer that comes and goes, what ties the popper to the element, and the calls
  after which a tooltip reacts no more.
\<close>

section \<open>Runs\<close>

datatype tip_action =
    TipTrigger trigger_event | ToggleCall | ShowCall | HideCall | TipTimeout | TipEnd | Placed string | SetEnabled bool

primrec tip_step :: "tip_env \<Rightarrow> tip_options \<Rightarrow> tip_action \<Rightarrow> tooltip \<Rightarrow> tooltip" where
  "tip_step env c (TipTrigger e) t = tip_trigger env c e t"
| "tip_step env c ToggleCall t = tip_toggle env c t"
| "tip_step env c ShowCall t = tip_show env c t"
| "tip_step env c HideCall t = tip_hide env c t"
| "tip_step env c TipTimeout t = tip_timeout env c t"
| "tip_step env c TipEnd t = tip_transition_end env c t"
| "tip_step env c (Placed p) t = tip_placed env c p t"
| "tip_step env c (SetEnabled b) t = t\<lparr>tt_enabled := b\<rparr>"

definition tip_run :: "tip_env \<Rightarrow> tip_options \<Rightarrow> tip_action list \<Rightarrow> tooltip \<Rightarrow> tooltip" where
  "tip_run env c as t = fold (tip_step env c) as t"

section \<open>What steps leave alone\<close>

declare not_None_eq [simp del] not_Some_eq [simp del]

lemma on_tip_simps [simp]:
  "tt_element (on_tip f t) = tt_element t" "tt_enabled (on_tip f t) = tt_enabled t" "tt_timer (on_tip f t) = tt_timer t"
  "hoverState (on_tip f t) = hoverState t" "activeTrigger (on_tip f t) = activeTrigger t" "tt_popper (on_tip f t) = tt_popper t"
  "tt_in_page (on_tip f t) = tt_in_page t" "tt_waiting (on_tip f t) = tt_waiting t" "tt_events (on_tip f t) = tt_events t"
  "tt_disposed (on_tip f t) = tt_disposed t" "tt_tip (on_tip f t) = None \<longleftrightarrow> tt_tip t = None"
  by (simp_all add: on_tip_def)

lemma tip_event_simps [simp]:
  "tt_element (tip_event ev t) = tt_element t" "tt_enabled (tip_event ev t) = tt_enabled t" "tt_timer (tip_event ev t) = tt_timer t"
  "hoverState (tip_event ev t) = hoverState t" "activeTrigger (tip_event ev t) = activeTrigger t" "tt_popper (tip_event ev t) = tt_popper t"
  "tt_in_page (tip_event ev t) = tt_in_page t" "tt_waiting (tip_event ev t) = tt_waiting t"
  "tt_events (tip_event ev t) = tt_events t @ [ev]" "tt_disposed (tip_event ev t) = tt_disposed t" "tt_tip (tip_event ev t) = tt_tip t"
  by (simp_all add: tip_event_def)

lemma getTip_simps [simp]:
  "tt_element (getTipElement env c t) = tt_element t" "tt_enabled (getTipElement env c t) = tt_enabled t"
  "tt_timer (getTipElement env c t) = tt_timer t" "hoverState (getTipElement env c t) = hoverState t"
  "activeTrigger (getTipElement env c t) = activeTrigger t" "tt_popper (getTipElement env c t) = tt_popper t"
  "tt_in_page (getTipElement env c t) = tt_in_page t" "tt_waiting (getTipElement env c t) = tt_waiting t"
  "tt_events (getTipElement env c t) = tt_events t" "tt_disposed (getTipElement env c t) = tt_disposed t"
  "tt_tip (getTipElement env c t) \<noteq> None" "tip_has ''show'' (getTipElement env c t) = tip_has ''show'' t"
  by (auto simp: getTipElement_def tip_has_def split: option.split)

lemma getTip_id [simp]: "tt_tip t \<noteq> None \<Longrightarrow> getTipElement env c t = t"
  by (auto simp: getTipElement_def)

lemma clean_simps [simp]:
  "tt_element (cleanTipClass c t) = tt_element t" "tt_enabled (cleanTipClass c t) = tt_enabled t" "tt_timer (cleanTipClass c t) = tt_timer t"
  "hoverState (cleanTipClass c t) = hoverState t" "activeTrigger (cleanTipClass c t) = activeTrigger t"
  "tt_popper (cleanTipClass c t) = tt_popper t" "tt_in_page (cleanTipClass c t) = tt_in_page t"
  "tt_waiting (cleanTipClass c t) = tt_waiting t" "tt_events (cleanTipClass c t) = tt_events t"
  "tt_disposed (cleanTipClass c t) = tt_disposed t" "tt_tip (cleanTipClass c t) = None \<longleftrightarrow> tt_tip t = None"
  "tip_has ''show'' (cleanTipClass c t) = tip_has ''show'' t"
  by (auto simp: cleanTipClass_def tip_has_def on_tip_def basicClassPrefix_def strict_prefix_def split: option.split tip_kind.split)

lemma custom_simps [simp]:
  "tt_element (fold (\<lambda>x. on_tip (add_class x)) cs t) = tt_element t" "tt_enabled (fold (\<lambda>x. on_tip (add_class x)) cs t) = tt_enabled t"
  "tt_timer (fold (\<lambda>x. on_tip (add_class x)) cs t) = tt_timer t" "hoverState (fold (\<lambda>x. on_tip (add_class x)) cs t) = hoverState t"
  "activeTrigger (fold (\<lambda>x. on_tip (add_class x)) cs t) = activeTrigger t" "tt_popper (fold (\<lambda>x. on_tip (add_class x)) cs t) = tt_popper t"
  "tt_in_page (fold (\<lambda>x. on_tip (add_class x)) cs t) = tt_in_page t" "tt_waiting (fold (\<lambda>x. on_tip (add_class x)) cs t) = tt_waiting t"
  "tt_events (fold (\<lambda>x. on_tip (add_class x)) cs t) = tt_events t" "tt_disposed (fold (\<lambda>x. on_tip (add_class x)) cs t) = tt_disposed t"
  "tt_tip (fold (\<lambda>x. on_tip (add_class x)) cs t) = None \<longleftrightarrow> tt_tip t = None"
  by (induction cs arbitrary: t) simp_all

lemma tip_has_simps [simp]:
  "tip_has d (on_tip (add_class x) t) \<longleftrightarrow> tt_tip t \<noteq> None \<and> (d = x \<or> tip_has d t)"
  "tip_has d (on_tip (remove_class x) t) \<longleftrightarrow> d \<noteq> x \<and> tip_has d t"
  "tip_has d (on_tip (set_attribute k v) t) = tip_has d t" "tip_has d (tip_event ev t) = tip_has d t"
  "tip_has d (t\<lparr>tt_popper := b\<rparr>) = tip_has d t" "tip_has d (t\<lparr>tt_in_page := b\<rparr>) = tip_has d t" "tip_has d (t\<lparr>tt_element := el\<rparr>) = tip_has d t"
  "tip_has d (t\<lparr>hoverState := h\<rparr>) = tip_has d t" "tip_has d (t\<lparr>activeTrigger := a\<rparr>) = tip_has d t" "tip_has d (t\<lparr>tt_timer := tm\<rparr>) = tip_has d t"
  "tip_has d (t\<lparr>tt_waiting := ws\<rparr>) = tip_has d t" "tip_has d (t\<lparr>tt_enabled := b\<rparr>) = tip_has d t"
  by (auto simp: tip_has_def on_tip_def tip_event_def split: option.split)

lemma tip_has_tip: "tip_has d t \<Longrightarrow> tt_tip t \<noteq> None"
  by (auto simp: tip_has_def split: option.splits)

lemma tip_has_custom [simp]:
  "tip_has d (fold (\<lambda>x. on_tip (add_class x)) cs t) \<longleftrightarrow> tip_has d t \<or> tt_tip t \<noteq> None \<and> d \<in> set cs"
  by (induction cs arbitrary: t) (auto dest: tip_has_tip)

lemma attachment_simps [simp]:
  "tt_element (addAttachmentClass c a t) = tt_element t" "tt_enabled (addAttachmentClass c a t) = tt_enabled t"
  "tt_timer (addAttachmentClass c a t) = tt_timer t" "hoverState (addAttachmentClass c a t) = hoverState t"
  "activeTrigger (addAttachmentClass c a t) = activeTrigger t" "tt_popper (addAttachmentClass c a t) = tt_popper t"
  "tt_in_page (addAttachmentClass c a t) = tt_in_page t" "tt_waiting (addAttachmentClass c a t) = tt_waiting t"
  "tt_events (addAttachmentClass c a t) = tt_events t" "tt_disposed (addAttachmentClass c a t) = tt_disposed t"
  "tt_tip (addAttachmentClass c a t) = None \<longleftrightarrow> tt_tip t = None" "tip_has ''show'' t \<Longrightarrow> tip_has ''show'' (addAttachmentClass c a t)"
  "tip_has ''fade'' t \<Longrightarrow> tip_has ''fade'' (addAttachmentClass c a t)"
  by (auto simp: addAttachmentClass_def dest: tip_has_tip)

lemma active_simps [simp]:
  "isWithActiveTrigger (on_tip f t) = isWithActiveTrigger t" "isWithActiveTrigger (tip_event ev t) = isWithActiveTrigger t"
  "isWithActiveTrigger (getTipElement env c t) = isWithActiveTrigger t" "isWithActiveTrigger (cleanTipClass c t) = isWithActiveTrigger t"
  "isWithActiveTrigger (t\<lparr>hoverState := h\<rparr>) = isWithActiveTrigger t" "isWithActiveTrigger (t\<lparr>tt_waiting := ws\<rparr>) = isWithActiveTrigger t"
  "isWithActiveTrigger (t\<lparr>tt_timer := tm\<rparr>) = isWithActiveTrigger t" "isWithActiveTrigger (t\<lparr>tt_in_page := b\<rparr>) = isWithActiveTrigger t"
  "isWithActiveTrigger (t\<lparr>tt_popper := b\<rparr>) = isWithActiveTrigger t" "isWithActiveTrigger (t\<lparr>tt_element := el\<rparr>) = isWithActiveTrigger t"
  by (simp_all add: isWithActiveTrigger_def)

lemma set_oset: "set (oset ob k v) \<subseteq> insert (k, v) (set ob)"
  by (induction ob k v rule: oset.induct) auto

lemma oset_active: "(k, v) \<in> set (oset ob k v)"
  by (induction ob k v rule: oset.induct) auto

section \<open>A tooltip that jams\<close>

text \<open>Its tip has the class of a shown one, but there is no popper: \<open>_enter\<close> takes it for shown, \<open>hide\<close> for hidden.\<close>

definition jammed :: "bool \<Rightarrow> tooltip \<Rightarrow> bool" where
  "jammed visible t \<longleftrightarrow> tip_has ''show'' t \<and> tt_tip t \<noteq> None \<and> \<not> tt_popper t \<and> tt_timer t \<noteq> Some ShowTimer \<and>
     TipHidden \<notin> set (tt_waiting t) \<and> \<not> tt_disposed t \<and> tt_in_page t = visible"



lemma jammed_update [simp]:
  "jammed b (t\<lparr>hoverState := h\<rparr>) = jammed b t" "jammed b (t\<lparr>activeTrigger := a\<rparr>) = jammed b t" "jammed b (tip_event ev t) = jammed b t"
  "jammed b (t\<lparr>tt_enabled := e\<rparr>) = jammed b t"
  by (simp_all add: jammed_def)





lemma oset_inactive:
  assumes "\<not> (\<exists>(k, b) \<in> set ob. b)"
  shows "\<not> (\<exists>(k, b) \<in> set (oset ob x False). b)"
  using assms set_oset [of ob x False] by auto


text \<open>A tooltip that \<open>show\<close> can show; one at rest.\<close>

definition can_show :: "tip_env \<Rightarrow> tip_options \<Rightarrow> tooltip \<Rightarrow> bool" where
  "can_show env c t \<longleftrightarrow> in_document env \<and> (\<forall>u ev. \<not> tip_prevents env u ev) \<and> style_of ''display'' (tt_element t) \<noteq> ''none'' \<and>
     isWithContent c t \<and> tt_enabled t \<and> \<not> tt_disposed t"

definition at_rest :: "tooltip \<Rightarrow> bool" where
  "at_rest t \<longleftrightarrow> tt_waiting t = [] \<and> tt_timer t = None \<and> hoverState t = HoverNone \<and> \<not> isWithActiveTrigger t"

lemma content_cong: "tt_element u = tt_element t \<Longrightarrow> isWithContent c u = isWithContent c t"
  by (simp add: isWithContent_def getTitle_def split: tip_kind.split)


text \<open>\<open>show\<close> up to its callback.\<close>

lemma getTip_fade: "tip_has ''fade'' t \<Longrightarrow> tip_has ''fade'' (getTipElement env c t)"
  using tip_has_tip [of "''fade''" t] by simp

lemma display_simps [simp]:
  "tt_waiting (tip_display env c t) = tt_waiting t" "tt_in_page (tip_display env c t)" "tt_popper (tip_display env c t)"
  "hoverState (tip_display env c t) = hoverState t" "tt_timer (tip_display env c t) = tt_timer t" "tip_has ''show'' (tip_display env c t)"
  "tip_animation c \<or> tip_has ''fade'' t \<Longrightarrow> tip_has ''fade'' (tip_display env c t)"
  "tt_events (tip_display env c t) = tt_events t @ (if tt_in_page t then [] else [''inserted''])"
  "activeTrigger (tip_display env c t) = activeTrigger t" "oget (attrs_of (tt_element (tip_display env c t))) ''aria-describedby'' \<noteq> None"
  "tt_disposed (tip_display env c t) = tt_disposed t" "tt_tip (tip_display env c t) \<noteq> None" "tt_enabled (tip_display env c t) = tt_enabled t"
  by (auto simp: tip_display_def Let_def set_attribute_def getTip_fade)

lemma display_element: "\<exists>v. tt_element (tip_display env c t) = set_attribute ''aria-describedby'' v (tt_element t)"
  by (auto simp: tip_display_def Let_def)

lemma described_content:
  "tt_element u = set_attribute ''aria-describedby'' v (tt_element t) \<Longrightarrow>
    isWithContent c u = isWithContent c t \<and> style_of k (tt_element u) = style_of k (tt_element t)"
  by (simp add: isWithContent_def getTitle_def style_of_def set_attribute_def split: tip_kind.split)



definition demo_options :: "tip_options" where
  "demo_options = \<lparr>tip_kind = TooltipKind, tip_animation = True, delay_show = 0, delay_hide = 0, conf_title = ''more'',
     conf_content = [], tip_placement = ''top'', custom_classes = [], tip_triggers = [''hover'', ''focus''], tip_html = False,
     tip_sanitize = True, template_classes = [''tooltip'']\<rparr>"

definition demo_tip_env :: tip_env where
  "demo_tip_env = \<lparr>in_document = True, tip_prevents = (\<lambda>_ _. False), tip_uid = (\<lambda>_. ''tooltip123456''), tip_rtl = False,
     sanitized = id, has_text = True\<rparr>"

definition demo_tooltip :: tooltip where
  "demo_tooltip = tip_new demo_tip_env \<lparr>styles = [], attrs_of = [(''title'', ''old'')], class_list = []\<rparr>"


lemma demo_tip_facts:
  "can_show demo_tip_env demo_options demo_tooltip" "at_rest demo_tooltip" "\<not> tt_popper demo_tooltip" "\<not> tt_in_page demo_tooltip"
  "\<not> tip_has ''show'' demo_tooltip" "delay_show demo_options = 0"
  by (simp_all add: can_show_def at_rest_def demo_tip_env_def demo_options_def demo_tooltip_def tip_new_def fixTitle_def Let_def
      style_of_def isWithContent_def getTitle_def isWithActiveTrigger_def tip_has_def set_attribute_def)



section \<open>The popper and the element\<close>

text \<open>There is a popper exactly while the element refers to its tip.\<close>

definition linked :: "tooltip \<Rightarrow> bool" where
  "linked t \<longleftrightarrow> tt_popper t = (oget (attrs_of (tt_element t)) ''aria-describedby'' \<noteq> None)"

lemma linked_simps [simp]:
  "linked (tip_event ev t) = linked t" "linked (on_tip f t) = linked t" "linked (getTipElement env c t) = linked t"
  "linked (cleanTipClass c t) = linked t" "linked (addAttachmentClass c a t) = linked t" "linked (t\<lparr>hoverState := h\<rparr>) = linked t"
  "linked (t\<lparr>activeTrigger := as\<rparr>) = linked t" "linked (t\<lparr>tt_timer := tm\<rparr>) = linked t" "linked (t\<lparr>tt_waiting := ws\<rparr>) = linked t"
  "linked (t\<lparr>tt_in_page := b\<rparr>) = linked t" "linked (t\<lparr>tt_enabled := b\<rparr>) = linked t"
  by (simp_all add: linked_def)

lemma linked_ops:
  assumes "linked t"
  shows "linked (tip_hidden c t)" "linked (tip_hide env c t)" "linked (tip_leave env c ev t)" "linked (tip_shown env c t)"
    "linked (tip_show env c t)" "linked (tip_enter env c ev' t)"
proof -
  have hidden: "linked (tip_hidden c t)" if "linked t" for t
    using that by (simp add: tip_hidden_def Let_def) (simp add: linked_def drop_attribute_def)
  have hide: "linked (tip_hide env c t)" if "linked t" for t
    using that hidden by (simp add: tip_hide_def Let_def)
  have leave: "linked (tip_leave env c ev t)" if "linked t" for t ev
    using that hide by (simp add: tip_leave_def Let_def split: option.split)
  have shown: "linked (tip_shown env c t)" if "linked t" for t
    using that leave by (simp add: tip_shown_def Let_def)
  have "linked (tip_display env c t)" for t by (simp add: linked_def)
  then have "linked (tip_show env c t)" if "linked t" for t
    using that shown by (simp add: tip_show_def Let_def)
  moreover from this have "linked (tip_enter env c ev' t)" if "linked t" for t
    using that by (simp add: tip_enter_def Let_def split: option.split)
  ultimately show "linked (tip_hidden c t)" "linked (tip_hide env c t)" "linked (tip_leave env c ev t)" "linked (tip_shown env c t)"
    "linked (tip_show env c t)" "linked (tip_enter env c ev' t)"
    using assms hidden hide leave shown by simp_all
qed

lemma linked_step:
  assumes "linked t"
  shows "linked (tip_step env c a t)"
proof (cases a)
  case (TipTrigger e)
  have "linked (tip_handler env c e u)" if "linked u" for u
    using that by (cases e) (simp_all add: tip_click_def Let_def linked_ops)
  then show ?thesis unfolding TipTrigger tip_step.simps tip_trigger_def by (rule funpow_keeps [where P = linked, OF assms])
next
  case TipEnd
  have "linked (fold (\<lambda>j. case j of TipShown \<Rightarrow> tip_shown env c | TipHidden \<Rightarrow> tip_hidden c) (tt_waiting t) (t\<lparr>tt_waiting := []\<rparr>))"
    by (rule fold_keeps [where P = linked]) (use assms linked_ops in \<open>auto split: tip_job.split\<close>)
  then show ?thesis by (simp add: TipEnd tip_transition_end_def)
qed (use assms in \<open>simp_all add: tip_toggle_def tip_timeout_def tip_placed_def Let_def linked_ops split: option.split tip_timer.split\<close>)

text \<open>In every run there is a popper exactly while the element refers to the tip.\<close>

theorem tooltip_linked: "linked t \<Longrightarrow> linked (tip_run env c as t)"
  unfolding tip_run_def by (rule fold_keeps [where P = linked]) (rule linked_step)

section \<open>The cycle of a pointer\<close>

lemma oset_again: "oset (oset ob k v) k w = oset ob k w"
  by (induction ob k v rule: oset.induct) auto

lemma hover_once:
  assumes "length (filter (\<lambda>w. w = ''hover'') (tip_triggers c)) = 1"
  shows "tip_step env c (TipTrigger PointerIn) t = tip_enter env c (Some ''hover'') t"
    "tip_step env c (TipTrigger (PointerOut b)) t = tip_leave env c (Some (''hover'', b)) t"
proof -
  have "handles PointerIn = (\<lambda>w. w = ''hover'')" "handles (PointerOut b) = (\<lambda>w. w = ''hover'')"
    by (simp_all add: fun_eq_iff)
  then show "tip_step env c (TipTrigger PointerIn) t = tip_enter env c (Some ''hover'') t"
    "tip_step env c (TipTrigger (PointerOut b)) t = tip_leave env c (Some (''hover'', b)) t"
    using assms by (simp_all add: tip_trigger_def)
qed

text \<open>A tooltip that is shown because of the pointer; everything is over.\<close>

definition hovered :: "(string \<times> bool) list \<Rightarrow> tooltip \<Rightarrow> bool" where
  "hovered as t \<longleftrightarrow> tt_popper t \<and> tt_in_page t \<and> tip_has ''show'' t \<and> tt_waiting t = [] \<and> tt_timer t = None \<and>
     hoverState t = HoverNone \<and> activeTrigger t = oset as ''hover'' True"

lemma pointer_enters:
  assumes "can_show env c t" "at_rest t" "\<not> tt_popper t" "\<not> tt_in_page t" "\<not> tip_has ''show'' t"
    "length (filter (\<lambda>w. w = ''hover'') (tip_triggers c)) = 1" "q = tip_run env c [TipTrigger PointerIn, TipTimeout, TipEnd] t"
  shows "hovered (activeTrigger t) q \<and> can_show env c q \<and> tt_events q = tt_events t @ [''show'', ''inserted'', ''shown'']"
proof -
  define s where "s = (getTipElement env c (t\<lparr>activeTrigger := oset (activeTrigger t) ''hover'' True\<rparr>))\<lparr>tt_timer := None, hoverState := HoverShow\<rparr>"
  have s: "tt_element s = tt_element t" "tt_waiting s = []" "tt_timer s = None" "hoverState s = HoverShow" "\<not> tt_in_page s"
    "tt_events s = tt_events t" "activeTrigger s = oset (activeTrigger t) ''hover'' True" "tt_enabled s = tt_enabled t" "tt_disposed s = tt_disposed t"
    using assms(2,4) by (simp_all add: s_def at_rest_def)
  have cs: "can_show env c s" using assms(1) s(1,8,9) content_cong [OF s(1)] by (simp add: can_show_def)
  define d where "d = tip_display env c (tip_event ''show'' s)"
  have d: "tt_waiting d = []" "tt_in_page d" "tt_popper d" "hoverState d = HoverShow" "tt_timer d = None" "tip_has ''show'' d"
    "tt_events d = tt_events t @ [''show'', ''inserted'']" "activeTrigger d = oset (activeTrigger t) ''hover'' True" "\<not> tt_disposed d" "tt_enabled d"
    using s cs by (simp_all add: d_def can_show_def)
  have cd: "can_show env c d"
  proof -
    obtain v where "tt_element d = set_attribute ''aria-describedby'' v (tt_element s)"
      using display_element [of env c "tip_event ''show'' s"] by (auto simp: d_def)
    then show ?thesis using described_content [of d v s c "''display''"] cs d(9,10) by (simp add: can_show_def)
  qed
  have show_s: "tip_show env c s = (if tip_has ''fade'' d then d\<lparr>tt_waiting := [TipShown]\<rparr>
      else tip_event ''shown'' (d\<lparr>hoverState := HoverNone\<rparr>))"
    using cs d(1,4,9) by (simp add: can_show_def tip_show_def tip_shown_def d_def [symmetric] Let_def)
  have "tip_enter env c (Some ''hover'') t = (if delay_show c = 0 then tip_show env c s else s\<lparr>tt_timer := Some ShowTimer\<rparr>)"
    using assms(1,2,5) by (simp add: tip_enter_def can_show_def at_rest_def s_def Let_def)
  moreover have same: "tt_timer_update (\<lambda>_. None) s = s" by (simp add: s_def)
  ultimately have "q = tip_transition_end env c (tip_show env c s)"
    using show_s d(5) s(3,4) by (simp add: same assms(7) tip_run_def hover_once [OF assms(6)] tip_timeout_def Let_def del: tip_step.simps(1))
  then have q: "q = tip_event ''shown'' (d\<lparr>hoverState := HoverNone\<rparr>)"
    using show_s d(1,4,9) by (auto simp: tip_transition_end_def tip_shown_def Let_def)
  then show ?thesis
    using d cd content_cong [of q d c] by (simp add: hovered_def can_show_def)
qed

lemma pointer_leaves:
  assumes "can_show env c t" "hovered as t" "\<not> (\<exists>(k, b) \<in> set as. b)"
    "length (filter (\<lambda>w. w = ''hover'') (tip_triggers c)) = 1" "q = tip_run env c [TipTrigger (PointerOut False), TipTimeout, TipEnd] t"
  shows "at_rest q \<and> \<not> tt_popper q \<and> \<not> tt_in_page q \<and> \<not> tip_has ''show'' q \<and>
    oget (attrs_of (tt_element q)) ''aria-describedby'' = None \<and> tt_events q = tt_events t @ [''hide'', ''hidden'']"
proof -
  define s where "s = t\<lparr>activeTrigger := oset as ''hover'' False, tt_timer := None, hoverState := HoverOut\<rparr>"
  have tip: "tt_tip t \<noteq> None" using assms(2) tip_has_tip [of "''show''" t] by (simp add: hovered_def)
  have quiet: "\<not> (\<exists>(k, b) \<in> set (oset as ''hover'' False). b)" by (rule oset_inactive [OF assms(3)])
  have "tip_leave env c (Some (''hover'', False)) t = (if delay_hide c = 0 then tip_hide env c s else s\<lparr>tt_timer := Some HideTimer\<rparr>)"
    using assms(1,2) quiet
    by (simp add: tip_leave_def can_show_def hovered_def s_def isWithActiveTrigger_def oset_again Let_def)
  moreover have s: "tt_popper s" "tt_tip s \<noteq> None" "tt_waiting s = []" "tt_timer s = None" "tt_events s = tt_events t" "\<not> tt_disposed s"
    "hoverState s = HoverOut" "tt_in_page s"
    using assms(1,2) tip by (simp_all add: s_def hovered_def can_show_def)
  have same: "tt_timer_update (\<lambda>_. None) s = s" by (simp add: s_def)
  define a where "a = oset (oset (oset (oset as ''hover'' False) ''click'' False) ''focus'' False) ''hover'' False"
  have a: "\<not> (\<exists>(k, b) \<in> set a. b)" unfolding a_def by (intro oset_inactive quiet)
  define w where "w = (on_tip (remove_class ''show'') (tip_event ''hide'' s))\<lparr>activeTrigger := a\<rparr>"
  have w: "tt_waiting w = []" "tt_timer w = None" "tt_events w = tt_events t @ [''hide'']" "\<not> tt_disposed w" "\<not> tip_has ''show'' w"
    "\<not> isWithActiveTrigger w" "hoverState w = HoverOut" "activeTrigger w = a"
    using s a by (simp_all add: w_def isWithActiveTrigger_def)
  have hide: "tip_hide env c s = (if tip_has ''fade'' w then w\<lparr>tt_waiting := [TipHidden], hoverState := HoverNone\<rparr>
      else (tip_hidden c w)\<lparr>hoverState := HoverNone\<rparr>)"
    using assms(1) s w(1) by (simp add: tip_hide_def can_show_def w_def a_def s_def Let_def)
  have timer: "tt_timer (tip_hide env c s) = None"
    using w by (simp add: hide tip_hidden_def Let_def)
  ultimately have q: "q = tip_transition_end env c (tip_hide env c s)"
    by (simp add: same assms(5) tip_run_def hover_once [OF assms(4)] tip_timeout_def s(4,7) Let_def del: tip_step.simps(1))
  show ?thesis
    unfolding q tip_transition_end_def hide
    using w by (simp add: tip_hidden_def at_rest_def drop_attribute_def Let_def)
qed

text \<open>C37: The pointer comes and goes, with whatever delays: the tooltip is shown, then hidden, with its five events in order,
  and in the end the tip is out of the page, nothing is pending, and the element no longer refers to it.
\<close>

theorem tooltip_hover_cycle:
  assumes "can_show env c t" and "at_rest t" and "\<not> tt_popper t" and "\<not> tt_in_page t" and "\<not> tip_has ''show'' t"
    and "length (filter (\<lambda>w. w = ''hover'') (tip_triggers c)) = 1"
  shows "let shown = tip_run env c [TipTrigger PointerIn, TipTimeout, TipEnd] t;
      q = tip_run env c [TipTrigger (PointerOut False), TipTimeout, TipEnd] shown
    in tt_in_page shown \<and> tip_has ''show'' shown \<and> at_rest q \<and> \<not> tt_in_page q \<and> \<not> tip_has ''show'' q \<and>
      oget (attrs_of (tt_element q)) ''aria-describedby'' = None \<and>
      tt_events q = tt_events t @ [''show'', ''inserted'', ''shown'', ''hide'', ''hidden'']"
proof -
  have "\<not> (\<exists>(k, b) \<in> set (activeTrigger t). b)" using assms(2) by (simp add: at_rest_def isWithActiveTrigger_def)
  with pointer_enters [OF assms refl] pointer_leaves [OF _ _ this assms(6) refl] show ?thesis
    by (auto simp: hovered_def Let_def)
qed

theorem tooltip_hover_cycle_witness:
  "tt_events (tip_run demo_tip_env demo_options [TipTrigger (PointerOut False), TipTimeout, TipEnd]
     (tip_run demo_tip_env demo_options [TipTrigger PointerIn, TipTimeout, TipEnd] demo_tooltip))
   = [''show'', ''inserted'', ''shown'', ''hide'', ''hidden'']"
proof -
  have "length (filter (\<lambda>w. w = ''hover'') (tip_triggers demo_options)) = 1" "tt_events demo_tooltip = []"
    by (simp_all add: demo_options_def demo_tooltip_def tip_new_def)
  then show ?thesis using tooltip_hover_cycle [OF demo_tip_facts(1-5)] by (simp add: Let_def)
qed

end
