(* ===== verification/Bs_Dropdown.thy ===== *)
theory Bs_Dropdown
  imports Bs_Dom "HOL-Library.Sublist"
begin

text \<open>
  Drop-down menus of \<open>bootstrap.js\<close>: the toggles and menus of a page, one instance per toggle, the focus, and the
  listeners for clicks and keys. Popper is a parameter: a popper is what \<open>createPopper\<close> was called with, and whether it
  was destroyed. The listeners for touch devices are left out.
\<close>

section \<open>State\<close>

text \<open>What Popper is called with. The offset is a value, the numbers of a text, or the function of the client.\<close>

datatype dd_offset = OffsetValue bval | OffsetNumbers "jsnum list" | OffsetFunction

datatype popper_modifier =
    PreventOverflow bval | PopperOffset dd_offset | ApplyStyles "bool option" | OtherModifier string

record popper_config =
  pop_placement :: string
  pop_modifiers :: "popper_modifier list"

record popper =
  pop_reference :: bval
  pop_menu :: nat
  pop_config :: popper_config
  pop_alive :: bool

text \<open>
  The instance is registered before its options are checked: when the check throws, an instance without options and
  without a menu stays in the registry.
\<close>

record dropdown =
  dd_config :: "(string \<times> bval) list option"
  dd_menu :: "nat option"
  dd_inNavbar :: bool
  dd_popper :: "popper option"

text \<open>The elements of the page, the property \<open>disabled\<close> of those that have it, the instances of the toggles.\<close>

record dd_page =
  dd_doc :: sheet
  dd_property :: "nat \<Rightarrow> bool option"
  dd_inst :: "nat \<Rightarrow> dropdown option"
  dd_focus :: "nat option"
  dd_events :: "(string \<times> nat) list"

text \<open>
  Where elements lie: the toggles and menus, the menu after a toggle and the toggle before a menu, what
  \<open>getParentFromElement\<close> gives, the classes of the parent, the custom property \<open>--bs-position\<close> of a menu, whether a
  toggle lies in a navigation bar, and the items of a menu that are not disabled, which are visible when it is shown.
  What listeners decide, and what the option of the client makes of the configuration of Popper.
\<close>

record dd_env =
  dd_rtl :: bool
  popper_loaded :: bool
  dd_toggles :: "nat list"
  dd_menus :: "nat list"
  menu_of :: "nat \<Rightarrow> nat"
  toggle_of :: "nat \<Rightarrow> nat"
  dd_parent :: "nat \<Rightarrow> nat"
  parent_classes :: "nat \<Rightarrow> string list"
  menu_position :: "nat \<Rightarrow> string"
  in_navbar :: "nat \<Rightarrow> bool"
  menu_items :: "nat \<Rightarrow> nat list"
  dd_prevents :: "dd_page \<Rightarrow> string \<Rightarrow> nat \<Rightarrow> bool"
  client_popper :: "bval \<Rightarrow> popper_config \<Rightarrow> popper_config"

text \<open>An event of the page: its path begins with its target. A key has no button.\<close>

record dd_input =
  in_type :: string
  in_key :: string
  in_button :: nat
  in_tag :: string
  in_path :: "nat list"

definition dd_do :: "nat \<Rightarrow> (styled \<Rightarrow> styled) \<Rightarrow> dd_page \<Rightarrow> dd_page" where
  "dd_do e f p = p\<lparr>dd_doc := (dd_doc p)(e := f (dd_doc p e))\<rparr>"

definition dd_event :: "string \<Rightarrow> nat \<Rightarrow> dd_page \<Rightarrow> dd_page" where
  "dd_event ev e p = p\<lparr>dd_events := dd_events p @ [(ev, e)]\<rparr>"

definition dd_option :: "dropdown \<Rightarrow> string \<Rightarrow> bval" where
  "dd_option d k = (case dd_config d of None \<Rightarrow> BUndefined | Some c \<Rightarrow> bget c k)"

definition dd_isShown :: "nat \<Rightarrow> dd_page \<Rightarrow> bool" where
  "dd_isShown e p \<longleftrightarrow> ''show'' \<in> set (class_list (dd_doc p e))"

section \<open>What Popper is called with\<close>

definition dd_placement :: "bool \<Rightarrow> string list \<Rightarrow> string \<Rightarrow> string" where
  "dd_placement rtl cs position =
     (if ''dropend'' \<in> set cs then (if rtl then ''left-start'' else ''right-start'')
      else if ''dropstart'' \<in> set cs then (if rtl then ''right-start'' else ''left-start'')
      else
        let isEnd = trim position = ''end'' in
        if ''dropup'' \<in> set cs then (if isEnd \<noteq> rtl then ''top-end'' else ''top-start'')
        else if isEnd \<noteq> rtl then ''bottom-end'' else ''bottom-start'')"

definition dd_getOffset :: "dropdown \<Rightarrow> dd_offset" where
  "dd_getOffset d =
     (case dd_option d ''offset'' of
        BStr s \<Rightarrow> OffsetNumbers (map parse_int (split_where (\<lambda>c. c = CHR '','') s))
      | BFun \<Rightarrow> OffsetFunction
      | v \<Rightarrow> OffsetValue v)"

definition getPopperConfig :: "dd_env \<Rightarrow> nat \<Rightarrow> dropdown \<Rightarrow> nat \<Rightarrow> popper_config" where
  "getPopperConfig env i d m =
     (let default = \<lparr>pop_placement = dd_placement (dd_rtl env) (parent_classes env i) (menu_position env m),
                     pop_modifiers = [PreventOverflow (dd_option d ''boundary''), PopperOffset (dd_getOffset d)]\<rparr>;
          default = (case dd_option d ''display'' of
              BStr s \<Rightarrow> if s = ''static'' then default\<lparr>pop_modifiers := [ApplyStyles (Some False)]\<rparr> else default
            | _ \<Rightarrow> default)
      in case dd_option d ''popperConfig'' of BNull \<Rightarrow> default | v \<Rightarrow> client_popper env v default)"

text \<open>After the check of the options, \<open>isElement\<close> does not throw on the reference.\<close>

definition referenceElement :: "dd_env \<Rightarrow> nat \<Rightarrow> dropdown \<Rightarrow> bval" where
  "referenceElement env i d =
     (let ref = dd_option d ''reference'' in
      case ref of
        BStr s \<Rightarrow> if s = ''parent'' then BElem (dd_parent env i) else BElem i
      | _ \<Rightarrow> if isElement ref = Some True then (if truthy_b (bprop ref ''jquery'') then bprop ref ''0'' else ref)
             else if is_object ref then ref else BElem i)"

definition createPopper :: "dd_env \<Rightarrow> nat \<Rightarrow> dropdown \<Rightarrow> nat \<Rightarrow> dd_page \<Rightarrow> dd_page" where
  "createPopper env i d m p =
     (let config = getPopperConfig env i d m;
          isDisplayStatic = ApplyStyles (Some False) \<in> set (pop_modifiers config);
          p = p\<lparr>dd_inst := (dd_inst p)(i \<mapsto> d\<lparr>dd_popper := Some
                \<lparr>pop_reference = referenceElement env i d, pop_menu = m, pop_config = config, pop_alive = True\<rparr>\<rparr>)\<rparr>
      in if isDisplayStatic then dd_do m (\<lambda>el. el\<lparr>attrs_of := setDataAttribute (attrs_of el) ''popper'' ''static''\<rparr>) p
         else p)"

section \<open>Showing and hiding\<close>

text \<open>
  The second part of a result is whether the code returned, and did not throw. The constructor registers the instance,
  then the options are checked; an element is taken to have no component of another kind.
\<close>

definition dd_getOrCreate :: "dd_env \<Rightarrow> bval \<Rightarrow> nat \<Rightarrow> dd_page \<Rightarrow> dd_page \<times> bool" where
  "dd_getOrCreate env config i p =
     (case dd_inst p i of
        Some _ \<Rightarrow> (p, True)
      | None \<Rightarrow>
          (case dropdown_config (attrs_of (dd_doc p i)) config of
             Inl _ \<Rightarrow>
               (p\<lparr>dd_inst := (dd_inst p)(i \<mapsto>
                  \<lparr>dd_config = None, dd_menu = None, dd_inNavbar = False, dd_popper = None\<rparr>)\<rparr>, False)
           | Inr c \<Rightarrow>
               (p\<lparr>dd_inst := (dd_inst p)(i \<mapsto>
                  \<lparr>dd_config = Some c, dd_menu = Some (menu_of env i), dd_inNavbar = in_navbar env i, dd_popper = None\<rparr>)\<rparr>, True)))"

text \<open>\<open>_isShown(this._menu)\<close>, which without a menu asks about the toggle.\<close>

definition menu_shown :: "nat \<Rightarrow> dropdown \<Rightarrow> dd_page \<Rightarrow> bool" where
  "menu_shown i d p = dd_isShown (case dd_menu d of None \<Rightarrow> i | Some m \<Rightarrow> m) p"

text \<open>What \<open>show\<close> does after the popper, with the event in the end.\<close>

definition dd_open :: "nat \<Rightarrow> nat \<Rightarrow> dd_page \<Rightarrow> dd_page" where
  "dd_open i m p =
     (let p = p\<lparr>dd_focus := Some i\<rparr>;
          p = dd_do i (set_attribute ''aria-expanded'' ''true'') p;
          p = dd_do m (add_class ''show'') p;
          p = dd_do i (add_class ''show'') p
      in dd_event ''shown'' i p)"

text \<open>Without its menu, or without the Popper package, \<open>show\<close> throws after its first event.\<close>

definition dd_show :: "dd_env \<Rightarrow> nat \<Rightarrow> dd_page \<Rightarrow> dd_page \<times> bool" where
  "dd_show env i p =
     (case dd_inst p i of
        None \<Rightarrow> (p, True)
      | Some d \<Rightarrow>
          if isDisabled (dd_doc p i) (dd_property p i) \<or> menu_shown i d p then (p, True)
          else
            let prevented = dd_prevents env p ''show'' i; p = dd_event ''show'' i p in
            if prevented then (p, True)
            else case dd_menu d of
                None \<Rightarrow> (p, False)
              | Some m \<Rightarrow>
                  if dd_inNavbar d then
                    (dd_open i m (dd_do m (\<lambda>el. el\<lparr>attrs_of := setDataAttribute (attrs_of el) ''popper'' ''none''\<rparr>) p), True)
                  else if \<not> popper_loaded env then (p, False)
                  else (dd_open i m (createPopper env i d m p), True))"

definition completeHide :: "dd_env \<Rightarrow> nat \<Rightarrow> dropdown \<Rightarrow> dd_page \<Rightarrow> dd_page \<times> bool" where
  "completeHide env i d p =
     (let prevented = dd_prevents env p ''hide'' i; p = dd_event ''hide'' i p in
      if prevented then (p, True)
      else
        let p = p\<lparr>dd_inst := (dd_inst p)(i \<mapsto> d\<lparr>dd_popper := map_option (\<lambda>q. q\<lparr>pop_alive := False\<rparr>) (dd_popper d)\<rparr>)\<rparr> in
        case dd_menu d of
          None \<Rightarrow> (p, False)
        | Some m \<Rightarrow>
            let p = dd_do m (remove_class ''show'') p;
                p = dd_do i (remove_class ''show'') p;
                p = dd_do i (set_attribute ''aria-expanded'' ''false'') p;
                p = dd_do m (\<lambda>el. el\<lparr>attrs_of := removeDataAttribute (attrs_of el) ''popper''\<rparr>) p
            in (dd_event ''hidden'' i p, True))"

definition dd_hide :: "dd_env \<Rightarrow> nat \<Rightarrow> dd_page \<Rightarrow> dd_page \<times> bool" where
  "dd_hide env i p =
     (case dd_inst p i of
        None \<Rightarrow> (p, True)
      | Some d \<Rightarrow>
          if isDisabled (dd_doc p i) (dd_property p i) \<or> \<not> menu_shown i d p then (p, True)
          else completeHide env i d p)"

definition dd_toggle :: "dd_env \<Rightarrow> nat \<Rightarrow> dd_page \<Rightarrow> dd_page \<times> bool" where
  "dd_toggle env i p = (if dd_isShown i p then dd_hide env i p else dd_show env i p)"

definition dd_dispose :: "nat \<Rightarrow> dd_page \<Rightarrow> dd_page" where
  "dd_dispose i p = p\<lparr>dd_inst := (dd_inst p)(i := None)\<rparr>"

definition dd_update :: "dd_env \<Rightarrow> nat \<Rightarrow> dd_page \<Rightarrow> dd_page" where
  "dd_update env i p =
     p\<lparr>dd_inst := (dd_inst p)(i := map_option (\<lambda>d. d\<lparr>dd_inNavbar := in_navbar env i\<rparr>) (dd_inst p i))\<rparr>"

section \<open>Clicks and keys\<close>

text \<open>The words of a pattern without regard to case.\<close>

definition tag_matches :: "string list \<Rightarrow> string \<Rightarrow> bool" where
  "tag_matches ws tag \<longleftrightarrow> (\<exists>w \<in> set ws. sublist w (to_lower tag))"

text \<open>An open menu stays although the event is taken for a reason to close menus.\<close>

definition stays_open :: "dropdown \<Rightarrow> nat \<Rightarrow> dd_input \<Rightarrow> bool" where
  "stays_open d i e \<longleftrightarrow>
     (let autoClose = dd_option d ''autoClose''; isMenuTarget = (case dd_menu d of None \<Rightarrow> False | Some m \<Rightarrow> m \<in> set (in_path e)) in
      i \<in> set (in_path e) \<or> autoClose = BStr ''inside'' \<and> \<not> isMenuTarget \<or> autoClose = BStr ''outside'' \<and> isMenuTarget \<or>
      isMenuTarget \<and> (in_type e = ''keyup'' \<and> in_key e = ''Tab'' \<or>
        tag_matches [''input'', ''select'', ''option'', ''textarea'', ''form''] (in_tag e)))"

text \<open>The loop over the toggles ends early when it throws, as it does at an instance without options.\<close>

fun clear_loop :: "dd_env \<Rightarrow> dd_input option \<Rightarrow> nat list \<Rightarrow> dd_page \<Rightarrow> dd_page" where
  "clear_loop env ev [] p = p"
| "clear_loop env ev (i # is) p =
     (case dd_inst p i of
        None \<Rightarrow> clear_loop env ev is p
      | Some d \<Rightarrow>
          if dd_config d = None then p
          else if dd_option d ''autoClose'' = BBool False \<or> \<not> dd_isShown i p \<or>
                  (case ev of None \<Rightarrow> False | Some e \<Rightarrow> stays_open d i e)
          then clear_loop env ev is p
          else (case completeHide env i d p of (p, ok) \<Rightarrow> if ok then clear_loop env ev is p else p))"

definition clearMenus :: "dd_env \<Rightarrow> dd_input option \<Rightarrow> dd_page \<Rightarrow> dd_page" where
  "clearMenus env ev p =
     (if (case ev of None \<Rightarrow> False | Some e \<Rightarrow> in_button e = 2 \<or> in_type e = ''keyup'' \<and> in_key e \<noteq> ''Tab'') then p
      else clear_loop env ev (dd_toggles env) p)"

text \<open>The visible items of the menu, or without a menu those of the document.\<close>

definition visible_items :: "dd_env \<Rightarrow> dropdown \<Rightarrow> dd_page \<Rightarrow> nat list" where
  "visible_items env d p =
     concat (map (menu_items env) (filter (\<lambda>m. dd_isShown m p) (case dd_menu d of None \<Rightarrow> dd_menus env | Some m \<Rightarrow> [m])))"

definition selectMenuItem :: "dd_env \<Rightarrow> dropdown \<Rightarrow> dd_input \<Rightarrow> dd_page \<Rightarrow> dd_page" where
  "selectMenuItem env d e p =
     (let items = visible_items env d p; target = (case in_path e of [] \<Rightarrow> None | x # _ \<Rightarrow> Some x) in
      if items = [] then p
      else case getNextActiveElement items target (in_key e = ''ArrowDown'') (case target of None \<Rightarrow> True | Some x \<Rightarrow> x \<notin> set items) of
             None \<Rightarrow> p
           | Some x \<Rightarrow> p\<lparr>dd_focus := Some x\<rparr>)"

text \<open>Whether a key is a command to a menu.\<close>

definition dd_command :: "dd_env \<Rightarrow> dd_input \<Rightarrow> bool" where
  "dd_command env e \<longleftrightarrow>
     (if tag_matches [''input'', ''textarea''] (in_tag e)
      then \<not> (in_key e = ''Space'' \<or> in_key e \<noteq> ''Escape'' \<and>
              (in_key e \<noteq> ''ArrowDown'' \<and> in_key e \<noteq> ''ArrowUp'' \<or> (\<exists>x \<in> set (in_path e). x \<in> set (dd_menus env))))
      else \<exists>w \<in> {''ArrowUp'', ''ArrowDown'', ''Escape''}. sublist w (in_key e))"

definition dataApiKeydownHandler :: "dd_env \<Rightarrow> nat \<Rightarrow> dd_input \<Rightarrow> dd_page \<Rightarrow> dd_page" where
  "dataApiKeydownHandler env this e p =
     (if \<not> dd_command env e then p
      else
        let isActive = dd_isShown this p in
        if \<not> isActive \<and> in_key e = ''Escape'' then p
        else if isDisabled (dd_doc p this) (dd_property p this) then p
        else
          let i = (if this \<in> set (dd_toggles env) then this else toggle_of env this);
              (p, ok) = dd_getOrCreate env (BObj []) i p
          in case dd_inst p i of
               None \<Rightarrow> p
             | Some d \<Rightarrow>
                 if \<not> ok then p
                 else if in_key e = ''Escape'' then fst (dd_hide env i p)
                 else if in_key e = ''ArrowUp'' \<or> in_key e = ''ArrowDown'' then
                   (case if isActive then (p, True) else dd_show env i p of
                      (p, ok) \<Rightarrow> if ok then selectMenuItem env d e p else p)
                 else if \<not> isActive \<or> in_key e = ''Space'' then clearMenus env None p
                 else p)"

text \<open>The listeners of the document: a delegated one is called for the innermost element that matches.\<close>

definition dd_innermost :: "nat list \<Rightarrow> dd_input \<Rightarrow> nat option" where
  "dd_innermost es e = List.find (\<lambda>x. x \<in> set es) (in_path e)"

definition dd_keydown :: "dd_env \<Rightarrow> dd_input \<Rightarrow> dd_page \<Rightarrow> dd_page" where
  "dd_keydown env e p =
     (let p = (case dd_innermost (dd_toggles env) e of None \<Rightarrow> p | Some t \<Rightarrow> dataApiKeydownHandler env t e p)
      in case dd_innermost (dd_menus env) e of None \<Rightarrow> p | Some m \<Rightarrow> dataApiKeydownHandler env m e p)"

definition dd_click :: "dd_env \<Rightarrow> dd_input \<Rightarrow> dd_page \<Rightarrow> dd_page" where
  "dd_click env e p =
     (let p = clearMenus env (Some e) p
      in case dd_innermost (dd_toggles env) e of
           None \<Rightarrow> p
         | Some t \<Rightarrow> (case dd_getOrCreate env (BObj []) t p of (p, ok) \<Rightarrow> if ok then fst (dd_toggle env t p) else p))"

definition dd_keyup :: "dd_env \<Rightarrow> dd_input \<Rightarrow> dd_page \<Rightarrow> dd_page" where
  "dd_keyup env e p = clearMenus env (Some e) p"

end
