(* ===== verification/Bs_Dropdown_Properties.thy ===== *)
theory Bs_Dropdown_Properties
  imports Bs_Dropdown
begin

text \<open>
  Runs of the drop-down menus of a page: toggle, menu and popper are in step, which menus a click closes, and what a
  toggle whose options do not pass the check does to the others.
\<close>

section \<open>Runs\<close>

datatype dd_action =
    DdClick dd_input | DdKeydown dd_input | DdKeyup dd_input | DdShow nat | DdHide nat | DdToggle nat
  | DdDispose nat | DdUpdate nat | DdDisable nat bool

text \<open>A method is called on the instance that \<open>getOrCreateInstance\<close> gives.\<close>

definition dd_call :: "dd_env \<Rightarrow> bval \<Rightarrow> (nat \<Rightarrow> dd_page \<Rightarrow> dd_page \<times> bool) \<Rightarrow> nat \<Rightarrow> dd_page \<Rightarrow> dd_page" where
  "dd_call env config method i p =
     (case dd_getOrCreate env config i p of (p, ok) \<Rightarrow> if ok then fst (method i p) else p)"

primrec dd_step :: "dd_env \<Rightarrow> dd_action \<Rightarrow> dd_page \<Rightarrow> dd_page" where
  "dd_step env (DdClick e) p = dd_click env e p"
| "dd_step env (DdKeydown e) p = dd_keydown env e p"
| "dd_step env (DdKeyup e) p = dd_keyup env e p"
| "dd_step env (DdShow i) p = dd_call env (BObj []) (dd_show env) i p"
| "dd_step env (DdHide i) p = dd_call env (BObj []) (dd_hide env) i p"
| "dd_step env (DdToggle i) p = dd_call env (BObj []) (dd_toggle env) i p"
| "dd_step env (DdDispose i) p = dd_dispose i p"
| "dd_step env (DdUpdate i) p = dd_update env i p"
| "dd_step env (DdDisable e b) p = p\<lparr>dd_property := (dd_property p)(e := Some b)\<rparr>"

definition dd_run :: "dd_env \<Rightarrow> dd_action list \<Rightarrow> dd_page \<Rightarrow> dd_page" where
  "dd_run env as p = fold (dd_step env) as p"

text \<open>Methods are called on toggles only; every toggle has a menu of its own, and every menu a toggle.\<close>

fun on_toggles :: "dd_env \<Rightarrow> dd_action \<Rightarrow> bool" where
  "on_toggles env (DdShow i) = (i \<in> set (dd_toggles env))"
| "on_toggles env (DdHide i) = (i \<in> set (dd_toggles env))"
| "on_toggles env (DdToggle i) = (i \<in> set (dd_toggles env))"
| "on_toggles env (DdDispose i) = (i \<in> set (dd_toggles env))"
| "on_toggles env (DdUpdate i) = (i \<in> set (dd_toggles env))"
| "on_toggles env a = True"

definition laid_out :: "dd_env \<Rightarrow> bool" where
  "laid_out env \<longleftrightarrow>
     (\<forall>i \<in> set (dd_toggles env). menu_of env i \<notin> set (dd_toggles env)) \<and> inj_on (menu_of env) (set (dd_toggles env)) \<and>
     (\<forall>m \<in> set (dd_menus env). toggle_of env m \<in> set (dd_toggles env))"

section \<open>In step\<close>

text \<open>
  A toggle looks open exactly when its menu does and when it says so to assistive technology; its instance is for that
  menu, and has a living popper at most while the menu is open.
\<close>

definition inst_in_step :: "nat \<Rightarrow> bool \<Rightarrow> dropdown \<Rightarrow> bool" where
  "inst_in_step m shown d \<longleftrightarrow>
     dd_menu d = (if dd_config d = None then None else Some m) \<and>
     pred_option (\<lambda>q. dd_config d \<noteq> None \<and> (pop_alive q \<longrightarrow> shown)) (dd_popper d)"

definition in_step_at :: "dd_env \<Rightarrow> dd_page \<Rightarrow> nat \<Rightarrow> bool" where
  "in_step_at env p i \<longleftrightarrow>
     dd_isShown i p = dd_isShown (menu_of env i) p \<and>
     dd_isShown i p = (oget (attrs_of (dd_doc p i)) ''aria-expanded'' = Some ''true'') \<and>
     pred_option (inst_in_step (menu_of env i) (dd_isShown i p)) (dd_inst p i)"

definition in_step :: "dd_env \<Rightarrow> dd_page \<Rightarrow> bool" where
  "in_step env p \<longleftrightarrow> (\<forall>i \<in> set (dd_toggles env). in_step_at env p i)"

text \<open>What an operation on the toggle \<open>j\<close> with the menu \<open>m\<close> may change.\<close>

definition touches :: "nat \<Rightarrow> nat \<Rightarrow> dd_page \<Rightarrow> dd_page \<Rightarrow> bool" where
  "touches j m p q \<longleftrightarrow> (\<forall>x. x \<noteq> j \<longrightarrow> x \<noteq> m \<longrightarrow> dd_doc q x = dd_doc p x) \<and> (\<forall>y. y \<noteq> j \<longrightarrow> dd_inst q y = dd_inst p y)"

lemma dd_simps [simp]:
  "dd_doc (dd_event ev i p) = dd_doc p" "dd_inst (dd_event ev i p) = dd_inst p" "dd_property (dd_event ev i p) = dd_property p"
  "dd_doc (dd_do e f p) = (dd_doc p)(e := f (dd_doc p e))" "dd_inst (dd_do e f p) = dd_inst p" "dd_property (dd_do e f p) = dd_property p"
  by (simp_all add: dd_event_def dd_do_def)

lemma touches_refl [simp]: "touches j m p p"
  by (simp add: touches_def)

lemma touches_trans: "touches j m p q \<Longrightarrow> touches j m q r \<Longrightarrow> touches j m p r"
  by (simp add: touches_def)

lemma touched_shown: "touches j m p q \<Longrightarrow> x \<noteq> j \<Longrightarrow> x \<noteq> m \<Longrightarrow> dd_isShown x q = dd_isShown x p"
  by (simp add: touches_def dd_isShown_def)

lemma laid_out_apart:
  assumes "laid_out env" "i \<in> set (dd_toggles env)" "j \<in> set (dd_toggles env)"
  shows "menu_of env i \<noteq> j" "i \<noteq> j \<Longrightarrow> menu_of env i \<noteq> menu_of env j"
  using assms by (auto simp: laid_out_def inj_on_def)

lemma in_step_touched:
  assumes "laid_out env" "in_step env p" "j \<in> set (dd_toggles env)" "touches j (menu_of env j) p q" "in_step_at env q j"
  shows "in_step env q"
  unfolding in_step_def
proof
  fix i assume i: "i \<in> set (dd_toggles env)"
  show "in_step_at env q i"
  proof (cases "i = j")
    case False
    have "menu_of env i \<noteq> j" "menu_of env i \<noteq> menu_of env j" "menu_of env j \<noteq> i"
      using laid_out_apart [OF assms(1) i assms(3)] laid_out_apart(1) [OF assms(1,3) i] False by auto
    then have "dd_doc q i = dd_doc p i" "dd_doc q (menu_of env i) = dd_doc p (menu_of env i)" "dd_inst q i = dd_inst p i"
      using assms(4) False by (auto simp: touches_def)
    moreover have "in_step_at env p i" using assms(2) i by (simp add: in_step_def)
    ultimately show ?thesis by (auto simp: in_step_at_def dd_isShown_def)
  qed (use assms(5) in simp)
qed

text \<open>Each operation touches one toggle, and leaves it in step.\<close>

lemma dom_shown [simp]:
  "dd_isShown e (dd_event ev i p) = dd_isShown e p"
  "dd_isShown e (p\<lparr>dd_inst := f\<rparr>) = dd_isShown e p" "dd_isShown e (p\<lparr>dd_focus := x\<rparr>) = dd_isShown e p"
  "dd_isShown e (dd_do i (set_attribute k v) p) = dd_isShown e p"
  "dd_isShown e (dd_do i (\<lambda>el. el\<lparr>attrs_of := g el\<rparr>) p) = dd_isShown e p"
  "dd_isShown e (dd_do i (add_class ''show'') p) = (e = i \<or> dd_isShown e p)"
  "dd_isShown e (dd_do i (remove_class ''show'') p) = (e \<noteq> i \<and> dd_isShown e p)"
  by (auto simp: dd_isShown_def)

lemma attrs_kept [simp]:
  "attrs_of (add_class k el) = attrs_of el" "attrs_of (remove_class k el) = attrs_of el"
  "attrs_of (set_attribute k v el) = oset (attrs_of el) k v"
  by (simp_all add: add_class_def remove_class_def set_attribute_def)

lemma open_touch:
  assumes "m \<noteq> i"
  shows "dd_isShown e (dd_open i m p) = (e = i \<or> e = m \<or> dd_isShown e p)" "dd_inst (dd_open i m p) = dd_inst p"
    "oget (attrs_of (dd_doc (dd_open i m p) i)) ''aria-expanded'' = Some ''true''" "touches i m p (dd_open i m p)"
  using assms by (auto simp: dd_open_def Let_def touches_def)

lemma popper_touch:
  shows "dd_isShown e (createPopper env i d m p) = dd_isShown e p" "touches i m p (createPopper env i d m p)"
    "\<exists>q. dd_inst (createPopper env i d m p) i = Some (d\<lparr>dd_popper := Some q\<rparr>)"
  by (auto simp: createPopper_def Let_def touches_def)

lemma touch_ops:
  assumes "in_step_at env p i" "menu_of env i \<noteq> i"
  shows "touches i (menu_of env i) p (fst (dd_getOrCreate env c i p)) \<and> in_step_at env (fst (dd_getOrCreate env c i p)) i"
    "touches i (menu_of env i) p (fst (dd_show env i p)) \<and> in_step_at env (fst (dd_show env i p)) i"
    "dd_inst p i = Some d \<Longrightarrow> touches i (menu_of env i) p (fst (completeHide env i d p)) \<and> in_step_at env (fst (completeHide env i d p)) i"
    "touches i (menu_of env i) p (fst (dd_hide env i p)) \<and> in_step_at env (fst (dd_hide env i p)) i"
    "touches i (menu_of env i) p (fst (dd_toggle env i p)) \<and> in_step_at env (fst (dd_toggle env i p)) i"
    "touches i (menu_of env i) p (dd_dispose i p) \<and> in_step_at env (dd_dispose i p) i"
    "touches i (menu_of env i) p (dd_update env i p) \<and> in_step_at env (dd_update env i p) i"
proof -
  let ?m = "menu_of env i"
  show "touches i ?m p (fst (dd_getOrCreate env c i p)) \<and> in_step_at env (fst (dd_getOrCreate env c i p)) i"
    using assms by (auto simp: dd_getOrCreate_def touches_def in_step_at_def inst_in_step_def split: option.split sum.split)
  show sh: "touches i ?m p (fst (dd_show env i p)) \<and> in_step_at env (fst (dd_show env i p)) i"
  proof (cases "dd_inst p i")
    case (Some d)
    then have d: "dd_menu d = (if dd_config d = None then None else Some ?m)" using assms(1) by (simp add: in_step_at_def inst_in_step_def)
    define r where "r = dd_do ?m (\<lambda>el. el\<lparr>attrs_of := setDataAttribute (attrs_of el) ''popper'' ''none''\<rparr>) (dd_event ''show'' i p)"
    define s where "s = createPopper env i d ?m (dd_event ''show'' i p)"
    have r: "touches i ?m p r" "dd_inst r = dd_inst p" by (simp_all add: r_def touches_def)
    have s: "touches i ?m p s" "\<exists>q. dd_inst s i = Some (d\<lparr>dd_popper := Some q\<rparr>)"
      using popper_touch(2,3) [where i = i and m = ?m and p = "dd_event ''show'' i p" and env = env and d = d] by (simp_all add: s_def touches_def)
    have or: "touches i ?m p (dd_open i ?m r)" "in_step_at env (dd_open i ?m r) i"
      using touches_trans [OF r(1) open_touch(4) [OF assms(2)]] assms(1) Some d r(2) assms(2)
      by (auto simp: in_step_at_def open_touch inst_in_step_def option.pred_set)
    have os: "touches i ?m p (dd_open i ?m s)" "dd_config d \<noteq> None \<Longrightarrow> in_step_at env (dd_open i ?m s) i"
      using touches_trans [OF s(1) open_touch(4) [OF assms(2)]] assms(1) Some d s(2) assms(2)
      by (auto simp: in_step_at_def open_touch inst_in_step_def)
    have ev: "touches i ?m p (dd_event ''show'' i p)" "in_step_at env (dd_event ''show'' i p) i"
      using assms(1) by (auto simp: touches_def in_step_at_def)
    show ?thesis
      using or os ev d assms(1) Some by (simp add: dd_show_def r_def [symmetric] s_def [symmetric] Let_def)
  qed (use assms in \<open>simp add: dd_show_def\<close>)
  show hd: "touches i ?m p (fst (completeHide env i d p)) \<and> in_step_at env (fst (completeHide env i d p)) i" if "dd_inst p i = Some d" for d
    using assms that by (auto simp: completeHide_def touches_def in_step_at_def inst_in_step_def Let_def option.pred_set)
  show hi: "touches i ?m p (fst (dd_hide env i p)) \<and> in_step_at env (fst (dd_hide env i p)) i"
    using assms hd by (auto simp: dd_hide_def split: option.split)
  show "touches i ?m p (fst (dd_toggle env i p)) \<and> in_step_at env (fst (dd_toggle env i p)) i"
    using sh hi by (simp add: dd_toggle_def)
  show "touches i ?m p (dd_dispose i p) \<and> in_step_at env (dd_dispose i p) i"
    using assms by (auto simp: dd_dispose_def touches_def in_step_at_def)
  show "touches i ?m p (dd_update env i p) \<and> in_step_at env (dd_update env i p) i"
    using assms by (auto simp: dd_update_def touches_def in_step_at_def inst_in_step_def option.pred_set)
qed

section \<open>In step in every run\<close>

lemma in_step_ops:
  assumes "laid_out env" "in_step env p" "i \<in> set (dd_toggles env)"
  shows "in_step env (fst (dd_getOrCreate env c i p))" "in_step env (fst (dd_show env i p))"
    "dd_inst p i = Some d \<Longrightarrow> in_step env (fst (completeHide env i d p))" "in_step env (fst (dd_hide env i p))"
    "in_step env (fst (dd_toggle env i p))" "in_step env (dd_dispose i p)" "in_step env (dd_update env i p)"
proof -
  have at: "in_step_at env p i" using assms(2,3) by (simp add: in_step_def)
  note ops = touch_ops [OF at laid_out_apart(1) [OF assms(1,3,3)]]
  note keep = in_step_touched [OF assms(1,2,3)]
  show "in_step env (fst (dd_getOrCreate env c i p))" "in_step env (fst (dd_show env i p))"
    "dd_inst p i = Some d \<Longrightarrow> in_step env (fst (completeHide env i d p))" "in_step env (fst (dd_hide env i p))"
    "in_step env (fst (dd_toggle env i p))" "in_step env (dd_dispose i p)" "in_step env (dd_update env i p)"
    using ops keep by blast+
qed

lemma in_step_call:
  assumes "laid_out env" "in_step env p" "i \<in> set (dd_toggles env)" "\<And>q. in_step env q \<Longrightarrow> in_step env (fst (method i q))"
  shows "in_step env (dd_call env c method i p)"
  using in_step_ops(1) [OF assms(1-3), of c] assms(4) by (cases "dd_getOrCreate env c i p") (simp add: dd_call_def)

lemma in_step_clear:
  assumes "laid_out env" "in_step env p"
  shows "set is \<subseteq> set (dd_toggles env) \<Longrightarrow> in_step env (clear_loop env ev is p)" "in_step env (clearMenus env ev p)"
proof -
  show loop: "set is \<subseteq> set (dd_toggles env) \<Longrightarrow> in_step env (clear_loop env ev is p)" for "is"
    using assms(2)
  proof (induction "is" arbitrary: p)
    case (Cons i js)
    then have i: "i \<in> set (dd_toggles env)" by simp
    show ?case
    proof (cases "dd_inst p i")
      case (Some d)
      have "in_step env (fst (completeHide env i d p))" by (rule in_step_ops(3) [OF assms(1) Cons.prems(2) i Some])
      then show ?thesis using Cons Some by (cases "completeHide env i d p") simp
    qed (use Cons in simp)
  qed simp
  show "in_step env (clearMenus env ev p)" using assms(2) loop by (simp add: clearMenus_def)
qed

lemma in_step_focus [simp]: "in_step env (p\<lparr>dd_focus := x\<rparr>) = in_step env p" "in_step env (p\<lparr>dd_property := y\<rparr>) = in_step env p"
  by (simp_all add: in_step_def in_step_at_def dd_isShown_def)

lemma in_step_select: "in_step env p \<Longrightarrow> in_step env (selectMenuItem env d e p)"
  by (simp add: selectMenuItem_def Let_def split: option.split)

lemma in_step_keydown:
  assumes "laid_out env" "in_step env p" "this \<in> set (dd_toggles env) \<or> toggle_of env this \<in> set (dd_toggles env)"
  shows "in_step env (dataApiKeydownHandler env this e p)"
proof -
  define i where "i = (if this \<in> set (dd_toggles env) then this else toggle_of env this)"
  have i: "i \<in> set (dd_toggles env)" using assms(3) by (auto simp: i_def)
  obtain q ok where q: "dd_getOrCreate env (BObj []) i p = (q, ok)" by fastforce
  then have "in_step env q" using in_step_ops(1) [OF assms(1,2) i, of "BObj []"] by simp
  note q_ops = in_step_ops [OF assms(1) this i] in_step_clear(2) [OF assms(1) this] this
  obtain r rok where r: "dd_show env i q = (r, rok)" by fastforce
  then have "in_step env r" using q_ops(2) by simp
  then show ?thesis
    using assms(2) q_ops in_step_select
    by (simp add: dataApiKeydownHandler_def i_def [symmetric] q r Let_def split: option.split)
qed

lemma innermost_in: "dd_innermost es e = Some x \<Longrightarrow> x \<in> set es"
  by (auto simp: dd_innermost_def find_Some_iff)

lemma in_step_step:
  assumes "laid_out env" "on_toggles env a" "in_step env p"
  shows "in_step env (dd_step env a p)"
proof (cases a)
  case (DdClick e)
  have "in_step env (dd_call env (BObj []) (dd_toggle env) t (clearMenus env (Some e) p))" if "t \<in> set (dd_toggles env)" for t
    by (rule in_step_call [OF assms(1) in_step_clear(2) [OF assms(1,3)] that]) (rule in_step_ops(5) [OF assms(1) _ that])
  then show ?thesis
    using in_step_clear(2) [OF assms(1,3)] innermost_in
    by (simp add: DdClick dd_click_def dd_call_def [symmetric] Let_def split: option.split)
next
  case (DdKeydown e)
  have "in_step env (dataApiKeydownHandler env x e q)" if "in_step env q" "x \<in> set (dd_toggles env) \<or> x \<in> set (dd_menus env)" for x q
    by (rule in_step_keydown [OF assms(1) that(1)]) (use that(2) assms(1) in \<open>auto simp: laid_out_def\<close>)
  then show ?thesis using assms(3) innermost_in by (simp add: DdKeydown dd_keydown_def Let_def split: option.split)
qed (use assms in_step_ops in_step_clear(2) in_step_call in \<open>simp_all add: dd_keyup_def\<close>)

text \<open>Whatever is clicked, typed and called, and whatever listeners prevent: a toggle looks open, and says so to assistive
  technology, exactly when its menu is open, and no popper outlives that.
\<close>

theorem dropdown_in_step:
  assumes "laid_out env" and "list_all (on_toggles env) as" and "in_step env p"
  shows "in_step env (dd_run env as p)"
  unfolding dd_run_def
  by (rule fold_keeps [where P = "in_step env"]) (use assms in_step_step in \<open>auto simp: list_all_iff\<close>)

section \<open>What the loop over the menus spares\<close>






section \<open>Which menus a click closes\<close>

text \<open>No listener prevents anything, Popper is there, every instance has its options.\<close>

definition unhindered :: "dd_env \<Rightarrow> bool" where
  "unhindered env \<longleftrightarrow> (\<forall>p ev i. \<not> dd_prevents env p ev i) \<and> popper_loaded env"

definition configured :: "dd_env \<Rightarrow> dd_page \<Rightarrow> bool" where
  "configured env p \<longleftrightarrow> (\<forall>i \<in> set (dd_toggles env). pred_option (\<lambda>d. dd_config d \<noteq> None) (dd_inst p i))"










section \<open>A toggle with wrong options\<close>

text \<open>Operations do not change the options of an instance, and only \<open>dispose\<close> removes one.\<close>

definition options_kept :: "dd_page \<Rightarrow> dd_page \<Rightarrow> bool" where
  "options_kept p q \<longleftrightarrow> (\<forall>i d. dd_inst p i = Some d \<longrightarrow> (\<exists>d'. dd_inst q i = Some d' \<and> dd_config d' = dd_config d))"

lemma options_refl [simp]: "options_kept p p" "options_kept p (dd_event ev i p)"
  by (simp_all add: options_kept_def)














section \<open>The keys\<close>

text \<open>A key on the toggle, and a key on the element of an open menu that has the focus.\<close>

definition arrow :: "string \<Rightarrow> string \<Rightarrow> nat list \<Rightarrow> dd_input" where
  "arrow key tag path = \<lparr>in_type = ''keydown'', in_key = key, in_button = 0, in_tag = tag, in_path = path\<rparr>"

definition dd_press :: "dd_env \<Rightarrow> string \<Rightarrow> string \<Rightarrow> nat \<Rightarrow> dd_page \<Rightarrow> dd_page" where
  "dd_press env key tag m p = (case dd_focus p of None \<Rightarrow> p | Some x \<Rightarrow> dd_keydown env (arrow key tag [x, m]) p)"

lemma arrow_simps [simp]:
  "in_type (arrow key tag path) = ''keydown''" "in_key (arrow key tag path) = key" "in_tag (arrow key tag path) = tag"
  "in_path (arrow key tag path) = path"
  by (simp_all add: arrow_def)

text \<open>A toggle with its menu and its items, which are elements of their own.\<close>

definition keyboard_menu :: "dd_env \<Rightarrow> nat \<Rightarrow> bool" where
  "keyboard_menu env t \<longleftrightarrow>
     (let m = menu_of env t; items = menu_items env m in
      t \<in> set (dd_toggles env) \<and> t \<notin> set (dd_menus env) \<and> m \<in> set (dd_menus env) \<and> m \<notin> set (dd_toggles env) \<and> toggle_of env m = t \<and>
      distinct items \<and> items \<noteq> [] \<and> t \<notin> set items \<and> (\<forall>x \<in> set items. x \<notin> set (dd_toggles env) \<and> x \<notin> set (dd_menus env)))"

definition open_for_keys :: "dd_env \<Rightarrow> nat \<Rightarrow> dd_page \<Rightarrow> bool" where
  "open_for_keys env t p \<longleftrightarrow>
     (let m = menu_of env t in
      (\<exists>d. dd_inst p t = Some d \<and> dd_menu d = Some m) \<and> dd_isShown m p \<and> \<not> isDisabled (dd_doc p m) (dd_property p m))"

lemma open_focus [simp]: "open_for_keys env t (p\<lparr>dd_focus := x\<rparr>) = open_for_keys env t p"
  by (simp add: open_for_keys_def dd_isShown_def Let_def)

lemma press_item:
  assumes "keyboard_menu env t" "open_for_keys env t p" "\<not> tag_matches [''input'', ''textarea''] tag"
    "dd_focus p = Some (menu_items env (menu_of env t) ! k)" "k < length (menu_items env (menu_of env t))"
  shows "dd_press env ''ArrowDown'' tag (menu_of env t) p =
      p\<lparr>dd_focus := Some (menu_items env (menu_of env t) ! min (Suc k) (length (menu_items env (menu_of env t)) - 1))\<rparr>"
    "dd_press env ''ArrowUp'' tag (menu_of env t) p = p\<lparr>dd_focus := Some (menu_items env (menu_of env t) ! (k - 1))\<rparr>"
proof -
  let ?m = "menu_of env t" let ?items = "menu_items env ?m"
  have k: "?items ! k \<in> set ?items" using assms(5) by simp
  have inn: "dd_innermost (dd_toggles env) (arrow key tag [?items ! k, ?m]) = None"
    "dd_innermost (dd_menus env) (arrow key tag [?items ! k, ?m]) = Some ?m" for key
    using assms(1) k by (auto simp: dd_innermost_def keyboard_menu_def Let_def)
  obtain d where d: "dd_inst p t = Some d" "dd_menu d = Some ?m" using assms(2) by (auto simp: open_for_keys_def Let_def)
  have vis: "visible_items env d p = ?items" using assms(2) d by (simp add: visible_items_def open_for_keys_def Let_def)
  have com: "dd_command env (arrow ''ArrowDown'' tag path)" "dd_command env (arrow ''ArrowUp'' tag path)" for path
    using assms(3) by (simp_all add: dd_command_def)
  have items: "distinct ?items" "?items \<noteq> []" using assms(1) by (simp_all add: keyboard_menu_def Let_def)
  have home: "?m \<notin> set (dd_toggles env)" "toggle_of env ?m = t" using assms(1) by (simp_all add: keyboard_menu_def Let_def)
  have key: "dataApiKeydownHandler env ?m (arrow key tag [?items ! k, ?m]) p = selectMenuItem env d (arrow key tag [?items ! k, ?m]) p"
    if "key = ''ArrowDown'' \<or> key = ''ArrowUp''" for key
    using that com assms(2) d home
    by (auto simp: dataApiKeydownHandler_def open_for_keys_def dd_getOrCreate_def Let_def)
  show "dd_press env ''ArrowDown'' tag ?m p = p\<lparr>dd_focus := Some (?items ! min (Suc k) (length ?items - 1))\<rparr>"
    "dd_press env ''ArrowUp'' tag ?m p = p\<lparr>dd_focus := Some (?items ! (k - 1))\<rparr>"
    using k items assms(5)
    by (simp_all add: dd_press_def assms(4) dd_keydown_def inn key selectMenuItem_def vis neighbour_bounded Let_def)
qed

lemma press_many:
  assumes "keyboard_menu env t" "open_for_keys env t p" "\<not> tag_matches [''input'', ''textarea''] tag"
    "dd_focus p = Some (menu_items env (menu_of env t) ! k)" "k < length (menu_items env (menu_of env t))"
  shows "(dd_press env ''ArrowDown'' tag (menu_of env t) ^^ n) p =
      p\<lparr>dd_focus := Some (menu_items env (menu_of env t) ! min (k + n) (length (menu_items env (menu_of env t)) - 1))\<rparr>"
    "(dd_press env ''ArrowUp'' tag (menu_of env t) ^^ n) p = p\<lparr>dd_focus := Some (menu_items env (menu_of env t) ! (k - n))\<rparr>"
proof (induction n)
  case 0
  { case 1 show ?case using assms(4,5) by (simp add: min_def) }
  { case 2 show ?case using assms(4) by simp }
next
  case (Suc n)
  let ?items = "menu_items env (menu_of env t)"
  let ?down = "min (k + n) (length ?items - 1)"
  have "?down < length ?items" "k - n < length ?items" using assms(5) by linarith+
  moreover have "open_for_keys env t (p\<lparr>dd_focus := x\<rparr>)" for x using assms(2) by simp
  ultimately have "dd_press env ''ArrowDown'' tag (menu_of env t) (p\<lparr>dd_focus := Some (?items ! ?down)\<rparr>) =
      p\<lparr>dd_focus := Some (?items ! min (Suc ?down) (length ?items - 1))\<rparr>"
    "dd_press env ''ArrowUp'' tag (menu_of env t) (p\<lparr>dd_focus := Some (?items ! (k - n))\<rparr>) = p\<lparr>dd_focus := Some (?items ! (k - n - 1))\<rparr>"
    using press_item [OF assms(1) _ assms(3), where p = "p\<lparr>dd_focus := Some (?items ! ?down)\<rparr>" and k = "?down"]
      press_item [OF assms(1) _ assms(3), where p = "p\<lparr>dd_focus := Some (?items ! (k - n))\<rparr>" and k = "k - n"] by simp_all
  moreover have "min (Suc ?down) (length ?items - 1) = min (k + Suc n) (length ?items - 1)" by linarith
  ultimately show
    "(dd_press env ''ArrowDown'' tag (menu_of env t) ^^ Suc n) p = p\<lparr>dd_focus := Some (?items ! min (k + Suc n) (length ?items - 1))\<rparr>"
    "(dd_press env ''ArrowUp'' tag (menu_of env t) ^^ Suc n) p = p\<lparr>dd_focus := Some (?items ! (k - Suc n))\<rparr>"
    using Suc by (simp_all add: diff_diff_left del: funpow.simps(2) add: funpow.simps(2))
qed

lemma disabled_kept [simp]:
  "isDisabled (add_class ''show'' el) b = isDisabled el b"
  "isDisabled (el\<lparr>attrs_of := setDataAttribute (attrs_of el) ''popper'' v\<rparr>) b = isDisabled el b"
  by (simp_all add: isDisabled_def setDataAttribute_def add_class_def classList_add_def split: option.split)

lemma shown_for_keys:
  assumes "unhindered env" "keyboard_menu env t" "dd_inst p t = Some d" "dd_menu d = Some (menu_of env t)"
    "\<not> isDisabled (dd_doc p t) (dd_property p t)" "\<not> isDisabled (dd_doc p (menu_of env t)) (dd_property p (menu_of env t))"
    "\<not> dd_isShown (menu_of env t) p"
  shows "open_for_keys env t (fst (dd_show env t p))" "snd (dd_show env t p)" "dd_focus (fst (dd_show env t p)) = Some t"
    "dd_isShown t (fst (dd_show env t p))"
proof -
  have "menu_of env t \<noteq> t" using assms(2) by (auto simp: keyboard_menu_def Let_def)
  then show "open_for_keys env t (fst (dd_show env t p))" "snd (dd_show env t p)" "dd_focus (fst (dd_show env t p)) = Some t"
    "dd_isShown t (fst (dd_show env t p))"
    using assms
    by (simp_all add: dd_show_def menu_shown_def unhindered_def open_for_keys_def dd_open_def createPopper_def dd_isShown_def dd_event_def dd_do_def Let_def)
qed

lemma first_or_last:
  assumes "x \<notin> set xs" "xs \<noteq> []"
  shows "getNextActiveElement xs (Some x) down True = Some (xs ! (if down then 0 else length xs - 1))"
proof -
  have "indexOf xs (Some x) = -1" using assms(1) by (simp add: indexOf_def index_upto_absent)
  moreover have "nat (int (length xs) - 1) = length xs - 1" by linarith
  ultimately show ?thesis using assms(2) by (simp add: getNextActiveElement_def Let_def at_index_def Suc_le_eq)
qed

lemma opened_by_key:
  assumes "unhindered env" "keyboard_menu env t" "dd_inst p t = Some d" "dd_menu d = Some (menu_of env t)"
    "\<not> isDisabled (dd_doc p t) (dd_property p t)" "\<not> isDisabled (dd_doc p (menu_of env t)) (dd_property p (menu_of env t))"
    "\<not> dd_isShown (menu_of env t) p" "\<not> dd_isShown t p" "\<not> tag_matches [''input'', ''textarea''] tag"
    "key = ''ArrowDown'' \<or> key = ''ArrowUp''"
    "r = dd_keydown env (arrow key tag [t]) p"
  shows "open_for_keys env t r" "dd_isShown t r"
    "dd_focus r = Some (menu_items env (menu_of env t) ! (if key = ''ArrowDown'' then 0 else length (menu_items env (menu_of env t)) - 1))"
proof -
  let ?m = "menu_of env t" let ?items = "menu_items env ?m"
  have km: "t \<in> set (dd_toggles env)" "t \<notin> set (dd_menus env)" "t \<notin> set ?items" "?items \<noteq> []"
    using assms(2) by (simp_all add: keyboard_menu_def Let_def)
  obtain q ok where q: "dd_show env t p = (q, ok)" by fastforce
  then have sq: "open_for_keys env t q" "ok" "dd_isShown t q" using shown_for_keys [OF assms(1-7)] by simp_all
  have com: "dd_command env (arrow key tag [t])" using assms(9,10) by (auto simp: dd_command_def)
  have vis: "visible_items env d q = ?items" using sq(1) assms(4) by (simp add: visible_items_def open_for_keys_def Let_def)
  have "r = selectMenuItem env d (arrow key tag [t]) q"
    using km(1,2) com assms(3,5,8,10) q sq(2)
    by (auto simp: assms(11) dd_keydown_def dd_innermost_def dataApiKeydownHandler_def dd_getOrCreate_def Let_def)
  then have "r = q\<lparr>dd_focus := Some (?items ! (if key = ''ArrowDown'' then 0 else length ?items - 1))\<rparr>"
    using km(3,4) by (simp add: selectMenuItem_def vis first_or_last Let_def)
  then show "open_for_keys env t r" "dd_isShown t r"
    "dd_focus r = Some (?items ! (if key = ''ArrowDown'' then 0 else length ?items - 1))"
    using sq by (simp_all add: dd_isShown_def)
qed

text \<open>C40: An arrow key on a closed toggle opens its menu with the focus on the first, or by the arrow upwards the last, of its
  items; further arrows move the focus item by item and stop at the ends.
\<close>

theorem dropdown_arrows:
  assumes "unhindered env" and "keyboard_menu env t" and "dd_inst p t = Some d" and "dd_menu d = Some (menu_of env t)"
    and "\<not> isDisabled (dd_doc p t) (dd_property p t)" and "\<not> isDisabled (dd_doc p (menu_of env t)) (dd_property p (menu_of env t))"
    and "\<not> dd_isShown (menu_of env t) p" and "\<not> dd_isShown t p" and "\<not> tag_matches [''input'', ''textarea''] tag"
    and "key = ''ArrowDown'' \<or> key = ''ArrowUp''"
  shows "let m = menu_of env t; items = menu_items env m; last = length items - 1;
      q = dd_keydown env (arrow key tag [t]) p;
      start = (if key = ''ArrowDown'' then 0 else last);
      r = (dd_press env ''ArrowUp'' tag m ^^ up) ((dd_press env ''ArrowDown'' tag m ^^ down) q)
    in dd_isShown m q \<and> dd_focus r = Some (items ! (min (start + down) last - up))"
proof -
  let ?m = "menu_of env t" let ?items = "menu_items env ?m" let ?last = "length ?items - 1"
  let ?start = "if key = ''ArrowDown'' then 0 else ?last"
  define q where "q = dd_keydown env (arrow key tag [t]) p"
  note open_q = opened_by_key [OF assms q_def]
  have len: "?start < length ?items" "min (?start + down) ?last < length ?items"
    using assms(2) by (simp_all add: keyboard_menu_def Let_def min_less_iff_disj)
  have d: "(dd_press env ''ArrowDown'' tag ?m ^^ down) q = q\<lparr>dd_focus := Some (?items ! min (?start + down) ?last)\<rparr>"
    by (rule press_many(1) [OF assms(2) open_q(1) assms(9) open_q(3) len(1)])
  have u: "(dd_press env ''ArrowUp'' tag ?m ^^ up) (q\<lparr>dd_focus := Some (?items ! min (?start + down) ?last)\<rparr>)
      = q\<lparr>dd_focus := Some (?items ! min (?start + down) ?last), dd_focus := Some (?items ! (min (?start + down) ?last - up))\<rparr>"
    by (rule press_many(2) [OF assms(2) _ assms(9) _ len(2)]) (use open_q(1) in simp_all)
  have "dd_isShown ?m q" using open_q(1) by (simp add: open_for_keys_def Let_def)
  then show ?thesis using d u by (simp add: q_def [symmetric] Let_def)
qed

section \<open>Examples\<close>

text \<open>Two toggles, 0 with the menu 10 and 1 with the menu 11.\<close>

definition demo_dd_env :: dd_env where
  "demo_dd_env =
     \<lparr>dd_rtl = False, popper_loaded = True, dd_toggles = [0, 1], dd_menus = [10, 11], menu_of = (\<lambda>i. i + 10),
      toggle_of = (\<lambda>m. if m = 11 then 1 else 0), dd_parent = (\<lambda>i. 20), parent_classes = (\<lambda>i. [''dropdown'']),
      menu_position = (\<lambda>m. []), in_navbar = (\<lambda>i. False), menu_items = (\<lambda>m. [30, 31, 32]),
      dd_prevents = (\<lambda>p ev i. False), client_popper = (\<lambda>v c. c)\<rparr>"

definition plain_toggle :: styled where
  "plain_toggle = \<lparr>styles = [], attrs_of = [], class_list = []\<rparr>"

text \<open>If \<open>wrong\<close>, the first toggle has a number as its option \<open>display\<close>, which must be text.\<close>

definition demo_dd_page :: "bool \<Rightarrow> dd_page" where
  "demo_dd_page wrong =
     \<lparr>dd_doc = (\<lambda>e. plain_toggle\<lparr>attrs_of := if wrong \<and> e = 0 then [(''data-bs-display'', ''1'')] else []\<rparr>),
      dd_property = (\<lambda>e. None), dd_inst = (\<lambda>i. None), dd_focus = None, dd_events = []\<rparr>"

definition demo_dd_click :: "nat list \<Rightarrow> dd_input" where
  "demo_dd_click path = \<lparr>in_type = ''click'', in_key = [], in_button = 0, in_tag = ''BUTTON'', in_path = path\<rparr>"

lemma demo_dd_facts:
  "laid_out demo_dd_env" "distinct (dd_toggles demo_dd_env)" "unhindered demo_dd_env"
  "in_step demo_dd_env (demo_dd_page wrong)" "configured demo_dd_env (demo_dd_page wrong)"
  "dd_innermost (dd_toggles demo_dd_env) (demo_dd_click [t]) = (if t < 2 then Some t else None)"
  "in_type (demo_dd_click path) = ''click''" "in_button (demo_dd_click path) \<noteq> 2"
  "on_toggles demo_dd_env (DdShow 1)" "dd_inst (demo_dd_page wrong) i = None"
  by (auto simp: laid_out_def demo_dd_env_def inj_on_def unhindered_def in_step_def in_step_at_def dd_isShown_def demo_dd_page_def
        plain_toggle_def configured_def dd_innermost_def demo_dd_click_def numeral_2_eq_2)

lemma demo_dd_options:
  "isl (dropdown_config [(''data-bs-display'', ''1'')] (BObj []))" "\<not> isl (dropdown_config [] (BObj []))"
  by code_simp+


theorem dropdown_in_step_witness:
  "in_step demo_dd_env (dd_run demo_dd_env [DdShow 1, DdClick (demo_dd_click [0])] (demo_dd_page False))"
  by (rule dropdown_in_step) (use demo_dd_facts in simp_all)



text \<open>Three items: upwards to the last, on beyond the end, and twice back.\<close>

theorem dropdown_arrows_witness:
  "dd_focus ((dd_press demo_dd_env ''ArrowUp'' ''A'' 11 ^^ 2) ((dd_press demo_dd_env ''ArrowDown'' ''A'' 11 ^^ 4)
     (dd_keydown demo_dd_env (arrow ''ArrowUp'' ''A'' [1]) (fst (dd_getOrCreate demo_dd_env (BObj []) 1 (demo_dd_page False)))))) = Some 30"
proof -
  obtain c where c: "dropdown_config [] (BObj []) = Inr c" using demo_dd_options(2) by (cases "dropdown_config [] (BObj [])") auto
  define p where "p = fst (dd_getOrCreate demo_dd_env (BObj []) 1 (demo_dd_page False))"
  define d where "d = the (dd_inst p 1)"
  have p: "dd_inst p 1 = Some d" "dd_menu d = Some (menu_of demo_dd_env 1)"
    "\<not> isDisabled (dd_doc p 1) (dd_property p 1)" "\<not> isDisabled (dd_doc p (menu_of demo_dd_env 1)) (dd_property p (menu_of demo_dd_env 1))"
    "\<not> dd_isShown (menu_of demo_dd_env 1) p" "\<not> dd_isShown 1 p"
    by (simp_all add: p_def d_def dd_getOrCreate_def demo_dd_page_def plain_toggle_def c isDisabled_def dd_isShown_def demo_dd_env_def)
  have k: "keyboard_menu demo_dd_env 1" by (simp add: keyboard_menu_def demo_dd_env_def)
  have "\<not> tag_matches [''input'', ''textarea''] ''A''" by code_simp
  moreover have "menu_of demo_dd_env 1 = 11" "menu_items demo_dd_env 11 = [30, 31, 32]" by (simp_all add: demo_dd_env_def)
  ultimately show ?thesis
    unfolding p_def [symmetric] using dropdown_arrows [OF demo_dd_facts(3) k p, of "''A''" "''ArrowUp''" 2 4] by (simp add: Let_def)
qed

end
