(* ===== verification/Spec2Isabelle.thy ===== *)
theory Spec2Isabelle
  imports Method_Properties Validate_Properties Unobtrusive_Properties Jq_Properties Jq_Event_Properties
    Bs_Properties Bs_Modal_Properties Bs_Widget_Properties Bs_Nav_Properties Group_Methods Bs_EventHandler_Properties
    Bs_Offcanvas_Properties Bs_Tooltip_Properties
    Bs_Dropdown_Properties
begin

text \<open>
  This development models the JavaScript that the example application of this repository serves from
  \<open>src/examples/Example.AspNetCore.Mvc/wwwroot/lib\<close>: the form validation plugin with its additional methods, the
  adapter between it and ASP.NET, the parts of jQuery that both are built from, and the components of Bootstrap.

  \<^bold>\<open>How the parts work together.\<close> \<open>jquery.validate.js\<close> hangs a validator on a form. It finds the rules of a field,
  calls one method per rule (its own or those of \<open>additional-methods.js\<close>), keeps the errors and shows them, and holds
  a submit back until remote requests are answered. \<open>jquery.validate.unobtrusive.js\<close> makes those rules from
  \<open>data-val\<close> attributes when a page is parsed. Both merge objects by \<open>jQuery.extend\<close>, bind handlers by the event
  manager of jQuery, and wait for answers by its deferreds. The components of \<open>bootstrap.js\<close> are classes with one
  instance per element; each binds handlers by \<open>EventHandler\<close>, changes classes, attributes and inline styles, and
  leaves callbacks to the end of transitions.

  \<^bold>\<open>Theories and sources.\<close>

  \<^item> The language. \<open>Prelude\<close> has generic lemmas. \<open>Js_Strings\<close>, \<open>Js_Values\<close>, \<open>Js_Date\<close>, \<open>Js_Regex\<close> and
    \<open>Js_Regex_Syntax\<close> model what the scripts use of JavaScript: strings as lists of 8-bit code units, numbers as
    decimals, objects as association lists in the order of creation, dates as day numbers, and regular expressions,
    parsed from the text that stands in the source and run by a backtracking matcher.
  \<^item> \<open>additional-methods.js\<close>. \<open>Bank_Methods\<close>, \<open>Tax_Methods\<close> and \<open>Pattern_Methods\<close> have one definition per method, under
    its name; \<open>Bank_Proofs\<close>, \<open>Tax_Proofs\<close>, \<open>Pattern_Proofs\<close> and \<open>Method_Properties\<close> say what they accept.
    \<open>Group_Methods\<close> has \<open>require_from_group\<close> and \<open>skip_or_fill_minimum\<close>, which check other fields and so recurse. The
    comparisons with another field are in \<open>Validate_Core\<close>.
  \<^item> \<open>jquery.validate.js\<close>. \<open>Validate_Text\<close> has the templates of messages, \<open>Validate_State\<close> the record \<open>vstate\<close> of what the
    plugin keeps on \<open>this\<close> and of the part of the page it changes, \<open>Validate_Rules\<close> the sources of rules,
    \<open>Validate_Methods\<close> the built-in methods, \<open>Validate_Core\<close> checking and showing (\<open>check\<close>, \<open>form\<close>, \<open>element\<close>,
    \<open>remote\<close>), \<open>Validate_Events\<close> the events of a page and the answers of the server, \<open>Validate_Plugin\<close> the entry points.
    Lemmas are in \<open>Validate_Proofs\<close> and \<open>Validate_Invariants\<close>, the page of the examples in \<open>Validate_Demo\<close>, properties in
    \<open>Validate_Properties\<close>.
  \<^item> \<open>jquery.validate.unobtrusive.js\<close>. \<open>Unobtrusive\<close>, \<open>Unobtrusive_Proofs\<close>, \<open>Unobtrusive_Properties\<close>.
  \<^item> \<open>jquery.js\<close>. \<open>Jquery_Core\<close> has \<open>extend\<close> and the functions on arrays; \<open>Jq_Callbacks\<close> the lists of callbacks, fired step
    by step because the functions may change the list; \<open>Jq_Deferred\<close> the deferreds as a machine with timers, with
    \<open>Jq_Deferred_Invariant\<close>, \<open>Jq_Deferred_Proofs\<close> and \<open>Jq_Deferred_Runs\<close>; \<open>Jq_Events\<close> the event manager, with
    \<open>Jq_Events_Proofs\<close> and, for the pattern made from namespaces, \<open>Jq_Namespaces\<close>. Properties are in \<open>Jq_Properties\<close> and
    \<open>Jq_Event_Properties\<close>.
  \<^item> \<open>bootstrap.js\<close>. \<open>Bs_Util\<close> and \<open>Bs_Config\<close> have the helpers, the registry of instances and the options of all
    components; \<open>Bs_EventHandler\<close> (with \<open>_Proofs\<close> and \<open>_Properties\<close>) the event handler; \<open>Bs_Dom\<close> the elements that the
    components change; \<open>Bs_Sanitizer\<close>, \<open>Bs_Carousel\<close>, \<open>Bs_ScrollBar\<close>, \<open>Bs_Modal\<close> (with the backdrop and the focus trap),
    \<open>Bs_Offcanvas\<close>, \<open>Bs_Tooltip\<close> (with popovers), \<open>Bs_Dropdown\<close>, \<open>Bs_Toast\<close>, \<open>Bs_Collapse\<close>, \<open>Bs_ScrollSpy\<close> and \<open>Bs_Tab\<close>
    (with alerts and buttons) one component each. Properties are in \<open>Bs_Properties\<close>, \<open>Bs_Modal_Properties\<close>,
    \<open>Bs_Offcanvas_Properties\<close>, \<open>Bs_Tooltip_Properties\<close>, \<open>Bs_Dropdown_Properties\<close>,
    \<open>Bs_Widget_Properties\<close> and \<open>Bs_Nav_Properties\<close>.

  \<^bold>\<open>How the code is modelled.\<close> A definition has the name of its function where Isabelle allows it, and is executable. An
  object with methods is a record that the methods return updated. An exception is \<open>None\<close>, a constructor such as
  \<open>CThrow\<close> or \<open>RThrow\<close>, or a flag beside the state that was reached. What waits (a request, a timer, a transition)
  is a value in the state, and an event takes it up: a run is a list of calls and events, in any order. What the page
  or the client decides is an argument: what a selector finds, where elements lie, the size of an element, what a
  listener prevents, what a callback does. Where such an argument has to obey a law, the law is a named premise of the
  theorem, and the witness behind the theorem gives an instance.

  \<^bold>\<open>What the lemmas show.\<close>

  \<^item> Check digits: the loops compute weighted sums (equivalence with a closed form), which values they accept, and that
    a wrong digit or an exchange is detected. The locales \<open>position_code\<close> and \<open>weighted_code\<close> state when a sum detects
    an error; they are interpreted on the weights of the methods.
  \<^item> Patterns: the language of a regular expression of the source, against a description by numbers and lists.
  \<^item> Validator: an invariant of the counter of requests over every run, what a submit needs, how rules take precedence,
    when a form is valid; the locales \<open>stable\<close> and \<open>stable_run\<close> carry an invariant through every operation and run, and
    are interpreted on the two invariants that the properties need. \<open>keyed_store\<close> states the laws of an object with
    keys and is interpreted on the operations of \<open>Js_Values\<close>.
  \<^item> Groups: the nested checks of a group end and agree with the verdict on each field; which request is not counted.
  \<^item> Unobtrusive: what parsing keeps, and what the message containers show.
  \<^item> Deferreds: outcomes are final and exclusive, over every run and with functions that call back into the library.
    The locales \<open>step_relation\<close> and \<open>logging_relation\<close> carry a relation between worlds through all steps; three
    interpretations give what is monotone, what stays silent and what is handled the same.
  \<^item> Events: the form of the lists of handlers, the order of the calls, and the namespaces that \<open>off\<close> takes; for
    \<open>EventHandler\<close> also that the registry and the listeners agree, and that disposing of a component takes its own.
  \<^item> Components: invariants over every run (one active item, one open panel, classes), cycles that restore the page,
    components that never stay in transition, a simulation of the accordion by an abstract machine, the equality of the
    sanitizer with a filter, and runs in which calls during a transition leave a wrong state. \<open>slid_keeps\<close> is the
    interface of the carousel to the listeners of \<open>slid\<close>.

  \<^bold>\<open>Bounds and fuel.\<close> The parser of patterns has the text as its fuel, and the patterns of the source are parsed by
  evaluation, so that a pattern for which it did not suffice would not check. A nested check of groups needs two rounds,
  which is proved. Focus moves on at most once from an element that a trap puts it on, and the event \<open>slid\<close> is taken up
  at most once per listener of \<open>one\<close>; the fuel is three and the number of listeners. All other recursion is on lists.

  \<^bold>\<open>Not modelled.\<close> In \<open>jquery.js\<close>: the selector engine, manipulation and traversal of the document, attributes and
  styles, effects, ajax and its transports, which work on objects of the host, and \<open>trigger\<close>, \<open>pipe\<close>, \<open>when\<close> and the
  hooks for stack traces. In \<open>bootstrap.js\<close>: the listeners for
  touch devices of menus and tooltips; of \<open>Tooltip\<close> also delegation to the elements of a selector and content that is
  markup. Popper, which places menus, tooltips and popovers, is a package that is not part of the repository.
  \<open>bootstrap.esm.js\<close> and \<open>bootstrap.bundle.js\<close> are builds of the same sources and have no models of their own, nor have
  minified files. \<open>site.js\<close> is empty. The C# sources under \<open>src/src\<close> configure OpenTelemetry by calls of its packages.
\<close>

end
